(* ===== verification/Prelude.thy ===== *)
theory Prelude
  imports Main "HOL-Library.Word"
begin

text \<open>
  Vocabulary shared by every component: Go's \<^verbatim>\<open>[]byte\<close> and \<^verbatim>\<open>string\<close>, big-endian and
  little-endian integers, hexadecimal text, and 64-bit signed arithmetic; the interfaces
  (locales) of codecs and of state machines that the components instantiate.
\<close>

section \<open>Types\<close>

type_synonym byte = "8 word"
type_synonym bytes = "byte list"

text \<open>A fallible Go call \<^verbatim>\<open>(T, error)\<close> is a sum: \<open>Inl\<close> the error, \<open>Inr\<close> the value.\<close>

type_synonym ('e, 'a) result = "'e + 'a"

named_theorems bytes_simps \<open>lengths and round trips of byte strings\<close>
named_theorems wire_defs \<open>definitions of the wire layer that unfold in evaluation\<close>

section \<open>Strings and bytes\<close>

lemma unat_bound: "unat (w :: 'a::len word) < 2 ^ LENGTH('a)"
  by (rule unsigned_less)

lemma unat_byte_less: "unat (b :: byte) < 256"
  using unat_bound [of b] by simp

lemma unat_byte_of_nat: "n < 256 \<Longrightarrow> unat (of_nat n :: byte) = n"
  by (simp add: unat_of_nat take_bit_eq_mod)

definition bytes_of_string :: "string \<Rightarrow> bytes" where
  "bytes_of_string s = map of_char s"

definition string_of_bytes :: "bytes \<Rightarrow> string" where
  "string_of_bytes bs = map (\<lambda>b. char_of (unat b)) bs"

lemma length_bytes_of_string [simp]: "length (bytes_of_string s) = length s"
  by (simp add: bytes_of_string_def)

lemma length_string_of_bytes [simp]: "length (string_of_bytes bs) = length bs"
  by (simp add: string_of_bytes_def)

lemma string_of_bytes_of_string [simp]: "string_of_bytes (bytes_of_string s) = s"
proof -
  have "char_of (unat (of_char c :: byte)) = c" for c
  proof -
    have eq: "(of_char c :: byte) = of_nat (of_char c)"
      by (rule of_nat_of_char [symmetric])
    have "unat (of_nat (of_char c) :: byte) = of_char c"
      by (rule unat_byte_of_nat) simp
    then show ?thesis unfolding eq by simp
  qed
  then show ?thesis
    by (simp add: string_of_bytes_def bytes_of_string_def comp_def)
qed

lemma bytes_of_string_of_bytes [simp]: "bytes_of_string (string_of_bytes bs) = bs"
proof -
  have "(of_char (char_of (unat b)) :: byte) = b" for b :: byte
  proof -
    have "(of_char (char_of (unat b)) :: byte) = of_nat (of_char (char_of (unat b)))"
      by (rule of_nat_of_char [symmetric])
    also have "\<dots> = of_nat (unat b mod 256)" by (simp add: of_char_of)
    also have "\<dots> = b" using unat_byte_less [of b] by simp
    finally show ?thesis .
  qed
  then show ?thesis by (simp add: string_of_bytes_def bytes_of_string_def comp_def)
qed

lemma bytes_of_string_inject [simp]: "bytes_of_string s = bytes_of_string t \<longleftrightarrow> s = t"
  by (metis string_of_bytes_of_string)

lemma bytes_of_string_append [simp]:
  "bytes_of_string (s @ t) = bytes_of_string s @ bytes_of_string t"
  by (simp add: bytes_of_string_def)

section \<open>Fixed-width integers as bytes\<close>

text \<open>\<open>nat_be n x\<close> is the low \<open>n\<close> bytes of \<open>x\<close>, most significant first
  (\<^verbatim>\<open>binary.BigEndian.PutUint*\<close>); \<open>be_nat\<close> reads them back (\<^verbatim>\<open>binary.BigEndian.Uint*\<close>).\<close>

fun nat_be :: "nat \<Rightarrow> nat \<Rightarrow> bytes" where
  "nat_be 0 x = []"
| "nat_be (Suc n) x = nat_be n (x div 256) @ [of_nat (x mod 256)]"

fun be_nat_acc :: "nat \<Rightarrow> bytes \<Rightarrow> nat" where
  "be_nat_acc acc [] = acc"
| "be_nat_acc acc (b # bs) = be_nat_acc (acc * 256 + unat b) bs"

definition be_nat :: "bytes \<Rightarrow> nat" where
  "be_nat bs = be_nat_acc 0 bs"

lemma be_nat_acc_snoc: "be_nat_acc acc (bs @ [b]) = be_nat_acc acc bs * 256 + unat b"
  by (induction acc bs rule: be_nat_acc.induct) simp_all

lemma be_nat_Nil [simp]: "be_nat [] = 0"
  by (simp add: be_nat_def)

lemma be_nat_snoc [simp]: "be_nat (bs @ [b]) = be_nat bs * 256 + unat b"
  by (simp add: be_nat_def be_nat_acc_snoc)

lemma length_nat_be [simp]: "length (nat_be n x) = n"
  by (induction n arbitrary: x) simp_all

lemma be_nat_nat_be [simp]: "be_nat (nat_be n x) = x mod 256 ^ n"
proof (induction n arbitrary: x)
  case 0
  then show ?case by simp
next
  case (Suc n)
  have "unat (of_nat (x mod 256) :: byte) = x mod 256"
    by (rule unat_byte_of_nat) simp
  with Suc show ?case by (simp add: mod_mult2_eq mult.commute)
qed

lemma be_nat_less: "be_nat bs < 256 ^ length bs"
proof (induction bs rule: rev_induct)
  case Nil
  then show ?case by simp
next
  case (snoc b bs)
  have "unat b < 256" using unat_byte_less [of b] by simp
  with snoc show ?case by simp
qed

lemma nat_be_be_nat [simp]: "nat_be (length bs) (be_nat bs) = bs"
proof (induction bs rule: rev_induct)
  case Nil
  then show ?case by simp
next
  case (snoc b bs)
  have "unat b < 256" using unat_byte_less [of b] by simp
  with snoc show ?case by simp
qed

definition put16 :: "16 word \<Rightarrow> bytes" where "put16 w = nat_be 2 (unat w)"
definition put32 :: "32 word \<Rightarrow> bytes" where "put32 w = nat_be 4 (unat w)"
definition put64 :: "64 word \<Rightarrow> bytes" where "put64 w = nat_be 8 (unat w)"
definition get16 :: "bytes \<Rightarrow> 16 word" where "get16 bs = of_nat (be_nat bs)"
definition get32 :: "bytes \<Rightarrow> 32 word" where "get32 bs = of_nat (be_nat bs)"
definition get64 :: "bytes \<Rightarrow> 64 word" where "get64 bs = of_nat (be_nat bs)"

lemma length_put [simp]:
  shows "length (put16 v) = 2" and "length (put32 w) = 4" and "length (put64 x) = 8"
  by (simp_all add: put16_def put32_def put64_def)

lemma get_put [simp]:
  shows "get16 (put16 v) = v" and "get32 (put32 w) = w" and "get64 (put64 x) = x"
  using unat_bound [of v] unat_bound [of w] unat_bound [of x]
  by (simp_all add: put16_def put32_def put64_def get16_def get32_def get64_def)

text \<open>Little-endian, for the RFC 9382 length prefixes.\<close>

definition nat_le :: "nat \<Rightarrow> nat \<Rightarrow> bytes" where
  "nat_le n x = rev (nat_be n x)"

lemma length_nat_le [simp]: "length (nat_le n x) = n"
  by (simp add: nat_le_def)

lemma nat_be_inject:
  assumes "x < 256 ^ n" and "y < 256 ^ n" and "nat_be n x = nat_be n y"
  shows "x = y"
proof -
  have "be_nat (nat_be n x) = be_nat (nat_be n y)" using assms(3) by simp
  with assms(1,2) show ?thesis by simp
qed

section \<open>Hexadecimal text\<close>

text \<open>\<^verbatim>\<open>hex.EncodeToString\<close>: two lowercase digits per byte.\<close>

definition hex_digit :: "nat \<Rightarrow> char" where
  "hex_digit n = ''0123456789abcdef'' ! (n mod 16)"

definition hex_byte :: "byte \<Rightarrow> string" where
  "hex_byte b = [hex_digit (unat b div 16), hex_digit (unat b mod 16)]"

definition hex_encode :: "bytes \<Rightarrow> string" where
  "hex_encode bs = concat (map hex_byte bs)"

definition is_lower_hex_char :: "char \<Rightarrow> bool" where
  "is_lower_hex_char c \<longleftrightarrow> c \<in> set ''0123456789abcdef''"

lemma length_hex_encode [simp]: "length (hex_encode bs) = 2 * length bs"
  by (induction bs) (simp_all add: hex_encode_def hex_byte_def)

lemma hex_digit_lower: "is_lower_hex_char (hex_digit n)"
proof -
  have "n mod 16 < length ''0123456789abcdef''" by simp
  then show ?thesis unfolding is_lower_hex_char_def hex_digit_def by (rule nth_mem)
qed

lemma hex_encode_lower: "list_all is_lower_hex_char (hex_encode bs)"
  by (induction bs) (simp_all add: hex_encode_def hex_byte_def hex_digit_lower)

lemma hex_digit_inject:
  assumes "m < 16" and "n < 16" and "hex_digit m = hex_digit n"
  shows "m = n"
proof -
  have "distinct ''0123456789abcdef''" by simp
  moreover have "m < length ''0123456789abcdef''" "n < length ''0123456789abcdef''"
    using assms by simp_all
  ultimately show ?thesis
    using assms nth_eq_iff_index_eq [of "''0123456789abcdef''" m n] by (simp add: hex_digit_def)
qed

lemma hex_byte_inject: "hex_byte a = hex_byte b \<Longrightarrow> a = b"
proof -
  assume eq: "hex_byte a = hex_byte b"
  have a: "unat a < 256" and b: "unat b < 256" by (rule unat_byte_less)+
  have "unat a div 16 = unat b div 16"
    by (rule hex_digit_inject) (use a b eq in \<open>simp_all add: hex_byte_def less_mult_imp_div_less\<close>)
  moreover have "unat a mod 16 = unat b mod 16"
    by (rule hex_digit_inject) (use eq in \<open>simp_all add: hex_byte_def\<close>)
  ultimately have "unat a = unat b" by (metis div_mult_mod_eq)
  then show "a = b" by (rule unsigned_word_eqI)
qed

lemma hex_encode_inject: "hex_encode xs = hex_encode ys \<Longrightarrow> xs = ys"
proof (induction xs arbitrary: ys)
  case Nil
  then have "length (hex_encode ys) = 0" by (simp add: hex_encode_def)
  then show ?case by simp
next
  case (Cons x xs)
  have "length ys = length (x # xs)"
    using arg_cong [OF Cons.prems, of length] by simp
  then obtain y ys' where ys: "ys = y # ys'" by (cases ys) auto
  with Cons.prems have "hex_byte x = hex_byte y" and "hex_encode xs = hex_encode ys'"
    by (simp_all add: hex_encode_def hex_byte_def)
  with Cons.IH ys show ?case by (simp add: hex_byte_inject)
qed

section \<open>Signed 64-bit integers\<close>

text \<open>Go's \<^verbatim>\<open>int\<close> and \<^verbatim>\<open>int64\<close> on the supported platforms; \<open>s64\<close> is the two's
  complement wrap-around of an exact result.\<close>

definition max_int64 :: int where "max_int64 = 9223372036854775807"
definition min_int64 :: int where "min_int64 = - 9223372036854775808"

definition s64 :: "int \<Rightarrow> int" where
  "s64 x = (x + 9223372036854775808) mod 18446744073709551616 - 9223372036854775808"

definition in_s64 :: "int \<Rightarrow> bool" where
  "in_s64 x \<longleftrightarrow> min_int64 \<le> x \<and> x \<le> max_int64"

lemma s64_id: "in_s64 x \<Longrightarrow> s64 x = x"
  by (simp add: in_s64_def s64_def min_int64_def max_int64_def)

lemma s64_range: "in_s64 (s64 x)"
  unfolding in_s64_def s64_def min_int64_def max_int64_def
  using pos_mod_bound [of 18446744073709551616 "x + 9223372036854775808"]
    pos_mod_sign [of 18446744073709551616 "x + 9223372036854775808"] by linarith

text \<open>Go's integer division and remainder truncate towards zero.\<close>

definition go_div :: "int \<Rightarrow> int \<Rightarrow> int" where
  "go_div a b = sgn a * sgn b * (\<bar>a\<bar> div \<bar>b\<bar>)"

lemma go_div_nonneg: "0 \<le> a \<Longrightarrow> 0 < b \<Longrightarrow> go_div a b = a div b"
  by (cases "a = 0") (simp_all add: go_div_def)

section \<open>Fallible steps on a state\<close>

text \<open>Go's \<^verbatim>\<open>if err := f(); err != nil { return err }\<close> followed by \<open>g\<close>, for methods that change
  their receiver and return an error.\<close>

type_synonym ('e, 's) step = "'s \<Rightarrow> 'e option \<times> 's"

definition and_then :: "('e, 's) step \<Rightarrow> ('e, 's) step \<Rightarrow> ('e, 's) step" where
  "and_then f g s = (case f s of (er, s') \<Rightarrow> (case er of Some e \<Rightarrow> (Some e, s') | None \<Rightarrow> g s'))"

text \<open>From \<open>P\<close>, the step ends in \<open>Q\<close> when it succeeds and in \<open>E\<close> when it fails.\<close>

definition valid :: "('s \<Rightarrow> bool) \<Rightarrow> ('e, 's) step \<Rightarrow> ('s \<Rightarrow> bool) \<Rightarrow> ('s \<Rightarrow> bool) \<Rightarrow> bool" where
  "valid P f Q E \<longleftrightarrow> (\<forall>s. P s \<longrightarrow> (case f s of (None, t) \<Rightarrow> Q t | (Some _, t) \<Rightarrow> E t))"

lemma validI:
  "(\<And>s t. P s \<Longrightarrow> f s = (None, t) \<Longrightarrow> Q t) \<Longrightarrow> (\<And>s e t. P s \<Longrightarrow> f s = (Some e, t) \<Longrightarrow> E t) \<Longrightarrow> valid P f Q E"
  by (auto simp: valid_def split: option.splits prod.splits)

lemma valid_bothI:
  assumes "\<And>s r t. P s \<Longrightarrow> f s = (r, t) \<Longrightarrow> (r = None \<longrightarrow> Q t) \<and> (r \<noteq> None \<longrightarrow> E t)"
  shows "valid P f Q E"
  by (rule validI) (use assms in blast)+

lemma valid_okD: "valid P f Q E \<Longrightarrow> P s \<Longrightarrow> f s = (None, t) \<Longrightarrow> Q t"
  by (auto simp: valid_def)

lemma valid_errD: "valid P f Q E \<Longrightarrow> P s \<Longrightarrow> f s = (Some e, t) \<Longrightarrow> E t"
  by (auto simp: valid_def)

lemma valid_bothD:
  "valid P f Q E \<Longrightarrow> P s \<Longrightarrow> f s = (r, t) \<Longrightarrow> (r = None \<longrightarrow> Q t) \<and> (r \<noteq> None \<longrightarrow> E t)"
  by (cases r) (auto simp: valid_def)

lemma and_then_cases:
  assumes "and_then f g s = (r, u)"
  obtains (failed) e where "f s = (Some e, u)" and "r = Some e"
  | (ok) t where "f s = (None, t)" and "g t = (r, u)"
  using assms by (auto simp: and_then_def split: option.splits prod.splits)

lemma valid_and_then:
  assumes "valid P f Q E" and "valid Q g R E"
  shows "valid P (and_then f g) R E"
proof (rule validI)
  show "P s \<Longrightarrow> and_then f g s = (None, t) \<Longrightarrow> R t" for s t
    using valid_okD [OF assms(1)] valid_okD [OF assms(2)] by (elim and_then_cases) auto
  show "P s \<Longrightarrow> and_then f g s = (Some e, t) \<Longrightarrow> E t" for s e t
    by (elim and_then_cases)
      (blast dest: valid_errD [OF assms(1)], blast dest: valid_okD [OF assms(1)] valid_errD [OF assms(2)])
qed

lemma valid_weaken:
  assumes "valid P f Q E" and "\<And>s. P' s \<Longrightarrow> P s" and "\<And>s. Q s \<Longrightarrow> Q' s" and "\<And>s. E s \<Longrightarrow> E' s"
  shows "valid P' f Q' E'"
  using assms by (intro validI) (auto dest: valid_okD [OF assms(1)] valid_errD [OF assms(1)])

lemma and_then_None: "f s = (None, t) \<Longrightarrow> and_then f g s = g t"
  by (simp add: and_then_def)

lemma and_then_Some: "f s = (Some e, t) \<Longrightarrow> and_then f g s = (Some e, t)"
  by (simp add: and_then_def)

lemma and_then_okE:
  assumes "and_then f g s = (None, u)"
  obtains t where "f s = (None, t)" and "g t = (None, u)"
  using assms by (auto simp: and_then_def split: option.splits prod.splits)

section \<open>Interfaces\<close>

text \<open>A wire codec: decoding undoes encoding on the well-formed values, so encoding loses
  nothing.\<close>

locale codec =
  fixes enc :: "'a \<Rightarrow> 'b" and dec :: "'b \<Rightarrow> 'e + 'a" and ok :: "'a \<Rightarrow> bool"
  assumes dec_enc: "ok x \<Longrightarrow> dec (enc x) = Inr x"
begin

lemma enc_inject: "ok x \<Longrightarrow> ok y \<Longrightarrow> enc x = enc y \<longleftrightarrow> x = y"
  using dec_enc by (metis sum.inject(2))

lemma inj_on_enc: "inj_on enc {x. ok x}"
  by (rule inj_onI) (simp add: enc_inject)

lemma dec_total: "ok x \<Longrightarrow> \<exists>y. dec (enc x) = Inr y"
  by (simp add: dec_enc)

end

text \<open>A state machine with a deterministic step: an invariant that holds at the start and is
  kept by every step holds after every run.\<close>

locale machine =
  fixes step :: "'s \<Rightarrow> 'e \<Rightarrow> 's" and inv :: "'s \<Rightarrow> bool"
  assumes inv_step: "inv s \<Longrightarrow> inv (step s e)"
begin

lemma inv_run: "inv s \<Longrightarrow> inv (foldl step s es)"
  by (induction es arbitrary: s) (simp_all add: inv_step)

end

text \<open>A reflexive and transitive relation between the states before and after every step holds
  between the ends of every run.\<close>

locale evolving_machine =
  fixes step :: "'s \<Rightarrow> 'e \<Rightarrow> 's" and rel :: "'s \<Rightarrow> 's \<Rightarrow> bool"
  assumes rel_refl: "rel s s" and rel_trans: "rel s t \<Longrightarrow> rel t u \<Longrightarrow> rel s u"
    and step_rel: "rel s (step s e)"
begin

lemma run_rel: "rel s (foldl step s es)"
proof (induction es arbitrary: s)
  case (Cons e es)
  show ?case using rel_trans [OF step_rel Cons.IH] by simp
qed (simp add: rel_refl)

lemma run_rel_between: "rel (foldl step s es) (foldl step s (es @ es'))"
  using run_rel by simp

end

end
