(* ===== verification/Errors.thy ===== *)
theory Errors
  imports Prelude
begin

text \<open>
  The error values of the wire layer: the classes of \<^verbatim>\<open>errors.go\<close>, the transfer failure
  reasons and \<^verbatim>\<open>TransferError\<close> of \<^verbatim>\<open>transfer_ports.go\<close>, and the classification \<^verbatim>\<open>CodeOf\<close>.
  The text of an error is its format string without the formatted arguments.
\<close>

section \<open>Error classes (errors.go)\<close>

datatype ErrorCode =
    CodeAuth | CodeProtocol | CodeConnection | CodeRelay | CodeRetryExhausted | CodeCanceled
  | CodeStorage | CodeSourceIO | CodeDestIO | CodeCompat | CodeInternal

fun ErrorCode_string :: "ErrorCode \<Rightarrow> string" where
  "ErrorCode_string CodeAuth = ''AUTH''"
| "ErrorCode_string CodeProtocol = ''PROTOCOL''"
| "ErrorCode_string CodeConnection = ''CONNECTION''"
| "ErrorCode_string CodeRelay = ''RELAY''"
| "ErrorCode_string CodeRetryExhausted = ''RETRY_EXHAUSTED''"
| "ErrorCode_string CodeCanceled = ''CANCELED''"
| "ErrorCode_string CodeStorage = ''STORAGE''"
| "ErrorCode_string CodeSourceIO = ''SOURCE_IO''"
| "ErrorCode_string CodeDestIO = ''DEST_IO''"
| "ErrorCode_string CodeCompat = ''COMPAT''"
| "ErrorCode_string CodeInternal = ''INTERNAL''"

section \<open>Transfer failure reasons (transfer\_ports.go)\<close>

datatype FailReason =
    FailDigestMismatch | FailIntegrity | FailSinkError | FailCanceled | FailQuota
  | FailRetryExhausted

fun FailReason_string :: "FailReason \<Rightarrow> string" where
  "FailReason_string FailDigestMismatch = ''digest_mismatch''"
| "FailReason_string FailIntegrity = ''integrity''"
| "FailReason_string FailSinkError = ''sink_error''"
| "FailReason_string FailCanceled = ''canceled''"
| "FailReason_string FailQuota = ''quota''"
| "FailReason_string FailRetryExhausted = ''retry_exhausted''"

record TransferError =
  Reason :: FailReason
  Message :: string

definition NewTransferError :: "FailReason \<Rightarrow> string \<Rightarrow> TransferError" where
  "NewTransferError reason message = \<lparr>Reason = reason, Message = message\<rparr>"

definition TransferError_Error :: "TransferError \<Rightarrow> string" where
  "TransferError_Error e = (if Message e \<noteq> '''' then FailReason_string (Reason e) @ '': '' @ Message e
     else FailReason_string (Reason e))"

section \<open>Go error values\<close>

text \<open>
  One constructor per dynamic type an error of the wire layer can have: the classified
  \<^verbatim>\<open>*Error\<close>, \<^verbatim>\<open>errors.New\<close>/\<^verbatim>\<open>fmt.Errorf\<close> values, \<^verbatim>\<open>*TransferError\<close>, a wrapped
  \<^verbatim>\<open>ErrFrameReplay\<close>, the sentinel \<^verbatim>\<open>errSenderSettled\<close> and \<^verbatim>\<open>context.Canceled\<close>.
\<close>

datatype err =
    Classified ErrorCode string
  | Plain string
  | Transfer TransferError
  | FrameReplay
  | SenderSettled
  | ContextCanceled

fun err_text :: "err \<Rightarrow> string" where
  "err_text (Classified c m) = m"
| "err_text (Plain m) = m"
| "err_text (Transfer e) = TransferError_Error e"
| "err_text FrameReplay = ''frame counter replay''"
| "err_text SenderSettled = ''sender settled''"
| "err_text ContextCanceled = ''context canceled''"

fun CodeOf :: "err \<Rightarrow> ErrorCode" where
  "CodeOf (Classified c m) = c"
| "CodeOf FrameReplay = CodeProtocol"
| "CodeOf ContextCanceled = CodeCanceled"
| "CodeOf _ = CodeInternal"

definition asTransferError :: "err \<Rightarrow> FailReason \<Rightarrow> TransferError" where
  "asTransferError e fallback = (case e of Transfer t \<Rightarrow> t
     | _ \<Rightarrow> NewTransferError fallback (err_text e))"

section \<open>Facts\<close>

lemma ErrorCode_string_inject: "ErrorCode_string c = ErrorCode_string d \<Longrightarrow> c = d"
  by (cases c; cases d) simp_all

lemma FailReason_string_inject: "FailReason_string c = FailReason_string d \<Longrightarrow> c = d"
  by (cases c; cases d) simp_all

lemma Reason_NewTransferError [simp]: "Reason (NewTransferError r m) = r"
  by (simp add: NewTransferError_def)

end
