(* ===== verification/GoCrypto.thy ===== *)
theory GoCrypto
  imports Prelude
begin

unbundle bit_operations_syntax

text \<open>
  The primitives of Go's standard library that the wire layer calls: SHA-256
  (\<^verbatim>\<open>crypto/sha256\<close>), HMAC and HKDF over it (\<^verbatim>\<open>crypto/hmac\<close>, \<^verbatim>\<open>crypto/hkdf\<close>), the AES block
  cipher (\<^verbatim>\<open>crypto/aes\<close>) and Galois/counter mode with a 12-byte nonce and a 16-byte tag
  (\<^verbatim>\<open>crypto/cipher\<close>).  They are executable definitions following FIPS 180-4, RFC 2104,
  RFC 5869, FIPS 197 and NIST SP 800-38D, so that no theorem about the wire layer rests on an
  assumption about them.  Nothing here claims a cryptographic strength: what the protocol
  proofs use is that the functions are functions, the lengths of their results, and that
  opening undoes sealing.
\<close>

section \<open>SHA-256\<close>

definition sha_K :: "32 word list" where
  "sha_K = [
     1116352408, 1899447441, 3049323471, 3921009573, 961987163, 1508970993,
     2453635748, 2870763221, 3624381080, 310598401, 607225278, 1426881987,
     1925078388, 2162078206, 2614888103, 3248222580, 3835390401, 4022224774,
     264347078, 604807628, 770255983, 1249150122, 1555081692, 1996064986,
     2554220882, 2821834349, 2952996808, 3210313671, 3336571891, 3584528711,
     113926993, 338241895, 666307205, 773529912, 1294757372, 1396182291,
     1695183700, 1986661051, 2177026350, 2456956037, 2730485921, 2820302411,
     3259730800, 3345764771, 3516065817, 3600352804, 4094571909, 275423344,
     430227734, 506948616, 659060556, 883997877, 958139571, 1322822218,
     1537002063, 1747873779, 1955562222, 2024104815, 2227730452, 2361852424,
     2428436474, 2756734187, 3204031479, 3329325298]"

definition sha_H0 :: "32 word list" where
  "sha_H0 = [1779033703, 3144134277, 1013904242, 2773480762, 1359893119, 2600822924,
     528734635, 1541459225]"

definition rotr32 :: "nat \<Rightarrow> 32 word \<Rightarrow> 32 word" where
  "rotr32 n x = drop_bit n x OR push_bit (32 - n) x"

definition sha_bsig0 :: "32 word \<Rightarrow> 32 word" where
  "sha_bsig0 x = rotr32 2 x XOR rotr32 13 x XOR rotr32 22 x"
definition sha_bsig1 :: "32 word \<Rightarrow> 32 word" where
  "sha_bsig1 x = rotr32 6 x XOR rotr32 11 x XOR rotr32 25 x"
definition sha_ssig0 :: "32 word \<Rightarrow> 32 word" where
  "sha_ssig0 x = rotr32 7 x XOR rotr32 18 x XOR drop_bit 3 x"
definition sha_ssig1 :: "32 word \<Rightarrow> 32 word" where
  "sha_ssig1 x = rotr32 17 x XOR rotr32 19 x XOR drop_bit 10 x"

text \<open>The message schedule is kept newest word first.\<close>

fun sha_schedule :: "nat \<Rightarrow> 32 word list \<Rightarrow> 32 word list" where
  "sha_schedule 0 ws = ws"
| "sha_schedule (Suc n) ws =
     sha_schedule n ((sha_ssig1 (ws ! 1) + ws ! 6 + sha_ssig0 (ws ! 14) + ws ! 15) # ws)"

fun sha_round :: "32 word list \<Rightarrow> 32 word \<times> 32 word \<Rightarrow> 32 word list" where
  "sha_round [a, b, c, d, e, f, g, h] (k, w) =
     (let t1 = h + sha_bsig1 e + ((e AND f) XOR (NOT e AND g)) + k + w;
          t2 = sha_bsig0 a + ((a AND b) XOR (a AND c) XOR (b AND c))
      in [t1 + t2, a, b, c, d + t1, e, f, g])"
| "sha_round s _ = s"

fun words_be :: "nat \<Rightarrow> bytes \<Rightarrow> 32 word list" where
  "words_be 0 bs = []"
| "words_be (Suc n) bs = get32 (take 4 bs) # words_be n (drop 4 bs)"

definition sha_block :: "32 word list \<Rightarrow> bytes \<Rightarrow> 32 word list" where
  "sha_block h blk =
     (let ws = rev (sha_schedule 48 (rev (words_be 16 blk)))
      in map2 (+) h (foldl sha_round h (zip sha_K ws)))"

definition sha_pad :: "bytes \<Rightarrow> bytes" where
  "sha_pad m = m @ [0x80] @ replicate ((119 - length m mod 64) mod 64) 0
      @ nat_be 8 (8 * length m)"

fun sha_blocks :: "nat \<Rightarrow> 32 word list \<Rightarrow> bytes \<Rightarrow> 32 word list" where
  "sha_blocks 0 h bs = h"
| "sha_blocks (Suc n) h bs = sha_blocks n (sha_block h (take 64 bs)) (drop 64 bs)"

definition sha256 :: "bytes \<Rightarrow> bytes" where
  "sha256 m = (let p = sha_pad m in concat (map put32 (sha_blocks (length p div 64) sha_H0 p)))"

lemma length_sha_round: "length s = 8 \<Longrightarrow> length (sha_round s kw) = 8"
  by (cases "(s, kw)" rule: sha_round.cases) (simp_all add: Let_def)

lemma length_foldl_sha_round: "length s = 8 \<Longrightarrow> length (foldl sha_round s kws) = 8"
  by (induction kws arbitrary: s) (simp_all add: length_sha_round)

lemma length_sha_block: "length h = 8 \<Longrightarrow> length (sha_block h blk) = 8"
  by (simp add: sha_block_def Let_def length_foldl_sha_round)

lemma length_sha_blocks: "length h = 8 \<Longrightarrow> length (sha_blocks n h bs) = 8"
  by (induction n arbitrary: h bs) (simp_all add: length_sha_block)

lemma length_sha256 [simp]: "length (sha256 m) = 32"
proof -
  have "length (concat (map put32 ws)) = 4 * length ws" for ws
    by (induction ws) simp_all
  then show ?thesis
    by (simp add: sha256_def Let_def length_sha_blocks sha_H0_def)
qed

section \<open>HMAC and HKDF\<close>

definition hmac_sha256 :: "bytes \<Rightarrow> bytes \<Rightarrow> bytes" where
  "hmac_sha256 key msg =
     (let k0 = (if 64 < length key then sha256 key else key);
          k = k0 @ replicate (64 - length k0) 0
      in sha256 (map (\<lambda>b. b XOR 0x5c) k @ sha256 (map (\<lambda>b. b XOR 0x36) k @ msg)))"

fun hkdf_expand :: "nat \<Rightarrow> nat \<Rightarrow> bytes \<Rightarrow> bytes \<Rightarrow> bytes \<Rightarrow> bytes" where
  "hkdf_expand 0 i prk info t = []"
| "hkdf_expand (Suc n) i prk info t =
     (let t' = hmac_sha256 prk (t @ info @ [of_nat i])
      in t' @ hkdf_expand n (Suc i) prk info t')"

text \<open>\<^verbatim>\<open>hkdf.Key\<close>; the empty salt stands for 32 zero bytes (RFC 5869).  More than
  255 blocks are refused.\<close>

definition hkdf_key :: "bytes \<Rightarrow> bytes \<Rightarrow> bytes \<Rightarrow> nat \<Rightarrow> bytes option" where
  "hkdf_key ikm salt info len =
     (if 255 * 32 < len then None
      else Some (let prk = hmac_sha256 (if salt = [] then replicate 32 0 else salt) ikm
                 in take len (hkdf_expand ((len + 31) div 32) 1 prk info [])))"

lemma length_hmac_sha256 [simp]: "length (hmac_sha256 k m) = 32"
  by (simp add: hmac_sha256_def Let_def)

lemma length_hkdf_expand [simp]: "length (hkdf_expand n i prk info t) = 32 * n"
  by (induction n i prk info t rule: hkdf_expand.induct) (simp_all add: Let_def)

lemma length_hkdf_key: "hkdf_key ikm salt info len = Some out \<Longrightarrow> length out = len"
  by (auto simp: hkdf_key_def Let_def min_def split: if_splits)

section \<open>The AES block cipher\<close>

definition xtime :: "byte \<Rightarrow> byte" where
  "xtime x = push_bit 1 x XOR (if bit x 7 then 0x1b else 0)"

fun gf_mul :: "nat \<Rightarrow> byte \<Rightarrow> byte \<Rightarrow> byte" where
  "gf_mul 0 a b = 0"
| "gf_mul (Suc n) a b = (if bit b 0 then a else 0) XOR gf_mul n (xtime a) (drop_bit 1 b)"

definition gmul :: "byte \<Rightarrow> byte \<Rightarrow> byte" where
  "gmul a b = gf_mul 8 a b"

text \<open>The inverse in GF(2^8) is the 254th power; it maps 0 to 0.\<close>

fun gpow :: "nat \<Rightarrow> byte \<Rightarrow> byte" where
  "gpow 0 a = 1"
| "gpow (Suc n) a = gmul a (gpow n a)"

definition rotl8 :: "nat \<Rightarrow> byte \<Rightarrow> byte" where
  "rotl8 n x = push_bit n x OR drop_bit (8 - n) x"

definition sub_byte :: "byte \<Rightarrow> byte" where
  "sub_byte x = (let i = gpow 254 x
     in i XOR rotl8 1 i XOR rotl8 2 i XOR rotl8 3 i XOR rotl8 4 i XOR 0x63)"

fun xor_bytes :: "bytes \<Rightarrow> bytes \<Rightarrow> bytes" where
  "xor_bytes (a # as) (b # bs) = (a XOR b) # xor_bytes as bs"
| "xor_bytes _ _ = []"

text \<open>Key expansion, newest 4-byte word first; \<open>nk\<close> is the key length in words.\<close>

fun aes_expand :: "nat \<Rightarrow> nat \<Rightarrow> nat \<Rightarrow> byte \<Rightarrow> bytes list \<Rightarrow> bytes list" where
  "aes_expand nk i 0 rcon ws = ws"
| "aes_expand nk i (Suc n) rcon ws =
     (let t = ws ! 0;
          t' = (if i mod nk = 0 then xor_bytes (map sub_byte (rotate1 t)) [rcon, 0, 0, 0]
                else if 6 < nk \<and> i mod nk = 4 then map sub_byte t else t);
          w = xor_bytes (ws ! (nk - 1)) t'
      in aes_expand nk (Suc i) n (if i mod nk = 0 then xtime rcon else rcon) (w # ws))"

fun split4 :: "nat \<Rightarrow> bytes \<Rightarrow> bytes list" where
  "split4 0 bs = []"
| "split4 (Suc n) bs = take 4 bs # split4 n (drop 4 bs)"

definition aes_round_keys :: "bytes \<Rightarrow> bytes list" where
  "aes_round_keys key = (let nk = length key div 4; nr = nk + 6;
      ws = rev (aes_expand nk nk (4 * (nr + 1) - nk) 1 (rev (split4 nk key)))
    in map (\<lambda>r. concat (take 4 (drop (4 * r) ws))) [0..<nr + 1])"

definition shift_rows :: "bytes \<Rightarrow> bytes" where
  "shift_rows s = map (\<lambda>i. s ! ((i + 4 * (i mod 4)) mod 16)) [0..<16]"

fun mix_column :: "bytes \<Rightarrow> bytes" where
  "mix_column [a, b, c, d] =
     [gmul 2 a XOR gmul 3 b XOR c XOR d, a XOR gmul 2 b XOR gmul 3 c XOR d,
      a XOR b XOR gmul 2 c XOR gmul 3 d, gmul 3 a XOR b XOR c XOR gmul 2 d]"
| "mix_column s = s"

fun aes_rounds :: "bytes list \<Rightarrow> bytes \<Rightarrow> bytes" where
  "aes_rounds [] s = s"
| "aes_rounds [k] s = xor_bytes (shift_rows (map sub_byte s)) k"
| "aes_rounds (k # ks) s =
     aes_rounds ks (xor_bytes (concat (map mix_column (split4 4 (shift_rows (map sub_byte s))))) k)"

definition aes_encrypt :: "bytes \<Rightarrow> bytes \<Rightarrow> bytes" where
  "aes_encrypt key blk = (case aes_round_keys key of [] \<Rightarrow> blk
     | k # ks \<Rightarrow> aes_rounds ks (xor_bytes blk k))"

section \<open>Galois/counter mode\<close>

definition get128 :: "bytes \<Rightarrow> 128 word" where "get128 bs = of_nat (be_nat bs)"
definition put128 :: "128 word \<Rightarrow> bytes" where "put128 w = nat_be 16 (unat w)"

fun ghash_mul :: "nat \<Rightarrow> 128 word \<Rightarrow> 128 word \<Rightarrow> 128 word" where
  "ghash_mul 0 x v = 0"
| "ghash_mul (Suc n) x v = (if bit x n then v else 0) XOR
     ghash_mul n x (drop_bit 1 v XOR (if bit v 0 then push_bit 120 0xe1 else 0))"

definition pad16 :: "bytes \<Rightarrow> bytes" where
  "pad16 bs = bs @ replicate ((16 - length bs mod 16) mod 16) 0"

fun ghash :: "nat \<Rightarrow> 128 word \<Rightarrow> 128 word \<Rightarrow> bytes \<Rightarrow> 128 word" where
  "ghash 0 h y bs = y"
| "ghash (Suc n) h y bs = ghash n h (ghash_mul 128 (y XOR get128 (take 16 bs)) h) (drop 16 bs)"

fun gcm_stream :: "nat \<Rightarrow> bytes \<Rightarrow> bytes \<Rightarrow> 32 word \<Rightarrow> bytes" where
  "gcm_stream 0 key nonce ctr = []"
| "gcm_stream (Suc n) key nonce ctr =
     aes_encrypt key (nonce @ put32 ctr) @ gcm_stream n key nonce (ctr + 1)"

definition gcm_crypt :: "bytes \<Rightarrow> bytes \<Rightarrow> bytes \<Rightarrow> bytes" where
  "gcm_crypt key nonce xs =
     (let ks = gcm_stream ((length xs + 15) div 16) key nonce 2
      in map2 (XOR) xs (ks @ replicate (length xs - length ks) 0))"

definition gcm_tag :: "bytes \<Rightarrow> bytes \<Rightarrow> bytes \<Rightarrow> bytes \<Rightarrow> bytes" where
  "gcm_tag key nonce aad ct =
     (let h = get128 (aes_encrypt key (replicate 16 0));
          s = pad16 aad @ pad16 ct @ nat_be 8 (8 * length aad) @ nat_be 8 (8 * length ct);
          t = put128 (ghash (length s div 16) h 0 s);
          e = aes_encrypt key (nonce @ put32 1)
      in map (\<lambda>i. (if i < length e then e ! i else 0) XOR t ! i) [0..<16])"

definition gcm_seal :: "bytes \<Rightarrow> bytes \<Rightarrow> bytes \<Rightarrow> bytes \<Rightarrow> bytes" where
  "gcm_seal key nonce plaintext aad =
     (let ct = gcm_crypt key nonce plaintext in ct @ gcm_tag key nonce aad ct)"

definition gcm_open :: "bytes \<Rightarrow> bytes \<Rightarrow> bytes \<Rightarrow> bytes \<Rightarrow> bytes option" where
  "gcm_open key nonce body aad =
     (if length body < 16 then None
      else let ct = take (length body - 16) body; tag = drop (length body - 16) body
           in if gcm_tag key nonce aad ct = tag then Some (gcm_crypt key nonce ct) else None)"

lemma length_gcm_tag [simp]: "length (gcm_tag key nonce aad ct) = 16"
  by (simp add: gcm_tag_def Let_def)

lemma length_gcm_crypt [simp]: "length (gcm_crypt key nonce xs) = length xs"
  by (simp add: gcm_crypt_def Let_def)

lemma map2_xor_involution:
  "length ys \<le> length ks \<Longrightarrow> map2 (XOR) (map2 (XOR) ys ks) ks = (ys :: bytes)"
proof (induction ys arbitrary: ks)
  case (Cons y ys)
  then obtain k ks' where "ks = k # ks'" by (cases ks) auto
  with Cons show ?case by (simp add: xor.assoc)
qed simp

lemma gcm_crypt_involution [simp]: "gcm_crypt key nonce (gcm_crypt key nonce xs) = xs"
proof -
  define ks where "ks = gcm_stream ((length xs + 15) div 16) key nonce 2"
  have "length xs \<le> length (ks @ replicate (length xs - length ks) 0)" by simp
  from map2_xor_involution [OF this] show ?thesis
    by (simp add: gcm_crypt_def Let_def ks_def)
qed

lemma length_gcm_seal [simp]: "length (gcm_seal key nonce pt aad) = length pt + 16"
  by (simp add: gcm_seal_def Let_def)

lemma gcm_open_seal [simp]: "gcm_open key nonce (gcm_seal key nonce pt aad) aad = Some pt"
  by (simp add: gcm_open_def gcm_seal_def Let_def)

lemma gcm_open_length: "gcm_open key nonce body aad = Some pt \<Longrightarrow> length body = length pt + 16"
  by (auto simp: gcm_open_def Let_def split: if_splits)

text \<open>What \<^verbatim>\<open>gcm.Open\<close> accepts is exactly what \<^verbatim>\<open>gcm.Seal\<close> makes of its result: there is
  one ciphertext per plaintext under a key, a nonce and the additional data.\<close>

lemma gcm_open_Some_iff: "gcm_open key nonce body aad = Some pt \<longleftrightarrow> body = gcm_seal key nonce pt aad"
proof
  assume op: "gcm_open key nonce body aad = Some pt"
  let ?n = "length body - 16"
  from op have pt: "pt = gcm_crypt key nonce (take ?n body)"
    and tag: "gcm_tag key nonce aad (take ?n body) = drop ?n body"
    by (auto simp: gcm_open_def Let_def split: if_splits)
  have "gcm_seal key nonce pt aad = take ?n body @ drop ?n body"
    by (simp add: gcm_seal_def Let_def pt tag)
  then show "body = gcm_seal key nonce pt aad" by simp
qed simp

end
