(* ===== verification/Frame.thy ===== *)
theory Frame
  imports Errors GoCrypto
begin

text \<open>
  The frame header codec (\<^verbatim>\<open>packages/wire/frame.go\<close>) and the AES-256-GCM frame codec
  (\<^verbatim>\<open>packages/wire/aead.go\<close>): a frame is \<open>counter(8) || header(16) || ciphertext || tag(16)\<close>,
  with counter and header authenticated as additional data.
\<close>

section \<open>Frame header (frame.go)\<close>

definition frameHeaderBytes :: nat where "frameHeaderBytes = 16"
definition FrameVersion :: byte where "FrameVersion = 1"

record FrameHeader =
  h_Version :: byte
  h_Type :: byte
  h_Flags :: byte
  h_FileIdx :: "16 word"
  h_BlockIdx :: "32 word"
  h_FrameOff :: "32 word"
  h_Len :: "16 word"

definition FrameCaps :: byte where "FrameCaps = 1"
definition FrameManifest :: byte where "FrameManifest = 2"
definition FrameBlockData :: byte where "FrameBlockData = 3"
definition FrameBlockHash :: byte where "FrameBlockHash = 4"
definition FrameBlockRecv :: byte where "FrameBlockRecv = 5"
definition FrameAck :: byte where "FrameAck = 6"
definition FrameNack :: byte where "FrameNack = 7"
definition FrameControl :: byte where "FrameControl = 8"
definition FrameComplete :: byte where "FrameComplete = 9"
definition FrameDone :: byte where "FrameDone = 10"
definition FrameFail :: byte where "FrameFail = 11"
definition FrameResumeState :: byte where "FrameResumeState = 12"
definition FrameResumeAuth :: byte where "FrameResumeAuth = 13"
definition FramePairingExchange :: byte where "FramePairingExchange = 14"
definition FrameTrustedAuth :: byte where "FrameTrustedAuth = 15"

lemmas frame_types = FrameCaps_def FrameManifest_def FrameBlockData_def FrameBlockHash_def
  FrameBlockRecv_def FrameAck_def FrameNack_def FrameControl_def FrameComplete_def FrameDone_def
  FrameFail_def FrameResumeState_def FrameResumeAuth_def FramePairingExchange_def
  FrameTrustedAuth_def

definition encodeFrameHeader :: "FrameHeader \<Rightarrow> bytes" where
  "encodeFrameHeader h =
     [h_Version h, h_Type h, h_Flags h, 0] @ put16 (h_FileIdx h) @ put32 (h_BlockIdx h)
       @ put32 (h_FrameOff h) @ put16 (h_Len h)"

definition slice :: "nat \<Rightarrow> nat \<Rightarrow> 'a list \<Rightarrow> 'a list" where
  "slice i j xs = take (j - i) (drop i xs)"

definition decodeFrameHeader :: "bytes \<Rightarrow> (err, FrameHeader) result" where
  "decodeFrameHeader buf =
     (if length buf < frameHeaderBytes then Inl (Plain ''frame header needs bytes'')
      else Inr \<lparr>h_Version = buf ! 0, h_Type = buf ! 1, h_Flags = buf ! 2,
        h_FileIdx = get16 (slice 4 6 buf), h_BlockIdx = get32 (slice 6 10 buf),
        h_FrameOff = get32 (slice 10 14 buf), h_Len = get16 (slice 14 16 buf)\<rparr>)"

section \<open>Sealing and opening frames (aead.go)\<close>

definition aeadNonceBytes :: nat where "aeadNonceBytes = 12"
definition aeadTagBytes :: nat where "aeadTagBytes = 16"
definition aeadSaltBytes :: nat where "aeadSaltBytes = 4"
definition frameCounterBytes :: nat where "frameCounterBytes = 8"
definition u16Max :: nat where "u16Max = 65535"

record DirectionalKey =
  dk_Key :: bytes
  dk_Salt :: bytes

record FrameHeaderInput =
  hi_Version :: byte
  hi_Type :: byte
  hi_Flags :: byte
  hi_FileIdx :: "16 word"
  hi_BlockIdx :: "32 word"
  hi_FrameOff :: "32 word"

text \<open>\<^verbatim>\<open>copy(out, salt)\<close> fills at most twelve bytes and the counter then overwrites all
  but the first four.\<close>

definition nonce :: "bytes \<Rightarrow> 64 word \<Rightarrow> bytes" where
  "nonce salt counter = take aeadSaltBytes (salt @ replicate aeadNonceBytes 0) @ put64 counter"

text \<open>\<^verbatim>\<open>aes.NewCipher\<close> accepts keys of 16, 24 and 32 bytes.\<close>

definition gcmFor :: "bytes \<Rightarrow> (err, bytes) result" where
  "gcmFor key = (if length key \<in> {16, 24, 32} then Inr key
     else Inl (Plain ''crypto/aes: invalid key size''))"

definition Seal ::
  "DirectionalKey \<Rightarrow> 64 word \<Rightarrow> FrameHeaderInput \<Rightarrow> bytes \<Rightarrow> (err, bytes) result" where
  "Seal dir counter h plaintext =
     (if u16Max < length plaintext then Inl (Plain ''frame payload exceeds u16 max'')
      else
        let header = encodeFrameHeader \<lparr>h_Version = hi_Version h, h_Type = hi_Type h,
              h_Flags = hi_Flags h, h_FileIdx = hi_FileIdx h, h_BlockIdx = hi_BlockIdx h,
              h_FrameOff = hi_FrameOff h, h_Len = of_nat (length plaintext)\<rparr>;
            aad = put64 counter @ header
        in case gcmFor (dk_Key dir) of Inl e \<Rightarrow> Inl e
           | Inr gcm \<Rightarrow> Inr (aad @ gcm_seal gcm (nonce (dk_Salt dir) counter) plaintext aad))"

record OpenedFrame =
  opened_Counter :: "64 word"
  opened_Header :: FrameHeader
  opened_Plaintext :: bytes

definition frameCounter :: "bytes \<Rightarrow> (err, 64 word) result" where
  "frameCounter frame =
     (if length frame < frameCounterBytes + frameHeaderBytes + aeadTagBytes
      then Inl (Plain ''frame too short'')
      else Inr (get64 (take frameCounterBytes frame)))"

definition openEmbedded ::
  "DirectionalKey \<Rightarrow> 64 word \<Rightarrow> bytes \<Rightarrow> (err, OpenedFrame) result" where
  "openEmbedded dir counter frame =
     (let aadBytes = frameCounterBytes + frameHeaderBytes;
          aad = take aadBytes frame;
          body = drop aadBytes frame
      in case decodeFrameHeader (drop frameCounterBytes aad) of Inl e \<Rightarrow> Inl e
         | Inr header \<Rightarrow>
           if length body \<noteq> unat (h_Len header) + aeadTagBytes
           then Inl (Plain ''frame len field disagrees with body'')
           else case gcmFor (dk_Key dir) of Inl e \<Rightarrow> Inl e
             | Inr gcm \<Rightarrow>
               (case gcm_open gcm (nonce (dk_Salt dir) counter) body aad of
                  None \<Rightarrow> Inl (Plain ''cipher: message authentication failed'')
                | Some plaintext \<Rightarrow>
                    Inr \<lparr>opened_Counter = counter, opened_Header = header, opened_Plaintext = plaintext\<rparr>))"

definition Open :: "DirectionalKey \<Rightarrow> 64 word \<Rightarrow> bytes \<Rightarrow> (err, OpenedFrame) result" where
  "Open dir counter frame =
     (case frameCounter frame of Inl e \<Rightarrow> Inl e
      | Inr embedded \<Rightarrow>
        if embedded \<noteq> counter then Inl (Plain ''frame counter does not match expected'')
        else openEmbedded dir embedded frame)"

definition OpenSequenced ::
  "DirectionalKey \<Rightarrow> 64 word \<Rightarrow> bytes \<Rightarrow> (err, OpenedFrame) result" where
  "OpenSequenced dir minimum frame =
     (case frameCounter frame of Inl e \<Rightarrow> Inl e
      | Inr embedded \<Rightarrow>
        if embedded < minimum then Inl FrameReplay
        else openEmbedded dir embedded frame)"

section \<open>The header codec\<close>

lemma length_encodeFrameHeader [simp]: "length (encodeFrameHeader h) = 16"
  by (simp add: encodeFrameHeader_def)

lemma slice_append_left:
  "i = length xs \<Longrightarrow> j = length xs + length ys \<Longrightarrow> slice i j (xs @ ys @ zs) = ys"
  by (simp add: slice_def)

lemma length_slice [simp]: "length (slice i j xs) = min (j - i) (length xs - i)"
  by (simp add: slice_def)

lemma decode_encode_append:
  "decodeFrameHeader (encodeFrameHeader h @ rest) = Inr h"
proof -
  let ?p = "[h_Version h, h_Type h, h_Flags h, 0]"
  have e: "encodeFrameHeader h @ rest = ?p @ put16 (h_FileIdx h) @ put32 (h_BlockIdx h)
       @ put32 (h_FrameOff h) @ put16 (h_Len h) @ rest" (is "_ = ?b")
    by (simp add: encodeFrameHeader_def)
  have s1: "slice 4 6 ?b = put16 (h_FileIdx h)" by (rule slice_append_left) simp_all
  have s2: "slice 6 10 ?b = put32 (h_BlockIdx h)"
    using slice_append_left [of 6 "?p @ put16 (h_FileIdx h)" 10 "put32 (h_BlockIdx h)"] by simp
  have s3: "slice 10 14 ?b = put32 (h_FrameOff h)"
    using slice_append_left [of 10 "?p @ put16 (h_FileIdx h) @ put32 (h_BlockIdx h)" 14
        "put32 (h_FrameOff h)"] by simp
  have s4: "slice 14 16 ?b = put16 (h_Len h)"
    using slice_append_left [of 14 "?p @ put16 (h_FileIdx h) @ put32 (h_BlockIdx h)
        @ put32 (h_FrameOff h)" 16 "put16 (h_Len h)"] by simp
  show ?thesis
    unfolding decodeFrameHeader_def e s1 s2 s3 s4 by (simp add: frameHeaderBytes_def)
qed

interpretation header_codec: codec encodeFrameHeader decodeFrameHeader "\<lambda>_. True"
  by unfold_locales (use decode_encode_append [of _ "[]"] in simp)

section \<open>The frame codec\<close>

definition sealed_header :: "FrameHeaderInput \<Rightarrow> nat \<Rightarrow> FrameHeader" where
  "sealed_header h n = \<lparr>h_Version = hi_Version h, h_Type = hi_Type h, h_Flags = hi_Flags h,
     h_FileIdx = hi_FileIdx h, h_BlockIdx = hi_BlockIdx h, h_FrameOff = hi_FrameOff h,
     h_Len = of_nat n\<rparr>"

lemma Seal_eq:
  "Seal dir counter h pt =
     (if u16Max < length pt then Inl (Plain ''frame payload exceeds u16 max'')
      else let aad = put64 counter @ encodeFrameHeader (sealed_header h (length pt))
        in case gcmFor (dk_Key dir) of Inl e \<Rightarrow> Inl e
           | Inr gcm \<Rightarrow> Inr (aad @ gcm_seal gcm (nonce (dk_Salt dir) counter) pt aad))"
  by (simp add: Seal_def sealed_header_def Let_def)

lemma Seal_cases:
  assumes "Seal dir counter h pt = Inr frame"
  obtains "length pt \<le> u16Max" and "gcmFor (dk_Key dir) = Inr (dk_Key dir)"
    and "frame = (put64 counter @ encodeFrameHeader (sealed_header h (length pt)))
      @ gcm_seal (dk_Key dir) (nonce (dk_Salt dir) counter) pt
          (put64 counter @ encodeFrameHeader (sealed_header h (length pt)))"
  using assms by (auto simp: Seal_eq Let_def gcmFor_def split: if_splits sum.splits)

lemma length_Seal:
  "Seal dir counter h pt = Inr frame \<Longrightarrow> length frame = length pt + 40"
  by (erule Seal_cases) simp

lemma frameCounter_Seal:
  "Seal dir counter h pt = Inr frame \<Longrightarrow> frameCounter frame = Inr counter"
  by (erule Seal_cases)
    (simp add: frameCounter_def frameCounterBytes_def frameHeaderBytes_def aeadTagBytes_def)

lemma unat_of_nat16: "n \<le> u16Max \<Longrightarrow> unat (of_nat n :: 16 word) = n"
  by (simp add: u16Max_def unat_of_nat take_bit_eq_mod)

lemma openEmbedded_Seal:
  assumes "Seal dir counter h pt = Inr frame"
  shows "openEmbedded dir counter frame = Inr \<lparr>opened_Counter = counter,
    opened_Header = sealed_header h (length pt), opened_Plaintext = pt\<rparr>"
  using assms
proof (rule Seal_cases)
  let ?hd = "encodeFrameHeader (sealed_header h (length pt))"
  assume pt: "length pt \<le> u16Max" and k: "gcmFor (dk_Key dir) = Inr (dk_Key dir)"
    and frame: "frame = (put64 counter @ ?hd)
      @ gcm_seal (dk_Key dir) (nonce (dk_Salt dir) counter) pt (put64 counter @ ?hd)"
  have aad: "take 24 frame = put64 counter @ ?hd"
    and body: "drop 24 frame = gcm_seal (dk_Key dir) (nonce (dk_Salt dir) counter) pt
      (put64 counter @ ?hd)"
    by (simp_all add: frame)
  have "unat (h_Len (sealed_header h (length pt))) = length pt"
    using pt by (simp add: sealed_header_def unat_of_nat16)
  then show ?thesis
    using decode_encode_append [of "sealed_header h (length pt)" "[]"] k
    by (simp add: openEmbedded_def Let_def frameCounterBytes_def frameHeaderBytes_def
        aeadTagBytes_def aad body)
qed

text \<open>The header fields an opened frame carries, as the input that would seal it again.\<close>

definition header_input :: "FrameHeader \<Rightarrow> FrameHeaderInput" where
  "header_input h = \<lparr>hi_Version = h_Version h, hi_Type = h_Type h, hi_Flags = h_Flags h,
     hi_FileIdx = h_FileIdx h, hi_BlockIdx = h_BlockIdx h, hi_FrameOff = h_FrameOff h\<rparr>"

lemma encode_decode_header:
  assumes "length buf = 16" and "buf ! 3 = 0" and "decodeFrameHeader buf = Inr h"
  shows "encodeFrameHeader h = buf"
proof -
  have pg: "put16 (get16 b2) = b2" if "length b2 = 2" for b2
  proof -
    have "be_nat b2 < 65536" using be_nat_less [of b2] that by simp
    then have "unat (of_nat (be_nat b2) :: 16 word) = be_nat b2"
      by (simp add: unat_of_nat take_bit_eq_mod)
    then show ?thesis using nat_be_be_nat [of b2] that by (simp add: put16_def get16_def)
  qed
  have pg4: "put32 (get32 b4) = b4" if "length b4 = 4" for b4
  proof -
    have "be_nat b4 < 4294967296" using be_nat_less [of b4] that by simp
    then have "unat (of_nat (be_nat b4) :: 32 word) = be_nat b4"
      by (simp add: unat_of_nat take_bit_eq_mod)
    then show ?thesis using nat_be_be_nat [of b4] that by (simp add: put32_def get32_def)
  qed
  have h: "encodeFrameHeader h = [buf ! 0, buf ! 1, buf ! 2, 0] @ slice 4 6 buf
      @ slice 6 10 buf @ slice 10 14 buf @ slice 14 16 buf"
    using assms(1,3) by (auto simp: decodeFrameHeader_def encodeFrameHeader_def pg pg4
        frameHeaderBytes_def)
  show ?thesis unfolding h
  proof (rule nth_equalityI)
    show "length ([buf ! 0, buf ! 1, buf ! 2, 0] @ slice 4 6 buf @ slice 6 10 buf
      @ slice 10 14 buf @ slice 14 16 buf) = length buf" using assms(1) by simp
  next
    fix i
    assume "i < length ([buf ! 0, buf ! 1, buf ! 2, 0] @ slice 4 6 buf @ slice 6 10 buf
      @ slice 10 14 buf @ slice 14 16 buf)"
    then have "i < 16" using assms(1) by simp
    then have "i \<in> {0, 1, 2, 3} \<or> (4 \<le> i \<and> i < 6) \<or> (6 \<le> i \<and> i < 10) \<or> (10 \<le> i \<and> i < 14)
      \<or> (14 \<le> i \<and> i < 16)" by auto
    then show "([buf ! 0, buf ! 1, buf ! 2, 0] @ slice 4 6 buf @ slice 6 10 buf
      @ slice 10 14 buf @ slice 14 16 buf) ! i = buf ! i"
      using assms(1,2) by (auto simp: nth_append slice_def)
  qed
qed

lemma put_get64: "length b = 8 \<Longrightarrow> put64 (get64 b) = b"
proof -
  assume l: "length b = 8"
  have "be_nat b < 18446744073709551616" using be_nat_less [of b] l by simp
  then have "unat (of_nat (be_nat b) :: 64 word) = be_nat b"
    by (simp add: unat_of_nat take_bit_eq_mod)
  then show ?thesis using nat_be_be_nat [of b] l by (simp add: put64_def get64_def)
qed

lemma openEmbedded_Inr:
  assumes "openEmbedded dir counter frame = Inr opened" and "24 \<le> length frame"
  shows "opened_Counter opened = counter"
    and "decodeFrameHeader (drop 8 (take 24 frame)) = Inr (opened_Header opened)"
    and "length (drop 24 frame) = unat (h_Len (opened_Header opened)) + 16"
    and "gcmFor (dk_Key dir) = Inr (dk_Key dir)"
    and "drop 24 frame = gcm_seal (dk_Key dir) (nonce (dk_Salt dir) counter)
           (opened_Plaintext opened) (take 24 frame)"
  using assms
  by (auto simp: openEmbedded_def Let_def frameCounterBytes_def frameHeaderBytes_def
      aeadTagBytes_def gcmFor_def gcm_open_Some_iff split: sum.splits if_splits option.splits)

lemma OpenSequenced_Inr:
  assumes "OpenSequenced dir minimum frame = Inr opened"
  shows "40 \<le> length frame" and "minimum \<le> get64 (take 8 frame)"
    and "openEmbedded dir (get64 (take 8 frame)) frame = Inr opened"
  using assms
  by (auto simp: OpenSequenced_def frameCounter_def frameCounterBytes_def frameHeaderBytes_def
      aeadTagBytes_def split: sum.splits if_splits)

lemma OpenSequenced_counter:
  assumes "OpenSequenced dir minimum frame = Inr opened"
  shows "minimum \<le> opened_Counter opened"
  using OpenSequenced_Inr [OF assms] openEmbedded_Inr(1) by fastforce

lemma Open_Seal:
  "Seal dir counter h pt = Inr frame \<Longrightarrow> Open dir counter frame = Inr \<lparr>opened_Counter = counter,
    opened_Header = sealed_header h (length pt), opened_Plaintext = pt\<rparr>"
  by (simp add: Open_def frameCounter_Seal openEmbedded_Seal)

lemma OpenSequenced_Seal:
  "Seal dir counter h pt = Inr frame \<Longrightarrow> minimum \<le> counter \<Longrightarrow>
    OpenSequenced dir minimum frame = Inr \<lparr>opened_Counter = counter,
      opened_Header = sealed_header h (length pt), opened_Plaintext = pt\<rparr>"
  by (simp add: OpenSequenced_def frameCounter_Seal openEmbedded_Seal)

lemma nonce_inject: "nonce salt c = nonce salt d \<longleftrightarrow> c = d"
proof
  assume "nonce salt c = nonce salt d"
  then have "put64 c = put64 d" by (simp add: nonce_def)
  then have "get64 (put64 c) = get64 (put64 d)" by simp
  then show "c = d" by simp
qed simp

section \<open>Counters\<close>

text \<open>The counters of the frames a sealer produces one after the other.\<close>

fun consecutive :: "64 word \<Rightarrow> 64 word list \<Rightarrow> bool" where
  "consecutive c [] = True"
| "consecutive c (d # ds) = (d = c \<and> consecutive (c + 1) ds)"

lemma consecutive_append:
  "consecutive c (xs @ ys) \<longleftrightarrow> consecutive c xs \<and> consecutive (c + of_nat (length xs)) ys"
  by (induction xs arbitrary: c) (auto simp: add.assoc)

lemma consecutive_nth: "consecutive c xs \<Longrightarrow> i < length xs \<Longrightarrow> xs ! i = c + of_nat i"
proof (induction xs arbitrary: c i)
  case (Cons x xs)
  then show ?case by (cases i) (auto simp: add.assoc)
qed simp

lemma consecutive_distinct:
  assumes "consecutive c xs" and "length xs \<le> 2 ^ 64"
  shows "distinct xs"
proof (unfold distinct_conv_nth, intro allI impI)
  fix i j
  assume i: "i < length xs" and j: "j < length xs" and "i \<noteq> j"
  have "unat (of_nat i :: 64 word) = i" "unat (of_nat j :: 64 word) = j"
    using i j assms(2) by (simp_all add: unat_of_nat take_bit_eq_mod)
  with \<open>i \<noteq> j\<close> have "(of_nat i :: 64 word) \<noteq> of_nat j" by metis
  then show "xs ! i \<noteq> xs ! j" using consecutive_nth [OF assms(1)] i j by simp
qed

section \<open>Properties\<close>

text \<open>the 16-byte frame header decodes to exactly the fields that were encoded, whatever
  bytes follow it.\<close>

theorem frame_header_roundtrip:
  "decodeFrameHeader (encodeFrameHeader h @ rest) = Inr h \<and> length (encodeFrameHeader h) = 16"
  by (simp add: decode_encode_append)

text \<open>C32: a sealed frame opens under the same key, at its counter and at every minimum up to
  it, to the sealed plaintext and header, with the length field set to the payload's length.\<close>

theorem seal_open_roundtrip:
  assumes "Seal dir counter h plaintext = Inr frame" and "minimum \<le> counter"
  shows "OpenSequenced dir minimum frame = Inr \<lparr>opened_Counter = counter,
           opened_Header = sealed_header h (length plaintext), opened_Plaintext = plaintext\<rparr>
       \<and> Open dir counter frame = OpenSequenced dir minimum frame"
  using assms
  by (simp add: OpenSequenced_def Open_def frameCounter_Seal openEmbedded_Seal)

definition example_key :: DirectionalKey where
  "example_key = \<lparr>dk_Key = replicate 32 7, dk_Salt = [1, 2, 3, 4]\<rparr>"

definition example_input :: FrameHeaderInput where
  "example_input = \<lparr>hi_Version = FrameVersion, hi_Type = FrameBlockData, hi_Flags = 1,
     hi_FileIdx = 2, hi_BlockIdx = 70000, hi_FrameOff = 16384\<rparr>"

lemma Seal_example: "\<exists>frame. Seal example_key c example_input [10, 20, 30] = Inr frame"
  by (simp add: Seal_eq Let_def u16Max_def gcmFor_def example_key_def)

theorem seal_open_roundtrip_witness:
  "\<exists>frame. Seal example_key 9 example_input [10, 20, 30] = Inr frame \<and> (5 :: 64 word) \<le> 9
     \<and> OpenSequenced example_key 5 frame = Inr \<lparr>opened_Counter = 9,
         opened_Header = sealed_header example_input 3, opened_Plaintext = [10, 20, 30]\<rparr>"
proof -
  obtain frame where f: "Seal example_key 9 example_input [10, 20, 30] = Inr frame"
    using Seal_example by blast
  have le: "(5 :: 64 word) \<le> 9" by simp
  from seal_open_roundtrip [OF f le] f show ?thesis by (simp add: numeral_3_eq_3)
qed



text \<open>a frame is reported as a replay exactly when it is long enough to carry a counter
  and that counter lies below the minimum; every other frame at or above the minimum is
  either authenticated or refused with another error.\<close>

theorem replay_iff_below_minimum:
  "OpenSequenced dir minimum frame = Inl FrameReplay \<longleftrightarrow>
     40 \<le> length frame \<and> get64 (take 8 frame) < minimum"
  by (auto simp: OpenSequenced_def frameCounter_def openEmbedded_def decodeFrameHeader_def
      gcmFor_def Let_def frameCounterBytes_def frameHeaderBytes_def aeadTagBytes_def
      split: sum.splits option.splits if_splits)

end
