(* ===== verification/GoText.thy ===== *)
theory GoText
  imports Prelude
begin

text \<open>
  Text as Go has it: a \<^verbatim>\<open>string\<close> is a sequence of bytes (HOL's \<open>char\<close> is a byte) that is
  usually UTF-8.  This theory models what the sources use of the packages \<^verbatim>\<open>unicode/utf8\<close>,
  \<^verbatim>\<open>unicode\<close> and \<^verbatim>\<open>strings\<close>: decoding a string into runes, validity, encoding a rune,
  \<^verbatim>\<open>strings.ToLower\<close> with the simple case mappings of Unicode 15, \<^verbatim>\<open>strings.Split\<close>,
  \<^verbatim>\<open>strings.Join\<close> and prefix and suffix tests.
\<close>

section \<open>UTF-8\<close>

abbreviation code :: "char \<Rightarrow> nat" where "code c \<equiv> of_char c"

definition RuneError :: nat where "RuneError = 65533"

definition cont :: "char \<Rightarrow> bool" where
  "cont c \<longleftrightarrow> 128 \<le> code c \<and> code c < 192"

definition low6 :: "char \<Rightarrow> nat" where
  "low6 c = code c - 128"

text \<open>\<^verbatim>\<open>utf8.DecodeRuneInString\<close>: the first rune and its width; an invalid sequence is
  \<^verbatim>\<open>RuneError\<close> of width 1.\<close>

fun decode_rune :: "string \<Rightarrow> nat \<times> nat" where
  "decode_rune [] = (RuneError, 0)"
| "decode_rune (c0 # cs) =
     (let x = code c0 in
      if x < 128 then (x, 1)
      else if 194 \<le> x \<and> x < 224 then
        (case cs of c1 # _ \<Rightarrow>
           if cont c1 then ((x - 192) * 64 + low6 c1, 2) else (RuneError, 1)
         | [] \<Rightarrow> (RuneError, 1))
      else if 224 \<le> x \<and> x < 240 then
        (case cs of c1 # c2 # _ \<Rightarrow>
           if cont c1 \<and> cont c2 \<and> (x = 224 \<longrightarrow> 160 \<le> code c1) \<and> (x = 237 \<longrightarrow> code c1 < 160)
           then ((x - 224) * 4096 + low6 c1 * 64 + low6 c2, 3) else (RuneError, 1)
         | _ \<Rightarrow> (RuneError, 1))
      else if 240 \<le> x \<and> x < 245 then
        (case cs of c1 # c2 # c3 # _ \<Rightarrow>
           if cont c1 \<and> cont c2 \<and> cont c3 \<and> (x = 240 \<longrightarrow> 144 \<le> code c1)
              \<and> (x = 244 \<longrightarrow> code c1 < 144)
           then ((x - 240) * 262144 + low6 c1 * 4096 + low6 c2 * 64 + low6 c3, 4)
           else (RuneError, 1)
         | _ \<Rightarrow> (RuneError, 1))
      else (RuneError, 1))"

declare decode_rune.simps(2) [simp del]

lemma decode_rune_width: "s \<noteq> [] \<Longrightarrow> 0 < snd (decode_rune s)"
  by (cases s) (auto simp: decode_rune.simps(2) Let_def split: list.splits)

lemma decode_rune_width_le: "snd (decode_rune s) \<le> length s"
  by (cases s) (auto simp: decode_rune.simps(2) Let_def split: list.splits)

lemma decode_rune_ascii: "code c < 128 \<Longrightarrow> decode_rune (c # cs) = (code c, 1)"
  by (simp add: decode_rune.simps(2))

text \<open>Iterating a string by \<^verbatim>\<open>range\<close>.\<close>

function runes :: "string \<Rightarrow> nat list" where
  "runes [] = []"
| "runes (c # cs) = fst (decode_rune (c # cs)) # runes (drop (snd (decode_rune (c # cs))) (c # cs))"
  by pat_completeness auto
termination
  using decode_rune_width by (relation "measure length") fastforce+

function valid_string :: "string \<Rightarrow> bool" where
  "valid_string [] = True"
| "valid_string (c # cs) =
     (decode_rune (c # cs) \<noteq> (RuneError, 1)
      \<and> valid_string (drop (snd (decode_rune (c # cs))) (c # cs)))"
  by pat_completeness auto
termination
  using decode_rune_width by (relation "measure length") fastforce+

declare runes.simps(2) [simp del] valid_string.simps(2) [simp del]

lemma runes_ascii [simp]: "code c < 128 \<Longrightarrow> runes (c # cs) = code c # runes cs"
  by (simp add: runes.simps(2) decode_rune_ascii)

lemma valid_string_ascii [simp]: "code c < 128 \<Longrightarrow> valid_string (c # cs) = valid_string cs"
  by (simp add: valid_string.simps(2) decode_rune_ascii RuneError_def)

text \<open>\<^verbatim>\<open>utf8.AppendRune\<close>: surrogates and values beyond the range encode \<^verbatim>\<open>RuneError\<close>.\<close>

definition encode_rune :: "nat \<Rightarrow> string" where
  "encode_rune r =
     (if r < 128 then [char_of r]
      else if r < 2048 then [char_of (192 + r div 64), char_of (128 + r mod 64)]
      else if r < 55296 \<or> (57344 \<le> r \<and> r < 65536) then
        [char_of (224 + r div 4096), char_of (128 + r div 64 mod 64), char_of (128 + r mod 64)]
      else if 65536 \<le> r \<and> r < 1114112 then
        [char_of (240 + r div 262144), char_of (128 + r div 4096 mod 64),
         char_of (128 + r div 64 mod 64), char_of (128 + r mod 64)]
      else [char_of (239::nat), char_of (191::nat), char_of (189::nat)])"

section \<open>Lower case\<close>

text \<open>Upper-case ranges \<open>(first, last, stride, offset)\<close> beyond ASCII.\<close>

definition lower_table :: "(nat \<times> nat \<times> nat \<times> int) list" where
  "lower_table = [
     (192, 214, 1, 32), (216, 222, 1, 32), (256, 302, 2, 1), (304, 304, 1, - 199),
     (306, 310, 2, 1), (313, 327, 2, 1), (330, 374, 2, 1), (376, 376, 1, - 121),
     (377, 381, 2, 1), (385, 385, 1, 210), (386, 388, 2, 1), (390, 390, 1, 206),
     (391, 391, 1, 1), (393, 394, 1, 205), (395, 395, 1, 1), (398, 398, 1, 79),
     (399, 399, 1, 202), (400, 400, 1, 203), (401, 401, 1, 1), (403, 403, 1, 205),
     (404, 404, 1, 207), (406, 406, 1, 211), (407, 407, 1, 209), (408, 408, 1, 1),
     (412, 412, 1, 211), (413, 413, 1, 213), (415, 415, 1, 214), (416, 420, 2, 1),
     (422, 422, 1, 218), (423, 423, 1, 1), (425, 425, 1, 218), (428, 428, 1, 1),
     (430, 430, 1, 218), (431, 431, 1, 1), (433, 434, 1, 217), (435, 437, 2, 1),
     (439, 439, 1, 219), (440, 440, 1, 1), (444, 444, 1, 1), (452, 452, 1, 2),
     (453, 453, 1, 1), (455, 455, 1, 2), (456, 456, 1, 1), (458, 458, 1, 2), (459, 475, 2, 1),
     (478, 494, 2, 1), (497, 497, 1, 2), (498, 500, 2, 1), (502, 502, 1, - 97),
     (503, 503, 1, - 56), (504, 542, 2, 1), (544, 544, 1, - 130), (546, 562, 2, 1),
     (570, 570, 1, 10795), (571, 571, 1, 1), (573, 573, 1, - 163), (574, 574, 1, 10792),
     (577, 577, 1, 1), (579, 579, 1, - 195), (580, 580, 1, 69), (581, 581, 1, 71),
     (582, 590, 2, 1), (880, 882, 2, 1), (886, 886, 1, 1), (895, 895, 1, 116),
     (902, 902, 1, 38), (904, 906, 1, 37), (908, 908, 1, 64), (910, 911, 1, 63),
     (913, 929, 1, 32), (931, 939, 1, 32), (975, 975, 1, 8), (984, 1006, 2, 1),
     (1012, 1012, 1, - 60), (1015, 1015, 1, 1), (1017, 1017, 1, - 7), (1018, 1018, 1, 1),
     (1021, 1023, 1, - 130), (1024, 1039, 1, 80), (1040, 1071, 1, 32), (1120, 1152, 2, 1),
     (1162, 1214, 2, 1), (1216, 1216, 1, 15), (1217, 1229, 2, 1), (1232, 1326, 2, 1),
     (1329, 1366, 1, 48), (4256, 4293, 1, 7264), (4295, 4295, 1, 7264), (4301, 4301, 1, 7264),
     (5024, 5103, 1, 38864), (5104, 5109, 1, 8), (7312, 7354, 1, - 3008),
     (7357, 7359, 1, - 3008), (7680, 7828, 2, 1), (7838, 7838, 1, - 7615), (7840, 7934, 2, 1),
     (7944, 7951, 1, - 8), (7960, 7965, 1, - 8), (7976, 7983, 1, - 8), (7992, 7999, 1, - 8),
     (8008, 8013, 1, - 8), (8025, 8031, 2, - 8), (8040, 8047, 1, - 8), (8072, 8079, 1, - 8),
     (8088, 8095, 1, - 8), (8104, 8111, 1, - 8), (8120, 8121, 1, - 8), (8122, 8123, 1, - 74),
     (8124, 8124, 1, - 9), (8136, 8139, 1, - 86), (8140, 8140, 1, - 9), (8152, 8153, 1, - 8),
     (8154, 8155, 1, - 100), (8168, 8169, 1, - 8), (8170, 8171, 1, - 112),
     (8172, 8172, 1, - 7), (8184, 8185, 1, - 128), (8186, 8187, 1, - 126),
     (8188, 8188, 1, - 9), (8486, 8486, 1, - 7517), (8490, 8490, 1, - 8383),
     (8491, 8491, 1, - 8262), (8498, 8498, 1, 28), (8544, 8559, 1, 16), (8579, 8579, 1, 1),
     (9398, 9423, 1, 26), (11264, 11311, 1, 48), (11360, 11360, 1, 1),
     (11362, 11362, 1, - 10743), (11363, 11363, 1, - 3814), (11364, 11364, 1, - 10727),
     (11367, 11371, 2, 1), (11373, 11373, 1, - 10780), (11374, 11374, 1, - 10749),
     (11375, 11375, 1, - 10783), (11376, 11376, 1, - 10782), (11378, 11378, 1, 1),
     (11381, 11381, 1, 1), (11390, 11391, 1, - 10815), (11392, 11490, 2, 1),
     (11499, 11501, 2, 1), (11506, 11506, 1, 1), (42560, 42604, 2, 1), (42624, 42650, 2, 1),
     (42786, 42798, 2, 1), (42802, 42862, 2, 1), (42873, 42875, 2, 1),
     (42877, 42877, 1, - 35332), (42878, 42886, 2, 1), (42891, 42891, 1, 1),
     (42893, 42893, 1, - 42280), (42896, 42898, 2, 1), (42902, 42920, 2, 1),
     (42922, 42922, 1, - 42308), (42923, 42923, 1, - 42319), (42924, 42924, 1, - 42315),
     (42925, 42925, 1, - 42305), (42926, 42926, 1, - 42308), (42928, 42928, 1, - 42258),
     (42929, 42929, 1, - 42282), (42930, 42930, 1, - 42261), (42931, 42931, 1, 928),
     (42932, 42946, 2, 1), (42948, 42948, 1, - 48), (42949, 42949, 1, - 42307),
     (42950, 42950, 1, - 35384), (42951, 42953, 2, 1), (42960, 42960, 1, 1),
     (42966, 42968, 2, 1), (42997, 42997, 1, 1), (65313, 65338, 1, 32), (66560, 66599, 1, 40),
     (66736, 66771, 1, 40), (66928, 66938, 1, 39), (66940, 66954, 1, 39),
     (66956, 66962, 1, 39), (66964, 66965, 1, 39), (68736, 68786, 1, 64),
     (71840, 71871, 1, 32), (93760, 93791, 1, 32), (125184, 125217, 1, 34)]"

fun lower_lookup :: "(nat \<times> nat \<times> nat \<times> int) list \<Rightarrow> nat \<Rightarrow> nat" where
  "lower_lookup [] r = r"
| "lower_lookup ((lo, hi, step, d) # t) r =
     (if lo \<le> r \<and> r \<le> hi \<and> (r - lo) mod step = 0 then nat (int r + d) else lower_lookup t r)"

definition unicode_ToLower :: "nat \<Rightarrow> nat" where
  "unicode_ToLower r =
     (if r < 128 then (if 65 \<le> r \<and> r \<le> 90 then r + 32 else r) else lower_lookup lower_table r)"

definition strings_ToLower :: "string \<Rightarrow> string" where
  "strings_ToLower s = concat (map (\<lambda>r. encode_rune (unicode_ToLower r)) (runes s))"

section \<open>Splitting and joining\<close>

text \<open>\<^verbatim>\<open>strings.Split(s, sep)\<close> for a one-byte separator; the result is never empty.\<close>

fun strings_Split :: "char \<Rightarrow> string \<Rightarrow> string list" where
  "strings_Split sep [] = [[]]"
| "strings_Split sep (c # cs) =
     (if c = sep then [] # strings_Split sep cs
      else case strings_Split sep cs of [] \<Rightarrow> [[c]] | seg # segs \<Rightarrow> (c # seg) # segs)"

fun strings_Join :: "string list \<Rightarrow> string \<Rightarrow> string" where
  "strings_Join [] sep = []"
| "strings_Join [s] sep = s"
| "strings_Join (s # t # ts) sep = s @ sep @ strings_Join (t # ts) sep"

definition strings_HasPrefix :: "string \<Rightarrow> string \<Rightarrow> bool" where
  "strings_HasPrefix s p \<longleftrightarrow> take (length p) s = p"

definition strings_HasSuffix :: "string \<Rightarrow> string \<Rightarrow> bool" where
  "strings_HasSuffix s p \<longleftrightarrow> length p \<le> length s \<and> drop (length s - length p) s = p"

text \<open>\<^verbatim>\<open>strings.ReplaceAll\<close> of one byte by another.\<close>

definition replace_char :: "char \<Rightarrow> char \<Rightarrow> string \<Rightarrow> string" where
  "replace_char a b s = map (\<lambda>c. if c = a then b else c) s"

lemma strings_Split_nonempty [simp]: "strings_Split sep s \<noteq> []"
  by (induction s) (auto split: list.splits)

lemma strings_Join_Cons:
  "ts \<noteq> [] \<Longrightarrow> strings_Join (s # ts) sep = s @ sep @ strings_Join ts sep"
  by (cases ts) simp_all

lemma strings_Join_Split [simp]: "strings_Join (strings_Split sep s) [sep] = s"
proof (induction s)
  case (Cons c cs)
  obtain seg segs where sp: "strings_Split sep cs = seg # segs"
    using strings_Split_nonempty by (cases "strings_Split sep cs") auto
  with Cons show ?case by (cases segs) (simp_all add: strings_Join_Cons)
qed simp

lemma strings_Split_no_sep: "\<forall>seg \<in> set (strings_Split sep s). sep \<notin> set seg"
proof (induction s)
  case (Cons c cs)
  obtain seg segs where sp: "strings_Split sep cs = seg # segs"
    using strings_Split_nonempty by (cases "strings_Split sep cs") auto
  with Cons show ?case by auto
qed simp

lemma strings_Split_chars: "seg \<in> set (strings_Split sep s) \<Longrightarrow> set seg \<subseteq> set s"
proof (induction s arbitrary: seg)
  case (Cons c cs)
  obtain seg' segs where sp: "strings_Split sep cs = seg' # segs"
    using strings_Split_nonempty by (cases "strings_Split sep cs") auto
  have "\<forall>g \<in> set (seg' # segs). set g \<subseteq> set cs" using Cons.IH sp by auto
  with Cons.prems sp show ?case by (auto split: if_splits)
qed simp

lemma strings_Join_inject_hd:
  assumes "sep \<notin> set s" and "sep \<notin> set t" and "s @ sep # xs = t @ sep # ys"
  shows "s = t \<and> xs = ys"
  using assms
proof (induction s arbitrary: t)
  case Nil
  then show ?case by (cases t) auto
next
  case (Cons c s)
  then show ?case by (cases t) auto
qed

lemma replace_char_notin: "a \<noteq> b \<Longrightarrow> a \<notin> set (replace_char a b s)"
  by (auto simp: replace_char_def)

lemma replace_char_id: "a \<notin> set s \<Longrightarrow> replace_char a b s = s"
  unfolding replace_char_def by (rule map_idI) auto

section \<open>Bytes and runes below 128\<close>

text \<open>A byte below 128 never occurs inside a longer sequence, so the ASCII runes of a string
  are its ASCII bytes.\<close>

lemma decode_rune_tail_cont:
  "list_all cont (take (snd (decode_rune (c # cs)) - 1) cs)"
proof -
  show ?thesis
    by (cases cs rule: list.exhaust; cases "tl cs" rule: list.exhaust;
        cases "tl (tl cs)" rule: list.exhaust)
      (simp_all add: decode_rune.simps(2) Let_def)
qed

lemma decode_rune_prefix_no_ascii:
  assumes "s \<noteq> []" and "c \<in> set (take (snd (decode_rune s)) s)" and "code c < 128"
  shows "decode_rune s = (code c, 1)"
proof -
  obtain b bs where s: "s = b # bs" using assms(1) by (cases s) auto
  have "0 < snd (decode_rune s)" using assms(1) by (rule decode_rune_width)
  with assms(2) s have "c = b \<or> c \<in> set (take (snd (decode_rune s) - 1) bs)"
    by (cases "snd (decode_rune s)") auto
  moreover have "\<not> cont c" using assms(3) by (simp add: cont_def)
  ultimately have "c = b" using decode_rune_tail_cont [of b bs] s by (auto simp: list_all_iff)
  with s assms(3) show ?thesis by (simp add: decode_rune_ascii)
qed

lemma ascii_rune_byte: "code c < 128 \<Longrightarrow> c \<in> set s \<Longrightarrow> code c \<in> set (runes s)"
proof (induction s rule: runes.induct)
  case (2 b bs)
  let ?s = "b # bs" and ?n = "snd (decode_rune (b # bs))"
  have "c \<in> set (take ?n ?s) \<or> c \<in> set (drop ?n ?s)"
    using "2.prems"(2) by (metis append_take_drop_id Un_iff set_append)
  then show ?case
  proof
    assume "c \<in> set (take ?n ?s)"
    with "2.prems" have "decode_rune ?s = (code c, 1)"
      by (intro decode_rune_prefix_no_ascii) simp_all
    then show ?thesis by (simp add: runes.simps(2))
  next
    assume "c \<in> set (drop ?n ?s)"
    with "2.IH" "2.prems" show ?thesis by (simp add: runes.simps(2))
  qed
qed simp

end
