(* ===== verification/Manifest.thy ===== *)
theory Manifest
  imports Frame GoText
begin

text \<open>
  File entries and manifests (\<^verbatim>\<open>transfer_messages.go\<close>), the normalisation of untrusted paths and
  the validation of a manifest (\<^verbatim>\<open>safe_path.go\<close>), and the digest a whole file set commits to
  (\<^verbatim>\<open>transfer_set.go\<close>).  The abstract specification of a safe path is \<open>resolve\<close>: walking it from
  any directory stays strictly below that directory.  \<open>manifest_ok\<close> is what a validated
  manifest promises to its users.
\<close>

section \<open>Data (transfer\_messages.go)\<close>

text \<open>Fields of type \<^verbatim>\<open>int\<close> and \<^verbatim>\<open>int64\<close> are integers in the range of \<open>in_s64\<close>.\<close>

record FileEntry =
  fe_Idx :: int
  fe_Name :: string
  fe_Size :: int
  fe_Mime :: string
  fe_LastModified :: int
  fe_BlockSize :: int
  fe_Blocks :: int
  fe_FileDigest :: string

record Manifest =
  mf_Type :: byte
  mf_TransferID :: string
  mf_Files :: "FileEntry list"
  mf_TotalSize :: int

definition NewManifest :: "FileEntry list \<Rightarrow> int \<Rightarrow> Manifest" where
  "NewManifest files totalSize = \<lparr>mf_Type = FrameManifest, mf_TransferID = '''', mf_Files = files,
     mf_TotalSize = totalSize\<rparr>"

definition MaxTransferFiles :: nat where "MaxTransferFiles = 4096"
definition MaxTransferPathBytes :: nat where "MaxTransferPathBytes = 1024"
definition MaxTransferPathDepth :: nat where "MaxTransferPathDepth = 32"
definition MaxTransferSegmentBytes :: nat where "MaxTransferSegmentBytes = 255"
definition MaxManifestBlockBytes :: int where "MaxManifestBlockBytes = 16 * 1024 * 1024"

section \<open>Path normalisation (safe\_path.go)\<close>

definition is_letter :: "char \<Rightarrow> bool" where
  "is_letter c \<longleftrightarrow> (65 \<le> code c \<and> code c \<le> 90) \<or> (97 \<le> code c \<and> code c \<le> 122)"

text \<open>The regular expression \<^verbatim>\<open>^[A-Za-z]:\<close>.\<close>

fun drivePath :: "string \<Rightarrow> bool" where
  "drivePath (c # d # _) = (is_letter c \<and> d = CHR '':'')"
| "drivePath _ = False"

definition ascii_lower :: "char \<Rightarrow> char" where
  "ascii_lower c = (if 65 \<le> code c \<and> code c \<le> 90 then char_of (code c + 32) else c)"

definition reserved_names :: "string list" where
  "reserved_names = [''con'', ''prn'', ''aux'', ''nul'']
     @ map (\<lambda>d. ''com'' @ [d]) ''123456789'' @ map (\<lambda>d. ''lpt'' @ [d]) ''123456789''"

text \<open>The regular expression \<^verbatim>\<open>(?i)^(con|prn|aux|nul|com[1-9]|lpt[1-9])(\.|$)\<close>; none of its
  letters has a case variant outside ASCII.\<close>

definition windowsReserved :: "string \<Rightarrow> bool" where
  "windowsReserved s \<longleftrightarrow> list_ex (\<lambda>n. map ascii_lower (take (length n) s) = n
     \<and> (length s = length n \<or> (length n < length s \<and> s ! length n = CHR ''.''))) reserved_names"

definition unsafe_rune :: "nat \<Rightarrow> bool" where
  "unsafe_rune r \<longleftrightarrow> r \<le> 31 \<or> r \<in> set (map code [CHR ''<'', CHR ''>'', CHR '':'', CHR 0x22,
     CHR ''|'', CHR ''?'', CHR ''*''])"

fun check_segments :: "string list \<Rightarrow> err option" where
  "check_segments [] = None"
| "check_segments (segment # segments) =
     (if segment = '''' \<or> segment = ''.'' \<or> segment = ''..''
      then Some (Classified CodeProtocol ''manifest path contains an unsafe segment'')
      else if list_ex unsafe_rune (runes segment)
      then Some (Classified CodeProtocol ''manifest path contains unsafe characters'')
      else if strings_HasSuffix segment ''.'' \<or> strings_HasSuffix segment '' ''
      then Some (Classified CodeProtocol ''manifest path has an unsafe suffix'')
      else if windowsReserved segment
      then Some (Classified CodeProtocol ''manifest path uses a reserved name'')
      else if MaxTransferSegmentBytes < length segment
      then Some (Classified CodeProtocol ''manifest path segment is too long'')
      else check_segments segments)"

definition NormalizeTransferPath :: "string \<Rightarrow> (err, string) result" where
  "NormalizeTransferPath input =
     (if input = '''' then Inl (Classified CodeProtocol ''manifest path is empty'')
      else if strings_HasPrefix input ''/'' \<or> strings_HasPrefix input [CHR 0x5C] \<or> drivePath input
      then Inl (Classified CodeProtocol ''manifest path must be relative'')
      else
        let canonical = replace_char (CHR 0x5C) (CHR ''/'') input;
            segments = strings_Split (CHR ''/'') canonical
        in if MaxTransferPathDepth < length segments
           then Inl (Classified CodeProtocol ''manifest path is too deep'')
           else case check_segments segments of Some e \<Rightarrow> Inl e
             | None \<Rightarrow>
               if MaxTransferPathBytes < length canonical
               then Inl (Classified CodeProtocol ''manifest path is too long'')
               else if \<not> valid_string canonical
               then Inl (Classified CodeProtocol ''manifest path is not valid UTF-8'')
               else Inr canonical)"

section \<open>Manifest validation (safe\_path.go)\<close>

definition wantBlocks :: "FileEntry \<Rightarrow> int" where
  "wantBlocks file = (if 0 < fe_Size file then go_div (fe_Size file - 1) (fe_BlockSize file) + 1 else 0)"

fun validate_files ::
  "int \<Rightarrow> string list \<Rightarrow> int \<Rightarrow> FileEntry list \<Rightarrow> (err, FileEntry list \<times> int) result" where
  "validate_files idx paths tot [] = Inr ([], tot)"
| "validate_files idx paths tot (file # rest) =
     (if fe_Idx file \<noteq> idx
      then Inl (Classified CodeProtocol ''manifest file indexes must be contiguous'')
      else if fe_Size file < 0 \<or> fe_LastModified file < 0 \<or> fe_BlockSize file \<le> 0 \<or> fe_Blocks file < 0
      then Inl (Classified CodeProtocol ''manifest has invalid file geometry'')
      else if MaxManifestBlockBytes < fe_BlockSize file
      then Inl (Plain ''manifest block size exceeds the ceiling'')
      else if fe_Blocks file \<noteq> wantBlocks file
      then Inl (Classified CodeProtocol ''manifest has invalid block geometry'')
      else case NormalizeTransferPath (fe_Name file) of Inl e \<Rightarrow> Inl e
        | Inr name \<Rightarrow>
          let key = strings_ToLower name in
          if key \<in> set paths then Inl (Plain ''manifest contains duplicate paths'')
          else if max_int64 - tot < fe_Size file
          then Inl (Plain ''manifest total size is too large'')
          else case validate_files (idx + 1) (key # paths) (tot + fe_Size file) rest of
              Inl e \<Rightarrow> Inl e
            | Inr (files, tot') \<Rightarrow> Inr (file\<lparr>fe_Name := name\<rparr> # files, tot'))"

definition ValidateManifest :: "Manifest \<Rightarrow> (err, Manifest) result" where
  "ValidateManifest manifest =
     (if mf_Files manifest = [] \<or> MaxTransferFiles < length (mf_Files manifest)
      then Inl (Classified CodeProtocol ''manifest has an invalid file count'')
      else case validate_files 0 [] 0 (mf_Files manifest) of Inl e \<Rightarrow> Inl e
        | Inr (files, tot) \<Rightarrow>
          if mf_TotalSize manifest \<noteq> tot then Inl (Plain ''manifest total size mismatch'')
          else Inr (manifest\<lparr>mf_Files := files, mf_Type := FrameManifest\<rparr>))"

section \<open>Committing to a file set (transfer\_set.go)\<close>

definition CompletionDigest :: "FileEntry list \<Rightarrow> string" where
  "CompletionDigest files =
     (if length files = 1 then fe_FileDigest (files ! 0)
      else hex_encode (sha256 (bytes_of_string
        (strings_Join (map fe_FileDigest files) [CHR 0x0A]))))"

section \<open>Safe paths, abstractly\<close>

text \<open>Walking a list of path components from a directory, given as the list of its
  components; \<open>None\<close> when the walk leaves the root.\<close>

fun resolve :: "string list \<Rightarrow> string list \<Rightarrow> string list option" where
  "resolve dir [] = Some dir"
| "resolve dir (seg # segs) =
     (if seg = '''' \<or> seg = ''.'' then resolve dir segs
      else if seg = ''..'' then (if dir = [] then None else resolve (butlast dir) segs)
      else resolve (dir @ [seg]) segs)"

definition safe_segment :: "string \<Rightarrow> bool" where
  "safe_segment seg \<longleftrightarrow> seg \<noteq> '''' \<and> seg \<noteq> ''.'' \<and> seg \<noteq> ''..''
     \<and> \<not> list_ex unsafe_rune (runes seg) \<and> \<not> strings_HasSuffix seg ''.''
     \<and> \<not> strings_HasSuffix seg '' '' \<and> \<not> windowsReserved seg \<and> length seg \<le> MaxTransferSegmentBytes"

lemma check_segments_None: "check_segments segs = None \<longleftrightarrow> list_all safe_segment segs"
  by (induction segs) (auto simp: safe_segment_def)

lemma resolve_safe: "list_all safe_segment segs \<Longrightarrow> resolve dir segs = Some (dir @ segs)"
  by (induction segs arbitrary: dir) (auto simp: safe_segment_def)

lemma NormalizeTransferPath_Inr:
  "NormalizeTransferPath input = Inr p \<longleftrightarrow>
     input \<noteq> '''' \<and> \<not> strings_HasPrefix input ''/'' \<and> \<not> strings_HasPrefix input [CHR 0x5C]
     \<and> \<not> drivePath input \<and> p = replace_char (CHR 0x5C) (CHR ''/'') input
     \<and> length (strings_Split (CHR ''/'') p) \<le> MaxTransferPathDepth
     \<and> list_all safe_segment (strings_Split (CHR ''/'') p)
     \<and> length p \<le> MaxTransferPathBytes \<and> valid_string p"
  by (auto simp: NormalizeTransferPath_def Let_def check_segments_None [symmetric]
      split: option.splits)

lemma safe_segment_no_colon: "safe_segment seg \<Longrightarrow> CHR '':'' \<notin> set seg"
proof
  assume "safe_segment seg" and "CHR '':'' \<in> set seg"
  then have "code CHR '':'' \<in> set (runes seg)" by (intro ascii_rune_byte) simp_all
  then have "list_ex unsafe_rune (runes seg)"
    unfolding list_ex_iff by (rule bexI [rotated]) (simp add: unsafe_rune_def)
  with \<open>safe_segment seg\<close> show False by (simp add: safe_segment_def)
qed

lemma strings_Split_mem: "c \<in> set s \<Longrightarrow> c \<noteq> sep \<Longrightarrow> \<exists>seg \<in> set (strings_Split sep s). c \<in> set seg"
proof (induction s)
  case (Cons b bs)
  obtain seg segs where sp: "strings_Split sep bs = seg # segs"
    using strings_Split_nonempty by (cases "strings_Split sep bs") auto
  with Cons show ?case by auto
qed simp

lemma safe_path_no_colon:
  assumes "list_all safe_segment (strings_Split (CHR ''/'') p)"
  shows "CHR '':'' \<notin> set p"
proof
  assume "CHR '':'' \<in> set p"
  then obtain seg where "seg \<in> set (strings_Split (CHR ''/'') p)" "CHR '':'' \<in> set seg"
    using strings_Split_mem [of "CHR '':''" p "CHR ''/''"] by auto
  with assms safe_segment_no_colon show False by (auto simp: list_all_iff)
qed

lemma drivePath_colon: "drivePath s \<Longrightarrow> CHR '':'' \<in> set s"
  by (cases s rule: drivePath.cases) auto

lemma strings_HasPrefix_char: "strings_HasPrefix s [c] \<longleftrightarrow> (\<exists>t. s = c # t)"
  by (cases s) (auto simp: strings_HasPrefix_def)

lemma Normalize_idem:
  assumes "NormalizeTransferPath input = Inr p"
  shows "NormalizeTransferPath p = Inr p"
proof -
  note p = assms [unfolded NormalizeTransferPath_Inr]
  have nb: "CHR 0x5C \<notin> set p" using p by (auto simp: replace_char_notin)
  have "\<not> drivePath p" using p drivePath_colon safe_path_no_colon by blast
  moreover have "\<not> strings_HasPrefix p ''/''"
  proof
    assume "strings_HasPrefix p ''/''"
    then have "'''' \<in> set (strings_Split (CHR ''/'') p)"
      by (auto simp: strings_HasPrefix_char)
    with p show False by (auto simp: list_all_iff safe_segment_def)
  qed
  moreover have "\<not> strings_HasPrefix p [CHR 0x5C]" using nb by (auto simp: strings_HasPrefix_char)
  moreover have "p \<noteq> ''''" using p by (auto simp: replace_char_def)
  ultimately show ?thesis
    unfolding NormalizeTransferPath_Inr using p nb by (auto simp: replace_char_id)
qed

section \<open>Well-formed manifests\<close>

definition file_ok :: "FileEntry \<Rightarrow> bool" where
  "file_ok f \<longleftrightarrow> 0 \<le> fe_Size f \<and> 0 \<le> fe_LastModified f \<and> 0 < fe_BlockSize f
     \<and> fe_BlockSize f \<le> MaxManifestBlockBytes \<and> fe_Blocks f = wantBlocks f
     \<and> NormalizeTransferPath (fe_Name f) = Inr (fe_Name f)"

fun idx_from :: "int \<Rightarrow> FileEntry list \<Rightarrow> bool" where
  "idx_from i [] = True"
| "idx_from i (f # fs) = (fe_Idx f = i \<and> idx_from (i + 1) fs)"

definition path_key :: "FileEntry \<Rightarrow> string" where
  "path_key f = strings_ToLower (fe_Name f)"

definition sizes :: "FileEntry list \<Rightarrow> int" where
  "sizes fs = sum_list (map fe_Size fs)"

definition manifest_ok :: "Manifest \<Rightarrow> bool" where
  "manifest_ok m \<longleftrightarrow> mf_Type m = FrameManifest \<and> mf_Files m \<noteq> []
     \<and> length (mf_Files m) \<le> MaxTransferFiles \<and> list_all file_ok (mf_Files m)
     \<and> idx_from 0 (mf_Files m) \<and> distinct (map path_key (mf_Files m))
     \<and> mf_TotalSize m = sizes (mf_Files m) \<and> mf_TotalSize m \<le> max_int64"

lemma idx_from_nth: "idx_from i fs \<Longrightarrow> n < length fs \<Longrightarrow> fe_Idx (fs ! n) = i + int n"
  by (induction fs arbitrary: i n) (auto simp: nth_Cons split: nat.splits)

lemma sizes_Cons [simp]: "sizes (f # fs) = fe_Size f + sizes fs" "sizes [] = 0"
  by (simp_all add: sizes_def)

lemma wantBlocks_name [simp]: "wantBlocks (f\<lparr>fe_Name := n\<rparr>) = wantBlocks f"
  by (simp add: wantBlocks_def)

lemma wantBlocks_eq:
  "0 < fe_Size f \<Longrightarrow> 0 < fe_BlockSize f \<Longrightarrow> wantBlocks f = (fe_Size f - 1) div fe_BlockSize f + 1"
  by (simp add: wantBlocks_def go_div_nonneg)

text \<open>The block count is the ceiling of size over block size: the last block starts inside the
  file and ends at or after its end.\<close>

lemma wantBlocks_cover:
  assumes "0 \<le> fe_Size f" and "0 < fe_BlockSize f"
  shows "fe_Size f \<le> wantBlocks f * fe_BlockSize f"
    and "0 < fe_Size f \<Longrightarrow> (wantBlocks f - 1) * fe_BlockSize f < fe_Size f"
    and "0 \<le> wantBlocks f" and "wantBlocks f \<le> fe_Size f"
proof -
  let ?s = "fe_Size f" and ?b = "fe_BlockSize f"
  have dm: "(?s - 1) div ?b * ?b + (?s - 1) mod ?b = ?s - 1" by simp
  have mod: "0 \<le> (?s - 1) mod ?b" "(?s - 1) mod ?b < ?b" using assms(2) by simp_all
  have "?s \<le> ((?s - 1) div ?b + 1) * ?b"
    unfolding distrib_right using dm mod by linarith
  then show "?s \<le> wantBlocks f * ?b"
    using assms by (cases "0 < ?s") (simp_all add: wantBlocks_def go_div_nonneg)
  show "(wantBlocks f - 1) * ?b < ?s" if "0 < ?s"
  proof -
    have "(?s - 1) div ?b * ?b < ?s" using dm mod by linarith
    with that assms show ?thesis by (simp add: wantBlocks_eq)
  qed
  show "0 \<le> wantBlocks f"
    using assms by (cases "0 < ?s") (simp_all add: wantBlocks_def go_div_nonneg
        pos_imp_zdiv_nonneg_iff)
  show "wantBlocks f \<le> ?s"
  proof (cases "0 < ?s")
    case True
    have "(?s - 1) div ?b \<le> (?s - 1) div 1" by (rule zdiv_mono2) (use True assms(2) in simp_all)
    with True assms show ?thesis by (simp add: wantBlocks_eq)
  qed (use assms in \<open>simp add: wantBlocks_def\<close>)
qed

lemma validate_files_Inr:
  assumes "validate_files idx paths tot fs = Inr (gs, t)" and "0 \<le> tot"
  shows "list_all file_ok gs \<and> idx_from idx gs \<and> distinct (map path_key gs)
    \<and> set (map path_key gs) \<inter> set paths = {} \<and> t = tot + sizes gs \<and> length gs = length fs
    \<and> (tot \<le> max_int64 \<longrightarrow> t \<le> max_int64)"
  using assms
proof (induction fs arbitrary: idx paths tot gs t)
  case (Cons f0 rest)
  from Cons.prems(1) obtain name gs' where
    g: "fe_Idx f0 = idx" "0 \<le> fe_Size f0" "0 \<le> fe_LastModified f0" "0 < fe_BlockSize f0"
      "fe_BlockSize f0 \<le> MaxManifestBlockBytes" "fe_Blocks f0 = wantBlocks f0"
    and n: "NormalizeTransferPath (fe_Name f0) = Inr name"
    and k: "strings_ToLower name \<notin> set paths" and sz: "fe_Size f0 \<le> max_int64 - tot"
    and r: "validate_files (idx + 1) (strings_ToLower name # paths) (tot + fe_Size f0) rest
        = Inr (gs', t)"
    and gs: "gs = f0\<lparr>fe_Name := name\<rparr> # gs'"
    by (auto simp: Let_def not_less split: if_splits sum.splits)
  have IH: "list_all file_ok gs' \<and> idx_from (idx + 1) gs' \<and> distinct (map path_key gs')
    \<and> set (map path_key gs') \<inter> set (strings_ToLower name # paths) = {}
    \<and> t = tot + fe_Size f0 + sizes gs' \<and> length gs' = length rest
    \<and> (tot + fe_Size f0 \<le> max_int64 \<longrightarrow> t \<le> max_int64)"
    using Cons.IH [OF r] g Cons.prems(2) by auto
  have "file_ok (f0\<lparr>fe_Name := name\<rparr>)" using g Normalize_idem [OF n] by (simp add: file_ok_def)
  moreover have "path_key (f0\<lparr>fe_Name := name\<rparr>) = strings_ToLower name" by (simp add: path_key_def)
  ultimately show ?case using IH g k sz gs by auto
qed simp

lemma sizes_nonneg: "list_all file_ok fs \<Longrightarrow> 0 \<le> sizes fs"
  by (induction fs) (auto simp: file_ok_def)

lemma validate_files_ok:
  assumes "list_all file_ok fs" and "idx_from idx fs" and "distinct (map path_key fs)"
    and "set (map path_key fs) \<inter> set paths = {}" and "tot + sizes fs \<le> max_int64"
  shows "validate_files idx paths tot fs = Inr (fs, tot + sizes fs)"
  using assms
proof (induction fs arbitrary: idx paths tot)
  case (Cons f fs)
  have ok: "file_ok f" using Cons.prems by simp
  have b: "0 \<le> fe_Blocks f" using ok wantBlocks_cover(3) [of f] by (simp add: file_ok_def)
  have "validate_files (idx + 1) (path_key f # paths) (tot + fe_Size f) fs
      = Inr (fs, tot + fe_Size f + sizes fs)"
    using Cons.prems by (intro Cons.IH) auto
  moreover have "fe_Size f \<le> max_int64 - tot" using Cons.prems sizes_nonneg [of fs] by auto
  ultimately show ?case
    using ok b Cons.prems by (auto simp: file_ok_def Let_def path_key_def)
qed simp

lemma ValidateManifest_Inr:
  assumes "ValidateManifest m = Inr m'"
  shows "manifest_ok m'" and "mf_TransferID m' = mf_TransferID m"
    and "mf_TotalSize m' = mf_TotalSize m" and "length (mf_Files m') = length (mf_Files m)"
proof -
  from assms obtain files t where ne: "mf_Files m \<noteq> []" "length (mf_Files m) \<le> MaxTransferFiles"
    and v: "validate_files 0 [] 0 (mf_Files m) = Inr (files, t)" and t: "mf_TotalSize m = t"
    and m': "m' = m\<lparr>mf_Files := files, mf_Type := FrameManifest\<rparr>"
    by (auto simp: ValidateManifest_def split: if_splits sum.splits)
  note f = validate_files_Inr [OF v]
  have "(0::int) \<le> max_int64" by (simp add: max_int64_def)
  with f ne t show "manifest_ok m'" by (auto simp: manifest_ok_def m')
  show "mf_TransferID m' = mf_TransferID m" "mf_TotalSize m' = mf_TotalSize m"
    "length (mf_Files m') = length (mf_Files m)" using f by (simp_all add: m')
qed

lemma ValidateManifest_ok: "manifest_ok m \<Longrightarrow> ValidateManifest m = Inr m"
  using validate_files_ok [of "mf_Files m" 0 "[]" 0]
  by (simp add: ValidateManifest_def manifest_ok_def not_less)

lemma manifest_ok_file:
  assumes "manifest_ok m" and "i < length (mf_Files m)"
  shows "file_ok (mf_Files m ! i)" and "fe_Idx (mf_Files m ! i) = int i"
  using assms idx_from_nth [of 0 "mf_Files m" i]
  by (simp_all add: manifest_ok_def list_all_length)

lemma file_size_le_max:
  assumes "manifest_ok m" and "f \<in> set (mf_Files m)"
  shows "fe_Size f \<le> max_int64"
proof -
  have "fe_Size f \<le> sizes (mf_Files m)"
    unfolding sizes_def using assms
    by (intro member_le_sum_list) (auto simp: manifest_ok_def list_all_iff file_ok_def)
  with assms(1) show ?thesis by (simp add: manifest_ok_def)
qed

section \<open>Properties\<close>

text \<open>C25: a path the receiver accepts stays strictly below whatever directory it is resolved
  against, component by component: no empty, dot or dot-dot component survives, whichever
  separator the sender used.\<close>

theorem accepted_path_stays_inside:
  assumes "NormalizeTransferPath input = Inr p"
  shows "resolve dir (strings_Split (CHR ''/'') p) = Some (dir @ strings_Split (CHR ''/'') p)
    \<and> CHR 0x5C \<notin> set p \<and> CHR '':'' \<notin> set p
    \<and> length (strings_Split (CHR ''/'') p) \<le> 32 \<and> length p \<le> 1024"
proof -
  note p = assms [unfolded NormalizeTransferPath_Inr]
  have "CHR 0x5C \<notin> set p" using p by (auto simp: replace_char_notin)
  with p show ?thesis
    by (auto simp: resolve_safe safe_path_no_colon MaxTransferPathDepth_def MaxTransferPathBytes_def)
qed

lemmas path_evaluation = NormalizeTransferPath_def strings_HasPrefix_def is_letter_def
  replace_char_def Let_def MaxTransferPathDepth_def MaxTransferPathBytes_def
  MaxTransferSegmentBytes_def unsafe_rune_def strings_HasSuffix_def windowsReserved_def
  reserved_names_def ascii_lower_def

lemma Normalize_example: "NormalizeTransferPath (''docs'' @ [CHR 0x5C] @ ''a.txt'') = Inr ''docs/a.txt''"
  by (simp add: path_evaluation)

theorem accepted_path_stays_inside_witness:
  "NormalizeTransferPath (''docs'' @ [CHR 0x5C] @ ''a.txt'') = Inr ''docs/a.txt''
     \<and> resolve [''home'', ''out''] [''docs'', ''a.txt''] = Some [''home'', ''out'', ''docs'', ''a.txt'']"
proof -
  have "strings_Split (CHR ''/'') ''docs/a.txt'' = [''docs'', ''a.txt'']" by simp
  with accepted_path_stays_inside [OF Normalize_example, of "[''home'', ''out'']"] Normalize_example
  show ?thesis by simp
qed

text \<open>normalising an accepted path again changes nothing, so the canonical name is stable
  across hops.\<close>

theorem normalize_idempotent:
  assumes "NormalizeTransferPath input = Inr p"
  shows "NormalizeTransferPath p = Inr p"
  using assms by (rule Normalize_idem)

theorem normalize_idempotent_witness:
  "NormalizeTransferPath (''docs'' @ [CHR 0x5C] @ ''a.txt'') = Inr ''docs/a.txt''
     \<and> NormalizeTransferPath ''docs/a.txt'' = Inr ''docs/a.txt''"
  using Normalize_example normalize_idempotent [OF Normalize_example] by blast


definition example_file :: FileEntry where
  "example_file = \<lparr>fe_Idx = 0, fe_Name = ''a.txt'', fe_Size = 5, fe_Mime = '''', fe_LastModified = 0,
     fe_BlockSize = 2, fe_Blocks = 3, fe_FileDigest = ''''\<rparr>"

definition example_manifest :: Manifest where
  "example_manifest = NewManifest [example_file] 5"

lemma example_manifest_ok: "manifest_ok example_manifest"
  by (simp add: manifest_ok_def example_manifest_def NewManifest_def example_file_def file_ok_def
      wantBlocks_def go_div_def MaxTransferFiles_def MaxManifestBlockBytes_def max_int64_def
      path_evaluation)


end
