(* ===== verification/GoJson.thy ===== *)
theory GoJson
  imports GoText
begin

text \<open>
  The part of \<^verbatim>\<open>encoding/json\<close> the sources use: an \<^verbatim>\<open>Encoder\<close> without HTML escaping, and
  \<^verbatim>\<open>json.Unmarshal\<close> into structs whose fields are pointers, strings, integers or slices of
  structs.  \<open>json\<close> is the syntax tree; numbers keep their literal, as the decoder does until a
  field's type is known.  The parser runs on fuel; \<open>json_parse\<close> gives it twice the input's
  length, and \<open>json_parse_print\<close> shows that this is enough for everything the encoder writes.
  Nesting deeper than 10000 is refused, as in Go.
\<close>

section \<open>Decimal numbers\<close>

definition digit :: "nat \<Rightarrow> char" where "digit n = char_of (48 + n mod 10)"

definition is_digit :: "char \<Rightarrow> bool" where "is_digit c \<longleftrightarrow> 48 \<le> code c \<and> code c \<le> 57"

fun nat_dec :: "nat \<Rightarrow> string" where
  "nat_dec n = (if n < 10 then [digit n] else nat_dec (n div 10) @ [digit (n mod 10)])"

declare nat_dec.simps [simp del]

definition int_dec :: "int \<Rightarrow> string" where
  "int_dec i = (if i < 0 then CHR ''-'' # nat_dec (nat (- i)) else nat_dec (nat i))"

definition dec_nat :: "string \<Rightarrow> nat" where
  "dec_nat s = foldl (\<lambda>acc c. acc * 10 + (code c - 48)) 0 s"

text \<open>\<^verbatim>\<open>strconv.ParseInt(s, 10, 64)\<close> on a number literal.\<close>

definition ParseInt64 :: "string \<Rightarrow> int option" where
  "ParseInt64 s =
     (let neg = (s \<noteq> [] \<and> hd s = CHR ''-''); ds = (if neg then tl s else s)
      in if ds = [] \<or> \<not> list_all is_digit ds then None
         else let v = (if neg then - int (dec_nat ds) else int (dec_nat ds))
              in if in_s64 v then Some v else None)"

section \<open>Syntax trees\<close>

datatype json = JNull | JBool bool | JNum string | JStr string
  | JArr "json list" | JObj "(string \<times> json) list"

abbreviation quote :: char where "quote \<equiv> CHR 0x22"
abbreviation backslash :: char where "backslash \<equiv> CHR 0x5C"

section \<open>Encoding\<close>

text \<open>\<^verbatim>\<open>appendString\<close> with \<^verbatim>\<open>escapeHTML = false\<close>.\<close>

definition escape_ascii :: "char \<Rightarrow> string" where
  "escape_ascii c =
     (if c = quote \<or> c = backslash then [backslash, c]
      else if code c = 8 then [backslash, CHR ''b'']
      else if code c = 12 then [backslash, CHR ''f'']
      else if code c = 10 then [backslash, CHR ''n'']
      else if code c = 13 then [backslash, CHR ''r'']
      else if code c = 9 then [backslash, CHR ''t'']
      else if code c < 32 then [backslash, CHR ''u'', CHR ''0'', CHR ''0'',
        hex_digit (code c div 16), hex_digit (code c mod 16)]
      else [c])"

function json_escape :: "string \<Rightarrow> string" where
  "json_escape [] = []"
| "json_escape (c # cs) =
     (if code c < 128 then escape_ascii c @ json_escape cs
      else let r = fst (decode_rune (c # cs)); n = snd (decode_rune (c # cs)) in
        (if r = RuneError \<and> n = 1 then backslash # ''ufffd''
         else if r = 8232 \<or> r = 8233 then backslash # ''u202'' @ [hex_digit (r mod 16)]
         else take n (c # cs)) @ json_escape (drop n (c # cs)))"
  by pat_completeness auto
termination
  using decode_rune_width by (relation "measure length") fastforce+

declare json_escape.simps(2) [simp del]

definition json_quote :: "string \<Rightarrow> string" where
  "json_quote s = quote # json_escape s @ [quote]"

fun comma_sep :: "string list \<Rightarrow> string" where
  "comma_sep [] = []"
| "comma_sep [s] = s"
| "comma_sep (s # ss) = s @ CHR '','' # comma_sep ss"

fun json_print :: "json \<Rightarrow> string" where
  "json_print JNull = ''null''"
| "json_print (JBool b) = (if b then ''true'' else ''false'')"
| "json_print (JNum s) = s"
| "json_print (JStr s) = json_quote s"
| "json_print (JArr vs) = CHR ''['' # comma_sep (map json_print vs) @ '']''"
| "json_print (JObj ms) =
     CHR ''{'' # comma_sep (map (\<lambda>(k, v). json_quote k @ CHR '':'' # json_print v) ms) @ ''}''"

definition jint :: "int \<Rightarrow> json" where "jint i = JNum (int_dec i)"

section \<open>Parsing\<close>

definition is_ws :: "char \<Rightarrow> bool" where "is_ws c \<longleftrightarrow> code c \<in> {32, 9, 10, 13}"

definition skip_ws :: "string \<Rightarrow> string" where "skip_ws s = dropWhile is_ws s"

definition hex_val :: "char \<Rightarrow> nat option" where
  "hex_val c = (if is_digit c then Some (code c - 48)
     else if 97 \<le> code c \<and> code c \<le> 102 then Some (code c - 87)
     else if 65 \<le> code c \<and> code c \<le> 70 then Some (code c - 55) else None)"

fun getu4 :: "string \<Rightarrow> nat option" where
  "getu4 (a # b # c # d # _) =
     (case (hex_val a, hex_val b, hex_val c, hex_val d) of
        (Some w, Some x, Some y, Some z) \<Rightarrow> Some (((w * 16 + x) * 16 + y) * 16 + z)
      | _ \<Rightarrow> None)"
| "getu4 _ = None"

text \<open>The low surrogate that completes a high one at the front of the rest of the input.\<close>

definition low_surrogate :: "nat \<Rightarrow> string \<Rightarrow> nat option" where
  "low_surrogate r s =
     (if r < 56320 \<and> take 2 s = [backslash, CHR ''u''] then
        (case getu4 (drop 2 s) of
           Some r2 \<Rightarrow> if 56320 \<le> r2 \<and> r2 < 57344
             then Some ((r - 55296) * 1024 + (r2 - 56320) + 65536) else None
         | None \<Rightarrow> None)
      else None)"

definition unescape :: "char \<Rightarrow> char option" where
  "unescape c =
     (if c \<in> {quote, backslash, CHR ''/''} then Some c
      else if c = CHR ''b'' then Some (char_of (8::nat))
      else if c = CHR ''f'' then Some (char_of (12::nat))
      else if c = CHR ''n'' then Some (char_of (10::nat))
      else if c = CHR ''r'' then Some (char_of (13::nat))
      else if c = CHR ''t'' then Some (char_of (9::nat)) else None)"

definition prepend :: "string \<Rightarrow> (string \<times> string) option \<Rightarrow> (string \<times> string) option" where
  "prepend p = map_option (\<lambda>(t, r). (p @ t, r))"

function json_str :: "string \<Rightarrow> (string \<times> string) option" where
  "json_str [] = None"
| "json_str (c # cs) =
     (if c = quote then Some ([], cs)
      else if c = backslash then
        (case cs of [] \<Rightarrow> None
         | e # cs' \<Rightarrow>
           if e = CHR ''u'' then
             (case getu4 cs' of None \<Rightarrow> None
              | Some r \<Rightarrow>
                if 55296 \<le> r \<and> r < 57344 then
                  (case low_surrogate r (drop 4 cs') of
                     Some r' \<Rightarrow> prepend (encode_rune r') (json_str (drop 10 cs'))
                   | None \<Rightarrow> prepend (encode_rune RuneError) (json_str (drop 4 cs')))
                else prepend (encode_rune r) (json_str (drop 4 cs')))
           else (case unescape e of None \<Rightarrow> None | Some x \<Rightarrow> prepend [x] (json_str cs')))
      else if code c < 32 then None
      else if code c < 128 then prepend [c] (json_str cs)
      else prepend (encode_rune (fst (decode_rune (c # cs))))
             (json_str (drop (snd (decode_rune (c # cs))) (c # cs))))"
  by pat_completeness auto
termination
  using decode_rune_width by (relation "measure length") fastforce+

declare json_str.simps(2) [simp del]

definition json_digits :: "string \<Rightarrow> (string \<times> string) option" where
  "json_digits s = (let ds = takeWhile is_digit s in
     if ds = [] then None else Some (ds, dropWhile is_digit s))"

definition json_frac :: "string \<Rightarrow> (string \<times> string) option" where
  "json_frac s = (case s of CHR ''.'' # r \<Rightarrow> prepend ''.'' (json_digits r) | _ \<Rightarrow> Some ([], s))"

definition json_exp :: "string \<Rightarrow> (string \<times> string) option" where
  "json_exp s = (case s of
       e # r \<Rightarrow> if e = CHR ''e'' \<or> e = CHR ''E'' then
           (case r of g # r' \<Rightarrow> if g = CHR ''+'' \<or> g = CHR ''-''
                then prepend [e, g] (json_digits r') else prepend [e] (json_digits r)
            | [] \<Rightarrow> None)
         else Some ([], s)
     | [] \<Rightarrow> Some ([], s))"

definition json_int_part :: "string \<Rightarrow> (string \<times> string) option" where
  "json_int_part s = (case s of CHR ''0'' # r \<Rightarrow> Some (''0'', r) | _ \<Rightarrow> json_digits s)"

definition json_num :: "string \<Rightarrow> (string \<times> string) option" where
  "json_num s =
     (let neg = (s \<noteq> [] \<and> hd s = CHR ''-''); s0 = (if neg then tl s else s) in
      case json_int_part s0 of None \<Rightarrow> None
      | Some (ds, s1) \<Rightarrow>
        (case json_frac s1 of None \<Rightarrow> None
         | Some (fs, s2) \<Rightarrow>
           (case json_exp s2 of None \<Rightarrow> None
            | Some (es, s3) \<Rightarrow> Some ((if neg then ''-'' else []) @ ds @ fs @ es, s3))))"

definition max_depth :: nat where "max_depth = 10000"

text \<open>\<open>d\<close> is the number of open arrays and objects.\<close>

fun parse_value :: "nat \<Rightarrow> nat \<Rightarrow> string \<Rightarrow> (json \<times> string) option"
  and parse_elems :: "nat \<Rightarrow> nat \<Rightarrow> string \<Rightarrow> (json list \<times> string) option"
  and parse_members :: "nat \<Rightarrow> nat \<Rightarrow> string \<Rightarrow> ((string \<times> json) list \<times> string) option" where
  "parse_value 0 d s = None"
| "parse_value (Suc f) d s =
     (case skip_ws s of [] \<Rightarrow> None
      | c # cs \<Rightarrow>
        if c = CHR ''{'' then
          (if max_depth \<le> d then None
           else if take 1 (skip_ws cs) = ''}'' then Some (JObj [], drop 1 (skip_ws cs))
           else map_option (\<lambda>(ms, r). (JObj ms, r)) (parse_members f (Suc d) cs))
        else if c = CHR ''['' then
          (if max_depth \<le> d then None
           else if take 1 (skip_ws cs) = '']'' then Some (JArr [], drop 1 (skip_ws cs))
           else map_option (\<lambda>(vs, r). (JArr vs, r)) (parse_elems f (Suc d) cs))
        else if c = quote then map_option (\<lambda>(t, r). (JStr t, r)) (json_str cs)
        else if c = CHR ''t'' then
          (if take 3 cs = ''rue'' then Some (JBool True, drop 3 cs) else None)
        else if c = CHR ''f'' then
          (if take 4 cs = ''alse'' then Some (JBool False, drop 4 cs) else None)
        else if c = CHR ''n'' then
          (if take 3 cs = ''ull'' then Some (JNull, drop 3 cs) else None)
        else map_option (\<lambda>(t, r). (JNum t, r)) (json_num (c # cs)))"
| "parse_elems 0 d s = None"
| "parse_elems (Suc f) d s =
     (case parse_value f d s of None \<Rightarrow> None
      | Some (v, r) \<Rightarrow>
        (case skip_ws r of [] \<Rightarrow> None
         | c # r' \<Rightarrow>
           if c = CHR '','' then map_option (\<lambda>(vs, r2). (v # vs, r2)) (parse_elems f d r')
           else if c = CHR '']'' then Some ([v], r') else None))"
| "parse_members 0 d s = None"
| "parse_members (Suc f) d s =
     (case skip_ws s of [] \<Rightarrow> None
      | q # cs \<Rightarrow>
        if q \<noteq> quote then None
        else (case json_str cs of None \<Rightarrow> None
          | Some (k, r) \<Rightarrow>
            (case skip_ws r of [] \<Rightarrow> None
             | c # r' \<Rightarrow>
               if c \<noteq> CHR '':'' then None
               else (case parse_value f d r' of None \<Rightarrow> None
                 | Some (v, r2) \<Rightarrow>
                   (case skip_ws r2 of [] \<Rightarrow> None
                    | c2 # r3 \<Rightarrow>
                      if c2 = CHR '','' then
                        map_option (\<lambda>(ms, r4). ((k, v) # ms, r4)) (parse_members f d r3)
                      else if c2 = CHR ''}'' then Some ([(k, v)], r3) else None)))))"

definition json_parse :: "string \<Rightarrow> json option" where
  "json_parse s = (case parse_value (2 * length s + 2) 0 s of
     Some (v, r) \<Rightarrow> if skip_ws r = [] then Some v else None | None \<Rightarrow> None)"

section \<open>Decoding into struct fields\<close>

text \<open>Keys match a field name up to case folding (the long s and the Kelvin sign fold to
  ASCII letters).\<close>

definition fold_rune :: "nat \<Rightarrow> nat" where
  "fold_rune r = (if 97 \<le> r \<and> r \<le> 122 then r - 32 else if r = 383 then 83
     else if r = 8490 then 75 else r)"

definition key_match :: "string \<Rightarrow> string \<Rightarrow> bool" where
  "key_match k n \<longleftrightarrow> map fold_rune (runes k) = map fold_rune (runes n)"

definition field_values :: "string \<Rightarrow> (string \<times> json) list \<Rightarrow> json list" where
  "field_values n ms = map snd (filter (\<lambda>(k, v). key_match k n) ms)"

text \<open>A pointer field: \<open>None\<close> when some value has the wrong type (\<^verbatim>\<open>Unmarshal\<close> fails),
  \<open>Some None\<close> when the pointer stays or becomes nil.\<close>

definition ptr_field ::
  "(json \<Rightarrow> 'a option) \<Rightarrow> string \<Rightarrow> (string \<times> json) list \<Rightarrow> 'a option option" where
  "ptr_field dec n ms =
     (let vs = field_values n ms in
      if list_ex (\<lambda>v. v \<noteq> JNull \<and> dec v = None) vs then None
      else Some (case rev vs of [] \<Rightarrow> None | v # _ \<Rightarrow> if v = JNull then None else dec v))"

text \<open>A plain field keeps its zero value on null.\<close>

definition val_field ::
  "(json \<Rightarrow> 'a option) \<Rightarrow> 'a \<Rightarrow> string \<Rightarrow> (string \<times> json) list \<Rightarrow> 'a option" where
  "val_field dec zero n ms =
     (let vs = filter (\<lambda>v. v \<noteq> JNull) (field_values n ms) in
      if list_ex (\<lambda>v. dec v = None) vs then None
      else (case rev vs of [] \<Rightarrow> Some zero | v # _ \<Rightarrow> dec v))"

fun as_int :: "json \<Rightarrow> int option" where
  "as_int (JNum s) = ParseInt64 s"
| "as_int _ = None"

fun as_string :: "json \<Rightarrow> string option" where
  "as_string (JStr s) = Some s"
| "as_string _ = None"

text \<open>A struct takes its members; null leaves the zero struct.\<close>

fun as_members :: "json \<Rightarrow> (string \<times> json) list option" where
  "as_members (JObj ms) = Some ms"
| "as_members JNull = Some []"
| "as_members _ = None"

fun opt_list :: "'a option list \<Rightarrow> 'a list option" where
  "opt_list [] = Some []"
| "opt_list (x # xs) = (case (x, opt_list xs) of (Some a, Some as) \<Rightarrow> Some (a # as) | _ \<Rightarrow> None)"

fun as_slice :: "(json \<Rightarrow> 'a option) \<Rightarrow> json \<Rightarrow> 'a list option" where
  "as_slice dec (JArr vs) = opt_list (map dec vs)"
| "as_slice dec _ = None"

section \<open>Round trip: numbers\<close>

lemma is_digit_digit [simp]: "is_digit (digit n)"
  by (simp add: is_digit_def digit_def of_char_of)

lemma code_digit [simp]: "code (digit n) = 48 + n mod 10"
  by (simp add: digit_def of_char_of)

lemma digit_zero: "digit 0 = CHR ''0''"
proof -
  have "code (digit 0) = code CHR ''0''" by simp
  then show ?thesis by (simp only: of_char_eq_iff)
qed

lemma nat_dec_nonempty [simp]: "nat_dec n \<noteq> []"
  by (subst nat_dec.simps) simp

lemma nat_dec_digits [simp]: "list_all is_digit (nat_dec n)"
proof (induction n rule: nat_dec.induct)
  case (1 n)
  then show ?case by (subst nat_dec.simps) simp
qed

lemma dec_nat_snoc: "dec_nat (s @ [c]) = dec_nat s * 10 + (code c - 48)"
  by (simp add: dec_nat_def)

lemma dec_nat_nat_dec [simp]: "dec_nat (nat_dec n) = n"
proof (induction n rule: nat_dec.induct)
  case (1 n)
  show ?case
  proof (cases "n < 10")
    case True
    then show ?thesis by (subst nat_dec.simps) (simp add: dec_nat_def)
  next
    case False
    with 1 show ?thesis by (subst nat_dec.simps) (simp add: dec_nat_snoc)
  qed
qed

lemma nat_dec_zero_head: "hd (nat_dec n) = CHR ''0'' \<Longrightarrow> n = 0"
proof (induction n rule: nat_dec.induct)
  case (1 n)
  show ?case
  proof (cases "n < 10")
    case True
    with "1.prems" have "digit n = CHR ''0''" by (subst (asm) nat_dec.simps) simp
    then have "code (digit n) = 48" by simp
    with True show ?thesis by simp
  next
    case False
    with "1.prems" have "hd (nat_dec (n div 10)) = CHR ''0''"
      by (subst (asm) nat_dec.simps) simp
    with "1.IH" False have "n div 10 = 0" by blast
    with False show ?thesis by simp
  qed
qed

lemma is_digit_minus [simp]: "\<not> is_digit CHR ''-''"
  by (simp add: is_digit_def)

lemma nat_dec_hd_minus [simp]: "hd (nat_dec n) \<noteq> CHR ''-''"
  using nat_dec_digits [of n] by (metis is_digit_minus list_all_iff list.set_sel(1) nat_dec_nonempty)

lemma ParseInt64_int_dec [simp]: "in_s64 i \<Longrightarrow> ParseInt64 (int_dec i) = Some i"
  by (simp add: ParseInt64_def int_dec_def Let_def)

definition delim :: "string \<Rightarrow> bool" where
  "delim r \<longleftrightarrow> r = [] \<or> hd r \<in> {CHR '','', CHR '']'', CHR ''}''}"

lemma delim_Cons [simp]:
  "delim (CHR '','' # r)" "delim (CHR '']'' # r)" "delim (CHR ''}'' # r)" "delim []"
  by (simp_all add: delim_def)

lemma takeWhile_digits:
  "list_all is_digit ds \<Longrightarrow> delim r \<Longrightarrow>
    takeWhile is_digit (ds @ r) = ds \<and> dropWhile is_digit (ds @ r) = r"
  by (induction ds; cases r) (auto simp: delim_def is_digit_def)

lemma json_frac_delim: "delim r \<Longrightarrow> json_frac r = Some ([], r)"
  by (cases r) (auto simp: delim_def json_frac_def)

lemma json_exp_delim: "delim r \<Longrightarrow> json_exp r = Some ([], r)"
  by (cases r) (auto simp: delim_def json_exp_def)

lemma json_int_part_nat_dec: "delim r \<Longrightarrow> json_int_part (nat_dec n @ r) = Some (nat_dec n, r)"
proof -
  assume r: "delim r"
  show ?thesis
  proof (cases "n = 0")
    case True
    have "nat_dec 0 = ''0''" by (subst nat_dec.simps) (simp add: digit_zero)
    with True show ?thesis by (simp add: json_int_part_def)
  next
    case False
    obtain c cs where e: "nat_dec n = c # cs" using nat_dec_nonempty by (cases "nat_dec n") auto
    have "c \<noteq> CHR ''0''" using nat_dec_zero_head [of n] False e by auto
    then have "json_int_part (c # cs @ r) = json_digits (c # cs @ r)"
      by (auto simp: json_int_part_def split: list.splits char.splits bool.splits)
    with e takeWhile_digits [OF nat_dec_digits r, of n] show ?thesis
      by (simp add: json_digits_def Let_def)
  qed
qed

lemma json_num_int_dec: "delim r \<Longrightarrow> json_num (int_dec i @ r) = Some (int_dec i, r)"
  by (simp add: json_num_def int_dec_def Let_def json_int_part_nat_dec json_frac_delim
      json_exp_delim)

section \<open>Round trip: strings\<close>

lemma divmod64:
  fixes a b :: nat
  assumes "b < 64"
  shows "(a * 64 + b) div 64 = a" and "(a * 64 + b) mod 64 = b"
  using assms by simp_all

lemma char_of_base:
  assumes "code c = n + a"
  shows "char_of (n + a) = c"
  unfolding assms [symmetric] by simp

lemma code_base: "n \<le> code c \<Longrightarrow> \<exists>a. code c = n + a"
  by (rule le_Suc_ex)

lemma cont_base: "cont c \<Longrightarrow> \<exists>a. code c = 128 + a \<and> a < 64"
  using code_base [of 128 c] by (auto simp: cont_def)

lemma encode_rune2:
  assumes "194 \<le> code c" and "code c < 224" and "cont c1"
  shows "encode_rune ((code c - 192) * 64 + low6 c1) = [c, c1]"
proof -
  obtain a where a: "code c = 192 + a" using assms(1) code_base [of 192 c] by auto
  obtain b where b: "code c1 = 128 + b" "b < 64" using cont_base [OF assms(3)] by auto
  have a2: "2 \<le> a" "a < 32" using assms a by simp_all
  then have r: "128 \<le> a * 64 + b" "a * 64 + b < 2048" using b by linarith+
  show ?thesis
    using r by (simp add: encode_rune_def low6_def a b divmod64 char_of_base [OF a]
      char_of_base [OF b(1)])
qed

lemma encode_rune3:
  assumes "224 \<le> code c" and "code c < 240" and "cont c1" and "cont c2"
    and "code c = 224 \<longrightarrow> 160 \<le> code c1" and "code c = 237 \<longrightarrow> code c1 < 160"
  shows "encode_rune ((code c - 224) * 4096 + low6 c1 * 64 + low6 c2) = [c, c1, c2]"
proof -
  obtain x where x: "code c = 224 + x" using code_base [OF assms(1)] by auto
  obtain y where y: "code c1 = 128 + y" "y < 64" using cont_base [OF assms(3)] by auto
  obtain z where z: "code c2 = 128 + z" "z < 64" using cont_base [OF assms(4)] by auto
  have bounds: "x < 16" "x = 0 \<longrightarrow> 32 \<le> y" "x = 13 \<longrightarrow> y < 32"
    using assms x y by simp_all
  define r where "r = (x * 64 + y) * 64 + z"
  have d: "r div 64 = x * 64 + y" "r mod 64 = z" unfolding r_def using z by (simp_all only: divmod64)
  have "r div 4096 = r div 64 div 64" by (simp add: div_mult2_eq [symmetric])
  then have d2: "r div 4096 = x" using d y by (simp only: divmod64)
  have d3: "r div 64 mod 64 = y" using d y by (simp only: divmod64)
  have lo: "2048 \<le> r" using bounds by (cases "x = 0") (auto simp: r_def)
  have mid: "r < 55296 \<or> 57344 \<le> r"
  proof (cases "x < 14")
    case True
    then show ?thesis using bounds y z by (cases "x = 13") (auto simp: r_def)
  next
    case False
    then show ?thesis by (simp add: r_def)
  qed
  have hi: "r < 65536" using bounds y z by (simp add: r_def)
  have "(code c - 224) * 4096 + low6 c1 * 64 + low6 c2 = r"
    by (simp add: low6_def x y z r_def)
  then show ?thesis
    using lo mid hi by (auto simp: encode_rune_def d2 d3 d(2) char_of_base [OF x]
      char_of_base [OF y(1)] char_of_base [OF z(1)])
qed

lemma encode_rune4:
  assumes "240 \<le> code c" and "code c < 245" and "cont c1" and "cont c2" and "cont c3"
    and "code c = 240 \<longrightarrow> 144 \<le> code c1" and "code c = 244 \<longrightarrow> code c1 < 144"
  shows "encode_rune ((code c - 240) * 262144 + low6 c1 * 4096 + low6 c2 * 64 + low6 c3)
    = [c, c1, c2, c3]"
proof -
  obtain w where w: "code c = 240 + w" using code_base [OF assms(1)] by auto
  obtain x where x: "code c1 = 128 + x" "x < 64" using cont_base [OF assms(3)] by auto
  obtain y where y: "code c2 = 128 + y" "y < 64" using cont_base [OF assms(4)] by auto
  obtain z where z: "code c3 = 128 + z" "z < 64" using cont_base [OF assms(5)] by auto
  have bounds: "w < 5" "w = 0 \<longrightarrow> 16 \<le> x" "w = 4 \<longrightarrow> x < 16" using assms w x by simp_all
  define r where "r = ((w * 64 + x) * 64 + y) * 64 + z"
  have d: "r div 64 = (w * 64 + x) * 64 + y" "r mod 64 = z"
    unfolding r_def using z by (simp_all only: divmod64)
  have d1: "r div 64 mod 64 = y" "r div 64 div 64 = w * 64 + x"
    unfolding d using y by (simp_all only: divmod64)
  have "r div 4096 = r div 64 div 64" by (simp add: div_mult2_eq [symmetric])
  then have d2: "r div 4096 = w * 64 + x" using d1 by simp
  have "r div 262144 = r div 4096 div 64" by (simp add: div_mult2_eq [symmetric])
  then have d3: "r div 262144 = w" "r div 4096 mod 64 = x"
    unfolding d2 using x by (simp_all only: divmod64)
  have lo: "65536 \<le> r" using bounds by (cases "w = 0") (auto simp: r_def)
  have hi: "r < 1114112" using bounds x y z by (cases "w = 4") (auto simp: r_def)
  have "(code c - 240) * 262144 + low6 c1 * 4096 + low6 c2 * 64 + low6 c3 = r"
    by (simp add: low6_def w x y z r_def)
  then show ?thesis
    using lo hi by (auto simp: encode_rune_def d1(1) d3 d(2) char_of_base [OF w]
      char_of_base [OF x(1)] char_of_base [OF y(1)] char_of_base [OF z(1)])
qed

lemma encode_decode_rune:
  assumes "decode_rune (c # cs) \<noteq> (RuneError, 1)"
  shows "encode_rune (fst (decode_rune (c # cs))) = take (snd (decode_rune (c # cs))) (c # cs)"
proof -
  consider "code c < 128" | "194 \<le> code c" "code c < 224" | "224 \<le> code c" "code c < 240"
    | "240 \<le> code c" "code c < 245"
    using assms by (auto simp: decode_rune.simps(2) Let_def split: if_splits)
  then show ?thesis
  proof cases
    case 1
    then show ?thesis by (simp add: decode_rune_ascii encode_rune_def)
  next
    case 2
    with assms show ?thesis
      by (cases cs) (auto simp: decode_rune.simps(2) Let_def encode_rune2 split: if_splits)
  next
    case 3
    with assms show ?thesis
      by (cases cs; cases "tl cs") (auto simp: decode_rune.simps(2) Let_def encode_rune3 split: if_splits)
  next
    case 4
    with assms show ?thesis
      by (cases cs; cases "tl cs"; cases "tl (tl cs)")
        (auto simp: decode_rune.simps(2) Let_def encode_rune4 split: if_splits)
  qed
qed

lemma decode_rune_take:
  assumes "decode_rune (c # cs) \<noteq> (RuneError, 1)"
  shows "decode_rune (take (snd (decode_rune (c # cs))) (c # cs) @ t) = decode_rune (c # cs)"
proof -
  consider "code c < 128" | "194 \<le> code c" "code c < 224" | "224 \<le> code c" "code c < 240"
    | "240 \<le> code c" "code c < 245"
    using assms by (auto simp: decode_rune.simps(2) Let_def split: if_splits)
  then show ?thesis
  proof cases
    case 1
    then show ?thesis by (simp add: decode_rune_ascii)
  next
    case 2
    with assms show ?thesis
      by (cases cs) (auto simp: decode_rune.simps(2) Let_def split: if_splits)
  next
    case 3
    with assms show ?thesis
      by (cases cs; cases "tl cs") (auto simp: decode_rune.simps(2) Let_def split: if_splits)
  next
    case 4
    with assms show ?thesis
      by (cases cs; cases "tl cs"; cases "tl (tl cs)")
        (auto simp: decode_rune.simps(2) Let_def split: if_splits)
  qed
qed

lemma hex_val_hex_digit [simp]: "hex_val (hex_digit n) = Some (n mod 16)"
proof -
  have "k < 16 \<Longrightarrow> hex_val (''0123456789abcdef'' ! k) = Some k" for k
  proof -
    assume "k < 16"
    then have "k = 0 \<or> k = 1 \<or> k = 2 \<or> k = 3 \<or> k = 4 \<or> k = 5 \<or> k = 6 \<or> k = 7 \<or> k = 8
      \<or> k = 9 \<or> k = 10 \<or> k = 11 \<or> k = 12 \<or> k = 13 \<or> k = 14 \<or> k = 15" by arith
    then show ?thesis by (elim disjE) (simp_all add: hex_val_def is_digit_def)
  qed
  then show ?thesis by (simp add: hex_digit_def)
qed

lemma getu4_hex:
  "getu4 (hex_digit a # hex_digit b # hex_digit c # hex_digit d # t) =
     Some (((a mod 16 * 16 + b mod 16) * 16 + c mod 16) * 16 + d mod 16)"
  by (simp add: getu4.simps)

declare getu4.simps [simp del]

lemma json_str_u:
  "getu4 s = Some r \<Longrightarrow> r < 55296 \<Longrightarrow>
    json_str (backslash # CHR ''u'' # s) = prepend (encode_rune r) (json_str (drop 4 s))"
  by (simp add: json_str.simps(2))

lemma hex_digit_const: "hex_digit 0 = CHR ''0''" "hex_digit 2 = CHR ''2''"
  by (simp_all add: hex_digit_def)

lemma char_of_code: "code c = n \<Longrightarrow> char_of n = c"
  by auto

lemma json_str_escape_ascii:
  assumes "code c < 128"
  shows "json_str (escape_ascii c @ t) = prepend [c] (json_str t)"
proof -
  have u: "getu4 (CHR ''0'' # CHR ''0'' # hex_digit (code c div 16) # hex_digit (code c mod 16) # t)
      = Some (code c)" if "code c < 32"
    using getu4_hex [of 0 0 "code c div 16" "code c mod 16" t] that
    by (simp add: hex_digit_const)
  have "json_str (backslash # CHR ''u'' # CHR ''0'' # CHR ''0'' # hex_digit (code c div 16)
      # hex_digit (code c mod 16) # t) = prepend [c] (json_str t)" if "code c < 32"
    using json_str_u [OF u] that by (simp add: encode_rune_def)
  then show ?thesis
    using assms
    by (auto simp: escape_ascii_def json_str.simps(2) [of backslash]
        json_str.simps(2) [of c t] unescape_def char_of_code)
qed

lemma json_str_escape:
  "valid_string s \<Longrightarrow> json_str (json_escape s @ quote # t) = Some (s, t)"
proof (induction s rule: json_escape.induct)
  case 1
  then show ?case by (simp add: json_str.simps(2))
next
  case (2 c cs)
  show ?case
  proof (cases "code c < 128")
    case True
    with 2 show ?thesis
      by (simp add: json_escape.simps(2) json_str_escape_ascii prepend_def)
  next
    case False
    let ?r = "fst (decode_rune (c # cs))" and ?n = "snd (decode_rune (c # cs))"
    let ?rest = "json_escape (drop ?n (c # cs)) @ quote # t"
    have ok: "decode_rune (c # cs) \<noteq> (RuneError, 1)"
      and v: "valid_string (drop ?n (c # cs))"
      using "2.prems" by (simp_all add: valid_string.simps(2))
    from False v have IH: "json_str ?rest = Some (drop ?n (c # cs), t)"
      using "2.IH"(2) by blast
    have enc: "encode_rune ?r = take ?n (c # cs)" using ok by (rule encode_decode_rune)
    have nr: "\<not> (?r = RuneError \<and> ?n = 1)" using ok by (metis prod.collapse)
    show ?thesis
    proof (cases "?r = 8232 \<or> ?r = 8233")
      case True
      have "getu4 (''202'' @ [hex_digit (?r mod 16)] @ ?rest) = Some ?r"
        using True getu4_hex [of 2 0 2 "?r mod 16" ?rest] by (auto simp: hex_digit_const)
      then have "json_str (backslash # ''u202'' @ [hex_digit (?r mod 16)] @ ?rest)
        = prepend (encode_rune ?r) (json_str ?rest)"
        using True json_str_u [of "''202'' @ [hex_digit (?r mod 16)] @ ?rest" ?r] by auto
      with True False nr IH enc show ?thesis
        by (auto simp: json_escape.simps(2) Let_def prepend_def)
    next
      case nls: False
      have n0: "0 < ?n" by (rule decode_rune_width) simp
      then obtain ys where ys: "take ?n (c # cs) = c # ys" by (cases ?n) auto
      have dt: "decode_rune (c # ys @ ?rest) = decode_rune (c # cs)"
        using decode_rune_take [OF ok, of ?rest] ys by simp
      have len: "length (c # ys) = ?n"
        using ys decode_rune_width_le [of "c # cs"] by (metis length_take min.absorb2)
      have dr: "drop ?n (c # ys @ ?rest) = ?rest"
        using len by (metis append_Cons append_eq_conv_conj)
      have nq: "c \<noteq> quote" "c \<noteq> backslash" "\<not> code c < 32" using False by auto
      have "json_str (c # ys @ ?rest) = prepend (encode_rune ?r) (json_str ?rest)"
        using nq False by (simp only: json_str.simps(2) if_False dt dr)
      moreover have "ys @ drop ?n (c # cs) = cs"
        using append_take_drop_id [of ?n "c # cs"] ys by (simp del: take_Cons drop_Cons)
      ultimately have "json_str (take ?n (c # cs) @ ?rest) = Some (c # cs, t)"
        using ys by (simp add: IH enc prepend_def del: take_Cons drop_Cons)
      moreover have "json_escape (c # cs) = take ?n (c # cs) @ json_escape (drop ?n (c # cs))"
        using False nr nls by (simp only: json_escape.simps(2) if_False Let_def)
      ultimately show ?thesis by simp
    qed
  qed
qed

section \<open>Round trip: values\<close>

text \<open>What the encoder writes: integer literals and UTF-8 strings.\<close>

fun json_ok :: "json \<Rightarrow> bool" where
  "json_ok JNull = True"
| "json_ok (JBool b) = True"
| "json_ok (JNum s) = (\<exists>i. s = int_dec i)"
| "json_ok (JStr s) = valid_string s"
| "json_ok (JArr vs) = list_all json_ok vs"
| "json_ok (JObj ms) = list_all (\<lambda>(k, v). valid_string k \<and> json_ok v) ms"

fun json_depth :: "json \<Rightarrow> nat" where
  "json_depth (JArr vs) = Suc (foldr max (map json_depth vs) 0)"
| "json_depth (JObj ms) = Suc (foldr max (map (\<lambda>(k, v). json_depth v) ms) 0)"
| "json_depth _ = 0"

fun json_fuel :: "json \<Rightarrow> nat" where
  "json_fuel (JArr vs) = 2 + sum_list (map (\<lambda>v. Suc (json_fuel v)) vs)"
| "json_fuel (JObj ms) = 2 + sum_list (map (\<lambda>(k, v). Suc (json_fuel v)) ms)"
| "json_fuel _ = 1"

lemma skip_ws_nonws [simp]: "\<not> is_ws c \<Longrightarrow> skip_ws (c # s) = c # s"
  by (simp add: skip_ws_def)

lemma skip_ws_Nil [simp]: "skip_ws [] = []"
  by (simp add: skip_ws_def)

lemma is_ws_consts [simp]:
  "\<not> is_ws CHR ''{''" "\<not> is_ws CHR ''[''" "\<not> is_ws CHR ''}''" "\<not> is_ws CHR '']''"
  "\<not> is_ws CHR '',''" "\<not> is_ws CHR '':''" "\<not> is_ws quote" "\<not> is_ws CHR ''t''"
  "\<not> is_ws CHR ''f''" "\<not> is_ws CHR ''n''" "\<not> is_ws CHR ''-''"
  by (simp_all add: is_ws_def)

lemma is_digit_not_ws: "is_digit c \<Longrightarrow> \<not> is_ws c"
  by (auto simp: is_digit_def is_ws_def)

lemma int_dec_head: "\<exists>c cs. int_dec i = c # cs \<and> (is_digit c \<or> c = CHR ''-'')"
proof (cases "i < 0")
  case True
  then show ?thesis by (simp add: int_dec_def)
next
  case False
  obtain c cs where "nat_dec (nat i) = c # cs" using nat_dec_nonempty by (cases "nat_dec (nat i)") auto
  with False nat_dec_digits [of "nat i"] show ?thesis by (simp add: int_dec_def)
qed

lemma parse_value_num: "delim r \<Longrightarrow> parse_value (Suc f) d (int_dec i @ r) = Some (JNum (int_dec i), r)"
proof -
  assume r: "delim r"
  obtain c cs where e: "int_dec i = c # cs" and h: "is_digit c \<or> c = CHR ''-''"
    using int_dec_head by blast
  then have "\<not> is_ws c" using is_digit_not_ws by auto
  moreover have "c \<noteq> CHR ''{''" "c \<noteq> CHR ''[''" "c \<noteq> quote" "c \<noteq> CHR ''t''" "c \<noteq> CHR ''f''"
    "c \<noteq> CHR ''n''" using h by (auto simp: is_digit_def)
  moreover have "json_num (c # cs @ r) = Some (c # cs, r)" using json_num_int_dec [OF r, of i] e by simp
  ultimately show ?thesis using e by simp
qed

lemma json_print_head: "json_ok v \<Longrightarrow> \<exists>c cs. json_print v = c # cs \<and> \<not> is_ws c \<and> c \<noteq> CHR '']''"
proof (cases v)
  case (JNum s)
  assume "json_ok v"
  with JNum obtain i where "s = int_dec i" by auto
  with JNum int_dec_head [of i] show ?thesis using is_digit_not_ws by (auto simp: is_digit_def)
qed (auto simp: json_quote_def)

lemma comma_sep_Cons: "ss \<noteq> [] \<Longrightarrow> comma_sep (s # ss) = s @ CHR '','' # comma_sep ss"
  by (cases ss) simp_all

lemma parse_elems_print:
  assumes "vs \<noteq> []"
    and "\<And>v f r. v \<in> set vs \<Longrightarrow> delim r \<Longrightarrow> json_fuel v \<le> f \<Longrightarrow>
           parse_value f d (json_print v @ r) = Some (v, r)"
    and "sum_list (map (\<lambda>v. Suc (json_fuel v)) vs) \<le> f"
  shows "parse_elems f d (comma_sep (map json_print vs) @ CHR '']'' # r) = Some (vs, r)"
  using assms
proof (induction vs arbitrary: f)
  case (Cons v vs)
  then obtain f' where f: "f = Suc f'" by (cases f) auto
  show ?case
  proof (cases "vs = []")
    case True
    then show ?thesis using Cons.prems f by simp
  next
    case False
    have v: "parse_value f' d (json_print v @ CHR '','' # s) = Some (v, CHR '','' # s)" for s
      using Cons.prems f by simp
    have "parse_elems f' d (comma_sep (map json_print vs) @ CHR '']'' # r) = Some (vs, r)"
      by (rule Cons.IH) (use False Cons.prems f in auto)
    with v False f show ?thesis by (simp add: comma_sep_Cons)
  qed
qed simp

lemma parse_members_print:
  assumes "ms \<noteq> []"
    and "\<And>k v f r. (k, v) \<in> set ms \<Longrightarrow> delim r \<Longrightarrow> json_fuel v \<le> f \<Longrightarrow>
           parse_value f d (json_print v @ r) = Some (v, r)"
    and "list_all (\<lambda>(k, v). valid_string k) ms"
    and "sum_list (map (\<lambda>(k, v). Suc (json_fuel v)) ms) \<le> f"
  shows "parse_members f d
    (comma_sep (map (\<lambda>(k, v). json_quote k @ CHR '':'' # json_print v) ms) @ CHR ''}'' # r)
    = Some (ms, r)"
  using assms
proof (induction ms arbitrary: f)
  case (Cons m ms)
  obtain k v where m: "m = (k, v)" by (cases m)
  with Cons.prems obtain f' where f: "f = Suc f'" by (cases f) auto
  have k: "json_str (json_escape k @ quote # t) = Some (k, t)" for t
    using Cons.prems m by (simp add: json_str_escape)
  show ?case
  proof (cases "ms = []")
    case True
    then show ?thesis using Cons.prems f m k by (simp add: json_quote_def)
  next
    case False
    have v: "parse_value f' d (json_print v @ CHR '','' # s) = Some (v, CHR '','' # s)" for s
      by (rule Cons.prems(2)) (use Cons.prems(4) f m in auto)
    have "parse_members f' d
      (comma_sep (map (\<lambda>(k, v). json_quote k @ CHR '':'' # json_print v) ms) @ CHR ''}'' # r)
      = Some (ms, r)"
      by (rule Cons.IH) (use False Cons.prems f m in auto)
    with v k False f m show ?thesis by (simp add: comma_sep_Cons json_quote_def)
  qed
qed simp

lemma foldr_max_le: "x \<in> set xs \<Longrightarrow> x \<le> foldr max xs (0::nat)"
  by (induction xs) auto

lemma parse_value_print:
  "json_ok v \<Longrightarrow> delim r \<Longrightarrow> json_fuel v \<le> f \<Longrightarrow> d + json_depth v \<le> max_depth \<Longrightarrow>
    parse_value f d (json_print v @ r) = Some (v, r)"
proof (induction v arbitrary: f d r)
  case (JArr vs)
  then obtain f' where f: "f = Suc f'" by (cases f) auto
  show ?case
  proof (cases "vs = []")
    case True
    then show ?thesis using JArr.prems f by simp
  next
    case False
    have el: "parse_elems f' (Suc d) (comma_sep (map json_print vs) @ CHR '']'' # r) = Some (vs, r)"
    proof (rule parse_elems_print)
      fix v g s
      assume v: "v \<in> set vs" and s: "delim s" and g: "json_fuel v \<le> g"
      have "json_depth v \<le> foldr max (map json_depth vs) 0" using v by (intro foldr_max_le) simp
      with JArr.prems v have "Suc d + json_depth v \<le> max_depth" by simp
      with JArr v s g show "parse_value g (Suc d) (json_print v @ s) = Some (v, s)"
        by (simp add: list_all_iff)
    qed (use False JArr.prems f in auto)
    obtain v vs' where vs: "vs = v # vs'" using False by (cases vs) auto
    have "json_ok v" using JArr.prems vs by simp
    from json_print_head [OF this] obtain c cs where c: "json_print v = c # cs" "\<not> is_ws c" "c \<noteq> CHR '']''"
      by blast
    have "\<exists>cs'. comma_sep (map json_print vs) @ CHR '']'' # r = c # cs'"
      using vs c by (cases vs') auto
    with el f JArr.prems c show ?thesis by auto
  qed
next
  case (JObj ms)
  then obtain f' where f: "f = Suc f'" by (cases f) auto
  show ?case
  proof (cases "ms = []")
    case True
    then show ?thesis using JObj.prems f by simp
  next
    case False
    let ?p = "comma_sep (map (\<lambda>(k, v). json_quote k @ CHR '':'' # json_print v) ms) @ CHR ''}'' # r"
    have el: "parse_members f' (Suc d) ?p = Some (ms, r)"
    proof (rule parse_members_print)
      fix k v g s
      assume v: "(k, v) \<in> set ms" and s: "delim s" and g: "json_fuel v \<le> g"
      have "json_depth v \<le> foldr max (map (\<lambda>(k, v). json_depth v) ms) 0"
        using v by (intro foldr_max_le) force
      with JObj.prems v have "Suc d + json_depth v \<le> max_depth" by simp
      moreover have "json_ok v" using JObj.prems v by (auto simp: list_all_iff)
      moreover have "v \<in> Basic_BNFs.snds (k, v)" by simp
      ultimately show "parse_value g (Suc d) (json_print v @ s) = Some (v, s)"
        using JObj.IH v s g by blast
    qed (use False JObj.prems f in \<open>auto simp: list_all_iff\<close>)
    obtain m ms' where ms: "ms = m # ms'" using False by (cases ms) auto
    have "\<exists>cs'. ?p = quote # cs'"
      using ms by (cases ms'; cases m) (auto simp: json_quote_def)
    with el f JObj.prems show ?thesis by auto
  qed
next
  case (JNum s)
  then obtain i f' where "s = int_dec i" "f = Suc f'" by (cases f) auto
  with JNum show ?case using parse_value_num by simp
next
  case (JStr s)
  then obtain f' where "f = Suc f'" by (cases f) auto
  with JStr show ?case by (simp add: json_quote_def json_str_escape)
next
  case JNull
  then obtain f' where "f = Suc f'" by (cases f) auto
  then show ?case by simp
next
  case (JBool b)
  then obtain f' where "f = Suc f'" by (cases f) auto
  then show ?case by simp
qed

lemma length_json_quote: "2 \<le> length (json_quote s)"
  by (simp add: json_quote_def)

lemma length_comma_sep:
  "ss \<noteq> [] \<Longrightarrow> Suc (length (comma_sep ss)) = sum_list (map (\<lambda>s. Suc (length s)) ss)"
  by (induction ss rule: comma_sep.induct) simp_all

lemma json_fuel_length: "json_ok v \<Longrightarrow> json_fuel v \<le> 2 * length (json_print v)"
proof (induction v)
  case (JNum s)
  then obtain i where s: "s = int_dec i" by auto
  obtain c cs where "int_dec i = c # cs" using int_dec_head by blast
  with s show ?case by simp
next
  case (JArr vs)
  show ?case
  proof (cases "vs = []")
    case False
    have "sum_list (map (\<lambda>v. Suc (json_fuel v)) vs)
        \<le> sum_list (map (\<lambda>v. 2 * Suc (length (json_print v))) vs)"
      using JArr by (intro sum_list_mono) (force simp: list_all_iff)
    also have "\<dots> = 2 * sum_list (map (\<lambda>s. Suc (length s)) (map json_print vs))"
      by (simp only: sum_list_const_mult map_map comp_def)
    finally show ?thesis using False length_comma_sep [of "map json_print vs"] by simp
  qed simp
next
  case (JObj ms)
  let ?p = "\<lambda>(k, v). json_quote k @ CHR '':'' # json_print v"
  show ?case
  proof (cases "ms = []")
    case False
    have "(case m of (k, v) \<Rightarrow> Suc (json_fuel v)) \<le> 2 * Suc (length (?p m))" if "m \<in> set ms" for m
    proof -
      obtain k v where m: "m = (k, v)" by (cases m)
      have "json_fuel v \<le> 2 * length (json_print v)"
        using JObj that m by (force simp: list_all_iff)
      with m show ?thesis by simp
    qed
    then have "sum_list (map (\<lambda>(k, v). Suc (json_fuel v)) ms)
        \<le> sum_list (map (\<lambda>m. 2 * Suc (length (?p m))) ms)"
      by (intro sum_list_mono)
    also have "\<dots> = 2 * sum_list (map (\<lambda>s. Suc (length s)) (map ?p ms))"
      by (simp only: sum_list_const_mult map_map comp_def)
    finally show ?thesis using False length_comma_sep [of "map ?p ms"] by simp
  qed simp
qed (simp_all add: json_quote_def)

theorem json_parse_print:
  assumes "json_ok v" and "json_depth v \<le> max_depth"
  shows "json_parse (json_print v) = Some v"
proof -
  have "parse_value (2 * length (json_print v) + 2) 0 (json_print v @ []) = Some (v, [])"
    using assms json_fuel_length [OF assms(1)] by (intro parse_value_print) simp_all
  then show ?thesis by (simp add: json_parse_def)
qed

section \<open>Enough fuel\<close>

lemma prepend_Some: "prepend p x = Some (t, r) \<longleftrightarrow> (\<exists>t'. x = Some (t', r) \<and> t = p @ t')"
  by (auto simp: prepend_def)

lemma json_str_length: "json_str s = Some (t, r) \<Longrightarrow> length r < length s"
proof (induction "length s" arbitrary: s t rule: less_induct)
  case less
  obtain c cs where s: "s = c # cs" using less.prems by (cases s) auto
  have w: "0 < snd (decode_rune (c # cs))" by (rule decode_rune_width) simp
  define n where "n = length s"
  have d: "length r < n" if "json_str u = Some (t', r)" and "length u < n" for u t'
    using less.hyps [of u t'] that by (simp add: n_def)
  have "length r < n"
    using less.prems w n_def
    unfolding s json_str.simps(2)
    by (auto simp: prepend_Some simp del: drop_Cons
        split: if_splits option.splits list.splits) (drule d; simp)+
  then show ?case by (simp add: n_def)
qed

lemma skip_ws_length: "length (skip_ws s) \<le> length s"
  by (simp add: skip_ws_def length_dropWhile_le)

lemma json_digits_length: "json_digits s = Some (t, r) \<Longrightarrow> length r < length s"
proof -
  assume "json_digits s = Some (t, r)"
  then have t: "takeWhile is_digit s \<noteq> []" and r: "r = dropWhile is_digit s"
    by (auto simp: json_digits_def Let_def split: if_splits)
  have "length s = length (takeWhile is_digit s) + length (dropWhile is_digit s)"
    by (metis length_append takeWhile_dropWhile_id)
  with t r show ?thesis by simp
qed

lemma json_frac_length: "json_frac s = Some (t, r) \<Longrightarrow> length r \<le> length s"
  by (cases s) (auto simp: json_frac_def prepend_Some dest: json_digits_length
      split: list.splits if_splits char.splits bool.splits)

lemma json_exp_length: "json_exp s = Some (t, r) \<Longrightarrow> length r \<le> length s"
  by (cases s) (auto simp: json_exp_def prepend_Some dest!: json_digits_length
      split: list.splits if_splits)

lemma json_int_part_length: "json_int_part s = Some (t, r) \<Longrightarrow> length r < length s"
  by (cases s) (auto simp: json_int_part_def dest: json_digits_length
      split: list.splits if_splits char.splits bool.splits)

lemma json_num_length: "json_num s = Some (t, r) \<Longrightarrow> length r < length s"
proof -
  assume "json_num s = Some (t, r)"
  then obtain ds s1 fs s2 es where
    1: "json_int_part (if s \<noteq> [] \<and> hd s = CHR ''-'' then tl s else s) = Some (ds, s1)"
    and 2: "json_frac s1 = Some (fs, s2)" and 3: "json_exp s2 = Some (es, r)"
    by (auto simp: json_num_def Let_def split: option.splits prod.splits)
  have "length (if s \<noteq> [] \<and> hd s = CHR ''-'' then tl s else s) \<le> length s" by simp
  with json_int_part_length [OF 1] json_frac_length [OF 2] json_exp_length [OF 3]
  show ?thesis by linarith
qed

lemma skip_ws_Cons: "skip_ws s = c # cs \<Longrightarrow> length cs < length s"
  using skip_ws_length [of s] by simp

lemma parse_length:
  "parse_value f d s = Some (v, r) \<Longrightarrow> length r < length s"
  "parse_elems f d s = Some (vs, r) \<Longrightarrow> length r < length s"
  "parse_members f d s = Some (ms, r) \<Longrightarrow> length r < length s"
proof (induction f d s and f d s and f d s arbitrary: v r and vs r and ms r
    rule: parse_value_parse_elems_parse_members.induct)
  case (2 f d s)
  then obtain c cs where s: "skip_ws s = c # cs" by (auto split: list.splits)
  have l: "length cs < length s" using s by (rule skip_ws_Cons)
  have m: "length r < length cs" if "parse_members f (Suc d) cs = Some (x, r)" "c = CHR ''{''"
    "\<not> max_depth \<le> d" "take 1 (skip_ws cs) \<noteq> ''}''" for x
    using "2.IH"(1) [OF s] that by blast
  have e: "length r < length cs" if "parse_elems f (Suc d) cs = Some (x, r)" "c = CHR ''[''"
    "\<not> max_depth \<le> d" "take 1 (skip_ws cs) \<noteq> '']''" for x
    using "2.IH"(2) [OF s] that by auto
  from "2.prems" show ?case
    using l s skip_ws_length [of cs] skip_ws_length [of s]
    by (auto dest!: json_str_length json_num_length m e split: if_splits)
next
  case (4 f d s)
  then obtain v' r1 where v: "parse_value f d s = Some (v', r1)" by (auto split: option.splits)
  have l1: "length r1 < length s" using "4.IH"(1) [OF v] .
  from "4.prems" v obtain c r2 where r1: "skip_ws r1 = c # r2" by (auto split: list.splits)
  have l2: "length r2 < length r1" using r1 by (rule skip_ws_Cons)
  have e: "length r < length r2" if "parse_elems f d r2 = Some (x, r)" "c = CHR '',''" for x
    using "4.IH"(2) v r1 that by blast
  from "4.prems" v r1 l1 l2 show ?case by (auto dest: e split: if_splits)
next
  case (6 f d s)
  then obtain cs where s: "skip_ws s = quote # cs" by (auto split: list.splits if_splits)
  have l0: "length cs < length s" using s by (rule skip_ws_Cons)
  from "6.prems" s obtain k r1 where k: "json_str cs = Some (k, r1)" by (auto split: option.splits)
  have l1: "length r1 < length cs" using k by (rule json_str_length)
  from "6.prems" s k obtain r2 where r1: "skip_ws r1 = CHR '':'' # r2"
    by (auto split: list.splits if_splits)
  have l2: "length r2 < length r1" using r1 by (rule skip_ws_Cons)
  from "6.prems" s k r1 obtain v' r3 where v: "parse_value f d r2 = Some (v', r3)"
    by (auto split: option.splits)
  have l3: "length r3 < length r2" using "6.IH"(1) s k r1 v by blast
  from "6.prems" s k r1 v obtain c r4 where r3: "skip_ws r3 = c # r4" by (auto split: list.splits)
  have l4: "length r4 < length r3" using r3 by (rule skip_ws_Cons)
  have m: "length r < length r4" if "parse_members f d r4 = Some (x, r)" "c = CHR '',''" for x
    using "6.IH"(2) s k r1 v r3 that by blast
  from "6.prems" s k r1 v r3 l0 l1 l2 l3 l4 show ?case by (auto dest: m split: if_splits)
qed simp_all

lemma parse_fuel_Suc:
  "2 * length s + 1 \<le> f \<Longrightarrow> parse_value (Suc f) d s = parse_value f d s"
  "2 * length s + 2 \<le> f \<Longrightarrow> parse_elems (Suc f) d s = parse_elems f d s"
  "2 * length s + 1 \<le> f \<Longrightarrow> parse_members (Suc f) d s = parse_members f d s"
proof (induction f arbitrary: d s)
  case (Suc f)
  {
    case 1
    show ?case
    proof (cases "skip_ws s")
      case (Cons c cs)
      have "length cs < length s" using Cons by (rule skip_ws_Cons)
      then have "parse_members (Suc f) (Suc d) cs = parse_members f (Suc d) cs"
        and "parse_elems (Suc f) (Suc d) cs = parse_elems f (Suc d) cs"
        using Suc.IH 1 by simp_all
      then show ?thesis using Cons by (simp only: parse_value.simps list.case)
    qed simp
  next
    case 2
    have v: "parse_value (Suc f) d s = parse_value f d s" using Suc.IH 2 by simp
    show ?case
    proof (cases "parse_value f d s")
      case (Some vr)
      obtain v' r where vr: "vr = (v', r)" by (cases vr)
      show ?thesis
      proof (cases "skip_ws r")
        case (Cons c r')
        have "length r' < length r" using Cons by (rule skip_ws_Cons)
        moreover have "length r < length s" using Some vr parse_length(1) by blast
        ultimately have "parse_elems (Suc f) d r' = parse_elems f d r'" using Suc.IH 2 by simp
        with v Some vr Cons show ?thesis by (simp only: parse_elems.simps option.case prod.case list.case)
      qed (simp only: parse_elems.simps v Some vr option.case prod.case list.case)
    qed (simp only: parse_elems.simps v option.case)
  next
    case 3
    have step: "parse_value (Suc f) d t = parse_value f d t"
      and stepm: "parse_members (Suc f) d t = parse_members f d t" if "length t < length s" for t
      using Suc.IH 3 that by simp_all
    have e1: "parse_value (Suc f) d r' = parse_value f d r'"
      if "skip_ws s = q # cs" "json_str cs = Some (k, r)" "skip_ws r = c # r'" for q cs k r c r'
      using skip_ws_Cons [OF that(1)] json_str_length [OF that(2)] skip_ws_Cons [OF that(3)]
      by (intro step) simp
    have e2: "parse_members (Suc f) d r3 = parse_members f d r3"
      if "skip_ws s = q # cs" "json_str cs = Some (k, r)" "skip_ws r = c # r'"
        "parse_value f d r' = Some (v, r2)" "skip_ws r2 = c2 # r3" for q cs k r c r' v r2 c2 r3
      using skip_ws_Cons [OF that(1)] json_str_length [OF that(2)] skip_ws_Cons [OF that(3)]
        parse_length(1) [OF that(4)] skip_ws_Cons [OF that(5)]
      by (intro stepm) simp
    show ?case
      by (subst (1 2) parse_members.simps)
        (auto simp: e1 e2 split: list.split option.split simp del: parse_members.simps parse_value.simps)
  }
qed simp_all

section \<open>Sizes\<close>

lemma escape_ascii_length: "length (escape_ascii c) \<le> 6"
  by (simp add: escape_ascii_def)

lemma json_escape_length: "length (json_escape s) \<le> 6 * length s"
proof (induction s rule: json_escape.induct)
  case (2 c cs)
  show ?case
  proof (cases "code c < 128")
    case True
    with 2(1) escape_ascii_length [of c] show ?thesis by (simp add: json_escape.simps(2))
  next
    case False
    let ?n = "snd (decode_rune (c # cs))"
    have n: "1 \<le> ?n" using decode_rune_width [of "c # cs"] by simp
    have "length (json_escape (drop ?n (c # cs))) \<le> 6 * length (drop ?n (c # cs))"
      using 2(2) [OF False refl refl] .
    with n False show ?thesis by (auto simp: json_escape.simps(2) Let_def min_def)
  qed
qed simp

lemma json_quote_length: "length (json_quote s) \<le> 6 * length s + 2"
  using json_escape_length [of s] by (simp add: json_quote_def)

section \<open>Fuel\<close>

theorem json_parse_fuel:
  assumes "2 * length s + 2 \<le> f"
  shows "parse_value f d s = parse_value (2 * length s + 2) d s"
  using assms by (induction f rule: dec_induct) (simp_all add: parse_fuel_Suc del: parse_value.simps)

end
