(* ===== verification/Messages.thy ===== *)
theory Messages
  imports Manifest GoJson
begin

text \<open>
  The JSON codec of the transfer control messages (\<^verbatim>\<open>transfer_messages.go\<close>), with
  \<^verbatim>\<open>isLowerHex\<close> and the canonical manifest fingerprint of \<^verbatim>\<open>journal.go\<close>.  Messages carry their
  frame tag, as the Go structs do; the constructors \<^verbatim>\<open>New*\<close> set it.
\<close>

section \<open>Messages\<close>

record BlockHash =
  bh_Type :: byte
  bh_FileIdx :: int
  bh_BlockIdx :: int
  bh_SHA256 :: string

record BlockRecv =
  br_Type :: byte
  br_FileIdx :: int
  br_BlockIdx :: int

record Ack =
  ack_Type :: byte
  ack_FileIdx :: int
  ack_BlockIdx :: int

datatype NackReason = NackMissing | NackTimeout

fun NackReason_string :: "NackReason \<Rightarrow> string" where
  "NackReason_string NackMissing = ''missing''"
| "NackReason_string NackTimeout = ''timeout''"

record Nack =
  nack_Type :: byte
  nack_FileIdx :: int
  nack_BlockIdx :: int
  nack_Reason :: NackReason

datatype ControlOp = ControlPause | ControlResume | ControlCancel

fun ControlOp_string :: "ControlOp \<Rightarrow> string" where
  "ControlOp_string ControlPause = ''pause''"
| "ControlOp_string ControlResume = ''resume''"
| "ControlOp_string ControlCancel = ''cancel''"

record Control =
  ctl_Type :: byte
  ctl_Op :: ControlOp

record Complete =
  cpl_Type :: byte
  cpl_FileDigest :: string

record Done =
  done_Type :: byte

record Fail =
  fail_Type :: byte
  fail_Reason :: FailReason

record ResumeFileState =
  rf_Idx :: int
  rf_HaveBlocks :: int

text \<open>An empty fingerprint is omitted on the wire.\<close>

record ResumeState =
  rs_Type :: byte
  rs_TransferID :: string
  rs_ManifestFingerprint :: string
  rs_Files :: "ResumeFileState list"

datatype ControlMsg =
    MManifest Manifest
  | MBlockHash BlockHash
  | MBlockRecv BlockRecv
  | MAck Ack
  | MNack Nack
  | MControl Control
  | MComplete Complete
  | MDone Done
  | MFail Fail
  | MResumeState ResumeState

fun FrameType :: "ControlMsg \<Rightarrow> byte" where
  "FrameType (MManifest m) = mf_Type m"
| "FrameType (MBlockHash m) = bh_Type m"
| "FrameType (MBlockRecv m) = br_Type m"
| "FrameType (MAck m) = ack_Type m"
| "FrameType (MNack m) = nack_Type m"
| "FrameType (MControl m) = ctl_Type m"
| "FrameType (MComplete m) = cpl_Type m"
| "FrameType (MDone m) = done_Type m"
| "FrameType (MFail m) = fail_Type m"
| "FrameType (MResumeState m) = rs_Type m"

definition NewBlockHash :: "int \<Rightarrow> int \<Rightarrow> string \<Rightarrow> ControlMsg" where
  "NewBlockHash fileIdx blockIdx sha = MBlockHash \<lparr>bh_Type = FrameBlockHash, bh_FileIdx = fileIdx,
     bh_BlockIdx = blockIdx, bh_SHA256 = sha\<rparr>"

definition NewBlockRecv :: "int \<Rightarrow> int \<Rightarrow> ControlMsg" where
  "NewBlockRecv fileIdx blockIdx = MBlockRecv \<lparr>br_Type = FrameBlockRecv, br_FileIdx = fileIdx,
     br_BlockIdx = blockIdx\<rparr>"

definition NewAck :: "int \<Rightarrow> int \<Rightarrow> ControlMsg" where
  "NewAck fileIdx blockIdx = MAck \<lparr>ack_Type = FrameAck, ack_FileIdx = fileIdx,
     ack_BlockIdx = blockIdx\<rparr>"

definition NewNack :: "int \<Rightarrow> int \<Rightarrow> NackReason \<Rightarrow> ControlMsg" where
  "NewNack fileIdx blockIdx reason = MNack \<lparr>nack_Type = FrameNack, nack_FileIdx = fileIdx,
     nack_BlockIdx = blockIdx, nack_Reason = reason\<rparr>"

definition NewControl :: "ControlOp \<Rightarrow> ControlMsg" where
  "NewControl op = MControl \<lparr>ctl_Type = FrameControl, ctl_Op = op\<rparr>"

definition NewComplete :: "string \<Rightarrow> Complete" where
  "NewComplete fileDigest = \<lparr>cpl_Type = FrameComplete, cpl_FileDigest = fileDigest\<rparr>"

definition NewDone :: ControlMsg where
  "NewDone = MDone \<lparr>done_Type = FrameDone\<rparr>"

definition NewFail :: "FailReason \<Rightarrow> ControlMsg" where
  "NewFail reason = MFail \<lparr>fail_Type = FrameFail, fail_Reason = reason\<rparr>"

definition NewResumeState :: "string \<Rightarrow> ResumeFileState list \<Rightarrow> ResumeState" where
  "NewResumeState transferID files = \<lparr>rs_Type = FrameResumeState, rs_TransferID = transferID,
     rs_ManifestFingerprint = '''', rs_Files = files\<rparr>"

section \<open>Encoding\<close>

definition jbyte :: "byte \<Rightarrow> json" where
  "jbyte b = jint (uint b)"

definition file_json :: "FileEntry \<Rightarrow> json" where
  "file_json f = JObj [(''idx'', jint (fe_Idx f)), (''name'', JStr (fe_Name f)),
     (''size'', jint (fe_Size f)), (''mime'', JStr (fe_Mime f)),
     (''lastModified'', jint (fe_LastModified f)), (''blockSize'', jint (fe_BlockSize f)),
     (''blocks'', jint (fe_Blocks f)), (''fileDigest'', JStr (fe_FileDigest f))]"

definition resume_file_json :: "ResumeFileState \<Rightarrow> json" where
  "resume_file_json f = JObj [(''idx'', jint (rf_Idx f)), (''haveBlocks'', jint (rf_HaveBlocks f))]"

text \<open>\<^verbatim>\<open>json:",omitempty"\<close> on a string field.\<close>

definition omitempty :: "string \<Rightarrow> string \<Rightarrow> (string \<times> json) list" where
  "omitempty name s = (if s = '''' then [] else [(name, JStr s)])"

fun control_json :: "ControlMsg \<Rightarrow> json" where
  "control_json (MManifest m) = JObj ((''type'', jbyte (mf_Type m))
     # omitempty ''transferId'' (mf_TransferID m)
     @ [(''files'', JArr (map file_json (mf_Files m))), (''totalSize'', jint (mf_TotalSize m))])"
| "control_json (MBlockHash m) = JObj [(''type'', jbyte (bh_Type m)),
     (''fileIdx'', jint (bh_FileIdx m)), (''blockIdx'', jint (bh_BlockIdx m)),
     (''sha256'', JStr (bh_SHA256 m))]"
| "control_json (MBlockRecv m) = JObj [(''type'', jbyte (br_Type m)),
     (''fileIdx'', jint (br_FileIdx m)), (''blockIdx'', jint (br_BlockIdx m))]"
| "control_json (MAck m) = JObj [(''type'', jbyte (ack_Type m)),
     (''fileIdx'', jint (ack_FileIdx m)), (''blockIdx'', jint (ack_BlockIdx m))]"
| "control_json (MNack m) = JObj [(''type'', jbyte (nack_Type m)),
     (''fileIdx'', jint (nack_FileIdx m)), (''blockIdx'', jint (nack_BlockIdx m)),
     (''reason'', JStr (NackReason_string (nack_Reason m)))]"
| "control_json (MControl m) = JObj [(''type'', jbyte (ctl_Type m)),
     (''op'', JStr (ControlOp_string (ctl_Op m)))]"
| "control_json (MComplete m) = JObj [(''type'', jbyte (cpl_Type m)),
     (''fileDigest'', JStr (cpl_FileDigest m))]"
| "control_json (MDone m) = JObj [(''type'', jbyte (done_Type m))]"
| "control_json (MFail m) = JObj [(''type'', jbyte (fail_Type m)),
     (''reason'', JStr (FailReason_string (fail_Reason m)))]"
| "control_json (MResumeState m) = JObj ((''type'', jbyte (rs_Type m))
     # (''transferId'', JStr (rs_TransferID m))
     # omitempty ''manifestFingerprint'' (rs_ManifestFingerprint m)
     @ [(''files'', JArr (map resume_file_json (rs_Files m)))])"

text \<open>The encoder cannot fail on these types.\<close>

definition EncodeControl :: "ControlMsg \<Rightarrow> (err, bytes) result" where
  "EncodeControl msg = Inr (bytes_of_string (json_print (control_json msg)))"

text \<open>A control message on the wire: the header both engines give it, and the sealed frame.\<close>

definition control_header :: "byte \<Rightarrow> FrameHeaderInput" where
  "control_header t = \<lparr>hi_Version = FrameVersion, hi_Type = t, hi_Flags = 0, hi_FileIdx = 0,
     hi_BlockIdx = 0, hi_FrameOff = 0\<rparr>"

definition sealed_control :: "DirectionalKey \<Rightarrow> 64 word \<Rightarrow> ControlMsg \<Rightarrow> (err, bytes) result" where
  "sealed_control dir counter msg = (case EncodeControl msg of Inl e \<Rightarrow> Inl e
     | Inr payload \<Rightarrow> Seal dir counter (control_header (FrameType msg)) payload)"

section \<open>Decoding\<close>

definition isLowerHex :: "string \<Rightarrow> nat \<Rightarrow> bool" where
  "isLowerHex s n \<longleftrightarrow> length s = n \<and> list_all (\<lambda>c. (48 \<le> code c \<and> code c \<le> 57)
     \<or> (97 \<le> code c \<and> code c \<le> 102)) s"

text \<open>\<^verbatim>\<open>json.Unmarshal\<close> into a struct: the members, or failure.\<close>

definition unmarshal :: "bytes \<Rightarrow> (string \<times> json) list option" where
  "unmarshal payload = (case json_parse (string_of_bytes payload) of None \<Rightarrow> None
     | Some v \<Rightarrow> as_members v)"

record rawFileEntry =
  raw_Idx :: "int option"
  raw_Name :: "string option"
  raw_Size :: "int option"
  raw_Mime :: "string option"
  raw_LastModified :: "int option"
  raw_BlockSize :: "int option"
  raw_Blocks :: "int option"
  raw_FileDigest :: "string option"

definition raw_file :: "json \<Rightarrow> rawFileEntry option" where
  "raw_file v = (case as_members v of None \<Rightarrow> None
     | Some ms \<Rightarrow>
       (case (ptr_field as_int ''idx'' ms, ptr_field as_string ''name'' ms,
              ptr_field as_int ''size'' ms, ptr_field as_string ''mime'' ms,
              ptr_field as_int ''lastModified'' ms, ptr_field as_int ''blockSize'' ms,
              ptr_field as_int ''blocks'' ms, ptr_field as_string ''fileDigest'' ms) of
          (Some a, Some b, Some c, Some d, Some e, Some f, Some g, Some h) \<Rightarrow>
            Some \<lparr>raw_Idx = a, raw_Name = b, raw_Size = c, raw_Mime = d, raw_LastModified = e,
              raw_BlockSize = f, raw_Blocks = g, raw_FileDigest = h\<rparr>
        | _ \<Rightarrow> None))"

definition build :: "rawFileEntry \<Rightarrow> (err, FileEntry) result" where
  "build r = (case (raw_Idx r, raw_Name r, raw_Size r, raw_Mime r, raw_LastModified r,
       raw_BlockSize r, raw_Blocks r, raw_FileDigest r) of
     (Some a, Some b, Some c, Some d, Some e, Some f, Some g, Some h) \<Rightarrow>
       Inr \<lparr>fe_Idx = a, fe_Name = b, fe_Size = c, fe_Mime = d, fe_LastModified = e,
         fe_BlockSize = f, fe_Blocks = g, fe_FileDigest = h\<rparr>
   | _ \<Rightarrow> Inl (Plain ''control frame: incomplete file entry''))"

fun build_all :: "rawFileEntry list \<Rightarrow> (err, FileEntry list) result" where
  "build_all [] = Inr []"
| "build_all (r # rs) = (case build r of Inl e \<Rightarrow> Inl e
     | Inr f \<Rightarrow> (case build_all rs of Inl e \<Rightarrow> Inl e | Inr fs \<Rightarrow> Inr (f # fs)))"

text \<open>A slice field: null and absence are the empty slice.\<close>

definition slice_field ::
  "(json \<Rightarrow> 'a option) \<Rightarrow> string \<Rightarrow> (string \<times> json) list \<Rightarrow> 'a list option" where
  "slice_field dec n ms = map_option (\<lambda>v. case v of None \<Rightarrow> [] | Some xs \<Rightarrow> xs)
     (ptr_field (as_slice dec) n ms)"

definition decodeManifest :: "bytes \<Rightarrow> (err, ControlMsg) result" where
  "decodeManifest payload =
     (case unmarshal payload of None \<Rightarrow> Inl (Plain ''control frame: invalid manifest'')
      | Some ms \<Rightarrow>
        (case (val_field as_string '''' ''transferId'' ms, slice_field raw_file ''files'' ms,
               ptr_field as_int ''totalSize'' ms) of
           (Some transferID, Some rawFiles, Some totalSize) \<Rightarrow>
             if rawFiles = [] then Inl (Plain ''control frame: manifest.files empty'')
             else if MaxTransferFiles < length rawFiles
             then Inl (Plain ''control frame: manifest has too many files'')
             else (case totalSize of
                 None \<Rightarrow> Inl (Plain ''control frame: manifest.totalSize missing'')
               | Some sz \<Rightarrow>
                 (case build_all rawFiles of Inl e \<Rightarrow> Inl e
                  | Inr files \<Rightarrow> Inr (MManifest \<lparr>mf_Type = FrameManifest,
                      mf_TransferID = transferID, mf_Files = files, mf_TotalSize = sz\<rparr>)))
         | _ \<Rightarrow> Inl (Plain ''control frame: invalid manifest'')))"

definition decodeBlockHash :: "bytes \<Rightarrow> (err, ControlMsg) result" where
  "decodeBlockHash payload =
     (case unmarshal payload of None \<Rightarrow> Inl (Plain ''control frame: invalid block_hash'')
      | Some ms \<Rightarrow>
        (case (ptr_field as_int ''fileIdx'' ms, ptr_field as_int ''blockIdx'' ms,
               ptr_field as_string ''sha256'' ms) of
           (Some f, Some b, Some h) \<Rightarrow>
             (case (f, b, h) of (Some fi, Some bi, Some sha) \<Rightarrow> Inr (NewBlockHash fi bi sha)
              | _ \<Rightarrow> Inl (Plain ''control frame: incomplete block_hash''))
         | _ \<Rightarrow> Inl (Plain ''control frame: invalid block_hash'')))"

definition decodeBlockRecv :: "bytes \<Rightarrow> (err, ControlMsg) result" where
  "decodeBlockRecv payload =
     (case unmarshal payload of None \<Rightarrow> Inl (Plain ''control frame: invalid block_recv'')
      | Some ms \<Rightarrow>
        (case (ptr_field as_int ''fileIdx'' ms, ptr_field as_int ''blockIdx'' ms) of
           (Some f, Some b) \<Rightarrow>
             (case (f, b) of (Some fi, Some bi) \<Rightarrow> Inr (NewBlockRecv fi bi)
              | _ \<Rightarrow> Inl (Plain ''control frame: incomplete block_recv''))
         | _ \<Rightarrow> Inl (Plain ''control frame: invalid block_recv'')))"

definition decodeAck :: "bytes \<Rightarrow> (err, ControlMsg) result" where
  "decodeAck payload =
     (case unmarshal payload of None \<Rightarrow> Inl (Plain ''control frame: invalid ack'')
      | Some ms \<Rightarrow>
        (case (ptr_field as_int ''fileIdx'' ms, ptr_field as_int ''blockIdx'' ms) of
           (Some f, Some b) \<Rightarrow>
             (case (f, b) of (Some fi, Some bi) \<Rightarrow> Inr (NewAck fi bi)
              | _ \<Rightarrow> Inl (Plain ''control frame: incomplete ack''))
         | _ \<Rightarrow> Inl (Plain ''control frame: invalid ack'')))"

definition nack_reason :: "string \<Rightarrow> NackReason option" where
  "nack_reason s = (if s = ''missing'' then Some NackMissing
     else if s = ''timeout'' then Some NackTimeout else None)"

definition decodeNack :: "bytes \<Rightarrow> (err, ControlMsg) result" where
  "decodeNack payload =
     (case unmarshal payload of None \<Rightarrow> Inl (Plain ''control frame: invalid nack'')
      | Some ms \<Rightarrow>
        (case (ptr_field as_int ''fileIdx'' ms, ptr_field as_int ''blockIdx'' ms,
               ptr_field as_string ''reason'' ms) of
           (Some f, Some b, Some r) \<Rightarrow>
             (case (f, b, r) of (Some fi, Some bi, Some rs) \<Rightarrow>
                (case nack_reason rs of None \<Rightarrow> Inl (Plain ''control frame: bad nack reason'')
                 | Some reason \<Rightarrow> Inr (NewNack fi bi reason))
              | _ \<Rightarrow> Inl (Plain ''control frame: incomplete nack''))
         | _ \<Rightarrow> Inl (Plain ''control frame: invalid nack'')))"

definition control_op :: "string \<Rightarrow> ControlOp option" where
  "control_op s = (if s = ''pause'' then Some ControlPause
     else if s = ''resume'' then Some ControlResume
     else if s = ''cancel'' then Some ControlCancel else None)"

definition decodeControlMessage :: "bytes \<Rightarrow> (err, ControlMsg) result" where
  "decodeControlMessage payload =
     (case unmarshal payload of None \<Rightarrow> Inl (Plain ''control frame: invalid control'')
      | Some ms \<Rightarrow>
        (case ptr_field as_string ''op'' ms of
           None \<Rightarrow> Inl (Plain ''control frame: invalid control'')
         | Some None \<Rightarrow> Inl (Plain ''control frame: control.op missing'')
         | Some (Some s) \<Rightarrow>
           (case control_op s of None \<Rightarrow> Inl (Plain ''control frame: bad control op'')
            | Some op \<Rightarrow> Inr (NewControl op))))"

definition decodeComplete :: "bytes \<Rightarrow> (err, ControlMsg) result" where
  "decodeComplete payload =
     (case unmarshal payload of None \<Rightarrow> Inl (Plain ''control frame: invalid complete'')
      | Some ms \<Rightarrow>
        (case ptr_field as_string ''fileDigest'' ms of
           None \<Rightarrow> Inl (Plain ''control frame: invalid complete'')
         | Some None \<Rightarrow> Inl (Plain ''control frame: complete.fileDigest missing'')
         | Some (Some s) \<Rightarrow> Inr (MComplete (NewComplete s))))"

definition fail_reason :: "string \<Rightarrow> FailReason option" where
  "fail_reason s = (if s = ''digest_mismatch'' then Some FailDigestMismatch
     else if s = ''integrity'' then Some FailIntegrity
     else if s = ''sink_error'' then Some FailSinkError
     else if s = ''canceled'' then Some FailCanceled
     else if s = ''quota'' then Some FailQuota
     else if s = ''retry_exhausted'' then Some FailRetryExhausted else None)"

definition decodeFail :: "bytes \<Rightarrow> (err, ControlMsg) result" where
  "decodeFail payload =
     (case unmarshal payload of None \<Rightarrow> Inl (Plain ''control frame: invalid fail'')
      | Some ms \<Rightarrow>
        (case ptr_field as_string ''reason'' ms of
           None \<Rightarrow> Inl (Plain ''control frame: invalid fail'')
         | Some None \<Rightarrow> Inl (Plain ''control frame: fail.reason missing'')
         | Some (Some s) \<Rightarrow>
           (case fail_reason s of None \<Rightarrow> Inl (Plain ''control frame: bad fail reason'')
            | Some reason \<Rightarrow> Inr (NewFail reason))))"

record rawResumeFileState =
  raw_rf_Idx :: "int option"
  raw_rf_HaveBlocks :: "int option"

definition raw_resume_file :: "json \<Rightarrow> rawResumeFileState option" where
  "raw_resume_file v = (case as_members v of None \<Rightarrow> None
     | Some ms \<Rightarrow>
       (case (ptr_field as_int ''idx'' ms, ptr_field as_int ''haveBlocks'' ms) of
          (Some a, Some b) \<Rightarrow> Some \<lparr>raw_rf_Idx = a, raw_rf_HaveBlocks = b\<rparr>
        | _ \<Rightarrow> None))"

fun build_resume_files :: "rawResumeFileState list \<Rightarrow> (err, ResumeFileState list) result" where
  "build_resume_files [] = Inr []"
| "build_resume_files (r # rs) =
     (case (raw_rf_Idx r, raw_rf_HaveBlocks r) of
        (Some i, Some h) \<Rightarrow>
          (case build_resume_files rs of Inl e \<Rightarrow> Inl e
           | Inr fs \<Rightarrow> Inr (\<lparr>rf_Idx = i, rf_HaveBlocks = h\<rparr> # fs))
      | _ \<Rightarrow> Inl (Plain ''control frame: incomplete resume file state''))"

definition decodeResumeState :: "bytes \<Rightarrow> (err, ControlMsg) result" where
  "decodeResumeState payload =
     (case unmarshal payload of None \<Rightarrow> Inl (Plain ''control frame: invalid resume_state'')
      | Some ms \<Rightarrow>
        (case (ptr_field as_string ''transferId'' ms, ptr_field as_string ''manifestFingerprint'' ms,
               slice_field raw_resume_file ''files'' ms) of
           (Some tid, Some fp, Some rawFiles) \<Rightarrow>
             (case tid of None \<Rightarrow> Inl (Plain ''control frame: resume_state.transferId missing'')
              | Some transferID \<Rightarrow>
                if (case fp of None \<Rightarrow> False | Some f \<Rightarrow> \<not> isLowerHex f 64)
                then Inl (Plain ''control frame: resume_state.manifestFingerprint must be 64 lowercase hex characters'')
                else if rawFiles = [] then Inl (Plain ''control frame: resume_state.files empty'')
                else if MaxTransferFiles < length rawFiles
                then Inl (Plain ''control frame: resume_state has too many files'')
                else (case build_resume_files rawFiles of Inl e \<Rightarrow> Inl e
                  | Inr files \<Rightarrow> Inr (MResumeState ((NewResumeState transferID files)
                      \<lparr>rs_ManifestFingerprint := (case fp of None \<Rightarrow> '''' | Some f \<Rightarrow> f)\<rparr>))))
         | _ \<Rightarrow> Inl (Plain ''control frame: invalid resume_state'')))"

definition DecodeControl :: "bytes \<Rightarrow> (err, ControlMsg) result" where
  "DecodeControl payload =
     (case unmarshal payload of None \<Rightarrow> Inl (Plain ''control frame: invalid JSON'')
      | Some ms \<Rightarrow>
        (case ptr_field as_int ''type'' ms of
           None \<Rightarrow> Inl (Plain ''control frame: invalid JSON'')
         | Some None \<Rightarrow> Inl (Plain ''control frame: missing type'')
         | Some (Some t) \<Rightarrow>
           if t < 0 \<or> 255 < t then Inl (Plain ''control frame: invalid type'')
           else let tag = word_of_int t in
             if tag = FrameManifest then decodeManifest payload
             else if tag = FrameBlockHash then decodeBlockHash payload
             else if tag = FrameBlockRecv then decodeBlockRecv payload
             else if tag = FrameAck then decodeAck payload
             else if tag = FrameNack then decodeNack payload
             else if tag = FrameControl then decodeControlMessage payload
             else if tag = FrameComplete then decodeComplete payload
             else if tag = FrameDone then Inr NewDone
             else if tag = FrameFail then decodeFail payload
             else if tag = FrameResumeState then decodeResumeState payload
             else Inl (Plain ''control frame: unexpected type'')))"

section \<open>The canonical manifest fingerprint (journal.go)\<close>

definition ManifestFingerprint :: "Manifest \<Rightarrow> (err, string) result" where
  "ManifestFingerprint manifest =
     (case ValidateManifest manifest of Inl e \<Rightarrow> Inl e
      | Inr validated \<Rightarrow>
        (case EncodeControl (MManifest validated) of Inl e \<Rightarrow> Inl e
         | Inr encoded \<Rightarrow> Inr (hex_encode (sha256 encoded))))"

section \<open>Round trip\<close>

definition file_wire_ok :: "FileEntry \<Rightarrow> bool" where
  "file_wire_ok f \<longleftrightarrow> in_s64 (fe_Idx f) \<and> valid_string (fe_Name f) \<and> in_s64 (fe_Size f)
     \<and> valid_string (fe_Mime f) \<and> in_s64 (fe_LastModified f) \<and> in_s64 (fe_BlockSize f)
     \<and> in_s64 (fe_Blocks f) \<and> valid_string (fe_FileDigest f)"

definition resume_file_wire_ok :: "ResumeFileState \<Rightarrow> bool" where
  "resume_file_wire_ok f \<longleftrightarrow> in_s64 (rf_Idx f) \<and> in_s64 (rf_HaveBlocks f)"

text \<open>The messages the \<^verbatim>\<open>New*\<close> constructors build from values of the fields' Go types, with
  UTF-8 text, and with the file counts the decoder accepts.\<close>

fun msg_ok :: "ControlMsg \<Rightarrow> bool" where
  "msg_ok (MManifest m) = (mf_Type m = FrameManifest \<and> valid_string (mf_TransferID m)
     \<and> mf_Files m \<noteq> [] \<and> length (mf_Files m) \<le> MaxTransferFiles
     \<and> list_all file_wire_ok (mf_Files m) \<and> in_s64 (mf_TotalSize m))"
| "msg_ok (MBlockHash m) = (bh_Type m = FrameBlockHash \<and> in_s64 (bh_FileIdx m)
     \<and> in_s64 (bh_BlockIdx m) \<and> valid_string (bh_SHA256 m))"
| "msg_ok (MBlockRecv m) = (br_Type m = FrameBlockRecv \<and> in_s64 (br_FileIdx m)
     \<and> in_s64 (br_BlockIdx m))"
| "msg_ok (MAck m) = (ack_Type m = FrameAck \<and> in_s64 (ack_FileIdx m) \<and> in_s64 (ack_BlockIdx m))"
| "msg_ok (MNack m) = (nack_Type m = FrameNack \<and> in_s64 (nack_FileIdx m)
     \<and> in_s64 (nack_BlockIdx m))"
| "msg_ok (MControl m) = (ctl_Type m = FrameControl)"
| "msg_ok (MComplete m) = (cpl_Type m = FrameComplete \<and> valid_string (cpl_FileDigest m))"
| "msg_ok (MDone m) = (done_Type m = FrameDone)"
| "msg_ok (MFail m) = (fail_Type m = FrameFail)"
| "msg_ok (MResumeState m) = (rs_Type m = FrameResumeState \<and> valid_string (rs_TransferID m)
     \<and> (rs_ManifestFingerprint m = '''' \<or> isLowerHex (rs_ManifestFingerprint m) 64)
     \<and> rs_Files m \<noteq> [] \<and> length (rs_Files m) \<le> MaxTransferFiles
     \<and> list_all resume_file_wire_ok (rs_Files m))"

lemma json_ok_jint [simp]: "json_ok (jint i)" "json_ok (jbyte b)"
  by (auto simp: jint_def jbyte_def)

lemma json_depth_jint [simp]: "json_depth (jint i) = 0" "json_depth (jbyte b) = 0"
  by (simp_all add: jint_def jbyte_def)

lemma valid_string_lower_hex:
  "list_all (\<lambda>c. (48 \<le> code c \<and> code c \<le> 57) \<or> (97 \<le> code c \<and> code c \<le> 102)) s \<Longrightarrow> valid_string s"
  by (induction s) auto

lemma isLowerHex_valid: "isLowerHex s n \<Longrightarrow> valid_string s"
  by (simp add: isLowerHex_def valid_string_lower_hex)

lemma valid_string_NackReason [simp]: "valid_string (NackReason_string r)"
  by (cases r) simp_all

lemma valid_string_ControlOp [simp]: "valid_string (ControlOp_string op)"
  by (cases op) simp_all

lemma valid_string_FailReason [simp]: "valid_string (FailReason_string fr)"
  by (cases fr) simp_all

lemma foldr_max_bound: "(\<And>x. x \<in> set xs \<Longrightarrow> x \<le> n) \<Longrightarrow> foldr max xs (0::nat) \<le> n"
  by (induction xs) auto

lemma json_ok_file: "file_wire_ok f \<Longrightarrow> json_ok (file_json f)"
  by (simp add: file_json_def file_wire_ok_def)

lemma json_depth_file: "json_depth (file_json f) = 1" "json_depth (resume_file_json r) = 1"
  by (simp_all add: file_json_def resume_file_json_def)

lemma json_ok_resume_file: "json_ok (resume_file_json f)"
  by (simp add: resume_file_json_def)

lemma json_ok_omitempty: "valid_string n \<Longrightarrow> valid_string s \<Longrightarrow>
    list_all (\<lambda>(k, v). valid_string k \<and> json_ok v) (omitempty n s)"
  by (simp add: omitempty_def)

lemma control_json_ok: "msg_ok msg \<Longrightarrow> json_ok (control_json msg)"
  by (cases msg) (auto simp: list_all_iff json_ok_file json_ok_resume_file omitempty_def
      dest: isLowerHex_valid)

lemma control_json_depth: "json_depth (control_json msg) \<le> 3"
proof -
  have f: "foldr max (map (json_depth \<circ> file_json) fs) 0 \<le> 1" for fs
    by (rule foldr_max_bound) (auto simp: json_depth_file)
  have r: "foldr max (map (json_depth \<circ> resume_file_json) fs) 0 \<le> 1" for fs
    by (rule foldr_max_bound) (auto simp: json_depth_file)
  show ?thesis
    by (cases msg) (use f r in \<open>auto simp: omitempty_def\<close>)
qed

lemma unmarshal_encode:
  assumes "msg_ok msg" and "EncodeControl msg = Inr payload" and "control_json msg = JObj ms"
  shows "unmarshal payload = Some ms"
proof -
  have "json_parse (json_print (control_json msg)) = Some (control_json msg)"
    using control_json_ok [OF assms(1)] control_json_depth [of msg]
    by (intro json_parse_print) (simp_all add: max_depth_def)
  with assms(2,3) show ?thesis by (auto simp: unmarshal_def EncodeControl_def)
qed

text \<open>Reading one field of a literal member list.\<close>

lemma as_int_jint [simp]: "in_s64 i \<Longrightarrow> as_int (jint i) = Some i"
  by (simp add: jint_def)

lemma uint_byte: "0 \<le> uint (b :: byte)" "uint (b :: byte) < 256"
  using unsigned_less [of b, where 'a = int] by simp_all

lemma in_s64_byte [simp]: "in_s64 (uint (b :: byte))"
  unfolding in_s64_def min_int64_def max_int64_def using uint_byte [of b] by linarith

lemma as_int_jbyte [simp]: "as_int (jbyte b) = Some (uint b)"
  by (simp add: jbyte_def)

lemma jint_not_null [simp]: "jint i \<noteq> JNull" "jbyte b \<noteq> JNull"
  by (simp_all add: jint_def jbyte_def)

definition field_name :: "string \<Rightarrow> bool" where
  "field_name s \<longleftrightarrow> list_all (\<lambda>c. 65 \<le> code c \<and> code c \<le> 122 \<or> 48 \<le> code c \<and> code c \<le> 57) s"

lemma runes_ascii_all: "list_all (\<lambda>c. code c < 128) s \<Longrightarrow> runes s = map code s"
  by (induction s) simp_all

lemma key_match_refl [simp]: "key_match k k"
  by (simp add: key_match_def)

lemma key_match_names:
  "list_all (\<lambda>c. code c < 128) k \<Longrightarrow> list_all (\<lambda>c. code c < 128) n \<Longrightarrow>
    key_match k n \<longleftrightarrow> map (fold_rune \<circ> code) k = map (fold_rune \<circ> code) n"
  by (simp add: key_match_def runes_ascii_all)

lemma field_values_Nil [simp]: "field_values n [] = []"
  by (simp add: field_values_def)

lemma field_values_Cons [simp]:
  "field_values n ((k, v) # ms) = (if key_match k n then v # field_values n ms else field_values n ms)"
  by (simp add: field_values_def)

lemma field_values_append [simp]: "field_values n (xs @ ys) = field_values n xs @ field_values n ys"
  by (simp add: field_values_def)

lemma opt_list_map: "(\<And>x. x \<in> set xs \<Longrightarrow> f x = Some (g x)) \<Longrightarrow> opt_list (map f xs) = Some (map g xs)"
  by (induction xs) simp_all

lemma raw_file_json:
  assumes "file_wire_ok f"
  shows "raw_file (file_json f) = Some \<lparr>raw_Idx = Some (fe_Idx f), raw_Name = Some (fe_Name f),
    raw_Size = Some (fe_Size f), raw_Mime = Some (fe_Mime f),
    raw_LastModified = Some (fe_LastModified f), raw_BlockSize = Some (fe_BlockSize f),
    raw_Blocks = Some (fe_Blocks f), raw_FileDigest = Some (fe_FileDigest f)\<rparr>"
  using assms
  by (simp add: raw_file_def file_json_def file_wire_ok_def ptr_field_def key_match_names fold_rune_def)

lemma build_raw_file:
  "build \<lparr>raw_Idx = Some (fe_Idx f), raw_Name = Some (fe_Name f),
    raw_Size = Some (fe_Size f), raw_Mime = Some (fe_Mime f),
    raw_LastModified = Some (fe_LastModified f), raw_BlockSize = Some (fe_BlockSize f),
    raw_Blocks = Some (fe_Blocks f), raw_FileDigest = Some (fe_FileDigest f)\<rparr> = Inr f"
  by (simp add: build_def)

lemma build_all_files:
  "list_all file_wire_ok fs \<Longrightarrow>
    \<exists>rs. opt_list (map raw_file (map file_json fs)) = Some rs \<and> build_all rs = Inr fs
      \<and> length rs = length fs"
proof (induction fs)
  case (Cons f fs)
  then obtain rs where "opt_list (map raw_file (map file_json fs)) = Some rs" "build_all rs = Inr fs"
    "length rs = length fs" by auto
  with Cons.prems raw_file_json [of f] build_raw_file [of f] show ?case by simp
qed simp

lemma build_resume:
  "list_all resume_file_wire_ok fs \<Longrightarrow>
    \<exists>rs. opt_list (map raw_resume_file (map resume_file_json fs)) = Some rs
      \<and> build_resume_files rs = Inr fs \<and> length rs = length fs"
proof (induction fs)
  case (Cons f fs)
  then obtain rs where "opt_list (map raw_resume_file (map resume_file_json fs)) = Some rs"
    "build_resume_files rs = Inr fs" "length rs = length fs" by auto
  moreover have "raw_resume_file (resume_file_json f)
      = Some \<lparr>raw_rf_Idx = Some (rf_Idx f), raw_rf_HaveBlocks = Some (rf_HaveBlocks f)\<rparr>"
    using Cons.prems by (simp add: raw_resume_file_def resume_file_json_def resume_file_wire_ok_def
        ptr_field_def key_match_names fold_rune_def)
  ultimately show ?case by simp
qed simp

lemmas field_evaluation = ptr_field_def val_field_def slice_field_def key_match_names fold_rune_def
  Let_def omitempty_def

lemma DecodeControl_tag:
  assumes "unmarshal payload = Some ((''type'', jbyte t) # ms)" and "field_values ''type'' ms = []"
  shows "DecodeControl payload =
     (if t = FrameManifest then decodeManifest payload
      else if t = FrameBlockHash then decodeBlockHash payload
      else if t = FrameBlockRecv then decodeBlockRecv payload
      else if t = FrameAck then decodeAck payload
      else if t = FrameNack then decodeNack payload
      else if t = FrameControl then decodeControlMessage payload
      else if t = FrameComplete then decodeComplete payload
      else if t = FrameDone then Inr NewDone
      else if t = FrameFail then decodeFail payload
      else if t = FrameResumeState then decodeResumeState payload
      else Inl (Plain ''control frame: unexpected type''))"
proof -
  have p: "ptr_field as_int ''type'' ((''type'', jbyte t) # ms) = Some (Some (uint t))"
    using assms(2) by (simp add: ptr_field_def)
  have "\<not> uint t < 0" and "\<not> 255 < uint t" using uint_byte [of t] by linarith+
  then have r: "(uint t < 0 \<or> 255 < uint t) = False" by blast
  have w: "word_of_int (uint t) = t" by simp
  show ?thesis unfolding DecodeControl_def assms(1) option.case p r w Let_def if_False ..
qed

lemma decode_encode_Manifest:
  assumes "msg_ok (MManifest m)" and "EncodeControl (MManifest m) = Inr payload"
  shows "DecodeControl payload = Inr (MManifest m)"
proof -
  let ?ms = "(''type'', jbyte (mf_Type m)) # omitempty ''transferId'' (mf_TransferID m)
     @ [(''files'', JArr (map file_json (mf_Files m))), (''totalSize'', jint (mf_TotalSize m))]"
  obtain rs where rs: "opt_list (map raw_file (map file_json (mf_Files m))) = Some rs"
    "build_all rs = Inr (mf_Files m)" "length rs = length (mf_Files m)"
    using build_all_files [of "mf_Files m"] assms(1) by auto
  have u: "unmarshal payload = Some ?ms"
    by (rule unmarshal_encode [OF assms]) simp
  have "field_values ''transferId'' ?ms
      = (if mf_TransferID m = '''' then [] else [JStr (mf_TransferID m)])"
    by (simp add: omitempty_def key_match_names fold_rune_def)
  then have f1: "val_field as_string '''' ''transferId'' ?ms = Some (mf_TransferID m)"
    by (simp only: val_field_def) simp
  have "field_values ''files'' ?ms = [JArr (map file_json (mf_Files m))]"
    by (simp add: omitempty_def key_match_names fold_rune_def)
  then have f2: "slice_field raw_file ''files'' ?ms = Some rs"
    by (simp only: slice_field_def ptr_field_def) (simp add: rs(1) del: map_map)
  have "field_values ''totalSize'' ?ms = [jint (mf_TotalSize m)]"
    by (simp add: omitempty_def key_match_names fold_rune_def)
  then have f3: "ptr_field as_int ''totalSize'' ?ms = Some (Some (mf_TotalSize m))"
    using assms(1) by (simp only: ptr_field_def) simp
  have "rs \<noteq> []" "length rs \<le> MaxTransferFiles" using rs(3) assms(1) by auto
  then have "decodeManifest payload = Inr (MManifest m)"
    unfolding decodeManifest_def u option.case f1 f2 f3 prod.case using assms(1) rs(2) by simp
  moreover have "field_values ''type'' (tl ?ms) = []"
    by (simp add: omitempty_def key_match_names fold_rune_def)
  ultimately show ?thesis using DecodeControl_tag [OF u] assms(1) by simp
qed

lemma decode_encode_ResumeState:
  assumes "msg_ok (MResumeState m)" and "EncodeControl (MResumeState m) = Inr payload"
  shows "DecodeControl payload = Inr (MResumeState m)"
proof -
  obtain rs where rs: "opt_list (map raw_resume_file (map resume_file_json (rs_Files m))) = Some rs"
    "build_resume_files rs = Inr (rs_Files m)" "length rs = length (rs_Files m)"
    using build_resume [of "rs_Files m"] assms(1) by auto
  have u: "unmarshal payload = Some ((''type'', jbyte (rs_Type m))
     # (''transferId'', JStr (rs_TransferID m))
     # omitempty ''manifestFingerprint'' (rs_ManifestFingerprint m)
     @ [(''files'', JArr (map resume_file_json (rs_Files m)))])"
    by (rule unmarshal_encode [OF assms]) simp
  have "decodeResumeState payload = Inr (MResumeState m)"
    using assms(1) rs
    by (cases "rs_ManifestFingerprint m = ''''")
      (auto simp: decodeResumeState_def u field_evaluation NewResumeState_def)
  with DecodeControl_tag [OF u] assms(1) show ?thesis
    by (simp add: key_match_names fold_rune_def omitempty_def frame_types)
qed

lemma decode_encode_BlockHash:
  assumes "msg_ok (MBlockHash m)" and "EncodeControl (MBlockHash m) = Inr payload"
  shows "DecodeControl payload = Inr (MBlockHash m)"
  using unmarshal_encode [OF assms] assms(1)
    by (simp add: DecodeControl_tag decodeBlockHash_def field_evaluation frame_types NewBlockHash_def)

lemma decode_encode_BlockRecv:
  assumes "msg_ok (MBlockRecv m)" and "EncodeControl (MBlockRecv m) = Inr payload"
  shows "DecodeControl payload = Inr (MBlockRecv m)"
  using unmarshal_encode [OF assms] assms(1)
    by (simp add: DecodeControl_tag decodeBlockRecv_def field_evaluation frame_types NewBlockRecv_def)

lemma decode_encode_Ack:
  assumes "msg_ok (MAck m)" and "EncodeControl (MAck m) = Inr payload"
  shows "DecodeControl payload = Inr (MAck m)"
  using unmarshal_encode [OF assms] assms(1)
    by (simp add: DecodeControl_tag decodeAck_def field_evaluation frame_types NewAck_def)

lemma decode_encode_Nack:
  assumes "msg_ok (MNack m)" and "EncodeControl (MNack m) = Inr payload"
  shows "DecodeControl payload = Inr (MNack m)"
  using unmarshal_encode [OF assms] assms(1)
    by (cases "nack_Reason m") (simp_all add: DecodeControl_tag decodeNack_def field_evaluation
        frame_types NewNack_def nack_reason_def)

lemma decode_encode_Control:
  assumes "msg_ok (MControl m)" and "EncodeControl (MControl m) = Inr payload"
  shows "DecodeControl payload = Inr (MControl m)"
  using unmarshal_encode [OF assms] assms(1)
    by (cases "ctl_Op m") (simp_all add: DecodeControl_tag decodeControlMessage_def field_evaluation
        frame_types NewControl_def control_op_def)

lemma decode_encode_Complete:
  assumes "msg_ok (MComplete m)" and "EncodeControl (MComplete m) = Inr payload"
  shows "DecodeControl payload = Inr (MComplete m)"
  using unmarshal_encode [OF assms] assms(1)
    by (simp add: DecodeControl_tag decodeComplete_def field_evaluation frame_types NewComplete_def)

lemma decode_encode_Done:
  assumes "msg_ok (MDone m)" and "EncodeControl (MDone m) = Inr payload"
  shows "DecodeControl payload = Inr (MDone m)"
  using unmarshal_encode [OF assms] assms(1)
    by (simp add: DecodeControl_tag frame_types NewDone_def)

lemma decode_encode_Fail:
  assumes "msg_ok (MFail m)" and "EncodeControl (MFail m) = Inr payload"
  shows "DecodeControl payload = Inr (MFail m)"
  using unmarshal_encode [OF assms] assms(1)
    by (cases "fail_Reason m") (simp_all add: DecodeControl_tag decodeFail_def field_evaluation
        frame_types NewFail_def fail_reason_def)

lemma decode_encode:
  assumes "msg_ok msg" and "EncodeControl msg = Inr payload"
  shows "DecodeControl payload = Inr msg"
  using assms by (cases msg) (simp_all only: decode_encode_Manifest decode_encode_ResumeState decode_encode_BlockHash decode_encode_BlockRecv decode_encode_Ack decode_encode_Nack decode_encode_Control decode_encode_Complete decode_encode_Done decode_encode_Fail)

interpretation control_codec: codec "\<lambda>msg. bytes_of_string (json_print (control_json msg))"
    DecodeControl msg_ok
  by unfold_locales (simp add: decode_encode EncodeControl_def)

section \<open>What a decoded message guarantees\<close>

text \<open>Every decoded message carries its tag and the counts and shapes the decoder checks.\<close>

fun decoded_ok :: "ControlMsg \<Rightarrow> bool" where
  "decoded_ok (MManifest m) = (mf_Type m = FrameManifest \<and> mf_Files m \<noteq> []
     \<and> length (mf_Files m) \<le> MaxTransferFiles)"
| "decoded_ok (MBlockHash m) = (bh_Type m = FrameBlockHash)"
| "decoded_ok (MBlockRecv m) = (br_Type m = FrameBlockRecv)"
| "decoded_ok (MAck m) = (ack_Type m = FrameAck)"
| "decoded_ok (MNack m) = (nack_Type m = FrameNack)"
| "decoded_ok (MControl m) = (ctl_Type m = FrameControl)"
| "decoded_ok (MComplete m) = (cpl_Type m = FrameComplete)"
| "decoded_ok (MDone m) = (done_Type m = FrameDone)"
| "decoded_ok (MFail m) = (fail_Type m = FrameFail)"
| "decoded_ok (MResumeState m) = (rs_Type m = FrameResumeState \<and> rs_Files m \<noteq> []
     \<and> length (rs_Files m) \<le> MaxTransferFiles
     \<and> (rs_ManifestFingerprint m = '''' \<or> isLowerHex (rs_ManifestFingerprint m) 64))"

lemma length_build_all: "build_all rs = Inr fs \<Longrightarrow> length fs = length rs"
  by (induction rs arbitrary: fs) (auto split: sum.splits)

lemma length_build_resume: "build_resume_files rs = Inr fs \<Longrightarrow> length fs = length rs"
  by (induction rs arbitrary: fs) (auto split: sum.splits option.splits)

lemma build_all_Inr:
  "build_all rs = Inr fs \<Longrightarrow> rs \<noteq> [] \<Longrightarrow> \<not> MaxTransferFiles < length rs
     \<Longrightarrow> fs \<noteq> [] \<and> length fs \<le> MaxTransferFiles"
  using length_build_all [of rs fs] by (cases fs) auto

lemma build_resume_Inr:
  "build_resume_files rs = Inr fs \<Longrightarrow> rs \<noteq> [] \<Longrightarrow> \<not> MaxTransferFiles < length rs
     \<Longrightarrow> fs \<noteq> [] \<and> length fs \<le> MaxTransferFiles"
  using length_build_resume [of rs fs] by (cases fs) auto

lemma decodeManifest_ok: "decodeManifest payload = Inr msg \<Longrightarrow> decoded_ok msg"
  by (auto simp: decodeManifest_def dest: build_all_Inr
      split: option.splits if_splits sum.splits)

lemma decodeResumeState_ok: "decodeResumeState payload = Inr msg \<Longrightarrow> decoded_ok msg"
  by (auto simp: decodeResumeState_def NewResumeState_def dest: build_resume_Inr
      split: option.splits if_splits sum.splits)

lemma decode_small_ok:
  "decodeBlockHash payload = Inr msg \<Longrightarrow> decoded_ok msg"
  "decodeBlockRecv payload = Inr msg \<Longrightarrow> decoded_ok msg"
  "decodeAck payload = Inr msg \<Longrightarrow> decoded_ok msg"
  "decodeNack payload = Inr msg \<Longrightarrow> decoded_ok msg"
  "decodeControlMessage payload = Inr msg \<Longrightarrow> decoded_ok msg"
  "decodeComplete payload = Inr msg \<Longrightarrow> decoded_ok msg"
  "decodeFail payload = Inr msg \<Longrightarrow> decoded_ok msg"
  by (auto simp: decodeBlockHash_def decodeBlockRecv_def decodeAck_def decodeNack_def
      decodeControlMessage_def decodeComplete_def decodeFail_def NewBlockHash_def NewBlockRecv_def
      NewAck_def NewNack_def NewControl_def NewComplete_def NewFail_def split: option.splits)

lemma DecodeControl_ok: "DecodeControl payload = Inr msg \<Longrightarrow> decoded_ok msg"
proof -
  assume "DecodeControl payload = Inr msg"
  then have "decodeManifest payload = Inr msg \<or> decodeResumeState payload = Inr msg
    \<or> decodeBlockHash payload = Inr msg \<or> decodeBlockRecv payload = Inr msg
    \<or> decodeAck payload = Inr msg \<or> decodeNack payload = Inr msg
    \<or> decodeControlMessage payload = Inr msg \<or> decodeComplete payload = Inr msg
    \<or> decodeFail payload = Inr msg \<or> NewDone = msg"
    by (simp add: DecodeControl_def Let_def split: option.splits if_splits)
  then show ?thesis
    using decodeManifest_ok decodeResumeState_ok decode_small_ok by (auto simp: NewDone_def)
qed

lemma isLowerHex_hex_encode: "isLowerHex (hex_encode bs) (2 * length bs)"
proof -
  have "is_lower_hex_char c \<Longrightarrow> (48 \<le> code c \<and> code c \<le> 57) \<or> (97 \<le> code c \<and> code c \<le> 102)" for c
    by (auto simp: is_lower_hex_char_def)
  then show ?thesis using hex_encode_lower [of bs] by (auto simp: isLowerHex_def list_all_iff)
qed

lemma ManifestFingerprint_validated:
  "ValidateManifest m = Inr v \<Longrightarrow> ManifestFingerprint m = Inr (hex_encode (sha256
     (bytes_of_string (json_print (control_json (MManifest v))))))"
  by (simp add: ManifestFingerprint_def EncodeControl_def)

lemma ManifestFingerprint_hex: "ManifestFingerprint m = Inr fp \<Longrightarrow> isLowerHex fp 64"
  using isLowerHex_hex_encode [of "sha256 _"]
  by (auto simp: ManifestFingerprint_def EncodeControl_def split: sum.splits)

section \<open>Properties\<close>


definition example_msg :: ControlMsg where
  "example_msg = MManifest (example_manifest\<lparr>mf_TransferID := ''00ff''\<rparr>)"


text \<open>whatever bytes arrive, a decoded control message has the tag of its kind, a bounded
  and non-empty file list where it has one, and a fingerprint of 64 hex digits or none.\<close>

theorem decoded_message_shape:
  assumes "DecodeControl payload = Inr msg"
  shows "decoded_ok msg"
  using assms by (rule DecodeControl_ok)

theorem decoded_message_shape_witness:
  "DecodeControl (bytes_of_string (json_print (control_json (NewAck 0 7)))) = Inr (NewAck 0 7)
     \<and> decoded_ok (NewAck 0 7)"
proof -
  have "msg_ok (NewAck 0 7)"
    by (simp add: NewAck_def in_s64_def min_int64_def max_int64_def)
  then have d: "DecodeControl (bytes_of_string (json_print (control_json (NewAck 0 7)))) = Inr (NewAck 0 7)"
    by (rule control_codec.dec_enc)
  from decoded_message_shape [OF d] d show ?thesis by simp
qed

text \<open>the canonical fingerprint exists for exactly the manifests that validate, has 64
  lowercase hex digits, and is the same for a manifest and its validated form.\<close>

theorem manifest_fingerprint_canonical:
  "(\<forall>v. ValidateManifest m = Inr v \<longrightarrow> (\<exists>fp. ManifestFingerprint m = Inr fp
      \<and> ManifestFingerprint v = Inr fp \<and> isLowerHex fp 64))
   \<and> (\<forall>e. ManifestFingerprint m = Inl e \<longleftrightarrow> ValidateManifest m = Inl e)"
proof (intro conjI allI impI)
  fix v
  assume v: "ValidateManifest m = Inr v"
  have "ValidateManifest v = Inr v" using ValidateManifest_Inr(1) [OF v] by (rule ValidateManifest_ok)
  with v ManifestFingerprint_hex [of v] ManifestFingerprint_validated [OF v]
    ManifestFingerprint_validated [of v v]
  show "\<exists>fp. ManifestFingerprint m = Inr fp \<and> ManifestFingerprint v = Inr fp \<and> isLowerHex fp 64"
    by simp
next
  fix e
  show "ManifestFingerprint m = Inl e \<longleftrightarrow> ValidateManifest m = Inl e"
    by (auto simp: ManifestFingerprint_def EncodeControl_def split: sum.splits)
qed

theorem manifest_fingerprint_canonical_witness:
  "ValidateManifest example_manifest = Inr example_manifest
     \<and> (\<exists>fp. ManifestFingerprint example_manifest = Inr fp \<and> isLowerHex fp 64)"
  using manifest_fingerprint_canonical [of example_manifest]
    ValidateManifest_ok [OF example_manifest_ok] by blast

end
