(* ===== verification/Chunker.thy ===== *)
theory Chunker
  imports Errors
begin

text \<open>
  Cutting a byte stream into block-aligned frame pieces (\<^verbatim>\<open>transfer_chunker.go\<close>) and the
  in-memory file source of \<^verbatim>\<open>transfer_ports.go\<close>.  A callback that can fail is a function from
  the caller's state to an optional error and the next state; a computation that may not return
  has an option result, with \<^term>\<open>None\<close> for a run that panics or never ends.
\<close>

section \<open>Streams\<close>

type_synonym 's callback = "bytes \<Rightarrow> 's \<Rightarrow> (err option \<times> 's) option"

text \<open>\<^verbatim>\<open>StreamFunc\<close>, the shape of \<^verbatim>\<open>FileSource.Stream\<close>.\<close>

type_synonym 's StreamFunc = "'s callback \<Rightarrow> 's \<Rightarrow> (err option \<times> 's) option"

text \<open>The contract of \<^verbatim>\<open>FileSource.Stream\<close>: the chunks are pushed in order, the first error of the
  callback is returned, and after the last chunk the source returns its own outcome.\<close>

fun push_chunks :: "bytes list \<Rightarrow> err option \<Rightarrow> 's StreamFunc" where
  "push_chunks [] outcome fn s = Some (outcome, s)"
| "push_chunks (chunk # chunks) outcome fn s =
     (case fn chunk s of None \<Rightarrow> None
      | Some (Some e, s') \<Rightarrow> Some (Some e, s')
      | Some (None, s') \<Rightarrow> push_chunks chunks outcome fn s')"

section \<open>The in-memory source (transfer\_ports.go)\<close>

record FileMeta =
  fm_Name :: string
  fm_Size :: int
  fm_Mime :: string
  fm_LastModified :: int

record bytesSource =
  bs_data :: bytes
  bs_meta :: FileMeta
  bs_chunk :: int

definition defaultSourceChunk :: int where "defaultSourceChunk = 64 * 1024"

definition BytesSource :: "bytes \<Rightarrow> FileMeta \<Rightarrow> int \<Rightarrow> bytesSource" where
  "BytesSource data meta chunk = \<lparr>bs_data = data, bs_meta = meta,
     bs_chunk = (if chunk \<le> 0 then defaultSourceChunk else chunk)\<rparr>"

partial_function (option) bytes_loop ::
  "bytesSource \<Rightarrow> int \<Rightarrow> 's callback \<Rightarrow> 's \<Rightarrow> (err option \<times> 's) option" where
  "bytes_loop b i fn s =
     (if int (length (bs_data b)) \<le> i then Some (None, s)
      else let e = min (i + bs_chunk b) (int (length (bs_data b))) in
        case fn (take (nat (e - i)) (drop (nat i) (bs_data b))) s of
          None \<Rightarrow> None
        | Some (er, s') \<Rightarrow>
          (case er of Some x \<Rightarrow> Some (Some x, s') | None \<Rightarrow> bytes_loop b (i + bs_chunk b) fn s'))"

definition bytesSource_Stream :: "bytesSource \<Rightarrow> 's StreamFunc" where
  "bytesSource_Stream b fn s = bytes_loop b 0 fn s"

section \<open>Re-chunking (transfer\_chunker.go)\<close>

record FramePiece =
  fp_BlockIdx :: nat
  fp_FrameOff :: nat
  fp_Payload :: bytes
  fp_LastInBlock :: bool

text \<open>The variables the closures of \<^verbatim>\<open>ReChunk\<close> share.\<close>

record chunk_state =
  ck_pos :: nat
  ck_buf :: bytes
  ck_start :: nat

definition avail :: "chunk_state \<Rightarrow> nat" where
  "avail c = length (ck_buf c) - ck_start c"

definition targetLen :: "nat \<Rightarrow> nat \<Rightarrow> chunk_state \<Rightarrow> nat" where
  "targetLen blockSize frameSize c =
     (let rem = blockSize - ck_pos c mod blockSize in if frameSize < rem then frameSize else rem)"

definition emitPiece :: "nat \<Rightarrow> nat \<Rightarrow> chunk_state \<Rightarrow> FramePiece \<times> chunk_state" where
  "emitPiece blockSize t c =
     (let offsetInBlock = ck_pos c mod blockSize
      in (\<lparr>fp_BlockIdx = ck_pos c div blockSize, fp_FrameOff = offsetInBlock,
           fp_Payload = take t (drop (ck_start c) (ck_buf c)),
           fp_LastInBlock = (offsetInBlock + t = blockSize)\<rparr>,
         c\<lparr>ck_start := ck_start c + t, ck_pos := ck_pos c + t\<rparr>))"

partial_function (option) emit_full ::
  "nat \<Rightarrow> nat \<Rightarrow> (FramePiece \<Rightarrow> 's \<Rightarrow> err option \<times> 's) \<Rightarrow> chunk_state \<Rightarrow> 's
     \<Rightarrow> (err option \<times> chunk_state \<times> 's) option" where
  "emit_full blockSize frameSize emit c s =
     (if targetLen blockSize frameSize c \<le> avail c
      then let (piece, c') = emitPiece blockSize (targetLen blockSize frameSize c) c in
        case emit piece s of (er, s') \<Rightarrow>
          (case er of Some e \<Rightarrow> Some (Some e, c', s')
           | None \<Rightarrow> emit_full blockSize frameSize emit c' s')
      else Some (None, c, s))"

definition on_chunk ::
  "nat \<Rightarrow> nat \<Rightarrow> (FramePiece \<Rightarrow> 's \<Rightarrow> err option \<times> 's) \<Rightarrow> (chunk_state \<times> 's) callback" where
  "on_chunk blockSize frameSize emit chunk cs =
     (case cs of (c, s) \<Rightarrow>
        if blockSize = 0 then None
        else emit_full blockSize frameSize emit
          (c\<lparr>ck_buf := drop (ck_start c) (ck_buf c) @ chunk, ck_start := 0\<rparr>) s)"

partial_function (option) flush ::
  "nat \<Rightarrow> nat \<Rightarrow> (FramePiece \<Rightarrow> 's \<Rightarrow> err option \<times> 's) \<Rightarrow> chunk_state \<Rightarrow> 's
     \<Rightarrow> (err option \<times> 's) option" where
  "flush blockSize frameSize emit c s =
     (if 0 < avail c
      then let t = min (targetLen blockSize frameSize c) (avail c);
               (piece0, c') = emitPiece blockSize t c;
               piece = (if avail c' = 0 then piece0\<lparr>fp_LastInBlock := True\<rparr> else piece0)
        in case emit piece s of (er, s') \<Rightarrow>
          (case er of Some e \<Rightarrow> Some (Some e, s') | None \<Rightarrow> flush blockSize frameSize emit c' s')
      else Some (None, s))"

text \<open>A zero block size makes Go panic on the first chunk; a zero frame size never ends.\<close>

definition ReChunk ::
  "(chunk_state \<times> 's) StreamFunc \<Rightarrow> nat \<Rightarrow> nat \<Rightarrow> (FramePiece \<Rightarrow> 's \<Rightarrow> err option \<times> 's) \<Rightarrow> 's
     \<Rightarrow> (err option \<times> 's) option" where
  "ReChunk stream blockSize frameSize emit s =
     (case stream (on_chunk blockSize frameSize emit) (\<lparr>ck_pos = 0, ck_buf = [], ck_start = 0\<rparr>, s) of
        None \<Rightarrow> None
      | Some (Some e, (_, s')) \<Rightarrow> Some (Some e, s')
      | Some (None, (c, s')) \<Rightarrow> flush blockSize frameSize emit c s')"

section \<open>Reference definition\<close>

text \<open>The pieces of a byte string that starts at file offset \<open>pos\<close>, with no streaming: each takes
  what fits in the frame and in the rest of its block.\<close>

definition frame_room :: "nat \<Rightarrow> nat \<Rightarrow> nat \<Rightarrow> nat" where
  "frame_room blockSize frameSize pos = min frameSize (blockSize - pos mod blockSize)"

function frames_of :: "nat \<Rightarrow> nat \<Rightarrow> nat \<Rightarrow> bytes \<Rightarrow> FramePiece list" where
  "frames_of blockSize frameSize pos data =
     (if data = [] \<or> blockSize = 0 \<or> frameSize = 0 then []
      else let t = min (frame_room blockSize frameSize pos) (length data) in
        \<lparr>fp_BlockIdx = pos div blockSize, fp_FrameOff = pos mod blockSize,
         fp_Payload = take t data,
         fp_LastInBlock = (pos mod blockSize + t = blockSize
            \<or> length data < frame_room blockSize frameSize pos)\<rparr>
        # frames_of blockSize frameSize (pos + t) (drop t data))"
  by pat_completeness auto
termination
  by (relation "measure (\<lambda>(_, _, _, data). length data)")
    (auto simp: frame_room_def mod_less_divisor)

fun run_emit :: "(FramePiece \<Rightarrow> 's \<Rightarrow> err option \<times> 's) \<Rightarrow> FramePiece list \<Rightarrow> 's \<Rightarrow> err option \<times> 's" where
  "run_emit emit [] s = (None, s)"
| "run_emit emit (p # ps) s = (case emit p s of (er, s') \<Rightarrow>
     (case er of Some e \<Rightarrow> (Some e, s') | None \<Rightarrow> run_emit emit ps s'))"

declare frames_of.simps [simp del]

lemma frame_room_pos: "0 < blockSize \<Longrightarrow> 0 < frameSize \<Longrightarrow> 0 < frame_room blockSize frameSize pos"
  by (simp add: frame_room_def)

lemma targetLen_eq: "targetLen blockSize frameSize c = frame_room blockSize frameSize (ck_pos c)"
  by (simp add: targetLen_def frame_room_def Let_def)

lemma frames_of_Nil [simp]: "frames_of blockSize frameSize pos [] = []"
  by (simp add: frames_of.simps)

text \<open>The pieces that are complete once \<open>data\<close> has arrived, and the bytes still waiting.\<close>

function full_frames :: "nat \<Rightarrow> nat \<Rightarrow> nat \<Rightarrow> bytes \<Rightarrow> FramePiece list \<times> nat \<times> bytes" where
  "full_frames blockSize frameSize pos data =
     (if blockSize = 0 \<or> frameSize = 0 \<or> length data < frame_room blockSize frameSize pos
      then ([], pos, data)
      else let t = frame_room blockSize frameSize pos;
               (ps, pos', rest) = full_frames blockSize frameSize (pos + t) (drop t data)
        in (\<lparr>fp_BlockIdx = pos div blockSize, fp_FrameOff = pos mod blockSize,
             fp_Payload = take t data, fp_LastInBlock = (pos mod blockSize + t = blockSize)\<rparr> # ps,
            pos', rest))"
  by pat_completeness auto
termination
  by (relation "measure (\<lambda>(_, _, _, data). length data)")
    (use frame_room_pos in \<open>auto intro!: diff_less simp: not_less dest: order.strict_trans2\<close>)

declare full_frames.simps [simp del]
declare frames_of.simps [simp del]


section \<open>Streaming agrees with the reference\<close>

definition holds_at :: "chunk_state \<Rightarrow> nat \<Rightarrow> bytes \<Rightarrow> bool" where
  "holds_at c pos d \<longleftrightarrow> ck_pos c = pos \<and> ck_start c \<le> length (ck_buf c)
     \<and> drop (ck_start c) (ck_buf c) = d"

lemma avail_holds: "holds_at c pos d \<Longrightarrow> avail c = length d"
  by (auto simp: holds_at_def avail_def)

lemma emitPiece_holds:
  assumes "holds_at c pos d" and "t \<le> length d"
  shows "fst (emitPiece blockSize t c) = \<lparr>fp_BlockIdx = pos div blockSize,
      fp_FrameOff = pos mod blockSize, fp_Payload = take t d,
      fp_LastInBlock = (pos mod blockSize + t = blockSize)\<rparr>"
    and "holds_at (snd (emitPiece blockSize t c)) (pos + t) (drop t d)"
  using assms by (auto simp: emitPiece_def holds_at_def Let_def add.commute)

lemma full_frames_idle:
  "length d < frame_room blockSize frameSize pos \<Longrightarrow>
     full_frames blockSize frameSize pos d = ([], pos, d)"
  by (simp add: full_frames.simps)

lemma full_frames_step:
  assumes "0 < blockSize" and "0 < frameSize" and "\<not> length d < frame_room blockSize frameSize pos"
    and "t = frame_room blockSize frameSize pos"
    and "full_frames blockSize frameSize (pos + t) (drop t d) = (ps, pos', rest)"
  shows "full_frames blockSize frameSize pos d =
    (\<lparr>fp_BlockIdx = pos div blockSize, fp_FrameOff = pos mod blockSize,
      fp_Payload = take t d, fp_LastInBlock = (pos mod blockSize + t = blockSize)\<rparr> # ps, pos', rest)"
  using assms by (simp add: full_frames.simps [of blockSize frameSize pos d] Let_def)

lemma full_frames_rest:
  assumes "0 < blockSize" and "0 < frameSize" and "full_frames blockSize frameSize pos d = (ps, p1, r1)"
  shows "length r1 < frame_room blockSize frameSize p1"
  using assms
proof (induction blockSize frameSize pos d arbitrary: ps rule: full_frames.induct)
  case (1 blockSize frameSize pos d)
  let ?t = "frame_room blockSize frameSize pos"
  show ?case
  proof (cases "length d < ?t")
    case True
    with "1.prems" show ?thesis by (simp add: full_frames_idle)
  next
    case False
    obtain qs p r where q: "full_frames blockSize frameSize (pos + ?t) (drop ?t d) = (qs, p, r)"
      by (metis prod_cases3)
    with full_frames_step [OF "1.prems"(1,2) False refl q] "1.prems"(3) have "p = p1" "r = r1" by auto
    with "1.IH" [of ?t, OF _ refl "1.prems"(1,2)] q False "1.prems"(1,2) show ?thesis by auto
  qed
qed

lemma emit_full_spec:
  assumes "0 < blockSize" and "0 < frameSize"
    and "holds_at c pos d" and "full_frames blockSize frameSize pos d = (ps, pos', rest)"
  shows "\<exists>c'. emit_full blockSize frameSize emit c s
         = Some (fst (run_emit emit ps s), c', snd (run_emit emit ps s))
      \<and> (fst (run_emit emit ps s) = None \<longrightarrow> holds_at c' pos' rest)"
  using assms
proof (induction blockSize frameSize pos d arbitrary: c s ps rule: full_frames.induct)
  case (1 blockSize frameSize pos d)
  let ?t = "frame_room blockSize frameSize pos"
  have a: "avail c = length d" and t: "targetLen blockSize frameSize c = ?t"
    using "1.prems"(3) by (simp_all add: avail_holds targetLen_eq holds_at_def)
  show ?case
  proof (cases "length d < ?t")
    case True
    with "1.prems" a t show ?thesis
      by (auto simp: emit_full.simps [of blockSize] full_frames.simps [of _ _ _ d])
  next
    case False
    obtain qs pos1 rest1 where q: "full_frames blockSize frameSize (pos + ?t) (drop ?t d) = (qs, pos1, rest1)"
      by (metis prod_cases3)
    have ps: "ps = fst (emitPiece blockSize ?t c) # qs" "pos1 = pos'" "rest1 = rest"
      using "1.prems" False q emitPiece_holds(1) [OF "1.prems"(3), of ?t blockSize]
      by (auto simp: full_frames.simps [of _ _ _ d] Let_def)
    have h: "holds_at (snd (emitPiece blockSize ?t c)) (pos + ?t) (drop ?t d)"
      using emitPiece_holds(2) [OF "1.prems"(3)] False by simp
    obtain er s' where e: "emit (fst (emitPiece blockSize ?t c)) s = (er, s')" by fastforce
    show ?thesis
    proof (cases er)
      case None
      have "\<exists>c'. emit_full blockSize frameSize emit (snd (emitPiece blockSize ?t c)) s'
          = Some (fst (run_emit emit qs s'), c', snd (run_emit emit qs s'))
        \<and> (fst (run_emit emit qs s') = None \<longrightarrow> holds_at c' pos' rest)"
        using "1.IH" [of ?t, OF _ refl "1.prems"(1,2) h] q ps False "1.prems"(1,2) by auto
      with None e ps a t False show ?thesis
        by (simp add: emit_full.simps [of blockSize frameSize emit c] Let_def case_prod_beta)
    next
      case (Some x)
      with e ps a t False show ?thesis
        by (simp add: emit_full.simps [of blockSize frameSize emit c] Let_def case_prod_beta)
    qed
  qed
qed

lemma full_frames_append:
  assumes "0 < blockSize" and "0 < frameSize"
    and "full_frames blockSize frameSize pos a = (ps, p1, r1)"
    and "full_frames blockSize frameSize p1 (r1 @ b) = (qs, p2, r2)"
  shows "full_frames blockSize frameSize pos (a @ b) = (ps @ qs, p2, r2)"
  using assms
proof (induction blockSize frameSize pos a arbitrary: ps rule: full_frames.induct)
  case (1 blockSize frameSize pos a)
  let ?t = "frame_room blockSize frameSize pos"
  show ?case
  proof (cases "length a < ?t")
    case True
    with "1.prems" show ?thesis by (simp add: full_frames.simps [of _ _ _ a])
  next
    case False
    obtain ps' p' r' where q: "full_frames blockSize frameSize (pos + ?t) (drop ?t a) = (ps', p', r')"
      by (metis prod_cases3)
    have "full_frames blockSize frameSize (pos + ?t) (drop ?t a @ b) = (ps' @ qs, p2, r2)"
      using "1.IH" [of ?t, OF _ refl "1.prems"(1,2)] "1.prems" q False
      by (auto simp: full_frames.simps [of _ _ _ a] Let_def)
    with "1.prems" q False show ?thesis
      by (auto simp: full_frames.simps [of _ _ _ a] full_frames.simps [of _ _ _ "a @ b"] Let_def)
  qed
qed

lemma run_emit_append:
  "run_emit emit (ps @ qs) s = (case run_emit emit ps s of (er, s') \<Rightarrow>
     (case er of Some e \<Rightarrow> (Some e, s') | None \<Rightarrow> run_emit emit qs s'))"
  by (induction ps arbitrary: s) (auto split: prod.splits option.splits)

lemma on_chunk_spec:
  assumes "0 < blockSize" and "0 < frameSize" and "holds_at c pos d"
    and "full_frames blockSize frameSize pos (d @ chunk) = (ps, pos', rest)"
  shows "\<exists>c'. on_chunk blockSize frameSize emit chunk (c, s)
         = Some (fst (run_emit emit ps s), c', snd (run_emit emit ps s))
      \<and> (fst (run_emit emit ps s) = None \<longrightarrow> holds_at c' pos' rest)"
proof -
  have "holds_at (c\<lparr>ck_buf := drop (ck_start c) (ck_buf c) @ chunk, ck_start := 0\<rparr>) pos (d @ chunk)"
    using assms(3) by (simp add: holds_at_def)
  from emit_full_spec [OF assms(1,2) this assms(4)] show ?thesis
    using assms(1) by (simp add: on_chunk_def)
qed

lemma push_chunks_spec:
  assumes "0 < blockSize" and "0 < frameSize" and "holds_at c pos d"
    and "full_frames blockSize frameSize pos (d @ concat chunks) = (ps, pos', rest)"
    and "full_frames blockSize frameSize pos d = ([], pos, d)"
  shows "\<exists>c'. push_chunks chunks outcome (on_chunk blockSize frameSize emit) (c, s)
         = Some (if fst (run_emit emit ps s) = None then outcome else fst (run_emit emit ps s), c',
             snd (run_emit emit ps s))
      \<and> (fst (run_emit emit ps s) = None \<longrightarrow> holds_at c' pos' rest)"
  using assms(3-5)
proof (induction chunks arbitrary: c pos d ps s)
  case Nil
  then have "ps = []" "pos' = pos" "rest = d" by simp_all
  with Nil.prems(1) show ?case by auto
next
  case (Cons chunk chunks)
  obtain qs p1 r1 where q: "full_frames blockSize frameSize pos (d @ chunk) = (qs, p1, r1)"
    by (metis prod_cases3)
  obtain qs' p2 r2 where q': "full_frames blockSize frameSize p1 (r1 @ concat chunks) = (qs', p2, r2)"
    by (metis prod_cases3)
  have all: "ps = qs @ qs'" "p2 = pos'" "r2 = rest"
    using full_frames_append [OF assms(1,2) q q'] Cons.prems(2) by simp_all
  have idle: "full_frames blockSize frameSize p1 r1 = ([], p1, r1)"
    by (rule full_frames_idle) (rule full_frames_rest [OF assms(1,2) q])
  obtain c' where c': "on_chunk blockSize frameSize emit chunk (c, s)
         = Some (fst (run_emit emit qs s), c', snd (run_emit emit qs s))"
      "fst (run_emit emit qs s) = None \<longrightarrow> holds_at c' p1 r1"
    using on_chunk_spec [OF assms(1,2) Cons.prems(1) q, of emit s] by (elim exE conjE) (rule that)
  obtain er s' where run: "run_emit emit qs s = (er, s')" by fastforce
  show ?case
  proof (cases er)
    case None
    with run c' have h: "holds_at c' p1 r1" by simp
    have f: "full_frames blockSize frameSize p1 (r1 @ concat chunks) = (qs', pos', rest)"
      using q' all by simp
    obtain c2 where "push_chunks chunks outcome (on_chunk blockSize frameSize emit) (c', s')
        = Some (if fst (run_emit emit qs' s') = None then outcome else fst (run_emit emit qs' s'),
            c2, snd (run_emit emit qs' s'))"
      "fst (run_emit emit qs' s') = None \<longrightarrow> holds_at c2 pos' rest"
      using Cons.IH [OF h f idle, of s'] by (elim exE conjE) (rule that)
    then show ?thesis unfolding all(1) run_emit_append run using c'(1) None run by simp
  next
    case (Some e)
    then show ?thesis unfolding all(1) run_emit_append run using c'(1) run by simp
  qed
qed

definition last_piece :: "nat \<Rightarrow> nat \<Rightarrow> bytes \<Rightarrow> FramePiece list" where
  "last_piece blockSize pos rest = (if rest = [] then []
     else [\<lparr>fp_BlockIdx = pos div blockSize, fp_FrameOff = pos mod blockSize, fp_Payload = rest,
        fp_LastInBlock = True\<rparr>])"

lemma flush_spec:
  assumes "holds_at c pos rest" and "length rest < frame_room blockSize frameSize pos"
  shows "flush blockSize frameSize emit c s = Some (run_emit emit (last_piece blockSize pos rest) s)"
proof (cases "rest = []")
  case True
  with assms(1) show ?thesis
    by (simp add: flush.simps [of _ _ _ c] avail_holds last_piece_def)
next
  case False
  let ?e = "emitPiece blockSize (length rest) c"
  have a: "avail c = length rest" using assms(1) by (rule avail_holds)
  have t: "min (targetLen blockSize frameSize c) (avail c) = length rest"
    using assms a by (simp add: targetLen_eq holds_at_def)
  have h: "holds_at (snd ?e) (pos + length rest) []"
    using emitPiece_holds(2) [OF assms(1), of "length rest"] by simp
  have "fst ?e\<lparr>fp_LastInBlock := True\<rparr> = hd (last_piece blockSize pos rest)"
    using emitPiece_holds(1) [OF assms(1), of "length rest"] False by (simp add: last_piece_def)
  with h False a t show ?thesis
    by (simp add: flush.simps [of _ _ _ c] flush.simps [of _ _ _ "snd ?e"] avail_holds Let_def
        case_prod_beta last_piece_def split: option.splits)
qed

lemma frames_of_full:
  assumes "0 < blockSize" and "0 < frameSize"
    and "full_frames blockSize frameSize pos d = (ps, pos', rest)"
  shows "frames_of blockSize frameSize pos d = ps @ last_piece blockSize pos' rest"
  using assms
proof (induction blockSize frameSize pos d arbitrary: ps rule: full_frames.induct)
  case (1 blockSize frameSize pos d)
  let ?t = "frame_room blockSize frameSize pos"
  have t: "0 < ?t" using "1.prems"(1,2) by (rule frame_room_pos)
  show ?case
  proof (cases "length d < ?t")
    case True
    with "1.prems" have e: "ps = []" "pos' = pos" "rest = d" by (auto simp: full_frames_idle)
    with True "1.prems"(1,2) show ?thesis
      by (subst frames_of.simps) (simp add: last_piece_def Let_def min_absorb2)
  next
    case False
    obtain qs p r where q: "full_frames blockSize frameSize (pos + ?t) (drop ?t d) = (qs, p, r)"
      by (metis prod_cases3)
    with full_frames_step [OF "1.prems"(1,2) False refl q] "1.prems"(3) have "p = pos'" "r = rest" by auto
    with "1.IH" [of ?t, OF _ refl "1.prems"(1,2)] q False "1.prems"(1,2)
    have "frames_of blockSize frameSize (pos + ?t) (drop ?t d) = qs @ last_piece blockSize pos' rest"
      by auto
    moreover have "d \<noteq> []" using False t by auto
    ultimately show ?thesis
      using "1.prems" False full_frames_step [OF "1.prems"(1,2) False refl q]
      by (simp add: frames_of.simps [of _ _ _ d] Let_def min_def not_less)
  qed
qed

lemma ReChunk_spec:
  assumes "0 < blockSize" and "0 < frameSize"
  shows "ReChunk (push_chunks chunks None) blockSize frameSize emit s
    = Some (run_emit emit (frames_of blockSize frameSize 0 (concat chunks)) s)"
proof -
  let ?c = "\<lparr>ck_pos = 0, ck_buf = [], ck_start = 0\<rparr>"
  obtain ps pos' rest where f: "full_frames blockSize frameSize 0 (concat chunks) = (ps, pos', rest)"
    by (metis prod_cases3)
  have h: "holds_at ?c 0 []" by (simp add: holds_at_def)
  have i: "full_frames blockSize frameSize 0 [] = ([], 0, [])"
    by (rule full_frames_idle) (simp add: frame_room_pos assms)
  obtain c' where c': "push_chunks chunks None (on_chunk blockSize frameSize emit) (?c, s)
      = Some (fst (run_emit emit ps s), c', snd (run_emit emit ps s))"
    "fst (run_emit emit ps s) = None \<longrightarrow> holds_at c' pos' rest"
    using push_chunks_spec [OF assms h _ i, of chunks ps pos' rest None emit s] f by auto
  obtain er s' where run: "run_emit emit ps s = (er, s')" by fastforce
  show ?thesis
  proof (cases er)
    case None
    with c' run have "holds_at c' pos' rest" by simp
    from flush_spec [OF this full_frames_rest [OF assms f]] show ?thesis
      using c' run None by (simp add: ReChunk_def frames_of_full [OF assms f] run_emit_append)
  next
    case (Some e)
    with c' run show ?thesis
      by (simp add: ReChunk_def frames_of_full [OF assms f] run_emit_append)
  qed
qed

section \<open>What the pieces are\<close>

text \<open>The pieces of \<open>data\<close> from offset \<open>pos\<close> on: in order, contiguous, non-empty, never larger
  than a frame and never across a block boundary.\<close>

fun pieces_at :: "nat \<Rightarrow> nat \<Rightarrow> nat \<Rightarrow> FramePiece list \<Rightarrow> bool" where
  "pieces_at blockSize frameSize pos [] = True"
| "pieces_at blockSize frameSize pos (p # ps) =
     (fp_BlockIdx p * blockSize + fp_FrameOff p = pos
      \<and> 0 < length (fp_Payload p) \<and> length (fp_Payload p) \<le> frameSize
      \<and> fp_FrameOff p + length (fp_Payload p) \<le> blockSize
      \<and> (fp_FrameOff p + length (fp_Payload p) = blockSize \<longrightarrow> fp_LastInBlock p)
      \<and> (fp_LastInBlock p \<longrightarrow> fp_FrameOff p + length (fp_Payload p) = blockSize \<or> ps = [])
      \<and> pieces_at blockSize frameSize (pos + length (fp_Payload p)) ps)"

lemma concat_frames_of:
  "0 < blockSize \<Longrightarrow> 0 < frameSize \<Longrightarrow>
     concat (map fp_Payload (frames_of blockSize frameSize pos d)) = d"
  by (induction blockSize frameSize pos d rule: frames_of.induct)
    (subst frames_of.simps, auto simp: Let_def)

lemma frames_of_pieces:
  "0 < blockSize \<Longrightarrow> 0 < frameSize \<Longrightarrow> pieces_at blockSize frameSize pos (frames_of blockSize frameSize pos d)"
proof (induction blockSize frameSize pos d rule: frames_of.induct)
  case (1 blockSize frameSize pos d)
  let ?r = "frame_room blockSize frameSize pos"
  let ?t = "min ?r (length d)"
  have r: "0 < ?r" "?r \<le> frameSize" "pos mod blockSize + ?r \<le> blockSize"
    using 1(2,3) frame_room_pos [of blockSize frameSize pos] mod_less_divisor [of blockSize pos]
    by (auto simp: frame_room_def min_def)
  show ?case
  proof (cases "d = []")
    case False
    then have t: "0 < ?t" "?t \<le> length d" using r by simp_all
    have "pieces_at blockSize frameSize (pos + ?t) (frames_of blockSize frameSize (pos + ?t) (drop ?t d))"
      using 1 False by auto
    moreover have "frames_of blockSize frameSize pos d = \<lparr>fp_BlockIdx = pos div blockSize,
         fp_FrameOff = pos mod blockSize, fp_Payload = take ?t d,
         fp_LastInBlock = (pos mod blockSize + ?t = blockSize \<or> length d < ?r)\<rparr>
        # frames_of blockSize frameSize (pos + ?t) (drop ?t d)"
      using 1(2,3) False by (subst frames_of.simps) (simp add: Let_def)
    ultimately show ?thesis using r t by (auto simp: min_def)
  qed simp
qed

section \<open>The in-memory source streams its data\<close>

fun source_chunks :: "nat \<Rightarrow> nat \<Rightarrow> bytes \<Rightarrow> bytes list" where
  "source_chunks 0 n d = []"
| "source_chunks (Suc fuel) n d = (if d = [] then [] else take n d # source_chunks fuel n (drop n d))"

lemma concat_source_chunks: "0 < n \<Longrightarrow> length d \<le> fuel \<Longrightarrow> concat (source_chunks fuel n d) = d"
  by (induction fuel n d rule: source_chunks.induct) auto

lemma bytes_loop_chunks:
  assumes "0 < n" and "bs_chunk b = int n" and "length (bs_data b) - i \<le> fuel"
  shows "bytes_loop b (int i) fn s
    = push_chunks (source_chunks fuel n (drop i (bs_data b))) None fn s"
  using assms(3)
proof (induction fuel arbitrary: i s)
  case 0
  then show ?case by (simp add: bytes_loop.simps [of b])
next
  case (Suc fuel)
  show ?case
  proof (cases "length (bs_data b) \<le> i")
    case True
    then show ?thesis by (simp add: bytes_loop.simps [of b])
  next
    case False
    have n: "nat (min (int i + int n) (int (length (bs_data b))) - int i)
        = min n (length (bs_data b) - i)" using False by linarith
    have t: "take (min n (length (bs_data b) - i)) (drop i (bs_data b)) = take n (drop i (bs_data b))"
      by (simp add: min_def)
    have IH: "bytes_loop b (int i + int n) fn s'
        = push_chunks (source_chunks fuel n (drop n (drop i (bs_data b)))) None fn s'" for s'
      using Suc.IH [of "i + n" s'] Suc.prems False assms(1) by (simp add: add.commute)
    show ?thesis using False assms(2)
      by (subst bytes_loop.simps) (simp add: Let_def n t IH del: drop_drop split: option.splits prod.splits)
  qed
qed

lemma bytesSource_Stream_chunks:
  obtains chunks where "concat chunks = data"
    and "\<And>fn s. bytesSource_Stream (BytesSource data meta chunk) fn s = push_chunks chunks None fn s"
proof
  let ?b = "BytesSource data meta chunk"
  let ?n = "nat (bs_chunk ?b)"
  have n: "0 < ?n" "bs_chunk ?b = int ?n"
    by (simp_all add: BytesSource_def defaultSourceChunk_def)
  show "concat (source_chunks (length data) ?n data) = data"
    using n(1) by (simp add: concat_source_chunks)
  show "bytesSource_Stream ?b fn s = push_chunks (source_chunks (length data) ?n data) None fn s" for fn s
    using bytes_loop_chunks [OF n, of 0 "length data" fn s] by (simp add: bytesSource_Stream_def BytesSource_def)
qed

section \<open>One piece per block\<close>

text \<open>With the frame as large as the block, as the sender calls it, the pieces are the blocks.\<close>

lemma blocks_count_step:
  assumes "0 < n" and "d \<noteq> []"
  shows "(length d + n - 1) div n = Suc ((length (drop n d) + n - 1) div n)"
proof (cases "n \<le> length d")
  case True
  then have "length d + n - 1 = (length d - n + n - 1) + n" using assms(1) by simp
  then show ?thesis using assms(1) by (simp only: div_add_self2 length_drop)
next
  case False
  have "0 < length d" using assms(2) by simp
  then have e: "length d + n - 1 = (length d - 1) + n" by linarith
  have "(length d - 1) div n = 0" using False by simp
  then have "((length d - 1) + n) div n = 1" using assms(1) div_add_self2 [of n "length d - 1"] by linarith
  moreover have "(length (drop n d) + n - 1) div n = 0" using False assms(1) by simp
  ultimately show ?thesis by (simp only: e)
qed

lemma frames_of_blocks:
  assumes "0 < n" and "pos = k * n"
  shows "frames_of n n pos d
     = map (\<lambda>i. \<lparr>fp_BlockIdx = k + i, fp_FrameOff = 0, fp_Payload = take n (drop (i * n) d),
         fp_LastInBlock = True\<rparr>) [0..<(length d + n - 1) div n]"
  using assms
proof (induction "length d" arbitrary: k pos d rule: less_induct)
  case less
  show ?case
  proof (cases "d = []")
    case False
    have IH: "frames_of n n (pos + min n (length d)) (drop (min n (length d)) d)
      = map (\<lambda>i. \<lparr>fp_BlockIdx = Suc k + i, fp_FrameOff = 0,
           fp_Payload = take n (drop (i * n) (drop n d)), fp_LastInBlock = True\<rparr>)
         [0..<(length (drop n d) + n - 1) div n]"
    proof (cases "n \<le> length d")
      case True
      then show ?thesis
        using less.hyps [of "drop n d" "pos + n" "Suc k"] less.prems False by (simp add: min_absorb1)
    next
      case False
      with less.prems show ?thesis by (simp add: min_def)
    qed
    have "frames_of n n pos d = \<lparr>fp_BlockIdx = k, fp_FrameOff = 0, fp_Payload = take n d,
        fp_LastInBlock = True\<rparr> # frames_of n n (pos + min n (length d)) (drop (min n (length d)) d)"
      using less.prems False by (subst frames_of.simps) (auto simp: Let_def frame_room_def min_def)
    then show ?thesis
      unfolding blocks_count_step [OF less.prems(1) False] upt_conv_Cons [OF zero_less_Suc] list.map IH
      by (simp add: map_Suc_upt [symmetric] add.commute del: upt_Suc)
  qed (use less in simp)
qed

section \<open>Properties\<close>

text \<open>C26: for positive sizes ReChunk always returns, and what it does depends only on the bytes of
  the stream and not on how they were cut into chunks: the emit callback sees exactly the pieces
  of the reference definition, in order, up to its first error, which is returned.\<close>

theorem rechunk_equals_reference:
  assumes "0 < blockSize" and "0 < frameSize"
  shows "ReChunk (push_chunks chunks None) blockSize frameSize emit s
    = Some (run_emit emit (frames_of blockSize frameSize 0 (concat chunks)) s)"
  using assms by (rule ReChunk_spec)

definition collect :: "FramePiece \<Rightarrow> FramePiece list \<Rightarrow> err option \<times> FramePiece list" where
  "collect p ps = (None, ps @ [p])"

theorem rechunk_equals_reference_witness:
  "(0 :: nat) < 4 \<and> (0 :: nat) < 3
   \<and> ReChunk (push_chunks [[1, 2], [3, 4, 5]] None) 4 3 collect []
    = Some (run_emit collect (frames_of 4 3 0 (concat [[1, 2], [3, 4, 5]])) [])"
  using rechunk_equals_reference [of 4 3 "[[1, 2], [3, 4, 5]]" collect "[]"] by simp

text \<open>the pieces lose and invent nothing: their payloads concatenate to the stream, every piece
  lies inside one block at the position it claims, is no larger than a frame, and a piece that
  fills its block carries the last-in-block mark, which no other piece but the final one does.\<close>

theorem rechunk_pieces_exact:
  assumes "0 < blockSize" and "0 < frameSize"
  shows "concat (map fp_Payload (frames_of blockSize frameSize 0 d)) = d
    \<and> pieces_at blockSize frameSize 0 (frames_of blockSize frameSize 0 d)
    \<and> ReChunk (push_chunks [d] None) blockSize frameSize collect []
        = Some (None, frames_of blockSize frameSize 0 d)"
proof -
  have "run_emit collect ps qs = (None, qs @ ps)" for ps qs
    by (induction ps arbitrary: qs) (simp_all add: collect_def)
  then show ?thesis
    using assms by (simp add: ReChunk_spec concat_frames_of frames_of_pieces)
qed

theorem rechunk_pieces_exact_witness:
  "(0 :: nat) < 4 \<and> (0 :: nat) < 4
   \<and> concat (map fp_Payload (frames_of 4 4 0 [1, 2, 3, 4, 5])) = [1, 2, 3, 4, 5]"
  using rechunk_pieces_exact [of 4 4 "[1, 2, 3, 4, 5]"] by simp

text \<open>the last-in-block mark is missing when the stream ends exactly on a frame boundary inside
  a block: four bytes cut with blocks of eight and frames of four give one unmarked piece, although
  it is the last frame of its block.\<close>

theorem rechunk_unmarked_final_piece:
  "ReChunk (push_chunks [[1, 2, 3, 4]] None) 8 4 collect []
    = Some (None, [\<lparr>fp_BlockIdx = 0, fp_FrameOff = 0, fp_Payload = [1, 2, 3, 4],
        fp_LastInBlock = False\<rparr>])"
  by (simp add: ReChunk_spec frames_of.simps [of 8 4 0] frame_room_def collect_def)

text \<open>C31: streaming an in-memory source, whatever the chunk size, pushes exactly its data, and
  re-chunking it gives the pieces of the data.\<close>

theorem bytes_source_rechunk:
  assumes "0 < blockSize" and "0 < frameSize"
  shows "ReChunk (bytesSource_Stream (BytesSource data meta chunk)) blockSize frameSize emit s
    = Some (run_emit emit (frames_of blockSize frameSize 0 data) s)"
proof -
  obtain chunks where "concat chunks = data" and
    "\<And>fn s :: chunk_state \<times> 'a. bytesSource_Stream (BytesSource data meta chunk) fn s
       = push_chunks chunks None fn s"
    by (rule bytesSource_Stream_chunks [of data meta chunk]) blast
  with ReChunk_spec [OF assms, of chunks emit s] show ?thesis by (simp add: ReChunk_def)
qed

theorem bytes_source_rechunk_witness:
  "ReChunk (bytesSource_Stream (BytesSource [7, 8, 9] \<lparr>fm_Name = ''a'', fm_Size = 3, fm_Mime = '''',
     fm_LastModified = 0\<rparr> 2)) 4 3 collect [] = Some (run_emit collect (frames_of 4 3 0 [7, 8, 9]) [])"
  by (rule bytes_source_rechunk) simp_all

end
