(* ===== verification/Ports.thy ===== *)
theory Ports
  imports Chunker Manifest
begin

text \<open>
  The ports the transfer engine talks to (\<^verbatim>\<open>transfer_ports.go\<close>): the Sink and Destination
  interfaces as records of functions on a state of the world, the single-sink adapter, the
  in-memory sink, and the streaming SHA-256 digest with its serialised state.
\<close>

section \<open>The streaming digest\<close>

text \<open>The state of Go's \<^verbatim>\<open>sha256\<close> hash: the chaining value, the pending bytes of an incomplete
  64-byte block, and the number of bytes written, as a 64-bit counter.\<close>

record sha256Digest =
  sd_h :: "32 word list"
  sd_x :: bytes
  sd_len :: "64 word"

definition NewSHA256Digest :: sha256Digest where
  "NewSHA256Digest = \<lparr>sd_h = sha_H0, sd_x = [], sd_len = 0\<rparr>"

definition Update :: "sha256Digest \<Rightarrow> bytes \<Rightarrow> sha256Digest" where
  "Update d b =
     (let data = sd_x d @ b; n = length data div 64
      in \<lparr>sd_h = sha_blocks n (sd_h d) data, sd_x = drop (64 * n) data,
          sd_len = sd_len d + of_nat (length b)\<rparr>)"

definition digest_sum :: "sha256Digest \<Rightarrow> bytes" where
  "digest_sum d =
     (let p = sd_x d @ [0x80] @ replicate ((119 - length (sd_x d) mod 64) mod 64) 0
            @ put64 (8 * sd_len d)
      in concat (map put32 (sha_blocks (length p div 64) (sd_h d) p)))"

definition HexDigest :: "sha256Digest \<Rightarrow> string" where
  "HexDigest d = hex_encode (digest_sum d)"

text \<open>The documented binary state: the identifier, the chaining value, the pending bytes padded
  with zeros to a block, and the length.\<close>

definition state_magic :: bytes where
  "state_magic = bytes_of_string ''sha'' @ [3]"

definition MarshalState :: "sha256Digest \<Rightarrow> (err, bytes) result" where
  "MarshalState d = Inr (state_magic @ concat (map put32 (sd_h d)) @ sd_x d
     @ replicate (64 - length (sd_x d)) 0 @ put64 (sd_len d))"

definition RestoreSHA256Digest :: "bytes \<Rightarrow> (err, sha256Digest) result" where
  "RestoreSHA256Digest state =
     (if length state < 4 \<or> take 4 state \<noteq> state_magic
      then Inl (Plain ''crypto/sha256: invalid hash state identifier'')
      else if length state \<noteq> 108 then Inl (Plain ''crypto/sha256: invalid hash state size'')
      else let len = get64 (drop 100 state)
        in Inr \<lparr>sd_h = words_be 8 (drop 4 state),
             sd_x = take (unat len mod 64) (drop 36 state), sd_len = len\<rparr>)"

definition digest_ok :: "sha256Digest \<Rightarrow> bool" where
  "digest_ok d \<longleftrightarrow> length (sd_h d) = 8 \<and> length (sd_x d) = unat (sd_len d) mod 64"

text \<open>The digest that has been fed exactly \<open>m\<close>.\<close>

definition digest_of :: "bytes \<Rightarrow> sha256Digest" where
  "digest_of m = \<lparr>sd_h = sha_blocks (length m div 64) sha_H0 m,
     sd_x = drop (64 * (length m div 64)) m, sd_len = of_nat (length m)\<rparr>"

lemma sha_blocks_add:
  "sha_blocks (m + n) h bs = sha_blocks n (sha_blocks m h bs) (drop (64 * m) bs)"
  by (induction m arbitrary: h bs) (simp_all add: add.commute)

lemma sha_blocks_prefix:
  "64 * n \<le> length bs \<Longrightarrow> sha_blocks n h (bs @ cs) = sha_blocks n h bs"
proof (induction n arbitrary: h bs)
  case (Suc n)
  then have "take 64 (bs @ cs) = take 64 bs" "drop 64 (bs @ cs) = drop 64 bs @ cs" by simp_all
  with Suc show ?case by simp
qed simp

lemma div_split: "(n :: nat) = 64 * k + r \<Longrightarrow> n div 64 = k + r div 64"
  by simp

lemma Update_digest_of: "Update (digest_of m) b = digest_of (m @ b)"
proof -
  let ?k = "length m div 64"
  let ?r = "drop (64 * ?k) m @ b"
  have k: "64 * ?k \<le> length m" by simp
  have r: "length ?r = length (m @ b) - 64 * ?k" by simp
  have n: "length (m @ b) div 64 = ?k + length ?r div 64" by (rule div_split) simp
  have "sha_blocks (length (m @ b) div 64) sha_H0 (m @ b)
      = sha_blocks (length ?r div 64) (sha_blocks ?k sha_H0 m) ?r"
    unfolding n sha_blocks_add using sha_blocks_prefix [OF k] by simp
  moreover have "drop (64 * (length (m @ b) div 64)) (m @ b) = drop (64 * (length ?r div 64)) ?r"
    unfolding n distrib_left by (simp add: add.commute)
  ultimately show ?thesis by (simp add: Update_def digest_of_def Let_def)
qed

lemma nat_be_mod: "nat_be n (x mod 256 ^ n) = nat_be n x"
proof (induction n arbitrary: x)
  case (Suc n)
  have e: "x mod 256 ^ Suc n = 256 * (x div 256 mod 256 ^ n) + x mod 256"
    unfolding power_Suc by (rule mod_mult2_eq)
  have "(256 * (x div 256 mod 256 ^ n) + x mod 256) div 256 = x div 256 mod 256 ^ n"
    and "(256 * (x div 256 mod 256 ^ n) + x mod 256) mod 256 = x mod 256" by simp_all
  with Suc show ?case unfolding e by simp
qed simp

lemma put64_of_nat: "put64 (of_nat n) = nat_be 8 n"
  using nat_be_mod [of 8 n] by (simp add: put64_def unat_of_nat take_bit_eq_mod)

lemma digest_sum_digest_of: "digest_sum (digest_of m) = sha256 m"
proof -
  let ?k = "length m div 64"
  let ?x = "drop (64 * ?k) m"
  let ?tail = "[0x80] @ replicate ((119 - length m mod 64) mod 64) 0 @ nat_be 8 (8 * length m)"
  have k: "64 * ?k \<le> length m" by simp
  have x: "length ?x = length m mod 64" by (simp add: minus_mult_div_eq_mod)
  have n: "length (m @ ?tail) div 64 = ?k + length (?x @ ?tail) div 64"
    by (rule div_split) (use k in simp)
  have "sha_blocks (length (m @ ?tail) div 64) sha_H0 (m @ ?tail)
      = sha_blocks (length (?x @ ?tail) div 64) (sha_blocks ?k sha_H0 m) (?x @ ?tail)"
    unfolding n sha_blocks_add using sha_blocks_prefix [OF k, of sha_H0 ?tail] by simp
  moreover have "put64 (8 * of_nat (length m)) = nat_be 8 (8 * length m)"
    using put64_of_nat [of "8 * length m"] by simp
  ultimately show ?thesis
    by (simp only: digest_sum_def digest_of_def sha256_def sha_pad_def Let_def x mod_mod_trivial
        sha256Digest.simps)
qed

lemma NewSHA256Digest_digest_of: "NewSHA256Digest = digest_of []"
  by (simp add: NewSHA256Digest_def digest_of_def)

lemma HexDigest_digest_of [simp]: "HexDigest (digest_of m) = hex_encode (sha256 m)"
  by (simp add: HexDigest_def digest_sum_digest_of)

lemma digest_ok_digest_of: "digest_ok (digest_of m)"
proof -
  have "(length m mod 18446744073709551616) mod 64 = length m mod (64 :: nat)"
    by (rule mod_mod_cancel) simp
  then show ?thesis
    by (simp add: digest_ok_def digest_of_def length_sha_blocks sha_H0_def minus_mult_div_eq_mod
        unat_of_nat take_bit_eq_mod)
qed

lemma words_be_put32: "words_be (length ws) (concat (map put32 ws) @ rest) = ws"
  by (induction ws) simp_all

lemma length_concat_put32 [simp]: "length (concat (map put32 ws)) = 4 * length ws"
  by (induction ws) simp_all

lemma restore_marshal:
  assumes "digest_ok d" and "MarshalState d = Inr state"
  shows "RestoreSHA256Digest state = Inr d"
proof -
  let ?w = "concat (map put32 (sd_h d))"
  have x: "length (sd_x d) < 64" "length (sd_h d) = 8" using assms(1) by (simp_all add: digest_ok_def)
  have m: "length state_magic = 4" by (simp add: state_magic_def)
  have s: "state = state_magic @ ?w @ sd_x d @ replicate (64 - length (sd_x d)) 0 @ put64 (sd_len d)"
    using assms(2) by (simp add: MarshalState_def)
  have d4: "drop 4 state = ?w @ sd_x d @ replicate (64 - length (sd_x d)) 0 @ put64 (sd_len d)"
    using m s by simp
  have "drop 32 (drop 4 state) = sd_x d @ replicate (64 - length (sd_x d)) 0 @ put64 (sd_len d)"
    unfolding d4 using x by simp
  then have d36: "drop 36 state = sd_x d @ replicate (64 - length (sd_x d)) 0 @ put64 (sd_len d)"
    by simp
  have "drop 64 (drop 36 state) = put64 (sd_len d)" unfolding d36 using x by simp
  then have d100: "drop 100 state = put64 (sd_len d)" by simp
  have len: "length state = 108" "take 4 state = state_magic" using s m x by simp_all
  have w: "words_be 8 (drop 4 state) = sd_h d"
    unfolding d4 using words_be_put32 [of "sd_h d"] x by simp
  have "take (unat (sd_len d) mod 64) (drop 36 state) = sd_x d"
    unfolding d36 using assms(1) by (simp add: digest_ok_def)
  with len w d100 show ?thesis by (simp add: RestoreSHA256Digest_def Let_def)
qed

text \<open>What the engine relies on in a Digest: feeding is concatenation, and the digest of what was
  fed is a function of the bytes alone.\<close>

locale digest_port =
  fixes fresh :: 'd and feed :: "'d \<Rightarrow> bytes \<Rightarrow> 'd" and hex :: "'d \<Rightarrow> string"
    and fed :: "bytes \<Rightarrow> 'd" and hash :: "bytes \<Rightarrow> string"
  assumes fresh_fed: "fresh = fed []"
    and feed_fed: "feed (fed m) b = fed (m @ b)"
    and hex_fed: "hex (fed m) = hash m"
begin

lemma feed_all: "foldl feed (fed m) chunks = fed (m @ concat chunks)"
  by (induction chunks arbitrary: m) (simp_all add: feed_fed)

lemma hex_feed_all: "hex (foldl feed fresh chunks) = hash (concat chunks)"
  by (simp add: fresh_fed feed_all hex_fed)

end

interpretation sha: digest_port NewSHA256Digest Update HexDigest digest_of
    "\<lambda>m. hex_encode (sha256 m)"
  by unfold_locales (simp_all add: NewSHA256Digest_digest_of Update_digest_of)

section \<open>Sizing and states\<close>

definition DefaultBlockBytes :: int where "DefaultBlockBytes = 1024 * 1024"
definition DefaultFrameBytes :: int where "DefaultFrameBytes = 16 * 1024"
definition DefaultInflightBlocks :: nat where "DefaultInflightBlocks = 8"

datatype TransferState = TransferRunning | TransferPaused | TransferCanceled

text \<open>A file source: its metadata and, for each call of \<^verbatim>\<open>Stream\<close>, the chunks that call pushes
  and the outcome it ends with.\<close>

record FileSource =
  fs_Meta :: FileMeta
  fs_Stream :: "nat \<Rightarrow> bytes list \<times> err option"

section \<open>Sinks and destinations\<close>

text \<open>A fallible call on the world outside, of type \<open>'w\<close>: an optional error and the next world.\<close>

type_synonym 'w call = "'w \<Rightarrow> err option \<times> 'w"

text \<open>The interface \<^verbatim>\<open>Sink\<close>, with the optional capability \<^verbatim>\<open>DigestStateSink\<close>.\<close>

record 'w Sink =
  sk_Write :: "int \<Rightarrow> bytes \<Rightarrow> 'w call"
  sk_Close :: "'w call"
  sk_Abort :: "string \<Rightarrow> 'w call"
  sk_SetDigestState :: "(bytes option \<Rightarrow> 'w call) option"

record 'w Destination =
  d_Prepare :: "Manifest \<Rightarrow> 'w call"
  d_Open :: "FileEntry \<Rightarrow> 'w \<Rightarrow> (err, 'w Sink) result \<times> 'w"
  d_Close :: "'w call"
  d_Abort :: "string \<Rightarrow> 'w call"

text \<open>The cell of a \<^verbatim>\<open>singleSinkDestination\<close> object; a world has one.\<close>

record World =
  w_opened :: bool

definition SingleSinkDestination :: "'a World_scheme Sink \<Rightarrow> 'a World_scheme Destination" where
  "SingleSinkDestination sink =
     \<lparr>d_Prepare = (\<lambda>manifest w. (if length (mf_Files manifest) \<noteq> 1
          then Some (Plain ''single sink cannot receive multiple files'') else None, w)),
      d_Open = (\<lambda>_ w. if w_opened w then (Inl (Plain ''single sink opened more than once''), w)
          else (Inr sink, w\<lparr>w_opened := True\<rparr>)),
      d_Close = (\<lambda>w. (None, w)),
      d_Abort = sk_Abort sink\<rparr>"

section \<open>The in-memory sink\<close>

record memChunk =
  mc_offset :: int
  mc_bytes :: bytes

record MemorySink =
  ms_chunks :: "memChunk list"
  ms_closed :: bool
  ms_aborted :: bool
  ms_reason :: string

definition NewMemorySink :: MemorySink where
  "NewMemorySink = \<lparr>ms_chunks = [], ms_closed = False, ms_aborted = False, ms_reason = ''''\<rparr>"

definition MemorySink_Write :: "int \<Rightarrow> bytes \<Rightarrow> MemorySink \<Rightarrow> err option \<times> MemorySink" where
  "MemorySink_Write offset bs s =
     (if ms_closed s \<or> ms_aborted s then (Some (Plain ''write after close/abort''), s)
      else (None, s\<lparr>ms_chunks := ms_chunks s @ [\<lparr>mc_offset = offset, mc_bytes = bs\<rparr>]\<rparr>))"

definition MemorySink_Close :: "MemorySink \<Rightarrow> err option \<times> MemorySink" where
  "MemorySink_Close s = (None, s\<lparr>ms_closed := True\<rparr>)"

definition MemorySink_Abort :: "string \<Rightarrow> MemorySink \<Rightarrow> err option \<times> MemorySink" where
  "MemorySink_Abort reason s =
     (None, s\<lparr>ms_aborted := True, ms_reason := (if reason = '''' then ''aborted'' else reason)\<rparr>)"

definition IsClosed :: "MemorySink \<Rightarrow> bool" where "IsClosed s = ms_closed s"
definition AbortReason :: "MemorySink \<Rightarrow> string" where "AbortReason s = ms_reason s"

text \<open>\<^verbatim>\<open>copy(out[off:], bs)\<close> for an offset inside \<open>out\<close>.\<close>

definition copy_at :: "nat \<Rightarrow> 'a list \<Rightarrow> 'a list \<Rightarrow> 'a list" where
  "copy_at off bs out = take off out @ take (length out - off) bs @ drop (off + length bs) out"

definition mem_size :: "memChunk list \<Rightarrow> int" where
  "mem_size cs = fold (\<lambda>c sz. let e = mc_offset c + int (length (mc_bytes c))
     in if sz < e then e else sz) cs 0"

text \<open>A negative offset makes Go's slice expression panic; the engine never passes one.\<close>

definition MemorySink_Bytes :: "MemorySink \<Rightarrow> bytes option" where
  "MemorySink_Bytes s =
     (if list_ex (\<lambda>c. mc_offset c < 0) (ms_chunks s) then None
      else Some (fold (\<lambda>c out. copy_at (nat (mc_offset c)) (mc_bytes c) out) (ms_chunks s)
             (replicate (nat (mem_size (ms_chunks s))) 0)))"

section \<open>What the sink holds\<close>

lemma length_copy_at [simp]:
  "off + length bs \<le> length out \<Longrightarrow> length (copy_at off bs out) = length out"
  by (simp add: copy_at_def)

text \<open>The blocks \<open>bss\<close> written back to back from offset \<open>off\<close> on.\<close>

fun chunks_at :: "int \<Rightarrow> bytes list \<Rightarrow> memChunk list" where
  "chunks_at off [] = []"
| "chunks_at off (bs # bss) = \<lparr>mc_offset = off, mc_bytes = bs\<rparr> # chunks_at (off + int (length bs)) bss"

lemma mem_size_chunks_at:
  "0 \<le> off \<Longrightarrow> fold (\<lambda>c sz. let e = mc_offset c + int (length (mc_bytes c))
     in if sz < e then e else sz) (chunks_at off bss) off = off + int (length (concat bss))"
  by (induction bss arbitrary: off) (auto simp: Let_def)

lemma chunks_at_nonneg: "0 \<le> off \<Longrightarrow> \<not> list_ex (\<lambda>c. mc_offset c < 0) (chunks_at off bss)"
  by (induction bss arbitrary: off) auto

lemma copy_at_end:
  "length xs = off \<Longrightarrow> length bs \<le> n \<Longrightarrow>
     copy_at off bs (xs @ replicate n z) = (xs @ bs) @ replicate (n - length bs) z"
  by (simp add: copy_at_def)

lemma fold_copy_chunks:
  "length xs = nat off \<Longrightarrow> 0 \<le> off \<Longrightarrow> length (concat bss) \<le> n \<Longrightarrow>
   fold (\<lambda>c out. copy_at (nat (mc_offset c)) (mc_bytes c) out) (chunks_at off bss) (xs @ replicate n z)
     = xs @ concat bss @ replicate (n - length (concat bss)) z"
proof (induction bss arbitrary: off xs n)
  case (Cons bs bss)
  have "length (xs @ bs) = nat (off + int (length bs))" using Cons.prems by (simp add: nat_add_distrib)
  with Cons.IH [of "xs @ bs" "off + int (length bs)" "n - length bs"] Cons.prems
  show ?case by (simp add: copy_at_end)
qed simp

lemma MemorySink_Bytes_chunks:
  assumes "ms_chunks s = chunks_at 0 bss"
  shows "MemorySink_Bytes s = Some (concat bss)"
proof -
  have "nat (mem_size (ms_chunks s)) = length (concat bss)"
    using mem_size_chunks_at [of 0 bss] assms by (simp add: mem_size_def)
  with fold_copy_chunks [of "[]" 0 bss "length (concat bss)" "0 :: byte"] chunks_at_nonneg [of 0 bss] assms
  show ?thesis by (simp add: MemorySink_Bytes_def)
qed

section \<open>Properties\<close>

text \<open>the streaming digest is the hash of the whole: however the bytes are split over Update
  calls, HexDigest is the hexadecimal SHA-256 of their concatenation.\<close>

theorem streaming_digest_is_sha256:
  "HexDigest (foldl Update NewSHA256Digest chunks) = hex_encode (sha256 (concat chunks))"
  by (rule sha.hex_feed_all)

text \<open>a digest checkpoint is exact: marshalling the state reached on some bytes and restoring it
  gives a digest that continues as if those bytes had been hashed again, and input that is not a
  marshalled state of the right format is refused.\<close>

theorem digest_checkpoint_resumes:
  "\<exists>state. MarshalState (foldl Update NewSHA256Digest done) = Inr state \<and> length state = 108
     \<and> (\<exists>d. RestoreSHA256Digest state = Inr d
          \<and> HexDigest (foldl Update d rest) = hex_encode (sha256 (concat done @ concat rest)))
     \<and> (\<forall>bad. length bad \<noteq> 108 \<longrightarrow> (\<exists>e. RestoreSHA256Digest bad = Inl e))"
proof -
  let ?d = "foldl Update NewSHA256Digest done"
  have d: "?d = digest_of (concat done)"
    using sha.feed_all [of "[]" "done"] by (simp add: NewSHA256Digest_digest_of)
  have ok: "digest_ok ?d" unfolding d by (rule digest_ok_digest_of)
  obtain state where s: "MarshalState ?d = Inr state" by (simp add: MarshalState_def)
  have "length state = 108" using s ok by (auto simp: MarshalState_def digest_ok_def state_magic_def)
  moreover have "HexDigest (foldl Update ?d rest) = hex_encode (sha256 (concat done @ concat rest))"
    unfolding d by (simp add: sha.feed_all sha.hex_fed)
  ultimately show ?thesis
    using s restore_marshal [OF ok s] by (auto simp: RestoreSHA256Digest_def)
qed

theorem digest_checkpoint_resumes_witness:
  "length [1, 2, 3 :: byte] \<noteq> 108 \<and> (\<exists>e. RestoreSHA256Digest [1, 2, 3] = Inl e)"
  using digest_checkpoint_resumes [of "[]" "[]"] by (auto intro: exI [of _ "[1, 2, 3]"])

text \<open>the in-memory sink reassembles contiguous writes: blocks written back to back from offset
  zero to a fresh sink read back as their concatenation, and once the sink is closed or aborted a
  write fails and changes nothing.\<close>

theorem memory_sink_reassembles:
  "(\<exists>s. foldl (\<lambda>s c. snd (MemorySink_Write (mc_offset c) (mc_bytes c) s)) NewMemorySink (chunks_at 0 bss) = s
      \<and> MemorySink_Bytes s = Some (concat bss))
   \<and> (\<forall>s off bs reason. MemorySink_Write off bs (snd (MemorySink_Close s))
        = (Some (Plain ''write after close/abort''), snd (MemorySink_Close s))
      \<and> MemorySink_Write off bs (snd (MemorySink_Abort reason s))
        = (Some (Plain ''write after close/abort''), snd (MemorySink_Abort reason s)))"
proof -
  have "ms_chunks (foldl (\<lambda>s c. snd (MemorySink_Write (mc_offset c) (mc_bytes c) s)) s cs) = ms_chunks s @ cs"
    if "\<not> ms_closed s" "\<not> ms_aborted s" for s cs
    using that
  proof (induction cs arbitrary: s)
    case (Cons c cs)
    have "snd (MemorySink_Write (mc_offset c) (mc_bytes c) s) = s\<lparr>ms_chunks := ms_chunks s @ [c]\<rparr>"
      using Cons.prems by (simp add: MemorySink_Write_def)
    with Cons.IH [of "s\<lparr>ms_chunks := ms_chunks s @ [c]\<rparr>"] Cons.prems show ?case by simp
  qed simp
  then have "ms_chunks (foldl (\<lambda>s c. snd (MemorySink_Write (mc_offset c) (mc_bytes c) s)) NewMemorySink
      (chunks_at 0 bss)) = chunks_at 0 bss" by (simp add: NewMemorySink_def)
  then show ?thesis
    by (auto simp: MemorySink_Bytes_chunks MemorySink_Write_def MemorySink_Close_def MemorySink_Abort_def)
qed

end
