(* ===== verification/Receiver.thy ===== *)
theory Receiver
  imports Messages Ports
begin

text \<open>
  The receiving side of a transfer (\<^verbatim>\<open>transfer_receiver.go\<close>).  A method that returns an error
  is a step on the receiver's state.  Calls out of the engine (the transport's \<^verbatim>\<open>Send\<close>, the
  destination and its sinks, the callbacks) act on the field \<open>r_world\<close>, whose type is a parameter,
  and are recorded with their outcome in the history field \<open>r_trace\<close>, which the code does not have
  and no definition reads.  Each exported method runs under its mutex and is one atomic step.
\<close>

section \<open>State\<close>

record ReceiveResult =
  res_Files :: "FileEntry list"
  res_Digests :: "string list"
  res_TotalSize :: int
  res_File :: FileEntry
  res_Digest :: string

record ResumeFileProgress =
  p_HaveBlocks :: int
  p_SeedDigest :: "sha256Digest option"

record ReceiverResume =
  rr_TransferID :: string
  rr_ManifestFingerprint :: string
  rr_Files :: "int \<rightharpoonup> ResumeFileProgress"

record 'w ReceiverOptions =
  ro_Send :: "bytes \<Rightarrow> 'w call"
  ro_SendDir :: DirectionalKey
  ro_RecvDir :: DirectionalKey
  ro_SendCounterStart :: "64 word"
  ro_RecvCounterStart :: "64 word"
  ro_Sink :: "'w Sink option"
  ro_Destination :: "'w Destination option"
  ro_OnProgress :: "(int \<Rightarrow> 'w \<Rightarrow> 'w) option"
  ro_OnFileProgress :: "(int \<Rightarrow> int \<Rightarrow> int \<Rightarrow> 'w \<Rightarrow> 'w) option"
  ro_OnResume :: "(int \<Rightarrow> 'w \<Rightarrow> 'w) option"
  ro_OnStateChange :: "(TransferState \<Rightarrow> 'w \<Rightarrow> 'w) option"
  ro_OnManifestSet :: "(Manifest \<Rightarrow> 'w call) option"
  ro_OnManifest :: "(FileEntry \<Rightarrow> 'w call) option"
  ro_Resume :: "ReceiverResume option"

text \<open>The calls that leave the receiver, with what they returned.\<close>

datatype event =
    Sent "64 word" ControlMsg bytes "err option"
  | Prepared Manifest "err option"
  | ManifestSet Manifest "err option"
  | ManifestFile FileEntry "err option"
  | Opened FileEntry "err option"
  | StateSet FileEntry "err option"
  | Wrote FileEntry int bytes "err option"
  | ClosedSink FileEntry "err option"
  | ClosedDestination "err option"
  | Aborted string "err option"
  | Progress int
  | FileProgress int int int
  | ResumedAt int
  | StateChange TransferState

record 'w Receiver =
  r_o :: "'w ReceiverOptions"
  r_destination :: "'w Destination option"
  r_sendCounter :: "64 word"
  r_recvCounter :: "64 word"
  r_manifest :: "Manifest option"
  r_fileIdx :: int
  r_file :: "FileEntry option"
  r_sink :: "'w Sink option"
  r_digest :: "sha256Digest option"
  r_digests :: "string list"
  r_acknowledged :: int
  r_nextBlock :: int
  r_assemblingFile :: int
  r_assembling :: int
  r_blockBuf :: "bytes option"
  r_blockReceived :: int
  r_awaitingRestart :: bool
  r_seenAhead :: "int set"
  r_nackOutstanding :: int
  r_activeResume :: "ReceiverResume option"
  r_resumeState :: "ResumeState option"
  r_settled :: bool
  r_paused :: bool
  r_result :: "ReceiveResult option"
  r_err :: "TransferError option"
  r_world :: 'w
  r_trace :: "event list"

type_synonym 'w rstep = "(err, 'w Receiver) step"

definition NewReceiver :: "'a World_scheme ReceiverOptions \<Rightarrow> 'a World_scheme \<Rightarrow> 'a World_scheme Receiver" where
  "NewReceiver opts w =
     \<lparr>r_o = opts,
      r_destination = (case (ro_Destination opts, ro_Sink opts) of
          (None, Some sink) \<Rightarrow> Some (SingleSinkDestination sink) | (d, _) \<Rightarrow> d),
      r_sendCounter = ro_SendCounterStart opts, r_recvCounter = ro_RecvCounterStart opts,
      r_manifest = None, r_fileIdx = 0, r_file = None, r_sink = None, r_digest = None,
      r_digests = [], r_acknowledged = 0, r_nextBlock = 0, r_assemblingFile = -1,
      r_assembling = -1, r_blockBuf = None, r_blockReceived = 0, r_awaitingRestart = False,
      r_seenAhead = {}, r_nackOutstanding = -1, r_activeResume = None, r_resumeState = None,
      r_settled = False, r_paused = False, r_result = None, r_err = None, r_world = w,
      r_trace = []\<rparr>"

section \<open>Calls out of the engine\<close>

definition fail_with :: "FailReason \<Rightarrow> string \<Rightarrow> 'w rstep" where
  "fail_with reason message r = (Some (Transfer (NewTransferError reason message)), r)"

definition log_event :: "event \<Rightarrow> 'w Receiver \<Rightarrow> 'w Receiver" where
  "log_event ev r = r\<lparr>r_trace := r_trace r @ [ev]\<rparr>"

definition call_out :: "'w call \<Rightarrow> (err option \<Rightarrow> event) \<Rightarrow> 'w rstep" where
  "call_out f ev r = (case f (r_world r) of (er, w) \<Rightarrow> (er, log_event (ev er) (r\<lparr>r_world := w\<rparr>)))"

text \<open>A call on the destination or a sink: its error becomes a transfer error.\<close>

definition call_sink :: "'w call \<Rightarrow> (err option \<Rightarrow> event) \<Rightarrow> 'w rstep" where
  "call_sink f ev r = (case call_out f ev r of (er, r') \<Rightarrow>
     (map_option (\<lambda>e. Transfer (asTransferError e FailSinkError)) er, r'))"

text \<open>A callback without a result, when it is set.\<close>

definition notify :: "('w \<Rightarrow> 'w) option \<Rightarrow> event \<Rightarrow> 'w Receiver \<Rightarrow> 'w Receiver" where
  "notify f ev r = (case f of None \<Rightarrow> r
     | Some g \<Rightarrow> log_event ev (r\<lparr>r_world := g (r_world r)\<rparr>))"

definition Receiver_sendControl :: "ControlMsg \<Rightarrow> 'w rstep" where
  "Receiver_sendControl msg r =
     (case EncodeControl msg of Inl e \<Rightarrow> (Some e, r)
      | Inr payload \<Rightarrow>
        (case Seal (ro_SendDir (r_o r)) (r_sendCounter r)
            \<lparr>hi_Version = FrameVersion, hi_Type = FrameType msg, hi_Flags = 0, hi_FileIdx = 0,
             hi_BlockIdx = 0, hi_FrameOff = 0\<rparr> payload of
           Inl e \<Rightarrow> (Some e, r)
         | Inr frame \<Rightarrow> call_out (ro_Send (r_o r) frame) (Sent (r_sendCounter r) msg frame)
             (r\<lparr>r_sendCounter := r_sendCounter r + 1\<rparr>)))"

section \<open>Settling\<close>

definition isSettled :: "'w Receiver \<Rightarrow> bool" where "isSettled r = r_settled r"

definition settledOK :: "'w Receiver \<Rightarrow> bool" where
  "settledOK r \<longleftrightarrow> r_settled r \<and> r_err r = None"

definition abortWith :: "TransferError \<Rightarrow> bool \<Rightarrow> 'w Receiver \<Rightarrow> 'w Receiver" where
  "abortWith te notifyPeer r =
     (if r_settled r then r
      else
        let r1 = r\<lparr>r_settled := True, r_err := Some te\<rparr>;
            r2 = (if notifyPeer then snd (Receiver_sendControl (NewFail (Reason te)) r1) else r1)
        in case r_destination r2 of None \<Rightarrow> r2
           | Some d \<Rightarrow> snd (call_out (d_Abort d (FailReason_string (Reason te)))
               (Aborted (FailReason_string (Reason te))) r2))"

definition Receiver_settle :: "ReceiveResult \<Rightarrow> 'w Receiver \<Rightarrow> 'w Receiver" where
  "Receiver_settle result r =
     (if r_settled r then r else r\<lparr>r_settled := True, r_result := Some result\<rparr>)"

definition Receiver_setPaused :: "bool \<Rightarrow> 'w Receiver \<Rightarrow> bool \<times> 'w Receiver" where
  "Receiver_setPaused paused r =
     (if r_settled r \<or> r_paused r = paused then (False, r)
      else let st = (if paused then TransferPaused else TransferRunning)
        in (True, notify (map_option (\<lambda>f. f st) (ro_OnStateChange (r_o r))) (StateChange st)
              (r\<lparr>r_paused := paused\<rparr>)))"

definition notify_canceled :: "'w Receiver \<Rightarrow> 'w Receiver" where
  "notify_canceled r = notify (map_option (\<lambda>f. f TransferCanceled) (ro_OnStateChange (r_o r)))
     (StateChange TransferCanceled) r"

section \<open>Files\<close>

definition finish_file :: "FileEntry \<Rightarrow> string \<Rightarrow> 'w Receiver \<Rightarrow> 'w Receiver" where
  "finish_file file got r =
     (notify (map_option (\<lambda>f. f (fe_Idx file) (fe_Size file) (r_acknowledged r)) (ro_OnFileProgress (r_o r)))
        (FileProgress (fe_Idx file) (fe_Size file) (r_acknowledged r))
        (r\<lparr>r_digests := (r_digests r)[nat (fe_Idx file) := got]\<rparr>))
     \<lparr>r_fileIdx := r_fileIdx r + 1, r_file := None, r_sink := None, r_digest := None\<rparr>"

definition finishCurrentFile :: "'w rstep" where
  "finishCurrentFile r =
     (case (r_file r, r_sink r, r_digest r) of
        (Some file, Some sink, Some digest) \<Rightarrow>
          let got = HexDigest digest in
          if got \<noteq> fe_FileDigest file then fail_with FailDigestMismatch ''file digest mismatch'' r
          else and_then (call_sink (sk_Close sink) (ClosedSink file))
            (\<lambda>r. (None, finish_file file got r)) r
      | _ \<Rightarrow> fail_with FailIntegrity ''no active file'' r)"

text \<open>The seed of a file, when a resume is active and covers it.\<close>

definition seed_of :: "'w Receiver \<Rightarrow> FileEntry \<Rightarrow> ResumeFileProgress option" where
  "seed_of r file = (case r_activeResume r of None \<Rightarrow> None | Some rr \<Rightarrow> rr_Files rr (fe_Idx file))"

definition start_file :: "FileEntry \<Rightarrow> 'w Receiver \<Rightarrow> 'w Receiver" where
  "start_file file r =
     (let next = (case seed_of r file of None \<Rightarrow> 0 | Some p \<Rightarrow> p_HaveBlocks p);
          digest = (case seed_of r file of None \<Rightarrow> NewSHA256Digest
            | Some p \<Rightarrow> (case p_SeedDigest p of None \<Rightarrow> NewSHA256Digest | Some d \<Rightarrow> d))
      in r\<lparr>r_file := Some file, r_nextBlock := next, r_digest := Some digest,
           r_acknowledged := r_acknowledged r
             + (if fe_Blocks file \<le> next then fe_Size file else next * fe_BlockSize file),
           r_seenAhead := {}, r_nackOutstanding := -1\<rparr>)"

text \<open>The destination is never nil here: \<^verbatim>\<open>applyManifest\<close> has checked it.\<close>

definition open_sink :: "FileEntry \<Rightarrow> 'w rstep" where
  "open_sink file r =
     (case r_destination r of None \<Rightarrow> fail_with FailSinkError ''transfer destination is required'' r
      | Some d \<Rightarrow>
        (case d_Open d file (r_world r) of (res, w) \<Rightarrow>
          (case res of
             Inl e \<Rightarrow> (Some (Transfer (asTransferError e FailSinkError)),
               log_event (Opened file (Some e)) (r\<lparr>r_world := w\<rparr>))
           | Inr sink \<Rightarrow> (None, (log_event (Opened file None) (r\<lparr>r_world := w\<rparr>))\<lparr>r_sink := Some sink\<rparr>))))"

definition begin_file :: "FileEntry \<Rightarrow> 'w rstep" where
  "begin_file file r =
     and_then (\<lambda>r. case ro_OnManifest (r_o r) of None \<Rightarrow> (None, r)
         | Some f \<Rightarrow> call_sink (f file) (ManifestFile file) r)
       (open_sink file) (start_file file r)"

text \<open>The loop over the files from \<^verbatim>\<open>fileIdx\<close> on: empty and fully held files finish at once, the
  first file with a block to receive ends the loop.\<close>

fun open_files :: "FileEntry list \<Rightarrow> 'w rstep" where
  "open_files [] r = (None, r\<lparr>r_file := None, r_sink := None, r_digest := None\<rparr>)"
| "open_files (file # rest) r =
     and_then (begin_file file)
       (\<lambda>r. if r_nextBlock r < fe_Blocks file then (None, r)
            else and_then finishCurrentFile (open_files rest) r) r"

definition openNextFile :: "'w rstep" where
  "openNextFile r =
     (case r_manifest r of None \<Rightarrow> fail_with FailIntegrity ''file opened before manifest'' r
      | Some m \<Rightarrow> open_files (drop (nat (r_fileIdx r)) (mf_Files m)) r)"

section \<open>The manifest\<close>

definition manifestsEqual :: "Manifest \<Rightarrow> Manifest \<Rightarrow> bool" where
  "manifestsEqual a b \<longleftrightarrow> mf_TransferID a = mf_TransferID b \<and> mf_TotalSize a = mf_TotalSize b
     \<and> mf_Files a = mf_Files b"

fun seed_files_ok :: "(int \<rightharpoonup> ResumeFileProgress) \<Rightarrow> FileEntry list \<Rightarrow> err option" where
  "seed_files_ok m [] = None"
| "seed_files_ok m (file # rest) =
     (case m (fe_Idx file) of None \<Rightarrow> Some (Plain ''resume seed is missing file'')
      | Some p \<Rightarrow> if p_HaveBlocks p < 0 \<or> fe_Blocks file < p_HaveBlocks p
          then Some (Plain ''resume seed haveBlocks out of range'') else seed_files_ok m rest)"

definition validateResumeSeed :: "Manifest \<Rightarrow> ReceiverResume \<Rightarrow> err option" where
  "validateResumeSeed manifest resume =
     (if \<not> isLowerHex (rr_TransferID resume) 32
      then Some (Plain ''resume seed transferId must be 32 lowercase hex characters'')
      else if \<not> isLowerHex (rr_ManifestFingerprint resume) 64
      then Some (Plain ''resume seed manifestFingerprint must be 64 lowercase hex characters'')
      else case ManifestFingerprint manifest of Inl e \<Rightarrow> Some e
        | Inr fingerprint \<Rightarrow>
          if rr_ManifestFingerprint resume \<noteq> fingerprint
          then Some (Plain ''resume seed manifest fingerprint does not match the authenticated manifest'')
          else if card (dom (rr_Files resume)) \<noteq> length (mf_Files manifest)
          then Some (Plain ''resume seed covers a different number of files'')
          else seed_files_ok (rr_Files resume) (mf_Files manifest))"

definition seed_have :: "'w Receiver \<Rightarrow> FileEntry \<Rightarrow> int" where
  "seed_have r file = (case seed_of r file of None \<Rightarrow> 0 | Some p \<Rightarrow> p_HaveBlocks p)"

definition reused_bytes :: "'w Receiver \<Rightarrow> FileEntry \<Rightarrow> int" where
  "reused_bytes r file = (let have = seed_have r file in
     if have \<le> 0 then 0 else if fe_Blocks file \<le> have then fe_Size file
     else have * fe_BlockSize file)"

definition sendResumeState :: "Manifest \<Rightarrow> 'w rstep" where
  "sendResumeState manifest r =
     (case r_resumeState r of
        Some rs \<Rightarrow> Receiver_sendControl (MResumeState rs) r
      | None \<Rightarrow>
        let files = map (\<lambda>f. \<lparr>rf_Idx = fe_Idx f, rf_HaveBlocks = seed_have r f\<rparr>) (mf_Files manifest) in
        (case ManifestFingerprint manifest of Inl e \<Rightarrow> (Some e, r)
         | Inr fingerprint \<Rightarrow>
           let rs = (NewResumeState (mf_TransferID manifest) files)\<lparr>rs_ManifestFingerprint := fingerprint\<rparr>
           in Receiver_sendControl (MResumeState rs) (r\<lparr>r_resumeState := Some rs\<rparr>)))"

text \<open>Apply the caller's seed when it names this transfer.\<close>

definition apply_seed :: "Manifest \<Rightarrow> 'w rstep" where
  "apply_seed validated r =
     (case ro_Resume (r_o r) of
        None \<Rightarrow> (None, r)
      | Some resume \<Rightarrow>
        if rr_TransferID resume \<noteq> mf_TransferID validated then (None, r)
        else case validateResumeSeed validated resume of
            Some e \<Rightarrow> fail_with FailSinkError (err_text e) r
          | None \<Rightarrow>
            let r1 = r\<lparr>r_activeResume := Some resume\<rparr>;
                reusedTotal = sum_list (map (reused_bytes r1) (mf_Files validated))
            in (None, if 0 < reusedTotal
                 then notify (map_option (\<lambda>f. f reusedTotal) (ro_OnResume (r_o r))) (ResumedAt reusedTotal) r1
                 else r1))"

definition adopt_manifest :: "Manifest \<Rightarrow> 'w Receiver \<Rightarrow> 'w Receiver" where
  "adopt_manifest validated r = r\<lparr>r_manifest := Some validated,
     r_digests := replicate (length (mf_Files validated)) '''', r_awaitingRestart := True\<rparr>"

text \<open>A transfer id opts into resumption.\<close>

definition answer_resume :: "Manifest \<Rightarrow> 'w rstep" where
  "answer_resume validated r = (if mf_TransferID validated = '''' then (None, r)
     else and_then (apply_seed validated) (sendResumeState validated) r)"

text \<open>The first manifest of the transfer.\<close>

definition accept_manifest :: "Manifest \<Rightarrow> 'w Destination \<Rightarrow> 'w rstep" where
  "accept_manifest validated d =
     and_then (call_sink (d_Prepare d validated) (Prepared validated))
     (and_then (\<lambda>r. case ro_OnManifestSet (r_o r) of None \<Rightarrow> (None, r)
         | Some f \<Rightarrow> call_sink (f validated) (ManifestSet validated) r)
     (and_then (\<lambda>r. (None, adopt_manifest validated r))
     (and_then (answer_resume validated)
     openNextFile)))"

definition applyManifest :: "bytes \<Rightarrow> 'w rstep" where
  "applyManifest payload r =
     (case DecodeControl payload of
        Inl e \<Rightarrow> fail_with FailIntegrity (err_text e) r
      | Inr (MManifest m) \<Rightarrow>
        (case ValidateManifest m of
           Inl e \<Rightarrow> fail_with FailIntegrity (err_text e) r
         | Inr validated \<Rightarrow>
           (case r_manifest r of
              Some old \<Rightarrow>
                if manifestsEqual validated old then
                  (case r_resumeState r of
                     Some rs \<Rightarrow> if mf_TransferID validated \<noteq> ''''
                       then Receiver_sendControl (MResumeState rs) r else (None, r)
                   | None \<Rightarrow> (None, r))
                else fail_with FailIntegrity ''duplicate manifest'' r
            | None \<Rightarrow>
              (case r_destination r of
                 None \<Rightarrow> fail_with FailSinkError ''transfer destination is required'' r
               | Some d \<Rightarrow> accept_manifest validated d r)))
      | Inr _ \<Rightarrow> fail_with FailIntegrity ''expected manifest'' r)"

section \<open>Blocks\<close>

text \<open>The length of block \<open>idx\<close> that the receiver allocates.\<close>

definition block_len :: "FileEntry \<Rightarrow> int \<Rightarrow> int" where
  "block_len entry idx = (let n = min (fe_BlockSize entry) MaxManifestBlockBytes;
       rem = fe_Size entry - idx * fe_BlockSize entry in if rem < n then rem else n)"

definition add_fragment :: "int \<Rightarrow> int \<Rightarrow> int \<Rightarrow> bytes \<Rightarrow> 'w rstep" where
  "add_fragment fileNumber idx off payload r =
     (case r_blockBuf r of
        None \<Rightarrow> fail_with FailIntegrity ''unexpected block fragment'' r
      | Some buf \<Rightarrow>
        if r_assemblingFile r \<noteq> fileNumber \<or> r_assembling r \<noteq> idx
        then fail_with FailIntegrity ''unexpected block fragment'' r
        else if off \<noteq> r_blockReceived r \<or> int (length buf) < off + int (length payload)
        then fail_with FailIntegrity ''invalid frame offset in block'' r
        else (None, r\<lparr>r_blockBuf := Some (copy_at (nat off) payload buf),
               r_blockReceived := r_blockReceived r + int (length payload)\<rparr>))"

definition onBlockData :: "16 word \<Rightarrow> 32 word \<Rightarrow> 32 word \<Rightarrow> bytes \<Rightarrow> 'w rstep" where
  "onBlockData fileIdx blockIdx frameOff payload r =
     (case r_manifest r of
        None \<Rightarrow> (None, r)
      | Some m \<Rightarrow>
        let fileNumber = uint fileIdx in
        if fileNumber < 0 \<or> int (length (mf_Files m)) \<le> fileNumber \<or> r_fileIdx r < fileNumber
        then fail_with FailIntegrity ''block_data outside manifest'' r
        else let entry = mf_Files m ! nat fileNumber; idx = uint blockIdx in
          if idx < 0 \<or> fe_Blocks entry \<le> idx
          then fail_with FailIntegrity ''block_data outside manifest'' r
          else if r_awaitingRestart r \<and> frameOff \<noteq> 0 then (None, r)
          else if frameOff = 0 then
            if r_blockBuf r \<noteq> None then fail_with FailIntegrity ''new block before block_hash'' r
            else add_fragment fileNumber idx 0 payload
              (r\<lparr>r_assemblingFile := fileNumber, r_assembling := idx,
                 r_blockBuf := Some (replicate (nat (block_len entry idx)) 0),
                 r_blockReceived := 0, r_awaitingRestart := False\<rparr>)
          else add_fragment fileNumber idx (uint frameOff) payload r)"

definition requestMissing :: "'w rstep" where
  "requestMissing r =
     (if r_nackOutstanding r = r_nextBlock r then (None, r)
      else Receiver_sendControl (NewNack (r_fileIdx r) (r_nextBlock r) NackMissing)
        (r\<lparr>r_nackOutstanding := r_nextBlock r\<rparr>))"

definition attachDigestState :: "FileEntry \<Rightarrow> 'w Sink \<Rightarrow> sha256Digest \<Rightarrow> 'w rstep" where
  "attachDigestState file sink digest r =
     (case sk_SetDigestState sink of None \<Rightarrow> (None, r)
      | Some f \<Rightarrow>
        let state = (case MarshalState digest of Inl _ \<Rightarrow> None | Inr st \<Rightarrow> Some st)
        in call_sink (f state) (StateSet file) r)"

definition count_block :: "FileEntry \<Rightarrow> int \<Rightarrow> bytes \<Rightarrow> 'w Receiver \<Rightarrow> 'w Receiver" where
  "count_block file offset block r =
     (let acked = r_acknowledged r + int (length block);
          fileBytes = offset + int (length block);
          r1 = r\<lparr>r_nextBlock := r_nextBlock r + 1, r_nackOutstanding := -1, r_acknowledged := acked\<rparr>;
          r2 = notify (map_option (\<lambda>f. f acked) (ro_OnProgress (r_o r))) (Progress acked) r1
      in notify (map_option (\<lambda>f. f (fe_Idx file) fileBytes acked) (ro_OnFileProgress (r_o r)))
           (FileProgress (fe_Idx file) fileBytes acked) r2)"

definition after_commit :: "FileEntry \<Rightarrow> 'w rstep" where
  "after_commit file r =
     (if r_nextBlock r = fe_Blocks file then and_then finishCurrentFile openNextFile r
      else if r_nextBlock r \<in> r_seenAhead r
      then requestMissing (r\<lparr>r_seenAhead := r_seenAhead r - {r_nextBlock r}\<rparr>)
      else (None, r))"

text \<open>A verified block that is the next one: digest, checkpoint, write, acknowledge, go on.\<close>

definition commit_block :: "FileEntry \<Rightarrow> 'w Sink \<Rightarrow> sha256Digest \<Rightarrow> bytes \<Rightarrow> BlockHash \<Rightarrow> 'w rstep" where
  "commit_block file sink digest block bh r =
     (let offset = r_nextBlock r * fe_BlockSize file; digest' = Update digest block in
      and_then (attachDigestState file sink digest')
      (and_then (call_sink (sk_Write sink offset block) (Wrote file offset block))
      (and_then (\<lambda>r. (None, count_block file offset block r))
      (and_then (Receiver_sendControl (NewAck (bh_FileIdx bh) (bh_BlockIdx bh)))
        (after_commit file)))) (r\<lparr>r_digest := Some digest'\<rparr>))"

text \<open>What happens to a block whose hash has been verified.\<close>

definition place_block :: "bytes \<Rightarrow> BlockHash \<Rightarrow> 'w rstep" where
  "place_block block bh r =
     (if bh_FileIdx bh < r_fileIdx r
      then Receiver_sendControl (NewAck (bh_FileIdx bh) (bh_BlockIdx bh)) r
      else case (r_file r, r_sink r, r_digest r) of
          (Some file, Some sink, Some digest) \<Rightarrow>
            if bh_FileIdx bh \<noteq> r_fileIdx r then fail_with FailIntegrity ''block_hash for inactive file'' r
            else if bh_BlockIdx bh < r_nextBlock r
            then Receiver_sendControl (NewAck (bh_FileIdx bh) (bh_BlockIdx bh)) r
            else if r_nextBlock r < bh_BlockIdx bh
            then requestMissing (if card (r_seenAhead r) < DefaultInflightBlocks
                then r\<lparr>r_seenAhead := insert (bh_BlockIdx bh) (r_seenAhead r)\<rparr> else r)
            else commit_block file sink digest block bh r
        | _ \<Rightarrow> fail_with FailIntegrity ''block_hash for inactive file'' r)"

definition onBlockHash :: "bytes \<Rightarrow> 'w rstep" where
  "onBlockHash payload r =
     (if r_blockBuf r = None \<and> r_awaitingRestart r then (None, r)
      else if r_manifest r = None then (None, r)
      else case r_blockBuf r of
          None \<Rightarrow> fail_with FailIntegrity ''block_hash without a block'' r
        | Some block \<Rightarrow>
          (case DecodeControl payload of
             Inl e \<Rightarrow> fail_with FailIntegrity (err_text e) r
           | Inr (MBlockHash bh) \<Rightarrow>
             if bh_FileIdx bh \<noteq> r_assemblingFile r \<or> bh_BlockIdx bh \<noteq> r_assembling r
             then fail_with FailIntegrity ''block_hash does not match assembled block'' r
             else if r_blockReceived r \<noteq> int (length block)
             then fail_with FailIntegrity ''short block'' r
             else if hex_encode (sha256 block) \<noteq> bh_SHA256 bh
             then fail_with FailIntegrity ''block hash mismatch'' r
             else place_block block bh (r\<lparr>r_blockBuf := None, r_blockReceived := 0,
               r_assembling := -1, r_assemblingFile := -1\<rparr>)
           | Inr _ \<Rightarrow> fail_with FailIntegrity ''expected block_hash'' r))"

section \<open>Control and completion\<close>

definition onControl :: "bytes \<Rightarrow> 'w rstep" where
  "onControl payload r =
     (case DecodeControl payload of
        Inl e \<Rightarrow> fail_with FailIntegrity (err_text e) r
      | Inr (MControl c) \<Rightarrow>
        (case ctl_Op c of
           ControlPause \<Rightarrow> (None, snd (Receiver_setPaused True r))
         | ControlResume \<Rightarrow> (None, snd (Receiver_setPaused False r))
         | ControlCancel \<Rightarrow> (None, abortWith (NewTransferError FailCanceled ''peer canceled the transfer'')
             False (notify_canceled r)))
      | Inr _ \<Rightarrow> fail_with FailIntegrity ''expected control'' r)"

definition onPeerFail :: "bytes \<Rightarrow> 'w rstep" where
  "onPeerFail payload r =
     (case DecodeControl payload of
        Inl e \<Rightarrow> fail_with FailIntegrity (err_text e) r
      | Inr (MFail f) \<Rightarrow> (None, abortWith (NewTransferError (fail_Reason f)
          (''sender failed: '' @ FailReason_string (fail_Reason f))) False r)
      | Inr _ \<Rightarrow> fail_with FailIntegrity ''expected fail'' r)"

definition complete_transfer :: "Manifest \<Rightarrow> 'w Destination \<Rightarrow> 'w rstep" where
  "complete_transfer m d =
     and_then (call_sink (d_Close d) ClosedDestination)
     (and_then (Receiver_sendControl NewDone)
     (\<lambda>r. (None, Receiver_settle \<lparr>res_Files = mf_Files m, res_Digests = r_digests r,
         res_TotalSize = mf_TotalSize m, res_File = mf_Files m ! 0,
         res_Digest = CompletionDigest (mf_Files m)\<rparr> r)))"

definition onComplete :: "bytes \<Rightarrow> 'w rstep" where
  "onComplete payload r =
     (case r_manifest r of
        None \<Rightarrow> fail_with FailIntegrity ''complete before manifest'' r
      | Some m \<Rightarrow>
        (case DecodeControl payload of
           Inl e \<Rightarrow> fail_with FailIntegrity (err_text e) r
         | Inr (MComplete c) \<Rightarrow>
           if (case r_file r of None \<Rightarrow> False | Some file \<Rightarrow> r_nextBlock r \<noteq> fe_Blocks file)
           then requestMissing r
           else if r_fileIdx r \<noteq> int (length (mf_Files m))
           then fail_with FailIntegrity ''complete before every file was received'' r
           else if cpl_FileDigest c \<noteq> CompletionDigest (mf_Files m)
           then fail_with FailDigestMismatch ''file-set mismatch'' r
           else (case r_destination r of
               None \<Rightarrow> fail_with FailSinkError ''transfer destination is required'' r
             | Some d \<Rightarrow> complete_transfer m d r)
         | Inr _ \<Rightarrow> fail_with FailIntegrity ''expected complete'' r))"

definition replyDoneAfterCutover :: "bytes \<Rightarrow> 'w rstep" where
  "replyDoneAfterCutover frame r =
     (if \<not> settledOK r then (None, r)
      else case OpenSequenced (ro_RecvDir (r_o r)) (r_recvCounter r) frame of
          Inl e \<Rightarrow> (None, r)
        | Inr opened \<Rightarrow>
          if h_Type (opened_Header opened) \<noteq> FrameComplete then (None, r)
          else Receiver_sendControl NewDone (r\<lparr>r_recvCounter := opened_Counter opened + 1\<rparr>))"

definition dispatch :: "OpenedFrame \<Rightarrow> 'w rstep" where
  "dispatch opened r =
     (let h = opened_Header opened; payload = opened_Plaintext opened in
      if h_Type h = FrameManifest then applyManifest payload r
      else if h_Type h = FrameBlockData then onBlockData (h_FileIdx h) (h_BlockIdx h) (h_FrameOff h) payload r
      else if h_Type h = FrameBlockHash then onBlockHash payload r
      else if h_Type h = FrameControl then onControl payload r
      else if h_Type h = FrameComplete then onComplete payload r
      else if h_Type h = FrameFail then onPeerFail payload r
      else fail_with FailIntegrity ''unexpected receiver-inbound type'' r)"

definition process :: "bytes \<Rightarrow> 'w rstep" where
  "process frame r =
     (if isSettled r then replyDoneAfterCutover frame r
      else case OpenSequenced (ro_RecvDir (r_o r)) (r_recvCounter r) frame of
          Inl e \<Rightarrow> if e = FrameReplay then (None, r) else fail_with FailIntegrity (err_text e) r
        | Inr opened \<Rightarrow> dispatch opened (r\<lparr>r_recvCounter := opened_Counter opened + 1\<rparr>))"

section \<open>Exported methods\<close>

definition Receiver_Handle :: "bytes \<Rightarrow> 'w Receiver \<Rightarrow> 'w Receiver" where
  "Receiver_Handle frame r =
     (case process frame r of (er, r') \<Rightarrow>
       (case er of None \<Rightarrow> r'
        | Some e \<Rightarrow> abortWith (asTransferError e FailIntegrity) True r'))"

definition Receiver_TransportChanged :: "'w Receiver \<Rightarrow> 'w Receiver" where
  "Receiver_TransportChanged r =
     r\<lparr>r_blockBuf := None, r_blockReceived := 0, r_assembling := -1, r_assemblingFile := -1,
       r_seenAhead := {}, r_nackOutstanding := -1, r_awaitingRestart := True\<rparr>"

definition Receiver_Pause :: "'w rstep" where
  "Receiver_Pause r = (case Receiver_setPaused True r of (changed, r') \<Rightarrow>
     if changed then Receiver_sendControl (NewControl ControlPause) r' else (None, r'))"

definition Receiver_Resume :: "'w rstep" where
  "Receiver_Resume r = (case Receiver_setPaused False r of (changed, r') \<Rightarrow>
     if changed then Receiver_sendControl (NewControl ControlResume) r' else (None, r'))"

definition Receiver_Cancel :: "string \<Rightarrow> 'w rstep" where
  "Receiver_Cancel reason r =
     (if r_settled r then (None, r)
      else case Receiver_sendControl (NewControl ControlCancel) (notify_canceled r) of (er, r') \<Rightarrow>
        (er, abortWith (NewTransferError FailCanceled reason) False r'))"

text \<open>A cancelled context: the cancel message is sent by another goroutine, before the abort when it
  returns within 250 ms and after it otherwise.\<close>

definition Receiver_cancelFromContext :: "string \<Rightarrow> bool \<Rightarrow> 'w Receiver \<Rightarrow> 'w Receiver" where
  "Receiver_cancelFromContext cause sentInTime r =
     (let te = NewTransferError FailCanceled cause in
      if sentInTime then abortWith te False (snd (Receiver_sendControl (NewControl ControlCancel) r))
      else snd (Receiver_sendControl (NewControl ControlCancel) (abortWith te False r)))"

text \<open>What \<^verbatim>\<open>Wait\<close> returns once the receiver has settled.\<close>

definition Receiver_Wait :: "'w Receiver \<Rightarrow> (ReceiveResult option \<times> TransferError option) option" where
  "Receiver_Wait r = (if r_settled r then Some (r_result r, r_err r) else None)"

datatype receiver_event =
    RHandle bytes
  | RTransportChanged
  | RPause
  | RResume
  | RCancel string
  | RContextDone string bool

fun receiver_step :: "'w Receiver \<Rightarrow> receiver_event \<Rightarrow> 'w Receiver" where
  "receiver_step r (RHandle frame) = Receiver_Handle frame r"
| "receiver_step r RTransportChanged = Receiver_TransportChanged r"
| "receiver_step r RPause = snd (Receiver_Pause r)"
| "receiver_step r RResume = snd (Receiver_Resume r)"
| "receiver_step r (RCancel reason) = snd (Receiver_Cancel reason r)"
| "receiver_step r (RContextDone cause inTime) = Receiver_cancelFromContext cause inTime r"

text \<open>A whole life of a receiver.\<close>

definition receiver_run ::
  "'a World_scheme ReceiverOptions \<Rightarrow> 'a World_scheme \<Rightarrow> receiver_event list \<Rightarrow> 'a World_scheme Receiver" where
  "receiver_run opts w evs = foldl receiver_step (NewReceiver opts w) evs"

section \<open>A concrete environment\<close>

text \<open>A transport that keeps what it is given and one in-memory sink.\<close>

record memWorld = World +
  mw_sink :: MemorySink
  mw_out :: "bytes list"

definition mem_sink :: "memWorld Sink" where
  "mem_sink = \<lparr>sk_Write = (\<lambda>off bs w. case MemorySink_Write off bs (mw_sink w) of
         (er, s) \<Rightarrow> (er, w\<lparr>mw_sink := s\<rparr>)),
     sk_Close = (\<lambda>w. case MemorySink_Close (mw_sink w) of (er, s) \<Rightarrow> (er, w\<lparr>mw_sink := s\<rparr>)),
     sk_Abort = (\<lambda>reason w. case MemorySink_Abort reason (mw_sink w) of (er, s) \<Rightarrow> (er, w\<lparr>mw_sink := s\<rparr>)),
     sk_SetDigestState = None\<rparr>"

definition mem_world :: memWorld where
  "mem_world = \<lparr>w_opened = False, mw_sink = NewMemorySink, mw_out = []\<rparr>"

definition mem_options :: "memWorld ReceiverOptions" where
  "mem_options = \<lparr>ro_Send = (\<lambda>frame w. (None, w\<lparr>mw_out := mw_out w @ [frame]\<rparr>)),
     ro_SendDir = example_key, ro_RecvDir = example_key, ro_SendCounterStart = 0, ro_RecvCounterStart = 0,
     ro_Sink = Some mem_sink, ro_Destination = None, ro_OnProgress = None, ro_OnFileProgress = None,
     ro_OnResume = None, ro_OnStateChange = None, ro_OnManifestSet = None, ro_OnManifest = None,
     ro_Resume = None\<rparr>"

end
