(* ===== verification/ReceiverTrace.thy ===== *)
theory ReceiverTrace
  imports Receiver
begin

text \<open>
  What every method of the receiver does to its history: it only appends, every frame it hands to
  the transport is sealed under the next counter, and its options, its destination and (until a
  frame is accepted) its receive counter stay as they are.
\<close>

section \<open>Shapes of the primitive steps\<close>

lemma call_out_cases:
  assumes "call_out f ev r = (er, r')"
  obtains w where "r' = r\<lparr>r_world := w, r_trace := r_trace r @ [ev er]\<rparr>"
  using assms by (auto simp: call_out_def log_event_def split: prod.splits)

lemma call_sink_cases:
  assumes "call_sink f ev r = (er, r')"
  obtains w x where "r' = r\<lparr>r_world := w, r_trace := r_trace r @ [ev x]\<rparr>" and "er = None \<longleftrightarrow> x = None"
  using assms by (auto simp: call_sink_def elim!: call_out_cases split: prod.splits)

lemma notify_cases:
  obtains (skipped) "notify f ev r = r"
  | (called) w where "notify f ev r = r\<lparr>r_world := w, r_trace := r_trace r @ [ev]\<rparr>"
proof (cases f)
  case None
  then show ?thesis by (intro skipped) (simp add: notify_def)
next
  case (Some g)
  then show ?thesis by (intro called [of "g (r_world r)"]) (simp add: notify_def log_event_def)
qed

lemma sendControl_eq:
  "Receiver_sendControl msg r = (case sealed_control (ro_SendDir (r_o r)) (r_sendCounter r) msg of
     Inl e \<Rightarrow> (Some e, r)
   | Inr frame \<Rightarrow> call_out (ro_Send (r_o r) frame) (Sent (r_sendCounter r) msg frame)
       (r\<lparr>r_sendCounter := r_sendCounter r + 1\<rparr>))"
  by (simp add: Receiver_sendControl_def sealed_control_def control_header_def EncodeControl_def)

lemma sendControl_cases:
  assumes "Receiver_sendControl msg r = (er, r')"
  obtains (unsent) e where "r' = r" and "er = Some e"
  | (sent) frame w where "sealed_control (ro_SendDir (r_o r)) (r_sendCounter r) msg = Inr frame"
      and "r' = r\<lparr>r_sendCounter := r_sendCounter r + 1, r_world := w,
          r_trace := r_trace r @ [Sent (r_sendCounter r) msg frame er]\<rparr>"
  using assms by (auto simp: sendControl_eq elim!: call_out_cases split: sum.splits)

section \<open>Histories\<close>

fun sent_counters :: "event list \<Rightarrow> 64 word list" where
  "sent_counters [] = []"
| "sent_counters (Sent c msg frame er # evs) = c # sent_counters evs"
| "sent_counters (_ # evs) = sent_counters evs"

lemma sent_counters_append [simp]: "sent_counters (xs @ ys) = sent_counters xs @ sent_counters ys"
  by (induction xs rule: sent_counters.induct) simp_all

text \<open>Every frame sent is the sealing of its message under its counter.\<close>

fun event_sealed :: "DirectionalKey \<Rightarrow> event \<Rightarrow> bool" where
  "event_sealed dir (Sent c msg frame er) = (sealed_control dir c msg = Inr frame)"
| "event_sealed dir _ = True"

definition evolves :: "'w Receiver \<Rightarrow> 'w Receiver \<Rightarrow> bool" where
  "evolves r r' \<longleftrightarrow> r_o r' = r_o r \<and> r_destination r' = r_destination r
     \<and> r_recvCounter r' = r_recvCounter r
     \<and> (r_activeResume r' = r_activeResume r \<or> r_activeResume r' = ro_Resume (r_o r))
     \<and> (\<exists>evs. r_trace r' = r_trace r @ evs \<and> consecutive (r_sendCounter r) (sent_counters evs)
         \<and> r_sendCounter r' = r_sendCounter r + of_nat (length (sent_counters evs))
         \<and> list_all (event_sealed (ro_SendDir (r_o r))) evs)"

text \<open>Two states that differ only in the engine's own fields.\<close>

definition same_io :: "'w Receiver \<Rightarrow> 'w Receiver \<Rightarrow> bool" where
  "same_io r r' \<longleftrightarrow> r_o r' = r_o r \<and> r_destination r' = r_destination r \<and> r_trace r' = r_trace r
     \<and> r_sendCounter r' = r_sendCounter r \<and> r_recvCounter r' = r_recvCounter r
     \<and> r_activeResume r' = r_activeResume r"

lemma evolves_same: "same_io r r' \<Longrightarrow> evolves r r'"
  by (auto simp: evolves_def same_io_def)

lemma evolves_refl [simp]: "evolves r r"
  by (rule evolves_same) (simp add: same_io_def)

lemma evolves_trans [trans]: "evolves r s \<Longrightarrow> evolves s t \<Longrightarrow> evolves r t"
  by (fastforce simp: evolves_def consecutive_append add.assoc)

lemma evolves_event:
  assumes "sent_counters [ev] = []" and "event_sealed (ro_SendDir (r_o r)) ev"
  shows "evolves r (r\<lparr>r_world := w, r_trace := r_trace r @ [ev]\<rparr>)"
  unfolding evolves_def using assms by (auto intro!: exI [of _ "[ev]"])

named_theorems evolve_intros \<open>steps that evolve the history\<close>

definition evolving :: "'w rstep \<Rightarrow> bool" where
  "evolving f \<longleftrightarrow> (\<forall>r. evolves r (snd (f r)))"

lemma evolvingI: "(\<And>r er r'. f r = (er, r') \<Longrightarrow> evolves r r') \<Longrightarrow> evolving f"
  unfolding evolving_def by (metis prod.collapse)

lemma evolvingD: "evolving f \<Longrightarrow> f r = (er, r') \<Longrightarrow> evolves r r'"
  by (metis evolving_def snd_conv)

lemma evolving_and_then [evolve_intros]: "evolving f \<Longrightarrow> evolving g \<Longrightarrow> evolving (and_then f g)"
  by (rule evolvingI, elim and_then_cases) (blast dest: evolvingD intro: evolves_trans)+

lemma evolving_fail [evolve_intros]: "evolving (fail_with reason message)"
  by (simp add: evolving_def fail_with_def)

text \<open>Events of calls that are not sends.\<close>

definition plain_event :: "(err option \<Rightarrow> event) \<Rightarrow> bool" where
  "plain_event ev \<longleftrightarrow> (\<forall>er dir. sent_counters [ev er] = [] \<and> event_sealed dir (ev er))"

lemma plain_events [simp]:
  "plain_event (Prepared m)" "plain_event (ManifestSet m)" "plain_event (ManifestFile f)"
  "plain_event (Opened f)" "plain_event (StateSet f)" "plain_event (Wrote f off bs)"
  "plain_event (ClosedSink f)" "plain_event ClosedDestination" "plain_event (Aborted s)"
  by (simp_all add: plain_event_def)

lemma evolving_call_out [evolve_intros]: "plain_event ev \<Longrightarrow> evolving (call_out f ev)"
  by (rule evolvingI) (auto elim!: call_out_cases intro!: evolves_event simp: plain_event_def)

lemma evolving_call_sink [evolve_intros]: "plain_event ev \<Longrightarrow> evolving (call_sink f ev)"
  by (rule evolvingI) (auto elim!: call_sink_cases intro!: evolves_event simp: plain_event_def)

lemma evolving_sendControl [evolve_intros]: "evolving (Receiver_sendControl msg)"
proof (rule evolvingI)
  fix r er and r' :: "'a Receiver"
  assume "Receiver_sendControl msg r = (er, r')"
  then show "evolves r r'"
  proof (cases rule: sendControl_cases)
    case (sent frame w)
    then show ?thesis unfolding evolves_def
      by (auto intro!: exI [of _ "[Sent (r_sendCounter r) msg frame er]"])
  qed simp
qed

lemma evolves_notify:
  "sent_counters [ev] = [] \<Longrightarrow> (\<And>dir. event_sealed dir ev) \<Longrightarrow> evolves r (notify f ev r)"
  by (rule notify_cases [of f ev r]) (auto intro: evolves_event)

section \<open>Every method evolves the history\<close>

lemma evolving_if [evolve_intros]:
  "(b \<Longrightarrow> evolving f) \<Longrightarrow> (\<not> b \<Longrightarrow> evolving g) \<Longrightarrow> evolving (if b then f else g)"
  by simp

lemma evolvesI_step: "same_io r s \<Longrightarrow> evolving f \<Longrightarrow> f s = (er, t) \<Longrightarrow> evolves r t"
  by (blast intro: evolves_trans evolves_same dest: evolvingD)

lemma same_io_simp [simp]: "same_io r r"
  by (simp add: same_io_def)

lemma evolving_update [evolve_intros]: "(\<And>r. evolves r (f r)) \<Longrightarrow> evolving (\<lambda>r. (None, f r))"
  by (simp add: evolving_def)

lemma evolves_step: "evolving f \<Longrightarrow> evolves r (snd (f r))"
  by (simp add: evolving_def)


lemma evolves_update: "evolves r s \<Longrightarrow> same_io s t \<Longrightarrow> evolves r t"
  by (blast intro: evolves_trans evolves_same)

lemma evolving_after: "same_io r s \<Longrightarrow> evolving f \<Longrightarrow> evolves r (snd (f s))"
  by (simp add: evolving_def) (blast intro: evolves_trans evolves_same)

lemma evolves_finish_file: "evolves r (finish_file file got r)"
proof -
  let ?r1 = "r\<lparr>r_digests := (r_digests r)[nat (fe_Idx file) := got]\<rparr>"
  have "evolves r ?r1" by (rule evolves_same) (simp add: same_io_def)
  also have "evolves ?r1 (notify f (FileProgress a b c) ?r1)" for f a b c
    by (rule evolves_notify) simp_all
  finally show ?thesis
    unfolding finish_file_def by (rule evolves_update) (simp add: same_io_def)
qed

lemma evolving_finishCurrentFile [evolve_intros]: "evolving finishCurrentFile"
proof -
  have "evolving (and_then (call_sink (sk_Close sink) (ClosedSink file)) (\<lambda>r. (None, finish_file file got r)))"
    for sink :: "'a Sink" and "file" got
    by (intro evolve_intros plain_events evolves_finish_file)
  then show ?thesis
    by (auto simp: evolving_def finishCurrentFile_def fail_with_def Let_def split: option.splits)
qed

lemma evolving_open_sink [evolve_intros]: "evolving (open_sink file)"
proof (rule evolvingI)
  fix r er and r' :: "'a Receiver"
  assume "open_sink file r = (er, r')"
  then obtain x w s where "r' = r \<or> r' = r\<lparr>r_world := w, r_trace := r_trace r @ [Opened file x]\<rparr>
      \<or> r' = (r\<lparr>r_world := w, r_trace := r_trace r @ [Opened file x]\<rparr>)\<lparr>r_sink := s\<rparr>"
    by (auto simp: open_sink_def fail_with_def log_event_def split: option.splits prod.splits sum.splits)
  moreover have e: "evolves r (r\<lparr>r_world := w, r_trace := r_trace r @ [Opened file x]\<rparr>)"
    by (rule evolves_event) simp_all
  moreover have "evolves r ((r\<lparr>r_world := w, r_trace := r_trace r @ [Opened file x]\<rparr>)\<lparr>r_sink := s\<rparr>)"
    by (rule evolves_update [OF e]) (simp add: same_io_def)
  ultimately show "evolves r r'" by auto
qed

lemma evolving_begin_file [evolve_intros]: "evolving (begin_file file)"
proof -
  have "evolving (and_then (\<lambda>r. case ro_OnManifest (r_o r) of None \<Rightarrow> (None, r)
         | Some f \<Rightarrow> call_sink (f file) (ManifestFile file) r) (open_sink file))"
    by (intro evolve_intros)
      (auto simp: evolving_def split: option.split intro: evolving_call_sink [unfolded evolving_def, rule_format])
  moreover have "same_io r (start_file file r)" for r :: "'a Receiver"
    by (simp add: same_io_def start_file_def Let_def)
  ultimately show ?thesis
    unfolding evolving_def [of "begin_file file"] begin_file_def by (blast intro: evolving_after)
qed

lemma evolving_open_files [evolve_intros]: "evolving (open_files files)"
proof (induction files)
  case (Cons fl files)
  have "evolving (\<lambda>r :: 'a Receiver. if r_nextBlock r < fe_Blocks fl then (None, r)
      else and_then finishCurrentFile (open_files files) r)"
    using evolves_step [OF evolving_and_then [OF evolving_finishCurrentFile Cons]]
    by (simp add: evolving_def)
  then have "evolving (and_then (begin_file fl) (\<lambda>r :: 'a Receiver. if r_nextBlock r < fe_Blocks fl then (None, r)
      else and_then finishCurrentFile (open_files files) r))"
    by (rule evolving_and_then [OF evolving_begin_file])
  then show ?case by (simp add: evolving_def)
qed (simp add: evolving_def evolves_same same_io_def)

lemma evolving_openNextFile [evolve_intros]: "evolving openNextFile"
  using evolving_open_files by (auto simp: evolving_def openNextFile_def fail_with_def split: option.split)

lemma evolves_send: "same_io r s \<Longrightarrow> evolves r (snd (Receiver_sendControl msg s))"
  by (rule evolving_after [OF _ evolving_sendControl])

lemma evolving_sendResumeState [evolve_intros]: "evolving (sendResumeState m)"
  by (auto simp: evolving_def sendResumeState_def Let_def same_io_def split: option.split sum.split
      intro!: evolves_send)

lemma evolving_apply_seed [evolve_intros]: "evolving (apply_seed m)"
proof -
  have seed: "evolves r (r\<lparr>r_activeResume := Some rr\<rparr>)" if "ro_Resume (r_o r) = Some rr"
    for r :: "'a Receiver" and rr
    using that by (simp add: evolves_def)
  then have "evolves r (notify f (ResumedAt n) (r\<lparr>r_activeResume := Some rr\<rparr>))"
    if "ro_Resume (r_o r) = Some rr" for r :: "'a Receiver" and f n rr
    by (rule evolves_trans [OF _ evolves_notify]) (use that in simp_all)
  with seed show ?thesis
    by (auto simp: evolving_def apply_seed_def fail_with_def Let_def split: option.split)
qed

lemma evolving_answer_resume [evolve_intros]: "evolving (answer_resume m)"
  using evolving_and_then [OF evolving_apply_seed evolving_sendResumeState]
  by (auto simp: evolving_def answer_resume_def)

lemma evolving_accept_manifest [evolve_intros]: "evolving (accept_manifest m d)"
  unfolding accept_manifest_def
  by (intro evolve_intros plain_events)
    (auto simp: evolving_def same_io_def adopt_manifest_def split: option.split
      intro: evolves_same evolving_call_sink [unfolded evolving_def, rule_format])

lemma evolving_applyManifest [evolve_intros]: "evolving (applyManifest payload)"
  unfolding evolving_def applyManifest_def fail_with_def
  by (auto intro: evolves_step [OF evolving_accept_manifest] evolves_step [OF evolving_sendControl]
      split: sum.split ControlMsg.split option.split)

lemma evolving_add_fragment [evolve_intros]: "evolving (add_fragment a b c payload)"
  by (auto simp: evolving_def add_fragment_def fail_with_def same_io_def intro: evolves_same split: option.split)

lemma evolving_onBlockData [evolve_intros]: "evolving (onBlockData fi bi off payload)"
proof -
  have "evolves r (snd (add_fragment a b c payload s))" if "same_io r s" for r s :: "'a Receiver" and a b c
    using that evolving_add_fragment by (rule evolving_after)
  then show ?thesis
    by (auto simp: evolving_def onBlockData_def fail_with_def same_io_def Let_def split: option.split)
qed

lemma evolving_requestMissing [evolve_intros]: "evolving requestMissing"
  by (auto simp: evolving_def requestMissing_def same_io_def intro!: evolving_after evolving_sendControl)

lemma evolving_attachDigestState [evolve_intros]: "evolving (attachDigestState f s d)"
  by (auto simp: evolving_def attachDigestState_def Let_def split: option.split
      intro: evolving_call_sink [unfolded evolving_def, rule_format])

lemma evolves_count_block: "evolves r (count_block file off block r)"
proof -
  have "evolves r (notify g (FileProgress a b c) (notify f (Progress n)
      (r\<lparr>r_nextBlock := k, r_nackOutstanding := -1, r_acknowledged := n\<rparr>)))" for f g a b c n k
    by (rule evolves_trans [OF evolves_trans [OF evolves_same evolves_notify] evolves_notify])
      (simp_all add: same_io_def)
  then show ?thesis by (simp add: count_block_def Let_def)
qed

lemma evolving_after_commit [evolve_intros]: "evolving (after_commit file)"
  unfolding evolving_def after_commit_def
  by (auto intro: evolves_step [OF evolving_and_then [OF evolving_finishCurrentFile evolving_openNextFile]]
      evolving_after [OF _ evolving_requestMissing] simp: same_io_def)

lemma evolving_commit_block [evolve_intros]: "evolving (commit_block file sink digest block bh)"
proof -
  have "evolving (and_then (attachDigestState file sink d)
      (and_then (call_sink (sk_Write sink off block) (Wrote file off block))
      (and_then (\<lambda>r. (None, count_block file off block r))
      (and_then (Receiver_sendControl msg) (after_commit file)))))" for d off msg
    by (intro evolve_intros plain_events evolves_count_block)
  then show ?thesis
    unfolding evolving_def [of "commit_block file sink digest block bh"] commit_block_def Let_def
    by (auto simp: same_io_def intro!: evolving_after)
qed

lemma evolving_place_block [evolve_intros]: "evolving (place_block block bh)"
  unfolding evolving_def place_block_def fail_with_def
  by (auto intro: evolves_step [OF evolving_commit_block] evolves_step [OF evolving_sendControl]
      evolving_after [OF _ evolving_requestMissing] simp: same_io_def split: option.split)

lemma evolving_onBlockHash [evolve_intros]: "evolving (onBlockHash payload)"
proof -
  have "evolves r (snd (place_block block bh s))" if "same_io r s" for r s :: "'a Receiver" and block bh
    using that evolving_place_block by (rule evolving_after)
  then show ?thesis
    by (auto simp: evolving_def onBlockHash_def fail_with_def same_io_def
        split: option.split sum.split ControlMsg.split)
qed

lemma evolves_abortWith: "evolves r (abortWith te notifyPeer r)"
proof -
  let ?r1 = "r\<lparr>r_settled := True, r_err := Some te\<rparr>"
  let ?r2 = "if notifyPeer then snd (Receiver_sendControl (NewFail (Reason te)) ?r1) else ?r1"
  have "evolves r ?r1" by (rule evolves_same) (simp add: same_io_def)
  moreover have "evolves ?r1 ?r2" by (simp add: evolves_send)
  ultimately have r2: "evolves r ?r2" by (rule evolves_trans)
  have "evolves ?r2 (snd (call_out f (Aborted x) ?r2))" for f x
    by (rule evolves_step) (intro evolve_intros plain_events)
  with r2 have "evolves r (snd (call_out f (Aborted x) ?r2))" for f x
    by (blast intro: evolves_trans)
  with r2 show ?thesis
    unfolding abortWith_def Let_def by (cases "r_settled r"; cases "r_destination ?r2") auto
qed

lemma evolves_setPaused: "evolves r (snd (Receiver_setPaused p r))"
proof -
  have "evolves r (notify f (StateChange st) (r\<lparr>r_paused := p\<rparr>))" for f st
    by (rule evolves_trans [OF evolves_same evolves_notify]) (simp_all add: same_io_def)
  then show ?thesis by (simp add: Receiver_setPaused_def Let_def)
qed

lemma evolves_notify_canceled: "evolves r (notify_canceled r)"
  unfolding notify_canceled_def by (rule evolves_notify) simp_all

lemma evolving_onControl [evolve_intros]: "evolving (onControl payload)"
  unfolding evolving_def onControl_def fail_with_def
  by (auto intro: evolves_setPaused evolves_trans [OF evolves_notify_canceled evolves_abortWith]
      split: sum.split ControlMsg.split ControlOp.split)

lemma evolving_onPeerFail [evolve_intros]: "evolving (onPeerFail payload)"
  unfolding evolving_def onPeerFail_def fail_with_def
  by (auto intro: evolves_abortWith split: sum.split ControlMsg.split)

lemma evolving_complete_transfer [evolve_intros]: "evolving (complete_transfer m d)"
  unfolding complete_transfer_def
  by (intro evolve_intros plain_events) (auto simp: Receiver_settle_def same_io_def intro: evolves_same)

lemma evolving_onComplete [evolve_intros]: "evolving (onComplete payload)"
  unfolding evolving_def onComplete_def fail_with_def
  by (auto intro: evolves_step [OF evolving_requestMissing] evolves_step [OF evolving_complete_transfer]
      split: sum.split ControlMsg.split option.split)

lemma evolving_dispatch [evolve_intros]: "evolving (dispatch opened)"
  unfolding evolving_def dispatch_def Let_def
  by (auto intro: evolves_step [OF evolving_applyManifest] evolves_step [OF evolving_onBlockData]
      evolves_step [OF evolving_onBlockHash] evolves_step [OF evolving_onControl]
      evolves_step [OF evolving_onComplete] evolves_step [OF evolving_onPeerFail]
      evolves_step [OF evolving_fail])

text \<open>A frame that is accepted also moves the receive counter.\<close>

definition history :: "'w Receiver \<Rightarrow> 'w Receiver \<Rightarrow> bool" where
  "history r r' \<longleftrightarrow> (\<exists>c. evolves (r\<lparr>r_recvCounter := c\<rparr>) r')"

lemma evolves_history: "evolves r r' \<Longrightarrow> history r r'"
  unfolding history_def by (rule exI [of _ "r_recvCounter r"]) simp

lemma evolves_recvCounter: "evolves r r' \<Longrightarrow> evolves (r\<lparr>r_recvCounter := c\<rparr>) (r'\<lparr>r_recvCounter := c\<rparr>)"
  by (simp add: evolves_def)

lemma history_trans: "history r s \<Longrightarrow> history s t \<Longrightarrow> history r t"
proof -
  assume "history r s" "history s t"
  then obtain c d where "evolves (r\<lparr>r_recvCounter := c\<rparr>) s" "evolves (s\<lparr>r_recvCounter := d\<rparr>) t"
    by (auto simp: history_def)
  from evolves_trans [OF evolves_recvCounter [OF this(1), of d] this(2)]
  show ?thesis by (auto simp: history_def)
qed

lemma history_replyDone: "history r (snd (replyDoneAfterCutover frame r))"
proof (cases "\<exists>c. replyDoneAfterCutover frame r = Receiver_sendControl NewDone (r\<lparr>r_recvCounter := c\<rparr>)")
  case True
  then obtain c where "replyDoneAfterCutover frame r = Receiver_sendControl NewDone (r\<lparr>r_recvCounter := c\<rparr>)" ..
  then show ?thesis by (auto simp: history_def intro: evolves_step [OF evolving_sendControl])
next
  case False
  then have "replyDoneAfterCutover frame r = (None, r)"
    by (auto simp: replyDoneAfterCutover_def split: sum.splits if_splits)
  then show ?thesis by (simp add: evolves_history)
qed

lemma history_process: "history r (snd (process frame r))"
proof (cases "r_settled r")
  case True
  then show ?thesis by (simp add: process_def isSettled_def history_replyDone)
next
  case False
  show ?thesis
  proof (cases "OpenSequenced (ro_RecvDir (r_o r)) (r_recvCounter r) frame")
    case (Inl e)
    with False show ?thesis by (simp add: process_def isSettled_def fail_with_def evolves_history)
  next
    case (Inr op)
    with False show ?thesis
      by (auto simp: process_def isSettled_def history_def intro: evolves_step [OF evolving_dispatch])
  qed
qed

lemma history_Handle: "history r (Receiver_Handle frame r)"
proof -
  obtain er r' where p: "process frame r = (er, r')" by fastforce
  with history_process [of r frame] have "history r r'" by simp
  with p show ?thesis
    by (auto simp: Receiver_Handle_def intro: history_trans [OF _ evolves_history [OF evolves_abortWith]]
        split: option.split)
qed

lemma evolves_send_after: "evolves r s \<Longrightarrow> evolves r (snd (Receiver_sendControl msg s))"
  by (rule evolves_trans [OF _ evolves_step [OF evolving_sendControl]])

lemma evolves_pause_resume: "evolves r (snd (Receiver_Pause r))" "evolves r (snd (Receiver_Resume r))"
  using evolves_setPaused [of r True] evolves_setPaused [of r False]
  by (auto simp: Receiver_Pause_def Receiver_Resume_def intro: evolves_send_after split: prod.split)

lemma evolves_Cancel: "evolves r (snd (Receiver_Cancel reason r))"
  using evolves_send_after [OF evolves_notify_canceled, of r "NewControl ControlCancel"]
  by (auto simp: Receiver_Cancel_def intro: evolves_trans [OF _ evolves_abortWith] split: prod.split)

lemma evolves_cancelFromContext: "evolves r (Receiver_cancelFromContext cause inTime r)"
  unfolding Receiver_cancelFromContext_def Let_def
  by (auto intro: evolves_send_after [OF evolves_abortWith]
      evolves_trans [OF evolves_send_after [OF evolves_refl] evolves_abortWith])

lemma history_receiver_step: "history r (receiver_step r ev)"
  by (cases ev) (simp_all add: history_Handle evolves_pause_resume evolves_Cancel evolves_history
      evolves_cancelFromContext evolves_same same_io_def Receiver_TransportChanged_def)

interpretation receiver_history: evolving_machine receiver_step history
  by unfold_locales (auto intro: history_trans history_receiver_step evolves_history)

lemma history_run: "history (NewReceiver opts w) (receiver_run opts w evs)"
  unfolding receiver_run_def by (rule receiver_history.run_rel)

section \<open>Properties\<close>

text \<open>C23: the receiver never seals two frames under one nonce: whatever frames arrive and however
  pauses, cancellations and path changes interleave, the counters of the frames it hands to the
  transport run consecutively from the configured start, so that up to the 2^64 counters of the
  key all counters, and with them all nonces, differ; and each of those frames opens under its
  counter to exactly the control message that was sent.\<close>

theorem receiver_nonces_unique:
  assumes "tr = r_trace (receiver_run opts w evs)"
  shows "consecutive (ro_SendCounterStart opts) (sent_counters tr)
    \<and> (length (sent_counters tr) \<le> 2 ^ 64 \<longrightarrow>
         distinct (map (nonce (dk_Salt (ro_SendDir opts))) (sent_counters tr)))
    \<and> (\<forall>c msg frame er. Sent c msg frame er \<in> set tr \<longrightarrow>
         (\<exists>opened. Open (ro_SendDir opts) c frame = Inr opened
            \<and> EncodeControl msg = Inr (opened_Plaintext opened)
            \<and> h_Type (opened_Header opened) = FrameType msg))"
proof -
  let ?r = "NewReceiver opts w"
  have r: "r_o ?r = opts" "r_trace ?r = []" "r_sendCounter ?r = ro_SendCounterStart opts"
    by (simp_all add: NewReceiver_def)
  have "history ?r (receiver_run opts w evs)" by (rule history_run)
  then have c: "consecutive (ro_SendCounterStart opts) (sent_counters tr)"
    and sealed: "list_all (event_sealed (ro_SendDir opts)) tr"
    unfolding history_def evolves_def assms using r by auto
  have "inj_on (nonce (dk_Salt (ro_SendDir opts))) (set (sent_counters tr))"
    by (rule inj_onI) (simp add: nonce_inject)
  with consecutive_distinct [OF c]
  have "length (sent_counters tr) \<le> 2 ^ 64 \<longrightarrow>
      distinct (map (nonce (dk_Salt (ro_SendDir opts))) (sent_counters tr))"
    by (simp add: distinct_map)
  moreover have "\<exists>opened. Open (ro_SendDir opts) c frame = Inr opened
      \<and> EncodeControl msg = Inr (opened_Plaintext opened) \<and> h_Type (opened_Header opened) = FrameType msg"
    if "Sent c msg frame er \<in> set tr" for c msg frame er
  proof -
    have "event_sealed (ro_SendDir opts) (Sent c msg frame er)" using sealed that by (auto simp: list_all_iff)
    then obtain payload where p: "EncodeControl msg = Inr payload"
      "Seal (ro_SendDir opts) c (control_header (FrameType msg)) payload = Inr frame"
      by (auto simp: sealed_control_def split: sum.splits)
    from Open_Seal [OF p(2)] p(1) show ?thesis
      by (auto simp: sealed_header_def control_header_def)
  qed
  ultimately show ?thesis using c by blast
qed

lemma pause_sends:
  "sent_counters (r_trace (receiver_run mem_options mem_world [RPause])) = [0]"
proof -
  have "length (json_print (control_json (NewControl ControlPause))) = 23" by code_simp
  then have "\<exists>payload. EncodeControl (NewControl ControlPause) = Inr payload \<and> length payload = 23"
    by (simp add: EncodeControl_def)
  then obtain frame where "sealed_control example_key 0 (NewControl ControlPause) = Inr frame"
    by (auto simp: sealed_control_def Seal_eq u16Max_def gcmFor_def example_key_def Let_def)
  then show ?thesis
    by (simp add: receiver_run_def Receiver_Pause_def Receiver_setPaused_def NewReceiver_def
        mem_options_def notify_def sendControl_eq call_out_def log_event_def)
qed

theorem receiver_nonces_unique_witness:
  "length (sent_counters (r_trace (receiver_run mem_options mem_world [RPause]))) \<le> 2 ^ 64
   \<and> distinct (map (nonce (dk_Salt (ro_SendDir mem_options)))
       (sent_counters (r_trace (receiver_run mem_options mem_world [RPause]))))"
  using receiver_nonces_unique [OF refl, of mem_options mem_world "[RPause]"] pause_sends by simp

end
