(* ===== verification/ReceiverInv.thy ===== *)
theory ReceiverInv
  imports ReceiverTrace
begin

text \<open>
  The invariant of the receiver and what follows from it: blocks reach the sinks in order, whole
  and once, every message the receiver sends is justified by what it did before, and a receiver
  that settles without an error has verified and closed every file of the manifest.
\<close>

section \<open>Blocks of a file\<close>

lemma wantBlocks_zero: "file_ok f \<Longrightarrow> fe_Size f = 0 \<Longrightarrow> fe_Blocks f = 0"
  by (simp add: file_ok_def wantBlocks_def)

lemma block_len_cases:
  assumes "file_ok f" and "0 \<le> k" and "k < fe_Blocks f"
  shows "block_len f k = (if k + 1 = fe_Blocks f then fe_Size f - k * fe_BlockSize f else fe_BlockSize f)"
    and "0 < block_len f k" and "block_len f k \<le> fe_BlockSize f"
    and "k * fe_BlockSize f + block_len f k
      = (if k + 1 = fe_Blocks f then fe_Size f else (k + 1) * fe_BlockSize f)"
proof -
  let ?b = "fe_BlockSize f" and ?s = "fe_Size f" and ?n = "fe_Blocks f"
  have b: "0 < ?b" "?b \<le> MaxManifestBlockBytes" and s: "0 \<le> ?s" and n: "?n = wantBlocks f"
    using assms(1) by (simp_all add: file_ok_def)
  have pos: "0 < ?s" using wantBlocks_zero [OF assms(1)] s assms(2,3) by (cases "?s = 0") auto
  have upper: "?s \<le> ?n * ?b" and lower: "(?n - 1) * ?b < ?s"
    using wantBlocks_cover(1,2) [OF s b(1)] pos n by simp_all
  have "(k + 1) * ?b \<le> (?n - 1) * ?b" if "k + 1 < ?n" using that b(1) by (intro mult_right_mono) simp_all
  then have mid: "k * ?b + ?b < ?s" if "k + 1 < ?n" using that lower by (simp add: distrib_right)
  have last: "?s - k * ?b \<le> ?b" "0 < ?s - k * ?b" if "k + 1 = ?n"
  proof -
    have k: "k = ?n - 1" using that by simp
    show "?s - k * ?b \<le> ?b" unfolding k using upper by (simp add: left_diff_distrib)
    show "0 < ?s - k * ?b" unfolding k using lower by simp
  qed
  show eq: "block_len f k = (if k + 1 = ?n then ?s - k * ?b else ?b)"
  proof (cases "k + 1 = ?n")
    case True
    then show ?thesis using b(2) last [OF True] by (auto simp: block_len_def Let_def)
  next
    case False
    then have "k + 1 < ?n" using assms(3) by simp
    from mid [OF this] False show ?thesis using b(2) by (auto simp: block_len_def Let_def)
  qed
  show "0 < block_len f k" "block_len f k \<le> ?b"
    unfolding eq using b last by auto
  show "k * ?b + block_len f k = (if k + 1 = ?n then ?s else (k + 1) * ?b)"
    unfolding eq by (simp add: distrib_right)
qed

text \<open>The writes that succeeded for file \<open>i\<close>, in order.\<close>

fun written :: "int \<Rightarrow> event list \<Rightarrow> (int \<times> bytes) list" where
  "written i [] = []"
| "written i (Wrote f off bs er # evs) =
     (if fe_Idx f = i \<and> er = None then (off, bs) # written i evs else written i evs)"
| "written i (_ # evs) = written i evs"

lemma written_append [simp]: "written i (xs @ ys) = written i xs @ written i ys"
  by (induction i xs rule: written.induct) simp_all

text \<open>Blocks \<open>k\<close> up to but not including \<open>n\<close>, each at its offset and of its full length.\<close>

fun contig :: "FileEntry \<Rightarrow> int \<Rightarrow> (int \<times> bytes) list \<Rightarrow> int \<Rightarrow> bool" where
  "contig f k [] n = (k = n)"
| "contig f k ((off, bs) # ws) n = (off = k * fe_BlockSize f \<and> int (length bs) = block_len f k
     \<and> contig f (k + 1) ws n)"

lemma contig_snoc: "contig f k (ws @ [(off, bs)]) n \<longleftrightarrow>
    contig f k ws (n - 1) \<and> off = (n - 1) * fe_BlockSize f \<and> int (length bs) = block_len f (n - 1)"
  by (induction f k ws n rule: contig.induct) auto

lemma contig_length: "contig f k ws n \<Longrightarrow> n = k + int (length ws)"
  by (induction f k ws n rule: contig.induct) auto

lemma contig_mem: "contig f k ws n \<Longrightarrow> k \<le> b \<Longrightarrow> b < n \<Longrightarrow> \<exists>bs. (b * fe_BlockSize f, bs) \<in> set ws"
proof (induction f k ws n rule: contig.induct)
  case (2 f k off bs ws n)
  then show ?case by (cases "b = k") auto
qed simp

definition bytes_upto :: "FileEntry \<Rightarrow> int \<Rightarrow> int" where
  "bytes_upto f n = (if fe_Blocks f \<le> n then fe_Size f else n * fe_BlockSize f)"

lemma bytes_upto_step:
  assumes "file_ok f" and "0 \<le> k" and "k < fe_Blocks f"
  shows "bytes_upto f (k + 1) = bytes_upto f k + block_len f k"
  using block_len_cases(4) [OF assms] assms(3) by (auto simp: bytes_upto_def)

lemma contig_bytes:
  "file_ok f \<Longrightarrow> contig f k ws n \<Longrightarrow> 0 \<le> k \<Longrightarrow> n \<le> fe_Blocks f \<Longrightarrow>
    int (length (concat (map snd ws))) = bytes_upto f n - bytes_upto f k"
proof (induction f k ws n rule: contig.induct)
  case (2 f k off bs ws n)
  have "k < fe_Blocks f" using contig_length [of f "k + 1" ws n] 2(3,5) by simp
  with bytes_upto_step [OF 2(2,4)] 2 show ?case by simp
qed simp

section \<open>Seeds\<close>

definition seed_in :: "ReceiverResume option \<Rightarrow> FileEntry \<Rightarrow> ResumeFileProgress option" where
  "seed_in ar f = (case ar of None \<Rightarrow> None | Some rr \<Rightarrow> rr_Files rr (fe_Idx f))"

definition have_in :: "ReceiverResume option \<Rightarrow> FileEntry \<Rightarrow> int" where
  "have_in ar f = (case seed_in ar f of None \<Rightarrow> 0 | Some p \<Rightarrow> p_HaveBlocks p)"

definition digest_in :: "ReceiverResume option \<Rightarrow> FileEntry \<Rightarrow> sha256Digest" where
  "digest_in ar f = (case seed_in ar f of None \<Rightarrow> NewSHA256Digest
     | Some p \<Rightarrow> (case p_SeedDigest p of None \<Rightarrow> NewSHA256Digest | Some d \<Rightarrow> d))"

lemma seed_of_in: "seed_of r f = seed_in (r_activeResume r) f"
  by (simp add: seed_of_def seed_in_def)

lemma seed_have_in: "seed_have r f = have_in (r_activeResume r) f"
  by (simp add: seed_have_def have_in_def seed_of_in)

definition seeds_ok :: "ReceiverResume option \<Rightarrow> Manifest \<Rightarrow> bool" where
  "seeds_ok ar m \<longleftrightarrow> (\<forall>f \<in> set (mf_Files m). 0 \<le> have_in ar f \<and> have_in ar f \<le> fe_Blocks f)"

lemma seed_files_ok_None:
  "seed_files_ok fm fs = None \<longleftrightarrow>
     (\<forall>f \<in> set fs. \<exists>p. fm (fe_Idx f) = Some p \<and> 0 \<le> p_HaveBlocks p \<and> p_HaveBlocks p \<le> fe_Blocks f)"
  by (induction fs) (auto split: option.splits)

lemma manifest_file_ok: "manifest_ok m \<Longrightarrow> f \<in> set (mf_Files m) \<Longrightarrow> file_ok f"
  by (auto simp: manifest_ok_def list_all_iff)

lemma manifest_idx: "manifest_ok m \<Longrightarrow> i < length (mf_Files m) \<Longrightarrow> fe_Idx (mf_Files m ! i) = int i"
  using idx_from_nth [of 0 "mf_Files m" i] by (simp add: manifest_ok_def)

lemma file_ok_blocks_nonneg: "file_ok f \<Longrightarrow> 0 \<le> fe_Blocks f"
  using wantBlocks_cover(3) [of f] by (simp add: file_ok_def)

lemma seeds_ok_None: "manifest_ok m \<Longrightarrow> seeds_ok None m"
  by (auto simp: seeds_ok_def have_in_def seed_in_def intro: file_ok_blocks_nonneg manifest_file_ok)

lemma seeds_ok_Some: "validateResumeSeed m rr = None \<Longrightarrow> seeds_ok (Some rr) m"
  by (auto simp: validateResumeSeed_def seeds_ok_def have_in_def seed_in_def seed_files_ok_None
      split: if_splits sum.splits)

section \<open>Justified messages\<close>

definition verified :: "ReceiverResume option \<Rightarrow> event list \<Rightarrow> FileEntry \<Rightarrow> bool" where
  "verified ar tr f \<longleftrightarrow> contig f (have_in ar f) (written (fe_Idx f) tr) (fe_Blocks f)
     \<and> HexDigest (foldl Update (digest_in ar f) (map snd (written (fe_Idx f) tr))) = fe_FileDigest f
     \<and> ClosedSink f None \<in> set tr"

text \<open>The block an acknowledgement names is one the seed covers or one written before.\<close>

definition backed :: "ReceiverResume option \<Rightarrow> Manifest \<Rightarrow> event list \<Rightarrow> int \<Rightarrow> int \<Rightarrow> bool" where
  "backed ar m tr fi b \<longleftrightarrow> 0 \<le> fi \<and> fi < int (length (mf_Files m))
     \<and> (let f = mf_Files m ! nat fi in 0 \<le> b \<and> b < fe_Blocks f
         \<and> (b < have_in ar f \<or> (\<exists>bs. (b * fe_BlockSize f, bs) \<in> set (written fi tr))))"

definition claims :: "ReceiverResume option \<Rightarrow> Manifest \<Rightarrow> ResumeState \<Rightarrow> bool" where
  "claims ar m rs \<longleftrightarrow> rs_TransferID rs = mf_TransferID m
     \<and> ManifestFingerprint m = Inr (rs_ManifestFingerprint rs)
     \<and> rs_Files rs = map (\<lambda>f. \<lparr>rf_Idx = fe_Idx f, rf_HaveBlocks = have_in ar f\<rparr>) (mf_Files m)"

fun justified :: "ReceiverResume option \<Rightarrow> Manifest \<Rightarrow> event list \<Rightarrow> ControlMsg \<Rightarrow> bool" where
  "justified ar m tr (MAck a) = backed ar m tr (ack_FileIdx a) (ack_BlockIdx a)"
| "justified ar m tr (MResumeState rs) = claims ar m rs"
| "justified ar m tr (MDone d) = (list_all (verified ar tr) (mf_Files m) \<and> ClosedDestination None \<in> set tr)"
| "justified ar m tr _ = True"

definition all_justified :: "ReceiverResume option \<Rightarrow> Manifest \<Rightarrow> event list \<Rightarrow> bool" where
  "all_justified ar m tr \<longleftrightarrow>
     (\<forall>pre c msg fr er post. tr = pre @ Sent c msg fr er # post \<longrightarrow> justified ar m pre msg)"

fun neutral :: "ControlMsg \<Rightarrow> bool" where
  "neutral (MAck a) = False"
| "neutral (MResumeState rs) = False"
| "neutral (MDone d) = False"
| "neutral _ = True"

lemma neutral_justified: "neutral msg \<Longrightarrow> justified ar m tr msg"
  by (cases msg) simp_all

text \<open>Events that write nothing and send nothing that needs a justification.\<close>

fun quiet_event :: "event \<Rightarrow> bool" where
  "quiet_event (Wrote f off bs er) = (er \<noteq> None)"
| "quiet_event (Sent c msg fr er) = neutral msg"
| "quiet_event _ = True"

lemma written_quiet: "list_all quiet_event evs \<Longrightarrow> written i evs = []"
  by (induction i evs rule: written.induct) auto

lemma all_justified_Nil [simp]: "all_justified ar m []"
  by (simp add: all_justified_def)

lemma all_justified_snoc:
  "all_justified ar m (tr @ [ev]) \<longleftrightarrow> all_justified ar m tr
     \<and> (\<forall>c msg fr er. ev = Sent c msg fr er \<longrightarrow> justified ar m tr msg)" (is "?l = ?r")
proof
  assume l: ?l
  have "justified ar m pre msg" if "tr = pre @ Sent c msg fr er # post" for pre c msg fr er post
    using l that unfolding all_justified_def by (metis append.assoc append_Cons)
  moreover have "justified ar m tr msg" if "ev = Sent c msg fr er" for c msg fr er
    using l that unfolding all_justified_def by blast
  ultimately show ?r by (auto simp: all_justified_def)
next
  assume r: ?r
  show ?l unfolding all_justified_def
  proof (intro allI impI)
    fix pre c msg fr er post
    assume eq: "tr @ [ev] = pre @ Sent c msg fr er # post"
    show "justified ar m pre msg"
    proof (cases post rule: rev_cases)
      case Nil
      with eq r show ?thesis by simp
    next
      case (snoc post' x)
      with eq have "tr = pre @ Sent c msg fr er # post'" by simp
      with r show ?thesis unfolding all_justified_def by blast
    qed
  qed
qed

lemma all_justified_quiet:
  "list_all quiet_event evs \<Longrightarrow> all_justified ar m tr \<Longrightarrow> all_justified ar m (tr @ evs)"
proof (induction evs rule: rev_induct)
  case (snoc ev evs)
  then have "all_justified ar m (tr @ evs)" "quiet_event ev" by simp_all
  then show ?case
    using all_justified_snoc [of ar m "tr @ evs" ev] by (auto simp: neutral_justified)
qed simp

lemma all_quiet_justified: "list_all quiet_event tr \<Longrightarrow> all_justified ar m tr"
  using all_justified_quiet [of tr ar m "[]"] by simp

lemma verified_quiet: "list_all quiet_event evs \<Longrightarrow> verified ar tr f \<Longrightarrow> verified ar (tr @ evs) f"
  by (simp add: verified_def written_quiet)

section \<open>The invariant\<close>

definition buffer_ok :: "'w Receiver \<Rightarrow> Manifest \<Rightarrow> bool" where
  "buffer_ok r m \<longleftrightarrow> (\<forall>buf. r_blockBuf r = Some buf \<longrightarrow>
     0 \<le> r_assemblingFile r \<and> r_assemblingFile r \<le> r_fileIdx r
     \<and> r_assemblingFile r < int (length (mf_Files m))
     \<and> (let f = mf_Files m ! nat (r_assemblingFile r) in
          0 \<le> r_assembling r \<and> r_assembling r < fe_Blocks f
          \<and> int (length buf) = block_len f (r_assembling r))
     \<and> 0 \<le> r_blockReceived r \<and> r_blockReceived r \<le> int (length buf))"

definition ahead_ok :: "'w Receiver \<Rightarrow> bool" where
  "ahead_ok r \<longleftrightarrow> finite (r_seenAhead r) \<and> card (r_seenAhead r) \<le> DefaultInflightBlocks"

text \<open>A manifest is in force and the files before \<^verbatim>\<open>fileIdx\<close> are finished.\<close>

definition base :: "'w Receiver \<Rightarrow> Manifest \<Rightarrow> bool" where
  "base r m \<longleftrightarrow> r_manifest r = Some m \<and> manifest_ok m \<and> seeds_ok (r_activeResume r) m
     \<and> length (r_digests r) = length (mf_Files m)
     \<and> 0 \<le> r_fileIdx r \<and> r_fileIdx r \<le> int (length (mf_Files m))
     \<and> (\<forall>i < nat (r_fileIdx r). verified (r_activeResume r) (r_trace r) (mf_Files m ! i)
          \<and> r_digests r ! i = fe_FileDigest (mf_Files m ! i))
     \<and> (\<forall>i. r_fileIdx r < i \<longrightarrow> written i (r_trace r) = [])
     \<and> buffer_ok r m \<and> ahead_ok r
     \<and> all_justified (r_activeResume r) m (r_trace r)"

definition finished_bytes :: "'w Receiver \<Rightarrow> Manifest \<Rightarrow> int" where
  "finished_bytes r m = sizes (take (nat (r_fileIdx r)) (mf_Files m))"

definition current :: "'w Receiver \<Rightarrow> Manifest \<Rightarrow> FileEntry \<Rightarrow> bool" where
  "current r m f \<longleftrightarrow> r_file r = Some f \<and> r_fileIdx r < int (length (mf_Files m))
     \<and> f = mf_Files m ! nat (r_fileIdx r)
     \<and> r_digest r = Some (foldl Update (digest_in (r_activeResume r) f) (map snd (written (fe_Idx f) (r_trace r))))
     \<and> contig f (have_in (r_activeResume r) f) (written (fe_Idx f) (r_trace r)) (r_nextBlock r)
     \<and> r_nextBlock r \<le> fe_Blocks f
     \<and> r_acknowledged r = finished_bytes r m + bytes_upto f (r_nextBlock r)"

definition between :: "'w Receiver \<Rightarrow> Manifest \<Rightarrow> bool" where
  "between r m \<longleftrightarrow> base r m \<and> written (r_fileIdx r) (r_trace r) = []
     \<and> r_acknowledged r = finished_bytes r m"

definition active :: "'w Receiver \<Rightarrow> Manifest \<Rightarrow> bool" where
  "active r m \<longleftrightarrow> base r m \<and> (case r_file r of
     None \<Rightarrow> r_fileIdx r = int (length (mf_Files m)) \<and> r_acknowledged r = mf_TotalSize m
   | Some f \<Rightarrow> current r m f \<and> r_sink r \<noteq> None \<and> r_nextBlock r < fe_Blocks f)"

definition fresh :: "'w Receiver \<Rightarrow> bool" where
  "fresh r \<longleftrightarrow> r_manifest r = None \<and> r_fileIdx r = 0 \<and> r_file r = None \<and> r_acknowledged r = 0
     \<and> r_blockBuf r = None \<and> r_activeResume r = None \<and> r_resumeState r = None \<and> r_seenAhead r = {}
     \<and> list_all quiet_event (r_trace r)"

text \<open>What holds of the history even after a failure.\<close>

definition tinv :: "'w Receiver \<Rightarrow> bool" where
  "tinv r \<longleftrightarrow> (case r_manifest r of
     None \<Rightarrow> list_all quiet_event (r_trace r)
   | Some m \<Rightarrow> manifest_ok m \<and> seeds_ok (r_activeResume r) m
       \<and> (\<forall>f \<in> set (mf_Files m). \<exists>n \<le> fe_Blocks f. contig f (have_in (r_activeResume r) f) (written (fe_Idx f) (r_trace r)) n)
       \<and> all_justified (r_activeResume r) m (r_trace r))"

definition resume_ok :: "'w Receiver \<Rightarrow> bool" where
  "resume_ok r \<longleftrightarrow> (\<forall>rs. r_resumeState r = Some rs \<longrightarrow>
     (\<exists>m. r_manifest r = Some m \<and> claims (r_activeResume r) m rs))"

definition live :: "'w Receiver \<Rightarrow> bool" where
  "live r \<longleftrightarrow> \<not> r_settled r \<and> r_err r = None \<and> resume_ok r \<and> (fresh r \<or> (\<exists>m. active r m))"

definition broken :: "'w Receiver \<Rightarrow> bool" where
  "broken r \<longleftrightarrow> \<not> r_settled r \<and> tinv r"

definition completed :: "'w Receiver \<Rightarrow> bool" where
  "completed r \<longleftrightarrow> (\<exists>m res. r_manifest r = Some m \<and> manifest_ok m
     \<and> list_all (verified (r_activeResume r) (r_trace r)) (mf_Files m)
     \<and> ClosedDestination None \<in> set (r_trace r)
     \<and> r_acknowledged r = mf_TotalSize m \<and> r_result r = Some res \<and> res_Files res = mf_Files m
     \<and> res_Digests res = map fe_FileDigest (mf_Files m) \<and> res_TotalSize res = mf_TotalSize m
     \<and> res_Digest res = CompletionDigest (mf_Files m))"

definition rinv :: "'w Receiver \<Rightarrow> bool" where
  "rinv r \<longleftrightarrow> live r \<or> (r_settled r \<and> tinv r \<and> (r_err r = None \<longrightarrow> completed r))"

section \<open>Quiet steps\<close>

text \<open>Events that write nothing and whose messages are justified where they stand.\<close>

definition silent :: "'w Receiver \<Rightarrow> event list \<Rightarrow> bool" where
  "silent r evs \<longleftrightarrow> (\<forall>i. written i evs = []) \<and> (case r_manifest r of
     None \<Rightarrow> list_all quiet_event evs
   | Some m \<Rightarrow> all_justified (r_activeResume r) m (r_trace r) \<longrightarrow>
       all_justified (r_activeResume r) m (r_trace r @ evs))"

lemma silent_quiet: "list_all quiet_event evs \<Longrightarrow> silent r evs"
  by (auto simp: silent_def written_quiet all_justified_quiet split: option.split)

definition quiet :: "'w Receiver \<Rightarrow> 'w Receiver \<Rightarrow> bool" where
  "quiet r r' \<longleftrightarrow> r_o r' = r_o r \<and> r_destination r' = r_destination r \<and> r_manifest r' = r_manifest r
     \<and> r_fileIdx r' = r_fileIdx r \<and> r_file r' = r_file r \<and> r_sink r' = r_sink r
     \<and> r_digest r' = r_digest r \<and> r_digests r' = r_digests r \<and> r_acknowledged r' = r_acknowledged r
     \<and> r_nextBlock r' = r_nextBlock r \<and> r_assemblingFile r' = r_assemblingFile r
     \<and> r_assembling r' = r_assembling r \<and> r_blockBuf r' = r_blockBuf r
     \<and> r_blockReceived r' = r_blockReceived r \<and> r_seenAhead r' = r_seenAhead r
     \<and> r_activeResume r' = r_activeResume r \<and> r_resumeState r' = r_resumeState r
     \<and> r_settled r' = r_settled r \<and> r_result r' = r_result r \<and> r_err r' = r_err r
     \<and> (\<exists>evs. r_trace r' = r_trace r @ evs \<and> silent r evs)"

lemma quiet_refl [simp]: "quiet r r"
  by (simp add: quiet_def silent_quiet)

lemma quiet_trans:
  assumes "quiet r s" and "quiet s t"
  shows "quiet r t"
proof -
  obtain xs ys where t: "r_trace s = r_trace r @ xs" "silent r xs" "r_trace t = r_trace s @ ys" "silent s ys"
    using assms by (auto simp: quiet_def)
  have "r_manifest s = r_manifest r" "r_activeResume s = r_activeResume r"
    using assms(1) by (simp_all add: quiet_def)
  then have "silent r (xs @ ys)" using t by (auto simp: silent_def split: option.splits)
  with assms t show ?thesis by (auto simp: quiet_def)
qed

lemma quiet_fresh: "quiet r r' \<Longrightarrow> fresh r \<Longrightarrow> fresh r'"
  by (auto simp: quiet_def fresh_def silent_def)

lemma verified_silent: "silent r evs \<Longrightarrow> verified ar tr f \<Longrightarrow> verified ar (tr @ evs) f"
  by (simp add: verified_def silent_def)

lemma quiet_base: "quiet r r' \<Longrightarrow> base r m \<Longrightarrow> base r' m"
  by (auto simp: quiet_def base_def buffer_ok_def ahead_ok_def verified_silent) (auto simp: silent_def)

lemma quiet_current: "quiet r r' \<Longrightarrow> current r m f \<Longrightarrow> current r' m f"
  by (auto simp: quiet_def current_def finished_bytes_def silent_def)

lemma quiet_between: "quiet r r' \<Longrightarrow> between r m \<Longrightarrow> between r' m"
  using quiet_base [of r r' m] by (auto simp: quiet_def between_def finished_bytes_def silent_def)

lemma quiet_active: "quiet r r' \<Longrightarrow> active r m \<Longrightarrow> active r' m"
  using quiet_base [of r r' m] quiet_current [of r r' m]
  by (auto simp: active_def quiet_def split: option.splits)

lemma quiet_tinv: "quiet r r' \<Longrightarrow> tinv r \<Longrightarrow> tinv r'"
  by (auto simp: quiet_def tinv_def silent_def split: option.splits)

lemma quiet_broken: "quiet r r' \<Longrightarrow> broken r \<Longrightarrow> broken r'"
  using quiet_tinv [of r r'] by (auto simp: broken_def quiet_def)

lemma quiet_resume_ok: "quiet r r' \<Longrightarrow> resume_ok r \<Longrightarrow> resume_ok r'"
  by (auto simp: quiet_def resume_ok_def)

lemma quiet_live: "quiet r r' \<Longrightarrow> live r \<Longrightarrow> live r'"
  using quiet_fresh [of r r'] quiet_active [of r r'] quiet_resume_ok [of r r']
  by (auto simp: live_def quiet_def)

text \<open>Steps that are quiet on success and on failure.\<close>

definition quiet_step :: "'w rstep \<Rightarrow> bool" where
  "quiet_step f \<longleftrightarrow> (\<forall>r. quiet r (snd (f r)))"

named_theorems quiet_intros \<open>quiet steps\<close>

lemma quiet_stepI: "(\<And>r er r'. f r = (er, r') \<Longrightarrow> quiet r r') \<Longrightarrow> quiet_step f"
  unfolding quiet_step_def by (metis prod.collapse)

lemma quiet_stepD: "quiet_step f \<Longrightarrow> f r = (er, r') \<Longrightarrow> quiet r r'"
  by (metis quiet_step_def snd_conv)

lemma quiet_step_fail [quiet_intros]: "quiet_step (fail_with reason msg)"
  by (simp add: quiet_step_def fail_with_def)

lemma quiet_step_call_sink [quiet_intros]:
  "(\<And>er. quiet_event (ev er)) \<Longrightarrow> quiet_step (call_sink f ev)"
  by (rule quiet_stepI) (auto elim!: call_sink_cases simp: quiet_def silent_quiet)

lemma quiet_step_call_out [quiet_intros]:
  "(\<And>er. quiet_event (ev er)) \<Longrightarrow> quiet_step (call_out f ev)"
  by (rule quiet_stepI) (auto elim!: call_out_cases simp: quiet_def silent_quiet)

lemma quiet_step_send [quiet_intros]: "neutral msg \<Longrightarrow> quiet_step (Receiver_sendControl msg)"
  by (rule quiet_stepI) (auto elim!: sendControl_cases simp: quiet_def silent_quiet)

lemma quiet_notify: "quiet_event ev \<Longrightarrow> quiet r (notify f ev r)"
  by (rule notify_cases [of f ev r]) (auto simp: quiet_def silent_quiet)

lemma quiet_step_valid:
  assumes "quiet_step f" and "\<And>r r'. quiet r r' \<Longrightarrow> P r \<Longrightarrow> P r'" and "\<And>r. P r \<Longrightarrow> broken r"
  shows "valid P f P broken"
  by (rule validI) (blast intro: assms(2,3) dest: quiet_stepD [OF assms(1)])+

section \<open>From the invariant to the history\<close>

lemma verified_contig: "verified ar tr f \<Longrightarrow> contig f (have_in ar f) (written (fe_Idx f) tr) (fe_Blocks f)"
  by (simp add: verified_def)

lemma base_tinv:
  assumes "base r m"
    and "r_fileIdx r < int (length (mf_Files m)) \<Longrightarrow>
      \<exists>n \<le> fe_Blocks (mf_Files m ! nat (r_fileIdx r)).
        contig (mf_Files m ! nat (r_fileIdx r)) (have_in (r_activeResume r) (mf_Files m ! nat (r_fileIdx r)))
          (written (r_fileIdx r) (r_trace r)) n"
  shows "tinv r"
proof -
  have ok: "manifest_ok m" and seeds: "seeds_ok (r_activeResume r) m" using assms(1) by (simp_all add: base_def)
  have "\<exists>n \<le> fe_Blocks f. contig f (have_in (r_activeResume r) f) (written (fe_Idx f) (r_trace r)) n"
    if mem: "f \<in> set (mf_Files m)" for f
  proof -
    obtain i where i: "i < length (mf_Files m)" "f = mf_Files m ! i" using mem by (auto simp: in_set_conv_nth)
    have idx: "fe_Idx f = int i" using manifest_idx [OF ok i(1)] i(2) by simp
    consider "int i < r_fileIdx r" | "int i = r_fileIdx r" | "r_fileIdx r < int i" by linarith
    then show ?thesis
    proof cases
      case 1
      then have "i < nat (r_fileIdx r)" by simp
      then have "verified (r_activeResume r) (r_trace r) f" using assms(1) i(2) by (simp add: base_def)
      then show ?thesis by (blast dest: verified_contig)
    next
      case 2
      have n: "nat (r_fileIdx r) = i" using 2 by simp
      show ?thesis using assms(2) i 2 idx unfolding n by simp
    next
      case 3
      then have "written (fe_Idx f) (r_trace r) = []" using assms(1) idx by (simp add: base_def)
      then show ?thesis using seeds mem by (auto simp: seeds_ok_def)
    qed
  qed
  with assms(1) show ?thesis by (auto simp: tinv_def base_def)
qed

lemma between_tinv: "between r m \<Longrightarrow> tinv r"
proof (rule base_tinv)
  assume b: "between r m"
  then show "base r m" by (simp add: between_def)
  assume "r_fileIdx r < int (length (mf_Files m))"
  then have "mf_Files m ! nat (r_fileIdx r) \<in> set (mf_Files m)"
    using b by (auto simp: between_def base_def)
  then show "\<exists>n \<le> fe_Blocks (mf_Files m ! nat (r_fileIdx r)).
      contig (mf_Files m ! nat (r_fileIdx r)) (have_in (r_activeResume r) (mf_Files m ! nat (r_fileIdx r)))
        (written (r_fileIdx r) (r_trace r)) n"
    using b by (auto simp: between_def base_def seeds_ok_def)
qed

lemma current_idx: "base r m \<Longrightarrow> current r m f \<Longrightarrow> fe_Idx f = r_fileIdx r"
  using manifest_idx [of m "nat (r_fileIdx r)"] by (auto simp: base_def current_def)

lemma current_mem: "base r m \<Longrightarrow> current r m f \<Longrightarrow> f \<in> set (mf_Files m)"
  by (auto simp: base_def current_def)

lemma current_tinv:
  assumes "base r m" and "current r m f"
  shows "tinv r"
proof (rule base_tinv [OF assms(1)])
  have f: "mf_Files m ! nat (r_fileIdx r) = f" using assms(2) by (simp add: current_def)
  show "\<exists>n \<le> fe_Blocks (mf_Files m ! nat (r_fileIdx r)).
      contig (mf_Files m ! nat (r_fileIdx r)) (have_in (r_activeResume r) (mf_Files m ! nat (r_fileIdx r)))
        (written (r_fileIdx r) (r_trace r)) n"
    unfolding f using assms(2) current_idx [OF assms] by (auto simp: current_def)
qed

lemma active_tinv: "active r m \<Longrightarrow> tinv r"
proof (cases "r_file r")
  case None
  then show "active r m \<Longrightarrow> tinv r" by (intro base_tinv [of r m]) (auto simp: active_def)
next
  case (Some f)
  then show "active r m \<Longrightarrow> tinv r" by (intro current_tinv [of r m f]) (auto simp: active_def)
qed

lemma live_tinv: "live r \<Longrightarrow> tinv r"
  using active_tinv [of r] by (auto simp: live_def fresh_def tinv_def)

lemma live_broken: "live r \<Longrightarrow> broken r"
  using live_tinv [of r] by (auto simp: broken_def live_def)

lemma quiet_step_live: "quiet_step f \<Longrightarrow> valid live f live broken"
  by (rule quiet_step_valid) (auto intro: quiet_live live_broken)

lemma send_justified_quiet:
  assumes "r_manifest r = Some m" and "justified (r_activeResume r) m (r_trace r) msg"
    and "Receiver_sendControl msg r = (er, r')"
  shows "quiet r r'"
  using assms(3)
proof (cases rule: sendControl_cases)
  case (sent frame w)
  have "silent r [Sent (r_sendCounter r) msg frame er]"
    using assms(1,2) by (auto simp: silent_def all_justified_snoc)
  with sent show ?thesis by (auto simp: quiet_def)
qed simp

lemma send_justified_live:
  assumes "live r" and "r_manifest r = Some m" and "justified (r_activeResume r) m (r_trace r) msg"
    and "Receiver_sendControl msg r = (er, r')"
  shows "live r'"
  using send_justified_quiet [OF assms(2-4)] assms(1) by (rule quiet_live)

section \<open>Finishing and opening files\<close>

definition going :: "'w Receiver \<Rightarrow> bool" where
  "going r \<longleftrightarrow> \<not> r_settled r \<and> r_err r = None \<and> resume_ok r"

lemma quiet_going: "quiet r r' \<Longrightarrow> going r \<Longrightarrow> going r'"
  using quiet_resume_ok [of r r'] by (auto simp: going_def quiet_def)

lemma live_going: "live r \<longleftrightarrow> going r \<and> (fresh r \<or> (\<exists>m. active r m))"
  by (auto simp: live_def going_def)

definition finishing :: "Manifest \<Rightarrow> FileEntry \<Rightarrow> 'w Receiver \<Rightarrow> bool" where
  "finishing m f r \<longleftrightarrow> going r \<and> base r m \<and> current r m f \<and> r_sink r \<noteq> None \<and> r_nextBlock r = fe_Blocks f"

lemma finish_file_shape:
  obtains s where "quiet (r\<lparr>r_digests := (r_digests r)[nat (fe_Idx f) := got]\<rparr>) s"
    and "finish_file f got r = s\<lparr>r_fileIdx := r_fileIdx r + 1, r_file := None, r_sink := None, r_digest := None\<rparr>"
  by (rule that [OF _ finish_file_def]) (simp add: quiet_notify)

lemma bytes_upto_all: "bytes_upto f (fe_Blocks f) = fe_Size f"
  by (simp add: bytes_upto_def)

lemma sizes_append: "sizes (xs @ ys) = sizes xs + sizes ys"
  by (simp add: sizes_def)

lemma sizes_take_Suc: "i < length fs \<Longrightarrow> sizes (take (Suc i) fs) = sizes (take i fs) + fe_Size (fs ! i)"
  by (simp add: take_Suc_conv_app_nth sizes_append)

lemma finish_between:
  assumes "finishing m f r" and "ClosedSink f None \<in> set (r_trace r)"
    and "HexDigest (foldl Update (digest_in (r_activeResume r) f) (map snd (written (fe_Idx f) (r_trace r))))
      = fe_FileDigest f"
    and "r' = (r\<lparr>r_digests := (r_digests r)[nat (fe_Idx f) := fe_FileDigest f]\<rparr>)
       \<lparr>r_fileIdx := r_fileIdx r + 1, r_file := None, r_sink := None, r_digest := None\<rparr>"
  shows "between r' m"
proof -
  have b: "base r m" and c: "current r m f" using assms(1) by (simp_all add: finishing_def)
  have idx: "fe_Idx f = r_fileIdx r" by (rule current_idx [OF b c])
  have i: "nat (r_fileIdx r) < length (mf_Files m)" "0 \<le> r_fileIdx r" and f: "f = mf_Files m ! nat (r_fileIdx r)"
    using b c by (auto simp: base_def current_def)
  have v: "verified (r_activeResume r) (r_trace r) f"
    using assms(1-3) c by (simp add: verified_def current_def finishing_def)
  have n: "nat (r_fileIdx r + 1) = Suc (nat (r_fileIdx r))" using i(2) by simp
  have "base r' m"
    using b i v f idx unfolding assms(4)
    by (auto simp: base_def buffer_ok_def ahead_ok_def n less_Suc_eq nth_list_update)
  moreover have "written (r_fileIdx r') (r_trace r') = []" using b unfolding assms(4) by (simp add: base_def)
  moreover have "r_acknowledged r' = finished_bytes r' m"
    using c assms(1) i f unfolding assms(4)
    by (simp add: current_def finishing_def finished_bytes_def n sizes_take_Suc bytes_upto_all)
  ultimately show ?thesis by (simp add: between_def)
qed

lemma quiet_file_update:
  assumes "quiet r s"
  shows "quiet (r\<lparr>r_fileIdx := k, r_file := a, r_sink := b, r_digest := c\<rparr>)
     (s\<lparr>r_fileIdx := k, r_file := a, r_sink := b, r_digest := c\<rparr>)"
proof -
  have "silent (r\<lparr>r_fileIdx := k, r_file := a, r_sink := b, r_digest := c\<rparr>) evs = silent r evs" for evs
    by (cases "r_manifest r") (simp_all add: silent_def)
  with assms show ?thesis by (simp add: quiet_def)
qed

lemma quiet_finishing: "quiet r r' \<Longrightarrow> finishing m f r \<Longrightarrow> finishing m f r'"
  using quiet_going [of r r'] quiet_base [of r r' m] quiet_current [of r r' m f]
  by (auto simp: finishing_def quiet_def)

lemma finishing_broken: "finishing m f r \<Longrightarrow> broken r"
  using current_tinv [of r m f] by (auto simp: finishing_def going_def broken_def)

definition ready :: "Manifest \<Rightarrow> 'w Receiver \<Rightarrow> bool" where
  "ready m r \<longleftrightarrow> going r \<and> between r m"

lemma ready_broken: "ready m r \<Longrightarrow> broken r"
  using between_tinv [of r m] by (auto simp: ready_def going_def broken_def)

lemma quiet_ready: "quiet r r' \<Longrightarrow> ready m r \<Longrightarrow> ready m r'"
  using quiet_going [of r r'] quiet_between [of r r' m] by (simp add: ready_def)

lemma finish_file_ready:
  assumes "finishing m f r" and "ClosedSink f None \<in> set (r_trace r)"
    and "r_digest r = Some d" and "HexDigest d = fe_FileDigest f"
  shows "ready m (finish_file f (fe_FileDigest f) r)"
proof -
  let ?a = "r\<lparr>r_digests := (r_digests r)[nat (fe_Idx f) := fe_FileDigest f]\<rparr>"
  let ?u = "\<lambda>x. x\<lparr>r_fileIdx := r_fileIdx r + 1, r_file := None, r_sink := None, r_digest := None\<rparr>"
  obtain s where s: "quiet ?a s" "finish_file f (fe_FileDigest f) r = ?u s"
    by (rule finish_file_shape [of r f "fe_FileDigest f"]) simp
  have d: "HexDigest (foldl Update (digest_in (r_activeResume r) f) (map snd (written (fe_Idx f) (r_trace r))))
      = fe_FileDigest f"
    using assms(1,3,4) by (auto simp: finishing_def current_def)
  have "between (?u ?a) m" by (rule finish_between [OF assms(1,2) d refl])
  moreover have "going (?u ?a)" using assms(1) by (simp add: finishing_def going_def resume_ok_def)
  ultimately have "ready m (?u ?a)" by (simp add: ready_def)
  with quiet_file_update [OF s(1)] show ?thesis unfolding s(2) by (rule quiet_ready)
qed

lemma fileIdx_finish_file: "r_fileIdx (finish_file f got r) = r_fileIdx r + 1"
  by (simp add: finish_file_def)

lemma finishCurrentFile_valid:
  "valid (finishing m f) finishCurrentFile (\<lambda>r. ready m r \<and> r_fileIdx r = fe_Idx f + 1) broken"
proof (rule valid_bothI)
  fix r r' :: "'a Receiver" and er
  assume fin: "finishing m f r" and eq: "finishCurrentFile r = (er, r')"
  obtain sink where sink: "r_sink r = Some sink" using fin by (auto simp: finishing_def)
  obtain d where d: "r_digest r = Some d" "r_file r = Some f" using fin by (auto simp: finishing_def current_def)
  show "(er = None \<longrightarrow> ready m r' \<and> r_fileIdx r' = fe_Idx f + 1) \<and> (er \<noteq> None \<longrightarrow> broken r')"
  proof (cases "HexDigest d = fe_FileDigest f")
    case False
    then show ?thesis
      using eq sink d finishing_broken [OF fin] by (auto simp: finishCurrentFile_def fail_with_def)
  next
    case True
    have "and_then (call_sink (sk_Close sink) (ClosedSink f)) (\<lambda>r. (None, finish_file f (fe_FileDigest f) r)) r = (er, r')"
      using eq sink d True by (simp add: finishCurrentFile_def)
    then show ?thesis
    proof (cases rule: and_then_cases)
      case (failed e)
      from failed(1) have "quiet r r'" by (rule quiet_stepD [OF quiet_step_call_sink, rotated]) simp
      with failed(2) finishing_broken [OF fin] show ?thesis by (auto intro: quiet_broken)
    next
      case (ok t)
      from ok(1) have q: "quiet r t" by (rule quiet_stepD [OF quiet_step_call_sink, rotated]) simp
      have "ClosedSink f None \<in> set (r_trace t)" using ok(1) by (auto elim!: call_sink_cases)
      moreover have "r_digest t = Some d" using q d by (simp add: quiet_def)
      ultimately have "ready m (finish_file f (fe_FileDigest f) t)"
        using finish_file_ready [OF quiet_finishing [OF q fin]] True by blast
      moreover have "r_fileIdx t = fe_Idx f"
        using current_idx [of t m f] quiet_finishing [OF q fin] by (simp add: finishing_def)
      ultimately show ?thesis using ok(2) by (auto simp: fileIdx_finish_file intro: ready_broken)
    qed
  qed
qed

definition opened :: "Manifest \<Rightarrow> FileEntry \<Rightarrow> 'w Receiver \<Rightarrow> bool" where
  "opened m f r \<longleftrightarrow> going r \<and> base r m \<and> current r m f"

lemma quiet_opened: "quiet r r' \<Longrightarrow> opened m f r \<Longrightarrow> opened m f r'"
  using quiet_going [of r r'] quiet_base [of r r' m] quiet_current [of r r' m f] by (simp add: opened_def)

lemma opened_broken: "opened m f r \<Longrightarrow> broken r"
  using current_tinv [of r m f] by (auto simp: opened_def going_def broken_def)

lemma start_file_opened:
  assumes "ready m r" and "r_fileIdx r < int (length (mf_Files m))" and "f = mf_Files m ! nat (r_fileIdx r)"
  shows "opened m f (start_file f r)"
proof -
  have b: "base r m" and w: "written (r_fileIdx r) (r_trace r) = []"
    using assms(1) by (simp_all add: ready_def between_def)
  have i: "nat (r_fileIdx r) < length (mf_Files m)" "0 \<le> r_fileIdx r" using b assms(2) by (auto simp: base_def)
  have idx: "fe_Idx f = r_fileIdx r" using manifest_idx [OF _ i(1)] b i(2) assms(3) by (simp add: base_def)
  have mem: "f \<in> set (mf_Files m)" using i(1) assms(3) by simp
  have hv: "0 \<le> have_in (r_activeResume r) f" "have_in (r_activeResume r) f \<le> fe_Blocks f"
    using b mem by (auto simp: base_def seeds_ok_def)
  have nx: "r_nextBlock (start_file f r) = have_in (r_activeResume r) f"
    and dig: "r_digest (start_file f r) = Some (digest_in (r_activeResume r) f)"
    by (simp_all add: start_file_def Let_def have_in_def digest_in_def seed_of_in)
  have ack: "r_acknowledged (start_file f r) = r_acknowledged r + bytes_upto f (have_in (r_activeResume r) f)"
    by (simp add: start_file_def Let_def have_in_def seed_of_in bytes_upto_def)
  have same: "r_fileIdx (start_file f r) = r_fileIdx r" "r_activeResume (start_file f r) = r_activeResume r"
    "r_trace (start_file f r) = r_trace r" "r_file (start_file f r) = Some f"
    by (simp_all add: start_file_def Let_def)
  have "base (start_file f r) m"
    using b by (auto simp: base_def buffer_ok_def ahead_ok_def start_file_def Let_def)
  moreover have "current (start_file f r) m f"
    using assms hv w idx ack unfolding current_def finished_bytes_def same nx dig
    by (simp add: ready_def between_def finished_bytes_def)
  moreover have "going (start_file f r)"
    using assms(1) by (simp add: ready_def going_def resume_ok_def start_file_def Let_def)
  ultimately show ?thesis by (simp add: opened_def)
qed

lemma open_sink_valid:
  "valid (opened m f) (open_sink f) (\<lambda>r. opened m f r \<and> r_sink r \<noteq> None) broken"
proof (rule valid_bothI)
  fix r r' :: "'a Receiver" and er
  assume op: "opened m f r" and eq: "open_sink f r = (er, r')"
  have sink: "opened m f (s\<lparr>r_sink := k\<rparr>)" if "opened m f s" for s :: "'a Receiver" and k
    using that by (auto simp: opened_def going_def resume_ok_def base_def buffer_ok_def ahead_ok_def
        current_def finished_bytes_def)
  have q: "quiet r (r\<lparr>r_world := w, r_trace := r_trace r @ [Opened f x]\<rparr>)" for w x
    by (auto simp: quiet_def silent_quiet)
  have "(er \<noteq> None \<and> r' = r) \<or> (\<exists>w x. er \<noteq> None \<and> r' = r\<lparr>r_world := w, r_trace := r_trace r @ [Opened f x]\<rparr>)
      \<or> (\<exists>w x k. er = None \<and> r' = (r\<lparr>r_world := w, r_trace := r_trace r @ [Opened f x]\<rparr>)\<lparr>r_sink := Some k\<rparr>)"
    using eq by (auto simp: open_sink_def fail_with_def log_event_def split: option.splits prod.splits sum.splits)
  then show "(er = None \<longrightarrow> opened m f r' \<and> r_sink r' \<noteq> None) \<and> (er \<noteq> None \<longrightarrow> broken r')"
    using op by (auto intro: opened_broken quiet_broken [OF q] sink quiet_opened [OF q])
qed

lemma begin_file_valid:
  "valid (\<lambda>r. ready m r \<and> r_fileIdx r < int (length (mf_Files m)) \<and> f = mf_Files m ! nat (r_fileIdx r))
     (begin_file f) (\<lambda>r. opened m f r \<and> r_sink r \<noteq> None) broken"
proof -
  have "quiet_step (\<lambda>r :: 'a Receiver. case ro_OnManifest (r_o r) of None \<Rightarrow> (None, r)
         | Some g \<Rightarrow> call_sink (g f) (ManifestFile f) r)"
    using quiet_step_call_sink [of "ManifestFile f"]
    by (auto simp: quiet_step_def split: option.split)
  then have v: "valid (opened m f :: 'a Receiver \<Rightarrow> bool) (and_then (\<lambda>r. case ro_OnManifest (r_o r) of None \<Rightarrow> (None, r)
         | Some g \<Rightarrow> call_sink (g f) (ManifestFile f) r) (open_sink f)) (\<lambda>r. opened m f r \<and> r_sink r \<noteq> None) broken"
    by (intro valid_and_then [OF quiet_step_valid open_sink_valid]) (auto intro: quiet_opened opened_broken)
  show ?thesis
  proof (rule valid_bothI)
    fix r r' :: "'a Receiver" and er
    assume "ready m r \<and> r_fileIdx r < int (length (mf_Files m)) \<and> f = mf_Files m ! nat (r_fileIdx r)"
      and "begin_file f r = (er, r')"
    then show "(er = None \<longrightarrow> opened m f r' \<and> r_sink r' \<noteq> None) \<and> (er \<noteq> None \<longrightarrow> broken r')"
      by (intro valid_bothD [OF v]) (auto simp: begin_file_def intro: start_file_opened)
  qed
qed

lemma open_files_valid:
  "valid (\<lambda>r. ready m r \<and> drop (nat (r_fileIdx r)) (mf_Files m) = fs) (open_files fs) live broken"
proof (induction fs)
  case Nil
  have "live (r\<lparr>r_file := None, r_sink := None, r_digest := None\<rparr>)"
    if "ready m r" "drop (nat (r_fileIdx r)) (mf_Files m) = []" for r :: "'a Receiver"
  proof -
    have "r_fileIdx r = int (length (mf_Files m))" using that by (auto simp: ready_def between_def base_def)
    then have "active (r\<lparr>r_file := None, r_sink := None, r_digest := None\<rparr>) m"
      using that(1) by (auto simp: active_def ready_def between_def base_def buffer_ok_def ahead_ok_def
          finished_bytes_def manifest_ok_def)
    with that(1) show ?thesis by (auto simp: live_going ready_def going_def resume_ok_def)
  qed
  then show ?case by (auto simp: valid_def)
next
  case (Cons f fs)
  show ?case
  proof (rule valid_bothI)
    fix r r' :: "'a Receiver" and er
    assume p: "ready m r \<and> drop (nat (r_fileIdx r)) (mf_Files m) = f # fs"
      and eq: "open_files (f # fs) r = (er, r')"
    have i: "nat (r_fileIdx r) < length (mf_Files m)" "0 \<le> r_fileIdx r"
      using p by (auto simp: ready_def between_def base_def intro: ccontr)
    have f: "f = mf_Files m ! nat (r_fileIdx r)" "fs = drop (Suc (nat (r_fileIdx r))) (mf_Files m)"
      using p i(1) by (auto simp: Cons_nth_drop_Suc [symmetric])
    have idx: "fe_Idx f = r_fileIdx r"
      using manifest_idx [OF _ i(1)] p i(2) f(1) by (simp add: ready_def between_def base_def)
    have drop: "drop (nat (fe_Idx f + 1)) (mf_Files m) = fs"
      using f(2) idx i(2) by (simp add: nat_add_distrib)
    have fin: "valid (finishing m f :: 'a Receiver \<Rightarrow> bool) (and_then finishCurrentFile (open_files fs)) live broken"
      by (rule valid_and_then [OF finishCurrentFile_valid]) (rule valid_weaken [OF Cons.IH], use drop in auto)
    have "valid (\<lambda>r :: 'a Receiver. opened m f r \<and> r_sink r \<noteq> None)
       (\<lambda>r. if r_nextBlock r < fe_Blocks f then (None, r) else and_then finishCurrentFile (open_files fs) r)
       live broken"
    proof (rule valid_bothI)
      fix s t :: "'a Receiver" and e
      assume o: "opened m f s \<and> r_sink s \<noteq> None"
        and eq: "(if r_nextBlock s < fe_Blocks f then (None, s)
          else and_then finishCurrentFile (open_files fs) s) = (e, t)"
      show "(e = None \<longrightarrow> live t) \<and> (e \<noteq> None \<longrightarrow> broken t)"
      proof (cases "r_nextBlock s < fe_Blocks f")
        case True
        then have "active s m" using o by (auto simp: active_def opened_def current_def)
        with True eq o show ?thesis by (auto simp: live_going opened_def)
      next
        case False
        then have "finishing m f s" using o by (auto simp: finishing_def opened_def current_def)
        with False eq show ?thesis by (intro valid_bothD [OF fin]) simp_all
      qed
    qed
    from valid_and_then [OF begin_file_valid this]
    have v: "valid (\<lambda>r :: 'a Receiver. ready m r \<and> r_fileIdx r < int (length (mf_Files m)) \<and> f = mf_Files m ! nat (r_fileIdx r))
      (open_files (f # fs)) live broken"
      by (simp add: valid_def)
    show "(er = None \<longrightarrow> live r') \<and> (er \<noteq> None \<longrightarrow> broken r')"
      by (rule valid_bothD [OF v]) (use p i f(1) eq in auto)
  qed
qed

lemma openNextFile_valid: "valid (ready m) openNextFile live broken"
proof -
  have *: "openNextFile r = open_files (drop (nat (r_fileIdx r)) (mf_Files m)) r" if "ready m r" for r :: "'a Receiver"
    using that by (simp add: ready_def between_def base_def openNextFile_def)
  show ?thesis
  proof (rule valid_bothI)
    fix r r' :: "'a Receiver" and er
    assume r: "ready m r" and eq: "openNextFile r = (er, r')"
    show "(er = None \<longrightarrow> live r') \<and> (er \<noteq> None \<longrightarrow> broken r')"
      by (rule valid_bothD [OF open_files_valid]) (use r eq * in auto)
  qed
qed

section \<open>The manifest\<close>

text \<open>A manifest has just been adopted: nothing has been written and nothing that needs a
  justification has been sent.\<close>

definition adopted :: "Manifest \<Rightarrow> 'w Receiver \<Rightarrow> bool" where
  "adopted m r \<longleftrightarrow> ready m r \<and> r_fileIdx r = 0 \<and> r_resumeState r = None \<and> list_all quiet_event (r_trace r)"

definition starting :: "'w Receiver \<Rightarrow> bool" where
  "starting r \<longleftrightarrow> going r \<and> fresh r"

lemma quiet_starting: "quiet r r' \<Longrightarrow> starting r \<Longrightarrow> starting r'"
  using quiet_going [of r r'] quiet_fresh [of r r'] by (simp add: starting_def)

lemma starting_broken: "starting r \<Longrightarrow> broken r"
  by (rule live_broken) (simp add: starting_def live_going)

lemma adopt_manifest_adopted:
  assumes "starting r" and "manifest_ok m"
  shows "adopted m (adopt_manifest m r)"
proof -
  have "base (adopt_manifest m r) m"
    using assms seeds_ok_None [OF assms(2)]
    by (auto simp: starting_def fresh_def base_def buffer_ok_def ahead_ok_def adopt_manifest_def
        written_quiet all_quiet_justified)
  with assms show ?thesis
    by (auto simp: adopted_def ready_def between_def starting_def fresh_def going_def resume_ok_def
        adopt_manifest_def finished_bytes_def written_quiet)
qed

lemma adopted_reseed:
  assumes "adopted m r" and "seeds_ok ar m"
  shows "adopted m (r\<lparr>r_activeResume := ar\<rparr>)"
  using assms by (auto simp: adopted_def ready_def between_def base_def going_def resume_ok_def
      buffer_ok_def ahead_ok_def finished_bytes_def all_quiet_justified)

lemma adopted_notify:
  assumes "adopted m r" and "quiet_event ev"
  shows "adopted m (notify f ev r)"
proof -
  have "ready m (notify f ev r)"
    using assms by (intro quiet_ready [OF quiet_notify]) (auto simp: adopted_def)
  with assms show ?thesis
    by (cases rule: notify_cases [of f ev r]) (auto simp: adopted_def)
qed

lemma apply_seed_valid: "valid (adopted m) (apply_seed m) (adopted m) broken"
proof (rule valid_bothI)
  fix r r' :: "'a Receiver" and er
  assume a: "adopted m r" and eq: "apply_seed m r = (er, r')"
  have b: "broken r" using a by (auto simp: adopted_def intro: ready_broken)
  show "(er = None \<longrightarrow> adopted m r') \<and> (er \<noteq> None \<longrightarrow> broken r')"
  proof (cases "ro_Resume (r_o r)")
    case None
    with a eq show ?thesis by (auto simp: apply_seed_def)
  next
    case (Some rr)
    show ?thesis
    proof (cases "rr_TransferID rr = mf_TransferID m \<and> validateResumeSeed m rr = None")
      case True
      then have "adopted m (r\<lparr>r_activeResume := Some rr\<rparr>)" by (intro adopted_reseed [OF a] seeds_ok_Some) simp
      with Some True eq show ?thesis by (auto simp: apply_seed_def Let_def adopted_notify split: if_splits)
    next
      case False
      with Some a b eq show ?thesis by (auto simp: apply_seed_def fail_with_def split: if_splits option.splits)
    qed
  qed
qed

lemma sendResumeState_valid: "valid (adopted m) (sendResumeState m) (ready m) broken"
proof (rule valid_bothI)
  fix r r' :: "'a Receiver" and er
  assume a: "adopted m r" and eq: "sendResumeState m r = (er, r')"
  have b: "broken r" and m: "r_manifest r = Some m"
    using a by (auto simp: adopted_def ready_def between_def base_def intro: ready_broken)
  show "(er = None \<longrightarrow> ready m r') \<and> (er \<noteq> None \<longrightarrow> broken r')"
  proof (cases "ManifestFingerprint m")
    case (Inl e)
    with a b eq show ?thesis by (auto simp: sendResumeState_def adopted_def)
  next
    case (Inr fp)
    define rs where "rs = (NewResumeState (mf_TransferID m)
      (map (\<lambda>f. \<lparr>rf_Idx = fe_Idx f, rf_HaveBlocks = seed_have r f\<rparr>) (mf_Files m)))\<lparr>rs_ManifestFingerprint := fp\<rparr>"
    let ?s = "r\<lparr>r_resumeState := Some rs\<rparr>"
    have c: "claims (r_activeResume r) m rs"
      using Inr by (simp add: claims_def rs_def NewResumeState_def seed_have_in)
    have "ready m ?s"
      using a c m by (auto simp: adopted_def ready_def between_def base_def going_def resume_ok_def
          buffer_ok_def ahead_ok_def finished_bytes_def)
    moreover have "Receiver_sendControl (MResumeState rs) ?s = (er, r')"
      using a eq Inr by (simp add: sendResumeState_def adopted_def Let_def rs_def)
    then have "quiet ?s r'" by (intro send_justified_quiet [of ?s m]) (use m c in simp_all)
    ultimately have "ready m r'" by (auto intro: quiet_ready)
    then show ?thesis by (auto intro: ready_broken)
  qed
qed

lemma answer_resume_valid: "valid (adopted m) (answer_resume m) (ready m) broken"
proof (rule valid_bothI)
  fix r r' :: "'a Receiver" and er
  assume a: "adopted m r" and eq: "answer_resume m r = (er, r')"
  show "(er = None \<longrightarrow> ready m r') \<and> (er \<noteq> None \<longrightarrow> broken r')"
  proof (cases "mf_TransferID m = ''''")
    case True
    with a eq show ?thesis by (auto simp: answer_resume_def adopted_def)
  next
    case False
    then show ?thesis
      using a eq by (intro valid_bothD [OF valid_and_then [OF apply_seed_valid sendResumeState_valid]])
        (simp_all add: answer_resume_def)
  qed
qed

lemma accept_manifest_valid:
  assumes "manifest_ok m"
  shows "valid starting (accept_manifest m d) live broken"
proof -
  have q: "quiet_step f \<Longrightarrow> valid starting f starting broken" for f :: "'a rstep"
    by (rule quiet_step_valid) (auto intro: quiet_starting starting_broken)
  have q2: "quiet_step (\<lambda>r :: 'a Receiver. case ro_OnManifestSet (r_o r) of None \<Rightarrow> (None, r)
         | Some f \<Rightarrow> call_sink (f m) (ManifestSet m) r)"
    using quiet_step_call_sink [of "ManifestSet m"] by (auto simp: quiet_step_def split: option.split)
  have adopt: "valid starting (\<lambda>r. (None, adopt_manifest m r)) (adopted m) broken"
    using adopt_manifest_adopted [OF _ assms] by (auto simp: valid_def)
  show ?thesis unfolding accept_manifest_def
    by (intro valid_and_then [OF q] valid_and_then [OF adopt] valid_and_then [OF answer_resume_valid]
        openNextFile_valid q2 quiet_intros) simp
qed

lemma applyManifest_valid: "valid live (applyManifest payload) live broken"
proof (rule valid_bothI)
  fix r r' :: "'a Receiver" and er
  assume l: "live r" and eq: "applyManifest payload r = (er, r')"
  note b = live_broken [OF l]
  show "(er = None \<longrightarrow> live r') \<and> (er \<noteq> None \<longrightarrow> broken r')"
  proof (cases "\<exists>m v. DecodeControl payload = Inr (MManifest m) \<and> ValidateManifest m = Inr v")
    case False
    then have "er \<noteq> None \<and> r' = r"
      using eq by (auto simp: applyManifest_def fail_with_def split: sum.splits ControlMsg.splits)
    with b show ?thesis by auto
  next
    case True
    then obtain m v where d: "DecodeControl payload = Inr (MManifest m)" "ValidateManifest m = Inr v" by blast
    have ok: "manifest_ok v" by (rule ValidateManifest_Inr(1) [OF d(2)])
    show ?thesis
    proof (cases "r_manifest r")
      case None
      then have st: "starting r" using l by (auto simp: starting_def live_going active_def base_def)
      show ?thesis
      proof (cases "r_destination r")
        case None
        with \<open>r_manifest r = None\<close> d eq b show ?thesis by (auto simp: applyManifest_def fail_with_def)
      next
        case (Some dst)
        with None d eq have "accept_manifest v dst r = (er, r')" by (simp add: applyManifest_def)
        with st show ?thesis by (intro valid_bothD [OF accept_manifest_valid [OF ok]])
      qed
    next
      case (Some old)
      have "(er \<noteq> None \<and> r' = r) \<or> (er = None \<and> r' = r)
          \<or> (\<exists>rs. r_resumeState r = Some rs \<and> Receiver_sendControl (MResumeState rs) r = (er, r'))"
        using Some d eq by (auto simp: applyManifest_def fail_with_def split: if_splits option.splits)
      moreover have "live r'" if "r_resumeState r = Some rs" "Receiver_sendControl (MResumeState rs) r = (er, r')" for rs
      proof -
        have "claims (r_activeResume r) old rs" using that(1) l Some by (auto simp: live_def resume_ok_def)
        then show ?thesis by (intro send_justified_live [OF l Some _ that(2)]) simp
      qed
      ultimately show ?thesis using l b by (auto intro: live_broken)
    qed
  qed
qed

section \<open>Blocks\<close>

lemma quiet_requestMissing [quiet_intros]: "quiet_step requestMissing"
proof -
  have "quiet_step (Receiver_sendControl (NewNack a b NackMissing) :: 'a rstep)" for a b
    by (intro quiet_intros) (simp add: NewNack_def)
  then have "quiet s (snd (Receiver_sendControl (NewNack a b NackMissing) s))" for s :: "'a Receiver" and a b
    by (simp add: quiet_step_def)
  moreover have "quiet r (r\<lparr>r_nackOutstanding := n\<rparr>)" for r :: "'a Receiver" and n
    by (simp add: quiet_def silent_quiet)
  ultimately have "quiet r (snd (Receiver_sendControl (NewNack a b NackMissing) (r\<lparr>r_nackOutstanding := n\<rparr>)))"
    for r :: "'a Receiver" and a b n by (blast intro: quiet_trans)
  then show ?thesis by (simp add: quiet_step_def requestMissing_def)
qed

text \<open>Only the assembly buffer changes.\<close>

lemma active_buffer:
  assumes "active r m" and "r' = r\<lparr>r_assemblingFile := a, r_assembling := b, r_blockBuf := c,
      r_blockReceived := d, r_awaitingRestart := e\<rparr>" and "buffer_ok r' m"
  shows "active r' m"
  using assms unfolding assms(2)
  by (auto simp: active_def base_def ahead_ok_def current_def finished_bytes_def split: option.splits)

lemma live_buffer:
  assumes "live r" and "active r m" and "r' = r\<lparr>r_assemblingFile := a, r_assembling := b, r_blockBuf := c,
      r_blockReceived := d, r_awaitingRestart := e\<rparr>" and "buffer_ok r' m"
  shows "live r'"
  using active_buffer [OF assms(2-4)] assms(1) unfolding assms(3)
  by (auto simp: live_going going_def resume_ok_def)

lemma live_active: "live r \<Longrightarrow> r_manifest r = Some m \<Longrightarrow> active r m"
  by (auto simp: live_going fresh_def active_def base_def)

lemma add_fragment_live:
  assumes "live r" and "active r m" and "add_fragment fi idx off payload r = (er, r')"
  shows "(er = None \<longrightarrow> live r') \<and> (er \<noteq> None \<longrightarrow> broken r')"
proof (cases "\<exists>buf. r_blockBuf r = Some buf \<and> off = r_blockReceived r
    \<and> off + int (length payload) \<le> int (length buf) \<and> r_assemblingFile r = fi \<and> r_assembling r = idx")
  case False
  then have "er \<noteq> None \<and> r' = r"
    using assms(3) by (auto simp: add_fragment_def fail_with_def split: option.splits if_splits)
  with live_broken [OF assms(1)] show ?thesis by auto
next
  case True
  then obtain buf where b: "r_blockBuf r = Some buf" "off = r_blockReceived r"
    "off + int (length payload) \<le> int (length buf)" by blast
  have buf: "buffer_ok r m" using assms(2) by (simp add: active_def base_def)
  then have off: "0 \<le> off" using b by (simp add: buffer_ok_def)
  then have "nat off + length payload \<le> length buf" using b(3) by linarith
  then have len: "length (copy_at (nat off) payload buf) = length buf" by simp
  have r': "er = None" "r' = r\<lparr>r_assemblingFile := r_assemblingFile r, r_assembling := r_assembling r,
      r_blockBuf := Some (copy_at (nat off) payload buf),
      r_blockReceived := r_blockReceived r + int (length payload), r_awaitingRestart := r_awaitingRestart r\<rparr>"
    using assms(3) True b by (auto simp: add_fragment_def)
  have "buffer_ok r' m" using buf b len unfolding r'(2) by (auto simp: buffer_ok_def Let_def)
  from live_buffer [OF assms(1,2) r'(2) this] r'(1) show ?thesis by simp
qed

lemma onBlockData_valid: "valid live (onBlockData fi bi off payload) live broken"
proof (rule valid_bothI)
  fix r r' :: "'a Receiver" and er
  assume l: "live r" and eq: "onBlockData fi bi off payload r = (er, r')"
  note b = live_broken [OF l]
  show "(er = None \<longrightarrow> live r') \<and> (er \<noteq> None \<longrightarrow> broken r')"
  proof (cases "r_manifest r")
    case None
    with eq l b show ?thesis by (auto simp: onBlockData_def)
  next
    case (Some m)
    note act = live_active [OF l Some]
    let ?f = "mf_Files m ! nat (uint fi)"
    let ?s = "r\<lparr>r_assemblingFile := uint fi, r_assembling := uint bi,
        r_blockBuf := Some (replicate (nat (block_len ?f (uint bi))) 0), r_blockReceived := 0,
        r_awaitingRestart := False\<rparr>"
    have cases: "(er \<noteq> None \<and> r' = r) \<or> (er = None \<and> r' = r)
      \<or> add_fragment (uint fi) (uint bi) (uint off) payload r = (er, r')
      \<or> (uint fi < int (length (mf_Files m)) \<and> uint fi \<le> r_fileIdx r \<and> uint bi < fe_Blocks ?f
         \<and> add_fragment (uint fi) (uint bi) 0 payload ?s = (er, r'))"
      using eq Some by (auto simp: onBlockData_def fail_with_def Let_def not_le split: if_splits)
    have "live ?s \<and> active ?s m" if c: "uint fi < int (length (mf_Files m))" "uint fi \<le> r_fileIdx r"
      "uint bi < fe_Blocks ?f"
    proof -
      have "nat (uint fi) < length (mf_Files m)"
        using c(1) nat_less_iff [of "uint fi" "length (mf_Files m)"] by (metis unsigned_greater_eq)
      then have "file_ok ?f" using act by (intro manifest_file_ok [of m]) (auto simp: active_def base_def)
      then have "0 < block_len ?f (uint bi)" using block_len_cases(2) c(3) by simp
      then have "buffer_ok ?s m" using c by (simp add: buffer_ok_def Let_def)
      then show ?thesis using live_buffer [OF l act refl] active_buffer [OF act refl] by blast
    qed
    then have start: "(er = None \<longrightarrow> live r') \<and> (er \<noteq> None \<longrightarrow> broken r')"
      if "uint fi < int (length (mf_Files m)) \<and> uint fi \<le> r_fileIdx r \<and> uint bi < fe_Blocks ?f
         \<and> add_fragment (uint fi) (uint bi) 0 payload ?s = (er, r')"
      using that add_fragment_live [of ?s m "uint fi" "uint bi" 0 payload er r'] by blast
    from cases show ?thesis
    proof (elim disjE)
      assume "er \<noteq> None \<and> r' = r" then show ?thesis using b by auto
    next
      assume "er = None \<and> r' = r" then show ?thesis using l by auto
    next
      assume "add_fragment (uint fi) (uint bi) (uint off) payload r = (er, r')"
      then show ?thesis by (rule add_fragment_live [OF l act])
    qed (rule start)
  qed
qed

text \<open>The block just written is in the history but not yet counted.\<close>

definition wrote :: "Manifest \<Rightarrow> FileEntry \<Rightarrow> bytes \<Rightarrow> 'w Receiver \<Rightarrow> bool" where
  "wrote m f block r \<longleftrightarrow> going r \<and> base r m \<and> r_file r = Some f \<and> r_sink r \<noteq> None
     \<and> r_fileIdx r < int (length (mf_Files m)) \<and> f = mf_Files m ! nat (r_fileIdx r)
     \<and> r_digest r = Some (foldl Update (digest_in (r_activeResume r) f) (map snd (written (fe_Idx f) (r_trace r))))
     \<and> contig f (have_in (r_activeResume r) f) (written (fe_Idx f) (r_trace r)) (r_nextBlock r + 1)
     \<and> (\<exists>bs. (r_nextBlock r * fe_BlockSize f, bs) \<in> set (written (fe_Idx f) (r_trace r)))
     \<and> 0 \<le> r_nextBlock r \<and> r_nextBlock r < fe_Blocks f \<and> int (length block) = block_len f (r_nextBlock r)
     \<and> r_acknowledged r = finished_bytes r m + bytes_upto f (r_nextBlock r)"

text \<open>The digest already covers the block that is about to be written.\<close>

definition writing :: "Manifest \<Rightarrow> FileEntry \<Rightarrow> bytes \<Rightarrow> int \<Rightarrow> 'w Receiver \<Rightarrow> bool" where
  "writing m f block k r \<longleftrightarrow> going r \<and> base r m \<and> r_file r = Some f \<and> r_sink r \<noteq> None
     \<and> r_fileIdx r < int (length (mf_Files m)) \<and> f = mf_Files m ! nat (r_fileIdx r)
     \<and> r_digest r = Some (Update (foldl Update (digest_in (r_activeResume r) f)
           (map snd (written (fe_Idx f) (r_trace r)))) block)
     \<and> contig f (have_in (r_activeResume r) f) (written (fe_Idx f) (r_trace r)) k
     \<and> r_nextBlock r = k \<and> 0 \<le> k \<and> k < fe_Blocks f \<and> int (length block) = block_len f k
     \<and> r_acknowledged r = finished_bytes r m + bytes_upto f k"

lemma writing_idx: "writing m f block k r \<Longrightarrow> fe_Idx f = r_fileIdx r"
  using manifest_idx [of m "nat (r_fileIdx r)"] by (auto simp: writing_def base_def)

lemma writing_broken: "writing m f block k r \<Longrightarrow> broken r"
proof -
  assume w: "writing m f block k r"
  have f: "mf_Files m ! nat (r_fileIdx r) = f" using w by (simp add: writing_def)
  have "tinv r"
  proof (rule base_tinv)
    show "base r m" using w by (simp add: writing_def)
    show "\<exists>n \<le> fe_Blocks (mf_Files m ! nat (r_fileIdx r)).
      contig (mf_Files m ! nat (r_fileIdx r)) (have_in (r_activeResume r) (mf_Files m ! nat (r_fileIdx r)))
        (written (r_fileIdx r) (r_trace r)) n"
      unfolding f using w writing_idx [OF w] by (intro exI [of _ k]) (auto simp: writing_def)
  qed
  then show ?thesis using w by (simp add: writing_def going_def broken_def)
qed

lemma quiet_writing: "quiet r r' \<Longrightarrow> writing m f block k r \<Longrightarrow> writing m f block k r'"
  using quiet_going [of r r'] quiet_base [of r r' m]
  by (auto simp: writing_def quiet_def silent_def finished_bytes_def)

lemma attachDigestState_quiet: "quiet_step (attachDigestState f sink d)"
  using quiet_step_call_sink [of "StateSet f"]
  by (auto simp: quiet_step_def attachDigestState_def Let_def split: option.split)

lemma write_wrote:
  assumes "writing m f block k r"
    and "r' = r\<lparr>r_world := w, r_trace := r_trace r @ [Wrote f (k * fe_BlockSize f) block None]\<rparr>"
  shows "wrote m f block r'"
proof -
  have idx: "fe_Idx f = r_fileIdx r" by (rule writing_idx [OF assms(1)])
  have b: "base r m" using assms(1) by (simp add: writing_def)
  have ok: "manifest_ok m" using b by (simp add: base_def)
  have "verified (r_activeResume r) (r_trace r') (mf_Files m ! i)" if "i < nat (r_fileIdx r)" for i
  proof -
    have i: "i < length (mf_Files m)" using that b by (auto simp: base_def)
    have "fe_Idx (mf_Files m ! i) \<noteq> fe_Idx f" using manifest_idx [OF ok i] that idx by simp
    moreover have "verified (r_activeResume r) (r_trace r) (mf_Files m ! i)"
      using b that by (simp add: base_def)
    ultimately show ?thesis unfolding assms(2) by (simp add: verified_def)
  qed
  then have "base r' m"
    using b idx unfolding assms(2)
    by (auto simp: base_def buffer_ok_def ahead_ok_def all_justified_snoc)
  then show ?thesis
    using assms(1) unfolding assms(2)
    by (auto simp: wrote_def writing_def going_def resume_ok_def contig_snoc finished_bytes_def)
qed

lemma write_valid:
  "valid (writing m f block k) (call_sink (sk_Write sink (k * fe_BlockSize f) block)
     (Wrote f (k * fe_BlockSize f) block)) (\<lambda>r. wrote m f block r \<and> r_nextBlock r = k) broken"
proof (rule valid_bothI)
  fix r r' :: "'a Receiver" and er
  assume w: "writing m f block k r" and eq: "call_sink (sk_Write sink (k * fe_BlockSize f) block)
     (Wrote f (k * fe_BlockSize f) block) r = (er, r')"
  from eq obtain v x where r': "r' = r\<lparr>r_world := v, r_trace := r_trace r @ [Wrote f (k * fe_BlockSize f) block x]\<rparr>"
    and x: "er = None \<longleftrightarrow> x = None" by (rule call_sink_cases)
  show "(er = None \<longrightarrow> wrote m f block r' \<and> r_nextBlock r' = k) \<and> (er \<noteq> None \<longrightarrow> broken r')"
  proof (cases x)
    case None
    then have "wrote m f block r'" unfolding r' by (intro write_wrote [OF w]) simp
    moreover have "r_nextBlock r' = k" using w unfolding r' by (simp add: writing_def)
    ultimately show ?thesis using x None by simp
  next
    case (Some e)
    then have "quiet r r'" unfolding r' by (simp add: quiet_def silent_quiet)
    with Some x writing_broken [OF w] show ?thesis by (auto intro: quiet_broken)
  qed
qed

definition counted :: "Manifest \<Rightarrow> FileEntry \<Rightarrow> int \<Rightarrow> 'w Receiver \<Rightarrow> bool" where
  "counted m f k r \<longleftrightarrow> opened m f r \<and> r_sink r \<noteq> None \<and> r_nextBlock r = k + 1
     \<and> (\<exists>bs. (k * fe_BlockSize f, bs) \<in> set (written (fe_Idx f) (r_trace r)))"

lemma quiet_counted: "quiet r r' \<Longrightarrow> counted m f k r \<Longrightarrow> counted m f k r'"
  using quiet_opened [of r r' m f] by (auto simp: counted_def quiet_def silent_def)

lemma count_block_counted:
  assumes "wrote m f block r"
  shows "counted m f (r_nextBlock r) (count_block f off block r)"
proof -
  let ?s = "r\<lparr>r_nextBlock := r_nextBlock r + 1, r_nackOutstanding := -1,
      r_acknowledged := r_acknowledged r + int (length block)\<rparr>"
  have b: "base r m" using assms by (simp add: wrote_def)
  have "f \<in> set (mf_Files m)" using assms b by (auto simp: wrote_def base_def)
  then have ok: "file_ok f" using b by (intro manifest_file_ok [of m]) (simp_all add: base_def)
  have k: "0 \<le> r_nextBlock r" "r_nextBlock r < fe_Blocks f"
    and mem: "\<exists>bs. (r_nextBlock r * fe_BlockSize f, bs) \<in> set (written (fe_Idx f) (r_trace r))"
    using assms unfolding wrote_def by blast+
  note step = bytes_upto_step [OF ok k]
  have "opened m f ?s"
    using assms b step by (auto simp: opened_def wrote_def going_def resume_ok_def base_def buffer_ok_def
        ahead_ok_def current_def finished_bytes_def)
  then have "counted m f (r_nextBlock r) ?s" using assms mem by (simp add: counted_def wrote_def)
  moreover have "quiet ?s (count_block f off block r)"
    unfolding count_block_def Let_def by (intro quiet_trans [OF quiet_notify quiet_notify]) simp_all
  ultimately show ?thesis by (blast intro: quiet_counted)
qed

lemma counted_broken: "counted m f k r \<Longrightarrow> broken r"
  by (auto simp: counted_def intro: opened_broken)

lemma counted_backed:
  assumes "counted m f k r" and "0 \<le> k"
  shows "backed (r_activeResume r) m (r_trace r) (fe_Idx f) k"
proof -
  have b: "base r m" and c: "current r m f" using assms(1) by (simp_all add: counted_def opened_def)
  note idx = current_idx [OF b c]
  have f: "mf_Files m ! nat (fe_Idx f) = f" using c idx by (simp add: current_def)
  have "k + 1 \<le> fe_Blocks f" using assms(1) c by (auto simp: counted_def current_def)
  moreover have "0 \<le> r_fileIdx r" "r_fileIdx r < int (length (mf_Files m))"
    using b c by (simp_all add: base_def current_def)
  ultimately show ?thesis
    using assms idx unfolding backed_def Let_def f by (auto simp: counted_def)
qed

lemma ack_valid:
  assumes "0 \<le> k"
  shows "valid (counted m f k) (Receiver_sendControl (NewAck (fe_Idx f) k)) (counted m f k) broken"
proof (rule valid_bothI)
  fix r r' :: "'a Receiver" and er
  assume c: "counted m f k r" and eq: "Receiver_sendControl (NewAck (fe_Idx f) k) r = (er, r')"
  have m: "r_manifest r = Some m" using c by (simp add: counted_def opened_def base_def)
  have "quiet r r'"
    by (rule send_justified_quiet [OF m _ eq]) (simp add: NewAck_def counted_backed [OF c assms])
  with c show "(er = None \<longrightarrow> counted m f k r') \<and> (er \<noteq> None \<longrightarrow> broken r')"
    by (auto intro: quiet_counted counted_broken)
qed

lemma ahead_remove: "ahead_ok r \<Longrightarrow> ahead_ok (r\<lparr>r_seenAhead := r_seenAhead r - {k}\<rparr>)"
  using card_Diff1_le [of "r_seenAhead r" k] by (auto simp: ahead_ok_def)

lemma active_ahead:
  assumes "active r m" and "ahead_ok (r\<lparr>r_seenAhead := A\<rparr>)"
  shows "active (r\<lparr>r_seenAhead := A\<rparr>) m"
  using assms by (auto simp: active_def base_def buffer_ok_def current_def finished_bytes_def split: option.splits)

lemma live_ahead:
  assumes "live r" and "active r m" and "ahead_ok (r\<lparr>r_seenAhead := A\<rparr>)"
  shows "live (r\<lparr>r_seenAhead := A\<rparr>)"
  using active_ahead [OF assms(2,3)] assms(1) by (auto simp: live_going going_def resume_ok_def)

lemma requestMissing_valid: "valid live requestMissing live broken"
  by (rule quiet_step_live) (rule quiet_requestMissing)

lemma after_commit_valid: "valid (counted m f k) (after_commit f) live broken"
proof (rule valid_bothI)
  fix r r' :: "'a Receiver" and er
  assume c: "counted m f k r" and eq: "after_commit f r = (er, r')"
  have op: "opened m f r" and sink: "r_sink r \<noteq> None" using c by (simp_all add: counted_def)
  show "(er = None \<longrightarrow> live r') \<and> (er \<noteq> None \<longrightarrow> broken r')"
  proof (cases "r_nextBlock r = fe_Blocks f")
    case True
    then have "finishing m f r" using op sink by (simp add: opened_def finishing_def)
    moreover have v: "valid (finishing m f :: 'a Receiver \<Rightarrow> bool) (and_then finishCurrentFile openNextFile) live broken"
      by (rule valid_and_then [OF valid_weaken [OF finishCurrentFile_valid] openNextFile_valid]) auto
    ultimately show ?thesis using True eq by (intro valid_bothD [OF v]) (simp_all add: after_commit_def)
  next
    case False
    then have act: "active r m" using op sink by (auto simp: active_def opened_def current_def)
    then have l: "live r" using op by (auto simp: live_going opened_def)
    have "ahead_ok r" using act by (simp add: active_def base_def)
    then have "live (r\<lparr>r_seenAhead := r_seenAhead r - {r_nextBlock r}\<rparr>)"
      by (intro live_ahead [OF l act] ahead_remove)
    with False eq l show ?thesis
      by (cases "r_nextBlock r \<in> r_seenAhead r")
        (auto simp: after_commit_def dest: valid_bothD [OF requestMissing_valid])
  qed
qed

lemma commit_block_valid:
  assumes "active r m" and "live r" and "r_file r = Some f" and "r_digest r = Some d"
    and "bh_FileIdx bh = r_fileIdx r" and "bh_BlockIdx bh = r_nextBlock r"
    and "int (length block) = block_len f (r_nextBlock r)"
    and "commit_block f sink d block bh r = (er, r')"
  shows "(er = None \<longrightarrow> live r') \<and> (er \<noteq> None \<longrightarrow> broken r')"
proof -
  let ?k = "r_nextBlock r"
  let ?s = "r\<lparr>r_digest := Some (Update d block)\<rparr>"
  have b: "base r m" and c: "current r m f" and lt: "?k < fe_Blocks f" and sk: "r_sink r \<noteq> None"
    using assms(1,3) by (auto simp: active_def)
  have idx: "fe_Idx f = r_fileIdx r" by (rule current_idx [OF b c])
  have "0 \<le> have_in (r_activeResume r) f" using b current_mem [OF b c] by (auto simp: base_def seeds_ok_def)
  then have k: "0 \<le> ?k" using contig_length [of f _ _ ?k] c by (fastforce simp: current_def)
  have "writing m f block ?k ?s"
    using assms b c lt k sk
    by (auto simp: writing_def live_going going_def resume_ok_def base_def buffer_ok_def ahead_ok_def
        current_def finished_bytes_def)
  moreover have v: "valid (writing m f block ?k :: 'a Receiver \<Rightarrow> bool)
     (and_then (attachDigestState f sink (Update d block))
      (and_then (call_sink (sk_Write sink (?k * fe_BlockSize f) block) (Wrote f (?k * fe_BlockSize f) block))
      (and_then (\<lambda>r. (None, count_block f (?k * fe_BlockSize f) block r))
      (and_then (Receiver_sendControl (NewAck (fe_Idx f) ?k)) (after_commit f))))) live broken"
  proof (intro valid_and_then)
    show "valid (writing m f block ?k) (attachDigestState f sink (Update d block)) (writing m f block ?k) broken"
      by (rule quiet_step_valid [OF attachDigestState_quiet]) (auto intro: quiet_writing writing_broken)
    show "valid (writing m f block ?k) (call_sink (sk_Write sink (?k * fe_BlockSize f) block)
        (Wrote f (?k * fe_BlockSize f) block)) (\<lambda>r. wrote m f block r \<and> r_nextBlock r = ?k) broken"
      by (rule write_valid)
    show "valid (\<lambda>r. wrote m f block r \<and> r_nextBlock r = ?k)
        (\<lambda>r. (None, count_block f (?k * fe_BlockSize f) block r)) (counted m f ?k) broken"
      by (auto simp: valid_def) (metis count_block_counted)
    show "valid (counted m f ?k) (Receiver_sendControl (NewAck (fe_Idx f) ?k)) (counted m f ?k) broken"
      by (rule ack_valid [OF k])
    show "valid (counted m f ?k) (after_commit f) live broken" by (rule after_commit_valid)
  qed
  ultimately show ?thesis
    using assms(5,6,8) idx by (intro valid_bothD [OF v]) (simp_all add: commit_block_def Let_def)
qed

text \<open>A block whose assembly has been verified against the manifest.\<close>

definition placed :: "Manifest \<Rightarrow> int \<Rightarrow> int \<Rightarrow> bytes \<Rightarrow> 'w Receiver \<Rightarrow> bool" where
  "placed m fi b block r \<longleftrightarrow> live r \<and> active r m \<and> 0 \<le> fi \<and> fi \<le> r_fileIdx r \<and> fi < int (length (mf_Files m))
     \<and> 0 \<le> b \<and> b < fe_Blocks (mf_Files m ! nat fi) \<and> int (length block) = block_len (mf_Files m ! nat fi) b"

lemma backed_contig:
  assumes "manifest_ok m" and "0 \<le> fi" and "fi < int (length (mf_Files m))"
    and "f = mf_Files m ! nat fi" and "contig f (have_in ar f) (written fi tr) n"
    and "0 \<le> b" and "b < n" and "b < fe_Blocks f"
  shows "backed ar m tr fi b"
  using assms contig_mem [OF assms(5), of b] by (fastforce simp: backed_def Let_def not_less)

lemma ack_live:
  assumes "live r" and "active r m" and "backed (r_activeResume r) m (r_trace r) fi b"
    and "Receiver_sendControl (NewAck fi b) r = (er, r')"
  shows "(er = None \<longrightarrow> live r') \<and> (er \<noteq> None \<longrightarrow> broken r')"
proof -
  have m: "r_manifest r = Some m" using assms(2) by (simp add: active_def base_def)
  have "live r'"
    by (rule send_justified_live [OF assms(1) m _ assms(4)]) (simp add: NewAck_def assms(3))
  then show ?thesis by (auto intro: live_broken)
qed

lemma ahead_insert:
  "ahead_ok r \<Longrightarrow> card (r_seenAhead r) < DefaultInflightBlocks \<Longrightarrow>
     ahead_ok (r\<lparr>r_seenAhead := insert k (r_seenAhead r)\<rparr>)"
  by (auto simp: ahead_ok_def card_insert_if)

lemma place_block_live:
  assumes "placed m (bh_FileIdx bh) (bh_BlockIdx bh) block r" and "place_block block bh r = (er, r')"
  shows "(er = None \<longrightarrow> live r') \<and> (er \<noteq> None \<longrightarrow> broken r')"
proof -
  let ?fi = "bh_FileIdx bh" and ?b = "bh_BlockIdx bh"
  have l: "live r" and act: "active r m" and fi: "0 \<le> ?fi" "?fi < int (length (mf_Files m))" "?fi \<le> r_fileIdx r"
    and bk: "0 \<le> ?b" "?b < fe_Blocks (mf_Files m ! nat ?fi)"
    and len: "int (length block) = block_len (mf_Files m ! nat ?fi) ?b"
    using assms(1) by (simp_all add: placed_def)
  have b: "base r m" and ok: "manifest_ok m" using act by (simp_all add: active_def base_def)
  note broken = live_broken [OF l]
  show ?thesis
  proof (cases "?fi < r_fileIdx r")
    case True
    then have i: "nat ?fi < nat (r_fileIdx r)" using fi(1) by simp
    then have "verified (r_activeResume r) (r_trace r) (mf_Files m ! nat ?fi)" using b by (simp add: base_def)
    moreover have "fe_Idx (mf_Files m ! nat ?fi) = ?fi" using manifest_idx [OF ok, of "nat ?fi"] fi by simp
    ultimately have "contig (mf_Files m ! nat ?fi) (have_in (r_activeResume r) (mf_Files m ! nat ?fi))
        (written ?fi (r_trace r)) (fe_Blocks (mf_Files m ! nat ?fi))" using verified_contig by metis
    then have "backed (r_activeResume r) m (r_trace r) ?fi ?b"
      by (rule backed_contig [OF ok fi(1,2) refl]) (use bk in simp_all)
    with True assms(2) show ?thesis
      by (intro ack_live [OF l act]) (simp_all add: place_block_def)
  next
    case False
    then have eqi: "?fi = r_fileIdx r" using fi(3) by simp
    show ?thesis
    proof (cases "r_file r")
      case None
      then have "er \<noteq> None \<and> r' = r" using assms(2) False by (auto simp: place_block_def fail_with_def)
      with broken show ?thesis by auto
    next
      case (Some f)
      then have c: "current r m f" and sk: "r_sink r \<noteq> None" using act by (auto simp: active_def)
      obtain sink d where sd: "r_sink r = Some sink" "r_digest r = Some d" using sk c by (auto simp: current_def)
      have f: "mf_Files m ! nat ?fi = f" and idx: "fe_Idx f = ?fi"
        using c current_idx [OF b c] eqi by (simp_all add: current_def)
      consider "?b < r_nextBlock r" | "r_nextBlock r < ?b" | "?b = r_nextBlock r" by linarith
      then show ?thesis
      proof cases
        case 1
        have "backed (r_activeResume r) m (r_trace r) ?fi ?b"
          by (rule backed_contig [OF ok fi(1,2) f [symmetric]]) (use 1 bk c idx f in \<open>auto simp: current_def\<close>)
        with 1 assms(2) Some sd eqi show ?thesis
          by (intro ack_live [OF l act]) (simp_all add: place_block_def)
      next
        case 2
        have "ahead_ok r" using b by (simp add: base_def)
        then have "live (if card (r_seenAhead r) < DefaultInflightBlocks
            then r\<lparr>r_seenAhead := insert ?b (r_seenAhead r)\<rparr> else r)"
          using l by (auto intro: live_ahead [OF l act] ahead_insert)
        with 2 assms(2) Some sd eqi show ?thesis
          by (intro valid_bothD [OF requestMissing_valid]) (simp_all add: place_block_def)
      next
        case 3
        with assms(2) Some sd eqi have "commit_block f sink d block bh r = (er, r')"
          by (simp add: place_block_def)
        from commit_block_valid [OF act l Some sd(2) eqi 3 _ this] len f 3 show ?thesis by simp
      qed
    qed
  qed
qed

lemma onBlockHash_valid: "valid live (onBlockHash payload) live broken"
proof (rule valid_bothI)
  fix r r' :: "'a Receiver" and er
  assume l: "live r" and eq: "onBlockHash payload r = (er, r')"
  note b = live_broken [OF l]
  let ?s = "r\<lparr>r_blockBuf := None, r_blockReceived := 0, r_assembling := -1, r_assemblingFile := -1\<rparr>"
  have cases: "(er \<noteq> None \<and> r' = r) \<or> (er = None \<and> r' = r)
    \<or> (\<exists>m block bh. r_manifest r = Some m \<and> r_blockBuf r = Some block \<and> bh_FileIdx bh = r_assemblingFile r
        \<and> bh_BlockIdx bh = r_assembling r \<and> place_block block bh ?s = (er, r'))"
    using eq by (auto simp: onBlockHash_def fail_with_def split: if_splits option.splits sum.splits ControlMsg.splits)
  have "(er = None \<longrightarrow> live r') \<and> (er \<noteq> None \<longrightarrow> broken r')"
    if h: "r_manifest r = Some m" "r_blockBuf r = Some block" "bh_FileIdx bh = r_assemblingFile r"
      "bh_BlockIdx bh = r_assembling r" "place_block block bh ?s = (er, r')" for m block bh
  proof -
    note act = live_active [OF l h(1)]
    have s: "?s = r\<lparr>r_assemblingFile := -1, r_assembling := -1, r_blockBuf := None, r_blockReceived := 0,
      r_awaitingRestart := r_awaitingRestart r\<rparr>" by simp
    have n: "buffer_ok ?s m" by (simp add: buffer_ok_def)
    have "buffer_ok r m" using act by (simp add: active_def base_def)
    then have "placed m (bh_FileIdx bh) (bh_BlockIdx bh) block ?s"
      using h(2-4) live_buffer [OF l act s n] active_buffer [OF act s n]
      by (auto simp: placed_def buffer_ok_def Let_def)
    from place_block_live [OF this h(5)] show ?thesis .
  qed
  with cases l b show "(er = None \<longrightarrow> live r') \<and> (er \<noteq> None \<longrightarrow> broken r')" by auto
qed

section \<open>Settling\<close>

lemma tinv_cong:
  "r_manifest r' = r_manifest r \<Longrightarrow> r_activeResume r' = r_activeResume r \<Longrightarrow> r_trace r' = r_trace r
     \<Longrightarrow> tinv r' = tinv r"
  by (cases "r_manifest r") (simp_all add: tinv_def)

lemma abortWith_rinv:
  assumes "broken r"
  shows "rinv (abortWith te notifyPeer r)"
proof -
  let ?r1 = "r\<lparr>r_settled := True, r_err := Some te\<rparr>"
  let ?r2 = "if notifyPeer then snd (Receiver_sendControl (NewFail (Reason te)) ?r1) else ?r1"
  have "quiet_step (Receiver_sendControl (NewFail (Reason te)) :: 'a rstep)"
    by (intro quiet_intros) (simp add: NewFail_def)
  then have q2: "quiet ?r1 ?r2" by (simp add: quiet_step_def)
  have "quiet_step (call_out f (Aborted x) :: 'a rstep)" for f x
    by (intro quiet_intros) simp
  then have q3: "quiet s (snd (call_out f (Aborted x) s))" for s :: "'a Receiver" and f x by (simp add: quiet_step_def)
  have q: "quiet ?r1 (abortWith te notifyPeer r)"
    using assms q2 quiet_trans [OF q2 q3] unfolding abortWith_def Let_def broken_def
    by (cases "r_destination ?r2") simp_all
  have "tinv ?r1" using assms tinv_cong [of ?r1 r] by (simp add: broken_def)
  with q have "tinv (abortWith te notifyPeer r)" by (rule quiet_tinv)
  with q show ?thesis by (simp add: rinv_def quiet_def)
qed

lemma quiet_setPaused: "quiet r (snd (Receiver_setPaused p r))"
proof -
  have "quiet r (r\<lparr>r_paused := p\<rparr>)" by (simp add: quiet_def silent_quiet)
  then have "quiet r (notify f (StateChange st) (r\<lparr>r_paused := p\<rparr>))" for f st
    by (rule quiet_trans) (simp add: quiet_notify)
  then show ?thesis by (simp add: Receiver_setPaused_def Let_def)
qed

lemma quiet_notify_canceled: "quiet r (notify_canceled r)"
  unfolding notify_canceled_def by (rule quiet_notify) simp

lemma live_rinv: "live r \<Longrightarrow> rinv r"
  by (simp add: rinv_def)

lemma onControl_valid: "valid live (onControl payload) rinv broken"
proof (rule valid_bothI)
  fix r r' :: "'a Receiver" and er
  assume l: "live r" and eq: "onControl payload r = (er, r')"
  have c: "rinv (abortWith te False (notify_canceled r))" for te
    by (intro abortWith_rinv quiet_broken [OF quiet_notify_canceled] live_broken l)
  have p: "rinv (snd (Receiver_setPaused x r))" for x
    by (intro live_rinv quiet_live [OF quiet_setPaused l])
  show "(er = None \<longrightarrow> rinv r') \<and> (er \<noteq> None \<longrightarrow> broken r')"
    using eq c p live_broken [OF l]
    by (auto simp: onControl_def fail_with_def split: sum.splits ControlMsg.splits ControlOp.splits)
qed

lemma onPeerFail_valid: "valid live (onPeerFail payload) rinv broken"
  by (rule valid_bothI) (auto simp: onPeerFail_def fail_with_def
      split: sum.splits ControlMsg.splits intro!: abortWith_rinv live_broken)

definition closable :: "Manifest \<Rightarrow> 'w Receiver \<Rightarrow> bool" where
  "closable m r \<longleftrightarrow> live r \<and> active r m \<and> r_file r = None"

lemma closable_verified:
  assumes "closable m r"
  shows "list_all (verified (r_activeResume r) (r_trace r)) (mf_Files m)"
    and "r_digests r = map fe_FileDigest (mf_Files m)"
proof -
  have b: "base r m" and i: "r_fileIdx r = int (length (mf_Files m))"
    using assms by (auto simp: closable_def active_def)
  then show "list_all (verified (r_activeResume r) (r_trace r)) (mf_Files m)"
    by (auto simp: base_def list_all_length)
  show "r_digests r = map fe_FileDigest (mf_Files m)"
    by (rule nth_equalityI) (use b i in \<open>auto simp: base_def\<close>)
qed

lemma quiet_closable: "quiet r r' \<Longrightarrow> closable m r \<Longrightarrow> closable m r'"
  using quiet_live [of r r'] quiet_active [of r r' m] by (auto simp: closable_def quiet_def)

lemma settle_rinv:
  assumes "closable m r" and "ClosedDestination None \<in> set (r_trace r)"
    and "res = \<lparr>res_Files = mf_Files m, res_Digests = r_digests r, res_TotalSize = mf_TotalSize m,
      res_File = mf_Files m ! 0, res_Digest = CompletionDigest (mf_Files m)\<rparr>"
  shows "rinv (Receiver_settle res r)"
proof -
  let ?s = "r\<lparr>r_settled := True, r_result := Some res\<rparr>"
  have l: "live r" and act: "active r m" and f: "r_file r = None" using assms(1) by (simp_all add: closable_def)
  have s: "Receiver_settle res r = ?s" using l by (simp add: live_def Receiver_settle_def)
  have "tinv ?s" using live_tinv [OF l] tinv_cong [of ?s r] by simp
  moreover have "r_acknowledged r = mf_TotalSize m" "r_manifest r = Some m" "manifest_ok m"
    using act f by (simp_all add: active_def base_def)
  then have "completed ?s"
    unfolding completed_def
    using closable_verified [OF assms(1)] assms(2,3) by (intro exI [of _ m] exI [of _ res]) simp
  ultimately show ?thesis unfolding s by (simp add: rinv_def)
qed

lemma complete_transfer_valid: "valid (closable m) (complete_transfer m d) rinv broken"
proof -
  let ?P = "\<lambda>r :: 'a Receiver. closable m r \<and> ClosedDestination None \<in> set (r_trace r)"
  have broken: "closable m r \<Longrightarrow> broken r" for r :: "'a Receiver" by (auto simp: closable_def intro: live_broken)
  have close: "valid (closable m) (call_sink (d_Close d) ClosedDestination) ?P broken"
  proof (rule valid_bothI)
    fix r r' :: "'a Receiver" and er
    assume c: "closable m r" and eq: "call_sink (d_Close d) ClosedDestination r = (er, r')"
    have q: "quiet r r'" using eq by (rule quiet_stepD [OF quiet_step_call_sink, rotated]) simp
    show "(er = None \<longrightarrow> ?P r') \<and> (er \<noteq> None \<longrightarrow> broken r')"
      using quiet_closable [OF q c] eq broken by (auto elim!: call_sink_cases)
  qed
  have fin: "valid ?P (Receiver_sendControl NewDone) ?P broken"
  proof (rule valid_bothI)
    fix r r' :: "'a Receiver" and er
    assume c: "?P r" and eq: "Receiver_sendControl NewDone r = (er, r')"
    have m: "r_manifest r = Some m" using c by (auto simp: closable_def active_def base_def)
    have q: "quiet r r'"
      by (rule send_justified_quiet [OF m _ eq]) (use c closable_verified(1) in \<open>auto simp: NewDone_def\<close>)
    have "?P r'" using quiet_closable [OF q] c q by (auto simp: quiet_def)
    then show "(er = None \<longrightarrow> ?P r') \<and> (er \<noteq> None \<longrightarrow> broken r')" using broken by blast
  qed
  show ?thesis unfolding complete_transfer_def
    by (intro valid_and_then [OF close] valid_and_then [OF fin]) (auto simp: valid_def intro: settle_rinv)
qed

lemma onComplete_valid: "valid live (onComplete payload) rinv broken"
proof (rule valid_bothI)
  fix r r' :: "'a Receiver" and er
  assume l: "live r" and eq: "onComplete payload r = (er, r')"
  note b = live_broken [OF l]
  show "(er = None \<longrightarrow> rinv r') \<and> (er \<noteq> None \<longrightarrow> broken r')"
  proof (cases "\<exists>m c. r_manifest r = Some m \<and> DecodeControl payload = Inr (MComplete c)")
    case False
    then have "er \<noteq> None \<and> r' = r"
      using eq by (auto simp: onComplete_def fail_with_def split: option.splits sum.splits ControlMsg.splits)
    with b show ?thesis by auto
  next
    case True
    then obtain m c where m: "r_manifest r = Some m" and c: "DecodeControl payload = Inr (MComplete c)" by blast
    note act = live_active [OF l m]
    show ?thesis
    proof (cases "r_file r")
      case (Some f)
      then have "r_nextBlock r \<noteq> fe_Blocks f" using act by (auto simp: active_def)
      then have "requestMissing r = (er, r')" using eq m c Some by (simp add: onComplete_def)
      from valid_bothD [OF requestMissing_valid l this] show ?thesis by (auto intro: live_rinv)
    next
      case None
      then have cl: "closable m r" using l act by (simp add: closable_def)
      have "(er \<noteq> None \<and> r' = r) \<or> (\<exists>d. complete_transfer m d r = (er, r'))"
        using eq m c None by (auto simp: onComplete_def fail_with_def split: if_splits option.splits)
      then show ?thesis using b valid_bothD [OF complete_transfer_valid cl] by auto
    qed
  qed
qed

lemma dispatch_valid: "valid live (dispatch op) rinv broken"
proof (rule valid_bothI)
  fix r r' :: "'a Receiver" and er
  assume l: "live r" and eq: "dispatch op r = (er, r')"
  let ?p = "opened_Plaintext op" and ?h = "opened_Header op"
  have "(er \<noteq> None \<and> r' = r) \<or> applyManifest ?p r = (er, r')
    \<or> onBlockData (h_FileIdx ?h) (h_BlockIdx ?h) (h_FrameOff ?h) ?p r = (er, r') \<or> onBlockHash ?p r = (er, r')
    \<or> onControl ?p r = (er, r') \<or> onComplete ?p r = (er, r') \<or> onPeerFail ?p r = (er, r')"
    using eq by (auto simp: dispatch_def Let_def fail_with_def split: if_splits)
  then show "(er = None \<longrightarrow> rinv r') \<and> (er \<noteq> None \<longrightarrow> broken r')"
    using live_broken [OF l] valid_bothD [OF applyManifest_valid l] valid_bothD [OF onBlockData_valid l]
      valid_bothD [OF onBlockHash_valid l] valid_bothD [OF onControl_valid l]
      valid_bothD [OF onComplete_valid l] valid_bothD [OF onPeerFail_valid l]
    by (auto intro: live_rinv)
qed

lemma quiet_recvCounter: "quiet r (r\<lparr>r_recvCounter := c\<rparr>)"
  by (simp add: quiet_def silent_quiet)

definition done_ok :: "'w Receiver \<Rightarrow> bool" where
  "done_ok r \<longleftrightarrow> r_settled r \<and> tinv r \<and> (r_err r = None \<longrightarrow> completed r)"

lemma quiet_completed:
  assumes "quiet r r'" and "completed r"
  shows "completed r'"
proof -
  obtain evs where e: "r_trace r' = r_trace r @ evs" "silent r evs" using assms(1) by (auto simp: quiet_def)
  have "list_all (verified ar (r_trace r)) fs \<Longrightarrow> list_all (verified ar (r_trace r')) fs" for ar fs
    unfolding e(1) by (auto simp: list_all_iff verified_silent [OF e(2)])
  with assms e(1) show ?thesis by (auto simp: completed_def quiet_def)
qed

lemma quiet_done_ok: "quiet r r' \<Longrightarrow> done_ok r \<Longrightarrow> done_ok r'"
  using quiet_tinv [of r r'] quiet_completed [of r r'] by (auto simp: done_ok_def quiet_def)

lemma rinv_cases: "rinv r \<longleftrightarrow> live r \<or> done_ok r"
  by (simp add: rinv_def done_ok_def)

lemma replyDone_done_ok:
  assumes "done_ok r" and "replyDoneAfterCutover frame r = (er, r')"
  shows "done_ok r'"
proof -
  have "r' = r \<or> (r_err r = None \<and> (\<exists>c. Receiver_sendControl NewDone (r\<lparr>r_recvCounter := c\<rparr>) = (er, r')))"
    using assms(2) by (auto simp: replyDoneAfterCutover_def settledOK_def split: if_splits sum.splits)
  moreover have "done_ok r'" if e: "r_err r = None" and s: "Receiver_sendControl NewDone (r\<lparr>r_recvCounter := c\<rparr>) = (er, r')" for c
  proof -
    let ?s = "r\<lparr>r_recvCounter := c\<rparr>"
    have "completed r" using assms(1) e by (simp add: done_ok_def)
    then obtain m where m: "r_manifest r = Some m" "list_all (verified (r_activeResume r) (r_trace r)) (mf_Files m)"
      "ClosedDestination None \<in> set (r_trace r)" by (auto simp: completed_def)
    have "quiet ?s r'" by (rule send_justified_quiet [of ?s m _ er, OF _ _ s]) (use m in \<open>simp_all add: NewDone_def\<close>)
    then show ?thesis by (rule quiet_done_ok) (rule quiet_done_ok [OF quiet_recvCounter assms(1)])
  qed
  ultimately show ?thesis using assms(1) by auto
qed

lemma Handle_rinv:
  assumes "rinv r"
  shows "rinv (Receiver_Handle frame r)"
proof -
  obtain er r' where p: "process frame r = (er, r')" by fastforce
  show ?thesis
  proof (cases "r_settled r")
    case True
    then have d: "done_ok r" using assms by (auto simp: rinv_cases live_def)
    have "replyDoneAfterCutover frame r = (er, r')" using p True by (simp add: process_def isSettled_def)
    then have r': "done_ok r'" by (rule replyDone_done_ok [OF d])
    then have "abortWith te x r' = r'" for te x by (simp add: abortWith_def done_ok_def)
    with r' p show ?thesis by (simp add: Receiver_Handle_def rinv_cases split: option.split)
  next
    case False
    then have l: "live r" using assms by (auto simp: rinv_cases done_ok_def)
    have "(er = None \<longrightarrow> rinv r') \<and> (er \<noteq> None \<longrightarrow> broken r')"
    proof (cases "OpenSequenced (ro_RecvDir (r_o r)) (r_recvCounter r) frame")
      case (Inl e)
      with p False l live_broken [OF l] show ?thesis
        by (auto simp: process_def isSettled_def fail_with_def live_rinv split: if_splits)
    next
      case (Inr op)
      have l': "live (r\<lparr>r_recvCounter := opened_Counter op + 1\<rparr>)" by (rule quiet_live [OF quiet_recvCounter l])
      from Inr p False show ?thesis
        by (intro valid_bothD [OF dispatch_valid l']) (simp add: process_def isSettled_def)
    qed
    with p show ?thesis by (auto simp: Receiver_Handle_def intro: abortWith_rinv split: option.split)
  qed
qed

lemma quiet_rinv: "quiet r r' \<Longrightarrow> rinv r \<Longrightarrow> rinv r'"
  using quiet_live [of r r'] quiet_done_ok [of r r'] by (auto simp: rinv_cases)

lemma quiet_send_control: "quiet r (snd (Receiver_sendControl (NewControl op) r))"
proof -
  have "quiet_step (Receiver_sendControl (NewControl op) :: 'a rstep)"
    by (intro quiet_intros) (simp add: NewControl_def)
  then show ?thesis by (simp add: quiet_step_def)
qed

lemma rinv_abort:
  assumes "rinv r"
  shows "rinv (abortWith te x r)"
proof (cases "r_settled r")
  case True
  with assms show ?thesis by (simp add: abortWith_def)
next
  case False
  with assms have "live r" by (auto simp: rinv_cases done_ok_def)
  then show ?thesis by (intro abortWith_rinv live_broken)
qed

lemma TransportChanged_rinv:
  assumes "rinv r"
  shows "rinv (Receiver_TransportChanged r)"
proof -
  have "live (Receiver_TransportChanged r)" if l: "live r"
  proof -
    have "fresh r \<Longrightarrow> fresh (Receiver_TransportChanged r)"
      by (simp add: fresh_def Receiver_TransportChanged_def)
    moreover have "active r m \<Longrightarrow> active (Receiver_TransportChanged r) m" for m
      by (auto simp: active_def base_def buffer_ok_def ahead_ok_def current_def finished_bytes_def
          Receiver_TransportChanged_def split: option.splits)
    moreover have "going r \<Longrightarrow> going (Receiver_TransportChanged r)"
      by (simp add: going_def resume_ok_def Receiver_TransportChanged_def)
    ultimately show ?thesis using l by (auto simp: live_going)
  qed
  moreover have "done_ok r \<Longrightarrow> done_ok (Receiver_TransportChanged r)"
    using tinv_cong [of "Receiver_TransportChanged r" r]
    by (auto simp: done_ok_def completed_def Receiver_TransportChanged_def)
  ultimately show ?thesis using assms by (auto simp: rinv_cases)
qed

lemma receiver_step_rinv: "rinv r \<Longrightarrow> rinv (receiver_step r ev)"
proof (cases ev)
  case (RCancel reason)
  assume r: "rinv r"
  have "rinv (snd (Receiver_sendControl (NewControl ControlCancel) (notify_canceled r)))"
    by (intro quiet_rinv [OF quiet_send_control] quiet_rinv [OF quiet_notify_canceled r])
  with RCancel r show ?thesis
    by (auto simp: Receiver_Cancel_def split: prod.split intro: rinv_abort)
next
  case (RContextDone cause t)
  assume "rinv r"
  with RContextDone show ?thesis
    by (auto simp: Receiver_cancelFromContext_def Let_def intro: rinv_abort quiet_rinv [OF quiet_send_control])
next
  case RPause
  assume "rinv r"
  then have "rinv (snd (Receiver_setPaused True r))" by (rule quiet_rinv [OF quiet_setPaused])
  with RPause show ?thesis
    by (auto simp: Receiver_Pause_def split: prod.split intro: quiet_rinv [OF quiet_send_control])
next
  case RResume
  assume "rinv r"
  then have "rinv (snd (Receiver_setPaused False r))" by (rule quiet_rinv [OF quiet_setPaused])
  with RResume show ?thesis
    by (auto simp: Receiver_Resume_def split: prod.split intro: quiet_rinv [OF quiet_send_control])
qed (simp_all add: Handle_rinv TransportChanged_rinv)

interpretation receiver_machine: machine receiver_step rinv
  by unfold_locales (rule receiver_step_rinv)

lemma rinv_NewReceiver: "rinv (NewReceiver opts w)"
  by (rule live_rinv) (simp add: NewReceiver_def live_def resume_ok_def fresh_def)

lemma rinv_run: "rinv (receiver_run opts w evs)"
  unfolding receiver_run_def by (rule receiver_machine.inv_run) (rule rinv_NewReceiver)

section \<open>A settled receiver\<close>

text \<open>Once settled, the outcome and the files never change.\<close>

definition frozen :: "'w Receiver \<Rightarrow> 'w Receiver \<Rightarrow> bool" where
  "frozen r r' \<longleftrightarrow> (r_settled r \<longrightarrow> r_settled r' \<and> r_err r' = r_err r \<and> r_result r' = r_result r
     \<and> (\<forall>i. written i (r_trace r') = written i (r_trace r)))"

lemma quiet_frozen: "quiet r r' \<Longrightarrow> frozen r r'"
  by (auto simp: quiet_def frozen_def silent_def)

lemma frozen_trans: "frozen r s \<Longrightarrow> frozen s t \<Longrightarrow> frozen r t"
  by (auto simp: frozen_def)

lemma abortWith_settled: "r_settled r \<Longrightarrow> abortWith te x r = r"
  by (simp add: abortWith_def)

lemma frozen_sent:
  assumes "Receiver_sendControl msg r = (er, r')"
  shows "frozen r r'"
  using assms by (cases rule: sendControl_cases) (auto simp: frozen_def)

lemma frozen_Handle: "frozen r (Receiver_Handle frame r)"
proof (cases "r_settled r")
  case True
  obtain er r' where p: "replyDoneAfterCutover frame r = (er, r')" by fastforce
  have "r' = r \<or> (\<exists>c. Receiver_sendControl NewDone (r\<lparr>r_recvCounter := c\<rparr>) = (er, r'))"
    using p by (auto simp: replyDoneAfterCutover_def split: if_splits sum.splits)
  moreover have "frozen r r'" if "Receiver_sendControl NewDone (r\<lparr>r_recvCounter := c\<rparr>) = (er, r')" for c
    by (rule frozen_trans [OF quiet_frozen [OF quiet_recvCounter] frozen_sent [OF that]])
  ultimately have f: "frozen r r'" by (auto simp: frozen_def)
  then have "r_settled r'" using True by (simp add: frozen_def)
  with f p True show ?thesis
    by (simp add: Receiver_Handle_def process_def isSettled_def abortWith_settled split: option.split)
qed (simp add: frozen_def)

lemma frozen_step: "frozen r (receiver_step r ev)"
proof (cases "r_settled r")
  case True
  have send: "frozen r (snd (Receiver_sendControl msg r))" for msg
    using frozen_sent [of msg r] by (metis prod.collapse)
  show ?thesis
  proof (cases ev)
    case (RHandle frame)
    then show ?thesis by (simp add: frozen_Handle)
  next
    case RTransportChanged
    then show ?thesis by (simp add: frozen_def Receiver_TransportChanged_def)
  next
    case RPause
    with True show ?thesis by (simp add: Receiver_Pause_def Receiver_setPaused_def frozen_def)
  next
    case RResume
    with True show ?thesis by (simp add: Receiver_Resume_def Receiver_setPaused_def frozen_def)
  next
    case (RCancel reason)
    with True show ?thesis by (simp add: Receiver_Cancel_def frozen_def)
  next
    case (RContextDone cause t)
    have "r_settled (snd (Receiver_sendControl (NewControl ControlCancel) r))"
      using send [of "NewControl ControlCancel"] True by (simp add: frozen_def)
    with RContextDone True send show ?thesis
      by (simp add: Receiver_cancelFromContext_def Let_def abortWith_settled)
  qed
qed (simp add: frozen_def)

lemma frozen_refl: "frozen r r"
  by (simp add: frozen_def)

interpretation receiver_frozen: evolving_machine receiver_step frozen
  by unfold_locales (blast intro: frozen_refl frozen_trans frozen_step)+

lemma rinv_tinv: "rinv r \<Longrightarrow> tinv r"
  by (auto simp: rinv_cases done_ok_def live_tinv)

lemma run_activeResume:
  "r_activeResume (receiver_run opts w evs) = None
   \<or> r_activeResume (receiver_run opts w evs) = ro_Resume opts"
  using history_run [of opts w evs] by (auto simp: history_def evolves_def NewReceiver_def)

end
