(* ===== verification/ReceiverProps.thy ===== *)
theory ReceiverProps
  imports ReceiverInv
begin

text \<open>
  A concrete receive on the in-memory sink, the witnesses of the receiver's properties, and the
  properties of single calls.
\<close>

section \<open>Frames on their way in\<close>

lemma process_frame:
  assumes "\<not> r_settled r" and "Seal (ro_RecvDir (r_o r)) c h payload = Inr frame" and "r_recvCounter r \<le> c"
  shows "process frame r = dispatch \<lparr>opened_Counter = c, opened_Header = sealed_header h (length payload),
     opened_Plaintext = payload\<rparr> (r\<lparr>r_recvCounter := c + 1\<rparr>)"
  using OpenSequenced_Seal [OF assms(2,3)] assms(1) by (simp add: process_def isSettled_def)

lemma sealed_control_ok:
  assumes "length (json_print (control_json msg)) \<le> u16Max" and "length (dk_Key dir) \<in> {16, 24, 32}"
  shows "\<exists>frame. sealed_control dir c msg = Inr frame"
  using assms by (auto simp: sealed_control_def EncodeControl_def Seal_eq gcmFor_def Let_def)

lemma process_control:
  assumes "\<not> r_settled r" and "sealed_control (ro_RecvDir (r_o r)) c msg = Inr frame" and "r_recvCounter r \<le> c"
    and "payload = bytes_of_string (json_print (control_json msg))"
  shows "process frame r = dispatch \<lparr>opened_Counter = c,
     opened_Header = sealed_header (control_header (FrameType msg)) (length payload),
     opened_Plaintext = payload\<rparr> (r\<lparr>r_recvCounter := c + 1\<rparr>)"
  using process_frame [OF assms(1) _ assms(3), of "control_header (FrameType msg)" payload frame] assms(2,4)
  by (simp add: sealed_control_def EncodeControl_def)

lemma dispatch_control:
  "dispatch \<lparr>opened_Counter = c, opened_Header = sealed_header (control_header t) n, opened_Plaintext = p\<rparr> r =
     (if t = FrameManifest then applyManifest p r
      else if t = FrameBlockData then onBlockData 0 0 0 p r
      else if t = FrameBlockHash then onBlockHash p r
      else if t = FrameControl then onControl p r
      else if t = FrameComplete then onComplete p r
      else if t = FrameFail then onPeerFail p r
      else fail_with FailIntegrity ''unexpected receiver-inbound type'' r)"
  by (simp add: dispatch_def Let_def sealed_header_def control_header_def)

section \<open>A receive of one empty file\<close>

definition empty_file :: FileEntry where
  "empty_file = \<lparr>fe_Idx = 0, fe_Name = ''a'', fe_Size = 0, fe_Mime = '''', fe_LastModified = 0,
     fe_BlockSize = 4, fe_Blocks = 0, fe_FileDigest = hex_encode (sha256 [])\<rparr>"

definition empty_manifest :: Manifest where
  "empty_manifest = NewManifest [empty_file] 0"

lemma empty_manifest_ok: "manifest_ok empty_manifest"
  by (simp add: manifest_ok_def empty_manifest_def NewManifest_def empty_file_def file_ok_def
      wantBlocks_def MaxTransferFiles_def MaxManifestBlockBytes_def max_int64_def path_evaluation)

lemma digest_text_ok: "valid_string (hex_encode bs)"
  using isLowerHex_hex_encode by (rule isLowerHex_valid)

lemma empty_manifest_msg: "msg_ok (MManifest empty_manifest)"
  by (simp add: empty_manifest_def NewManifest_def empty_file_def MaxTransferFiles_def file_wire_ok_def
      in_s64_def min_int64_def max_int64_def digest_text_ok)

lemma empty_manifest_length: "length (json_print (control_json (MManifest empty_manifest))) \<le> u16Max"
proof -
  let ?q = "json_quote (hex_encode (sha256 []))"
  let ?f = "\<lparr>fe_Idx = 0, fe_Name = ''a'', fe_Size = 0, fe_Mime = '''', fe_LastModified = 0,
     fe_BlockSize = 4, fe_Blocks = 0, fe_FileDigest = ''''\<rparr>"
  have "length (json_print (control_json (MManifest (NewManifest [?f] 0)))) \<le> 200" by code_simp
  moreover have "length ?q \<le> 800" using json_quote_length [of "hex_encode (sha256 [])"] by simp
  moreover have "length (json_print (control_json (MManifest empty_manifest)))
    \<le> length (json_print (control_json (MManifest (NewManifest [?f] 0)))) + length ?q"
    by (simp add: empty_manifest_def NewManifest_def empty_file_def file_json_def omitempty_def)
  ultimately show ?thesis by (simp add: u16Max_def)
qed

definition empty_complete :: ControlMsg where
  "empty_complete = MComplete (NewComplete (fe_FileDigest empty_file))"

lemma complete_length: "length (json_print (control_json (MComplete (NewComplete (hex_encode (sha256 bs)))))) \<le> u16Max"
proof -
  have "length (json_print (control_json (MComplete (NewComplete '''')))) \<le> 200" by code_simp
  moreover have "length (json_print (control_json (MComplete (NewComplete (hex_encode (sha256 bs))))))
    \<le> length (json_print (control_json (MComplete (NewComplete '''')))) + length (json_quote (hex_encode (sha256 bs)))"
    by (simp add: NewComplete_def)
  ultimately show ?thesis using json_quote_length [of "hex_encode (sha256 bs)"] by (simp add: u16Max_def)
qed

lemma done_length: "length (json_print (control_json NewDone)) \<le> u16Max"
proof -
  have "length (json_print (control_json NewDone)) \<le> 200" by code_simp
  then show ?thesis by (simp add: u16Max_def)
qed

lemma example_key_length: "length (dk_Key example_key) \<in> {16, 24, 32}"
  by (simp add: example_key_def)

lemma empty_file_digest: "HexDigest NewSHA256Digest = hex_encode (sha256 [])"
  by (simp add: NewSHA256Digest_digest_of)

lemmas receiver_evaluation = Receiver_Handle_def dispatch_def sealed_header_def control_header_def
  call_sink_def call_out_def log_event_def and_then_def notify_def open_sink_def begin_file_def
  start_file_def seed_of_def Let_def

definition empty_received :: "memWorld Receiver" where
  "empty_received = (NewReceiver mem_options mem_world)\<lparr>r_recvCounter := 1, r_manifest := Some empty_manifest,
     r_fileIdx := 1, r_digests := [fe_FileDigest empty_file], r_awaitingRestart := True,
     r_world := mem_world\<lparr>w_opened := True, mw_sink := NewMemorySink\<lparr>ms_closed := True\<rparr>\<rparr>,
     r_trace := [Prepared empty_manifest None, Opened empty_file None, ClosedSink empty_file None]\<rparr>"

lemma receive_empty_manifest:
  assumes "sealed_control example_key 0 (MManifest empty_manifest) = Inr frame"
  shows "Receiver_Handle frame (NewReceiver mem_options mem_world) = empty_received"
proof -
  let ?r = "NewReceiver mem_options mem_world"
  define p where "p = bytes_of_string (json_print (control_json (MManifest empty_manifest)))"
  have d: "DecodeControl p = Inr (MManifest empty_manifest)"
    unfolding p_def by (rule control_codec.dec_enc) (rule empty_manifest_msg)
  have v: "ValidateManifest empty_manifest = Inr empty_manifest"
    by (rule ValidateManifest_ok) (rule empty_manifest_ok)
  have t: "FrameType (MManifest empty_manifest) = FrameManifest" by (simp add: empty_manifest_def NewManifest_def)
  have "process frame ?r = dispatch \<lparr>opened_Counter = 0,
     opened_Header = sealed_header (control_header (FrameType (MManifest empty_manifest))) (length p),
     opened_Plaintext = p\<rparr> (?r\<lparr>r_recvCounter := 0 + 1\<rparr>)"
    by (rule process_control [OF _ _ _ p_def]) (use assms in \<open>simp_all add: NewReceiver_def mem_options_def\<close>)
  also have "\<dots> = applyManifest p (?r\<lparr>r_recvCounter := 1\<rparr>)"
    unfolding dispatch_control t by simp
  also have "\<dots> = accept_manifest empty_manifest (SingleSinkDestination mem_sink) (?r\<lparr>r_recvCounter := 1\<rparr>)"
    by (simp add: applyManifest_def d v NewReceiver_def mem_options_def)
  also have "\<dots> = (None, empty_received)"
    by (simp add: accept_manifest_def receiver_evaluation adopt_manifest_def answer_resume_def
        openNextFile_def finishCurrentFile_def finish_file_def NewReceiver_def mem_options_def mem_world_def
        mem_sink_def SingleSinkDestination_def empty_received_def empty_manifest_def NewManifest_def empty_file_def
        empty_file_digest MemorySink_Close_def)
  finally show ?thesis by (simp add: Receiver_Handle_def)
qed

definition empty_settled :: "bytes \<Rightarrow> memWorld Receiver" where
  "empty_settled frame = empty_received\<lparr>r_recvCounter := 2, r_sendCounter := 1, r_settled := True,
     r_result := Some \<lparr>res_Files = [empty_file], res_Digests = [fe_FileDigest empty_file], res_TotalSize = 0,
       res_File = empty_file, res_Digest = fe_FileDigest empty_file\<rparr>,
     r_world := mem_world\<lparr>w_opened := True, mw_sink := NewMemorySink\<lparr>ms_closed := True\<rparr>, mw_out := [frame]\<rparr>,
     r_trace := [Prepared empty_manifest None, Opened empty_file None, ClosedSink empty_file None,
       ClosedDestination None, Sent 0 NewDone frame None]\<rparr>"

lemma receive_empty_complete:
  assumes "sealed_control example_key 1 empty_complete = Inr frame" and "sealed_control example_key 0 NewDone = Inr out"
  shows "Receiver_Handle frame empty_received = empty_settled out"
proof -
  define p where "p = bytes_of_string (json_print (control_json empty_complete))"
  have d: "DecodeControl p = Inr empty_complete"
    unfolding p_def
    by (rule control_codec.dec_enc) (simp add: empty_complete_def NewComplete_def empty_file_def digest_text_ok)
  have o: "ro_RecvDir (r_o empty_received) = example_key" "r_recvCounter empty_received = 1" "\<not> r_settled empty_received"
    by (simp_all add: empty_received_def NewReceiver_def mem_options_def)
  have t: "FrameType empty_complete = FrameComplete" by (simp add: empty_complete_def NewComplete_def)
  have "process frame empty_received = dispatch \<lparr>opened_Counter = 1,
     opened_Header = sealed_header (control_header (FrameType empty_complete)) (length p),
     opened_Plaintext = p\<rparr> (empty_received\<lparr>r_recvCounter := 1 + 1\<rparr>)"
    by (rule process_control [OF _ _ _ p_def]) (use assms o in simp_all)
  also have "\<dots> = onComplete p (empty_received\<lparr>r_recvCounter := 2\<rparr>)"
    unfolding dispatch_control t by (simp add: frame_types)
  also have "\<dots> = (None, empty_settled out)"
    using assms(2)
    by (simp add: onComplete_def d empty_complete_def NewComplete_def complete_transfer_def receiver_evaluation
        sendControl_eq Receiver_settle_def empty_settled_def empty_received_def NewReceiver_def mem_options_def
        mem_world_def SingleSinkDestination_def empty_manifest_def NewManifest_def CompletionDigest_def)
  finally show ?thesis by (simp add: Receiver_Handle_def)
qed

text \<open>The whole run.\<close>

lemma empty_run:
  obtains evs out where "receiver_run mem_options mem_world evs = empty_settled out"
proof -
  obtain a where a: "sealed_control example_key 0 (MManifest empty_manifest) = Inr a"
    using sealed_control_ok [OF empty_manifest_length example_key_length] by blast
  obtain b where b: "sealed_control example_key 1 empty_complete = Inr b"
    using sealed_control_ok [OF complete_length example_key_length] by (auto simp: empty_complete_def empty_file_def)
  obtain c where c: "sealed_control example_key 0 NewDone = Inr c"
    using sealed_control_ok [OF done_length example_key_length] by blast
  have "receiver_run mem_options mem_world [RHandle a, RHandle b] = empty_settled c"
    by (simp add: receiver_run_def receive_empty_manifest [OF a] receive_empty_complete [OF b c])
  then show ?thesis by (rule that)
qed

section \<open>Properties of every run\<close>

text \<open>C9: the receiver writes each file's blocks in order, each at its own offset, whole, and
  once: whatever frames arrive, in whatever order and with whatever duplicates, path changes and
  failures in between, the successful writes of a file are its consecutive blocks from the resume
  mark on, and never more than the manifest has.\<close>

theorem receiver_writes_in_order:
  assumes "r = receiver_run opts w evs" and "r_manifest r = Some m" and "f \<in> set (mf_Files m)"
  shows "\<exists>n. n \<le> fe_Blocks f
     \<and> contig f (have_in (r_activeResume r) f) (written (fe_Idx f) (r_trace r)) n"
  using rinv_tinv [OF rinv_run [of opts w evs]] assms by (auto simp: tinv_def)

theorem receiver_writes_in_order_witness:
  "\<exists>evs. r_manifest (receiver_run mem_options mem_world evs) = Some empty_manifest
     \<and> empty_file \<in> set (mf_Files empty_manifest)
     \<and> (\<exists>n \<le> fe_Blocks empty_file.
          contig empty_file (have_in (r_activeResume (receiver_run mem_options mem_world evs)) empty_file)
            (written (fe_Idx empty_file) (r_trace (receiver_run mem_options mem_world evs))) n)"
proof -
  obtain evs out where run: "receiver_run mem_options mem_world evs = empty_settled out" by (rule empty_run)
  have m: "r_manifest (receiver_run mem_options mem_world evs) = Some empty_manifest"
    unfolding run by (simp add: empty_settled_def empty_received_def)
  have f: "empty_file \<in> set (mf_Files empty_manifest)" by (simp add: empty_manifest_def NewManifest_def)
  from receiver_writes_in_order [OF refl m f] m f show ?thesis by blast
qed

text \<open>C3: the receiver only says what it has done: an acknowledgement is sent only for a block
  that was written successfully before it or that the validated resume seed already covers; the
  resume state it advertises carries the canonical fingerprint of the manifest in force and marks
  within each file's block count; and it sends Done only after every file was verified against its
  digest, every sink was closed and the destination was closed without error.\<close>

theorem receiver_messages_justified:
  assumes "r = receiver_run opts w evs" and "r_trace r = pre @ Sent c msg frame er # post"
    and "\<not> neutral msg"
  shows "\<exists>m. r_manifest r = Some m \<and> seeds_ok (r_activeResume r) m \<and> justified (r_activeResume r) m pre msg"
proof (cases "r_manifest r")
  case None
  then have "list_all quiet_event (r_trace r)"
    using rinv_tinv [OF rinv_run [of opts w evs]] assms(1) by (simp add: tinv_def)
  with assms(2,3) show ?thesis by simp
next
  case (Some m)
  then have "all_justified (r_activeResume r) m (r_trace r)" "seeds_ok (r_activeResume r) m"
    using rinv_tinv [OF rinv_run [of opts w evs]] assms(1) by (simp_all add: tinv_def)
  with Some assms(2) show ?thesis unfolding all_justified_def by blast
qed

theorem receiver_messages_justified_witness:
  "\<exists>evs c frame er pre post. r_trace (receiver_run mem_options mem_world evs) = pre @ Sent c NewDone frame er # post
     \<and> \<not> neutral NewDone
     \<and> (\<exists>m. r_manifest (receiver_run mem_options mem_world evs) = Some m
          \<and> list_all (verified (r_activeResume (receiver_run mem_options mem_world evs)) pre) (mf_Files m))"
proof -
  obtain evs out where run: "receiver_run mem_options mem_world evs = empty_settled out" by (rule empty_run)
  have tr: "r_trace (receiver_run mem_options mem_world evs)
      = [Prepared empty_manifest None, Opened empty_file None, ClosedSink empty_file None, ClosedDestination None]
        @ Sent 0 NewDone out None # []"
    unfolding run by (simp add: empty_settled_def)
  have n: "\<not> neutral NewDone" by (simp add: NewDone_def)
  from receiver_messages_justified [OF refl tr n] tr n show ?thesis by (fastforce simp: NewDone_def)
qed

lemma digest_in_None: "digest_in None f = NewSHA256Digest" "have_in None f = 0"
  by (simp_all add: digest_in_def have_in_def seed_in_def)



text \<open>a settled receiver is final: whatever happens afterwards, its outcome stays the same and
  no further byte is written to any file.\<close>

theorem receiver_settled_final:
  assumes "r = receiver_run opts w evs" and "r_settled r" and "r' = receiver_run opts w (evs @ later)"
  shows "r_settled r' \<and> r_err r' = r_err r \<and> r_result r' = r_result r
    \<and> (\<forall>i. written i (r_trace r') = written i (r_trace r))"
proof -
  have "frozen r r'"
    unfolding assms(1,3) receiver_run_def by (rule receiver_frozen.run_rel_between)
  with assms(2) show ?thesis by (simp add: frozen_def)
qed

theorem receiver_settled_final_witness:
  "\<exists>evs. r_settled (receiver_run mem_options mem_world evs)
     \<and> r_result (receiver_run mem_options mem_world (evs @ [RPause, RTransportChanged]))
       = r_result (receiver_run mem_options mem_world evs)"
proof -
  obtain evs out where run: "receiver_run mem_options mem_world evs = empty_settled out" by (rule empty_run)
  have s: "r_settled (receiver_run mem_options mem_world evs)"
    unfolding run by (simp add: empty_settled_def)
  from receiver_settled_final [OF refl s refl] s show ?thesis by blast
qed

section \<open>Single calls\<close>

lemma recvCounter_Handle:
  assumes "\<not> r_settled r" and "OpenSequenced (ro_RecvDir (r_o r)) (r_recvCounter r) frame = Inr op"
  shows "r_recvCounter (Receiver_Handle frame r) = opened_Counter op + 1"
    and "r_o (Receiver_Handle frame r) = r_o r"
proof -
  let ?s = "r\<lparr>r_recvCounter := opened_Counter op + 1\<rparr>"
  obtain er r' where p: "dispatch op ?s = (er, r')" by fastforce
  then have "evolves ?s r'" by (rule evolvingD [OF evolving_dispatch])
  then have e: "evolves ?s (case er of None \<Rightarrow> r' | Some e \<Rightarrow> abortWith (asTransferError e FailIntegrity) True r')"
    by (auto intro: evolves_trans [OF _ evolves_abortWith] split: option.split)
  have "Receiver_Handle frame r = (case er of None \<Rightarrow> r' | Some e \<Rightarrow> abortWith (asTransferError e FailIntegrity) True r')"
    using assms p by (simp add: Receiver_Handle_def process_def isSettled_def)
  with e show "r_recvCounter (Receiver_Handle frame r) = opened_Counter op + 1"
    and "r_o (Receiver_Handle frame r) = r_o r" by (simp_all add: evolves_def)
qed

lemma word_less_Suc: "x \<noteq> - 1 \<Longrightarrow> x < x + 1" for x :: "64 word"
proof -
  assume "x \<noteq> - 1"
  then have "unat x \<noteq> unat (- 1 :: 64 word)" by (simp only: word_unat_eq_iff not_False_eq_True)
  then have "unat x + 1 < 2 ^ 64"
    using unsigned_less [of x, where ?'a = nat] by (simp add: unsigned_minus_1_eq_mask mask_eq_exp_minus_1)
  then show "x < x + 1" by (simp add: word_less_nat_alt unat_word_ariths)
qed

lemma Handle_replay:
  assumes "OpenSequenced (ro_RecvDir (r_o r)) (r_recvCounter r) frame = Inl FrameReplay"
  shows "Receiver_Handle frame r = r"
  using assms by (simp add: Receiver_Handle_def process_def isSettled_def replyDoneAfterCutover_def)

lemma OpenSequenced_again:
  assumes "OpenSequenced dir minimum frame = Inr op" and "opened_Counter op < n"
  shows "OpenSequenced dir n frame = Inl FrameReplay"
proof -
  have "opened_Counter op = get64 (take 8 frame)"
    using OpenSequenced_Inr [OF assms(1)] openEmbedded_Inr(1) by fastforce
  moreover have "frameCounter frame = Inr (get64 (take 8 frame))"
    using OpenSequenced_Inr(1) [OF assms(1)]
    by (simp add: frameCounter_def frameCounterBytes_def frameHeaderBytes_def aeadTagBytes_def)
  ultimately show ?thesis using assms(2) by (simp add: OpenSequenced_def)
qed

text \<open>delivering a frame twice is the same as delivering it once: after an authentic frame has
  been handled, successfully or not, the same frame changes nothing at all, unless it used the very
  last counter.\<close>

theorem receiver_duplicate_frame_ignored:
  assumes "\<not> r_settled r" and "OpenSequenced (ro_RecvDir (r_o r)) (r_recvCounter r) frame = Inr op"
    and "opened_Counter op \<noteq> - 1"
  shows "Receiver_Handle frame (Receiver_Handle frame r) = Receiver_Handle frame r"
proof (rule Handle_replay)
  have "opened_Counter op < opened_Counter op + 1" using assms(3) by (rule word_less_Suc)
  then show "OpenSequenced (ro_RecvDir (r_o (Receiver_Handle frame r))) (r_recvCounter (Receiver_Handle frame r)) frame
      = Inl FrameReplay"
    unfolding recvCounter_Handle [OF assms(1,2)] by (rule OpenSequenced_again [OF assms(2)])
qed

theorem receiver_duplicate_frame_ignored_witness:
  "\<exists>frame op. \<not> r_settled (NewReceiver mem_options mem_world)
     \<and> OpenSequenced (ro_RecvDir (r_o (NewReceiver mem_options mem_world)))
         (r_recvCounter (NewReceiver mem_options mem_world)) frame = Inr op
     \<and> Receiver_Handle frame (Receiver_Handle frame (NewReceiver mem_options mem_world))
       = Receiver_Handle frame (NewReceiver mem_options mem_world)"
proof -
  let ?r = "NewReceiver mem_options mem_world"
  obtain a where a: "sealed_control example_key 0 (MManifest empty_manifest) = Inr a"
    using sealed_control_ok [OF empty_manifest_length example_key_length] by blast
  then obtain h p where "Seal example_key 0 h p = Inr a"
    by (auto simp: sealed_control_def split: sum.splits)
  from OpenSequenced_Seal [OF this, of 0]
  obtain op where op: "OpenSequenced (ro_RecvDir (r_o ?r)) (r_recvCounter ?r) a = Inr op" "opened_Counter op = 0"
    by (auto simp: NewReceiver_def mem_options_def)
  have s: "\<not> r_settled ?r" by (simp add: NewReceiver_def)
  from receiver_duplicate_frame_ignored [OF s op(1)] op s show ?thesis by auto
qed

end
