(* ===== verification/Sender.thy ===== *)
theory Sender
  imports Messages Ports
begin

text \<open>
  The sending side of a transfer (\<^verbatim>\<open>transfer_sender.go\<close>).  The goroutine that executes
  \<^verbatim>\<open>Run\<close> is a machine with a program counter: each of its steps is one critical section of the
  code or one frame handed to the transport, and a step that waits on the condition variable leaves
  the state as it is.  Everything else that touches the sender (inbound frames, timers, path changes,
  the user's controls) is one step of its own, so that a list of events is one interleaving of all
  goroutines.  Calls out of the engine act on the field \<open>s_world\<close> and are recorded, with what they
  returned, in the history field \<open>s_trace\<close>, which the code does not have and no definition reads.
\<close>

section \<open>State\<close>

definition FrameFlagLastInBlock :: byte where "FrameFlagLastInBlock = 1"

text \<open>Durations in nanoseconds.\<close>

definition DefaultAckTimeout :: int where "DefaultAckTimeout = 15 * 1000000000"
definition DefaultMaxBlockRetries :: int where "DefaultMaxBlockRetries = 3"
definition DefaultDoneTimeout :: int where "DefaultDoneTimeout = 30 * 1000000000"
definition DefaultCompleteInterval :: int where "DefaultCompleteInterval = 500 * 1000000"

text \<open>\<open>so_NewTransferID\<close> is the identifier the callback of that name mints, when it is set.\<close>

record 'w SenderOptions =
  so_File :: "FileSource option"
  so_Files :: "FileSource list"
  so_Send :: "bytes \<Rightarrow> 'w call"
  so_SendDir :: DirectionalKey
  so_RecvDir :: DirectionalKey
  so_SendCounterStart :: "64 word"
  so_RecvCounterStart :: "64 word"
  so_TransferID :: string
  so_NewTransferID :: "string option"
  so_BlockSize :: int
  so_FrameSize :: int
  so_Window :: int
  so_AckTimeout :: int
  so_MaxRetries :: int
  so_DoneTimeout :: int
  so_CompleteInterval :: int
  so_OnProgress :: "(int \<Rightarrow> 'w \<Rightarrow> 'w) option"
  so_OnFileProgress :: "(int \<Rightarrow> int \<Rightarrow> int \<Rightarrow> 'w \<Rightarrow> 'w) option"
  so_OnResume :: "(int \<Rightarrow> 'w \<Rightarrow> 'w) option"
  so_OnStateChange :: "(TransferState \<Rightarrow> 'w \<Rightarrow> 'w) option"
  so_OnManifest :: "(Manifest \<Rightarrow> 'w call) option"

text \<open>A block's timer: absent, running, or fired or stopped.\<close>

datatype timer = NoTimer | Armed | Stopped

record inflightBlock =
  ib_bytes :: bytes
  ib_retries :: int
  ib_timer :: timer

text \<open>Where \<^verbatim>\<open>Run\<close> is.  A piece carries a mark whether it is emitted while the source streams or
  from the final flush; a feed holds the pieces that are still to come in the current file and how
  its stream ends.  The continuation of \<^verbatim>\<open>sendBlock\<close> says who called it.\<close>

type_synonym piece = "bool \<times> FramePiece"
type_synonym feed = "piece list \<times> err option"

datatype cont = KNew piece feed | KCapacity piece feed | KDrain

datatype pc =
    PStart
  | PManifest
  | PWaitResume
  | PFile nat
  | PPieces nat feed
  | PCapacity nat piece feed
  | PRegister nat piece feed
  | PResend nat cont int
  | PSend nat cont int bytes int
  | PArm nat cont int
  | PDrain nat
  | PComplete
  | PSendComplete
  | PWaitDone
  | PReturned "(err, string) result"

datatype sevent =
    SentFrame "64 word" FrameHeaderInput bytes bytes "err option"
  | SManifestSet Manifest "err option"
  | SProgress int
  | SFileProgress int int int
  | SResumedAt int
  | SStateChange TransferState

record 'w Sender =
  s_o :: "'w SenderOptions"
  s_blockSize :: int
  s_frameSize :: int
  s_window :: int
  s_ackTimeout :: int
  s_maxRetries :: int
  s_files :: "FileSource list"
  s_sendCounter :: "64 word"
  s_transferID :: string
  s_manifest :: "Manifest option"
  s_manifestFingerprint :: string
  s_manifestSent :: bool
  s_recvCounter :: "64 word"
  s_inflight :: "int \<rightharpoonup> inflightBlock"
  s_retryQueue :: "int list"
  s_retryQueued :: "int set"
  s_acknowledged :: int
  s_activeFileIdx :: int
  s_activeFileAcknowledged :: int
  s_paused :: bool
  s_completeSent :: bool
  s_complete :: "Complete option"
  s_settled :: bool
  s_err :: "err option"
  s_resumePlan :: "int \<rightharpoonup> int"
  s_appliedResume :: "ResumeState option"
  s_resumeReceived :: bool
  s_entries :: "FileEntry list"
  s_transferDigest :: string
  s_haveBlocks :: int
  s_resending :: "Complete list"
  s_pc :: pc
  s_world :: 'w
  s_trace :: "sevent list"

text \<open>The fields \<open>s_entries\<close>, \<open>s_transferDigest\<close> and \<open>s_haveBlocks\<close> are local variables of
  \<^verbatim>\<open>Run\<close>; \<open>s_resending\<close> are the background goroutines of \<^verbatim>\<open>TransportChanged\<close> that have not sent
  their message yet.\<close>

definition or_default :: "int \<Rightarrow> int \<Rightarrow> int" where
  "or_default x d = (if x \<le> 0 then d else x)"

definition nonzero_or :: "int \<Rightarrow> int \<Rightarrow> int" where
  "nonzero_or x d = (if x = 0 then d else x)"

definition sender_files :: "'w SenderOptions \<Rightarrow> FileSource list" where
  "sender_files opts = (case (so_Files opts, so_File opts) of ([], Some f) \<Rightarrow> [f] | (fs, _) \<Rightarrow> fs)"

definition NewSender :: "'w SenderOptions \<Rightarrow> 'w \<Rightarrow> 'w Sender" where
  "NewSender opts0 w =
     (let opts = opts0\<lparr>so_BlockSize := or_default (so_BlockSize opts0) DefaultBlockBytes,
            so_FrameSize := or_default (so_FrameSize opts0) DefaultFrameBytes,
            so_Window := or_default (so_Window opts0) (int DefaultInflightBlocks),
            so_AckTimeout := nonzero_or (so_AckTimeout opts0) DefaultAckTimeout,
            so_MaxRetries := or_default (so_MaxRetries opts0) DefaultMaxBlockRetries,
            so_DoneTimeout := nonzero_or (so_DoneTimeout opts0) DefaultDoneTimeout,
            so_CompleteInterval := nonzero_or (so_CompleteInterval opts0) DefaultCompleteInterval\<rparr>
      in \<lparr>s_o = opts, s_blockSize = so_BlockSize opts, s_frameSize = so_FrameSize opts,
          s_window = so_Window opts, s_ackTimeout = so_AckTimeout opts,
          s_maxRetries = so_MaxRetries opts, s_files = sender_files opts,
          s_sendCounter = so_SendCounterStart opts,
          s_transferID = (case so_NewTransferID opts of
              Some t \<Rightarrow> if so_TransferID opts = '''' then t else so_TransferID opts
            | None \<Rightarrow> so_TransferID opts),
          s_manifest = None, s_manifestFingerprint = '''', s_manifestSent = False,
          s_recvCounter = so_RecvCounterStart opts, s_inflight = Map.empty, s_retryQueue = [],
          s_retryQueued = {}, s_acknowledged = 0, s_activeFileIdx = -1,
          s_activeFileAcknowledged = 0, s_paused = False, s_completeSent = False,
          s_complete = None, s_settled = False, s_err = None, s_resumePlan = Map.empty,
          s_appliedResume = None, s_resumeReceived = False, s_entries = [],
          s_transferDigest = '''', s_haveBlocks = 0, s_resending = [], s_pc = PStart,
          s_world = w, s_trace = []\<rparr>)"

section \<open>Calls out of the engine\<close>

definition s_log :: "sevent \<Rightarrow> 'w Sender \<Rightarrow> 'w Sender" where
  "s_log ev s = s\<lparr>s_trace := s_trace s @ [ev]\<rparr>"

definition s_call :: "'w call \<Rightarrow> (err option \<Rightarrow> sevent) \<Rightarrow> (err, 'w Sender) step" where
  "s_call f ev s = (case f (s_world s) of (er, w) \<Rightarrow> (er, s_log (ev er) (s\<lparr>s_world := w\<rparr>)))"

definition s_notify :: "('w \<Rightarrow> 'w) option \<Rightarrow> sevent \<Rightarrow> 'w Sender \<Rightarrow> 'w Sender" where
  "s_notify f ev s = (case f of None \<Rightarrow> s
     | Some g \<Rightarrow> s_log ev (s\<lparr>s_world := g (s_world s)\<rparr>))"

definition sendFrame :: "FrameHeaderInput \<Rightarrow> bytes \<Rightarrow> (err, 'w Sender) step" where
  "sendFrame header payload s =
     (case Seal (so_SendDir (s_o s)) (s_sendCounter s) header payload of
        Inl e \<Rightarrow> (Some e, s)
      | Inr frame \<Rightarrow> s_call (so_Send (s_o s) frame) (SentFrame (s_sendCounter s) header payload frame)
          (s\<lparr>s_sendCounter := s_sendCounter s + 1\<rparr>))"

definition Sender_sendControl :: "ControlMsg \<Rightarrow> (err, 'w Sender) step" where
  "Sender_sendControl msg s =
     (case EncodeControl msg of Inl e \<Rightarrow> (Some e, s)
      | Inr payload \<Rightarrow> sendFrame \<lparr>hi_Version = FrameVersion, hi_Type = FrameType msg, hi_Flags = 0,
          hi_FileIdx = 0, hi_BlockIdx = 0, hi_FrameOff = 0\<rparr> payload s)"

section \<open>Timers and settling\<close>

definition stop_timer :: "inflightBlock \<Rightarrow> inflightBlock" where
  "stop_timer b = (case ib_timer b of NoTimer \<Rightarrow> b | _ \<Rightarrow> b\<lparr>ib_timer := Stopped\<rparr>)"

definition drop_timer :: "inflightBlock \<Rightarrow> inflightBlock" where
  "drop_timer b = b\<lparr>ib_timer := NoTimer\<rparr>"

definition clearTimersLocked :: "'w Sender \<Rightarrow> 'w Sender" where
  "clearTimersLocked s = s\<lparr>s_inflight := (\<lambda>i. map_option stop_timer (s_inflight s i))\<rparr>"

definition Sender_settle :: "'w Sender \<Rightarrow> 'w Sender" where
  "Sender_settle s = (if s_settled s then s else clearTimersLocked (s\<lparr>s_settled := True\<rparr>))"

definition Sender_fail :: "err \<Rightarrow> 'w Sender \<Rightarrow> 'w Sender" where
  "Sender_fail e s = (if s_settled s then s
     else clearTimersLocked (s\<lparr>s_settled := True, s_err := Some e\<rparr>))"

definition fail_transfer :: "FailReason \<Rightarrow> string \<Rightarrow> 'w Sender \<Rightarrow> 'w Sender" where
  "fail_transfer reason message s = Sender_fail (Transfer (NewTransferError reason message)) s"

definition cancelLocal :: "err \<Rightarrow> 'w Sender \<Rightarrow> 'w Sender" where
  "cancelLocal cause s = fail_transfer FailCanceled (err_text cause) s"

text \<open>\<^verbatim>\<open>armTimeoutLocked\<close>, as a change of the block's state.\<close>

definition armTimeoutLocked :: "'w Sender \<Rightarrow> inflightBlock \<Rightarrow> inflightBlock" where
  "armTimeoutLocked s b =
     (if s_paused s \<or> s_ackTimeout s < 0 \<or> s_settled s then b else b\<lparr>ib_timer := Armed\<rparr>)"

definition armTimeout :: "int \<Rightarrow> 'w Sender \<Rightarrow> 'w Sender" where
  "armTimeout blockIdx s =
     (case s_inflight s blockIdx of None \<Rightarrow> s
      | Some b \<Rightarrow> s\<lparr>s_inflight := (s_inflight s)(blockIdx \<mapsto> armTimeoutLocked s b)\<rparr>)"

definition queueRetry :: "int \<Rightarrow> 'w Sender \<Rightarrow> 'w Sender" where
  "queueRetry blockIdx s =
     (case s_inflight s blockIdx of
        None \<Rightarrow> s
      | Some b \<Rightarrow>
        if blockIdx \<in> s_retryQueued s \<or> s_settled s then s
        else s\<lparr>s_inflight := (s_inflight s)(blockIdx \<mapsto> drop_timer b),
               s_retryQueued := insert blockIdx (s_retryQueued s),
               s_retryQueue := s_retryQueue s @ [blockIdx]\<rparr>)"

text \<open>A timer fires.  A timer whose \<^verbatim>\<open>Stop\<close> came too late fires all the same, so this may happen
  for any index at any time.\<close>

definition timer_fires :: "int \<Rightarrow> 'w Sender \<Rightarrow> 'w Sender" where
  "timer_fires blockIdx s = queueRetry blockIdx
     (case s_inflight s blockIdx of None \<Rightarrow> s
      | Some b \<Rightarrow> s\<lparr>s_inflight := (s_inflight s)(blockIdx \<mapsto> stop_timer b)\<rparr>)"

definition Sender_setPaused :: "bool \<Rightarrow> 'w Sender \<Rightarrow> bool \<times> 'w Sender" where
  "Sender_setPaused paused s =
     (if s_settled s \<or> s_paused s = paused then (False, s)
      else
        let s1 = s\<lparr>s_paused := paused\<rparr>;
            s2 = s1\<lparr>s_inflight := (\<lambda>i. map_option (\<lambda>b. if paused then drop_timer b
               else armTimeoutLocked s1 (drop_timer b)) (s_inflight s i))\<rparr>;
            st = (if paused then TransferPaused else TransferRunning)
        in (True, s_notify (map_option (\<lambda>f. f st) (so_OnStateChange (s_o s))) (SStateChange st) s2))"

section \<open>Inbound messages\<close>

definition onAck :: "Ack \<Rightarrow> 'w Sender \<Rightarrow> 'w Sender" where
  "onAck ack s =
     (if ack_FileIdx ack < s_activeFileIdx s then s
      else if ack_FileIdx ack \<noteq> s_activeFileIdx s then fail_transfer FailIntegrity ''ack for unknown file'' s
      else case s_inflight s (ack_BlockIdx ack) of
          None \<Rightarrow> s
        | Some b \<Rightarrow>
          let acknowledged = s_acknowledged s + int (length (ib_bytes b));
              fileAcknowledged = s_activeFileAcknowledged s + int (length (ib_bytes b));
              fileIdx = s_activeFileIdx s;
              s1 = s\<lparr>s_inflight := (s_inflight s)(ack_BlockIdx ack := None),
                     s_retryQueued := s_retryQueued s - {ack_BlockIdx ack},
                     s_acknowledged := acknowledged, s_activeFileAcknowledged := fileAcknowledged\<rparr>
          in s_notify (map_option (\<lambda>f. f fileIdx fileAcknowledged acknowledged) (so_OnFileProgress (s_o s)))
               (SFileProgress fileIdx fileAcknowledged acknowledged)
               (s_notify (map_option (\<lambda>f. f acknowledged) (so_OnProgress (s_o s))) (SProgress acknowledged) s1))"

definition resumeStatesEqual :: "ResumeState \<Rightarrow> ResumeState \<Rightarrow> bool" where
  "resumeStatesEqual a b \<longleftrightarrow> rs_TransferID a = rs_TransferID b
     \<and> rs_ManifestFingerprint a = rs_ManifestFingerprint b \<and> rs_Files a = rs_Files b"

fun plan_files :: "FileEntry list \<Rightarrow> (int \<rightharpoonup> int) \<Rightarrow> ResumeFileState list \<Rightarrow> (string, int \<rightharpoonup> int) result" where
  "plan_files files plan [] = Inr plan"
| "plan_files files plan (f # fs) =
     (if rf_Idx f < 0 \<or> int (length files) \<le> rf_Idx f then Inl ''resume_state references an unknown file''
      else if plan (rf_Idx f) \<noteq> None then Inl ''resume_state references a file more than once''
      else if rf_HaveBlocks f < 0 \<or> fe_Blocks (files ! nat (rf_Idx f)) < rf_HaveBlocks f
      then Inl ''resume_state haveBlocks out of range''
      else plan_files files (plan(rf_Idx f \<mapsto> rf_HaveBlocks f)) fs)"

definition buildResumePlanLocked :: "ResumeState \<Rightarrow> 'w Sender \<Rightarrow> (string, int \<rightharpoonup> int) result" where
  "buildResumePlanLocked m s =
     (case s_manifest s of
        None \<Rightarrow> Inl ''unexpected resume_state''
      | Some manifest \<Rightarrow>
        if s_transferID s = '''' then Inl ''unexpected resume_state''
        else if rs_TransferID m \<noteq> s_transferID s then Inl ''resume_state transfer id mismatch''
        else if rs_ManifestFingerprint m \<noteq> '''' \<and> rs_ManifestFingerprint m \<noteq> s_manifestFingerprint s
        then Inl ''resume_state manifest fingerprint mismatch''
        else if s_resumeReceived s
        then (case s_appliedResume s of
            Some a \<Rightarrow> if resumeStatesEqual m a then Inr (s_resumePlan s)
              else Inl ''conflicting duplicate resume_state''
          | None \<Rightarrow> Inl ''conflicting duplicate resume_state'')
        else case plan_files (mf_Files manifest) Map.empty (rs_Files m) of
            Inl e \<Rightarrow> Inl e
          | Inr plan \<Rightarrow> if card (dom plan) \<noteq> length (mf_Files manifest)
              then Inl ''resume_state is missing a file entry'' else Inr plan)"

definition onResumeState :: "ResumeState \<Rightarrow> 'w Sender \<Rightarrow> 'w Sender" where
  "onResumeState m s =
     (case buildResumePlanLocked m s of
        Inl message \<Rightarrow> fail_transfer FailIntegrity message s
      | Inr plan \<Rightarrow> s\<lparr>s_resumePlan := plan, s_appliedResume := Some m, s_resumeReceived := True\<rparr>)"

definition applyRemoteControl :: "ControlOp \<Rightarrow> 'w Sender \<Rightarrow> 'w Sender" where
  "applyRemoteControl op s =
     (case op of
        ControlPause \<Rightarrow> snd (Sender_setPaused True s)
      | ControlResume \<Rightarrow> snd (Sender_setPaused False s)
      | ControlCancel \<Rightarrow> fail_transfer FailCanceled ''peer canceled the transfer''
          (s_notify (map_option (\<lambda>f. f TransferCanceled) (so_OnStateChange (s_o s)))
             (SStateChange TransferCanceled) s))"

definition on_message :: "ControlMsg \<Rightarrow> 'w Sender \<Rightarrow> 'w Sender" where
  "on_message msg s =
     (case msg of
        MAck a \<Rightarrow> onAck a s
      | MNack n \<Rightarrow>
        if nack_FileIdx n < s_activeFileIdx s then s
        else if nack_FileIdx n \<noteq> s_activeFileIdx s then fail_transfer FailIntegrity ''nack for unknown file'' s
        else queueRetry (nack_BlockIdx n) s
      | MResumeState m \<Rightarrow> onResumeState m s
      | MControl c \<Rightarrow> applyRemoteControl (ctl_Op c) s
      | MDone d \<Rightarrow> if \<not> s_completeSent s then fail_transfer FailIntegrity ''done before complete was sent'' s
          else Sender_settle s
      | MFail f \<Rightarrow> fail_transfer (fail_Reason f) (''receiver failed: '' @ FailReason_string (fail_Reason f)) s
      | _ \<Rightarrow> fail_transfer FailIntegrity ''unexpected sender-inbound type'' s)"

definition Sender_Handle :: "bytes \<Rightarrow> 'w Sender \<Rightarrow> 'w Sender" where
  "Sender_Handle frame s =
     (if s_settled s then s
      else case OpenSequenced (so_RecvDir (s_o s)) (s_recvCounter s) frame of
          Inl e \<Rightarrow> if e = FrameReplay then s else fail_transfer FailIntegrity (err_text e) s
        | Inr opened \<Rightarrow>
          let s1 = s\<lparr>s_recvCounter := opened_Counter opened + 1\<rparr> in
          case DecodeControl (opened_Plaintext opened) of
            Inl e \<Rightarrow> fail_transfer FailIntegrity (err_text e) s1
          | Inr msg \<Rightarrow>
            if h_Type (opened_Header opened) \<noteq> FrameType msg
            then fail_transfer FailIntegrity ''control frame header/payload type mismatch'' s1
            else on_message msg s1)"

section \<open>Path changes, controls and the terminal exchange\<close>

text \<open>Go iterates over the map of blocks in flight in an unspecified order; \<open>order\<close> is that order, a
  list of the map's keys.\<close>

definition map_order :: "(int \<rightharpoonup> 'b) \<Rightarrow> int list \<Rightarrow> bool" where
  "map_order m order \<longleftrightarrow> distinct order \<and> set order = dom m"

definition requeue_block :: "'w Sender \<Rightarrow> int \<Rightarrow> 'w Sender" where
  "requeue_block s idx =
     (case s_inflight s idx of
        None \<Rightarrow> s
      | Some b \<Rightarrow>
        let s1 = s\<lparr>s_inflight := (s_inflight s)(idx \<mapsto> (drop_timer b)\<lparr>ib_retries := 0\<rparr>)\<rparr> in
        if idx \<in> s_retryQueued s1 then s1
        else s1\<lparr>s_retryQueued := insert idx (s_retryQueued s1), s_retryQueue := s_retryQueue s1 @ [idx]\<rparr>)"

definition Sender_TransportChanged :: "int list \<Rightarrow> 'w Sender \<Rightarrow> 'w Sender" where
  "Sender_TransportChanged order s =
     (if s_settled s \<or> \<not> map_order (s_inflight s) order then s
      else
        let s1 = foldl requeue_block s order;
            s2 = s1\<lparr>s_resending := s_resending s1 @
                (case s_complete s1 of Some c \<Rightarrow> if s_completeSent s1 then [c] else [] | None \<Rightarrow> [])\<rparr>
        in case s_manifest s1 of
             Some m \<Rightarrow> if s_manifestSent s1 \<and> s_acknowledged s1 = 0
               then snd (Sender_sendControl (MManifest m) s2) else s2
           | None \<Rightarrow> s2)"

text \<open>A background goroutine of \<^verbatim>\<open>TransportChanged\<close> sends its message.\<close>

definition resend_complete :: "'w Sender \<Rightarrow> 'w Sender" where
  "resend_complete s = (case s_resending s of [] \<Rightarrow> s
     | c # cs \<Rightarrow> snd (Sender_sendControl (MComplete c) (s\<lparr>s_resending := cs\<rparr>)))"

definition Sender_Pause :: "(err, 'w Sender) step" where
  "Sender_Pause s = (case Sender_setPaused True s of (changed, s') \<Rightarrow>
     if changed then Sender_sendControl (NewControl ControlPause) s' else (None, s'))"

definition Sender_Resume :: "(err, 'w Sender) step" where
  "Sender_Resume s = (case Sender_setPaused False s of (changed, s') \<Rightarrow>
     if changed then Sender_sendControl (NewControl ControlResume) s' else (None, s'))"

definition Sender_Cancel :: "string \<Rightarrow> (err, 'w Sender) step" where
  "Sender_Cancel reason s =
     (if s_settled s then (None, s)
      else case Sender_sendControl (NewControl ControlCancel) s of (er, s') \<Rightarrow>
        (er, fail_transfer FailCanceled reason s'))"

text \<open>The cancel message of a cancelled context is sent by another goroutine, before the sender is
  failed when it returns within 250 ms and after it otherwise.\<close>

definition Sender_cancelFromContext :: "err \<Rightarrow> bool \<Rightarrow> 'w Sender \<Rightarrow> 'w Sender" where
  "Sender_cancelFromContext cause sentInTime s =
     (if sentInTime then cancelLocal cause (snd (Sender_sendControl (NewControl ControlCancel) s))
      else snd (Sender_sendControl (NewControl ControlCancel) (cancelLocal cause s)))"

definition retransmitComplete :: "'w Sender \<Rightarrow> 'w Sender" where
  "retransmitComplete s =
     (case s_complete s of None \<Rightarrow> s
      | Some c \<Rightarrow> if s_settled s \<or> \<not> s_completeSent s then s else snd (Sender_sendControl (MComplete c) s))"

text \<open>The deadline of \<^verbatim>\<open>waitDone\<close>.\<close>

definition done_deadline :: "'w Sender \<Rightarrow> 'w Sender" where
  "done_deadline s = fail_transfer FailRetryExhausted
     ''transfer: receiver did not send Done within the deadline'' s"

section \<open>Run: the manifest\<close>

definition fail_return :: "err \<Rightarrow> 'w Sender \<Rightarrow> 'w Sender" where
  "fail_return e s = (Sender_fail e s)\<lparr>s_pc := PReturned (Inl e)\<rparr>"

text \<open>The first pass over the sources: digests, block counts and the total size.\<close>

fun hash_files :: "int \<Rightarrow> int \<Rightarrow> int \<Rightarrow> FileSource list \<Rightarrow> (err, FileEntry list \<times> int) result" where
  "hash_files blockSize idx totalSize [] = Inr ([], totalSize)"
| "hash_files blockSize idx totalSize (source # rest) =
     (let meta = fs_Meta source; (chunks, outcome) = fs_Stream source 0 in
      if outcome \<noteq> None then Inl (Classified CodeSourceIO ''transfer: source read failed'')
      else if s64 (max_int64 - totalSize) < fm_Size meta then Inl (Plain ''transfer: total size overflow'')
      else
        let entry = \<lparr>fe_Idx = idx, fe_Name = fm_Name meta, fe_Size = fm_Size meta, fe_Mime = fm_Mime meta,
              fe_LastModified = fm_LastModified meta, fe_BlockSize = blockSize,
              fe_Blocks = (if 0 < fm_Size meta then go_div (fm_Size meta - 1) blockSize + 1 else 0),
              fe_FileDigest = HexDigest (foldl Update NewSHA256Digest chunks)\<rparr>
        in case hash_files blockSize (idx + 1) (s64 (totalSize + fm_Size meta)) rest of
             Inl e \<Rightarrow> Inl e
           | Inr (entries, tot) \<Rightarrow> Inr (entry # entries, tot))"

definition build_manifest :: "'w Sender \<Rightarrow> (err, FileEntry list \<times> Manifest) result" where
  "build_manifest s =
     (if s_files s = [] \<or> (so_File (s_o s) \<noteq> None \<and> so_Files (s_o s) \<noteq> [])
      then Inl (Plain ''transfer: exactly one of File or Files is required'')
      else case hash_files (s_blockSize s) 0 0 (s_files s) of
          Inl e \<Rightarrow> Inl e
        | Inr (entries, tot) \<Rightarrow>
          (case ValidateManifest ((NewManifest entries tot)\<lparr>mf_TransferID := s_transferID s\<rparr>) of
             Inl e \<Rightarrow> Inl e
           | Inr manifest \<Rightarrow> Inr (entries, manifest)))"

definition announce_manifest :: "Manifest \<Rightarrow> (err, 'w Sender) step" where
  "announce_manifest manifest s =
     (case so_OnManifest (s_o s) of None \<Rightarrow> (None, s)
      | Some f \<Rightarrow> s_call (f manifest) (SManifestSet manifest) s)"

definition register_manifest :: "FileEntry list \<Rightarrow> Manifest \<Rightarrow> string \<Rightarrow> 'w Sender \<Rightarrow> 'w Sender" where
  "register_manifest entries manifest fingerprint s =
     s\<lparr>s_entries := entries, s_transferDigest := CompletionDigest (mf_Files manifest),
       s_manifest := Some manifest, s_manifestFingerprint := fingerprint, s_manifestSent := True,
       s_pc := PManifest\<rparr>"

definition run_start :: "'w Sender \<Rightarrow> 'w Sender" where
  "run_start s =
     (case build_manifest s of
        Inl e \<Rightarrow> fail_return e s
      | Inr (entries, manifest) \<Rightarrow>
        (case announce_manifest manifest s of
           (Some e, s1) \<Rightarrow> fail_return e s1
         | (None, s1) \<Rightarrow>
           (case ManifestFingerprint manifest of
              Inl e \<Rightarrow> fail_return e s1
            | Inr fingerprint \<Rightarrow> register_manifest entries manifest fingerprint s1)))"

definition run_manifest :: "'w Sender \<Rightarrow> 'w Sender" where
  "run_manifest s =
     (case s_manifest s of None \<Rightarrow> s
      | Some manifest \<Rightarrow>
        (case Sender_sendControl (MManifest manifest) s of
           (Some e, s1) \<Rightarrow> fail_return e s1
         | (None, s1) \<Rightarrow> s1\<lparr>s_pc := (if s_transferID s = '''' then PFile 0 else PWaitResume)\<rparr>))"

text \<open>The outcome of a wait that ends because the sender has settled.\<close>

definition settled_error :: "'w Sender \<Rightarrow> err" where
  "settled_error s = (case s_err s of Some e \<Rightarrow> e | None \<Rightarrow> SenderSettled)"

definition committed_bytes :: "int \<Rightarrow> FileEntry \<Rightarrow> int \<Rightarrow> int" where
  "committed_bytes blockSize entry have = (if fe_Blocks entry \<le> have then fe_Size entry else have * blockSize)"

text \<open>Only file indices of the manifest are keys of the plan.\<close>

definition reused_total :: "'w Sender \<Rightarrow> int" where
  "reused_total s = sum_list (map (\<lambda>entry. case s_resumePlan s (fe_Idx entry) of None \<Rightarrow> 0
     | Some have \<Rightarrow> committed_bytes (s_blockSize s) entry have) (s_entries s))"

definition run_waitResume :: "'w Sender \<Rightarrow> 'w Sender" where
  "run_waitResume s =
     (if s_settled s then s\<lparr>s_pc := PReturned (Inl (settled_error s))\<rparr>
      else if \<not> s_resumeReceived s then s
      else (if 0 < reused_total s
        then s_notify (map_option (\<lambda>f. f (reused_total s)) (so_OnResume (s_o s))) (SResumedAt (reused_total s)) s
        else s)\<lparr>s_pc := PFile 0\<rparr>)"

section \<open>Run: the blocks of a file\<close>

definition wrap_source_error :: "err \<Rightarrow> err" where
  "wrap_source_error e = (case e of SenderSettled \<Rightarrow> e | Transfer _ \<Rightarrow> e
     | _ \<Rightarrow> Classified CodeSourceIO ''transfer: source read failed'')"

definition mark_piece :: "bool \<Rightarrow> FramePiece \<Rightarrow> piece list \<Rightarrow> err option \<times> piece list" where
  "mark_piece b p ps = (None, ps @ [(b, p)])"

text \<open>The pieces \<^verbatim>\<open>ReChunk\<close> emits for the second pass over a source, when no emission fails: those
  of the stream, then those of the flush, which does not happen when the source fails.\<close>

definition block_feed :: "nat \<Rightarrow> bytes list \<times> err option \<Rightarrow> feed option" where
  "block_feed blockSize source =
     (case push_chunks (fst source) (snd source) (on_chunk blockSize blockSize (mark_piece True))
         (\<lparr>ck_pos = 0, ck_buf = [], ck_start = 0\<rparr>, []) of
        None \<Rightarrow> None
      | Some (Some e, (_, ps)) \<Rightarrow> Some (ps, Some (wrap_source_error e))
      | Some (None, (c, ps)) \<Rightarrow>
        (case flush blockSize blockSize (mark_piece False) c ps of
           None \<Rightarrow> None | Some (er, ps') \<Rightarrow> Some (ps', er)))"

definition begin_send_file :: "nat \<Rightarrow> 'w Sender \<Rightarrow> 'w Sender" where
  "begin_send_file i s =
     (let have = (case s_resumePlan s (int i) of None \<Rightarrow> 0 | Some h \<Rightarrow> h);
          committed = committed_bytes (s_blockSize s) (s_entries s ! i) have
      in s\<lparr>s_activeFileIdx := int i, s_haveBlocks := have, s_activeFileAcknowledged := committed,
           s_acknowledged := s_acknowledged s + committed\<rparr>)"

definition run_file :: "nat \<Rightarrow> 'w Sender \<Rightarrow> 'w Sender" where
  "run_file i s =
     (if i < length (s_files s)
      then (case block_feed (nat (s_blockSize s)) (fs_Stream (s_files s ! i) 1) of
          None \<Rightarrow> begin_send_file i s
        | Some feed \<Rightarrow> (begin_send_file i s)\<lparr>s_pc := PPieces i feed\<rparr>)
      else s\<lparr>s_pc := PComplete\<rparr>)"

text \<open>What \<^verbatim>\<open>Run\<close> does with the error \<^verbatim>\<open>ReChunk\<close> returned.\<close>

definition stream_ended :: "nat \<Rightarrow> err option \<Rightarrow> 'w Sender \<Rightarrow> 'w Sender" where
  "stream_ended i er s = (case er of
     Some e \<Rightarrow> if e = SenderSettled then s\<lparr>s_pc := PDrain i\<rparr> else fail_return e s
   | None \<Rightarrow> s\<lparr>s_pc := PDrain i\<rparr>)"

text \<open>The emit callback failed: \<^verbatim>\<open>ReChunk\<close> stops, and an error met while the source streams passes
  through the wrapper around \<^verbatim>\<open>source.Stream\<close>.\<close>

definition emit_failed :: "nat \<Rightarrow> piece \<Rightarrow> err \<Rightarrow> 'w Sender \<Rightarrow> 'w Sender" where
  "emit_failed i p e s = stream_ended i (Some (if fst p then wrap_source_error e else e)) s"

definition run_pieces :: "nat \<Rightarrow> feed \<Rightarrow> 'w Sender \<Rightarrow> 'w Sender" where
  "run_pieces i feed s =
     (case feed of
        ([], er) \<Rightarrow> stream_ended i er s
      | (p # ps, er) \<Rightarrow>
        if int (fp_BlockIdx (snd p)) < s_haveBlocks s then s\<lparr>s_pc := PPieces i (ps, er)\<rparr>
        else s\<lparr>s_pc := PCapacity i p (ps, er)\<rparr>)"

datatype next_step = Wait | Stop err | Retry int | Proceed

fun pop_retry :: "int list \<Rightarrow> 'w Sender \<Rightarrow> int option \<times> 'w Sender" where
  "pop_retry [] s = (None, s\<lparr>s_retryQueue := []\<rparr>)"
| "pop_retry (idx # rest) s =
     (let s' = s\<lparr>s_retryQueue := rest, s_retryQueued := s_retryQueued s - {idx}\<rparr>
      in if s_inflight s' idx \<noteq> None then (Some idx, s') else pop_retry rest s')"

definition nextRetryOrWait :: "bool \<Rightarrow> 'w Sender \<Rightarrow> next_step \<times> 'w Sender" where
  "nextRetryOrWait capacity s =
     (if s_settled s then (Stop (settled_error s), s)
      else if s_paused s then (Wait, s)
      else case pop_retry (s_retryQueue s) s of
          (Some idx, s') \<Rightarrow> (Retry idx, s')
        | (None, s') \<Rightarrow>
          (if capacity \<and> int (card (dom (s_inflight s'))) < s_window s' then Proceed
           else if \<not> capacity \<and> dom (s_inflight s') = {} then Proceed else Wait, s'))"

definition run_capacity :: "nat \<Rightarrow> piece \<Rightarrow> feed \<Rightarrow> 'w Sender \<Rightarrow> 'w Sender" where
  "run_capacity i p feed s =
     (case nextRetryOrWait True s of
        (Wait, s1) \<Rightarrow> s1
      | (Stop e, s1) \<Rightarrow> emit_failed i p e s1
      | (Retry idx, s1) \<Rightarrow> s1\<lparr>s_pc := PResend i (KCapacity p feed) idx\<rparr>
      | (Proceed, s1) \<Rightarrow> s1\<lparr>s_pc := PRegister i p feed\<rparr>)"

definition run_register :: "nat \<Rightarrow> piece \<Rightarrow> feed \<Rightarrow> 'w Sender \<Rightarrow> 'w Sender" where
  "run_register i p feed s =
     (let idx = int (fp_BlockIdx (snd p)); block = fp_Payload (snd p) in
      if s_settled s then emit_failed i p SenderSettled s
      else s\<lparr>s_inflight := (s_inflight s)(idx \<mapsto> \<lparr>ib_bytes = block, ib_retries = 0, ib_timer = NoTimer\<rparr>),
             s_pc := PSend i (KNew p feed) idx block 0\<rparr>)"

text \<open>Whoever called \<^verbatim>\<open>resend\<close> or \<^verbatim>\<open>sendBlock\<close> goes on after it returned.\<close>

definition resume_cont :: "nat \<Rightarrow> cont \<Rightarrow> 'w Sender \<Rightarrow> 'w Sender" where
  "resume_cont i k s = s\<lparr>s_pc := (case k of KNew p feed \<Rightarrow> PPieces i feed
     | KCapacity p feed \<Rightarrow> PCapacity i p feed | KDrain \<Rightarrow> PDrain i)\<rparr>"

definition cont_failed :: "nat \<Rightarrow> cont \<Rightarrow> err \<Rightarrow> 'w Sender \<Rightarrow> 'w Sender" where
  "cont_failed i k e s = (case k of KNew p feed \<Rightarrow> emit_failed i p e s
     | KCapacity p feed \<Rightarrow> emit_failed i p e s | KDrain \<Rightarrow> s\<lparr>s_pc := PReturned (Inl e)\<rparr>)"

text \<open>Only \<^verbatim>\<open>Run\<close> puts a block in flight, so the block \<^verbatim>\<open>nextRetryOrWait\<close> returned is the current
  one unless it was acknowledged meanwhile.\<close>

definition run_resend :: "nat \<Rightarrow> cont \<Rightarrow> int \<Rightarrow> 'w Sender \<Rightarrow> 'w Sender" where
  "run_resend i k idx s =
     (case s_inflight s idx of
        None \<Rightarrow> resume_cont i k s
      | Some b \<Rightarrow>
        if s_maxRetries s \<le> ib_retries b
        then let e = Transfer (NewTransferError FailRetryExhausted ''block remained unacknowledged'')
          in cont_failed i k e (Sender_fail e (snd (Sender_sendControl (NewFail FailRetryExhausted) s)))
        else s\<lparr>s_inflight := (s_inflight s)(idx \<mapsto> b\<lparr>ib_retries := ib_retries b + 1\<rparr>),
               s_pc := PSend i k idx (ib_bytes b) 0\<rparr>)"

text \<open>One iteration of the loop of \<^verbatim>\<open>sendBlock\<close>, or the block hash after it.\<close>

definition data_header :: "int \<Rightarrow> int \<Rightarrow> int \<Rightarrow> int \<Rightarrow> bytes \<Rightarrow> FrameHeaderInput" where
  "data_header fileIdx blockIdx off frameSize block =
     \<lparr>hi_Version = FrameVersion, hi_Type = FrameBlockData,
      hi_Flags = (if min (off + frameSize) (int (length block)) = int (length block) then FrameFlagLastInBlock else 0),
      hi_FileIdx = word_of_int fileIdx, hi_BlockIdx = word_of_int blockIdx, hi_FrameOff = word_of_int off\<rparr>"

definition frame_payload :: "int \<Rightarrow> int \<Rightarrow> bytes \<Rightarrow> bytes" where
  "frame_payload off frameSize block = take (nat (min (off + frameSize) (int (length block)) - off)) (drop (nat off) block)"

definition block_failed :: "nat \<Rightarrow> cont \<Rightarrow> err \<Rightarrow> 'w Sender \<Rightarrow> 'w Sender" where
  "block_failed i k e s = cont_failed i k e (case k of KNew p feed \<Rightarrow> s | _ \<Rightarrow> Sender_fail e s)"

definition run_send :: "nat \<Rightarrow> cont \<Rightarrow> int \<Rightarrow> bytes \<Rightarrow> int \<Rightarrow> 'w Sender \<Rightarrow> 'w Sender" where
  "run_send i k idx block off s =
     (if off < int (length block)
      then (case sendFrame (data_header (s_activeFileIdx s) idx off (s_frameSize s) block)
              (frame_payload off (s_frameSize s) block) s of
          (Some e, s1) \<Rightarrow> block_failed i k e s1
        | (None, s1) \<Rightarrow> s1\<lparr>s_pc := PSend i k idx block (off + s_frameSize s)\<rparr>)
      else (case Sender_sendControl (NewBlockHash (s_activeFileIdx s) idx (hex_encode (sha256 block))) s of
          (Some e, s1) \<Rightarrow> block_failed i k e s1
        | (None, s1) \<Rightarrow> s1\<lparr>s_pc := PArm i k idx\<rparr>))"

definition run_arm :: "nat \<Rightarrow> cont \<Rightarrow> int \<Rightarrow> 'w Sender \<Rightarrow> 'w Sender" where
  "run_arm i k idx s = resume_cont i k (armTimeout idx s)"

definition run_drain :: "nat \<Rightarrow> 'w Sender \<Rightarrow> 'w Sender" where
  "run_drain i s =
     (case nextRetryOrWait False s of
        (Wait, s1) \<Rightarrow> s1
      | (Stop e, s1) \<Rightarrow> s1\<lparr>s_pc := PReturned (Inl e)\<rparr>
      | (Retry idx, s1) \<Rightarrow> s1\<lparr>s_pc := PResend i KDrain idx\<rparr>
      | (Proceed, s1) \<Rightarrow>
        (s_notify (map_option (\<lambda>f. f (int i) (fe_Size (s_entries s1 ! i)) (s_acknowledged s1)) (so_OnFileProgress (s_o s1)))
          (SFileProgress (int i) (fe_Size (s_entries s1 ! i)) (s_acknowledged s1)) s1)\<lparr>s_pc := PFile (Suc i)\<rparr>)"

section \<open>Run: the end of the transfer\<close>

definition run_complete :: "'w Sender \<Rightarrow> 'w Sender" where
  "run_complete s = s\<lparr>s_completeSent := True, s_complete := Some (NewComplete (s_transferDigest s)),
     s_pc := PSendComplete\<rparr>"

definition run_sendComplete :: "'w Sender \<Rightarrow> 'w Sender" where
  "run_sendComplete s =
     (case s_complete s of None \<Rightarrow> s
      | Some c \<Rightarrow>
        (case Sender_sendControl (MComplete c) s of
           (Some e, s1) \<Rightarrow> fail_return e s1
         | (None, s1) \<Rightarrow> s1\<lparr>s_pc := PWaitDone\<rparr>))"

definition run_waitDone :: "'w Sender \<Rightarrow> 'w Sender" where
  "run_waitDone s = (if \<not> s_settled s then s
     else s\<lparr>s_pc := PReturned (case s_err s of Some e \<Rightarrow> Inl e | None \<Rightarrow> Inr (s_transferDigest s))\<rparr>)"

fun run_at :: "pc \<Rightarrow> 'w Sender \<Rightarrow> 'w Sender" where
  "run_at PStart s = run_start s"
| "run_at PManifest s = run_manifest s"
| "run_at PWaitResume s = run_waitResume s"
| "run_at (PFile i) s = run_file i s"
| "run_at (PPieces i feed) s = run_pieces i feed s"
| "run_at (PCapacity i p feed) s = run_capacity i p feed s"
| "run_at (PRegister i p feed) s = run_register i p feed s"
| "run_at (PResend i k idx) s = run_resend i k idx s"
| "run_at (PSend i k idx block off) s = run_send i k idx block off s"
| "run_at (PArm i k idx) s = run_arm i k idx s"
| "run_at (PDrain i) s = run_drain i s"
| "run_at PComplete s = run_complete s"
| "run_at PSendComplete s = run_sendComplete s"
| "run_at PWaitDone s = run_waitDone s"
| "run_at (PReturned res) s = s"

definition run_step :: "'w Sender \<Rightarrow> 'w Sender" where
  "run_step s = run_at (s_pc s) s"

fun returned :: "pc \<Rightarrow> bool" where
  "returned (PReturned res) = True"
| "returned _ = False"

datatype sender_event =
    SRun
  | SHandle bytes
  | STimer int
  | STransportChanged "int list"
  | SResendComplete
  | SRetransmit
  | SDoneDeadline
  | SPause
  | SResume
  | SCancel string
  | SContextDone err bool

text \<open>The ticker and the deadline of \<^verbatim>\<open>waitDone\<close> run only while it waits, the watch on the context
  only while \<^verbatim>\<open>Run\<close> has not returned.\<close>

fun sender_step :: "'w Sender \<Rightarrow> sender_event \<Rightarrow> 'w Sender" where
  "sender_step s SRun = run_step s"
| "sender_step s (SHandle frame) = Sender_Handle frame s"
| "sender_step s (STimer idx) = timer_fires idx s"
| "sender_step s (STransportChanged order) = Sender_TransportChanged order s"
| "sender_step s SResendComplete = resend_complete s"
| "sender_step s SRetransmit = (if s_pc s = PWaitDone then retransmitComplete s else s)"
| "sender_step s SDoneDeadline = (if s_pc s = PWaitDone then done_deadline s else s)"
| "sender_step s SPause = snd (Sender_Pause s)"
| "sender_step s SResume = snd (Sender_Resume s)"
| "sender_step s (SCancel reason) = snd (Sender_Cancel reason s)"
| "sender_step s (SContextDone cause inTime) =
     (if returned (s_pc s) then s else Sender_cancelFromContext cause inTime s)"

definition sender_run :: "'w SenderOptions \<Rightarrow> 'w \<Rightarrow> sender_event list \<Rightarrow> 'w Sender" where
  "sender_run opts w evs = foldl sender_step (NewSender opts w) evs"

end
