(* ===== verification/SenderTrace.thy ===== *)
theory SenderTrace
  imports Sender
begin

text \<open>
  What every step of the sender does to its history: it only appends, every frame it hands to the
  transport is sealed under the next counter, and its configuration stays as it is.  A settled
  sender keeps its outcome.
\<close>

section \<open>Histories\<close>

fun frame_counters :: "sevent list \<Rightarrow> 64 word list" where
  "frame_counters [] = []"
| "frame_counters (SentFrame c h p frame er # evs) = c # frame_counters evs"
| "frame_counters (_ # evs) = frame_counters evs"

lemma frame_counters_append [simp]: "frame_counters (xs @ ys) = frame_counters xs @ frame_counters ys"
  by (induction xs rule: frame_counters.induct) simp_all

fun frame_sealed :: "DirectionalKey \<Rightarrow> sevent \<Rightarrow> bool" where
  "frame_sealed dir (SentFrame c h p frame er) = (Seal dir c h p = Inr frame)"
| "frame_sealed dir _ = True"

fun is_frame :: "sevent \<Rightarrow> bool" where
  "is_frame (SentFrame c h p frame er) = True"
| "is_frame _ = False"

lemma not_frame [simp]: "\<not> is_frame ev \<Longrightarrow> frame_counters (ev # evs) = frame_counters evs"
  "\<not> is_frame ev \<Longrightarrow> frame_sealed dir ev"
  by (cases ev; simp)+

text \<open>The configuration a sender is built with.\<close>

definition static :: "'w Sender \<Rightarrow> _" where
  "static s = (s_o s, s_blockSize s, s_frameSize s, s_window s, s_ackTimeout s, s_maxRetries s,
     s_files s, s_transferID s)"

definition s_evolves :: "'w Sender \<Rightarrow> 'w Sender \<Rightarrow> bool" where
  "s_evolves s s' \<longleftrightarrow> static s' = static s
     \<and> (s_settled s \<longrightarrow> s_settled s' \<and> s_err s' = s_err s)
     \<and> (\<exists>evs. s_trace s' = s_trace s @ evs \<and> consecutive (s_sendCounter s) (frame_counters evs)
         \<and> s_sendCounter s' = s_sendCounter s + of_nat (length (frame_counters evs))
         \<and> list_all (frame_sealed (so_SendDir (s_o s))) evs)"

lemma s_evolves_refl [simp]: "s_evolves s s"
  by (simp add: s_evolves_def)

lemma s_evolves_trans: "s_evolves r s \<Longrightarrow> s_evolves s t \<Longrightarrow> s_evolves r t"
  unfolding s_evolves_def by (fastforce simp: static_def consecutive_append add.assoc)

text \<open>The engine's own fields do not matter.\<close>

lemma s_evolves_update [simp]:
  "s_evolves s (s'\<lparr>s_manifest := a1\<rparr>) = s_evolves s s'"
  "s_evolves s (s'\<lparr>s_manifestFingerprint := a2\<rparr>) = s_evolves s s'"
  "s_evolves s (s'\<lparr>s_manifestSent := a3\<rparr>) = s_evolves s s'"
  "s_evolves s (s'\<lparr>s_recvCounter := a4\<rparr>) = s_evolves s s'"
  "s_evolves s (s'\<lparr>s_inflight := a5\<rparr>) = s_evolves s s'"
  "s_evolves s (s'\<lparr>s_retryQueue := a6\<rparr>) = s_evolves s s'"
  "s_evolves s (s'\<lparr>s_retryQueued := a7\<rparr>) = s_evolves s s'"
  "s_evolves s (s'\<lparr>s_acknowledged := a8\<rparr>) = s_evolves s s'"
  "s_evolves s (s'\<lparr>s_activeFileIdx := a9\<rparr>) = s_evolves s s'"
  "s_evolves s (s'\<lparr>s_activeFileAcknowledged := a10\<rparr>) = s_evolves s s'"
  "s_evolves s (s'\<lparr>s_paused := a11\<rparr>) = s_evolves s s'"
  "s_evolves s (s'\<lparr>s_completeSent := a12\<rparr>) = s_evolves s s'"
  "s_evolves s (s'\<lparr>s_complete := a13\<rparr>) = s_evolves s s'"
  "s_evolves s (s'\<lparr>s_resumePlan := a14\<rparr>) = s_evolves s s'"
  "s_evolves s (s'\<lparr>s_appliedResume := a15\<rparr>) = s_evolves s s'"
  "s_evolves s (s'\<lparr>s_resumeReceived := a16\<rparr>) = s_evolves s s'"
  "s_evolves s (s'\<lparr>s_entries := a17\<rparr>) = s_evolves s s'"
  "s_evolves s (s'\<lparr>s_transferDigest := a18\<rparr>) = s_evolves s s'"
  "s_evolves s (s'\<lparr>s_haveBlocks := a19\<rparr>) = s_evolves s s'"
  "s_evolves s (s'\<lparr>s_resending := a20\<rparr>) = s_evolves s s'"
  "s_evolves s (s'\<lparr>s_pc := a21\<rparr>) = s_evolves s s'"
  "s_evolves s (s'\<lparr>s_world := a22\<rparr>) = s_evolves s s'"
  by (simp_all add: s_evolves_def static_def)

section \<open>Shapes of the primitive steps\<close>

lemma sendFrame_cases:
  assumes "sendFrame h p s = (er, s')"
  obtains (unsent) e where "s' = s" and "er = Some e"
  | (sent) frame w where "Seal (so_SendDir (s_o s)) (s_sendCounter s) h p = Inr frame"
      and "s' = s\<lparr>s_sendCounter := s_sendCounter s + 1, s_world := w,
          s_trace := s_trace s @ [SentFrame (s_sendCounter s) h p frame er]\<rparr>"
  using assms by (auto simp: sendFrame_def s_call_def s_log_def split: sum.splits prod.splits)

lemma Sender_sendControl_eq:
  "Sender_sendControl msg = sendFrame (control_header (FrameType msg)) (bytes_of_string (json_print (control_json msg)))"
  by (rule ext) (simp add: Sender_sendControl_def EncodeControl_def control_header_def)

lemma s_notify_cases:
  obtains (skipped) "s_notify f ev s = s"
  | (called) w where "s_notify f ev s = s\<lparr>s_world := w, s_trace := s_trace s @ [ev]\<rparr>"
proof (cases f)
  case None
  then show ?thesis by (intro skipped) (simp add: s_notify_def)
next
  case (Some g)
  then show ?thesis by (intro called [of "g (s_world s)"]) (simp add: s_notify_def s_log_def)
qed

lemma sendFrame_evolves: "s_evolves s (snd (sendFrame h p s))"
proof (cases "sendFrame h p s")
  case (Pair er s')
  then have "s_evolves s s'" by (cases rule: sendFrame_cases) (auto simp: s_evolves_def static_def)
  with Pair show ?thesis by simp
qed

lemma notify_evolves: "\<not> is_frame ev \<Longrightarrow> s_evolves s (s_notify f ev s)"
  by (cases f ev s rule: s_notify_cases) (auto simp: s_evolves_def static_def)

lemma announce_evolves: "s_evolves s (snd (announce_manifest m s))"
  by (auto simp: announce_manifest_def s_call_def s_log_def s_evolves_def static_def split: option.split prod.split)

lemma fail_evolves [simp]: "s_evolves s (Sender_fail e s)"
  by (auto simp: Sender_fail_def clearTimersLocked_def s_evolves_def static_def)

lemma settle_evolves [simp]: "s_evolves s (Sender_settle s)"
  by (auto simp: Sender_settle_def clearTimersLocked_def s_evolves_def static_def)

text \<open>The same facts, for a state reached before.\<close>

lemma s_evolves_then [intro]:
  "s_evolves s t \<Longrightarrow> s_evolves s (snd (sendFrame h p t))"
  "s_evolves s t \<Longrightarrow> s_evolves s (snd (Sender_sendControl msg t))"
  "s_evolves s t \<Longrightarrow> \<not> is_frame ev \<Longrightarrow> s_evolves s (s_notify f ev t)"
  "s_evolves s t \<Longrightarrow> s_evolves s (Sender_fail e t)"
  "s_evolves s t \<Longrightarrow> s_evolves s (Sender_settle t)"
  "s_evolves s t \<Longrightarrow> s_evolves s (fail_transfer reason message t)"
  "s_evolves s t \<Longrightarrow> s_evolves s (cancelLocal cause t)"
  "s_evolves s t \<Longrightarrow> s_evolves s (fail_return e t)"
  by (auto simp: Sender_sendControl_eq fail_transfer_def cancelLocal_def fail_return_def
      intro: s_evolves_trans sendFrame_evolves notify_evolves fail_evolves settle_evolves)

lemma sent_evolves:
  "sendFrame h p t = (er, t') \<Longrightarrow> s_evolves s t \<Longrightarrow> s_evolves s t'"
  "Sender_sendControl msg t = (er, t') \<Longrightarrow> s_evolves s t \<Longrightarrow> s_evolves s t'"
  "announce_manifest m t = (er, t') \<Longrightarrow> s_evolves s t \<Longrightarrow> s_evolves s t'"
  using s_evolves_then(1) [of s t h p] s_evolves_then(2) [of s t msg] s_evolves_trans [OF _ announce_evolves, of s t m]
  by simp_all

section \<open>The steps of Run\<close>

lemma stream_ended_evolves: "s_evolves s t \<Longrightarrow> s_evolves s (stream_ended i er t)"
  by (auto simp: stream_ended_def split: option.split)

lemma emit_failed_evolves: "s_evolves s t \<Longrightarrow> s_evolves s (emit_failed i p e t)"
  by (simp add: emit_failed_def stream_ended_evolves)

lemma cont_failed_evolves: "s_evolves s t \<Longrightarrow> s_evolves s (cont_failed i k e t)"
  by (cases k) (simp_all add: cont_failed_def emit_failed_evolves)

lemma block_failed_evolves: "s_evolves s t \<Longrightarrow> s_evolves s (block_failed i k e t)"
  by (cases k) (auto simp: block_failed_def intro!: cont_failed_evolves)

lemma resume_cont_evolves [simp]: "s_evolves s (resume_cont i k t) = s_evolves s t"
  by (simp add: resume_cont_def)

lemma pop_retry_evolves: "s_evolves s t \<Longrightarrow> pop_retry q t = (r, t') \<Longrightarrow> s_evolves s t'"
  by (induction q t rule: pop_retry.induct) (auto simp: Let_def split: if_splits)

lemma nextRetry_evolves: "nextRetryOrWait c t = (n, t') \<Longrightarrow> s_evolves s t \<Longrightarrow> s_evolves s t'"
  by (auto simp: nextRetryOrWait_def dest: pop_retry_evolves split: if_splits prod.splits option.splits)

lemma run_send_evolves: "s_evolves s (run_send i k idx block off s)"
proof (cases "off < int (length block)")
  case True
  then show ?thesis
    by (auto simp: run_send_def intro: block_failed_evolves dest: sent_evolves(1) [OF _ s_evolves_refl]
        split: prod.split option.split)
next
  case False
  then show ?thesis
    by (auto simp: run_send_def intro: block_failed_evolves dest: sent_evolves(2) [OF _ s_evolves_refl]
        split: prod.split option.split)
qed

lemma run_start_evolves: "s_evolves s (run_start s)"
  by (auto simp: run_start_def register_manifest_def dest: sent_evolves(3) [OF _ s_evolves_refl]
      split: prod.split option.split sum.split)

lemma run_wait_evolves: "s_evolves s (run_waitResume s)" "s_evolves s (run_drain i s)"
  by (auto simp: run_waitResume_def run_drain_def dest: nextRetry_evolves [OF _ s_evolves_refl]
      split: prod.split next_step.split)

lemma run_capacity_evolves: "s_evolves s (run_capacity i p feed s)"
  by (auto simp: run_capacity_def intro: emit_failed_evolves dest: nextRetry_evolves [OF _ s_evolves_refl]
      split: prod.split next_step.split)

lemma run_resend_evolves: "s_evolves s (run_resend i k idx s)"
  by (auto simp: run_resend_def Let_def intro!: cont_failed_evolves s_evolves_then split: option.split)

lemma run_step_evolves: "s_evolves s (run_step s)"
  unfolding run_step_def
  by (cases "s_pc s")
    (auto simp: run_start_evolves run_wait_evolves run_capacity_evolves run_resend_evolves run_send_evolves
      run_manifest_def run_file_def begin_send_file_def Let_def run_pieces_def stream_ended_evolves run_register_def
      emit_failed_evolves run_arm_def armTimeout_def run_complete_def run_sendComplete_def run_waitDone_def
      dest: sent_evolves(2) [OF _ s_evolves_refl] split: prod.split option.split list.split)

section \<open>The other steps\<close>

lemma setPaused_evolves: "Sender_setPaused b s = (changed, s') \<Longrightarrow> s_evolves s s'"
  by (auto simp: Sender_setPaused_def Let_def split: if_splits)

lemma onAck_evolves: "s_evolves s (onAck a s)"
  by (auto simp: onAck_def Let_def intro!: s_evolves_then split: option.split)

lemma applyRemoteControl_evolves: "s_evolves s (applyRemoteControl op s)"
  by (cases op) (auto simp: applyRemoteControl_def setPaused_evolves [OF prod.collapse [symmetric]]
      intro!: s_evolves_then)

lemma queueRetry_evolves: "s_evolves s (queueRetry idx s)"
  by (simp add: queueRetry_def split: option.split)

lemma onResumeState_evolves: "s_evolves s (onResumeState m s)"
  by (auto simp: onResumeState_def split: sum.split)

lemma on_message_evolves: "s_evolves s (on_message msg s)"
  by (cases msg) (auto simp: on_message_def onAck_evolves queueRetry_evolves onResumeState_evolves
      applyRemoteControl_evolves)

lemma Handle_evolves: "s_evolves s (Sender_Handle frame s)"
  by (auto simp: Sender_Handle_def Let_def intro!: s_evolves_then s_evolves_trans [OF _ on_message_evolves]
      split: sum.split)

lemma requeue_evolves: "s_evolves s t \<Longrightarrow> s_evolves s (requeue_block t idx)"
  by (auto simp: requeue_block_def Let_def split: option.split)

lemma requeue_all_evolves: "s_evolves s t \<Longrightarrow> s_evolves s (foldl requeue_block t order)"
  by (induction order arbitrary: t) (simp_all add: requeue_evolves)

lemma TransportChanged_evolves: "s_evolves s (Sender_TransportChanged order s)"
  using requeue_all_evolves [OF s_evolves_refl, of s order]
  by (auto simp: Sender_TransportChanged_def Let_def intro!: s_evolves_then split: option.split)

lemma cancelFromContext_evolves: "s_evolves s (Sender_cancelFromContext cause inTime s)"
  by (auto simp: Sender_cancelFromContext_def intro!: s_evolves_then)

lemma sender_step_evolves: "s_evolves s (sender_step s ev)"
  using setPaused_evolves [of True s] setPaused_evolves [of False s]
  by (cases ev)
    (auto simp: run_step_evolves Handle_evolves TransportChanged_evolves timer_fires_def queueRetry_def
      resend_complete_def retransmitComplete_def done_deadline_def Sender_Pause_def Sender_Resume_def
      Sender_Cancel_def cancelFromContext_evolves
      intro!: s_evolves_then(6) dest: sent_evolves(2) [OF _ s_evolves_refl]
      split: option.split list.split prod.split)

interpretation sender_history: evolving_machine sender_step s_evolves
  by unfold_locales (auto intro: s_evolves_trans sender_step_evolves)

lemma sender_run_evolves: "s_evolves (NewSender opts w) (sender_run opts w evs)"
  unfolding sender_run_def by (rule sender_history.run_rel)

section \<open>Invariants of the sender\<close>

text \<open>The state changes of the handlers, apart from their callbacks.\<close>

definition acked :: "int \<Rightarrow> inflightBlock \<Rightarrow> 'w Sender \<Rightarrow> 'w Sender" where
  "acked idx b s = s\<lparr>s_inflight := (s_inflight s)(idx := None), s_retryQueued := s_retryQueued s - {idx},
     s_acknowledged := s_acknowledged s + int (length (ib_bytes b)),
     s_activeFileAcknowledged := s_activeFileAcknowledged s + int (length (ib_bytes b))\<rparr>"

definition pausing :: "bool \<Rightarrow> 'w Sender \<Rightarrow> 'w Sender" where
  "pausing b s = s\<lparr>s_paused := b, s_inflight := (\<lambda>i. map_option (\<lambda>x. if b then drop_timer x
     else armTimeoutLocked (s\<lparr>s_paused := b\<rparr>) (drop_timer x)) (s_inflight s i))\<rparr>"

fun data_frame :: "sevent \<Rightarrow> bool" where
  "data_frame (SentFrame c h p frame er) = (hi_Type h = FrameBlockData \<or> hi_Type h = FrameBlockHash)"
| "data_frame _ = False"

text \<open>The manifest and the completion message carry their own tags, and the transfer digest is the
  manifest's.\<close>

definition tagged :: "'w Sender \<Rightarrow> bool" where
  "tagged s \<longleftrightarrow> (\<forall>m. s_manifest s = Some m \<longrightarrow> manifest_ok m \<and> mf_Type m = FrameManifest \<and> s_transferDigest s = CompletionDigest (mf_Files m))
     \<and> (\<forall>c. s_complete s = Some c \<longrightarrow> cpl_Type c = FrameComplete)
     \<and> (\<forall>c \<in> set (s_resending s). cpl_Type c = FrameComplete)"

text \<open>What an invariant has to survive, one atomic change after the other; the machine around these
  changes is the same for all of them.\<close>

locale sender_invariant =
  fixes inv :: "'w Sender \<Rightarrow> bool"
  assumes tags: "inv s \<Longrightarrow> tagged s"
    and event: "inv s \<Longrightarrow> \<not> data_frame ev \<Longrightarrow> inv (s\<lparr>s_sendCounter := c, s_world := w, s_trace := s_trace s @ [ev]\<rparr>)"
    and received: "inv s \<Longrightarrow> inv (s\<lparr>s_recvCounter := c\<rparr>)"
    and failed: "inv s \<Longrightarrow> \<not> s_settled s \<Longrightarrow> inv (clearTimersLocked (s\<lparr>s_settled := True, s_err := Some e\<rparr>))"
    and finished: "inv s \<Longrightarrow> \<not> s_settled s \<Longrightarrow> s_completeSent s \<Longrightarrow> inv (clearTimersLocked (s\<lparr>s_settled := True\<rparr>))"
    and acknowledged: "inv s \<Longrightarrow> \<not> s_settled s \<Longrightarrow> s_inflight s idx = Some b \<Longrightarrow> inv (acked idx b s)"
    and queued: "inv s \<Longrightarrow> inv (queueRetry idx s)"
    and fired: "inv s \<Longrightarrow> inv (timer_fires idx s)"
    and paused: "inv s \<Longrightarrow> \<not> s_settled s \<Longrightarrow> s_paused s \<noteq> p \<Longrightarrow> inv (pausing p s)"
    and planned: "inv s \<Longrightarrow> \<not> s_settled s \<Longrightarrow> buildResumePlanLocked m s = Inr plan
      \<Longrightarrow> inv (s\<lparr>s_resumePlan := plan, s_appliedResume := Some m, s_resumeReceived := True\<rparr>)"
    and requeued: "inv s \<Longrightarrow> \<not> s_settled s \<Longrightarrow> inv (requeue_block s idx)"
    and resending: "inv s \<Longrightarrow> (\<And>c. c \<in> set cs \<Longrightarrow> cpl_Type c = FrameComplete) \<Longrightarrow> inv (s\<lparr>s_resending := cs\<rparr>)"
    and running: "inv s \<Longrightarrow> inv (run_step s)"
begin

lemma inv_notify: "inv s \<Longrightarrow> \<not> data_frame ev \<Longrightarrow> inv (s_notify f ev s)"
  by (cases f ev s rule: s_notify_cases) (simp_all add: event [of s ev, where c = "s_sendCounter s", simplified])

lemma inv_send: "inv s \<Longrightarrow> FrameType msg \<noteq> FrameBlockHash \<Longrightarrow> FrameType msg \<noteq> FrameBlockData
    \<Longrightarrow> Sender_sendControl msg s = (er, s') \<Longrightarrow> inv s'"
  unfolding Sender_sendControl_eq
  by (erule sendFrame_cases) (use event in \<open>auto simp: control_header_def\<close>)

lemma inv_send_snd: "inv s \<Longrightarrow> FrameType msg \<noteq> FrameBlockHash \<Longrightarrow> FrameType msg \<noteq> FrameBlockData
    \<Longrightarrow> inv (snd (Sender_sendControl msg s))"
  by (rule inv_send [OF _ _ _ prod.collapse [symmetric]])

lemma inv_fail: "inv s \<Longrightarrow> inv (Sender_fail e s)"
  by (simp add: Sender_fail_def failed)

lemma inv_fail_transfer: "inv s \<Longrightarrow> inv (fail_transfer reason message s)"
  by (simp add: fail_transfer_def inv_fail)

lemma inv_setPaused: "inv s \<Longrightarrow> inv (snd (Sender_setPaused b s))"
  using paused [of s b]
  by (auto simp: Sender_setPaused_def Let_def pausing_def intro!: inv_notify)

lemma inv_onAck: "inv s \<Longrightarrow> \<not> s_settled s \<Longrightarrow> inv (onAck a s)"
  using acknowledged [of s "ack_BlockIdx a"]
  by (auto simp: onAck_def Let_def acked_def intro!: inv_fail_transfer inv_notify split: option.split)

lemma inv_applyRemoteControl: "inv s \<Longrightarrow> inv (applyRemoteControl op s)"
  by (cases op) (auto simp: applyRemoteControl_def intro!: inv_setPaused inv_fail_transfer inv_notify)

lemma inv_onResumeState: "inv s \<Longrightarrow> \<not> s_settled s \<Longrightarrow> inv (onResumeState m s)"
  using planned [of s m] by (auto simp: onResumeState_def intro: inv_fail_transfer split: sum.split)

lemma inv_on_message: "inv s \<Longrightarrow> \<not> s_settled s \<Longrightarrow> inv (on_message msg s)"
  using finished [of s]
  by (cases msg) (auto simp: on_message_def Sender_settle_def intro: inv_onAck queued inv_onResumeState
      inv_applyRemoteControl inv_fail_transfer)

lemma inv_Handle: "inv s \<Longrightarrow> inv (Sender_Handle frame s)"
  by (auto simp: Sender_Handle_def Let_def intro!: inv_fail_transfer inv_on_message received split: sum.split)

lemma requeue_unsettled: "s_settled (requeue_block s idx) = s_settled s"
  by (simp add: requeue_block_def Let_def split: option.split)

lemma inv_requeue: "inv s \<Longrightarrow> \<not> s_settled s \<Longrightarrow> inv (foldl requeue_block s order)"
  by (induction order arbitrary: s) (simp_all add: requeued requeue_unsettled)

lemma inv_send_manifest: "inv s \<Longrightarrow> mf_Type m = FrameManifest \<Longrightarrow> inv (snd (Sender_sendControl (MManifest m) s))"
  by (rule inv_send_snd) (simp_all add: frame_types)

lemma inv_send_complete: "inv s \<Longrightarrow> cpl_Type c = FrameComplete \<Longrightarrow> inv (snd (Sender_sendControl (MComplete c) s))"
  by (rule inv_send_snd) (simp_all add: frame_types)

lemma inv_send_op: "inv s \<Longrightarrow> inv (snd (Sender_sendControl (NewControl op) s))"
  by (rule inv_send_snd) (simp_all add: frame_types NewControl_def)

lemma inv_TransportChanged: "inv s \<Longrightarrow> inv (Sender_TransportChanged order s)"
proof (cases "s_settled s")
  case False
  assume i: "inv s"
  with False have r: "inv (foldl requeue_block s order)" by (rule inv_requeue [rotated])
  with False i show ?thesis
    using tags [OF r] unfolding Sender_TransportChanged_def Let_def
    by (auto simp: tagged_def intro!: inv_send_manifest resending split: option.split)
qed (simp add: Sender_TransportChanged_def)

lemma inv_controls: "inv s \<Longrightarrow> inv (snd (Sender_Pause s))" "inv s \<Longrightarrow> inv (snd (Sender_Resume s))"
  "inv s \<Longrightarrow> inv (snd (Sender_Cancel reason s))" "inv s \<Longrightarrow> inv (Sender_cancelFromContext cause t s)"
  using inv_setPaused [of s True] inv_setPaused [of s False] inv_send_op [of s ControlCancel]
  by (auto simp: Sender_Pause_def Sender_Resume_def Sender_Cancel_def Sender_cancelFromContext_def cancelLocal_def
      intro!: inv_send_op inv_fail_transfer split: prod.split)

lemma inv_sender_step: "inv s \<Longrightarrow> inv (sender_step s ev)"
proof (cases ev)
  case SResendComplete
  assume "inv s"
  with tags [OF this] SResendComplete show ?thesis
    by (auto simp: resend_complete_def tagged_def intro!: inv_send_complete resending split: list.split)
next
  case SRetransmit
  assume "inv s"
  with tags [OF this] SRetransmit show ?thesis
    by (auto simp: retransmitComplete_def tagged_def intro!: inv_send_complete split: option.split)
qed (simp_all add: running inv_Handle fired inv_TransportChanged inv_controls done_deadline_def inv_fail_transfer)

end

sublocale sender_invariant \<subseteq> machine sender_step inv
  by unfold_locales (rule inv_sender_step)

end
