(* ===== verification/SenderInv.thy ===== *)
theory SenderInv
  imports SenderTrace
begin

text \<open>
  Invariants of the sender under every interleaving: the window and the retry counts stay bounded, a
  timer runs only while it may, \<^verbatim>\<open>Run\<close> returns only from a settled sender, and no block in flight is
  ever forgotten.
\<close>

section \<open>Bounds and outcomes\<close>

text \<open>Where \<^verbatim>\<open>Run\<close> has no block in flight.\<close>

fun between_files :: "pc \<Rightarrow> bool" where
  "between_files PStart = True"
| "between_files PManifest = True"
| "between_files PWaitResume = True"
| "between_files (PFile i) = True"
| "between_files PComplete = True"
| "between_files PSendComplete = True"
| "between_files PWaitDone = True"
| "between_files _ = False"

fun registering :: "pc \<Rightarrow> bool" where
  "registering (PRegister i p feed) = True"
| "registering _ = False"

definition block_bounds :: "'w Sender \<Rightarrow> inflightBlock \<Rightarrow> bool" where
  "block_bounds s b \<longleftrightarrow> 0 \<le> ib_retries b \<and> ib_retries b \<le> s_maxRetries s
     \<and> (ib_timer b = Armed \<longrightarrow> \<not> s_settled s \<and> \<not> s_paused s)"

definition sound :: "'w Sender \<Rightarrow> bool" where
  "sound s \<longleftrightarrow> tagged s
     \<and> 0 < s_window s \<and> 0 < s_maxRetries s \<and> 0 < s_blockSize s \<and> 0 < s_frameSize s
     \<and> finite (dom (s_inflight s)) \<and> int (card (dom (s_inflight s))) \<le> s_window s
     \<and> (registering (s_pc s) \<longrightarrow> int (card (dom (s_inflight s))) < s_window s)
     \<and> (\<forall>b \<in> ran (s_inflight s). block_bounds s b)
     \<and> (returned (s_pc s) \<longrightarrow> s_settled s)
     \<and> (\<forall>d. s_pc s = PReturned (Inr d) \<longrightarrow> s_err s = None \<and> d = s_transferDigest s)
     \<and> (s_settled s \<and> s_err s = None \<longrightarrow> s_completeSent s)
     \<and> (between_files (s_pc s) \<longrightarrow> s_inflight s = Map.empty)"

lemma sound_pc:
  assumes "sound s" and "\<not> registering pc'" and "\<not> returned pc'" and "between_files pc' \<longrightarrow> s_inflight s = Map.empty"
  shows "sound (s\<lparr>s_pc := pc'\<rparr>)"
  using assms by (cases pc') (auto simp: sound_def tagged_def block_bounds_def)

text \<open>The fields it does not mention.\<close>

lemma sound_update [simp]:
  "sound (s\<lparr>s_sendCounter := a1\<rparr>) = sound s"
  "sound (s\<lparr>s_world := a2\<rparr>) = sound s"
  "sound (s\<lparr>s_trace := a3\<rparr>) = sound s"
  "sound (s\<lparr>s_retryQueue := a4\<rparr>) = sound s"
  "sound (s\<lparr>s_retryQueued := a5\<rparr>) = sound s"
  "sound (s\<lparr>s_recvCounter := a6\<rparr>) = sound s"
  "sound (s\<lparr>s_acknowledged := a7\<rparr>) = sound s"
  "sound (s\<lparr>s_activeFileIdx := a8\<rparr>) = sound s"
  "sound (s\<lparr>s_activeFileAcknowledged := a9\<rparr>) = sound s"
  "sound (s\<lparr>s_resumePlan := a10\<rparr>) = sound s"
  "sound (s\<lparr>s_appliedResume := a11\<rparr>) = sound s"
  "sound (s\<lparr>s_resumeReceived := a12\<rparr>) = sound s"
  "sound (s\<lparr>s_entries := a13\<rparr>) = sound s"
  "sound (s\<lparr>s_haveBlocks := a14\<rparr>) = sound s"
  "sound (s\<lparr>s_manifestFingerprint := a15\<rparr>) = sound s"
  "sound (s\<lparr>s_manifestSent := a16\<rparr>) = sound s"
  by (simp_all add: sound_def tagged_def block_bounds_def)

lemma sound_sent: "sound s \<Longrightarrow> sendFrame h p s = (er, s') \<Longrightarrow> sound s'"
  by (erule sendFrame_cases) auto

lemma sound_control: "sound s \<Longrightarrow> Sender_sendControl msg s = (er, s') \<Longrightarrow> sound s'"
  unfolding Sender_sendControl_eq by (rule sound_sent)

lemma sound_control_snd: "sound s \<Longrightarrow> sound (snd (Sender_sendControl msg s))"
  by (rule sound_control [OF _ prod.collapse [symmetric]])

lemma sound_notify: "sound s \<Longrightarrow> sound (s_notify f ev s)"
  by (cases f ev s rule: s_notify_cases) simp_all

lemma ran_map_option: "ran (\<lambda>i. map_option f (m i)) = f ` ran m"
  by (auto simp: ran_def) 

lemma dom_map_option [simp]: "dom (\<lambda>i. map_option f (m i)) = dom m"
  by (auto simp: dom_def)

lemma stop_timer_simps [simp]: "ib_retries (stop_timer b) = ib_retries b" "ib_bytes (stop_timer b) = ib_bytes b"
  "ib_timer (stop_timer b) \<noteq> Armed"
  by (simp_all add: stop_timer_def split: timer.split)

lemma drop_timer_simps [simp]: "ib_retries (drop_timer b) = ib_retries b" "ib_bytes (drop_timer b) = ib_bytes b"
  "ib_timer (drop_timer b) = NoTimer"
  by (simp_all add: drop_timer_def)

lemma sound_settling:
  assumes "sound s" and "e = None \<longrightarrow> s_completeSent s" and "\<not> s_settled s"
  shows "sound (clearTimersLocked (s\<lparr>s_settled := True, s_err := e\<rparr>))"
  using assms by (auto simp: sound_def clearTimersLocked_def tagged_def ran_map_option block_bounds_def)

lemma sound_fail: "sound s \<Longrightarrow> sound (Sender_fail e s)"
  by (simp add: Sender_fail_def sound_settling)

lemma settled_fail [simp]: "s_settled (Sender_fail e s)"
  by (simp add: Sender_fail_def clearTimersLocked_def)

lemma sound_return: "sound s \<Longrightarrow> s_settled s \<Longrightarrow> sound (s\<lparr>s_pc := PReturned (Inl e)\<rparr>)"
  by (simp add: sound_def tagged_def block_bounds_def)

lemma sound_fail_return: "sound s \<Longrightarrow> sound (fail_return e s)"
  by (simp add: fail_return_def sound_return sound_fail)

text \<open>Changing one block that is already in flight.\<close>

lemma sound_block:
  assumes "sound s" and "s_inflight s idx = Some b" and "block_bounds s b'"
  shows "sound (s\<lparr>s_inflight := (s_inflight s)(idx \<mapsto> b')\<rparr>)"
proof -
  have d: "dom ((s_inflight s)(idx \<mapsto> b')) = dom (s_inflight s)" using assms(2) by auto
  have "ran ((s_inflight s)(idx \<mapsto> b')) \<subseteq> insert b' (ran (s_inflight s))"
    by (auto simp: ran_def)
  then have "\<forall>x \<in> ran ((s_inflight s)(idx \<mapsto> b')). block_bounds s x"
    and "between_files (s_pc s) \<longrightarrow> s_inflight s = Map.empty"
    using assms by (auto simp: sound_def)
  moreover have "\<not> between_files (s_pc s)" using assms(1,2) by (auto simp: sound_def)
  ultimately show ?thesis
    using assms(1) d by (simp add: sound_def tagged_def block_bounds_def)
qed

lemma sound_bounds: "sound s \<Longrightarrow> s_inflight s idx = Some b \<Longrightarrow> block_bounds s b"
  by (auto simp: sound_def ran_def)

lemma sound_queueRetry: "sound s \<Longrightarrow> sound (queueRetry idx s)"
proof (cases "s_inflight s idx")
  case (Some b)
  assume s: "sound s"
  have "block_bounds s (drop_timer b)" using sound_bounds [OF s Some] by (simp add: block_bounds_def)
  from sound_block [OF s Some this] s Some show ?thesis by (simp add: queueRetry_def)
qed (simp add: queueRetry_def)

lemma sound_timer: "sound s \<Longrightarrow> sound (timer_fires idx s)"
proof (cases "s_inflight s idx")
  case (Some b)
  assume s: "sound s"
  have "block_bounds s (stop_timer b)" using sound_bounds [OF s Some] by (simp add: block_bounds_def)
  from sound_queueRetry [OF sound_block [OF s Some this]] Some show ?thesis by (simp add: timer_fires_def)
qed (simp add: timer_fires_def sound_queueRetry)

lemma sound_requeue: "sound s \<Longrightarrow> sound (requeue_block s idx)"
proof (cases "s_inflight s idx")
  case (Some b)
  assume s: "sound s"
  have "block_bounds s ((drop_timer b)\<lparr>ib_retries := 0\<rparr>)"
    using s by (simp add: block_bounds_def sound_def)
  from sound_block [OF s Some this] Some show ?thesis
    by (simp add: requeue_block_def Let_def)
qed (simp add: requeue_block_def)

lemma sound_acked: "sound s \<Longrightarrow> sound (acked idx b s)"
proof -
  assume s: "sound s"
  have "card (dom (s_inflight s) - {idx}) \<le> card (dom (s_inflight s))"
    using s by (intro card_mono) (auto simp: sound_def)
  moreover have "ran ((s_inflight s)(idx := None)) \<subseteq> ran (s_inflight s)" by (auto simp: ran_def split: if_splits)
  ultimately show ?thesis using s unfolding sound_def acked_def tagged_def block_bounds_def
    by (auto simp: dest: subsetD)
qed

lemma sound_pausing: "sound s \<Longrightarrow> \<not> s_settled s \<Longrightarrow> sound (pausing p s)"
  by (auto simp: sound_def pausing_def tagged_def ran_map_option block_bounds_def armTimeoutLocked_def)

lemma sound_register:
  assumes "sound s" and "registering (s_pc s)" and "\<not> s_settled s" and "0 \<le> ib_retries b" "ib_retries b \<le> s_maxRetries s"
    "ib_timer b = NoTimer" and "\<not> registering pc'" "\<not> returned pc'" "\<not> between_files pc'"
  shows "sound (s\<lparr>s_inflight := (s_inflight s)(idx \<mapsto> b), s_pc := pc'\<rparr>)"
proof -
  have "card (insert idx (dom (s_inflight s))) \<le> Suc (card (dom (s_inflight s)))"
    by (rule card_insert_le_m1) simp_all
  then have "int (card (insert idx (dom (s_inflight s)))) \<le> s_window s"
    using assms(1,2) by (auto simp: sound_def)
  moreover have "ran ((s_inflight s)(idx \<mapsto> b)) \<subseteq> insert b (ran (s_inflight s))" by (auto simp: ran_def)
  then have "\<forall>x \<in> ran ((s_inflight s)(idx \<mapsto> b)). block_bounds s x"
    using assms by (auto simp: sound_def block_bounds_def)
  ultimately show ?thesis
    using assms by (cases pc') (auto simp: sound_def tagged_def block_bounds_def)
qed

lemma sound_armTimeout: "sound s \<Longrightarrow> sound (armTimeout idx s)"
proof (cases "s_inflight s idx")
  case (Some b)
  assume s: "sound s"
  have "block_bounds s (armTimeoutLocked s b)"
    using sound_bounds [OF s Some] by (simp add: block_bounds_def armTimeoutLocked_def)
  from sound_block [OF s Some this] Some show ?thesis by (simp add: armTimeout_def)
qed (simp add: armTimeout_def)

lemma sound_stream_ended: "sound s \<Longrightarrow> sound (stream_ended i er s)"
  by (auto simp: stream_ended_def intro!: sound_pc sound_fail_return split: option.split)

lemma sound_emit_failed: "sound s \<Longrightarrow> sound (emit_failed i p e s)"
  by (simp add: emit_failed_def sound_stream_ended)

lemma sound_cont_failed: "sound s \<Longrightarrow> (k = KDrain \<longrightarrow> s_settled s) \<Longrightarrow> sound (cont_failed i k e s)"
  by (cases k) (auto simp: cont_failed_def intro!: sound_emit_failed sound_return)

lemma sound_block_failed: "sound s \<Longrightarrow> sound (block_failed i k e s)"
  by (cases k) (auto simp: block_failed_def intro!: sound_cont_failed sound_fail)

lemma sound_resume_cont: "sound s \<Longrightarrow> sound (resume_cont i k s)"
  by (cases k) (auto simp: resume_cont_def intro!: sound_pc)

lemma pop_retry_keeps:
  assumes "pop_retry q s = (r, s')"
  obtains q' qs where "s' = s\<lparr>s_retryQueue := q', s_retryQueued := qs\<rparr>"
  using assms
proof (induction q s arbitrary: thesis rule: pop_retry.induct)
  case (1 s)
  from 1(2) show ?case by (intro 1(1) [where q' = "[]" and qs = "s_retryQueued s"]) auto
next
  case (2 idx rest s)
  let ?s = "s\<lparr>s_retryQueue := rest, s_retryQueued := s_retryQueued s - {idx}\<rparr>"
  show ?case
  proof (cases "s_inflight s idx = None")
    case True
    with 2(3) have "pop_retry rest ?s = (r, s')" by (simp add: Let_def)
    with True obtain q' qs where "s' = ?s\<lparr>s_retryQueue := q', s_retryQueued := qs\<rparr>"
      using 2(1) [of ?s] by auto
    then show ?thesis by (intro 2(2) [where q' = q' and qs = qs]) simp
  next
    case False
    with 2(3) show ?thesis by (intro 2(2) [where q' = rest and qs = "s_retryQueued s - {idx}"]) (auto simp: Let_def)
  qed
qed

text \<open>What \<^verbatim>\<open>nextRetryOrWait\<close> tells its caller.\<close>

lemma nextRetry_cases:
  assumes "nextRetryOrWait c s = (n, s')"
  obtains (stop) "n = Stop (settled_error s)" and "s' = s" and "s_settled s"
  | (paused) "n = Wait" and "s' = s" and "\<not> s_settled s" and "s_paused s"
  | (retry) idx q qs where "n = Retry idx" and "s' = s\<lparr>s_retryQueue := q, s_retryQueued := qs\<rparr>"
      and "pop_retry (s_retryQueue s) s = (Some idx, s')" and "\<not> s_settled s" and "\<not> s_paused s"
  | (proceed) q qs where "n = Proceed" and "s' = s\<lparr>s_retryQueue := q, s_retryQueued := qs\<rparr>"
      and "pop_retry (s_retryQueue s) s = (None, s')" and "\<not> s_settled s" and "\<not> s_paused s"
      and "if c then int (card (dom (s_inflight s))) < s_window s else s_inflight s = Map.empty"
  | (full) q qs where "n = Wait" and "s' = s\<lparr>s_retryQueue := q, s_retryQueued := qs\<rparr>"
      and "pop_retry (s_retryQueue s) s = (None, s')" and "\<not> s_settled s" and "\<not> s_paused s"
      and "if c then s_window s \<le> int (card (dom (s_inflight s))) else s_inflight s \<noteq> Map.empty"
proof -
  consider "s_settled s" | "\<not> s_settled s" "s_paused s" | "\<not> s_settled s" "\<not> s_paused s" by blast
  then show ?thesis
  proof cases
    case 1
    with assms show ?thesis by (intro stop) (auto simp: nextRetryOrWait_def)
  next
    case 2
    with assms show ?thesis by (intro paused) (auto simp: nextRetryOrWait_def)
  next
    case 3
    obtain r t where p: "pop_retry (s_retryQueue s) s = (r, t)" by fastforce
    then obtain q qs where t: "t = s\<lparr>s_retryQueue := q, s_retryQueued := qs\<rparr>" by (rule pop_retry_keeps)
    show ?thesis
    proof (cases r)
      case (Some idx)
      with assms 3 p t show ?thesis by (intro retry [where idx = idx and q = q and qs = qs]) (auto simp: nextRetryOrWait_def)
    next
      case None
      with assms 3 p t show ?thesis
        by (auto simp: nextRetryOrWait_def split: if_splits intro: proceed [where q = q and qs = qs] full [where q = q and qs = qs])
    qed
  qed
qed

lemma sound_capacity: "sound s \<Longrightarrow> sound (run_capacity i p feed s)"
proof (cases "nextRetryOrWait True s")
  case (Pair n s')
  assume s: "sound s"
  from Pair show ?thesis
  proof (cases rule: nextRetry_cases)
    case (proceed q qs)
    with s Pair show ?thesis by (simp add: run_capacity_def sound_def tagged_def block_bounds_def)
  qed (use s Pair in \<open>auto simp: run_capacity_def intro!: sound_emit_failed sound_pc\<close>)
qed

lemma sound_drain: "sound s \<Longrightarrow> sound (run_drain i s)"
proof (cases "nextRetryOrWait False s")
  case (Pair n s')
  assume s: "sound s"
  from Pair show ?thesis
  proof (cases rule: nextRetry_cases)
    case (proceed q qs)
    with s Pair show ?thesis
      by (cases "so_OnFileProgress (s_o s)")
        (auto simp: run_drain_def s_notify_def s_log_def intro!: sound_pc)
  qed (use s Pair in \<open>auto simp: run_drain_def intro!: sound_return sound_pc\<close>)
qed

lemma sound_resend: "sound s \<Longrightarrow> sound (run_resend i k idx s)"
proof (cases "s_inflight s idx")
  case (Some b)
  assume s: "sound s"
  show ?thesis
  proof (cases "s_maxRetries s \<le> ib_retries b")
    case True
    with s Some show ?thesis
      by (auto simp: run_resend_def Let_def intro!: sound_cont_failed sound_fail sound_control_snd)
  next
    case False
    have "block_bounds s (b\<lparr>ib_retries := ib_retries b + 1\<rparr>)"
      using sound_bounds [OF s Some] False by (simp add: block_bounds_def)
    from sound_pc [OF sound_block [OF s Some this], of "PSend i k idx (ib_bytes b) 0"] False Some
    show ?thesis by (simp add: run_resend_def)
  qed
qed (simp add: run_resend_def sound_resume_cont)

lemma sound_send:
  assumes "sound s" shows "sound (run_send i k idx block off s)"
proof (cases "off < int (length block)")
  case True
  obtain er s1 where n: "sendFrame (data_header (s_activeFileIdx s) idx off (s_frameSize s) block)
      (frame_payload off (s_frameSize s) block) s = (er, s1)" by fastforce
  with True sound_sent [OF assms n] show ?thesis
    by (cases er) (simp_all add: run_send_def sound_block_failed sound_pc)
next
  case False
  obtain er s1 where n: "Sender_sendControl (NewBlockHash (s_activeFileIdx s) idx (hex_encode (sha256 block))) s = (er, s1)"
    by fastforce
  with False sound_control [OF assms n] show ?thesis
    by (cases er) (simp_all add: run_send_def sound_block_failed sound_pc)
qed

lemma sound_start: 
  assumes "sound s" and "s_pc s = PStart" shows "sound (run_start s)"
proof (cases "build_manifest s")
  case (Inr a)
  obtain entries manifest where a: "a = (entries, manifest)" by fastforce
  have m: "manifest_ok manifest"
    using Inr a by (auto simp: build_manifest_def dest: ValidateManifest_Inr(1) split: if_splits sum.splits prod.splits)
  then have mt: "mf_Type manifest = FrameManifest" by (simp add: manifest_ok_def)
  obtain er s1 where n: "announce_manifest manifest s = (er, s1)" by fastforce
  then have s1: "sound s1" and pc: "s_pc s1 = PStart"
    using assms by (auto simp: announce_manifest_def s_call_def s_log_def split: option.splits prod.splits)
  have "sound (register_manifest entries manifest fp s1)" for fp
    using s1 pc m mt by (auto simp: sound_def register_manifest_def tagged_def block_bounds_def)
  with Inr a n s1 show ?thesis
    by (auto simp: run_start_def intro: sound_fail_return split: option.split sum.split)
qed (simp add: run_start_def sound_fail_return assms)

lemma sound_manifest:
  assumes "sound s" and "s_pc s = PManifest" shows "sound (run_manifest s)"
proof (cases "s_manifest s")
  case (Some m)
  have "s_inflight s = Map.empty" using assms by (simp add: sound_def)
  moreover obtain er s1 where n: "Sender_sendControl (MManifest m) s = (er, s1)" by fastforce
  moreover from n have "s_inflight s1 = s_inflight s"
    unfolding Sender_sendControl_eq by (cases rule: sendFrame_cases) simp_all
  ultimately show ?thesis
    using Some sound_control [OF assms(1) n]
    by (auto simp: run_manifest_def intro!: sound_fail_return sound_pc split: option.split)
qed (simp add: run_manifest_def assms)

lemma sound_waitResume:
  assumes "sound s" and "s_pc s = PWaitResume" shows "sound (run_waitResume s)"
proof -
  have e: "s_inflight s = Map.empty" using assms by (simp add: sound_def)
  then have "s_inflight (s_notify f ev s) = Map.empty" for f ev
    by (cases f ev s rule: s_notify_cases) simp_all
  with e assms(1) show ?thesis by (auto simp: run_waitResume_def intro!: sound_return sound_pc sound_notify)
qed

lemma sound_ending:
  assumes "sound s"
  shows "s_pc s = PComplete \<Longrightarrow> sound (run_complete s)"
    and "s_pc s = PSendComplete \<Longrightarrow> sound (run_sendComplete s)"
    and "s_pc s = PWaitDone \<Longrightarrow> sound (run_waitDone s)"
    and "s_pc s = PFile i \<Longrightarrow> sound (run_file i s)"
proof -
  show "s_pc s = PComplete \<Longrightarrow> sound (run_complete s)"
    using assms by (auto simp: run_complete_def sound_def tagged_def block_bounds_def NewComplete_def)
  show "s_pc s = PWaitDone \<Longrightarrow> sound (run_waitDone s)"
    using assms by (auto simp: run_waitDone_def sound_def tagged_def block_bounds_def split: option.split)
  show "s_pc s = PFile i \<Longrightarrow> sound (run_file i s)"
    using assms by (auto simp: run_file_def begin_send_file_def Let_def sound_def intro!: sound_pc split: option.split)
      (auto simp: tagged_def block_bounds_def)
  assume pc: "s_pc s = PSendComplete"
  have e: "s_inflight s = Map.empty" using assms pc by (simp add: sound_def)
  show "sound (run_sendComplete s)"
  proof (cases "s_complete s")
    case (Some c)
    obtain er s1 where n: "Sender_sendControl (MComplete c) s = (er, s1)" by fastforce
    from n e have "s_inflight s1 = Map.empty"
      unfolding Sender_sendControl_eq by (cases rule: sendFrame_cases) simp_all
    with n Some sound_control [OF assms n] show ?thesis
      by (auto simp: run_sendComplete_def intro!: sound_fail_return sound_pc split: option.split)
  qed (simp add: run_sendComplete_def assms)
qed

lemma sound_pieces: "sound s \<Longrightarrow> sound (run_pieces i feed s)"
  by (auto simp: run_pieces_def intro!: sound_stream_ended sound_pc split: prod.split list.split)

lemma sound_run_register:
  assumes "sound s" and "s_pc s = PRegister i p feed" shows "sound (run_register i p feed s)"
  using assms sound_register [OF assms(1)]
  by (auto simp: run_register_def Let_def sound_def [of s] intro!: sound_emit_failed)

lemma sound_run: "sound s \<Longrightarrow> sound (run_step s)"
  unfolding run_step_def
  by (cases "s_pc s") (simp_all add: sound_start sound_manifest sound_waitResume sound_ending sound_pieces
      sound_capacity sound_run_register sound_resend sound_send run_arm_def sound_resume_cont sound_armTimeout
      sound_drain)

interpretation sound_sender: sender_invariant sound
proof unfold_locales
  show "sound s \<Longrightarrow> \<not> s_settled s \<Longrightarrow> s_completeSent s \<Longrightarrow> sound (clearTimersLocked (s\<lparr>s_settled := True\<rparr>))" for s :: "'a Sender"
    using sound_settling [of s None] by (auto simp: sound_def clearTimersLocked_def tagged_def ran_map_option block_bounds_def)
  show "sound s \<Longrightarrow> (\<And>c. c \<in> set cs \<Longrightarrow> cpl_Type c = FrameComplete) \<Longrightarrow> sound (s\<lparr>s_resending := cs\<rparr>)" for s :: "'a Sender" and cs
    by (simp add: sound_def tagged_def block_bounds_def)
qed (simp_all add: sound_settling sound_acked sound_queueRetry sound_timer sound_pausing sound_requeue sound_run,
    simp add: sound_def)

lemma sound_NewSender: "sound (NewSender opts w)"
  by (simp add: sound_def NewSender_def Let_def or_default_def DefaultBlockBytes_def DefaultFrameBytes_def
      DefaultInflightBlocks_def DefaultMaxBlockRetries_def tagged_def)

lemma sound_run_all: "sound (sender_run opts w evs)"
  unfolding sender_run_def by (rule sound_sender.inv_run) (rule sound_NewSender)

end
