(* ===== verification/SenderLive.thy ===== *)
theory SenderLive
  imports SenderInv
begin

text \<open>
  No block in flight is forgotten: while the sender is neither paused nor settled, each one has a
  running timer, is queued for a retry, or is in the hands of \<^verbatim>\<open>Run\<close>.  Hence \<^verbatim>\<open>Run\<close> never waits
  for nothing.
\<close>

section \<open>Feeds\<close>

lemma run_emit_mark: "run_emit (mark_piece b) ps qs = (None, qs @ map (Pair b) ps)"
  by (induction ps arbitrary: qs) (simp_all add: mark_piece_def)

text \<open>What the second pass emits: the whole blocks of the stream, and after a successful stream its
  partial last block.\<close>

lemma block_feed_spec:
  assumes "0 < n" and "full_frames n n 0 (concat chunks) = (ps, pos, rest)"
  shows "block_feed n (chunks, outcome) = Some (case outcome of
     None \<Rightarrow> (map (Pair True) ps @ map (Pair False) (last_piece n pos rest), None)
   | Some e \<Rightarrow> (map (Pair True) ps, Some (wrap_source_error e)))"
proof -
  let ?c = "\<lparr>ck_pos = 0, ck_buf = [], ck_start = 0\<rparr>"
  have f0: "full_frames n n 0 [] = ([], 0, [])"
    using assms(1) by (simp add: full_frames.simps frame_room_def)
  have h: "holds_at ?c 0 []" by (simp add: holds_at_def)
  have "full_frames n n 0 ([] @ concat chunks) = (ps, pos, rest)" using assms(2) by simp
  from push_chunks_spec [OF assms(1,1) h this f0, of outcome "mark_piece True" "[]"]
  obtain c' where push: "push_chunks chunks outcome (on_chunk n n (mark_piece True)) (?c, [])
      = Some (outcome, c', map (Pair True) ps)" and c': "outcome = None \<longrightarrow> holds_at c' pos rest"
    by (auto simp: run_emit_mark)
  show ?thesis
  proof (cases outcome)
    case None
    have "length rest < frame_room n n pos" by (rule full_frames_rest [OF assms(1,1,2)])
    with flush_spec [of c' pos rest n n "mark_piece False" "map (Pair True) ps"] c' None push show ?thesis
      by (simp add: block_feed_def run_emit_mark)
  qed (use push in \<open>simp add: block_feed_def\<close>)
qed

lemma block_feed_total: "0 < n \<Longrightarrow> block_feed n source \<noteq> None"
proof -
  assume "0 < n"
  obtain ps pos rest where "full_frames n n 0 (concat (fst source)) = (ps, pos, rest)"
    using prod_cases3 by blast
  from block_feed_spec [OF \<open>0 < n\<close> this, of "snd source"] show ?thesis by simp
qed

section \<open>Blocks in flight are watched\<close>

fun in_hand :: "pc \<Rightarrow> int \<Rightarrow> bool" where
  "in_hand (PResend i k j) idx = (j = idx)"
| "in_hand (PSend i k j block off) idx = (j = idx)"
| "in_hand (PArm i k j) idx = (j = idx)"
| "in_hand _ idx = False"

text \<open>The sentinel \<^verbatim>\<open>errSenderSettled\<close> is not exported: no transport returns it.\<close>

definition foreign_errors :: "'w SenderOptions \<Rightarrow> bool" where
  "foreign_errors opts \<longleftrightarrow> (\<forall>frame w. fst (so_Send opts frame w) \<noteq> Some SenderSettled)"

definition prepared :: "'w Sender \<Rightarrow> bool" where
  "prepared s \<longleftrightarrow> (s_pc s = PManifest \<longrightarrow> s_manifest s \<noteq> None) \<and> (s_pc s = PSendComplete \<longrightarrow> s_complete s \<noteq> None)"

definition cared_for :: "'w Sender \<Rightarrow> int \<Rightarrow> bool" where
  "cared_for s idx \<longleftrightarrow> idx \<in> set (s_retryQueue s) \<or> in_hand (s_pc s) idx
     \<or> (\<exists>b. s_inflight s idx = Some b \<and> ib_timer b = Armed)"

definition watched :: "'w Sender \<Rightarrow> bool" where
  "watched s \<longleftrightarrow> sound s \<and> foreign_errors (s_o s) \<and> prepared s \<and> s_retryQueued s \<subseteq> set (s_retryQueue s)
     \<and> (\<not> s_settled s \<and> \<not> s_paused s \<and> 0 \<le> s_ackTimeout s \<longrightarrow> (\<forall>idx \<in> dom (s_inflight s). cared_for s idx))"

lemma watched_sound: "watched s \<Longrightarrow> sound s"
  by (simp add: watched_def)

lemma watched_settled:
  assumes "sound s" and "foreign_errors (s_o s)" and "prepared s" and "s_retryQueued s \<subseteq> set (s_retryQueue s)" and "s_settled s"
  shows "watched s"
  using assms by (simp add: watched_def)

text \<open>A step that leaves the blocks and the queue alone may move \<^verbatim>\<open>Run\<close> anywhere, as long as the
  block it had in hand stays cared for.\<close>

lemma watched_move:
  assumes "watched s" and "sound (s\<lparr>s_pc := pc'\<rparr>)" and "prepared (s\<lparr>s_pc := pc'\<rparr>)"
    and "\<And>idx. in_hand (s_pc s) idx \<Longrightarrow> idx \<in> dom (s_inflight s) \<Longrightarrow> cared_for (s\<lparr>s_pc := pc'\<rparr>) idx"
  shows "watched (s\<lparr>s_pc := pc'\<rparr>)"
  using assms unfolding watched_def cared_for_def by auto

lemma watched_update [simp]:
  "watched (s\<lparr>s_sendCounter := a1\<rparr>) = watched s"
  "watched (s\<lparr>s_world := a2\<rparr>) = watched s"
  "watched (s\<lparr>s_trace := a3\<rparr>) = watched s"
  "watched (s\<lparr>s_recvCounter := a4\<rparr>) = watched s"
  "watched (s\<lparr>s_acknowledged := a5\<rparr>) = watched s"
  "watched (s\<lparr>s_activeFileIdx := a6\<rparr>) = watched s"
  "watched (s\<lparr>s_activeFileAcknowledged := a7\<rparr>) = watched s"
  "watched (s\<lparr>s_resumePlan := a8\<rparr>) = watched s"
  "watched (s\<lparr>s_appliedResume := a9\<rparr>) = watched s"
  "watched (s\<lparr>s_resumeReceived := a10\<rparr>) = watched s"
  "watched (s\<lparr>s_entries := a11\<rparr>) = watched s"
  "watched (s\<lparr>s_haveBlocks := a12\<rparr>) = watched s"
  by (simp_all add: watched_def prepared_def cared_for_def)

lemma watched_clear: "watched s \<Longrightarrow> sound (clearTimersLocked (s\<lparr>s_settled := True, s_err := e\<rparr>))
    \<Longrightarrow> watched (clearTimersLocked (s\<lparr>s_settled := True, s_err := e\<rparr>))"
  by (simp add: watched_def clearTimersLocked_def prepared_def)

lemma watched_fail: "watched s \<Longrightarrow> watched (Sender_fail e s)"
  using watched_clear [of s "Some e"] sound_settling [OF watched_sound, of s "Some e"] by (simp add: Sender_fail_def)

lemma watched_return: "watched s \<Longrightarrow> s_settled s \<Longrightarrow> watched (s\<lparr>s_pc := PReturned (Inl e)\<rparr>)"
  by (rule watched_settled) (simp_all add: watched_def sound_return prepared_def)

lemma watched_fail_return: "watched s \<Longrightarrow> watched (fail_return e s)"
  by (simp add: fail_return_def watched_return watched_fail)

lemma watched_queueRetry:
  assumes "watched s" shows "watched (queueRetry idx s)"
proof -
  have "sound (queueRetry idx s)" using assms by (simp add: sound_queueRetry watched_def)
  with assms show ?thesis
    by (auto simp: queueRetry_def watched_def prepared_def cared_for_def split: option.split)
qed

lemma watched_timer:
  assumes "watched s" shows "watched (timer_fires idx s)"
proof -
  have "sound (timer_fires idx s)" using assms by (simp add: sound_timer watched_def)
  with assms show ?thesis
    by (auto simp: timer_fires_def queueRetry_def watched_def prepared_def cared_for_def split: option.split)
qed

lemma watched_requeue:
  assumes "watched s" shows "watched (requeue_block s idx)"
proof -
  have "sound (requeue_block s idx)" using assms by (simp add: sound_requeue watched_def)
  with assms show ?thesis
    by (auto simp: requeue_block_def Let_def watched_def prepared_def cared_for_def split: option.split)
qed

lemma watched_acked:
  assumes "watched s" shows "watched (acked idx b s)"
proof -
  have "sound (acked idx b s)" using assms by (simp add: sound_acked watched_def)
  with assms show ?thesis by (auto simp: acked_def watched_def prepared_def cared_for_def)
qed

lemma watched_pausing:
  assumes "watched s" and "\<not> s_settled s" shows "watched (pausing p s)"
proof -
  have "sound (pausing p s)" using assms by (simp add: sound_pausing watched_def)
  with assms show ?thesis
    by (auto simp: pausing_def watched_def prepared_def cared_for_def armTimeoutLocked_def)
qed

section \<open>The steps of Run\<close>

lemma sent_watched:
  assumes "watched s" and "sendFrame h p s = (er, s')"
  shows "watched s'" and "s_pc s' = s_pc s" and "er \<noteq> Some SenderSettled" and "s_inflight s' = s_inflight s"
    and "s_settled s' = s_settled s" and "s_manifest s' = s_manifest s" and "s_complete s' = s_complete s"
proof -
  have "fst (so_Send (s_o s) frame w) \<noteq> Some SenderSettled" for frame w
    using assms(1) by (simp add: watched_def foreign_errors_def)
  then have "so_Send (s_o s) frame w \<noteq> (Some SenderSettled, w')" for frame w w' by (metis fst_conv)
  moreover have "Seal dir c h p \<noteq> Inl SenderSettled" for dir c
    by (auto simp: Seal_def gcmFor_def Let_def split: if_splits sum.splits)
  ultimately show "er \<noteq> Some SenderSettled"
    using assms(2) by (auto simp: sendFrame_def s_call_def split: sum.splits prod.splits)
qed (use assms in \<open>auto elim!: sendFrame_cases\<close>)

lemmas control_watched = sent_watched [where h = "control_header (FrameType msg)"
    and p = "bytes_of_string (json_print (control_json msg))" for msg, folded Sender_sendControl_eq]

lemma watched_stream_ended:
  assumes "watched s" and "\<And>idx. in_hand (s_pc s) idx \<Longrightarrow> s_settled s \<or> (\<exists>e. er = Some e \<and> e \<noteq> SenderSettled)"
  shows "watched (stream_ended i er s)"
proof -
  have "watched (s\<lparr>s_pc := PDrain i\<rparr>)" if "er = None \<or> er = Some SenderSettled"
    using that assms unfolding watched_def cared_for_def prepared_def by (auto intro: sound_pc)
  with assms(1) show ?thesis by (auto simp: stream_ended_def watched_fail_return split: option.split)
qed

lemma wrap_not_settled: "wrap_source_error e = SenderSettled \<longleftrightarrow> e = SenderSettled"
  by (cases e) (simp_all add: wrap_source_error_def)

lemma watched_emit_failed:
  assumes "watched s" and "\<And>idx. in_hand (s_pc s) idx \<Longrightarrow> s_settled s \<or> e \<noteq> SenderSettled"
  shows "watched (emit_failed i p e s)"
  unfolding emit_failed_def
  by (rule watched_stream_ended [OF assms(1)]) (use assms(2) in \<open>auto simp: wrap_not_settled\<close>)

lemma watched_cont_failed:
  assumes "watched s" and "k = KDrain \<longrightarrow> s_settled s" and "s_settled s \<or> e \<noteq> SenderSettled"
  shows "watched (cont_failed i k e s)"
  using assms by (cases k) (auto simp: cont_failed_def intro!: watched_emit_failed watched_return)

lemma watched_block_failed:
  assumes "watched s" and "e \<noteq> SenderSettled" shows "watched (block_failed i k e s)"
  using assms by (cases k) (auto simp: block_failed_def intro!: watched_cont_failed watched_fail)

lemma watched_resume_cont:
  assumes "watched s" and "\<And>idx. in_hand (s_pc s) idx \<Longrightarrow> idx \<in> dom (s_inflight s) \<Longrightarrow>
      s_settled s \<or> s_paused s \<or> s_ackTimeout s < 0 \<or> idx \<in> set (s_retryQueue s)
      \<or> (\<exists>b. s_inflight s idx = Some b \<and> ib_timer b = Armed)"
  shows "watched (resume_cont i k s)"
proof -
  have "sound (resume_cont i k s)" using assms(1) by (simp add: sound_resume_cont watched_def)
  moreover have "prepared (resume_cont i k s)" by (cases k) (simp_all add: prepared_def resume_cont_def)
  ultimately show ?thesis
    using assms unfolding watched_def cared_for_def
    by (auto simp: resume_cont_def) (metis domI option.inject)
qed

lemma pop_retry_queue:
  assumes "pop_retry q s = (r, s')" and "s_retryQueued s \<subseteq> set q"
  shows "s_retryQueued s' \<subseteq> set (s_retryQueue s')"
    and "idx \<in> set q \<Longrightarrow> s_inflight s idx \<noteq> None \<Longrightarrow> r = Some idx \<or> idx \<in> set (s_retryQueue s')"
    and "r = None \<Longrightarrow> s_retryQueue s' = []"
proof -
  have "s_retryQueued s' \<subseteq> set (s_retryQueue s')
    \<and> (idx \<in> set q \<and> s_inflight s idx \<noteq> None \<longrightarrow> r = Some idx \<or> idx \<in> set (s_retryQueue s'))
    \<and> (r = None \<longrightarrow> s_retryQueue s' = [])"
    using assms by (induction q s rule: pop_retry.induct) (auto simp: Let_def split: if_splits)
  then show "s_retryQueued s' \<subseteq> set (s_retryQueue s')"
    and "idx \<in> set q \<Longrightarrow> s_inflight s idx \<noteq> None \<Longrightarrow> r = Some idx \<or> idx \<in> set (s_retryQueue s')"
    and "r = None \<Longrightarrow> s_retryQueue s' = []" by blast+
qed

text \<open>After the queue was popped, the popped block has to be taken in hand.\<close>

lemma watched_popped:
  assumes "watched s" and "pop_retry (s_retryQueue s) s = (r, s')" and "\<And>idx. \<not> in_hand (s_pc s) idx"
    and "sound (s'\<lparr>s_pc := pc'\<rparr>)" and "prepared (s'\<lparr>s_pc := pc'\<rparr>)" and "\<And>idx. r = Some idx \<Longrightarrow> in_hand pc' idx"
  shows "watched (s'\<lparr>s_pc := pc'\<rparr>)"
proof -
  have q: "s_retryQueued s \<subseteq> set (s_retryQueue s)" using assms(1) by (simp add: watched_def)
  obtain q' qs where s': "s' = s\<lparr>s_retryQueue := q', s_retryQueued := qs\<rparr>" using assms(2) by (rule pop_retry_keeps)
  have "cared_for (s'\<lparr>s_pc := pc'\<rparr>) idx"
    if "idx \<in> dom (s_inflight s)" "\<not> s_settled s" "\<not> s_paused s" "0 \<le> s_ackTimeout s" for idx
  proof -
    from that assms(1,3) have "idx \<in> set (s_retryQueue s) \<or> (\<exists>b. s_inflight s idx = Some b \<and> ib_timer b = Armed)"
      by (auto simp: watched_def cared_for_def)
    then show ?thesis
      using pop_retry_queue(2) [OF assms(2) q, of idx] that(1) assms(6) by (auto simp: cared_for_def s')
  qed
  with pop_retry_queue(1) [OF assms(2) q] assms(1,4,5) show ?thesis by (auto simp: watched_def s')
qed

lemma watched_waiting:
  assumes "watched s" and "pop_retry (s_retryQueue s) s = (None, s')" and "\<And>idx. \<not> in_hand (s_pc s) idx"
  shows "watched s'"
proof -
  obtain q' qs where s': "s' = s\<lparr>s_retryQueue := q', s_retryQueued := qs\<rparr>" using assms(2) by (rule pop_retry_keeps)
  have "watched (s'\<lparr>s_pc := s_pc s\<rparr>)"
    by (rule watched_popped [OF assms]) (use assms(1) in \<open>auto simp: s' watched_def prepared_def\<close>)
  then show ?thesis by (simp add: s')
qed

lemma watched_capacity:
  assumes "watched s" and "s_pc s = PCapacity i p feed" shows "watched (run_capacity i p feed s)"
proof (cases "nextRetryOrWait True s")
  case (Pair n s')
  have snd': "sound (run_capacity i p feed s)" using assms(1) by (simp add: sound_capacity watched_def)
  from Pair show ?thesis
  proof (cases rule: nextRetry_cases)
    case stop
    with Pair assms show ?thesis by (auto simp: run_capacity_def intro: watched_emit_failed)
  next
    case paused
    with Pair assms show ?thesis by (simp add: run_capacity_def)
  next
    case (retry idx q' qs)
    with watched_popped [OF assms(1) retry(3), of "PResend i (KCapacity p feed) idx"] Pair assms snd' show ?thesis
      by (simp add: run_capacity_def prepared_def)
  next
    case (proceed q' qs)
    with watched_popped [OF assms(1) proceed(3), of "PRegister i p feed"] Pair assms snd' show ?thesis
      by (simp add: run_capacity_def prepared_def)
  next
    case (full q' qs)
    with watched_waiting [OF assms(1) full(3)] Pair assms show ?thesis by (simp add: run_capacity_def)
  qed
qed

lemma notify_watched [simp]: "watched (s_notify f ev s) = watched s" "s_pc (s_notify f ev s) = s_pc s"
  "s_inflight (s_notify f ev s) = s_inflight s"
  by (cases f ev s rule: s_notify_cases; simp)+

lemma notify_pc: "watched ((s_notify f ev s)\<lparr>s_pc := pc'\<rparr>) = watched (s\<lparr>s_pc := pc'\<rparr>)"
  by (cases f ev s rule: s_notify_cases)
    (simp_all add: watched_def sound_def tagged_def block_bounds_def prepared_def cared_for_def)

lemma watched_drain:
  assumes "watched s" and "s_pc s = PDrain i" shows "watched (run_drain i s)"
proof (cases "nextRetryOrWait False s")
  case (Pair n s')
  have snd': "sound (run_drain i s)" using assms(1) by (simp add: sound_drain watched_def)
  from Pair show ?thesis
  proof (cases rule: nextRetry_cases)
    case stop
    with Pair assms show ?thesis by (auto simp: run_drain_def intro: watched_return)
  next
    case paused
    with Pair assms show ?thesis by (simp add: run_drain_def)
  next
    case (retry idx q' qs)
    with watched_popped [OF assms(1) retry(3), of "PResend i KDrain idx"] Pair assms snd' show ?thesis
      by (simp add: run_drain_def prepared_def)
  next
    case (proceed q' qs)
    have "sound (s'\<lparr>s_pc := PFile (Suc i)\<rparr>)"
      using assms(1) proceed(2,6) by (intro sound_pc) (simp_all add: watched_def)
    with watched_popped [OF assms(1) proceed(3), of "PFile (Suc i)"] proceed Pair assms show ?thesis
      by (simp add: run_drain_def prepared_def notify_pc)
  next
    case (full q' qs)
    with watched_waiting [OF assms(1) full(3)] Pair assms show ?thesis by (simp add: run_drain_def)
  qed
qed

lemma watched_resend:
  assumes "watched s" and "s_pc s = PResend i k idx" shows "watched (run_resend i k idx s)"
proof (cases "s_inflight s idx")
  case None
  with assms show ?thesis by (auto simp: run_resend_def intro!: watched_resume_cont)
next
  case (Some b)
  have snd': "sound (run_resend i k idx s)" using assms(1) by (simp add: sound_resend watched_def)
  show ?thesis
  proof (cases "s_maxRetries s \<le> ib_retries b")
    case True
    have "watched (snd (Sender_sendControl (NewFail FailRetryExhausted) s))"
      by (rule control_watched(1) [OF assms(1) prod.collapse [symmetric]])
    with True Some show ?thesis
      by (auto simp: run_resend_def Let_def intro!: watched_cont_failed watched_fail)
  next
    case False
    with Some assms snd' show ?thesis
      by (auto simp: run_resend_def watched_def cared_for_def prepared_def)
  qed
qed

lemma watched_send:
  assumes "watched s" and "s_pc s = PSend i k idx block off" shows "watched (run_send i k idx block off s)"
proof (cases "off < int (length block)")
  case True
  obtain er s1 where n: "sendFrame (data_header (s_activeFileIdx s) idx off (s_frameSize s) block)
      (frame_payload off (s_frameSize s) block) s = (er, s1)" by fastforce
  have "sound (s1\<lparr>s_pc := PSend i k idx block (off + s_frameSize s)\<rparr>)"
    using sent_watched(1) [OF assms(1) n] by (intro sound_pc) (simp_all add: watched_def)
  with True n sent_watched [OF assms(1) n] assms(2) show ?thesis
    by (cases er) (auto simp: run_send_def cared_for_def prepared_def intro!: watched_block_failed watched_move)
next
  case False
  obtain er s1 where n: "Sender_sendControl (NewBlockHash (s_activeFileIdx s) idx (hex_encode (sha256 block))) s = (er, s1)"
    by fastforce
  have "sound (s1\<lparr>s_pc := PArm i k idx\<rparr>)"
    using control_watched(1) [OF assms(1) n] by (intro sound_pc) (simp_all add: watched_def)
  with False n control_watched [OF assms(1) n] assms(2) show ?thesis
    by (cases er) (auto simp: run_send_def cared_for_def prepared_def intro!: watched_block_failed watched_move)
qed

lemma watched_arm:
  assumes "watched s" and "s_pc s = PArm i k idx" shows "watched (run_arm i k idx s)"
proof -
  have "sound (armTimeout idx s)" using assms(1) by (simp add: sound_armTimeout watched_def)
  then have "watched (armTimeout idx s)"
    using assms by (auto simp: armTimeout_def armTimeoutLocked_def watched_def cared_for_def prepared_def split: option.split)
  then show ?thesis
    unfolding run_arm_def
    by (rule watched_resume_cont) (use assms(2) in \<open>auto simp: armTimeout_def armTimeoutLocked_def split: option.splits\<close>)
qed

lemma watched_start:
  assumes "watched s" and "s_pc s = PStart" shows "watched (run_start s)"
proof (cases "build_manifest s")
  case (Inr a)
  obtain entries manifest where a: "a = (entries, manifest)" by fastforce
  obtain er s1 where n: "announce_manifest manifest s = (er, s1)" by fastforce
  then have s1: "watched s1" "s_pc s1 = PStart"
    using assms by (auto simp: announce_manifest_def s_call_def s_log_def split: option.splits prod.splits)
  have sr: "sound (run_start s)" using assms by (simp add: sound_start watched_def)
  have "watched (register_manifest entries manifest fp s1)" if "sound (register_manifest entries manifest fp s1)" for fp
    using s1 that by (auto simp: watched_def register_manifest_def prepared_def cared_for_def)
  with Inr a n s1 sr show ?thesis
    by (auto simp: run_start_def intro: watched_fail_return split: option.split sum.split)
qed (simp add: run_start_def watched_fail_return assms)

lemma watched_manifest:
  assumes "watched s" and "s_pc s = PManifest" shows "watched (run_manifest s)"
proof (cases "s_manifest s")
  case (Some m)
  obtain er s1 where n: "Sender_sendControl (MManifest m) s = (er, s1)" by fastforce
  have "s_inflight s1 = Map.empty"
    using control_watched(4) [OF assms(1) n] assms by (simp add: watched_def sound_def)
  moreover have "sound s1" using control_watched(1) [OF assms(1) n] by (simp add: watched_def)
  ultimately have "watched (s1\<lparr>s_pc := pc'\<rparr>)" if "pc' = PFile 0 \<or> pc' = PWaitResume" for pc'
    using that control_watched [OF assms(1) n] assms(2) by (intro watched_move sound_pc) (auto simp: prepared_def)
  with n Some control_watched(1) [OF assms(1) n] show ?thesis
    by (auto simp: run_manifest_def intro: watched_fail_return split: option.split)
qed (simp add: run_manifest_def assms)

lemma watched_ending:
  assumes "watched s"
  shows "s_pc s = PComplete \<Longrightarrow> watched (run_complete s)"
    and "s_pc s = PSendComplete \<Longrightarrow> watched (run_sendComplete s)"
    and "s_pc s = PWaitDone \<Longrightarrow> watched (run_waitDone s)"
    and "s_pc s = PFile i \<Longrightarrow> watched (run_file i s)"
    and "s_pc s = PWaitResume \<Longrightarrow> watched (run_waitResume s)"
proof -
  note s = watched_sound [OF assms]
  have e: "between_files (s_pc s) \<Longrightarrow> s_inflight s = Map.empty" using s by (simp add: sound_def)
  show "s_pc s = PComplete \<Longrightarrow> watched (run_complete s)"
    using sound_ending(1) [OF s] e assms by (auto simp: run_complete_def watched_def prepared_def)
  show "s_pc s = PWaitDone \<Longrightarrow> watched (run_waitDone s)"
    using sound_ending(3) [OF s] e assms by (auto simp: run_waitDone_def watched_def prepared_def)
  show "s_pc s = PFile i \<Longrightarrow> watched (run_file i s)"
    using sound_ending(4) [OF s] e assms
    by (auto simp: run_file_def begin_send_file_def Let_def watched_def prepared_def split: option.split)
  show "s_pc s = PWaitResume \<Longrightarrow> watched (run_waitResume s)"
    using sound_waitResume [OF s] e assms
    by (auto simp: run_waitResume_def notify_pc intro!: watched_return watched_move sound_pc [OF s])
      (auto simp: prepared_def)
  assume pc: "s_pc s = PSendComplete"
  show "watched (run_sendComplete s)"
  proof (cases "s_complete s")
    case (Some c)
    obtain er s1 where n: "Sender_sendControl (MComplete c) s = (er, s1)" by fastforce
    have "s_inflight s1 = Map.empty" using control_watched(4) [OF assms n] e pc by simp
    with control_watched [OF assms n] pc have "watched (s1\<lparr>s_pc := PWaitDone\<rparr>)"
      by (intro watched_move sound_pc) (auto simp: prepared_def watched_def)
    with n Some control_watched(1) [OF assms n] show ?thesis
      by (auto simp: run_sendComplete_def intro: watched_fail_return split: option.split)
  qed (simp add: run_sendComplete_def assms)
qed

lemma watched_pieces:
  assumes "watched s" and "s_pc s = PPieces i feed" shows "watched (run_pieces i feed s)"
proof -
  have "watched (s\<lparr>s_pc := PPieces i f\<rparr>)" "watched (s\<lparr>s_pc := PCapacity i p f\<rparr>)" for p f
    using assms watched_sound [OF assms(1)] by (intro watched_move sound_pc; simp add: prepared_def)+
  with assms show ?thesis
    by (auto simp: run_pieces_def intro!: watched_stream_ended split: prod.split list.split)
qed

lemma watched_register:
  assumes "watched s" and "s_pc s = PRegister i p feed" shows "watched (run_register i p feed s)"
proof -
  have "sound (run_register i p feed s)" using assms by (simp add: sound_run_register watched_def)
  with assms show ?thesis
    by (cases "s_settled s")
      (auto simp: run_register_def Let_def watched_emit_failed, auto simp: watched_def prepared_def cared_for_def)
qed

lemma watched_run: "watched s \<Longrightarrow> watched (run_step s)"
  unfolding run_step_def
  by (cases "s_pc s") (simp_all add: watched_start watched_manifest watched_ending watched_pieces
      watched_capacity watched_register watched_resend watched_send watched_arm watched_drain)

interpretation watched_sender: sender_invariant watched
proof unfold_locales
  show "watched s \<Longrightarrow> tagged s" for s :: "'a Sender" by (simp add: watched_def sound_def)
  show "watched s \<Longrightarrow> \<not> s_settled s \<Longrightarrow> watched (clearTimersLocked (s\<lparr>s_settled := True, s_err := Some e\<rparr>))"
    for s :: "'a Sender" and e using watched_fail [of s e] by (simp add: Sender_fail_def)
  show "watched s \<Longrightarrow> \<not> s_settled s \<Longrightarrow> s_completeSent s \<Longrightarrow> watched (clearTimersLocked (s\<lparr>s_settled := True\<rparr>))"
    for s :: "'a Sender"
    using sound_sender.finished [of s] by (simp add: watched_def clearTimersLocked_def prepared_def)
  show "watched s \<Longrightarrow> (\<And>c. c \<in> set cs \<Longrightarrow> cpl_Type c = FrameComplete) \<Longrightarrow> watched (s\<lparr>s_resending := cs\<rparr>)"
    for s :: "'a Sender" and cs
    using sound_sender.resending [of s cs] by (simp add: watched_def prepared_def cared_for_def)
qed (simp_all add: watched_queueRetry watched_timer watched_acked watched_pausing watched_requeue watched_run)

lemma NewSender_options [simp]:
  "so_Send (s_o (NewSender opts w)) = so_Send opts" "s_pc (NewSender opts w) = PStart"
  "s_inflight (NewSender opts w) = Map.empty" "s_retryQueued (NewSender opts w) = {}"
  by (simp_all add: NewSender_def Let_def)

lemma watched_run_all: "foreign_errors opts \<Longrightarrow> watched (sender_run opts w evs)"
  unfolding sender_run_def
  by (rule watched_sender.inv_run) (simp add: watched_def sound_NewSender prepared_def foreign_errors_def)

section \<open>Run never waits for nothing\<close>

fun leaving :: "pc \<Rightarrow> bool" where
  "leaving (PDrain i) = True"
| "leaving (PReturned r) = True"
| "leaving _ = False"

lemma stream_ended_leaves: "leaving (s_pc (stream_ended i er s))"
  by (auto simp: stream_ended_def fail_return_def split: option.split)

lemma failed_leaves: "leaving (s_pc (emit_failed i p e s))" "leaving (s_pc (cont_failed i k e s))"
  "leaving (s_pc (block_failed i k e s))"
  by (cases k; simp add: emit_failed_def cont_failed_def block_failed_def stream_ended_leaves)+

lemma leaving_moves [simp]:
  "\<not> leaving pc' \<Longrightarrow> s_pc (stream_ended i er s) \<noteq> pc'" "\<not> leaving pc' \<Longrightarrow> s_pc (emit_failed i p e s) \<noteq> pc'"
  "\<not> leaving pc' \<Longrightarrow> s_pc (cont_failed i k e s) \<noteq> pc'" "\<not> leaving pc' \<Longrightarrow> s_pc (block_failed i k e s) \<noteq> pc'"
  using stream_ended_leaves failed_leaves by metis+

lemma run_send_moves: "0 < s_frameSize s \<Longrightarrow> s_pc (run_send i k idx block off s) \<noteq> PSend i k idx block off"
  by (auto simp: run_send_def split: prod.split option.split)

lemma resume_cont_moves [simp]: "s_pc (resume_cont i k s) \<noteq> PResend j k' idx" "s_pc (resume_cont i k s) \<noteq> PArm j k' idx"
  by (cases k; simp add: resume_cont_def)+

lemma run_resend_moves: "s_pc (run_resend i k idx s) \<noteq> PResend i k idx"
  by (auto simp: run_resend_def Let_def split: option.split)

lemma run_pieces_moves: "s_pc (run_pieces i feed s) \<noteq> PPieces i feed"
  by (auto simp: run_pieces_def split: prod.split list.split)

text \<open>A step of \<^verbatim>\<open>Run\<close> that changes nothing is a wait.\<close>

lemma waiting_cases:
  assumes "watched s" and "run_step s = s" and "\<not> returned (s_pc s)"
  obtains (resume) "s_pc s = PWaitResume" and "\<not> s_settled s" and "\<not> s_resumeReceived s"
  | (finish) "s_pc s = PWaitDone" and "\<not> s_settled s"
  | (on_hold) "\<not> s_settled s" and "s_paused s"
  | (window) "\<not> s_settled s" and "\<not> s_paused s" and "s_inflight s \<noteq> Map.empty" and "s_retryQueue s = []"
      and "\<And>idx. \<not> in_hand (s_pc s) idx"
proof -
  have pos: "0 < s_frameSize s" "0 < s_blockSize s" "0 < s_window s" using assms(1) by (simp_all add: watched_def sound_def)
  have pc: "s_pc (run_at (s_pc s) s) = s_pc s" using assms(2) by (simp add: run_step_def)
  have q: "s_retryQueued s \<subseteq> set (s_retryQueue s)" using assms(1) by (simp add: watched_def)
  have wait: thesis if n: "nextRetryOrWait c s = (Wait, s')" and same: "s' = s" and h: "\<And>idx. \<not> in_hand (s_pc s) idx" for c s'
    using n
  proof (cases rule: nextRetry_cases)
    case paused
    then show ?thesis by (intro on_hold)
  next
    case (full q' qs)
    have "s_retryQueue s = []" using pop_retry_queue(3) [OF full(3) q] same by simp
    moreover have "s_inflight s \<noteq> Map.empty" using full(6) pos(3) by (auto split: if_splits)
    ultimately show ?thesis using full(4,5) h by (intro window)
  qed simp_all
  show thesis
  proof (cases "s_pc s")
    case PWaitResume
    with pc show ?thesis by (intro resume) (auto simp: run_waitResume_def split: if_splits)
  next
    case PWaitDone
    with pc show ?thesis by (intro finish) (auto simp: run_waitDone_def split: if_splits)
  next
    case (PCapacity i p feed)
    obtain n s' where n: "nextRetryOrWait True s = (n, s')" by fastforce
    with pc assms(2) PCapacity have "n = Wait \<and> s' = s"
      by (cases n) (auto simp: run_capacity_def run_step_def)
    with n PCapacity show ?thesis by (intro wait [of True s']) auto
  next
    case (PDrain i)
    obtain n s' where n: "nextRetryOrWait False s = (n, s')" by fastforce
    with pc assms(2) PDrain have "n = Wait \<and> s' = s"
      by (cases n) (auto simp: run_drain_def run_step_def)
    with n PDrain show ?thesis by (intro wait [of False s']) auto
  next
    case PStart
    with pc show ?thesis
      by (auto simp: run_start_def fail_return_def register_manifest_def split: sum.splits prod.splits option.splits)
  next
    case PManifest
    with pc assms(1) show ?thesis
      by (auto simp: run_manifest_def fail_return_def watched_def prepared_def split: prod.splits option.splits if_splits)
  next
    case (PFile i)
    with pc block_feed_total [of "nat (s_blockSize s)" "fs_Stream (s_files s ! i) 1"] pos show ?thesis
      by (auto simp: run_file_def split: if_splits option.splits)
  next
    case (PPieces i feed)
    with pc run_pieces_moves [of i feed s] show ?thesis by simp
  next
    case (PRegister i p feed)
    with pc show ?thesis by (auto simp: run_register_def Let_def split: if_splits)
  next
    case (PResend i k idx)
    with pc run_resend_moves [of i k idx s] show ?thesis by simp
  next
    case (PSend i k idx block off)
    with pc run_send_moves [OF pos(1), of i k idx block off] show ?thesis by simp
  next
    case (PArm i k idx)
    with pc show ?thesis by (simp add: run_arm_def)
  next
    case PSendComplete
    with pc assms(1) show ?thesis
      by (auto simp: run_sendComplete_def fail_return_def watched_def prepared_def split: prod.splits option.splits)
  qed (use assms(3) pc in \<open>simp_all add: run_complete_def\<close>)
qed

lemma waiting_armed:
  assumes "watched s" and "\<not> s_settled s" and "\<not> s_paused s" and "s_retryQueue s = []" and "\<And>idx. \<not> in_hand (s_pc s) idx"
    and "0 \<le> s_ackTimeout s" and "s_inflight s idx = Some b"
  shows "ib_timer b = Armed"
proof -
  have "idx \<in> dom (s_inflight s)" using assms(7) by blast
  with assms(1-3,6) have "cared_for s idx" by (simp add: watched_def)
  with assms(4,5,7) show ?thesis by (simp add: cared_for_def)
qed

end
