(* ===== verification/SenderData.thy ===== *)
theory SenderData
  imports SenderLive
begin

text \<open>
  What the sender sends: every data frame carries the bytes of its own place in its own source,
  blocks the receiver holds are never sent, and the completion message goes out only when every byte
  of every file has been acknowledged.
\<close>

section \<open>Entries of the manifest\<close>

lemma validate_files_names:
  "validate_files idx paths tot fs = Inr (fs', t)
    \<Longrightarrow> map (\<lambda>f. f\<lparr>fe_Name := ''''\<rparr>) fs' = map (\<lambda>f. f\<lparr>fe_Name := ''''\<rparr>) fs"
  by (induction fs arbitrary: idx paths tot fs' t)
    (auto simp: Let_def split: if_splits sum.splits)

lemma ValidateManifest_entries:
  assumes "ValidateManifest m = Inr m'" and "i < length (mf_Files m)"
  shows "fe_Size (mf_Files m' ! i) = fe_Size (mf_Files m ! i)" and "fe_Blocks (mf_Files m' ! i) = fe_Blocks (mf_Files m ! i)"
    and "fe_BlockSize (mf_Files m' ! i) = fe_BlockSize (mf_Files m ! i)"
    and "fe_FileDigest (mf_Files m' ! i) = fe_FileDigest (mf_Files m ! i)"
proof -
  obtain files t where v: "validate_files 0 [] 0 (mf_Files m) = Inr (files, t)" and "mf_Files m' = files"
    using assms(1) by (auto simp: ValidateManifest_def split: if_splits sum.splits)
  with validate_files_names [OF v]
  have "map (\<lambda>f. f\<lparr>fe_Name := ''''\<rparr>) (mf_Files m') = map (\<lambda>f. f\<lparr>fe_Name := ''''\<rparr>) (mf_Files m)" by simp
  then have "(mf_Files m' ! i)\<lparr>fe_Name := ''''\<rparr> = (mf_Files m ! i)\<lparr>fe_Name := ''''\<rparr>"
    by (metis (no_types, lifting) assms(2) length_map nth_map)
  then show "fe_Size (mf_Files m' ! i) = fe_Size (mf_Files m ! i)" and "fe_Blocks (mf_Files m' ! i) = fe_Blocks (mf_Files m ! i)"
    and "fe_BlockSize (mf_Files m' ! i) = fe_BlockSize (mf_Files m ! i)"
    and "fe_FileDigest (mf_Files m' ! i) = fe_FileDigest (mf_Files m ! i)"
    by (metis FileEntry.select_convs FileEntry.surjective FileEntry.update_convs(2))+
qed

text \<open>The entry of a source.\<close>

definition entry_of :: "int \<Rightarrow> int \<Rightarrow> FileSource \<Rightarrow> FileEntry" where
  "entry_of blockSize idx source = \<lparr>fe_Idx = idx, fe_Name = fm_Name (fs_Meta source), fe_Size = fm_Size (fs_Meta source),
     fe_Mime = fm_Mime (fs_Meta source), fe_LastModified = fm_LastModified (fs_Meta source), fe_BlockSize = blockSize,
     fe_Blocks = (if 0 < fm_Size (fs_Meta source) then go_div (fm_Size (fs_Meta source) - 1) blockSize + 1 else 0),
     fe_FileDigest = hex_encode (sha256 (concat (fst (fs_Stream source 0))))\<rparr>"

lemma hash_files_entries:
  "hash_files blockSize idx tot fs = Inr (es, t) \<Longrightarrow> length es = length fs
     \<and> (\<forall>i < length fs. es ! i = entry_of blockSize (idx + int i) (fs ! i) \<and> snd (fs_Stream (fs ! i) 0) = None)"
proof (induction fs arbitrary: idx tot es t)
  case (Cons f fs)
  obtain chunks where f: "fs_Stream f 0 = (chunks, None)"
    using Cons.prems by (cases "fs_Stream f 0") (auto simp: Let_def split: if_splits)
  with Cons.prems obtain es' where es: "es = entry_of blockSize idx f # es'"
    and r: "hash_files blockSize (idx + 1) (s64 (tot + fm_Size (fs_Meta f))) fs = Inr (es', t)"
    by (auto simp: Let_def entry_of_def sha.hex_feed_all split: if_splits sum.splits prod.splits)
  from Cons.IH [OF r] es f show ?case
    by (auto simp: nth_Cons less_Suc_eq_0_disj algebra_simps split: nat.split)
qed simp

definition manifest_for :: "'w Sender \<Rightarrow> Manifest \<Rightarrow> FileEntry list \<Rightarrow> bool" where
  "manifest_for s m es \<longleftrightarrow> manifest_ok m \<and> length es = length (s_files s) \<and> length (mf_Files m) = length (s_files s)
     \<and> (\<forall>i < length (s_files s). es ! i = entry_of (s_blockSize s) (int i) (s_files s ! i)
          \<and> fe_Size (mf_Files m ! i) = fe_Size (es ! i) \<and> fe_Blocks (mf_Files m ! i) = fe_Blocks (es ! i)
          \<and> fe_BlockSize (mf_Files m ! i) = s_blockSize s \<and> fe_FileDigest (mf_Files m ! i) = fe_FileDigest (es ! i))"

lemma build_manifest_for:
  assumes "build_manifest s = Inr (es, m)" shows "manifest_for s m es"
proof -
  obtain tot where h: "hash_files (s_blockSize s) 0 0 (s_files s) = Inr (es, tot)"
    and v: "ValidateManifest ((NewManifest es tot)\<lparr>mf_TransferID := s_transferID s\<rparr>) = Inr m"
    using assms by (auto simp: build_manifest_def split: if_splits sum.splits prod.splits)
  have f: "mf_Files ((NewManifest es tot)\<lparr>mf_TransferID := s_transferID s\<rparr>) = es" by (simp add: NewManifest_def)
  note e = hash_files_entries [OF h]
  have "fe_BlockSize (es ! i) = s_blockSize s" if "i < length es" for i
    using e that by (simp add: entry_of_def)
  with e ValidateManifest_Inr [OF v] ValidateManifest_entries [OF v] show ?thesis
    unfolding f by (simp add: manifest_for_def)
qed

section \<open>Blocks\<close>

definition source_bytes :: "'w Sender \<Rightarrow> nat \<Rightarrow> bytes" where
  "source_bytes s i = concat (fst (fs_Stream (s_files s ! i) 1))"

definition block_of :: "'w Sender \<Rightarrow> nat \<Rightarrow> nat \<Rightarrow> bytes" where
  "block_of s i k = take (nat (s_blockSize s)) (drop (k * nat (s_blockSize s)) (source_bytes s i))"

definition block_count :: "'w Sender \<Rightarrow> nat \<Rightarrow> nat" where
  "block_count s i = (length (source_bytes s i) + nat (s_blockSize s) - 1) div nat (s_blockSize s)"

definition piece_at :: "'w Sender \<Rightarrow> nat \<Rightarrow> nat \<Rightarrow> piece \<Rightarrow> bool" where
  "piece_at s i k p \<longleftrightarrow> fp_BlockIdx (snd p) = k \<and> fp_Payload (snd p) = block_of s i k"

definition feed_at :: "'w Sender \<Rightarrow> nat \<Rightarrow> nat \<Rightarrow> feed \<Rightarrow> bool" where
  "feed_at s i k feed \<longleftrightarrow> (\<forall>j < length (fst feed). piece_at s i (k + j) (fst feed ! j))
     \<and> (snd feed = None \<longrightarrow> k + length (fst feed) = block_count s i)
     \<and> (snd (fs_Stream (s_files s ! i) 1) \<noteq> Some SenderSettled \<longrightarrow> snd feed \<noteq> Some SenderSettled)"

lemma feed_at_Cons: "feed_at s i k (p # ps, er) \<Longrightarrow> piece_at s i k p \<and> feed_at s i (Suc k) (ps, er)"
  unfolding feed_at_def by (auto dest: spec [of _ "Suc j" for j])

lemma block_feed_at:
  assumes "0 < s_blockSize s" and "block_feed (nat (s_blockSize s)) (fs_Stream (s_files s ! i) 1) = Some feed"
  shows "feed_at s i 0 feed"
proof -
  let ?n = "nat (s_blockSize s)"
  obtain chunks outcome where st: "fs_Stream (s_files s ! i) 1 = (chunks, outcome)" by fastforce
  have n: "0 < ?n" using assms(1) by simp
  obtain ps pos rest where f: "full_frames ?n ?n 0 (concat chunks) = (ps, pos, rest)" using prod_cases3 by blast
  have feed: "feed = (case outcome of None \<Rightarrow> (map (Pair True) ps @ map (Pair False) (last_piece ?n pos rest), None)
      | Some e \<Rightarrow> (map (Pair True) ps, Some (wrap_source_error e)))"
    using assms(2) block_feed_spec [OF n f, of outcome] st by simp
  have all: "frames_of ?n ?n 0 (concat chunks) = ps @ last_piece ?n pos rest" by (rule frames_of_full [OF n n f])
  have len: "length (ps @ last_piece ?n pos rest) = block_count s i"
    and nth: "\<And>j. j < length (ps @ last_piece ?n pos rest) \<Longrightarrow>
      fp_BlockIdx ((ps @ last_piece ?n pos rest) ! j) = j \<and> fp_Payload ((ps @ last_piece ?n pos rest) ! j) = block_of s i j"
    using frames_of_blocks [OF n, of 0 0 "concat chunks"] st
    by (simp_all add: all [symmetric] block_count_def block_of_def source_bytes_def)
  show ?thesis
  proof (cases outcome)
    case None
    have "snd ((map (Pair True) ps @ map (Pair False) (last_piece ?n pos rest)) ! j) = (ps @ last_piece ?n pos rest) ! j"
      if "j < length (ps @ last_piece ?n pos rest)" for j
      using that by (auto simp: nth_append)
    with None feed len nth st show ?thesis by (simp add: feed_at_def piece_at_def)
  next
    case (Some e)
    have "(ps @ last_piece ?n pos rest) ! j = ps ! j" if "j < length ps" for j using that by (simp add: nth_append)
    with Some feed nth st show ?thesis by (auto simp: feed_at_def piece_at_def wrap_not_settled) (metis trans_less_add1)+
  qed
qed

section \<open>The invariant\<close>

text \<open>Sources whose second pass streams as many bytes as they announce, and that do not return the
  unexported sentinel.\<close>

definition steady :: "FileSource list \<Rightarrow> bool" where
  "steady fs \<longleftrightarrow> (\<forall>f \<in> set fs. int (length (concat (fst (fs_Stream f 1)))) = fm_Size (fs_Meta f)
     \<and> snd (fs_Stream f 1) \<noteq> Some SenderSettled)"

definition contents :: "'w Sender \<Rightarrow> int \<rightharpoonup> bytes" where
  "contents s = (\<lambda>idx. map_option ib_bytes (s_inflight s idx))"

definition in_flight_bytes :: "'w Sender \<Rightarrow> int" where
  "in_flight_bytes s = (\<Sum>idx \<in> dom (contents s). int (length (the (contents s idx))))"

definition held :: "'w Sender \<Rightarrow> nat \<Rightarrow> int" where
  "held s i = (case s_resumePlan s (int i) of None \<Rightarrow> 0 | Some h \<Rightarrow> h)"

definition sizes_before :: "'w Sender \<Rightarrow> nat \<Rightarrow> int" where
  "sizes_before s i = sum_list (map (\<lambda>f. fm_Size (fs_Meta f)) (take i (s_files s)))"

definition bytes_before :: "'w Sender \<Rightarrow> nat \<Rightarrow> nat \<Rightarrow> int" where
  "bytes_before s i k = int (min (k * nat (s_blockSize s)) (length (source_bytes s i)))"

definition counted :: "'w Sender \<Rightarrow> nat \<Rightarrow> nat \<Rightarrow> bool" where
  "counted s i k \<longleftrightarrow> s_activeFileAcknowledged s + in_flight_bytes s = bytes_before s i (max k (nat (held s i)))
     \<and> s_acknowledged s = sizes_before s i + s_activeFileAcknowledged s"

definition window_ok :: "'w Sender \<Rightarrow> nat \<Rightarrow> nat \<Rightarrow> bool" where
  "window_ok s i k \<longleftrightarrow> i < length (s_files s) \<and> s_activeFileIdx s = int i \<and> s_haveBlocks s = held s i
     \<and> (\<forall>idx bs. contents s idx = Some bs \<longrightarrow> held s i \<le> idx \<and> idx < int k \<and> bs = block_of s i (nat idx))
     \<and> (steady (s_files s) \<and> \<not> s_settled s \<longrightarrow> counted s i k)"

definition drained :: "'w Sender \<Rightarrow> nat \<Rightarrow> nat \<Rightarrow> bool" where
  "drained s i k \<longleftrightarrow> s_settled s \<or> \<not> steady (s_files s) \<or> k = block_count s i"

fun cont_at :: "'w Sender \<Rightarrow> nat \<Rightarrow> nat \<Rightarrow> cont \<Rightarrow> bool" where
  "cont_at s i k (KNew p feed) = feed_at s i k feed"
| "cont_at s i k (KCapacity p feed) = (held s i \<le> int k \<and> piece_at s i k p \<and> feed_at s i (Suc k) feed)"
| "cont_at s i k KDrain = drained s i k"

fun expects :: "'w Sender \<Rightarrow> nat \<Rightarrow> nat \<Rightarrow> pc \<Rightarrow> bool" where
  "expects s i k (PPieces j feed) = (j = i \<and> feed_at s i k feed)"
| "expects s i k (PCapacity j p feed) = (j = i \<and> held s i \<le> int k \<and> piece_at s i k p \<and> feed_at s i (Suc k) feed)"
| "expects s i k (PRegister j p feed) = (j = i \<and> held s i \<le> int k \<and> piece_at s i k p \<and> feed_at s i (Suc k) feed)"
| "expects s i k (PResend j c idx) = (j = i \<and> cont_at s i k c)"
| "expects s i k (PSend j c idx block off) = (j = i \<and> cont_at s i k c \<and> held s i \<le> idx
     \<and> block = block_of s i (nat idx) \<and> 0 \<le> off)"
| "expects s i k (PArm j c idx) = (j = i \<and> cont_at s i k c)"
| "expects s i k (PDrain j) = (j = i \<and> drained s i k)"
| "expects s i k _ = False"

definition all_acknowledged :: "'w Sender \<Rightarrow> bool" where
  "all_acknowledged s \<longleftrightarrow> (steady (s_files s) \<longrightarrow> s_acknowledged s = sizes_before s (length (s_files s)))"

fun at_stage :: "'w Sender \<Rightarrow> pc \<Rightarrow> bool" where
  "at_stage s PStart = (s_acknowledged s = 0 \<and> s_manifest s = None)"
| "at_stage s PManifest = (s_acknowledged s = 0)"
| "at_stage s PWaitResume = (s_acknowledged s = 0)"
| "at_stage s (PFile i) = (i \<le> length (s_files s) \<and> (steady (s_files s) \<longrightarrow> s_acknowledged s = sizes_before s i))"
| "at_stage s PComplete = all_acknowledged s"
| "at_stage s PSendComplete = all_acknowledged s"
| "at_stage s PWaitDone = all_acknowledged s"
| "at_stage s (PReturned r) = True"
| "at_stage s pc = (\<exists>i k. window_ok s i k \<and> expects s i k pc)"

fun early :: "pc \<Rightarrow> bool" where
  "early PStart = True"
| "early PManifest = True"
| "early PWaitResume = True"
| "early _ = False"

fun late :: "pc \<Rightarrow> bool" where
  "late PSendComplete = True"
| "late PWaitDone = True"
| "late (PReturned r) = True"
| "late _ = False"

definition plan_ok :: "'w Sender \<Rightarrow> bool" where
  "plan_ok s \<longleftrightarrow> (\<forall>j h. s_resumePlan s j = Some h \<longrightarrow> 0 \<le> h \<and> 0 \<le> j
     \<and> (\<exists>m. s_manifest s = Some m \<and> j < int (length (mf_Files m)) \<and> h \<le> fe_Blocks (mf_Files m ! nat j)))"

text \<open>A frame of block data carries the bytes of its place, a block hash the digest of its block, and
  neither is for a block the receiver already holds.\<close>

definition faithful_frame :: "'w Sender \<Rightarrow> sevent \<Rightarrow> bool" where
  "faithful_frame s ev \<longleftrightarrow> (\<forall>c h p frame er. ev = SentFrame c h p frame er \<and> data_frame ev \<longrightarrow>
     (\<exists>i k off. i < length (s_files s) \<and> held s i \<le> int k
        \<and> (0 \<le> off \<and> off < int (length (block_of s i k)) \<and> h = data_header (int i) (int k) off (s_frameSize s) (block_of s i k)
             \<and> p = frame_payload off (s_frameSize s) (block_of s i k)
         \<or> h = control_header FrameBlockHash
             \<and> EncodeControl (NewBlockHash (int i) (int k) (hex_encode (sha256 (block_of s i k)))) = Inr p)))"

definition delivering :: "'w Sender \<Rightarrow> bool" where
  "delivering s \<longleftrightarrow> watched s \<and> list_all (faithful_frame s) (s_trace s) \<and> plan_ok s \<and> at_stage s (s_pc s)
     \<and> (s_pc s = PStart \<or> returned (s_pc s) \<or> (\<exists>m. s_manifest s = Some m \<and> manifest_for s m (s_entries s)))
     \<and> (early (s_pc s) \<or> returned (s_pc s) \<or> s_resumeReceived s \<or> s_transferID s = '''')
     \<and> (s_resumeReceived s \<or> s_transferID s = '''' \<or> \<not> list_ex data_frame (s_trace s))
     \<and> (s_completeSent s \<longrightarrow> late (s_pc s) \<and> all_acknowledged s \<and> s_manifest s \<noteq> None)"

lemma deliveringD:
  assumes "delivering s"
  shows "watched s" and "list_all (faithful_frame s) (s_trace s)" and "plan_ok s" and "at_stage s (s_pc s)"
    and "s_pc s = PStart \<or> returned (s_pc s) \<or> (\<exists>m. s_manifest s = Some m \<and> manifest_for s m (s_entries s))"
    and "early (s_pc s) \<or> returned (s_pc s) \<or> s_resumeReceived s \<or> s_transferID s = []"
    and "s_resumeReceived s \<or> s_transferID s = [] \<or> \<not> list_ex data_frame (s_trace s)"
    and "s_completeSent s \<Longrightarrow> late (s_pc s)" and "s_completeSent s \<Longrightarrow> all_acknowledged s"
    and "s_completeSent s \<Longrightarrow> s_manifest s \<noteq> None"
  using assms unfolding delivering_def by blast+

section \<open>What the invariant depends on\<close>

definition data_of :: "'w Sender \<Rightarrow> _" where
  "data_of s = (contents s, static s, s_activeFileIdx s, s_haveBlocks s, s_activeFileAcknowledged s, s_acknowledged s,
     s_resumePlan s, s_resumeReceived s, s_manifest s, s_entries s, s_completeSent s)"

lemma data_of_eqD:
  assumes "data_of s' = data_of s"
  shows "contents s' = contents s" "s_files s' = s_files s" "s_blockSize s' = s_blockSize s" "s_frameSize s' = s_frameSize s"
    "s_transferID s' = s_transferID s" "s_activeFileIdx s' = s_activeFileIdx s" "s_haveBlocks s' = s_haveBlocks s"
    "s_activeFileAcknowledged s' = s_activeFileAcknowledged s" "s_acknowledged s' = s_acknowledged s"
    "s_resumePlan s' = s_resumePlan s" "s_resumeReceived s' = s_resumeReceived s" "s_manifest s' = s_manifest s"
    "s_entries s' = s_entries s" "s_completeSent s' = s_completeSent s"
  using assms by (simp_all add: data_of_def static_def)

text \<open>What depends on the sources and the plan only.\<close>

definition plan_of :: "'w Sender \<Rightarrow> _" where
  "plan_of s = (s_files s, s_blockSize s, s_frameSize s, s_resumePlan s)"

lemma same_plan:
  assumes "plan_of s' = plan_of s"
  shows "source_bytes s' = source_bytes s" "block_of s' = block_of s" "block_count s' = block_count s"
    "piece_at s' = piece_at s" "feed_at s' = feed_at s" "held s' = held s" "sizes_before s' = sizes_before s"
    "bytes_before s' = bytes_before s" "faithful_frame s' = faithful_frame s"
    "manifest_for s' = manifest_for s" "s_files s' = s_files s" "s_blockSize s' = s_blockSize s"
    "s_frameSize s' = s_frameSize s" "s_resumePlan s' = s_resumePlan s"
proof -
  have f: "s_files s' = s_files s" "s_blockSize s' = s_blockSize s" "s_frameSize s' = s_frameSize s"
    "s_resumePlan s' = s_resumePlan s" using assms by (simp_all add: plan_of_def)
  then show "s_files s' = s_files s" "s_blockSize s' = s_blockSize s"
    "s_frameSize s' = s_frameSize s" "s_resumePlan s' = s_resumePlan s" by simp_all
  show src: "source_bytes s' = source_bytes s" by (rule ext) (simp add: source_bytes_def f)
  show blk: "block_of s' = block_of s" by (intro ext) (simp add: block_of_def src f)
  show cnt: "block_count s' = block_count s" by (rule ext) (simp add: block_count_def src f)
  show pce: "piece_at s' = piece_at s" by (intro ext) (simp add: piece_at_def blk)
  show "feed_at s' = feed_at s" by (intro ext) (simp add: feed_at_def pce cnt f)
  show hld: "held s' = held s" by (rule ext) (simp add: held_def f)
  show "sizes_before s' = sizes_before s" by (rule ext) (simp add: sizes_before_def f)
  show "bytes_before s' = bytes_before s" by (intro ext) (simp add: bytes_before_def src f)
  show "faithful_frame s' = faithful_frame s" by (rule ext) (simp add: faithful_frame_def blk hld f)
  show "manifest_for s' = manifest_for s" by (intro ext) (simp add: manifest_for_def f)
qed

lemma same_sources:
  assumes "data_of s' = data_of s"
  shows "source_bytes s' = source_bytes s" "block_of s' = block_of s" "block_count s' = block_count s"
    "piece_at s' = piece_at s" "feed_at s' = feed_at s" "held s' = held s" "sizes_before s' = sizes_before s"
    "bytes_before s' = bytes_before s" "plan_ok s' = plan_ok s" "faithful_frame s' = faithful_frame s"
    "manifest_for s' = manifest_for s" "in_flight_bytes s' = in_flight_bytes s" "counted s' = counted s"
    "all_acknowledged s' = all_acknowledged s"
proof -
  note d = data_of_eqD [OF assms]
  have p: "plan_of s' = plan_of s" by (simp add: plan_of_def d)
  show "source_bytes s' = source_bytes s" "block_of s' = block_of s" "block_count s' = block_count s"
    "piece_at s' = piece_at s" "feed_at s' = feed_at s" "held s' = held s" "sizes_before s' = sizes_before s"
    "bytes_before s' = bytes_before s" "faithful_frame s' = faithful_frame s"
    "manifest_for s' = manifest_for s" by (fact same_plan [OF p])+
  show "plan_ok s' = plan_ok s" by (simp add: plan_ok_def d)
  show f: "in_flight_bytes s' = in_flight_bytes s" by (simp add: in_flight_bytes_def d)
  show "counted s' = counted s" by (intro ext) (simp add: counted_def d f same_plan [OF p])
  show "all_acknowledged s' = all_acknowledged s" by (simp add: all_acknowledged_def d same_plan [OF p])
qed

lemma same_window:
  assumes "data_of s' = data_of s" and "s_settled s \<longrightarrow> s_settled s'"
  shows "window_ok s i k \<Longrightarrow> window_ok s' i k" "cont_at s i k c \<Longrightarrow> cont_at s' i k c"
    "expects s i k pc \<Longrightarrow> expects s' i k pc" "at_stage s pc \<Longrightarrow> at_stage s' pc"
proof -
  have w: "window_ok s i k \<Longrightarrow> window_ok s' i k" for i k
    using assms(2) by (auto simp: window_ok_def data_of_eqD [OF assms(1)] same_sources [OF assms(1)])
  have c: "cont_at s i k c \<Longrightarrow> cont_at s' i k c" for i k c
    using assms(2) by (cases c) (auto simp: same_sources [OF assms(1)] drained_def data_of_eqD [OF assms(1)])
  have e: "expects s i k pc \<Longrightarrow> expects s' i k pc" for i k pc
    using assms(2) by (cases pc) (auto simp: same_sources [OF assms(1)] drained_def data_of_eqD [OF assms(1)] c)
  show "window_ok s i k \<Longrightarrow> window_ok s' i k" "cont_at s i k c \<Longrightarrow> cont_at s' i k c"
    "expects s i k pc \<Longrightarrow> expects s' i k pc" by (fact w c e)+
  have d: "drained s i k \<Longrightarrow> drained s' i k" for i k
    using assms(2) by (auto simp: drained_def same_sources [OF assms(1)] data_of_eqD [OF assms(1)])
  show "at_stage s pc \<Longrightarrow> at_stage s' pc"
    using w c d by (cases pc) (auto simp: same_sources [OF assms(1)] data_of_eqD [OF assms(1)], blast+)
qed

lemma delivering_same:
  assumes "delivering s" and "data_of s' = data_of s" and "s_settled s \<longrightarrow> s_settled s'" and "watched s'"
    and "s_trace s' = s_trace s @ evs" and "\<not> list_ex data_frame evs" and "s_pc s' = s_pc s"
  shows "delivering s'"
proof -
  have "faithful_frame s ev" if "ev \<in> set evs" for ev
    using that assms(6) by (auto simp: faithful_frame_def list_ex_iff)
  then have "list_all (faithful_frame s) evs" by (simp add: list_all_iff)
  then show ?thesis
    using assms(1,4-7) same_window(4) [OF assms(2,3)]
    by (auto simp: delivering_def data_of_eqD [OF assms(2)] same_sources [OF assms(2)])
qed

section \<open>The steps of the other goroutines\<close>

lemma contents_map [simp]:
  "(\<And>b. ib_bytes (f b) = ib_bytes b) \<Longrightarrow> contents (s\<lparr>s_inflight := (\<lambda>i. map_option f (s_inflight s i))\<rparr>) = contents s"
  by (rule ext) (simp add: contents_def option.map_comp comp_def)

lemma contents_upd [simp]:
  "s_inflight s idx = Some b \<Longrightarrow> ib_bytes b' = ib_bytes b
    \<Longrightarrow> contents (s\<lparr>s_inflight := (s_inflight s)(idx \<mapsto> b')\<rparr>) = contents s"
  by (rule ext) (simp add: contents_def)

lemma contents_other [simp]:
  "contents (s\<lparr>s_retryQueue := a1\<rparr>) = contents s" "contents (s\<lparr>s_retryQueued := a2\<rparr>) = contents s"
  "contents (s\<lparr>s_settled := a3\<rparr>) = contents s" "contents (s\<lparr>s_err := a4\<rparr>) = contents s"
  "contents (s\<lparr>s_pc := a5\<rparr>) = contents s" "contents (s\<lparr>s_sendCounter := a6\<rparr>) = contents s"
  "contents (s\<lparr>s_world := a7\<rparr>) = contents s" "contents (s\<lparr>s_trace := a8\<rparr>) = contents s"
  "contents (s\<lparr>s_recvCounter := a9\<rparr>) = contents s" "contents (s\<lparr>s_resending := a10\<rparr>) = contents s"
  "contents (s\<lparr>s_paused := a11\<rparr>) = contents s" "contents (s\<lparr>s_acknowledged := a12\<rparr>) = contents s"
  "contents (s\<lparr>s_activeFileAcknowledged := a13\<rparr>) = contents s" "contents (s\<lparr>s_activeFileIdx := a14\<rparr>) = contents s"
  "contents (s\<lparr>s_haveBlocks := a15\<rparr>) = contents s" "contents (s\<lparr>s_resumePlan := a16\<rparr>) = contents s"
  "contents (s\<lparr>s_appliedResume := a17\<rparr>) = contents s" "contents (s\<lparr>s_resumeReceived := a18\<rparr>) = contents s"
  by (simp_all add: contents_def)

lemma armTimeoutLocked_bytes [simp]: "ib_bytes (armTimeoutLocked s b) = ib_bytes b"
  by (simp add: armTimeoutLocked_def)

lemma data_of_clear [simp]: "data_of (clearTimersLocked s) = data_of s"
  using contents_map [of stop_timer s] by (simp add: data_of_def static_def clearTimersLocked_def)

lemma data_of_other [simp]:
  "data_of (s\<lparr>s_retryQueue := a1\<rparr>) = data_of s" "data_of (s\<lparr>s_retryQueued := a2\<rparr>) = data_of s"
  "data_of (s\<lparr>s_settled := a3\<rparr>) = data_of s" "data_of (s\<lparr>s_err := a4\<rparr>) = data_of s"
  "data_of (s\<lparr>s_pc := a5\<rparr>) = data_of s" "data_of (s\<lparr>s_sendCounter := a6\<rparr>) = data_of s"
  "data_of (s\<lparr>s_world := a7\<rparr>) = data_of s" "data_of (s\<lparr>s_trace := a8\<rparr>) = data_of s"
  "data_of (s\<lparr>s_recvCounter := a9\<rparr>) = data_of s" "data_of (s\<lparr>s_resending := a10\<rparr>) = data_of s"
  "data_of (s\<lparr>s_paused := a11\<rparr>) = data_of s"
  by (simp_all add: data_of_def static_def)

lemma data_of_block [simp]:
  "s_inflight s idx = Some b \<Longrightarrow> ib_bytes b' = ib_bytes b
    \<Longrightarrow> data_of (s\<lparr>s_inflight := (s_inflight s)(idx \<mapsto> b')\<rparr>) = data_of s"
  using contents_upd [of s idx b b'] by (simp add: data_of_def static_def)

lemma data_of_queueRetry [simp]: "data_of (queueRetry idx s) = data_of s"
  by (simp add: queueRetry_def split: option.split)

lemma data_of_timer [simp]: "data_of (timer_fires idx s) = data_of s"
  by (simp add: timer_fires_def split: option.split)

lemma data_of_requeue [simp]: "data_of (requeue_block s idx) = data_of s"
  by (simp add: requeue_block_def Let_def split: option.split)

lemma data_of_pausing [simp]: "data_of (pausing p s) = data_of s"
proof -
  have "contents (pausing p s) = contents s"
    by (rule ext; cases p) (simp_all add: contents_def pausing_def option.map_comp comp_def)
  then show ?thesis by (simp add: data_of_def static_def pausing_def)
qed

lemma quiet_steps [simp]:
  "s_trace (queueRetry idx s) = s_trace s" "s_trace (timer_fires idx s) = s_trace s" "s_trace (requeue_block s idx) = s_trace s"
  "s_trace (pausing p s) = s_trace s" "s_trace (clearTimersLocked s) = s_trace s"
  "s_pc (queueRetry idx s) = s_pc s" "s_pc (timer_fires idx s) = s_pc s" "s_pc (requeue_block s idx) = s_pc s"
  "s_pc (pausing p s) = s_pc s" "s_pc (clearTimersLocked s) = s_pc s"
  "s_settled (queueRetry idx s) = s_settled s" "s_settled (timer_fires idx s) = s_settled s"
  "s_settled (requeue_block s idx) = s_settled s" "s_settled (pausing p s) = s_settled s"
  "s_settled (clearTimersLocked s) = s_settled s"
  by (simp_all add: queueRetry_def timer_fires_def requeue_block_def pausing_def clearTimersLocked_def Let_def split: option.split)

lemma at_stage_cases:
  assumes "at_stage s pc" and "\<not> between_files pc" and "\<not> returned pc"
  obtains i k where "window_ok s i k" and "expects s i k pc"
  using assms by (cases pc) auto

lemma at_stage_window: "window_ok s i k \<Longrightarrow> expects s i k pc \<Longrightarrow> at_stage s pc"
  by (cases pc) auto

text \<open>An acknowledgement moves a block's bytes from the window to the progress counters.\<close>

lemma in_flight_remove:
  assumes "finite (dom (contents s))" and "contents s idx = Some bs"
  shows "(\<Sum>j \<in> dom ((contents s)(idx := None)). int (length (the (((contents s)(idx := None)) j))))
     = in_flight_bytes s - int (length bs)"
proof -
  have "dom ((contents s)(idx := None)) = dom (contents s) - {idx}" by auto
  moreover have "(\<Sum>j \<in> dom (contents s) - {idx}. int (length (the (((contents s)(idx := None)) j))))
      = (\<Sum>j \<in> dom (contents s) - {idx}. int (length (the (contents s j))))"
    by (rule sum.cong) simp_all
  ultimately show ?thesis
    using sum.remove [OF assms(1), of idx "\<lambda>j. int (length (the (contents s j)))"] assms(2)
    by (simp add: in_flight_bytes_def domI)
qed

lemma delivering_acked:
  assumes "delivering s" and "\<not> s_settled s" and "s_inflight s idx = Some b"
  shows "delivering (acked idx b s)"
proof -
  let ?s = "acked idx b s"
  have ws: "watched s" using assms(1) by (simp add: delivering_def)
  have w: "watched ?s" "sound s" by (rule watched_acked [OF ws], rule watched_sound [OF ws])
  have pc: "\<not> between_files (s_pc s)" "\<not> returned (s_pc s)" using w(2) assms(2,3) by (auto simp: sound_def)
  obtain i k where win: "window_ok s i k" and ex: "expects s i k (s_pc s)"
    using at_stage_cases [OF deliveringD(4) [OF assms(1)] pc] by blast
  have cs: "contents ?s = (contents s)(idx := None)" by (rule ext) (simp add: contents_def acked_def)
  have fin: "finite (dom (contents s))" using w(2) by (simp add: sound_def contents_def)
  have idx: "contents s idx = Some (ib_bytes b)" using assms(3) by (simp add: contents_def)
  have plan: "plan_of ?s = plan_of s" by (simp add: plan_of_def acked_def)
  note same = same_plan [OF plan]
  have dr: "drained ?s = drained s" by (intro ext) (simp add: drained_def same, simp add: acked_def)
  have cnt: "counted ?s i k" if "counted s i k"
    using that in_flight_remove [OF fin idx] unfolding counted_def in_flight_bytes_def [of ?s] cs same
    by (simp add: acked_def)
  have "window_ok ?s i k"
    using win cnt unfolding window_ok_def cs same by (auto simp: acked_def)
  moreover have "cont_at s i k c \<Longrightarrow> cont_at ?s i k c" for c by (cases c) (simp_all add: same dr)
  with ex have "expects ?s i k (s_pc s)" by (cases "s_pc s") (auto simp: same dr)
  ultimately have "at_stage ?s (s_pc s)" by (rule at_stage_window)
  moreover have "\<not> s_completeSent s"
    using deliveringD(8) [OF assms(1)] pc by (cases "s_pc s") auto
  moreover have "plan_ok ?s = plan_ok s" by (simp add: plan_ok_def acked_def)
  ultimately show ?thesis using assms(1) w(1) pc unfolding delivering_def same by (simp add: acked_def)
qed

lemma plan_files_range:
  assumes "plan_files files p0 fs = Inr plan" and "\<And>j h. p0 j = Some h \<Longrightarrow> P j h"
    and "\<And>j h. 0 \<le> j \<Longrightarrow> j < int (length files) \<Longrightarrow> 0 \<le> h \<Longrightarrow> h \<le> fe_Blocks (files ! nat j) \<Longrightarrow> P j h"
  shows "plan j = Some h \<Longrightarrow> P j h"
  using assms(1,2)
proof (induction fs arbitrary: p0)
  case (Cons a fs)
  from Cons.prems(2) have g: "0 \<le> rf_Idx a" "rf_Idx a < int (length files)" "0 \<le> rf_HaveBlocks a"
    "rf_HaveBlocks a \<le> fe_Blocks (files ! nat (rf_Idx a))"
    and r: "plan_files files (p0(rf_Idx a \<mapsto> rf_HaveBlocks a)) fs = Inr plan"
    by (auto split: if_splits)
  show ?case
    by (rule Cons.IH [OF Cons.prems(1) r]) (use Cons.prems(3) assms(3) [OF g] in \<open>auto split: if_splits\<close>)
qed simp

lemma delivering_planned:
  assumes "delivering s" and "\<not> s_settled s" and "buildResumePlanLocked m s = Inr plan"
  shows "delivering (s\<lparr>s_resumePlan := plan, s_appliedResume := Some m, s_resumeReceived := True\<rparr>)"
proof (cases "s_resumeReceived s")
  case True
  with assms(3) have "plan = s_resumePlan s"
    by (auto simp: buildResumePlanLocked_def split: option.splits if_splits)
  with True have "s\<lparr>s_resumePlan := plan, s_appliedResume := Some m, s_resumeReceived := True\<rparr> = s\<lparr>s_appliedResume := Some m\<rparr>"
    by simp
  moreover have "data_of (s\<lparr>s_appliedResume := Some m\<rparr>) = data_of s" by (simp add: data_of_def static_def)
  then have "delivering (s\<lparr>s_appliedResume := Some m\<rparr>)"
    by (rule delivering_same [OF assms(1), where evs = "[]"]) (use deliveringD(1) [OF assms(1)] in simp_all)
  ultimately show ?thesis by simp
next
  case False
  let ?s = "s\<lparr>s_resumePlan := plan, s_appliedResume := Some m, s_resumeReceived := True\<rparr>"
  from False assms(3) obtain mf where t: "s_transferID s \<noteq> ''''" and mf: "s_manifest s = Some mf"
    and pf: "plan_files (mf_Files mf) Map.empty (rs_Files m) = Inr plan"
    by (auto simp: buildResumePlanLocked_def split: option.splits if_splits sum.splits)
  have e: "early (s_pc s)"
    using deliveringD(6) [OF assms(1)] False t deliveringD(1) [OF assms(1)] assms(2) by (auto simp: watched_def sound_def)
  have "plan_ok ?s" using plan_files_range [OF pf, of "\<lambda>j h. 0 \<le> h \<and> 0 \<le> j \<and> j < int (length (mf_Files mf))
      \<and> h \<le> fe_Blocks (mf_Files mf ! nat j)"] mf by (simp add: plan_ok_def)
  moreover have "\<not> data_frame ev" if "ev \<in> set (s_trace s)" for ev
    using deliveringD(7) [OF assms(1)] False t that by (auto simp: list_ex_iff)
  then have "list_all (faithful_frame ?s) (s_trace s)" by (auto simp: list_all_iff faithful_frame_def)
  moreover have "at_stage ?s (s_pc s)"
    using deliveringD(4) [OF assms(1)] e by (cases "s_pc s") auto
  moreover have "\<not> s_completeSent s" using deliveringD(8) [OF assms(1)] e by (cases "s_pc s") auto
  moreover have "manifest_for ?s = manifest_for s" by (intro ext) (simp add: manifest_for_def)
  ultimately show ?thesis
    using deliveringD(1,5) [OF assms(1)] e by (simp add: delivering_def)
qed

section \<open>The steps of Run\<close>

lemma delivering_step:
  assumes "delivering s" and "plan_of s' = plan_of s" and "s_manifest s' = s_manifest s" and "s_entries s' = s_entries s"
    and "s_resumeReceived s' = s_resumeReceived s" and "s_transferID s' = s_transferID s" and "watched s'"
    and "s_trace s' = s_trace s @ evs" and "list_all (faithful_frame s) evs" and "at_stage s' (s_pc s')"
    and "returned (s_pc s') \<or> s_pc s \<noteq> PStart \<and> \<not> returned (s_pc s)"
    and "early (s_pc s') \<or> returned (s_pc s') \<or> s_resumeReceived s \<or> s_transferID s = ''''"
    and "list_ex data_frame evs \<Longrightarrow> s_resumeReceived s \<or> s_transferID s = ''''"
    and "s_completeSent s' \<Longrightarrow> late (s_pc s') \<and> all_acknowledged s' \<and> s_manifest s \<noteq> None"
  shows "delivering s'"
proof -
  note same = same_plan [OF assms(2)]
  have "plan_ok s'" using deliveringD(3) [OF assms(1)] by (simp add: plan_ok_def assms(3) same)
  with assms deliveringD(2,5,7) [OF assms(1)] show ?thesis by (auto simp: delivering_def same)
qed

definition in_file :: "'w Sender \<Rightarrow> bool" where
  "in_file s \<longleftrightarrow> \<not> between_files (s_pc s) \<and> \<not> returned (s_pc s)"

lemma delivering_in_file:
  assumes "delivering s" and "in_file s" and "plan_of s' = plan_of s" and "s_manifest s' = s_manifest s"
    and "s_entries s' = s_entries s" and "s_resumeReceived s' = s_resumeReceived s" and "s_transferID s' = s_transferID s"
    and "s_completeSent s' = s_completeSent s" and "watched s'"
    and "s_trace s' = s_trace s @ evs" and "list_all (faithful_frame s) evs" and "at_stage s' (s_pc s')"
  shows "delivering s'"
proof -
  have pc: "s_pc s \<noteq> PStart" "\<not> returned (s_pc s)" "\<not> early (s_pc s)" "\<not> late (s_pc s)"
    using assms(2) by (cases "s_pc s"; simp add: in_file_def)+
  with deliveringD(6,8) [OF assms(1)] have "s_resumeReceived s \<or> s_transferID s = ''''" "\<not> s_completeSent s" by auto
  with pc show ?thesis by (intro delivering_step [OF assms(1,3-7,9-12)]) (auto simp: assms(8))
qed

text \<open>Steps within a file that leave the data alone.\<close>

lemma delivering_moved:
  assumes "delivering s" and "in_file s" and "data_of s' = data_of s" and "watched s'"
    and "s_trace s' = s_trace s @ evs" and "list_all (faithful_frame s) evs" and "at_stage s' (s_pc s')"
  shows "delivering s'"
  by (rule delivering_in_file [OF assms(1,2) _ _ _ _ _ _ assms(4-7)])
    (simp_all add: plan_of_def data_of_eqD [OF assms(3)])

lemma in_file_cases:
  assumes "delivering s" and "in_file s"
  obtains i k where "window_ok s i k" and "expects s i k (s_pc s)"
  using at_stage_cases [OF deliveringD(4) [OF assms(1)]] assms(2) unfolding in_file_def by blast

lemma at_stage_moved:
  assumes "data_of s' = data_of s" and "s_settled s \<longrightarrow> s_settled s'" and "window_ok s i k" and "expects s i k pc'"
  shows "at_stage s' pc'"
  using same_window(1) [OF assms(1,2,3)] same_window(3) [OF assms(1,2,4)] by (rule at_stage_window)

lemma fail_return_facts [simp]: "data_of (fail_return e s) = data_of s" "s_trace (fail_return e s) = s_trace s"
  "s_pc (fail_return e s) = PReturned (Inl e)" "s_settled (fail_return e s)"
  by (simp_all add: fail_return_def Sender_fail_def)

lemma fail_facts [simp]: "data_of (Sender_fail e s) = data_of s" "s_trace (Sender_fail e s) = s_trace s"
  "s_pc (Sender_fail e s) = s_pc s"
  by (simp_all add: Sender_fail_def)

lemma stream_ended_facts [simp]: "data_of (stream_ended i er s) = data_of s" "s_trace (stream_ended i er s) = s_trace s"
  "s_settled s \<Longrightarrow> s_settled (stream_ended i er s)"
  by (auto simp: stream_ended_def split: option.split)

lemma stream_ended_stage:
  assumes "window_ok s i k" and "er = None \<Longrightarrow> drained s i k" and "er = Some SenderSettled \<Longrightarrow> drained s i k"
  shows "at_stage (stream_ended i er s) (s_pc (stream_ended i er s))"
proof (cases "er = None \<or> er = Some SenderSettled")
  case True
  then have "s_pc (stream_ended i er s) = PDrain i" by (auto simp: stream_ended_def)
  moreover have "at_stage (stream_ended i er s) (PDrain i)"
    by (rule at_stage_moved [of _ s, OF _ _ assms(1)]) (use True assms in auto)
  ultimately show ?thesis by simp
next
  case False
  then obtain e where "er = Some e" "e \<noteq> SenderSettled" by auto
  then show ?thesis by (simp add: stream_ended_def)
qed

lemma sent_data:
  assumes "sendFrame h p s = (er, s')"
  obtains evs where "data_of s' = data_of s" and "s_trace s' = s_trace s @ evs" and "s_pc s' = s_pc s"
    and "s_settled s' = s_settled s" and "\<And>ev. ev \<in> set evs \<Longrightarrow> \<exists>c frame. ev = SentFrame c h p frame er"
  using assms
proof (cases rule: sendFrame_cases)
  case (unsent e)
  then show ?thesis by (intro that [of "[]"]) simp_all
next
  case (sent frame w)
  then show ?thesis by (intro that [of "[SentFrame (s_sendCounter s) h p frame er]"]) simp_all
qed

lemma faithful_if_control: "\<not> data_frame ev \<Longrightarrow> faithful_frame s ev"
  by (simp add: faithful_frame_def)

lemma emit_failed_stage:
  assumes "window_ok s i k" and "e = SenderSettled \<Longrightarrow> s_settled s"
  shows "at_stage (emit_failed i p e s) (s_pc (emit_failed i p e s))"
  unfolding emit_failed_def
  by (rule stream_ended_stage [OF assms(1)]) (use assms(2) in \<open>auto simp: drained_def wrap_not_settled split: if_splits\<close>)

lemma emit_failed_facts [simp]: "data_of (emit_failed i p e s) = data_of s" "s_trace (emit_failed i p e s) = s_trace s"
  by (simp_all add: emit_failed_def)

lemma cont_failed_facts [simp]: "data_of (cont_failed i k e s) = data_of s" "s_trace (cont_failed i k e s) = s_trace s"
  by (cases k; simp add: cont_failed_def)+

lemma block_failed_facts [simp]: "data_of (block_failed i k e s) = data_of s" "s_trace (block_failed i k e s) = s_trace s"
  by (cases k; simp add: block_failed_def)+

lemma cont_failed_returns: "e \<noteq> SenderSettled \<Longrightarrow> returned (s_pc (cont_failed i k e s))"
  by (cases k) (simp_all add: cont_failed_def emit_failed_def stream_ended_def wrap_not_settled)

lemma block_failed_returns: "e \<noteq> SenderSettled \<Longrightarrow> returned (s_pc (block_failed i k e s))"
  by (simp add: block_failed_def cont_failed_returns)

lemma returned_stage: "returned pc \<Longrightarrow> at_stage s pc"
  by (cases pc) simp_all

lemma steady_source: "steady (s_files s) \<Longrightarrow> i < length (s_files s) \<Longrightarrow>
    int (length (source_bytes s i)) = fm_Size (fs_Meta (s_files s ! i)) \<and> snd (fs_Stream (s_files s ! i) 1) \<noteq> Some SenderSettled"
  by (simp add: steady_def source_bytes_def)

lemma delivering_pieces:
  assumes "delivering s" and pc: "s_pc s = PPieces i feed"
  shows "delivering (run_pieces i feed s)"
proof -
  have f: "in_file s" by (simp add: in_file_def pc)
  obtain i' k where "window_ok s i' k" "expects s i' k (s_pc s)" by (rule in_file_cases [OF assms(1) f])
  then have w: "window_ok s i k" and fa: "feed_at s i k feed" by (simp_all add: pc)
  have wt: "watched (run_pieces i feed s)" by (rule watched_pieces [OF deliveringD(1) [OF assms(1)] pc])
  obtain ps er where feed: "feed = (ps, er)" by fastforce
  have st: "at_stage (run_pieces i feed s) (s_pc (run_pieces i feed s))"
  proof (cases ps)
    case Nil
    have "drained s i k" if "er = None \<or> er = Some SenderSettled"
      using that fa Nil feed w steady_source [of s i] by (auto simp: feed_at_def drained_def window_ok_def)
    with stream_ended_stage [OF w, of er] Nil feed show ?thesis by (simp add: run_pieces_def)
  next
    case (Cons p qs)
    have pa: "piece_at s i k p" and fs: "feed_at s i (Suc k) (qs, er)" using fa feed Cons feed_at_Cons by blast+
    show ?thesis
    proof (cases "int (fp_BlockIdx (snd p)) < s_haveBlocks s")
      case True
      have lt: "int k < held s i" using True pa w by (simp add: piece_at_def window_ok_def)
      then have "max (Suc k) (nat (held s i)) = max k (nat (held s i))" by simp
      then have "window_ok s i (Suc k)" using w unfolding window_ok_def counted_def by fastforce
      with at_stage_moved [of "run_pieces i feed s" s i "Suc k" "PPieces i (qs, er)"] fs True feed Cons show ?thesis
        by (simp add: run_pieces_def)
    next
      case False
      have "held s i \<le> int k" using False pa w by (simp add: piece_at_def window_ok_def)
      with at_stage_moved [of "run_pieces i feed s" s i k "PCapacity i p (qs, er)"] w pa fs False feed Cons show ?thesis
        by (simp add: run_pieces_def)
    qed
  qed
  show ?thesis
    by (rule delivering_moved [OF assms(1) f _ wt, where evs = "[]"])
      (use st in \<open>simp_all add: run_pieces_def split: prod.split list.split\<close>)
qed

lemma nextRetry_data:
  assumes "nextRetryOrWait c s = (n, s')"
  shows "data_of s' = data_of s" "s_trace s' = s_trace s" "s_settled s' = s_settled s" "s_pc s' = s_pc s"
  by (use assms in \<open>cases rule: nextRetry_cases; simp\<close>)+

lemma delivering_capacity:
  assumes "delivering s" and pc: "s_pc s = PCapacity i p feed"
  shows "delivering (run_capacity i p feed s)"
proof -
  have f: "in_file s" by (simp add: in_file_def pc)
  obtain i' k where "window_ok s i' k" "expects s i' k (s_pc s)" by (rule in_file_cases [OF assms(1) f])
  then have w: "window_ok s i k" and ex: "expects s i k (PCapacity i p feed)" by (simp_all add: pc)
  have wt: "watched (run_capacity i p feed s)" by (rule watched_capacity [OF deliveringD(1) [OF assms(1)] pc])
  obtain n s' where n: "nextRetryOrWait True s = (n, s')" by fastforce
  note d = nextRetry_data [OF n]
  have w': "window_ok s' i k" by (rule same_window(1) [OF d(1) _ w]) (simp add: d)
  have "at_stage (run_capacity i p feed s) (s_pc (run_capacity i p feed s))"
  proof (cases n)
    case Wait
    with at_stage_moved [OF d(1) _ w ex] n d pc show ?thesis by (simp add: run_capacity_def)
  next
    case (Stop e)
    then have "s_settled s'" using n d by (auto elim: nextRetry_cases)
    with emit_failed_stage [OF w'] Stop n show ?thesis by (simp add: run_capacity_def)
  next
    case (Retry idx)
    with at_stage_moved [of "s'\<lparr>s_pc := PResend i (KCapacity p feed) idx\<rparr>" s i k "PResend i (KCapacity p feed) idx"] w ex d n
    show ?thesis by (simp add: run_capacity_def)
  next
    case Proceed
    with at_stage_moved [of "s'\<lparr>s_pc := PRegister i p feed\<rparr>" s i k "PRegister i p feed"] w ex d n
    show ?thesis by (simp add: run_capacity_def)
  qed
  with n d show ?thesis
    by (intro delivering_moved [OF assms(1) f _ wt, where evs = "[]"])
      (auto simp: run_capacity_def split: next_step.split)
qed

lemma bytes_before_Suc: "bytes_before s i (Suc k) = bytes_before s i k + int (length (block_of s i k))"
proof -
  have "min (n + m) l = min m l + min n (l - m)" for n m l :: nat by simp
  from this [of "nat (s_blockSize s)" "k * nat (s_blockSize s)"] show ?thesis
    unfolding bytes_before_def block_of_def by (simp only: mult_Suc length_take length_drop min.commute of_nat_add)
qed

lemma in_flight_add:
  assumes "finite (dom (contents s))" and "contents s idx = None"
  shows "(\<Sum>j \<in> dom ((contents s)(idx \<mapsto> bs)). int (length (the (((contents s)(idx \<mapsto> bs)) j))))
     = in_flight_bytes s + int (length bs)"
proof -
  have "idx \<notin> dom (contents s)" using assms(2) by blast
  moreover have "(\<Sum>j \<in> dom (contents s). int (length (the (((contents s)(idx \<mapsto> bs)) j)))) = in_flight_bytes s"
    unfolding in_flight_bytes_def by (rule sum.cong) (use assms(2) in auto)
  ultimately show ?thesis using assms(1) by (simp add: sum.insert)
qed

lemma held_nonneg: "plan_ok s \<Longrightarrow> 0 \<le> held s i"
  by (auto simp: plan_ok_def held_def split: option.split)

lemma delivering_register:
  assumes "delivering s" and pc: "s_pc s = PRegister i p feed"
  shows "delivering (run_register i p feed s)"
proof -
  let ?s = "run_register i p feed s"
  have f: "in_file s" by (simp add: in_file_def pc)
  obtain i' k where "window_ok s i' k" "expects s i' k (s_pc s)" by (rule in_file_cases [OF assms(1) f])
  then have w: "window_ok s i k" and h: "held s i \<le> int k" and pa: "piece_at s i k p" and fa: "feed_at s i (Suc k) feed"
    by (simp_all add: pc)
  have wt: "watched ?s" by (rule watched_register [OF deliveringD(1) [OF assms(1)] pc])
  have sd: "sound s" using deliveringD(1) [OF assms(1)] by (rule watched_sound)
  show ?thesis
  proof (cases "s_settled s")
    case True
    with emit_failed_stage [OF w, of SenderSettled p] wt show ?thesis
      by (intro delivering_moved [OF assms(1) f, where evs = "[]"]) (simp_all add: run_register_def Let_def)
  next
    case False
    have s': "?s = s\<lparr>s_inflight := (s_inflight s)(int k \<mapsto> \<lparr>ib_bytes = block_of s i k, ib_retries = 0, ib_timer = NoTimer\<rparr>),
        s_pc := PSend i (KNew p feed) (int k) (block_of s i k) 0\<rparr>"
      using False pa by (simp add: run_register_def Let_def piece_at_def)
    have plan: "plan_of ?s = plan_of s" by (simp add: plan_of_def s')
    note same = same_plan [OF plan]
    have cs: "contents ?s = (contents s)(int k \<mapsto> block_of s i k)" by (rule ext) (simp add: contents_def s')
    have fin: "finite (dom (contents s))" using sd by (simp add: sound_def contents_def)
    have new: "contents s (int k) = None" using w by (auto simp: window_ok_def) (metis less_irrefl not_None_eq)
    have m: "max k (nat (held s i)) = k" "max (Suc k) (nat (held s i)) = Suc k" using h by auto
    have "counted ?s i (Suc k)" if "counted s i k"
      using that in_flight_add [OF fin new, of "block_of s i k"]
      unfolding counted_def in_flight_bytes_def [of ?s] cs same m bytes_before_Suc by (simp add: s')
    moreover have "idx < int (Suc k)" if "contents s idx = Some bs" for idx bs using w that by (fastforce simp: window_ok_def)
    ultimately have "window_ok ?s i (Suc k)"
      using w h unfolding window_ok_def cs same by (auto simp: s' False split: if_splits)
    moreover have pc': "s_pc ?s = PSend i (KNew p feed) (int k) (block_of s i k) 0" by (simp add: s')
    have "expects ?s i (Suc k) (s_pc ?s)" unfolding pc' using fa h by (simp add: same)
    ultimately have "at_stage ?s (s_pc ?s)" by (rule at_stage_window)
    with wt plan show ?thesis
      by (intro delivering_in_file [OF assms(1) f, where evs = "[]"]) (simp_all add: s')
  qed
qed

lemma resume_cont_stage:
  assumes "window_ok s i k" and "cont_at s i k c" shows "at_stage (resume_cont i c s) (s_pc (resume_cont i c s))"
proof -
  have d: "data_of (resume_cont i c s) = data_of s" "s_settled (resume_cont i c s) = s_settled s" by (simp_all add: resume_cont_def)
  have "expects s i k (s_pc (resume_cont i c s))" using assms(2) by (cases c) (simp_all add: resume_cont_def)
  with at_stage_moved [OF d(1) _ assms(1)] d(2) show ?thesis by simp
qed

lemma delivering_resend:
  assumes "delivering s" and pc: "s_pc s = PResend i c idx"
  shows "delivering (run_resend i c idx s)"
proof -
  have f: "in_file s" by (simp add: in_file_def pc)
  obtain i' k where "window_ok s i' k" "expects s i' k (s_pc s)" by (rule in_file_cases [OF assms(1) f])
  then have w: "window_ok s i k" and c: "cont_at s i k c" by (simp_all add: pc)
  have wt: "watched (run_resend i c idx s)" by (rule watched_resend [OF deliveringD(1) [OF assms(1)] pc])
  show ?thesis
  proof (cases "s_inflight s idx")
    case None
    with resume_cont_stage [OF w c] wt show ?thesis
      by (intro delivering_moved [OF assms(1) f, where evs = "[]"]) (simp_all add: run_resend_def, simp_all add: resume_cont_def)
  next
    case (Some b)
    show ?thesis
    proof (cases "s_maxRetries s \<le> ib_retries b")
      case True
      let ?e = "Transfer (NewTransferError FailRetryExhausted ''block remained unacknowledged'')"
      obtain er s1 where n: "Sender_sendControl (NewFail FailRetryExhausted) s = (er, s1)" by fastforce
      then obtain evs where evs: "data_of s1 = data_of s" "s_trace s1 = s_trace s @ evs"
        "\<And>ev. ev \<in> set evs \<Longrightarrow> \<exists>c frame. ev = SentFrame c (control_header FrameFail)
            (bytes_of_string (json_print (control_json (NewFail FailRetryExhausted)))) frame er"
        unfolding Sender_sendControl_eq by (rule sent_data) (simp add: NewFail_def)
      have "list_all (faithful_frame s) evs"
        using evs(3) by (fastforce simp: list_all_iff control_header_def frame_types intro: faithful_if_control)
      moreover have r: "run_resend i c idx s = cont_failed i c ?e (Sender_fail ?e s1)"
        using Some True n by (simp add: run_resend_def Let_def)
      ultimately show ?thesis
        using wt evs(1,2) unfolding r
        by (intro delivering_moved [OF assms(1) f, where evs = evs]) (simp_all add: cont_failed_returns returned_stage)
    next
      case False
      let ?s = "run_resend i c idx s"
      have s': "?s = s\<lparr>s_inflight := (s_inflight s)(idx \<mapsto> b\<lparr>ib_retries := ib_retries b + 1\<rparr>), s_pc := PSend i c idx (ib_bytes b) 0\<rparr>"
        using Some False by (simp add: run_resend_def)
      have d: "data_of ?s = data_of s" unfolding s' using data_of_block [OF Some] by simp
      have "contents s idx = Some (ib_bytes b)" using Some by (simp add: contents_def)
      with w have "held s i \<le> idx \<and> ib_bytes b = block_of s i (nat idx)" unfolding window_ok_def by blast
      with c have ex: "expects s i k (s_pc ?s)" by (simp add: s')
      have "at_stage ?s (s_pc ?s)" by (rule at_stage_moved [OF d _ w ex]) (simp add: s')
      with wt d show ?thesis by (intro delivering_moved [OF assms(1) f, where evs = "[]"]) (simp_all add: s')
    qed
  qed
qed

lemma delivering_send:
  assumes "delivering s" and pc: "s_pc s = PSend i c idx block off"
  shows "delivering (run_send i c idx block off s)"
proof -
  let ?s = "run_send i c idx block off s"
  have f: "in_file s" by (simp add: in_file_def pc)
  obtain i' k where "window_ok s i' k" "expects s i' k (s_pc s)" by (rule in_file_cases [OF assms(1) f])
  then have w: "window_ok s i k" and c: "cont_at s i k c" and h: "held s i \<le> idx" and b: "block = block_of s i (nat idx)"
    and off: "0 \<le> off" by (simp_all add: pc)
  have wt: "watched s" by (rule deliveringD(1) [OF assms(1)])
  have ws: "watched ?s" by (rule watched_send [OF wt pc])
  have fs: "0 < s_frameSize s" using watched_sound [OF wt] by (simp add: sound_def)
  have act: "s_activeFileIdx s = int i" "i < length (s_files s)" using w by (simp_all add: window_ok_def)
  have nn: "int (nat idx) = idx" using h held_nonneg [OF deliveringD(3) [OF assms(1)], of i] by simp
  show ?thesis
  proof (cases "off < int (length block)")
    case True
    let ?h = "data_header (int i) idx off (s_frameSize s) block" and ?p = "frame_payload off (s_frameSize s) block"
    obtain er s1 where n: "sendFrame ?h ?p s = (er, s1)" by fastforce
    then obtain evs where evs: "data_of s1 = data_of s" "s_trace s1 = s_trace s @ evs" "s_settled s1 = s_settled s"
      "\<And>ev. ev \<in> set evs \<Longrightarrow> \<exists>c frame. ev = SentFrame c ?h ?p frame er"
      by (rule sent_data) blast
    have fair: "list_all (faithful_frame s) evs"
      using evs(4) act(2) h off True nn unfolding list_all_iff faithful_frame_def b by (metis sevent.inject(1))
    show ?thesis
    proof (cases er)
      case None
      have s': "?s = s1\<lparr>s_pc := PSend i c idx block (off + s_frameSize s)\<rparr>" using True n None act by (simp add: run_send_def)
      have d: "data_of ?s = data_of s" by (simp add: s' evs)
      have pc': "s_pc ?s = PSend i c idx block (off + s_frameSize s)" by (simp add: s')
      have ex: "expects s i k (s_pc ?s)" unfolding pc' using c h b off fs by simp
      have "at_stage ?s (s_pc ?s)" by (rule at_stage_moved [OF d _ w ex]) (simp add: s' evs(3))
      with ws d evs(2) fair show ?thesis by (intro delivering_moved [OF assms(1) f, where evs = evs]) (simp_all add: s')
    next
      case (Some e)
      have "e \<noteq> SenderSettled" using sent_watched(3) [OF wt n] Some by simp
      moreover have s': "?s = block_failed i c e s1" using True n Some act by (simp add: run_send_def)
      ultimately show ?thesis
        using ws evs(1,2) fair unfolding s'
        by (intro delivering_moved [OF assms(1) f, where evs = evs]) (simp_all add: block_failed_returns returned_stage)
    qed
  next
    case False
    let ?m = "NewBlockHash (int i) idx (hex_encode (sha256 block))"
    obtain er s1 where n: "Sender_sendControl ?m s = (er, s1)" by fastforce
    then obtain evs where evs: "data_of s1 = data_of s" "s_trace s1 = s_trace s @ evs" "s_settled s1 = s_settled s"
      "\<And>ev. ev \<in> set evs \<Longrightarrow> \<exists>c frame. ev = SentFrame c (control_header FrameBlockHash)
          (bytes_of_string (json_print (control_json ?m))) frame er"
      unfolding Sender_sendControl_eq by (rule sent_data) (simp add: NewBlockHash_def)
    have "faithful_frame s ev" if ev_in: "ev \<in> set evs" for ev
    proof -
      obtain c frame where ev: "ev = SentFrame c (control_header FrameBlockHash) (bytes_of_string (json_print (control_json ?m))) frame er"
        using evs(4) [OF ev_in] by blast
      have "EncodeControl (NewBlockHash (int i) (int (nat idx)) (hex_encode (sha256 (block_of s i (nat idx)))))
          = Inr (bytes_of_string (json_print (control_json ?m)))"
        unfolding nn b [symmetric] by (simp add: EncodeControl_def)
      with act(2) h nn show ?thesis unfolding ev faithful_frame_def by (metis sevent.inject(1))
    qed
    then have fair: "list_all (faithful_frame s) evs" by (simp add: list_all_iff)
    show ?thesis
    proof (cases er)
      case None
      have s': "?s = s1\<lparr>s_pc := PArm i c idx\<rparr>" using False n None act by (simp add: run_send_def)
      have d: "data_of ?s = data_of s" by (simp add: s' evs)
      have ex: "expects s i k (s_pc ?s)" using c by (simp add: s')
      have "at_stage ?s (s_pc ?s)" by (rule at_stage_moved [OF d _ w ex]) (simp add: s' evs(3))
      with ws d evs(2) fair show ?thesis by (intro delivering_moved [OF assms(1) f, where evs = evs]) (simp_all add: s')
    next
      case (Some e)
      have "e \<noteq> SenderSettled" using control_watched(3) [OF wt n] Some by simp
      moreover have s': "?s = block_failed i c e s1" using False n Some act by (simp add: run_send_def)
      ultimately show ?thesis
        using ws evs(1,2) fair unfolding s'
        by (intro delivering_moved [OF assms(1) f, where evs = evs]) (simp_all add: block_failed_returns returned_stage)
    qed
  qed
qed

lemma delivering_arm:
  assumes "delivering s" and pc: "s_pc s = PArm i c idx"
  shows "delivering (run_arm i c idx s)"
proof -
  have f: "in_file s" by (simp add: in_file_def pc)
  obtain i' k where "window_ok s i' k" "expects s i' k (s_pc s)" by (rule in_file_cases [OF assms(1) f])
  then have w: "window_ok s i k" and c: "cont_at s i k c" by (simp_all add: pc)
  have wt: "watched (run_arm i c idx s)" by (rule watched_arm [OF deliveringD(1) [OF assms(1)] pc])
  have d: "data_of (armTimeout idx s) = data_of s" "s_trace (armTimeout idx s) = s_trace s"
    "s_settled (armTimeout idx s) = s_settled s"
    by (auto simp: armTimeout_def split: option.split)
  have "window_ok (armTimeout idx s) i k" "cont_at (armTimeout idx s) i k c"
    by (rule same_window [OF d(1)], simp add: d, fact w, rule same_window [OF d(1)], simp add: d, fact c)
  from resume_cont_stage [OF this] wt d show ?thesis
    by (intro delivering_moved [OF assms(1) f, where evs = "[]"]) (simp_all add: run_arm_def, simp_all add: resume_cont_def)
qed

lemma notify_data [simp]: "data_of (s_notify f ev s) = data_of s" "s_settled (s_notify f ev s) = s_settled s"
  by (cases f ev s rule: s_notify_cases; simp)+

lemma notify_trace:
  assumes "\<not> data_frame ev"
  shows "\<exists>evs. s_trace (s_notify f ev s) = s_trace s @ evs \<and> list_all (faithful_frame t) evs \<and> \<not> list_ex data_frame evs"
  by (cases f ev s rule: s_notify_cases) (use assms in \<open>auto simp: faithful_if_control\<close>)

lemma sizes_before_Suc: "i < length (s_files s) \<Longrightarrow> sizes_before s (Suc i) = sizes_before s i + fm_Size (fs_Meta (s_files s ! i))"
  by (simp add: sizes_before_def take_Suc_conv_app_nth)

lemma bytes_before_all: "0 < s_blockSize s \<Longrightarrow> block_count s i \<le> k \<Longrightarrow> bytes_before s i k = int (length (source_bytes s i))"
proof -
  assume n: "0 < s_blockSize s" and k: "block_count s i \<le> k"
  let ?n = "nat (s_blockSize s)"
  have "(length (source_bytes s i) + ?n - 1) mod ?n < ?n" using n by simp
  then have "length (source_bytes s i) \<le> block_count s i * ?n"
    using div_mult_mod_eq [of "length (source_bytes s i) + ?n - 1" ?n] unfolding block_count_def by linarith
  also have "\<dots> \<le> k * ?n" using k by simp
  finally show ?thesis by (simp add: bytes_before_def)
qed

lemma delivering_drain:
  assumes "delivering s" and pc: "s_pc s = PDrain i"
  shows "delivering (run_drain i s)"
proof -
  have f: "in_file s" by (simp add: in_file_def pc)
  obtain i' k where "window_ok s i' k" "expects s i' k (s_pc s)" by (rule in_file_cases [OF assms(1) f])
  then have w: "window_ok s i k" and dr: "drained s i k" by (simp_all add: pc)
  have wt: "watched (run_drain i s)" by (rule watched_drain [OF deliveringD(1) [OF assms(1)] pc])
  have bs: "0 < s_blockSize s" using watched_sound [OF deliveringD(1) [OF assms(1)]] by (simp add: sound_def)
  obtain n s' where n: "nextRetryOrWait False s = (n, s')" by fastforce
  note d = nextRetry_data [OF n]
  show ?thesis
  proof (cases n)
    case Wait
    have "at_stage s' (PDrain i)" by (rule at_stage_moved [OF d(1) _ w]) (simp_all add: d dr)
    with Wait n wt d pc show ?thesis
      by (intro delivering_moved [OF assms(1) f, where evs = "[]"]) (simp_all add: run_drain_def)
  next
    case (Stop e)
    with n wt d show ?thesis by (intro delivering_moved [OF assms(1) f, where evs = "[]"]) (simp_all add: run_drain_def)
  next
    case (Retry idx)
    have "at_stage (s'\<lparr>s_pc := PResend i KDrain idx\<rparr>) (PResend i KDrain idx)"
      by (rule at_stage_moved [OF _ _ w]) (simp_all add: d dr)
    with Retry n wt d show ?thesis
      by (intro delivering_moved [OF assms(1) f, where evs = "[]"]) (simp_all add: run_drain_def)
  next
    case Proceed
    have p: "\<not> s_settled s \<and> s_inflight s = Map.empty" using n Proceed by (auto elim: nextRetry_cases)
    then have z: "in_flight_bytes s = 0" by (simp add: in_flight_bytes_def contents_def)
    have "s_acknowledged s = sizes_before s (Suc i)" if st: "steady (s_files s)"
    proof -
      have "counted s i k" and i: "i < length (s_files s)" and "k = block_count s i"
        using w dr p st by (simp_all add: window_ok_def drained_def)
      then show ?thesis
        using steady_source [OF st i] bytes_before_all [OF bs, of i "max k (nat (held s i))"] z
        by (simp add: counted_def sizes_before_Suc [OF i])
    qed
    moreover have "Suc i \<le> length (s_files s)" using w by (simp add: window_ok_def)
    ultimately have "at_stage s (PFile (Suc i))" by simp
    then have "at_stage (run_drain i s) (PFile (Suc i))"
      by (rule same_window(4) [rotated 2]) (simp_all add: run_drain_def n Proceed d)
    moreover obtain evs where "s_trace (run_drain i s) = s_trace s @ evs" "list_all (faithful_frame s) evs"
      using notify_trace [of "SFileProgress (int i) (fe_Size (s_entries s' ! i)) (s_acknowledged s')" _ s' s]
      by (fastforce simp: run_drain_def n Proceed d)
    ultimately show ?thesis
      using wt n Proceed d by (intro delivering_moved [OF assms(1) f, where evs = evs]) (simp_all add: run_drain_def)
  qed
qed

text \<open>The bytes of the blocks the receiver holds.\<close>

lemma committed_bytes_before:
  assumes "0 < s_blockSize s" and "0 \<le> h" and "int (length (source_bytes s i)) = fe_Size e"
    and "fe_Blocks e = (if 0 < fe_Size e then go_div (fe_Size e - 1) (s_blockSize s) + 1 else 0)"
  shows "committed_bytes (s_blockSize s) e h = bytes_before s i (nat h)"
proof -
  let ?n = "s_blockSize s" and ?l = "fe_Size e"
  have l: "0 \<le> ?l" using assms(3) by linarith
  have bb: "bytes_before s i (nat h) = min (h * ?n) ?l"
    using assms(1-3) by (simp add: bytes_before_def min_def zle_int [symmetric] del: zle_int)
  show ?thesis
  proof (cases "fe_Blocks e \<le> h")
    case True
    have "?l \<le> h * ?n"
    proof (cases "0 < ?l")
      case True
      then have "(?l - 1) div ?n + 1 \<le> h" using assms(1,4) \<open>fe_Blocks e \<le> h\<close> by (simp add: go_div_nonneg)
      then have "((?l - 1) div ?n + 1) * ?n \<le> h * ?n" using assms(1) by (intro mult_right_mono) simp_all
      moreover have "?l - 1 < ((?l - 1) div ?n + 1) * ?n"
        using pos_mod_bound [OF assms(1), of "?l - 1"] div_mult_mod_eq [of "?l - 1" ?n] by (simp only: distrib_right)
      ultimately show ?thesis by linarith
    qed (use l assms(1,2) in \<open>auto intro: order_trans [of _ 0]\<close>)
    with True bb show ?thesis by (simp add: committed_bytes_def)
  next
    case False
    then have p: "0 < ?l" using assms(2,4) by (simp split: if_splits)
    then have "h \<le> (?l - 1) div ?n" using False assms(1,4) by (simp add: go_div_nonneg)
    then have "h * ?n \<le> (?l - 1) div ?n * ?n" using assms(1) by (intro mult_right_mono) simp_all
    also have "\<dots> \<le> ?l - 1" using pos_mod_sign [OF assms(1), of "?l - 1"] div_mult_mod_eq [of "?l - 1" ?n] by linarith
    finally show ?thesis using False bb by (simp add: committed_bytes_def)
  qed
qed

lemma delivering_file:
  assumes "delivering s" and pc: "s_pc s = PFile i"
  shows "delivering (run_file i s)"
proof -
  note D = deliveringD [OF assms(1)]
  have sd: "sound s" using D(1) by (rule watched_sound)
  have e: "s_inflight s = Map.empty" and bs: "0 < s_blockSize s" using sd pc by (simp_all add: sound_def)
  have cp: "\<not> s_completeSent s" using D(8) pc by auto
  have stg: "i \<le> length (s_files s)" "steady (s_files s) \<Longrightarrow> s_acknowledged s = sizes_before s i"
    using D(4) pc by simp_all
  have wt: "watched (run_file i s)" by (rule watched_ending(4) [OF D(1) pc])
  show ?thesis
  proof (cases "i < length (s_files s)")
    case False
    with stg have "at_stage (run_file i s) (s_pc (run_file i s))"
      by (simp add: run_file_def all_acknowledged_def sizes_before_def)
    with False wt D(6) pc cp show ?thesis
      by (intro delivering_step [OF assms(1), where evs = "[]"]) (simp_all add: run_file_def plan_of_def)
  next
    case True
    obtain feed where feed: "block_feed (nat (s_blockSize s)) (fs_Stream (s_files s ! i) 1) = Some feed"
      using block_feed_total [of "nat (s_blockSize s)"] bs by fastforce
    let ?s = "run_file i s"
    have s': "?s = (begin_send_file i s)\<lparr>s_pc := PPieces i feed\<rparr>" using True feed by (simp add: run_file_def)
    obtain m where m: "manifest_for s m (s_entries s)" using D(5) pc by auto
    have plan: "plan_of ?s = plan_of s" by (simp add: plan_of_def s' begin_send_file_def Let_def)
    note same = same_plan [OF plan]
    have cs: "contents ?s = Map.empty" by (rule ext) (simp add: contents_def s' begin_send_file_def Let_def e)
    have "counted ?s i 0" if st: "steady (s_files s)"
    proof -
      have "s_entries s ! i = entry_of (s_blockSize s) (int i) (s_files s ! i)" using m True by (simp add: manifest_for_def)
      then have "committed_bytes (s_blockSize s) (s_entries s ! i) (held s i) = bytes_before s i (nat (held s i))"
        using steady_source [OF st True] held_nonneg [OF D(3), of i]
        by (intro committed_bytes_before [OF bs]) (simp_all add: entry_of_def)
      with stg(2) [OF st] show ?thesis
        unfolding counted_def in_flight_bytes_def cs same by (simp add: s' begin_send_file_def Let_def held_def)
    qed
    then have w: "window_ok ?s i 0"
      unfolding window_ok_def cs same using True by (simp add: s' begin_send_file_def Let_def held_def)
    have pc': "s_pc ?s = PPieces i feed" by (simp add: s')
    have "expects ?s i 0 (s_pc ?s)" unfolding pc' using block_feed_at [OF bs feed] by (simp add: same)
    with w have "at_stage ?s (s_pc ?s)" by (rule at_stage_window)
    with plan wt D(6) pc cp show ?thesis
      by (intro delivering_step [OF assms(1), where evs = "[]"]) (simp_all add: s' begin_send_file_def Let_def)
  qed
qed

lemma delivering_failed:
  assumes "delivering s" and "plan_of s1 = plan_of s" "s_manifest s1 = s_manifest s" "s_entries s1 = s_entries s"
    "s_resumeReceived s1 = s_resumeReceived s" "s_transferID s1 = s_transferID s" "s_completeSent s1 = s_completeSent s"
    "s_acknowledged s1 = s_acknowledged s" "watched s1" "s_trace s1 = s_trace s @ evs" "\<not> list_ex data_frame evs"
  shows "delivering (fail_return e s1)"
proof -
  have d: "data_of (fail_return e s1) = data_of s1" by simp
  note d' = data_of_eqD [OF d]
  have "list_all (faithful_frame s) evs" using assms(11) by (auto simp: list_all_iff list_ex_iff intro: faithful_if_control)
  moreover have "all_acknowledged (fail_return e s1) = all_acknowledged s"
    using assms(2,8) by (simp add: all_acknowledged_def sizes_before_def d' plan_of_def)
  ultimately show ?thesis
    using assms watched_fail_return [OF assms(9)] deliveringD(9,10) [OF assms(1)]
    by (intro delivering_step [OF assms(1), where evs = evs]) (simp_all add: plan_of_def d')
qed

lemma delivering_start:
  assumes "delivering s" and pc: "s_pc s = PStart" shows "delivering (run_start s)"
proof -
  note D = deliveringD [OF assms(1)]
  have wt: "watched (run_start s)" by (rule watched_start [OF D(1) pc])
  have no: "s_manifest s = None" "s_acknowledged s = 0" "\<not> s_completeSent s" using D(4,8) pc by auto
  show ?thesis
  proof (cases "build_manifest s")
    case (Inl e)
    then show ?thesis using delivering_failed [OF assms(1), of s "[]" e] D(1) by (simp add: run_start_def)
  next
    case (Inr a)
    obtain es m where a: "a = (es, m)" by fastforce
    obtain er s1 where n: "announce_manifest m s = (er, s1)" by fastforce
    then obtain w evs where s1: "s1 = s\<lparr>s_world := w, s_trace := s_trace s @ evs\<rparr>" and evs: "\<not> list_ex data_frame evs"
    proof (cases "so_OnManifest (s_o s)")
      case None
      with n that [where w = "s_world s" and evs = "[]"] show ?thesis by (simp add: announce_manifest_def)
    next
      case (Some f)
      with n that [where w = "snd (f m (s_world s))" and evs = "[SManifestSet m (fst (f m (s_world s)))]"] show ?thesis
        by (auto simp: announce_manifest_def s_call_def s_log_def case_prod_beta)
    qed
    have "delivering (fail_return e s1)" for e
      by (rule delivering_failed [OF assms(1), where evs = evs]) (use D(1) evs in \<open>simp_all add: s1 plan_of_def\<close>)
    moreover have "delivering (register_manifest es m fp s1)" if ws: "watched (register_manifest es m fp s1)" for fp
    proof -
      let ?s = "register_manifest es m fp s1"
      have plan: "plan_of ?s = plan_of s" by (simp add: plan_of_def register_manifest_def s1)
      note same = same_plan [OF plan]
      have "s_resumePlan s = Map.empty" using D(3) no(1) by (auto simp: plan_ok_def)
      then have "plan_ok ?s" by (simp add: plan_ok_def same)
      moreover have "manifest_for ?s m es" using build_manifest_for [of s es m] Inr a by (simp add: same)
      moreover have "list_all (faithful_frame s) evs" using evs by (auto simp: list_all_iff list_ex_iff intro: faithful_if_control)
      ultimately show ?thesis
        using ws D(2,7) evs no by (simp add: delivering_def same) (simp add: register_manifest_def s1)
    qed
    ultimately show ?thesis
      using wt Inr a n by (auto simp: run_start_def split: option.splits sum.splits)
  qed
qed

lemma delivering_ending:
  assumes "delivering s"
  shows "s_pc s = PManifest \<Longrightarrow> delivering (run_manifest s)"
    and "s_pc s = PWaitResume \<Longrightarrow> delivering (run_waitResume s)"
    and "s_pc s = PComplete \<Longrightarrow> delivering (run_complete s)"
    and "s_pc s = PSendComplete \<Longrightarrow> delivering (run_sendComplete s)"
    and "s_pc s = PWaitDone \<Longrightarrow> delivering (run_waitDone s)"
proof -
  note D = deliveringD [OF assms]
  have wd: "watched s" by (fact D(1))
  show "delivering (run_manifest s)" if pc: "s_pc s = PManifest"
  proof (cases "s_manifest s")
    case (Some m)
    have mt: "mf_Type m = FrameManifest" using Some watched_sound [OF wd] by (simp add: sound_def tagged_def)
    obtain er s1 where n: "Sender_sendControl (MManifest m) s = (er, s1)" by fastforce
    then obtain evs where evs: "data_of s1 = data_of s" "s_trace s1 = s_trace s @ evs" "s_settled s1 = s_settled s"
      "\<And>ev. ev \<in> set evs \<Longrightarrow> \<exists>c frame. ev = SentFrame c (control_header FrameManifest)
         (bytes_of_string (json_print (control_json (MManifest m)))) frame er"
      unfolding Sender_sendControl_eq by (rule sent_data) (simp add: mt)
    have nd: "\<not> list_ex data_frame evs" using evs(4) by (fastforce simp: list_ex_iff control_header_def frame_types)
    have wt: "watched (run_manifest s)" by (rule watched_manifest [OF wd pc])
    have w1: "watched s1" by (rule control_watched(1) [OF wd n])
    note d = data_of_eqD [OF evs(1)]
    show ?thesis
    proof (cases er)
      case None
      have s': "run_manifest s = s1\<lparr>s_pc := (if s_transferID s = '''' then PFile 0 else PWaitResume)\<rparr>"
        using Some n None by (simp add: run_manifest_def)
      have "list_all (faithful_frame s) evs" using nd by (auto simp: list_all_iff list_ex_iff intro: faithful_if_control)
      with wt D(4,8) pc nd evs(2) show ?thesis unfolding s'
        by (intro delivering_step [OF assms, where evs = evs]) (auto simp: plan_of_def d sizes_before_def)
    next
      case (Some e)
      with n \<open>s_manifest s = Some m\<close> have "run_manifest s = fail_return e s1" by (simp add: run_manifest_def)
      with nd evs(2) w1 show ?thesis
        using delivering_failed [OF assms, of s1 evs e] by (simp add: plan_of_def d)
    qed
  qed (use assms in \<open>simp add: run_manifest_def\<close>)
  show "delivering (run_waitResume s)" if pc: "s_pc s = PWaitResume"
  proof -
    have wt: "watched (run_waitResume s)" by (rule watched_ending(5) [OF wd pc])
    obtain evs where t: "s_trace (run_waitResume s) = s_trace s @ evs" and f: "list_all (faithful_frame s) evs" "\<not> list_ex data_frame evs"
    proof (cases "s_settled s \<or> \<not> s_resumeReceived s \<or> \<not> 0 < reused_total s")
      case True
      then show ?thesis by (intro that [of "[]"]) (auto simp: run_waitResume_def)
    next
      case False
      with notify_trace [of "SResumedAt (reused_total s)" "map_option (\<lambda>f. f (reused_total s)) (so_OnResume (s_o s))" s s] that
      show ?thesis by (auto simp: run_waitResume_def)
    qed
    have d: "data_of (run_waitResume s) = data_of s" by (simp add: run_waitResume_def)
    have "at_stage s (s_pc (run_waitResume s))" "s_pc (run_waitResume s) \<noteq> PStart"
      using D(4) pc by (auto simp: run_waitResume_def sizes_before_def)
    then have "at_stage (run_waitResume s) (s_pc (run_waitResume s))"
      by (intro same_window(4) [OF d]) (auto simp: run_waitResume_def)
    moreover have "early (s_pc (run_waitResume s)) \<or> returned (s_pc (run_waitResume s)) \<or> s_resumeReceived s"
      using pc by (simp add: run_waitResume_def)
    ultimately show ?thesis
      using wt t f D(8) pc by (intro delivering_step [OF assms, where evs = evs]) (auto simp: plan_of_def data_of_eqD [OF d])
  qed
  show "delivering (run_complete s)" if pc: "s_pc s = PComplete"
    using watched_ending(1) [OF wd pc] D(4,5,6) pc
    by (intro delivering_step [OF assms, where evs = "[]"])
      (auto simp: run_complete_def plan_of_def all_acknowledged_def sizes_before_def)
  show "delivering (run_waitDone s)" if pc: "s_pc s = PWaitDone"
    using watched_ending(3) [OF wd pc] D(4,6,9,10) pc
    by (intro delivering_step [OF assms, where evs = "[]"])
      (auto simp: run_waitDone_def plan_of_def all_acknowledged_def sizes_before_def)
  show "delivering (run_sendComplete s)" if pc: "s_pc s = PSendComplete"
  proof (cases "s_complete s")
    case (Some c)
    have ct: "cpl_Type c = FrameComplete" using Some watched_sound [OF wd] by (simp add: sound_def tagged_def)
    obtain er s1 where n: "Sender_sendControl (MComplete c) s = (er, s1)" by fastforce
    then obtain evs where evs: "data_of s1 = data_of s" "s_trace s1 = s_trace s @ evs" "s_settled s1 = s_settled s"
      "\<And>ev. ev \<in> set evs \<Longrightarrow> \<exists>k frame. ev = SentFrame k (control_header FrameComplete)
         (bytes_of_string (json_print (control_json (MComplete c)))) frame er"
      unfolding Sender_sendControl_eq by (rule sent_data) (simp add: ct)
    have nd: "\<not> list_ex data_frame evs" using evs(4) by (fastforce simp: list_ex_iff control_header_def frame_types)
    have wt: "watched (run_sendComplete s)" by (rule watched_ending(2) [OF wd pc])
    have w1: "watched s1" by (rule control_watched(1) [OF wd n])
    note d = data_of_eqD [OF evs(1)]
    have aa: "all_acknowledged s1" using D(4) pc d by (simp add: all_acknowledged_def sizes_before_def)
    show ?thesis
    proof (cases er)
      case None
      have s': "run_sendComplete s = s1\<lparr>s_pc := PWaitDone\<rparr>" using Some n None by (simp add: run_sendComplete_def)
      have "list_all (faithful_frame s) evs" using nd by (auto simp: list_all_iff list_ex_iff intro: faithful_if_control)
      with wt D(6,10) pc nd evs(2) aa show ?thesis unfolding s'
        by (intro delivering_step [OF assms, where evs = evs]) (auto simp: plan_of_def d all_acknowledged_def sizes_before_def)
    next
      case (Some e)
      with n \<open>s_complete s = Some c\<close> have "run_sendComplete s = fail_return e s1" by (simp add: run_sendComplete_def)
      with nd evs(2) w1 show ?thesis
        using delivering_failed [OF assms, of s1 evs e] by (simp add: plan_of_def d)
    qed
  qed (use assms in \<open>simp add: run_sendComplete_def\<close>)
qed

lemma delivering_run: "delivering s \<Longrightarrow> delivering (run_step s)"
  unfolding run_step_def
  by (cases "s_pc s") (simp_all add: delivering_start delivering_ending delivering_file delivering_pieces
      delivering_capacity delivering_register delivering_resend delivering_send delivering_arm delivering_drain)

interpretation delivering_sender: sender_invariant delivering
proof unfold_locales
  show "delivering s \<Longrightarrow> tagged s" for s :: "'a Sender" using deliveringD(1) watched_sound by (auto simp: sound_def)
  show "delivering s \<Longrightarrow> \<not> data_frame ev \<Longrightarrow> delivering (s\<lparr>s_sendCounter := c, s_world := w, s_trace := s_trace s @ [ev]\<rparr>)"
    for s :: "'a Sender" and ev c w
    by (rule delivering_same [of s, where evs = "[ev]"]) (simp_all add: deliveringD(1))
  show "delivering s \<Longrightarrow> delivering (s\<lparr>s_recvCounter := c\<rparr>)" for s :: "'a Sender" and c
    by (rule delivering_same [of s, where evs = "[]"]) (simp_all add: deliveringD(1))
  show "delivering s \<Longrightarrow> \<not> s_settled s \<Longrightarrow> delivering (clearTimersLocked (s\<lparr>s_settled := True, s_err := Some e\<rparr>))"
    for s :: "'a Sender" and e
    by (rule delivering_same [of s, where evs = "[]"]) (simp_all add: watched_sender.failed deliveringD(1))
  show "delivering s \<Longrightarrow> \<not> s_settled s \<Longrightarrow> s_completeSent s \<Longrightarrow> delivering (clearTimersLocked (s\<lparr>s_settled := True\<rparr>))"
    for s :: "'a Sender"
    by (rule delivering_same [of s, where evs = "[]"]) (simp_all add: watched_sender.finished deliveringD(1))
  show "delivering s \<Longrightarrow> (\<And>c. c \<in> set cs \<Longrightarrow> cpl_Type c = FrameComplete) \<Longrightarrow> delivering (s\<lparr>s_resending := cs\<rparr>)"
    for s :: "'a Sender" and cs
    by (rule delivering_same [of s, where evs = "[]"]) (simp_all add: watched_sender.resending deliveringD(1))
  show "delivering s \<Longrightarrow> delivering (queueRetry idx s)" "delivering s \<Longrightarrow> delivering (timer_fires idx s)"
    "delivering s \<Longrightarrow> \<not> s_settled s \<Longrightarrow> delivering (requeue_block s idx)"
    "delivering s \<Longrightarrow> \<not> s_settled s \<Longrightarrow> s_paused s \<noteq> p \<Longrightarrow> delivering (pausing p s)" for s :: "'a Sender" and idx p
    by (rule delivering_same [of s, where evs = "[]"];
        simp add: watched_queueRetry watched_timer watched_requeue watched_pausing deliveringD(1))+
qed (simp_all add: delivering_acked delivering_planned delivering_run)

lemma delivering_NewSender: "foreign_errors opts \<Longrightarrow> delivering (NewSender opts w)"
  using watched_run_all [of opts w "[]"]
  by (simp add: delivering_def sender_run_def plan_ok_def) (simp add: NewSender_def Let_def)

lemma delivering_run_all: "foreign_errors opts \<Longrightarrow> delivering (sender_run opts w evs)"
  unfolding sender_run_def by (rule delivering_sender.inv_run) (rule delivering_NewSender)

end
