(* ===== verification/SenderProps.thy ===== *)
theory SenderProps
  imports SenderData ReceiverProps
begin

text \<open>
  The properties of the sender, and a concrete send for their witnesses.
\<close>

section \<open>The first attempt of a send, and one of an empty file\<close>

lemma sendControl_sealed:
  assumes "sealed_control (so_SendDir (s_o s)) (s_sendCounter s) msg = Inr frame"
  shows "Sender_sendControl msg s = s_call (so_Send (s_o s) frame)
     (SentFrame (s_sendCounter s) (control_header (FrameType msg)) (bytes_of_string (json_print (control_json msg))) frame)
     (s\<lparr>s_sendCounter := s_sendCounter s + 1\<rparr>)"
  using assms by (simp add: Sender_sendControl_eq sendFrame_def sealed_control_def EncodeControl_def split: sum.splits)

text \<open>A transport that keeps what it is given.\<close>

definition out_options :: "FileSource list \<Rightarrow> string \<Rightarrow> bytes list SenderOptions" where
  "out_options files transferID = \<lparr>so_File = None, so_Files = files, so_Send = (\<lambda>frame w. (None, w @ [frame])),
     so_SendDir = example_key, so_RecvDir = example_key, so_SendCounterStart = 0, so_RecvCounterStart = 0,
     so_TransferID = transferID, so_NewTransferID = None, so_BlockSize = 4, so_FrameSize = 2, so_Window = 1, so_AckTimeout = 0,
     so_MaxRetries = 0, so_DoneTimeout = 0, so_CompleteInterval = 0, so_OnProgress = None, so_OnFileProgress = None,
     so_OnResume = None, so_OnStateChange = None, so_OnManifest = None\<rparr>"

definition empty_source :: FileSource where
  "empty_source = \<lparr>fs_Meta = \<lparr>fm_Name = ''a'', fm_Size = 0, fm_Mime = '''', fm_LastModified = 0\<rparr>,
     fs_Stream = (\<lambda>_. ([], None))\<rparr>"

lemma out_foreign: "foreign_errors (out_options files t)"
  by (simp add: foreign_errors_def out_options_def)

lemma empty_steady: "steady (sender_files (out_options [empty_source] t))"
  by (simp add: steady_def empty_source_def sender_files_def out_options_def)

lemma NewSender_out:
  "s_files (NewSender (out_options fs t) w) = fs" "s_blockSize (NewSender (out_options fs t) w) = 4"
  "s_transferID (NewSender (out_options fs t) w) = t" "so_File (s_o (NewSender (out_options fs t) w)) = None"
  "so_OnManifest (s_o (NewSender (out_options fs t) w)) = None"
  by (simp_all add: NewSender_def out_options_def Let_def sender_files_def or_default_def split: list.split)

lemma build_empty: "build_manifest (NewSender (out_options [empty_source] '''') w) = Inr ([empty_file], empty_manifest)"
proof -
  have "ValidateManifest ((NewManifest [empty_file] 0)\<lparr>mf_TransferID := ''''\<rparr>) = Inr empty_manifest"
    using ValidateManifest_ok [OF empty_manifest_ok] by (simp add: empty_manifest_def NewManifest_def)
  moreover have "hash_files 4 0 0 [empty_source] = Inr ([empty_file], 0)"
    by (simp add: empty_source_def empty_file_def empty_file_digest s64_def max_int64_def)
  ultimately show ?thesis by (simp add: build_manifest_def NewSender_out)
qed

lemma sender_run_config: "s_files (sender_run opts w evs) = sender_files opts"
  "s_window (sender_run opts w evs) = or_default (so_Window opts) (int DefaultInflightBlocks)"
  "s_frameSize (sender_run opts w evs) = or_default (so_FrameSize opts) DefaultFrameBytes"
proof -
  have "static (sender_run opts w evs) = static (NewSender opts w)"
    using sender_run_evolves [of opts w evs] by (simp add: s_evolves_def)
  moreover have "s_files (NewSender opts w) = sender_files opts"
    "s_window (NewSender opts w) = or_default (so_Window opts) (int DefaultInflightBlocks)"
    "s_frameSize (NewSender opts w) = or_default (so_FrameSize opts) DefaultFrameBytes"
    by (simp_all add: NewSender_def Let_def sender_files_def split: list.split option.split)
  ultimately show "s_files (sender_run opts w evs) = sender_files opts"
    "s_window (sender_run opts w evs) = or_default (so_Window opts) (int DefaultInflightBlocks)"
    "s_frameSize (sender_run opts w evs) = or_default (so_FrameSize opts) DefaultFrameBytes"
    by (simp_all add: static_def)
qed

definition sent_empty :: "string \<Rightarrow> bytes list \<Rightarrow> sevent list \<Rightarrow> 64 word \<Rightarrow> pc \<Rightarrow> bytes list Sender" where
  "sent_empty fp out tr c pc = (NewSender (out_options [empty_source] '''') [])\<lparr>s_entries := [empty_file],
     s_transferDigest := fe_FileDigest empty_file, s_manifest := Some empty_manifest, s_manifestFingerprint := fp,
     s_manifestSent := True, s_sendCounter := c, s_world := out, s_trace := tr, s_pc := pc\<rparr>"

lemma CompletionDigest_empty: "CompletionDigest (mf_Files empty_manifest) = fe_FileDigest empty_file"
  by (simp add: CompletionDigest_def empty_manifest_def NewManifest_def)

lemmas sender_evaluation = sent_empty_def NewSender_def Let_def out_options_def sender_files_def or_default_def
  nonzero_or_def s_call_def s_log_def s_notify_def

lemma empty_step1:
  assumes "ManifestFingerprint empty_manifest = Inr fp"
  shows "run_step (NewSender (out_options [empty_source] '''') []) = sent_empty fp [] [] 0 PManifest"
proof -
  let ?s = "NewSender (out_options [empty_source] '''') []"
  have "run_step ?s = register_manifest [empty_file] empty_manifest fp ?s"
    by (simp add: run_step_def run_start_def build_empty announce_manifest_def NewSender_out assms)
  then show ?thesis
    by (simp add: register_manifest_def CompletionDigest_empty sent_empty_def) (simp add: sender_evaluation)
qed

lemma empty_step2:
  assumes "sealed_control example_key 0 (MManifest empty_manifest) = Inr frame"
  shows "\<exists>ev. run_step (sent_empty fp [] [] 0 PManifest) = sent_empty fp [frame] [ev] 1 (PFile 0) \<and> is_frame ev"
proof -
  let ?s = "sent_empty fp [] [] 0 PManifest"
  have "sealed_control (so_SendDir (s_o ?s)) (s_sendCounter ?s) (MManifest empty_manifest) = Inr frame"
    using assms by (simp add: sender_evaluation)
  from sendControl_sealed [OF this] show ?thesis
    by (simp add: run_step_def run_manifest_def sender_evaluation)
qed

lemma empty_feed: "block_feed 4 ([], None) = Some ([], None)"
proof -
  have "full_frames 4 4 0 (concat []) = ([], 0, [])" by (simp add: full_frames.simps frame_room_def)
  from block_feed_spec [OF _ this, of None] show ?thesis by (simp add: last_piece_def)
qed

lemma empty_steps:
  "run_step (sent_empty fp out tr c (PFile 0)) = (sent_empty fp out tr c (PPieces 0 ([], None)))\<lparr>s_activeFileIdx := 0\<rparr>"
  "run_step ((sent_empty fp out tr c (PPieces 0 ([], None)))\<lparr>s_activeFileIdx := 0\<rparr>)
     = (sent_empty fp out tr c (PDrain 0))\<lparr>s_activeFileIdx := 0\<rparr>"
  "run_step ((sent_empty fp out tr c (PDrain 0))\<lparr>s_activeFileIdx := 0\<rparr>)
     = (sent_empty fp out tr c (PFile (Suc 0)))\<lparr>s_activeFileIdx := 0\<rparr>"
  "run_step ((sent_empty fp out tr c (PFile (Suc 0)))\<lparr>s_activeFileIdx := 0\<rparr>)
     = (sent_empty fp out tr c PComplete)\<lparr>s_activeFileIdx := 0\<rparr>"
  "run_step ((sent_empty fp out tr c PComplete)\<lparr>s_activeFileIdx := 0\<rparr>)
     = (sent_empty fp out tr c PSendComplete)\<lparr>s_activeFileIdx := 0, s_completeSent := True,
         s_complete := Some (NewComplete (fe_FileDigest empty_file))\<rparr>"
proof -
  show "run_step (sent_empty fp out tr c (PFile 0)) = (sent_empty fp out tr c (PPieces 0 ([], None)))\<lparr>s_activeFileIdx := 0\<rparr>"
    by (simp add: run_step_def run_file_def begin_send_file_def sender_evaluation empty_source_def empty_feed committed_bytes_def
        empty_file_def)
qed (simp_all add: run_step_def run_pieces_def stream_ended_def run_drain_def nextRetryOrWait_def run_file_def
    run_complete_def sender_evaluation)

text \<open>The sender that waits for Done.\<close>

definition empty_waiting :: "string \<Rightarrow> bytes list \<Rightarrow> sevent list \<Rightarrow> bytes list Sender" where
  "empty_waiting fp out tr = (sent_empty fp out tr 2 PWaitDone)\<lparr>s_activeFileIdx := 0, s_completeSent := True,
     s_complete := Some (NewComplete (fe_FileDigest empty_file))\<rparr>"

lemma empty_step8:
  assumes "sealed_control example_key 1 empty_complete = Inr frame"
  shows "\<exists>tr'. run_step ((sent_empty fp out tr 1 PSendComplete)\<lparr>s_activeFileIdx := 0, s_completeSent := True,
         s_complete := Some (NewComplete (fe_FileDigest empty_file))\<rparr>) = empty_waiting fp (out @ [frame]) (tr @ [tr'])
    \<and> is_frame tr'"
proof -
  let ?s = "(sent_empty fp out tr 1 PSendComplete)\<lparr>s_activeFileIdx := 0, s_completeSent := True,
         s_complete := Some (NewComplete (fe_FileDigest empty_file))\<rparr>"
  have "sealed_control (so_SendDir (s_o ?s)) (s_sendCounter ?s) (MComplete (NewComplete (fe_FileDigest empty_file))) = Inr frame"
    using assms by (simp add: sender_evaluation empty_complete_def)
  from sendControl_sealed [OF this] show ?thesis
    by (simp add: run_step_def run_sendComplete_def empty_waiting_def sender_evaluation)
qed

lemma empty_send_waits:
  obtains evs fp out tr where "sender_run (out_options [empty_source] '''') [] evs = empty_waiting fp out tr"
    and "length (frame_counters tr) = 2"
proof -
  obtain fp where fp: "ManifestFingerprint empty_manifest = Inr fp"
    using ManifestFingerprint_validated [OF ValidateManifest_ok [OF empty_manifest_ok]] by blast
  obtain a where a: "sealed_control example_key 0 (MManifest empty_manifest) = Inr a"
    using sealed_control_ok [OF empty_manifest_length example_key_length] by blast
  obtain b where b: "sealed_control example_key 1 empty_complete = Inr b"
    using sealed_control_ok [OF complete_length example_key_length] by (auto simp: empty_complete_def empty_file_def)
  obtain t0 where t0: "run_step (sent_empty fp [] [] 0 PManifest) = sent_empty fp [a] [t0] 1 (PFile 0)" "is_frame t0"
    using empty_step2 [OF a] by blast
  obtain t where t: "run_step ((sent_empty fp [a] [t0] 1 PSendComplete)\<lparr>s_activeFileIdx := 0, s_completeSent := True,
         s_complete := Some (NewComplete (fe_FileDigest empty_file))\<rparr>) = empty_waiting fp ([a] @ [b]) ([t0] @ [t])" "is_frame t"
    using empty_step8 [OF b] by blast
  have "sender_run (out_options [empty_source] '''') [] (replicate 8 SRun) = empty_waiting fp ([a] @ [b]) ([t0] @ [t])"
    by (simp add: sender_run_def numeral_eq_Suc empty_step1 [OF fp] t0(1) empty_steps t(1) [simplified])
  moreover have "length (frame_counters ([t0] @ [t])) = 2" using t0(2) t(2) by (cases t0; cases t) simp_all
  ultimately show ?thesis by (rule that)
qed

lemma empty_send_returns:
  obtains evs s where "sender_run (out_options [empty_source] '''') [] evs = s"
    and "s_pc s = PReturned (Inr (fe_FileDigest empty_file))" and "s_completeSent s" and "s_settled s"
proof -
  obtain evs fp out tr where w: "sender_run (out_options [empty_source] '''') [] evs = empty_waiting fp out tr"
    by (rule empty_send_waits)
  obtain d where d: "sealed_control example_key 0 NewDone = Inr d"
    using sealed_control_ok [OF done_length example_key_length] by blast
  let ?p = "bytes_of_string (json_print (control_json NewDone))"
  have dec: "DecodeControl ?p = Inr NewDone" by (rule control_codec.dec_enc) (simp add: NewDone_def)
  have "Seal example_key 0 (control_header FrameDone) ?p = Inr d"
    using d by (simp add: sealed_control_def EncodeControl_def NewDone_def)
  from OpenSequenced_Seal [OF this, of 0]
  have op: "OpenSequenced example_key 0 d = Inr \<lparr>opened_Counter = 0, opened_Header = sealed_header (control_header FrameDone) (length ?p),
      opened_Plaintext = ?p\<rparr>" by simp
  have "Sender_Handle d (empty_waiting fp out tr) = (empty_waiting fp out tr)\<lparr>s_recvCounter := 1, s_settled := True\<rparr>"
    using dec op
    by (simp add: Sender_Handle_def empty_waiting_def sender_evaluation sealed_header_def control_header_def NewDone_def
        on_message_def Sender_settle_def clearTimersLocked_def)
  then have "sender_run (out_options [empty_source] '''') [] (evs @ [SHandle d, SRun])
      = run_step ((empty_waiting fp out tr)\<lparr>s_recvCounter := 1, s_settled := True\<rparr>)"
    using w by (simp add: sender_run_def)
  then show ?thesis
    by (rule that) (simp_all add: run_step_def run_waitDone_def empty_waiting_def sender_evaluation)
qed

section \<open>A block on its way\<close>

definition one_source :: FileSource where
  "one_source = \<lparr>fs_Meta = \<lparr>fm_Name = ''a'', fm_Size = 1, fm_Mime = '''', fm_LastModified = 0\<rparr>,
     fs_Stream = (\<lambda>_. ([[7]], None))\<rparr>"

definition one_file :: FileEntry where
  "one_file = \<lparr>fe_Idx = 0, fe_Name = ''a'', fe_Size = 1, fe_Mime = '''', fe_LastModified = 0,
     fe_BlockSize = 4, fe_Blocks = 1, fe_FileDigest = hex_encode (sha256 [7])\<rparr>"

definition one_manifest :: Manifest where
  "one_manifest = NewManifest [one_file] 1"

lemma one_manifest_ok: "manifest_ok one_manifest"
  by (simp add: manifest_ok_def one_manifest_def NewManifest_def one_file_def file_ok_def sizes_def
      wantBlocks_def go_div_def MaxTransferFiles_def MaxManifestBlockBytes_def max_int64_def path_evaluation)

lemma one_manifest_length: "length (json_print (control_json (MManifest one_manifest))) \<le> u16Max"
proof -
  let ?q = "json_quote (hex_encode (sha256 [7]))"
  let ?f = "\<lparr>fe_Idx = 0, fe_Name = ''a'', fe_Size = 1, fe_Mime = '''', fe_LastModified = 0,
     fe_BlockSize = 4, fe_Blocks = 1, fe_FileDigest = ''''\<rparr>"
  have "length (json_print (control_json (MManifest (NewManifest [?f] 1)))) \<le> 200" by code_simp
  moreover have "length ?q \<le> 800" using json_quote_length [of "hex_encode (sha256 [7])"] by simp
  moreover have "length (json_print (control_json (MManifest one_manifest)))
    \<le> length (json_print (control_json (MManifest (NewManifest [?f] 1)))) + length ?q"
    by (simp add: one_manifest_def NewManifest_def one_file_def file_json_def omitempty_def)
  ultimately show ?thesis by (simp add: u16Max_def)
qed

lemma build_one: "build_manifest (NewSender (out_options [one_source] '''') w) = Inr ([one_file], one_manifest)"
proof -
  have "ValidateManifest ((NewManifest [one_file] 1)\<lparr>mf_TransferID := ''''\<rparr>) = Inr one_manifest"
    using ValidateManifest_ok [OF one_manifest_ok] by (simp add: one_manifest_def NewManifest_def)
  moreover have "hash_files 4 0 0 [one_source] = Inr ([one_file], 1)"
    using sha.hex_feed_all [of "[[7]]"] by (simp add: one_source_def one_file_def s64_def max_int64_def go_div_def)
  ultimately show ?thesis by (simp add: build_manifest_def NewSender_out)
qed

lemma one_feed: "block_feed 4 ([[7]], None) = Some ([(False, \<lparr>fp_BlockIdx = 0, fp_FrameOff = 0, fp_Payload = [7], fp_LastInBlock = True\<rparr>)], None)"
proof -
  have "full_frames 4 4 0 (concat [[7]]) = ([], 0, [7])" by (simp add: full_frames.simps frame_room_def)
  from block_feed_spec [OF _ this, of None] show ?thesis by (simp add: last_piece_def)
qed

lemma data_frame_sealed: "\<exists>frame. Seal example_key c h [7] = Inr frame"
  using example_key_length by (auto simp: Seal_eq gcmFor_def Let_def u16Max_def)

lemma one_run:
  obtains c frame where "SentFrame c (data_header 0 0 0 2 [7]) [7] frame None
     \<in> set (s_trace (sender_run (out_options [one_source] '''') [] (replicate 7 SRun)))"
proof -
  obtain fp where fp: "ManifestFingerprint one_manifest = Inr fp"
    using ManifestFingerprint_validated [OF ValidateManifest_ok [OF one_manifest_ok]] by blast
  obtain a where a: "sealed_control example_key 0 (MManifest one_manifest) = Inr a"
    using sealed_control_ok [OF one_manifest_length example_key_length] by blast
  obtain b where b: "Seal example_key 1 (data_header 0 0 0 2 [7]) [7] = Inr b" using data_frame_sealed by blast
  let ?s0 = "NewSender (out_options [one_source] '''') []"
  let ?p = "(False, \<lparr>fp_BlockIdx = 0, fp_FrameOff = 0, fp_Payload = [7], fp_LastInBlock = True\<rparr>)"
  let ?k = "KNew ?p ([], None)"
  define s1 where "s1 = register_manifest [one_file] one_manifest fp ?s0"
  have 1: "run_step ?s0 = s1"
    by (simp add: run_step_def run_start_def build_one announce_manifest_def NewSender_out fp s1_def)
  have "sealed_control (so_SendDir (s_o s1)) (s_sendCounter s1) (MManifest one_manifest) = Inr a"
    using a by (simp add: s1_def register_manifest_def sender_evaluation)
  from sendControl_sealed [OF this] obtain ev where
    2: "run_step s1 = s1\<lparr>s_sendCounter := 1, s_world := [a], s_trace := [ev], s_pc := PFile 0\<rparr>"
    by (simp add: run_step_def run_manifest_def s1_def register_manifest_def sender_evaluation)
  define s2 where "s2 = s1\<lparr>s_sendCounter := 1, s_world := [a], s_trace := [ev], s_activeFileIdx := 0\<rparr>"
  have 3: "run_step (s1\<lparr>s_sendCounter := 1, s_world := [a], s_trace := [ev], s_pc := PFile 0\<rparr>)
      = s2\<lparr>s_pc := PPieces 0 ([?p], None)\<rparr>"
    by (simp add: run_step_def run_file_def begin_send_file_def s2_def s1_def register_manifest_def sender_evaluation
        one_source_def one_feed committed_bytes_def one_file_def)
  have 4: "run_step (s2\<lparr>s_pc := PPieces 0 ([?p], None)\<rparr>) = s2\<lparr>s_pc := PCapacity 0 ?p ([], None)\<rparr>"
    by (simp add: run_step_def run_pieces_def s2_def s1_def register_manifest_def sender_evaluation)
  have 5: "run_step (s2\<lparr>s_pc := PCapacity 0 ?p ([], None)\<rparr>) = s2\<lparr>s_pc := PRegister 0 ?p ([], None)\<rparr>"
    by (simp add: run_step_def run_capacity_def nextRetryOrWait_def s2_def s1_def register_manifest_def sender_evaluation)
  define s3 where "s3 = s2\<lparr>s_inflight := [0 \<mapsto> \<lparr>ib_bytes = [7], ib_retries = 0, ib_timer = NoTimer\<rparr>]\<rparr>"
  have 6: "run_step (s2\<lparr>s_pc := PRegister 0 ?p ([], None)\<rparr>) = s3\<lparr>s_pc := PSend 0 ?k 0 [7] 0\<rparr>"
    by (simp add: run_step_def run_register_def s3_def s2_def s1_def register_manifest_def sender_evaluation)
  have "s_trace (run_step (s3\<lparr>s_pc := PSend 0 ?k 0 [7] 0\<rparr>)) = [ev, SentFrame 1 (data_header 0 0 0 2 [7]) [7] b None]"
    using b by (simp add: run_step_def run_send_def sendFrame_def frame_payload_def s3_def s2_def s1_def register_manifest_def
        sender_evaluation)
  then have "SentFrame 1 (data_header 0 0 0 2 [7]) [7] b None
     \<in> set (s_trace (sender_run (out_options [one_source] '''') [] (replicate 7 SRun)))"
    by (simp add: sender_run_def numeral_eq_Suc 1 2 3 4 5 6 [simplified])
  then show ?thesis by (rule that)
qed

section \<open>Properties of every run\<close>





text \<open>C17: memory and retries stay bounded under every interleaving: the sender never holds more
  unacknowledged blocks than its window, never retries a block more often than configured between two
  path changes, and keeps no timer running while it is paused or settled.\<close>

theorem sender_bounds:
  assumes "s = sender_run opts w evs"
  shows "int (card (dom (s_inflight s))) \<le> s_window s \<and> 0 < s_window s
    \<and> (\<forall>idx b. s_inflight s idx = Some b \<longrightarrow> 0 \<le> ib_retries b \<and> ib_retries b \<le> s_maxRetries s
         \<and> (ib_timer b = Armed \<longrightarrow> \<not> s_settled s \<and> \<not> s_paused s))"
  using sound_run_all [of opts w evs] unfolding assms sound_def block_bounds_def by (auto dest: ranI)

theorem sender_bounds_witness:
  "int (card (dom (s_inflight (sender_run (out_options [empty_source] '''') [] [SRun, SPause])))) \<le> 1"
  using sender_bounds [OF refl, of "out_options [empty_source] ''''" "[]" "[SRun, SPause]"]
  by (simp add: sender_run_config out_options_def or_default_def)

text \<open>when Run returns the sender has settled; and it returns the transfer digest, which is the
  completion digest of the validated manifest, only without an error and after the completion message,
  since a Done that arrives earlier fails the transfer.\<close>

theorem sender_run_outcome:
  assumes "foreign_errors opts" and "s = sender_run opts w evs" and "s_pc s = PReturned r"
  shows "s_settled s \<and> (case r of Inl e \<Rightarrow> True
    | Inr d \<Rightarrow> s_err s = None \<and> s_completeSent s
        \<and> (\<exists>m. s_manifest s = Some m \<and> ValidateManifest m = Inr m \<and> d = CompletionDigest (mf_Files m)))"
proof -
  have sd: "sound s" unfolding assms(2) by (rule sound_run_all)
  show ?thesis
  proof (cases r)
    case (Inr d)
    with sd assms(3) have d: "s_settled s" "s_err s = None" "s_completeSent s" "d = s_transferDigest s"
      by (auto simp: sound_def)
    moreover obtain m where m: "s_manifest s = Some m" "manifest_ok m"
      using deliveringD(10) [OF delivering_run_all [OF assms(1), of w evs]] d(3) sd
      unfolding assms(2) by (auto simp: sound_def tagged_def)
    moreover have "d = CompletionDigest (mf_Files m)" using sd m(1) d(4) by (simp add: sound_def tagged_def)
    ultimately show ?thesis using Inr ValidateManifest_ok [OF m(2)] by simp
  qed (use sd assms(3) in \<open>simp add: sound_def\<close>)
qed

theorem sender_run_outcome_witness:
  "\<exists>evs. s_pc (sender_run (out_options [empty_source] '''') [] evs) = PReturned (Inr (hex_encode (sha256 [])))
     \<and> s_settled (sender_run (out_options [empty_source] '''') [] evs)
     \<and> s_err (sender_run (out_options [empty_source] '''') [] evs) = None"
proof -
  obtain evs s where s: "sender_run (out_options [empty_source] '''') [] evs = s"
    and pc: "s_pc s = PReturned (Inr (fe_FileDigest empty_file))" by (rule empty_send_returns)
  from sender_run_outcome [OF out_foreign s [symmetric] pc] s pc show ?thesis by (auto simp: empty_file_def)
qed



text \<open>C24: the sender never seals two frames under one nonce: the counters of all frames it hands to the
  transport, data, control and retransmissions, in whatever interleaving, run consecutively from the
  configured start, and every frame is the sealing of its payload under its own counter.\<close>

theorem sender_nonces_unique:
  assumes "tr = s_trace (sender_run opts w evs)"
  shows "consecutive (so_SendCounterStart opts) (frame_counters tr)
    \<and> (length (frame_counters tr) \<le> 2 ^ 64 \<longrightarrow>
         distinct (map (nonce (dk_Salt (so_SendDir opts))) (frame_counters tr)))
    \<and> (\<forall>c h p frame er. SentFrame c h p frame er \<in> set tr \<longrightarrow> Seal (so_SendDir opts) c h p = Inr frame)"
proof -
  let ?s = "NewSender opts w"
  have s: "so_SendDir (s_o ?s) = so_SendDir opts" "s_trace ?s = []" "s_sendCounter ?s = so_SendCounterStart opts"
    by (simp_all add: NewSender_def Let_def)
  from sender_run_evolves [of opts w evs]
  have c: "consecutive (so_SendCounterStart opts) (frame_counters tr)" and f: "list_all (frame_sealed (so_SendDir opts)) tr"
    unfolding s_evolves_def assms using s by auto
  have "inj_on (nonce (dk_Salt (so_SendDir opts))) (set (frame_counters tr))"
    by (rule inj_onI) (simp add: nonce_inject)
  with consecutive_distinct [OF c]
  have "length (frame_counters tr) \<le> 2 ^ 64 \<longrightarrow> distinct (map (nonce (dk_Salt (so_SendDir opts))) (frame_counters tr))"
    by (simp add: distinct_map)
  with c f show ?thesis by (auto simp: list_all_iff)
qed

theorem sender_nonces_unique_witness:
  "\<exists>evs. length (frame_counters (s_trace (sender_run (out_options [empty_source] '''') [] evs))) = 2
     \<and> distinct (map (nonce (dk_Salt example_key)) (frame_counters (s_trace (sender_run (out_options [empty_source] '''') [] evs))))"
proof -
  obtain evs fp out tr where w: "sender_run (out_options [empty_source] '''') [] evs = empty_waiting fp out tr"
    and l: "length (frame_counters tr) = 2" by (rule empty_send_waits)
  have t: "s_trace (empty_waiting fp out tr) = tr" by (simp add: empty_waiting_def sent_empty_def)
  from sender_nonces_unique [OF refl, of "out_options [empty_source] ''''" "[]" evs] w l t show ?thesis
    by (intro exI [of _ evs]) (simp add: out_options_def)
qed

text \<open>a settled sender is final: whatever happens afterwards, it stays settled and keeps its error or
  its success.\<close>

theorem sender_settled_final:
  assumes "s = sender_run opts w evs" and "s_settled s" and "s' = sender_run opts w (evs @ later)"
  shows "s_settled s' \<and> s_err s' = s_err s"
proof -
  have "s_evolves s s'" unfolding assms(1,3) sender_run_def by (rule sender_history.run_rel_between)
  with assms(2) show ?thesis by (simp add: s_evolves_def)
qed

theorem sender_settled_final_witness:
  "\<exists>evs. s_settled (sender_run (out_options [empty_source] '''') [] evs)
     \<and> s_err (sender_run (out_options [empty_source] '''') [] (evs @ [SCancel ''late'', SDoneDeadline]))
       = s_err (sender_run (out_options [empty_source] '''') [] evs)"
proof -
  obtain evs s where s: "sender_run (out_options [empty_source] '''') [] evs = s" and st: "s_settled s"
    by (rule empty_send_returns)
  from sender_settled_final [OF s [symmetric] st refl, of "[SCancel ''late'', SDoneDeadline]"] s st show ?thesis by blast
qed

section \<open>Single calls\<close>

lemma plan_files_dom:
  "plan_files files p0 fs = Inr plan \<Longrightarrow> dom p0 \<subseteq> {0..<int (length files)} \<Longrightarrow> dom plan \<subseteq> {0..<int (length files)}"
  by (induction fs arbitrary: p0) (auto split: if_splits)

text \<open>a resume state is applied as a whole or not at all: a message that fails any check settles the
  sender with an integrity failure and leaves the plan untouched; an accepted first message gives every
  file of the manifest exactly one mark within its block count; and delivering the accepted message again
  changes nothing.\<close>

theorem resume_state_all_or_nothing:
  assumes "\<not> s_settled s"
  shows "case buildResumePlanLocked m s of
      Inl message \<Rightarrow> s_settled (onResumeState m s) \<and> s_resumePlan (onResumeState m s) = s_resumePlan s
        \<and> s_err (onResumeState m s) = Some (Transfer (NewTransferError FailIntegrity message))
    | Inr plan \<Rightarrow> \<not> s_settled (onResumeState m s) \<and> s_resumePlan (onResumeState m s) = plan
        \<and> onResumeState m (onResumeState m s) = onResumeState m s
        \<and> (s_resumeReceived s \<or> (\<exists>manifest. s_manifest s = Some manifest \<and> rs_TransferID m = s_transferID s
            \<and> dom plan = {0..<int (length (mf_Files manifest))}
            \<and> (\<forall>j h. plan j = Some h \<longrightarrow> 0 \<le> h \<and> h \<le> fe_Blocks (mf_Files manifest ! nat j))))"
proof (cases "buildResumePlanLocked m s")
  case (Inl message)
  with assms show ?thesis by (simp add: onResumeState_def fail_transfer_def Sender_fail_def clearTimersLocked_def)
next
  case (Inr plan)
  let ?s = "onResumeState m s"
  have s': "?s = s\<lparr>s_resumePlan := plan, s_appliedResume := Some m, s_resumeReceived := True\<rparr>"
    using Inr by (simp add: onResumeState_def)
  have again: "buildResumePlanLocked m ?s = Inr plan"
    using Inr by (auto simp: s' buildResumePlanLocked_def resumeStatesEqual_def split: option.splits if_splits sum.splits)
  then have twice: "onResumeState m ?s = ?s" by (simp add: onResumeState_def [of m ?s]) (simp add: s')
  have first: "\<exists>manifest. s_manifest s = Some manifest \<and> rs_TransferID m = s_transferID s
      \<and> dom plan = {0..<int (length (mf_Files manifest))}
      \<and> (\<forall>j h. plan j = Some h \<longrightarrow> 0 \<le> h \<and> h \<le> fe_Blocks (mf_Files manifest ! nat j))" if "\<not> s_resumeReceived s"
  proof -
    from that Inr obtain mf where mf: "s_manifest s = Some mf" "rs_TransferID m = s_transferID s"
      and pf: "plan_files (mf_Files mf) Map.empty (rs_Files m) = Inr plan" and c: "card (dom plan) = length (mf_Files mf)"
      by (auto simp: buildResumePlanLocked_def split: option.splits if_splits sum.splits)
    have "dom plan = {0..<int (length (mf_Files mf))}"
      by (rule card_subset_eq) (use plan_files_dom [OF pf] c in simp_all)
    moreover have "plan j = Some h \<Longrightarrow> 0 \<le> h \<and> h \<le> fe_Blocks (mf_Files mf ! nat j)" for j h
      by (rule plan_files_range [OF pf]) auto
    ultimately show ?thesis using mf by blast
  qed
  from assms have "\<not> s_settled ?s" by (simp add: s')
  with Inr twice first show ?thesis by (auto simp: s')
qed

theorem resume_state_all_or_nothing_witness:
  "\<not> s_settled (NewSender (out_options [empty_source] '''') [])
   \<and> s_settled (onResumeState (NewResumeState ''x'' []) (NewSender (out_options [empty_source] '''') []))"
proof -
  have u: "\<not> s_settled (NewSender (out_options [empty_source] '''') [])"
    and b: "buildResumePlanLocked (NewResumeState ''x'' []) (NewSender (out_options [empty_source] '''') [])
      = Inl ''unexpected resume_state''"
    by (simp_all add: buildResumePlanLocked_def) (simp_all add: NewSender_def Let_def)
  from resume_state_all_or_nothing [OF u, of "NewResumeState ''x'' []"] u b show ?thesis by simp
qed

text \<open>a transport failure while a new block is sent from within the source's stream is reported as a
  read error of the source: the comment above the wrapper says that only genuine source errors get that
  class, but the wrapper also sees the errors of the emit callback.\<close>

theorem transport_error_reported_as_source_error:
  assumes "s_pc s = PSend i (KNew (True, piece) feed) idx block off" and "off < int (length block)" and "\<not> s_settled s"
    and "sendFrame (data_header (s_activeFileIdx s) idx off (s_frameSize s) block) (frame_payload off (s_frameSize s) block) s
      = (Some (Plain message), s1)"
  shows "\<exists>e. s_pc (run_step s) = PReturned (Inl e) \<and> s_err (run_step s) = Some e \<and> CodeOf e = CodeSourceIO
    \<and> CodeOf (Plain message) = CodeInternal"
proof -
  have "\<not> s_settled s1" using assms(3,4) by (auto elim: sendFrame_cases)
  with assms show ?thesis
    by (simp add: run_step_def run_send_def block_failed_def cont_failed_def emit_failed_def stream_ended_def
        wrap_source_error_def fail_return_def Sender_fail_def clearTimersLocked_def)
qed

text \<open>A transport that is gone.\<close>

definition broken_options :: "bytes list SenderOptions" where
  "broken_options = (out_options [one_source] '''')\<lparr>so_Send := (\<lambda>frame w. (Some (Plain ''closed''), w))\<rparr>"

theorem transport_error_reported_as_source_error_witness:
  "\<exists>s piece e. s_pc s = PSend 0 (KNew (True, piece) ([], None)) 0 [7] 0 \<and> \<not> s_settled s \<and> s_o s = s_o (NewSender broken_options [])
     \<and> s_pc (run_step s) = PReturned (Inl e) \<and> CodeOf e = CodeSourceIO"
proof -
  let ?piece = "\<lparr>fp_BlockIdx = 0, fp_FrameOff = 0, fp_Payload = [7], fp_LastInBlock = True\<rparr>"
  define s where "s = (NewSender broken_options [])\<lparr>s_pc := PSend 0 (KNew (True, ?piece) ([], None)) 0 [7] 0\<rparr>"
  have p: "s_pc s = PSend 0 (KNew (True, ?piece) ([], None)) 0 [7] 0" "(0 :: int) < int (length [7 :: byte])" "\<not> s_settled s"
    "s_o s = s_o (NewSender broken_options [])"
    by (simp_all add: s_def) (simp add: NewSender_def Let_def)
  obtain frame where "Seal example_key 0 (data_header (- 1) 0 0 2 [7]) [7] = Inr frame" using data_frame_sealed by blast
  then have "\<exists>s1. sendFrame (data_header (s_activeFileIdx s) 0 0 (s_frameSize s) [7]) (frame_payload 0 (s_frameSize s) [7]) s
      = (Some (Plain ''closed''), s1)"
    by (simp add: s_def broken_options_def sender_evaluation sendFrame_def frame_payload_def)
  then obtain s1 where "sendFrame (data_header (s_activeFileIdx s) 0 0 (s_frameSize s) [7]) (frame_payload 0 (s_frameSize s) [7]) s
      = (Some (Plain ''closed''), s1)" by blast
  from transport_error_reported_as_source_error [OF p(1,2,3) this] p show ?thesis by blast
qed

end
