(* ===== verification/Journal.thy ===== *)
theory Journal
  imports Messages
begin

text \<open>
  The durable transfer journal (\<^verbatim>\<open>journal.go\<close>): its schema, validation, canonical JSON codec
  with checksum, and the operations that advance checkpoints.  Times are the
  \<^verbatim>\<open>UnixMilli\<close> values the code reads from the clock.  Strict decoding follows
  \<^verbatim>\<open>encoding/json\<close>: members are decoded one after the other into the struct built so far,
  an unknown member fails, and a repeated slice member reuses the elements of the earlier one.
\<close>

section \<open>Schema\<close>

definition JournalSchemaVersion :: int where "JournalSchemaVersion = 1"
definition JournalResumeVersion :: int where "JournalResumeVersion = 1"
definition ProtocolVersion :: string where "ProtocolVersion = ''sendbeam/1''"
definition maxDigestCheckpointStateHex :: nat where "maxDigestCheckpointStateHex = 4096"

record JournalIdentity =
  id_Version :: int
  id_Value :: string

record JournalDigestCheckpoint =
  cp_Format :: string
  cp_CommittedBlocks :: int
  cp_CommittedBytes :: int
  cp_State :: string

record JournalFileState =
  jf_Idx :: int
  jf_Name :: string
  jf_Size :: int
  jf_Mime :: string
  jf_LastModified :: int
  jf_BlockSize :: int
  jf_Blocks :: int
  jf_FileDigest :: string
  jf_CommittedBlocks :: int
  jf_DigestCheckpoint :: "JournalDigestCheckpoint option"

record JournalResumeSecret =
  sec_Version :: int
  sec_Value :: string

record DurableJournal =
  jn_SchemaVersion :: int
  jn_TransferID :: string
  jn_ManifestFingerprint :: string
  jn_ProtocolVersion :: string
  jn_ResumeVersion :: int
  jn_BlockSize :: int
  jn_CreatedAt :: int
  jn_UpdatedAt :: int
  jn_SourceIdentity :: JournalIdentity
  jn_DestinationIdentity :: JournalIdentity
  jn_Files :: "JournalFileState list"
  jn_ResumeSecret :: "JournalResumeSecret option"
  jn_Checksum :: string

section \<open>Validation\<close>

abbreviation storage_error :: "string \<Rightarrow> err" where
  "storage_error m \<equiv> Classified CodeStorage m"

text \<open>The regular expressions \<^verbatim>\<open>^[0-9a-f]+$\<close>, \<^verbatim>\<open>^[A-Za-z0-9_-]+$\<close> and
  \<^verbatim>\<open>^[a-z0-9][a-z0-9._-]{0,63}$\<close>.\<close>

definition journalOpaqueHex :: "string \<Rightarrow> bool" where
  "journalOpaqueHex v \<longleftrightarrow> v \<noteq> [] \<and> list_all is_lower_hex_char v"

definition journalOpaqueB64 :: "string \<Rightarrow> bool" where
  "journalOpaqueB64 v \<longleftrightarrow> v \<noteq> [] \<and> list_all (\<lambda>c. is_letter c \<or> is_digit c \<or> c = CHR ''_'' \<or> c = CHR ''-'') v"

definition lower_alnum :: "char \<Rightarrow> bool" where
  "lower_alnum c \<longleftrightarrow> (97 \<le> code c \<and> code c \<le> 122) \<or> is_digit c"

definition journalDigestCheckpointFormatPattern :: "string \<Rightarrow> bool" where
  "journalDigestCheckpointFormatPattern s \<longleftrightarrow> s \<noteq> [] \<and> length s \<le> 64 \<and> lower_alnum (hd s)
     \<and> list_all (\<lambda>c. lower_alnum c \<or> c = CHR ''.'' \<or> c = CHR ''_'' \<or> c = CHR ''-'') (tl s)"

definition validateOpaqueValue :: "string \<Rightarrow> err option" where
  "validateOpaqueValue v =
     (if v = '''' then Some (storage_error ''journal: value must not be empty'')
      else if 2048 < length v then Some (storage_error ''journal: value is too long'')
      else if \<not> journalOpaqueHex v \<and> \<not> journalOpaqueB64 v
      then Some (storage_error ''journal: value must be hex or base64url'')
      else None)"

definition validateIdentity :: "JournalIdentity \<Rightarrow> err option" where
  "validateIdentity i =
     (if id_Version i \<noteq> 1 then Some (Classified CodeCompat ''journal: unsupported identity version'')
      else validateOpaqueValue (id_Value i))"

definition validateEnvelope :: "JournalResumeSecret \<Rightarrow> err option" where
  "validateEnvelope e =
     (if sec_Version e \<noteq> 1 then Some (Classified CodeCompat ''journal: unsupported envelope version'')
      else if \<not> isLowerHex (sec_Value e) 64
      then Some (storage_error ''journal: must be 64 lowercase hex characters'')
      else None)"

definition checkpoint_bytes :: "int \<Rightarrow> JournalFileState \<Rightarrow> int" where
  "checkpoint_bytes blocks f =
     (let n = s64 (blocks * jf_BlockSize f) in if jf_Size f < n then jf_Size f else n)"

definition validateDigestCheckpoint :: "JournalFileState \<Rightarrow> err option" where
  "validateDigestCheckpoint f =
     (case jf_DigestCheckpoint f of None \<Rightarrow> None
      | Some cp \<Rightarrow>
        if \<not> journalDigestCheckpointFormatPattern (cp_Format cp)
        then Some (storage_error ''journal: digestCheckpoint has an invalid format identifier'')
        else if cp_CommittedBlocks cp \<noteq> jf_CommittedBlocks f
        then Some (storage_error ''journal: digestCheckpoint block count does not match committedBlocks'')
        else if cp_CommittedBytes cp \<noteq> checkpoint_bytes (cp_CommittedBlocks cp) f
        then Some (storage_error ''journal: digestCheckpoint byte count does not match its committed blocks'')
        else if length (cp_State cp) mod 2 \<noteq> 0 \<or> \<not> isLowerHex (cp_State cp) (length (cp_State cp))
        then Some (storage_error ''journal: digestCheckpoint state must be lowercase hex'')
        else if length (cp_State cp) = 0 \<or> maxDigestCheckpointStateHex < length (cp_State cp)
        then Some (storage_error ''journal: digestCheckpoint state is out of bounds'')
        else None)"

text \<open>The manifest entry a checkpoint describes, and back.\<close>

definition file_entry :: "JournalFileState \<Rightarrow> FileEntry" where
  "file_entry f = \<lparr>fe_Idx = jf_Idx f, fe_Name = jf_Name f, fe_Size = jf_Size f, fe_Mime = jf_Mime f,
     fe_LastModified = jf_LastModified f, fe_BlockSize = jf_BlockSize f, fe_Blocks = jf_Blocks f,
     fe_FileDigest = jf_FileDigest f\<rparr>"

definition fresh_file :: "FileEntry \<Rightarrow> JournalFileState" where
  "fresh_file f = \<lparr>jf_Idx = fe_Idx f, jf_Name = fe_Name f, jf_Size = fe_Size f, jf_Mime = fe_Mime f,
     jf_LastModified = fe_LastModified f, jf_BlockSize = fe_BlockSize f, jf_Blocks = fe_Blocks f,
     jf_FileDigest = fe_FileDigest f, jf_CommittedBlocks = 0, jf_DigestCheckpoint = None\<rparr>"

definition fingerprintFromFiles :: "string \<Rightarrow> JournalFileState list \<Rightarrow> (err, string) result" where
  "fingerprintFromFiles transferID files =
     ManifestFingerprint \<lparr>mf_Type = 0, mf_TransferID = transferID, mf_Files = map file_entry files,
       mf_TotalSize = foldl (\<lambda>t f. s64 (t + jf_Size f)) 0 files\<rparr>"

fun validate_journal_files :: "int \<Rightarrow> int \<Rightarrow> string list \<Rightarrow> JournalFileState list \<Rightarrow> err option" where
  "validate_journal_files blockSize i seen [] = None"
| "validate_journal_files blockSize i seen (f # fs) =
     (if jf_Idx f \<noteq> i then Some (storage_error ''journal: file indexes must be contiguous'')
      else if jf_Size f < 0 \<or> jf_LastModified f < 0 \<or> jf_BlockSize f \<le> 0 \<or> jf_Blocks f < 0
      then Some (storage_error ''journal: file has invalid geometry'')
      else if MaxManifestBlockBytes < jf_BlockSize f
      then Some (storage_error ''journal: file block size exceeds the ceiling'')
      else if jf_Blocks f \<noteq> wantBlocks (file_entry f)
      then Some (storage_error ''journal: file has invalid block geometry'')
      else if jf_BlockSize f \<noteq> blockSize
      then Some (storage_error ''journal: file block size differs from journal block size'')
      else if \<not> isLowerHex (jf_FileDigest f) 64
      then Some (storage_error ''journal: fileDigest must be 64 lowercase hex characters'')
      else if jf_CommittedBlocks f < 0 \<or> jf_Blocks f < jf_CommittedBlocks f
      then Some (storage_error ''journal: committedBlocks out of range'')
      else case validateDigestCheckpoint f of Some e \<Rightarrow> Some e
        | None \<Rightarrow>
          (case NormalizeTransferPath (jf_Name f) of
             Inl e \<Rightarrow> Some (storage_error (''journal: '' @ err_text e))
           | Inr name \<Rightarrow>
             if strings_ToLower name \<in> set seen
             then Some (storage_error ''journal: duplicate file path'')
             else validate_journal_files blockSize (i + 1) (strings_ToLower name # seen) fs))"

definition ValidateJournal :: "DurableJournal \<Rightarrow> err option" where
  "ValidateJournal j =
     (if jn_SchemaVersion j \<noteq> JournalSchemaVersion
      then Some (Classified CodeCompat ''journal: unsupported schema version'')
      else if jn_ResumeVersion j \<noteq> JournalResumeVersion
      then Some (Classified CodeCompat ''journal: unsupported resume version'')
      else if jn_ProtocolVersion j \<noteq> ProtocolVersion
      then Some (Classified CodeCompat ''journal: unsupported protocol version'')
      else if \<not> isLowerHex (jn_TransferID j) 32
      then Some (storage_error ''journal: transferId must be 32 lowercase hex characters'')
      else if \<not> isLowerHex (jn_ManifestFingerprint j) 64
      then Some (storage_error ''journal: manifestFingerprint must be 64 lowercase hex characters'')
      else if jn_CreatedAt j \<le> 0 \<or> jn_UpdatedAt j \<le> 0 \<or> jn_UpdatedAt j < jn_CreatedAt j
      then Some (storage_error ''journal: invalid timestamps'')
      else if jn_BlockSize j \<le> 0 \<or> MaxManifestBlockBytes < jn_BlockSize j
      then Some (storage_error ''journal: invalid block size'')
      else case validateIdentity (jn_SourceIdentity j) of Some e \<Rightarrow> Some e
        | None \<Rightarrow>
      (case validateIdentity (jn_DestinationIdentity j) of Some e \<Rightarrow> Some e
        | None \<Rightarrow>
      (case (case jn_ResumeSecret j of None \<Rightarrow> None | Some s \<Rightarrow> validateEnvelope s) of Some e \<Rightarrow> Some e
        | None \<Rightarrow>
      if jn_Files j = [] \<or> MaxTransferFiles < length (jn_Files j)
      then Some (storage_error ''journal: invalid file count'')
      else case fingerprintFromFiles (jn_TransferID j) (jn_Files j) of
          Inl e \<Rightarrow> Some (storage_error (''journal: '' @ err_text e))
        | Inr recomputed \<Rightarrow>
          if recomputed \<noteq> jn_ManifestFingerprint j
          then Some (storage_error ''journal: manifest fingerprint mismatch'')
          else validate_journal_files (jn_BlockSize j) 0 [] (jn_Files j))))"

section \<open>Operations\<close>

definition NewJournal ::
  "string \<Rightarrow> Manifest \<Rightarrow> JournalIdentity \<Rightarrow> JournalIdentity \<Rightarrow> int \<Rightarrow> (err, DurableJournal) result" where
  "NewJournal transferID manifest source destination now =
     (if \<not> isLowerHex transferID 32
      then Inl (storage_error ''journal: transferId must be 32 lowercase hex characters'')
      else if mf_TransferID manifest \<noteq> transferID
      then Inl (storage_error ''journal: transferId must match the authenticated manifest'')
      else case ManifestFingerprint manifest of
          Inl e \<Rightarrow> Inl (storage_error (''journal: '' @ err_text e))
        | Inr fingerprint \<Rightarrow>
          let j = \<lparr>jn_SchemaVersion = JournalSchemaVersion, jn_TransferID = transferID,
              jn_ManifestFingerprint = fingerprint, jn_ProtocolVersion = ProtocolVersion,
              jn_ResumeVersion = JournalResumeVersion,
              jn_BlockSize = fe_BlockSize (mf_Files manifest ! 0),
              jn_CreatedAt = now, jn_UpdatedAt = now, jn_SourceIdentity = source,
              jn_DestinationIdentity = destination, jn_Files = map fresh_file (mf_Files manifest),
              jn_ResumeSecret = None, jn_Checksum = ''''\<rparr>
          in case ValidateJournal j of Some e \<Rightarrow> Inl e | None \<Rightarrow> Inr j)"

text \<open>The index check both operations open with.\<close>

definition in_files :: "int \<Rightarrow> DurableJournal \<Rightarrow> bool" where
  "in_files i j \<longleftrightarrow> 0 \<le> i \<and> i < int (length (jn_Files j))"

definition set_file :: "int \<Rightarrow> JournalFileState \<Rightarrow> DurableJournal \<Rightarrow> DurableJournal" where
  "set_file i f j = j\<lparr>jn_Files := (jn_Files j)[nat i := f]\<rparr>"

definition SetDigestCheckpoint ::
  "int \<Rightarrow> JournalDigestCheckpoint option \<Rightarrow> DurableJournal \<Rightarrow> err option \<times> DurableJournal" where
  "SetDigestCheckpoint fileIdx cp j =
     (if \<not> in_files fileIdx j then (Some (storage_error ''journal: no such file in journal''), j)
      else let f = jn_Files j ! nat fileIdx in
        if (case cp of None \<Rightarrow> False | Some c \<Rightarrow> cp_CommittedBlocks c \<noteq> jf_CommittedBlocks f)
        then (Some (storage_error ''journal: digestCheckpoint block count does not match committedBlocks''), j)
        else (None, set_file fileIdx (f\<lparr>jf_DigestCheckpoint := cp\<rparr>) j))"

definition CommitBlocks :: "int \<Rightarrow> int \<Rightarrow> int \<Rightarrow> DurableJournal \<Rightarrow> err option \<times> DurableJournal" where
  "CommitBlocks fileIdx committedBlocks now j =
     (if \<not> in_files fileIdx j then (Some (storage_error ''journal: no such file in journal''), j)
      else let f = jn_Files j ! nat fileIdx in
        if committedBlocks < 0 \<or> jf_Blocks f < committedBlocks
        then (Some (storage_error ''journal: committedBlocks out of range''), j)
        else if committedBlocks < jf_CommittedBlocks f
        then (Some (storage_error ''journal: committed progress may not regress''), j)
        else (None, (set_file fileIdx (f\<lparr>jf_CommittedBlocks := committedBlocks,
            jf_DigestCheckpoint := None\<rparr>) j)\<lparr>jn_UpdatedAt := now\<rparr>))"

definition CommittedBytes :: "int \<Rightarrow> DurableJournal \<Rightarrow> (err, int) result" where
  "CommittedBytes fileIdx j =
     (if \<not> in_files fileIdx j then Inl (storage_error ''journal: no such file in journal'')
      else let f = jn_Files j ! nat fileIdx in Inr (checkpoint_bytes (jf_CommittedBlocks f) f))"

section \<open>Encoding\<close>

definition identity_json :: "JournalIdentity \<Rightarrow> json" where
  "identity_json i = JObj [(''version'', jint (id_Version i)), (''value'', JStr (id_Value i))]"

definition secret_json :: "JournalResumeSecret \<Rightarrow> json" where
  "secret_json s = JObj [(''version'', jint (sec_Version s)), (''value'', JStr (sec_Value s))]"

definition checkpoint_json :: "JournalDigestCheckpoint \<Rightarrow> json" where
  "checkpoint_json c = JObj [(''format'', JStr (cp_Format c)),
     (''committedBlocks'', jint (cp_CommittedBlocks c)),
     (''committedBytes'', jint (cp_CommittedBytes c)), (''state'', JStr (cp_State c))]"

text \<open>\<^verbatim>\<open>json:",omitempty"\<close> on a pointer field.\<close>

definition omitnil :: "string \<Rightarrow> ('a \<Rightarrow> json) \<Rightarrow> 'a option \<Rightarrow> (string \<times> json) list" where
  "omitnil name enc p = (case p of None \<Rightarrow> [] | Some x \<Rightarrow> [(name, enc x)])"

definition journal_file_json :: "JournalFileState \<Rightarrow> json" where
  "journal_file_json f = JObj ([(''idx'', jint (jf_Idx f)), (''name'', JStr (jf_Name f)),
     (''size'', jint (jf_Size f)), (''mime'', JStr (jf_Mime f)),
     (''lastModified'', jint (jf_LastModified f)), (''blockSize'', jint (jf_BlockSize f)),
     (''blocks'', jint (jf_Blocks f)), (''fileDigest'', JStr (jf_FileDigest f)),
     (''committedBlocks'', jint (jf_CommittedBlocks f))]
     @ omitnil ''digestCheckpoint'' checkpoint_json (jf_DigestCheckpoint f))"

definition journal_json :: "DurableJournal \<Rightarrow> json" where
  "journal_json j = JObj ([(''schemaVersion'', jint (jn_SchemaVersion j)),
     (''transferId'', JStr (jn_TransferID j)),
     (''manifestFingerprint'', JStr (jn_ManifestFingerprint j)),
     (''protocolVersion'', JStr (jn_ProtocolVersion j)),
     (''resumeVersion'', jint (jn_ResumeVersion j)), (''blockSize'', jint (jn_BlockSize j)),
     (''createdAt'', jint (jn_CreatedAt j)), (''updatedAt'', jint (jn_UpdatedAt j)),
     (''sourceIdentity'', identity_json (jn_SourceIdentity j)),
     (''destinationIdentity'', identity_json (jn_DestinationIdentity j)),
     (''files'', JArr (map journal_file_json (jn_Files j)))]
     @ omitnil ''resumeSecret'' secret_json (jn_ResumeSecret j)
     @ omitempty ''checksum'' (jn_Checksum j))"

definition marshalJournalJSON :: "DurableJournal \<Rightarrow> bytes" where
  "marshalJournalJSON j = bytes_of_string (json_print (journal_json j))"

definition journal_checksum :: "DurableJournal \<Rightarrow> string" where
  "journal_checksum j = hex_encode (sha256 (marshalJournalJSON (j\<lparr>jn_Checksum := ''''\<rparr>)))"

definition EncodeJournal :: "DurableJournal \<Rightarrow> (err, bytes) result" where
  "EncodeJournal j = (case ValidateJournal j of Some e \<Rightarrow> Inl e
     | None \<Rightarrow> Inr (marshalJournalJSON (j\<lparr>jn_Checksum := journal_checksum j\<rparr>)))"

section \<open>Strict decoding\<close>

text \<open>Decoding a JSON value into a variable that already holds a value.\<close>

type_synonym 'a into = "json \<Rightarrow> 'a \<Rightarrow> 'a option"

definition int_into :: "int into" where
  "int_into v old = (if v = JNull then Some old else as_int v)"

definition string_into :: "string into" where
  "string_into v old = (if v = JNull then Some old else as_string v)"

definition ptr_into :: "'a into \<Rightarrow> 'a \<Rightarrow> 'a option into" where
  "ptr_into dec zero v old = (if v = JNull then Some None
     else map_option Some (dec v (case old of None \<Rightarrow> zero | Some x \<Rightarrow> x)))"

text \<open>A field: its name and the decoder into it.\<close>

type_synonym 'r field = "string \<times> 'r into"

definition field_into :: "('r \<Rightarrow> 'a) \<Rightarrow> (('a \<Rightarrow> 'a) \<Rightarrow> 'r \<Rightarrow> 'r) \<Rightarrow> 'a into \<Rightarrow> 'r into" where
  "field_into get upd dec v r = map_option (\<lambda>x. upd (\<lambda>_. x) r) (dec v (get r))"

text \<open>\<^verbatim>\<open>DisallowUnknownFields\<close>: a member that matches no field fails.\<close>

fun members_into :: "'r field list \<Rightarrow> (string \<times> json) list \<Rightarrow> 'r \<Rightarrow> 'r option" where
  "members_into fds [] r = Some r"
| "members_into fds ((k, v) # ms) r =
     (case find (\<lambda>(n, _). key_match k n) fds of None \<Rightarrow> None
      | Some (_, dec) \<Rightarrow> (case dec v r of None \<Rightarrow> None | Some r' \<Rightarrow> members_into fds ms r'))"

definition struct_into :: "'r field list \<Rightarrow> 'r into" where
  "struct_into fds v r = (case as_members v of None \<Rightarrow> None | Some ms \<Rightarrow> members_into fds ms r)"

text \<open>A slice with the elements its backing array holds beyond the length.\<close>

type_synonym 'a slice = "'a list \<times> 'a list"

fun elems_into :: "'a into \<Rightarrow> 'a \<Rightarrow> json list \<Rightarrow> 'a list \<Rightarrow> 'a list option" where
  "elems_into dec zero [] backing = Some []"
| "elems_into dec zero (v # vs) backing =
     (case dec v (case backing of [] \<Rightarrow> zero | x # _ \<Rightarrow> x) of None \<Rightarrow> None
      | Some y \<Rightarrow> map_option (Cons y) (elems_into dec zero vs (tl backing)))"

definition slice_into :: "'a into \<Rightarrow> 'a \<Rightarrow> 'a slice into" where
  "slice_into dec zero v s = (case v of JNull \<Rightarrow> Some ([], [])
     | JArr [] \<Rightarrow> Some ([], [])
     | JArr vs \<Rightarrow> map_option (\<lambda>xs. (xs, drop (length vs) (fst s @ snd s)))
         (elems_into dec zero vs (fst s @ snd s))
     | _ \<Rightarrow> None)"

definition identity_into :: "JournalIdentity into" where
  "identity_into = struct_into [(''version'', field_into id_Version id_Version_update int_into),
     (''value'', field_into id_Value id_Value_update string_into)]"

definition secret_into :: "JournalResumeSecret into" where
  "secret_into = struct_into [(''version'', field_into sec_Version sec_Version_update int_into),
     (''value'', field_into sec_Value sec_Value_update string_into)]"

definition checkpoint_into :: "JournalDigestCheckpoint into" where
  "checkpoint_into = struct_into [(''format'', field_into cp_Format cp_Format_update string_into),
     (''committedBlocks'', field_into cp_CommittedBlocks cp_CommittedBlocks_update int_into),
     (''committedBytes'', field_into cp_CommittedBytes cp_CommittedBytes_update int_into),
     (''state'', field_into cp_State cp_State_update string_into)]"

definition zero_checkpoint :: JournalDigestCheckpoint where
  "zero_checkpoint = \<lparr>cp_Format = '''', cp_CommittedBlocks = 0, cp_CommittedBytes = 0, cp_State = ''''\<rparr>"

definition zero_secret :: JournalResumeSecret where
  "zero_secret = \<lparr>sec_Version = 0, sec_Value = ''''\<rparr>"

definition zero_identity :: JournalIdentity where
  "zero_identity = \<lparr>id_Version = 0, id_Value = ''''\<rparr>"

definition zero_file :: JournalFileState where
  "zero_file = \<lparr>jf_Idx = 0, jf_Name = '''', jf_Size = 0, jf_Mime = '''', jf_LastModified = 0,
     jf_BlockSize = 0, jf_Blocks = 0, jf_FileDigest = '''', jf_CommittedBlocks = 0,
     jf_DigestCheckpoint = None\<rparr>"

definition zero_journal :: DurableJournal where
  "zero_journal = \<lparr>jn_SchemaVersion = 0, jn_TransferID = '''', jn_ManifestFingerprint = '''',
     jn_ProtocolVersion = '''', jn_ResumeVersion = 0, jn_BlockSize = 0, jn_CreatedAt = 0,
     jn_UpdatedAt = 0, jn_SourceIdentity = zero_identity, jn_DestinationIdentity = zero_identity,
     jn_Files = [], jn_ResumeSecret = None, jn_Checksum = ''''\<rparr>"

definition file_into :: "JournalFileState into" where
  "file_into = struct_into [(''idx'', field_into jf_Idx jf_Idx_update int_into),
     (''name'', field_into jf_Name jf_Name_update string_into),
     (''size'', field_into jf_Size jf_Size_update int_into),
     (''mime'', field_into jf_Mime jf_Mime_update string_into),
     (''lastModified'', field_into jf_LastModified jf_LastModified_update int_into),
     (''blockSize'', field_into jf_BlockSize jf_BlockSize_update int_into),
     (''blocks'', field_into jf_Blocks jf_Blocks_update int_into),
     (''fileDigest'', field_into jf_FileDigest jf_FileDigest_update string_into),
     (''committedBlocks'', field_into jf_CommittedBlocks jf_CommittedBlocks_update int_into),
     (''digestCheckpoint'', field_into jf_DigestCheckpoint jf_DigestCheckpoint_update
        (ptr_into checkpoint_into zero_checkpoint))]"

text \<open>While a journal is decoded the state also holds the spare elements of its file slice.\<close>

type_synonym journal_parse = "DurableJournal \<times> JournalFileState list"

definition head_field :: "(DurableJournal \<Rightarrow> 'a) \<Rightarrow> (('a \<Rightarrow> 'a) \<Rightarrow> DurableJournal \<Rightarrow> DurableJournal)
    \<Rightarrow> 'a into \<Rightarrow> journal_parse into" where
  "head_field get upd dec v p = map_option (\<lambda>j. (j, snd p)) (field_into get upd dec v (fst p))"

definition files_field :: "journal_parse into" where
  "files_field v p = map_option (\<lambda>(fs, spare). ((fst p)\<lparr>jn_Files := fs\<rparr>, spare))
     (slice_into file_into zero_file v (jn_Files (fst p), snd p))"

definition journal_fields :: "journal_parse field list" where
  "journal_fields = [(''schemaVersion'', head_field jn_SchemaVersion jn_SchemaVersion_update int_into),
     (''transferId'', head_field jn_TransferID jn_TransferID_update string_into),
     (''manifestFingerprint'', head_field jn_ManifestFingerprint jn_ManifestFingerprint_update string_into),
     (''protocolVersion'', head_field jn_ProtocolVersion jn_ProtocolVersion_update string_into),
     (''resumeVersion'', head_field jn_ResumeVersion jn_ResumeVersion_update int_into),
     (''blockSize'', head_field jn_BlockSize jn_BlockSize_update int_into),
     (''createdAt'', head_field jn_CreatedAt jn_CreatedAt_update int_into),
     (''updatedAt'', head_field jn_UpdatedAt jn_UpdatedAt_update int_into),
     (''sourceIdentity'', head_field jn_SourceIdentity jn_SourceIdentity_update identity_into),
     (''destinationIdentity'', head_field jn_DestinationIdentity jn_DestinationIdentity_update identity_into),
     (''files'', files_field),
     (''resumeSecret'', head_field jn_ResumeSecret jn_ResumeSecret_update
        (ptr_into secret_into zero_secret)),
     (''checksum'', head_field jn_Checksum jn_Checksum_update string_into)]"

text \<open>\<^verbatim>\<open>Decoder.Decode\<close> reads one value; \<^verbatim>\<open>Decoder.More\<close> then looks at the next
  byte that is not white space, and a closing bracket counts as no more.\<close>

definition unmarshalStrict :: "'r field list \<Rightarrow> 'r \<Rightarrow> bytes \<Rightarrow> 'r option" where
  "unmarshalStrict fds zero data =
     (let s = string_of_bytes data in
      case parse_value (2 * length s + 2) 0 s of None \<Rightarrow> None
      | Some (v, rest) \<Rightarrow>
        (case struct_into fds v zero of None \<Rightarrow> None
         | Some r \<Rightarrow>
           (case skip_ws rest of [] \<Rightarrow> Some r
            | c # _ \<Rightarrow> if c = CHR '']'' \<or> c = CHR ''}'' then Some r else None)))"

definition decodeJournalV1 :: "bytes \<Rightarrow> (err, DurableJournal) result" where
  "decodeJournalV1 data =
     (case unmarshalStrict journal_fields (zero_journal, []) data of
        None \<Rightarrow> Inl (storage_error ''journal: malformed journal'')
      | Some (j, _) \<Rightarrow>
        (case ValidateJournal j of Some e \<Rightarrow> Inl e
         | None \<Rightarrow>
           if \<not> isLowerHex (jn_Checksum j) 64
           then Inl (storage_error ''journal: malformed checksum'')
           else if journal_checksum j \<noteq> jn_Checksum j
           then Inl (storage_error ''journal: checksum mismatch (corrupt or tampered)'')
           else Inr j))"

definition decodeJournalVersion :: "int \<Rightarrow> bytes \<Rightarrow> (err, DurableJournal) result" where
  "decodeJournalVersion version data =
     (if version = JournalSchemaVersion then decodeJournalV1 data
      else if JournalSchemaVersion < version
      then Inl (Classified CodeCompat ''journal: schema version is newer than this build supports'')
      else Inl (storage_error ''journal: corrupt schema version''))"

definition DecodeJournal :: "bytes \<Rightarrow> (err, DurableJournal) result" where
  "DecodeJournal data =
     (case unmarshal data of None \<Rightarrow> Inl (storage_error ''journal: malformed journal'')
      | Some ms \<Rightarrow>
        (case ptr_field as_int ''schemaVersion'' ms of
           None \<Rightarrow> Inl (storage_error ''journal: malformed journal'')
         | Some None \<Rightarrow> Inl (storage_error ''journal: missing schemaVersion'')
         | Some (Some version) \<Rightarrow> decodeJournalVersion version data))"

section \<open>Round trip of the canonical encoding\<close>

text \<open>Values of the fields' Go types with UTF-8 text.\<close>

definition identity_wire_ok :: "JournalIdentity \<Rightarrow> bool" where
  "identity_wire_ok i \<longleftrightarrow> in_s64 (id_Version i) \<and> valid_string (id_Value i)"

definition secret_wire_ok :: "JournalResumeSecret \<Rightarrow> bool" where
  "secret_wire_ok s \<longleftrightarrow> in_s64 (sec_Version s) \<and> valid_string (sec_Value s)"

definition checkpoint_wire_ok :: "JournalDigestCheckpoint \<Rightarrow> bool" where
  "checkpoint_wire_ok c \<longleftrightarrow> valid_string (cp_Format c) \<and> in_s64 (cp_CommittedBlocks c)
     \<and> in_s64 (cp_CommittedBytes c) \<and> valid_string (cp_State c)"

definition journal_file_wire_ok :: "JournalFileState \<Rightarrow> bool" where
  "journal_file_wire_ok f \<longleftrightarrow> file_wire_ok (file_entry f) \<and> in_s64 (jf_CommittedBlocks f)
     \<and> pred_option checkpoint_wire_ok (jf_DigestCheckpoint f)"

definition journal_wire_ok :: "DurableJournal \<Rightarrow> bool" where
  "journal_wire_ok j \<longleftrightarrow> in_s64 (jn_SchemaVersion j) \<and> valid_string (jn_TransferID j)
     \<and> valid_string (jn_ManifestFingerprint j) \<and> valid_string (jn_ProtocolVersion j)
     \<and> in_s64 (jn_ResumeVersion j) \<and> in_s64 (jn_BlockSize j) \<and> in_s64 (jn_CreatedAt j)
     \<and> in_s64 (jn_UpdatedAt j) \<and> identity_wire_ok (jn_SourceIdentity j)
     \<and> identity_wire_ok (jn_DestinationIdentity j) \<and> list_all journal_file_wire_ok (jn_Files j)
     \<and> pred_option secret_wire_ok (jn_ResumeSecret j) \<and> valid_string (jn_Checksum j)"

lemmas into_evaluation = struct_into_def field_into_def int_into_def string_into_def ptr_into_def
  key_match_names fold_rune_def

lemma object_not_null [simp]: "checkpoint_json c \<noteq> JNull" "secret_json s \<noteq> JNull"
  by (simp_all add: checkpoint_json_def secret_json_def)

lemma identity_roundtrip: "identity_wire_ok i \<Longrightarrow> identity_into (identity_json i) z = Some i"
  by (simp add: identity_into_def identity_json_def identity_wire_ok_def into_evaluation)

lemma secret_roundtrip: "secret_wire_ok s \<Longrightarrow> secret_into (secret_json s) z = Some s"
  by (simp add: secret_into_def secret_json_def secret_wire_ok_def into_evaluation)

lemma checkpoint_roundtrip: "checkpoint_wire_ok c \<Longrightarrow> checkpoint_into (checkpoint_json c) z = Some c"
  by (simp add: checkpoint_into_def checkpoint_json_def checkpoint_wire_ok_def into_evaluation)

lemma file_roundtrip: "journal_file_wire_ok f \<Longrightarrow> file_into (journal_file_json f) zero_file = Some f"
  by (cases "jf_DigestCheckpoint f")
    (simp_all add: file_into_def journal_file_json_def journal_file_wire_ok_def into_evaluation
      file_wire_ok_def file_entry_def omitnil_def checkpoint_roundtrip zero_file_def)

lemma elems_roundtrip:
  "list_all journal_file_wire_ok fs \<Longrightarrow>
     elems_into file_into zero_file (map journal_file_json fs) [] = Some fs"
  by (induction fs) (simp_all add: file_roundtrip)

lemma slice_roundtrip:
  "list_all journal_file_wire_ok fs \<Longrightarrow>
     slice_into file_into zero_file (JArr (map journal_file_json fs)) ([], []) = Some (fs, [])"
  using elems_roundtrip [of fs] by (cases fs) (simp_all add: slice_into_def)

lemma journal_roundtrip:
  assumes "journal_wire_ok j"
  shows "struct_into journal_fields (journal_json j) (zero_journal, []) = Some (j, [])"
  using assms slice_roundtrip [of "jn_Files j"]
  by (cases "jn_ResumeSecret j"; cases "jn_Checksum j = ''''")
    (simp_all add: journal_fields_def journal_json_def journal_wire_ok_def head_field_def
      files_field_def into_evaluation omitnil_def omitempty_def identity_roundtrip secret_roundtrip
      zero_journal_def)

lemma json_ok_omitnil:
  "valid_string n \<Longrightarrow> pred_option (\<lambda>x. json_ok (enc x)) p \<Longrightarrow>
     list_all (\<lambda>(k, v). valid_string k \<and> json_ok v) (omitnil n enc p)"
  by (cases p) (simp_all add: omitnil_def)

lemma json_ok_journal_file: "journal_file_wire_ok f \<Longrightarrow> json_ok (journal_file_json f)"
  by (cases "jf_DigestCheckpoint f")
    (simp_all add: journal_file_json_def journal_file_wire_ok_def file_wire_ok_def file_entry_def
      omitnil_def checkpoint_json_def checkpoint_wire_ok_def)

lemma json_ok_journal: "journal_wire_ok j \<Longrightarrow> json_ok (journal_json j)"
  by (cases "jn_ResumeSecret j")
    (auto simp: journal_json_def journal_wire_ok_def identity_json_def identity_wire_ok_def
      omitnil_def omitempty_def secret_json_def secret_wire_ok_def list_all_iff json_ok_journal_file)

lemma json_depth_journal_file: "json_depth (journal_file_json f) \<le> 2"
  by (cases "jf_DigestCheckpoint f") (simp_all add: journal_file_json_def omitnil_def checkpoint_json_def)

lemma json_depth_journal: "json_depth (journal_json j) \<le> 4"
proof -
  have "foldr max (map (json_depth \<circ> journal_file_json) (jn_Files j)) 0 \<le> 2"
    by (rule foldr_max_bound) (auto simp: json_depth_journal_file)
  then show ?thesis
    by (cases "jn_ResumeSecret j")
      (simp_all add: journal_json_def identity_json_def omitnil_def omitempty_def secret_json_def)
qed

lemma parse_journal:
  assumes "journal_wire_ok j"
  shows "json_parse (json_print (journal_json j)) = Some (journal_json j)"
  using json_ok_journal [OF assms] json_depth_journal [of j]
  by (intro json_parse_print) (simp_all add: max_depth_def)

lemma unmarshalStrict_print:
  assumes "json_parse (json_print v) = Some v"
  shows "unmarshalStrict fds zero (bytes_of_string (json_print v)) = struct_into fds v zero"
proof -
  from assms obtain r where
    "parse_value (2 * length (json_print v) + 2) 0 (json_print v) = Some (v, r)" and "skip_ws r = []"
    by (auto simp: json_parse_def split: option.splits if_splits)
  then show ?thesis by (simp add: unmarshalStrict_def split: option.split)
qed

lemma unmarshalStrict_marshal:
  assumes "journal_wire_ok j"
  shows "unmarshalStrict journal_fields (zero_journal, []) (marshalJournalJSON j) = Some (j, [])"
  by (simp add: marshalJournalJSON_def unmarshalStrict_print [OF parse_journal [OF assms]] journal_roundtrip [OF assms])

lemma schemaVersion_marshal:
  assumes "journal_wire_ok j"
  shows "\<exists>ms. unmarshal (marshalJournalJSON j) = Some ms
    \<and> ptr_field as_int ''schemaVersion'' ms = Some (Some (jn_SchemaVersion j))"
proof -
  obtain ms where ms: "journal_json j = JObj ms" by (simp add: journal_json_def)
  have u: "unmarshal (marshalJournalJSON j) = Some ms"
    using parse_journal [OF assms] ms by (simp add: unmarshal_def marshalJournalJSON_def)
  have "field_values ''schemaVersion'' ms = [jint (jn_SchemaVersion j)]"
    using ms by (cases "jn_ResumeSecret j")
      (auto simp: journal_json_def omitnil_def omitempty_def key_match_names fold_rune_def)
  then have "ptr_field as_int ''schemaVersion'' ms = Some (Some (jn_SchemaVersion j))"
    using assms by (simp add: ptr_field_def journal_wire_ok_def)
  with u show ?thesis by blast
qed

section \<open>Checksums\<close>

lemma ValidateJournal_checksum [simp]:
  "ValidateJournal (j\<lparr>jn_Checksum := c\<rparr>) = ValidateJournal j"
  by (simp add: ValidateJournal_def cong: option.case_cong sum.case_cong if_cong)

lemma journal_checksum_idem [simp]: "journal_checksum (j\<lparr>jn_Checksum := c\<rparr>) = journal_checksum j"
  by (simp add: journal_checksum_def)

lemma journal_checksum_hex: "isLowerHex (journal_checksum j) 64"
  using isLowerHex_hex_encode [of "sha256 _"] by (simp add: journal_checksum_def)

lemma journal_wire_ok_checksum:
  "journal_wire_ok j \<Longrightarrow> journal_wire_ok (j\<lparr>jn_Checksum := journal_checksum j\<rparr>)"
  using isLowerHex_valid [OF journal_checksum_hex] by (simp add: journal_wire_ok_def)

text \<open>A journal as \<^verbatim>\<open>EncodeJournal\<close> writes it.\<close>

definition sealed_journal :: "DurableJournal \<Rightarrow> bool" where
  "sealed_journal j \<longleftrightarrow> ValidateJournal j = None \<and> journal_wire_ok j
     \<and> jn_Checksum j = journal_checksum j"

lemma sealed_journalI:
  "ValidateJournal j = None \<Longrightarrow> journal_wire_ok j \<Longrightarrow>
     sealed_journal (j\<lparr>jn_Checksum := journal_checksum j\<rparr>)"
  by (simp add: sealed_journal_def journal_wire_ok_checksum)

lemma ValidateJournal_version: "ValidateJournal j = None \<Longrightarrow> jn_SchemaVersion j = JournalSchemaVersion"
  by (auto simp: ValidateJournal_def split: if_splits)

lemma DecodeJournal_marshal:
  assumes "sealed_journal j"
  shows "DecodeJournal (marshalJournalJSON j) = Inr j"
proof -
  have w: "journal_wire_ok j" and v: "ValidateJournal j = None" and c: "jn_Checksum j = journal_checksum j"
    using assms by (simp_all add: sealed_journal_def)
  have "decodeJournalV1 (marshalJournalJSON j) = Inr j"
    using v c journal_checksum_hex [of j] unmarshalStrict_marshal [OF w] by (simp add: decodeJournalV1_def)
  with schemaVersion_marshal [OF w] ValidateJournal_version [OF v] show ?thesis
    by (auto simp: DecodeJournal_def decodeJournalVersion_def)
qed

interpretation journal_codec: codec marshalJournalJSON DecodeJournal sealed_journal
  by unfold_locales (rule DecodeJournal_marshal)

section \<open>What validation accepts\<close>

lemma file_entry_simps [simp]:
  "fe_Idx (file_entry f) = jf_Idx f" "fe_Name (file_entry f) = jf_Name f"
  "fe_Size (file_entry f) = jf_Size f" "fe_BlockSize (file_entry f) = jf_BlockSize f"
  "fe_Blocks (file_entry f) = jf_Blocks f" "fe_LastModified (file_entry f) = jf_LastModified f"
  "file_entry (fresh_file e) = e"
  by (simp_all add: file_entry_def fresh_file_def)

text \<open>What the journal adds to its manifest entry.\<close>

definition progress_ok :: "int \<Rightarrow> JournalFileState \<Rightarrow> bool" where
  "progress_ok blockSize f \<longleftrightarrow> jf_BlockSize f = blockSize \<and> isLowerHex (jf_FileDigest f) 64
     \<and> 0 \<le> jf_CommittedBlocks f \<and> jf_CommittedBlocks f \<le> jf_Blocks f
     \<and> validateDigestCheckpoint f = None"

lemma validate_journal_files_iff:
  assumes "validate_files i seen tot (map file_entry fs) = Inr r"
  shows "validate_journal_files blockSize i seen fs = None \<longleftrightarrow> list_all (progress_ok blockSize) fs"
  using assms
proof (induction fs arbitrary: i seen tot r)
  case (Cons f fs)
  from Cons.prems obtain name r' where
    step: "validate_files (i + 1) (strings_ToLower name # seen) (tot + jf_Size f) (map file_entry fs) = Inr r'"
    and name: "NormalizeTransferPath (jf_Name f) = Inr name"
    and new: "strings_ToLower name \<notin> set seen"
    and ok: "jf_Idx f = i" "\<not> (jf_Size f < 0 \<or> jf_LastModified f < 0 \<or> jf_BlockSize f \<le> 0 \<or> jf_Blocks f < 0)"
      "\<not> MaxManifestBlockBytes < jf_BlockSize f" "jf_Blocks f = wantBlocks (file_entry f)"
    by (auto simp: Let_def split: if_splits sum.splits)
  show ?case using Cons.IH [OF step] name new ok by (auto simp: progress_ok_def split: option.splits)
qed simp

definition journal_manifest :: "DurableJournal \<Rightarrow> Manifest" where
  "journal_manifest j = \<lparr>mf_Type = 0, mf_TransferID = jn_TransferID j,
     mf_Files = map file_entry (jn_Files j),
     mf_TotalSize = foldl (\<lambda>t f. s64 (t + jf_Size f)) 0 (jn_Files j)\<rparr>"

definition header_ok :: "DurableJournal \<Rightarrow> bool" where
  "header_ok j \<longleftrightarrow> jn_SchemaVersion j = JournalSchemaVersion \<and> jn_ResumeVersion j = JournalResumeVersion
     \<and> jn_ProtocolVersion j = ProtocolVersion \<and> isLowerHex (jn_TransferID j) 32
     \<and> 0 < jn_CreatedAt j \<and> jn_CreatedAt j \<le> jn_UpdatedAt j
     \<and> 0 < jn_BlockSize j \<and> jn_BlockSize j \<le> MaxManifestBlockBytes
     \<and> validateIdentity (jn_SourceIdentity j) = None
     \<and> validateIdentity (jn_DestinationIdentity j) = None
     \<and> pred_option (\<lambda>s. validateEnvelope s = None) (jn_ResumeSecret j)"

lemma fingerprint_files:
  "fingerprintFromFiles (jn_TransferID j) (jn_Files j) = ManifestFingerprint (journal_manifest j)"
  by (simp add: fingerprintFromFiles_def journal_manifest_def)

lemma ManifestFingerprint_files:
  assumes "ManifestFingerprint m = Inr fp"
  shows "mf_Files m \<noteq> []" and "length (mf_Files m) \<le> MaxTransferFiles"
    and "\<exists>r. validate_files 0 [] 0 (mf_Files m) = Inr r"
  using assms by (auto simp: ManifestFingerprint_def ValidateManifest_def split: sum.splits if_splits)

lemma ValidateJournal_iff:
  "ValidateJournal j = None \<longleftrightarrow> header_ok j
     \<and> ManifestFingerprint (journal_manifest j) = Inr (jn_ManifestFingerprint j)
     \<and> list_all (progress_ok (jn_BlockSize j)) (jn_Files j)"
proof (cases "ManifestFingerprint (journal_manifest j)")
  case (Inl e)
  then show ?thesis by (auto simp: ValidateJournal_def fingerprint_files split: option.splits)
next
  case (Inr fp)
  have hex: "isLowerHex fp 64" using ManifestFingerprint_hex [OF Inr] .
  have n: "jn_Files j \<noteq> []" "\<not> MaxTransferFiles < length (jn_Files j)"
    using ManifestFingerprint_files(1,2) [OF Inr] by (auto simp: journal_manifest_def)
  obtain r where "validate_files 0 [] 0 (map file_entry (jn_Files j)) = Inr r"
    using ManifestFingerprint_files(3) [OF Inr] by (auto simp: journal_manifest_def)
  note files = validate_journal_files_iff [OF this, of "jn_BlockSize j"]
  show ?thesis
    using hex n Inr files
    by (cases "jn_ResumeSecret j")
      (auto simp: ValidateJournal_def fingerprint_files header_ok_def split: option.splits)
qed

end
