(* ===== verification/JournalOps.thy ===== *)
theory JournalOps
  imports Journal
begin

text \<open>
  What happens to a journal over its life: checkpoints advance through \<^verbatim>\<open>CommitBlocks\<close> and
  \<^verbatim>\<open>SetDigestCheckpoint\<close>, in any order and with any arguments, and the journal is written with
  \<^verbatim>\<open>WriteJournalAtomic\<close> to a file system that may fail or crash at every system call.
\<close>

section \<open>Sequences of operations\<close>

datatype journal_op =
    Commit int int int
  | Checkpoint int "JournalDigestCheckpoint option"

fun journal_step :: "DurableJournal \<Rightarrow> journal_op \<Rightarrow> DurableJournal" where
  "journal_step j (Commit fileIdx blocks now) = snd (CommitBlocks fileIdx blocks now j)"
| "journal_step j (Checkpoint fileIdx cp) = snd (SetDigestCheckpoint fileIdx cp j)"

lemma in_files_nat: "in_files i j \<Longrightarrow> nat i < length (jn_Files j)"
  by (simp add: in_files_def nat_less_iff)

text \<open>A journal and a later state of it.\<close>

definition advances :: "DurableJournal \<Rightarrow> DurableJournal \<Rightarrow> bool" where
  "advances j j' \<longleftrightarrow> (\<exists>t fs. j' = j\<lparr>jn_UpdatedAt := t, jn_Files := fs\<rparr>
     \<and> list_all2 (\<lambda>f f'. file_entry f' = file_entry f
         \<and> jf_CommittedBlocks f \<le> jf_CommittedBlocks f') (jn_Files j) fs)"

lemma advances_refl: "advances j j"
  by (auto simp: advances_def intro!: exI [of _ "jn_UpdatedAt j"] exI [of _ "jn_Files j"]
      list_all2_refl)

lemma advances_trans:
  assumes "advances j j'" and "advances j' j''"
  shows "advances j j''"
proof -
  let ?R = "\<lambda>f f'. file_entry f' = file_entry f \<and> jf_CommittedBlocks f \<le> jf_CommittedBlocks f'"
  from assms obtain t fs t' fs' where
    j': "j' = j\<lparr>jn_UpdatedAt := t, jn_Files := fs\<rparr>" "list_all2 ?R (jn_Files j) fs"
    and j'': "j'' = j'\<lparr>jn_UpdatedAt := t', jn_Files := fs'\<rparr>" "list_all2 ?R (jn_Files j') fs'"
    by (auto simp: advances_def)
  have "list_all2 ?R (jn_Files j) fs'"
    by (rule list_all2_trans [OF _ j'(2)]) (use j'(1) j''(2) in auto)
  moreover have "j'' = j\<lparr>jn_UpdatedAt := t', jn_Files := fs'\<rparr>" using j'(1) j''(1) by simp
  ultimately show ?thesis unfolding advances_def by blast
qed

lemma advances_set_file:
  assumes "in_files i j" and "file_entry f' = file_entry (jn_Files j ! nat i)"
    and "jf_CommittedBlocks (jn_Files j ! nat i) \<le> jf_CommittedBlocks f'"
  shows "advances j ((set_file i f' j)\<lparr>jn_UpdatedAt := t\<rparr>)"
proof -
  have "list_all2 (\<lambda>f f'. file_entry f' = file_entry f \<and> jf_CommittedBlocks f \<le> jf_CommittedBlocks f')
      (jn_Files j) ((jn_Files j)[nat i := f'])"
    using assms by (auto simp: list_all2_conv_all_nth nth_list_update in_files_def nat_less_iff)
  then show ?thesis
    by (auto simp: advances_def set_file_def intro!: exI [of _ t] exI [of _ "(jn_Files j)[nat i := f']"])
qed

text \<open>The two operations either refuse and change nothing, or replace one file state.\<close>

lemma CommitBlocks_cases:
  obtains (refused) e where "CommitBlocks i n now j = (Some e, j)"
  | (committed) f where "CommitBlocks i n now j
        = (None, (set_file i (f\<lparr>jf_CommittedBlocks := n, jf_DigestCheckpoint := None\<rparr>) j)\<lparr>jn_UpdatedAt := now\<rparr>)"
      and "in_files i j" and "f = jn_Files j ! nat i" and "0 \<le> n" and "n \<le> jf_Blocks f"
      and "jf_CommittedBlocks f \<le> n"
proof (cases "in_files i j \<and> \<not> (n < 0 \<or> jf_Blocks (jn_Files j ! nat i) < n)
    \<and> \<not> n < jf_CommittedBlocks (jn_Files j ! nat i)")
  case True
  then show ?thesis by (intro committed [of "jn_Files j ! nat i"]) (simp_all add: CommitBlocks_def)
next
  case False
  then have "\<exists>e. CommitBlocks i n now j = (Some e, j)" by (auto simp: CommitBlocks_def Let_def)
  then show ?thesis using refused by blast
qed

lemma SetDigestCheckpoint_cases:
  obtains (refused) e where "SetDigestCheckpoint i cp j = (Some e, j)"
  | (set_cp) f where "SetDigestCheckpoint i cp j = (None, set_file i (f\<lparr>jf_DigestCheckpoint := cp\<rparr>) j)"
      and "in_files i j" and "f = jn_Files j ! nat i"
      and "pred_option (\<lambda>c. cp_CommittedBlocks c = jf_CommittedBlocks f) cp"
proof (cases "in_files i j \<and> pred_option (\<lambda>c. cp_CommittedBlocks c = jf_CommittedBlocks (jn_Files j ! nat i)) cp")
  case True
  then show ?thesis
    by (intro set_cp [of "jn_Files j ! nat i"]) (auto simp: SetDigestCheckpoint_def Let_def split: option.splits)
next
  case False
  then show ?thesis
    by (cases "in_files i j"; cases cp; intro refused) (simp_all add: SetDigestCheckpoint_def)
qed

lemma file_entry_update [simp]:
  "file_entry (f\<lparr>jf_CommittedBlocks := n\<rparr>) = file_entry f"
  "file_entry (f\<lparr>jf_DigestCheckpoint := cp\<rparr>) = file_entry f"
  by (simp_all add: file_entry_def)

lemma advances_step: "advances j (journal_step j op)"
proof (cases op)
  case (Commit i n now)
  show ?thesis
    by (cases i n now j rule: CommitBlocks_cases) (auto simp: Commit advances_refl intro!: advances_set_file)
next
  case (Checkpoint i cp)
  show ?thesis
  proof (cases i cp j rule: SetDigestCheckpoint_cases)
    case (set_cp f)
    have "advances j ((set_file i (f\<lparr>jf_DigestCheckpoint := cp\<rparr>) j)\<lparr>jn_UpdatedAt := jn_UpdatedAt j\<rparr>)"
      using set_cp by (intro advances_set_file) simp_all
    moreover have "(set_file i (f\<lparr>jf_DigestCheckpoint := cp\<rparr>) j)\<lparr>jn_UpdatedAt := jn_UpdatedAt j\<rparr>
        = set_file i (f\<lparr>jf_DigestCheckpoint := cp\<rparr>) j"
      by (simp add: set_file_def)
    ultimately show ?thesis using set_cp Checkpoint by simp
  qed (simp add: Checkpoint advances_refl)
qed

interpretation journal_history: evolving_machine journal_step advances
  by unfold_locales (auto intro: advances_refl advances_trans advances_step)

text \<open>What every file state satisfies at all times.\<close>

definition in_bounds :: "JournalFileState \<Rightarrow> bool" where
  "in_bounds f \<longleftrightarrow> 0 \<le> jf_CommittedBlocks f \<and> jf_CommittedBlocks f \<le> jf_Blocks f
     \<and> pred_option (\<lambda>c. cp_CommittedBlocks c = jf_CommittedBlocks f) (jf_DigestCheckpoint f)"

lemma all_files_set: "list_all P (jn_Files j) \<Longrightarrow> P f \<Longrightarrow> list_all P (jn_Files (set_file i f j))"
  by (auto simp: set_file_def list_all_iff dest!: set_update_subset_insert [THEN subsetD])

lemma all_files_nth: "list_all P (jn_Files j) \<Longrightarrow> in_files i j \<Longrightarrow> P (jn_Files j ! nat i)"
  by (auto simp: in_files_def list_all_length)

interpretation bounded_journal: machine journal_step "\<lambda>j :: DurableJournal. list_all in_bounds (jn_Files j)"
proof
  fix j :: DurableJournal and op
  assume j: "list_all in_bounds (jn_Files j)"
  show "list_all in_bounds (jn_Files (journal_step j op))"
  proof (cases op)
    case (Commit i n now)
    show ?thesis
    proof (cases i n now j rule: CommitBlocks_cases)
      case (committed f)
      then show ?thesis using all_files_set [OF j, of "f\<lparr>jf_CommittedBlocks := n, jf_DigestCheckpoint := None\<rparr>" i]
        by (simp add: Commit in_bounds_def)
    qed (simp add: Commit j)
  next
    case (Checkpoint i cp)
    show ?thesis
    proof (cases i cp j rule: SetDigestCheckpoint_cases)
      case (set_cp f)
      then show ?thesis using all_files_set [OF j, of "f\<lparr>jf_DigestCheckpoint := cp\<rparr>" i]
          all_files_nth [OF j set_cp(2)] by (simp add: Checkpoint in_bounds_def)
    qed (simp add: Checkpoint j)
  qed
qed

lemma progress_ok_in_bounds: "progress_ok bs f \<Longrightarrow> in_bounds f"
  by (auto simp: progress_ok_def in_bounds_def validateDigestCheckpoint_def split: option.splits if_splits)

section \<open>Journals stay encodable\<close>

text \<open>A checkpoint as the digest produces it, for a file of the journal.\<close>

definition checkpoint_shape :: "JournalFileState \<Rightarrow> JournalDigestCheckpoint \<Rightarrow> bool" where
  "checkpoint_shape f c \<longleftrightarrow> journalDigestCheckpointFormatPattern (cp_Format c)
     \<and> cp_CommittedBytes c = checkpoint_bytes (cp_CommittedBlocks c) f
     \<and> length (cp_State c) mod 2 = 0 \<and> isLowerHex (cp_State c) (length (cp_State c))
     \<and> cp_State c \<noteq> [] \<and> length (cp_State c) \<le> maxDigestCheckpointStateHex"

fun op_ok :: "DurableJournal \<Rightarrow> journal_op \<Rightarrow> bool" where
  "op_ok j (Commit i n now) = (jn_CreatedAt j \<le> now)"
| "op_ok j (Checkpoint i cp) = (in_files i j \<longrightarrow> pred_option (checkpoint_shape (jn_Files j ! nat i)) cp)"

lemma checkpoint_bytes_update [simp]:
  "checkpoint_bytes n (f\<lparr>jf_DigestCheckpoint := cp\<rparr>) = checkpoint_bytes n f"
  by (simp add: checkpoint_bytes_def Let_def)

lemma validateDigestCheckpoint_None [simp]:
  "jf_DigestCheckpoint f = None \<Longrightarrow> validateDigestCheckpoint f = None"
  by (simp add: validateDigestCheckpoint_def)

lemma validateDigestCheckpoint_shape:
  "checkpoint_shape f c \<Longrightarrow> cp_CommittedBlocks c = jf_CommittedBlocks f \<Longrightarrow>
     validateDigestCheckpoint (f\<lparr>jf_DigestCheckpoint := Some c\<rparr>) = None"
  by (simp add: validateDigestCheckpoint_def checkpoint_shape_def)

lemma checkpoint_shape_entry:
  "file_entry f' = file_entry f \<Longrightarrow> checkpoint_shape f' = checkpoint_shape f"
  by (rule ext) (auto simp: checkpoint_shape_def checkpoint_bytes_def file_entry_def Let_def)

lemma advances_op_ok:
  assumes "advances j j'"
  shows "op_ok j' op = op_ok j op"
proof -
  from assms obtain t fs where j': "j' = j\<lparr>jn_UpdatedAt := t, jn_Files := fs\<rparr>"
    and fs: "list_all2 (\<lambda>f f'. file_entry f' = file_entry f
         \<and> jf_CommittedBlocks f \<le> jf_CommittedBlocks f') (jn_Files j) fs"
    by (auto simp: advances_def)
  show ?thesis
  proof (cases op)
    case (Checkpoint i cp)
    have "in_files i j' = in_files i j" using j' list_all2_lengthD [OF fs] by (simp add: in_files_def)
    moreover have "checkpoint_shape (jn_Files j' ! nat i) = checkpoint_shape (jn_Files j ! nat i)" if "in_files i j"
      using that j' list_all2_nthD [OF fs, of "nat i"] by (intro checkpoint_shape_entry) (simp add: in_files_def nat_less_iff)
    ultimately show ?thesis by (simp add: Checkpoint)
  qed (use j' in simp)
qed

lemma foldl_sizes:
  "foldl (\<lambda>t f. s64 (t + jf_Size f)) z fs = foldl (\<lambda>t e. s64 (t + fe_Size e)) z (map file_entry fs)"
  by (induction fs arbitrary: z) simp_all

lemma map_file_entry_set:
  assumes "in_files i j" and "file_entry f' = file_entry (jn_Files j ! nat i)"
  shows "map file_entry ((jn_Files j)[nat i := f']) = map file_entry (jn_Files j)"
proof -
  have "map file_entry ((jn_Files j)[nat i := f']) = (map file_entry (jn_Files j))[nat i := file_entry (jn_Files j ! nat i)]"
    using assms(2) by (simp add: map_update)
  also have "\<dots> = map file_entry (jn_Files j)"
    using in_files_nat [OF assms(1)] by (simp add: list_update_same_conv)
  finally show ?thesis .
qed

lemma journal_manifest_set:
  assumes "in_files i j" and "file_entry f' = file_entry (jn_Files j ! nat i)"
  shows "journal_manifest ((set_file i f' j)\<lparr>jn_UpdatedAt := t\<rparr>) = journal_manifest j"
  using map_file_entry_set [OF assms] by (simp add: journal_manifest_def set_file_def foldl_sizes)

lemma ValidateJournal_set:
  assumes "ValidateJournal j = None" and "in_files i j"
    and "file_entry f' = file_entry (jn_Files j ! nat i)" and "progress_ok (jn_BlockSize j) f'"
    and "jn_CreatedAt j \<le> t"
  shows "ValidateJournal ((set_file i f' j)\<lparr>jn_UpdatedAt := t\<rparr>) = None"
proof -
  have h: "header_ok j" "ManifestFingerprint (journal_manifest j) = Inr (jn_ManifestFingerprint j)"
    "list_all (progress_ok (jn_BlockSize j)) (jn_Files j)"
    using assms(1) by (simp_all add: ValidateJournal_iff)
  have "list_all (progress_ok (jn_BlockSize j)) (jn_Files (set_file i f' j))"
    by (rule all_files_set [OF h(3) assms(4)])
  then show ?thesis
    using h(1,2) assms(5) journal_manifest_set [OF assms(2,3)]
    by (simp add: ValidateJournal_iff header_ok_def set_file_def)
qed

lemma ValidateJournal_step:
  assumes "ValidateJournal j = None" and "op_ok j op"
  shows "ValidateJournal (journal_step j op) = None"
proof (cases op)
  case (Commit i n now)
  show ?thesis
  proof (cases i n now j rule: CommitBlocks_cases)
    case (committed f)
    have "progress_ok (jn_BlockSize j) f"
      using all_files_nth committed(2,3) assms(1) by (auto simp: ValidateJournal_iff)
    with committed have "progress_ok (jn_BlockSize j) (f\<lparr>jf_CommittedBlocks := n, jf_DigestCheckpoint := None\<rparr>)"
      by (simp add: progress_ok_def validateDigestCheckpoint_def)
    with committed assms(2) ValidateJournal_set [OF assms(1) committed(2)] show ?thesis
      by (simp add: Commit)
  qed (simp add: Commit assms(1))
next
  case (Checkpoint i cp)
  show ?thesis
  proof (cases i cp j rule: SetDigestCheckpoint_cases)
    case (set_cp f)
    let ?f = "f\<lparr>jf_DigestCheckpoint := cp\<rparr>"
    have p: "progress_ok (jn_BlockSize j) f"
      using all_files_nth set_cp(2,3) assms(1) by (auto simp: ValidateJournal_iff)
    have "validateDigestCheckpoint ?f = None"
      using set_cp assms(2) validateDigestCheckpoint_shape
      by (cases cp) (simp_all add: Checkpoint)
    with p have "progress_ok (jn_BlockSize j) ?f" by (simp add: progress_ok_def)
    moreover have "jn_CreatedAt j \<le> jn_UpdatedAt j" using assms(1) by (simp add: ValidateJournal_iff header_ok_def)
    ultimately have "ValidateJournal ((set_file i ?f j)\<lparr>jn_UpdatedAt := jn_UpdatedAt j\<rparr>) = None"
      using set_cp by (intro ValidateJournal_set [OF assms(1)]) simp_all
    moreover have "(set_file i ?f j)\<lparr>jn_UpdatedAt := jn_UpdatedAt j\<rparr> = set_file i ?f j"
      by (simp add: set_file_def)
    ultimately show ?thesis using set_cp by (simp add: Checkpoint)
  qed (simp add: Checkpoint assms(1))
qed

lemma ValidateJournal_run:
  "ValidateJournal j = None \<Longrightarrow> list_all (op_ok j) ops \<Longrightarrow> ValidateJournal (foldl journal_step j ops) = None"
proof (induction ops arbitrary: j)
  case (Cons op ops)
  have "op_ok (journal_step j op) = op_ok j" by (rule ext, rule advances_op_ok, rule advances_step)
  with Cons ValidateJournal_step [of j op] show ?case by simp
qed simp

section \<open>The file system\<close>

text \<open>
  Names map to inodes.  \<open>fs_entries\<close> lists, for every name, the values its directory entry had
  since the directory was last synced, the current one first: after a crash the entry has any one
  of them.  \<open>fs_clean\<close> tells whether the contents of an inode have reached stable storage; if not,
  a crash may leave any bytes there.
\<close>

record fsys =
  fs_entries :: "string \<Rightarrow> nat option list"
  fs_data :: "nat \<Rightarrow> bytes"
  fs_clean :: "nat \<Rightarrow> bool"
  fs_next :: nat

definition fs_lookup :: "fsys \<Rightarrow> string \<Rightarrow> nat option" where
  "fs_lookup fs name = hd (fs_entries fs name)"

definition ReadFile :: "fsys \<Rightarrow> string \<Rightarrow> bytes option" where
  "ReadFile fs name = map_option (fs_data fs) (fs_lookup fs name)"

definition set_entry :: "string \<Rightarrow> nat option \<Rightarrow> fsys \<Rightarrow> fsys" where
  "set_entry name e fs = fs\<lparr>fs_entries := (fs_entries fs)(name := e # fs_entries fs name)\<rparr>"

text \<open>What may be read under a name after a crash.\<close>

definition entry_reads :: "fsys \<Rightarrow> bytes option \<Rightarrow> nat option \<Rightarrow> bool" where
  "entry_reads fs c e = (case e of None \<Rightarrow> c = None
     | Some i \<Rightarrow> c \<noteq> None \<and> (fs_clean fs i \<longrightarrow> c = Some (fs_data fs i)))"

definition survives :: "fsys \<Rightarrow> string \<Rightarrow> bytes option \<Rightarrow> bool" where
  "survives fs name c \<longleftrightarrow> list_ex (entry_reads fs c) (fs_entries fs name)"

text \<open>The environment's part in one write: the random suffixes \<^verbatim>\<open>CreateTemp\<close> tries, and
  which system calls succeed; \<open>env_write\<close> is the number of bytes written by a failing write.\<close>

record write_env =
  env_suffixes :: "string list"
  env_write :: "nat option"
  env_sync :: bool
  env_close :: bool
  env_rename :: bool
  env_remove :: bool
  env_opendir :: bool
  env_syncdir :: bool

fun CreateTemp :: "string \<Rightarrow> string list \<Rightarrow> fsys \<Rightarrow> (string \<times> nat \<times> fsys) option" where
  "CreateTemp pattern [] fs = None"
| "CreateTemp pattern (suffix # suffixes) fs =
     (let name = pattern @ suffix in
      if fs_lookup fs name \<noteq> None then CreateTemp pattern suffixes fs
      else let i = fs_next fs in
        Some (name, i, (set_entry name (Some i) fs)\<lparr>fs_data := (fs_data fs)(i := []),
          fs_clean := (fs_clean fs)(i := False), fs_next := Suc i\<rparr>))"

definition file_Write :: "nat \<Rightarrow> bytes \<Rightarrow> fsys \<Rightarrow> fsys" where
  "file_Write i data fs = fs\<lparr>fs_data := (fs_data fs)(i := fs_data fs i @ data),
     fs_clean := (fs_clean fs)(i := False)\<rparr>"

definition file_Sync :: "nat \<Rightarrow> fsys \<Rightarrow> fsys" where
  "file_Sync i fs = fs\<lparr>fs_clean := (fs_clean fs)(i := True)\<rparr>"

definition os_Remove :: "bool \<Rightarrow> string \<Rightarrow> fsys \<Rightarrow> fsys" where
  "os_Remove ok name fs = (if ok then set_entry name None fs else fs)"

definition os_Rename :: "string \<Rightarrow> string \<Rightarrow> fsys \<Rightarrow> fsys" where
  "os_Rename old new fs = set_entry old None (set_entry new (fs_lookup fs old) fs)"

definition syncDir :: "write_env \<Rightarrow> fsys \<Rightarrow> fsys" where
  "syncDir env fs = (if env_opendir env \<and> env_syncdir env
     then fs\<lparr>fs_entries := (\<lambda>name. [fs_lookup fs name])\<rparr> else fs)"

text \<open>The result and the states of the file system after each system call, in order.\<close>

definition atomicWriteFile :: "write_env \<Rightarrow> string \<Rightarrow> bytes \<Rightarrow> fsys \<Rightarrow> err option \<times> fsys list" where
  "atomicWriteFile env path data fs =
     (case CreateTemp (path @ ''.tmp-'') (env_suffixes env) fs of
        None \<Rightarrow> (Some (storage_error ''journal: create temp''), [])
      | Some (tmp, i, fs1) \<Rightarrow>
        (case env_write env of
           Some n \<Rightarrow> let fs2 = file_Write i (take n data) fs1 in
             (Some (storage_error ''journal: write temp''), [fs1, fs2, os_Remove (env_remove env) tmp fs2])
         | None \<Rightarrow>
           let fs2 = file_Write i data fs1 in
           if \<not> env_sync env
           then (Some (storage_error ''journal: sync temp''), [fs1, fs2, os_Remove (env_remove env) tmp fs2])
           else let fs3 = file_Sync i fs2 in
             if \<not> env_close env
             then (Some (storage_error ''journal: close temp''), [fs1, fs2, fs3, os_Remove (env_remove env) tmp fs3])
             else if \<not> env_rename env
             then (Some (storage_error ''journal: replace''), [fs1, fs2, fs3, os_Remove (env_remove env) tmp fs3])
             else let fs4 = os_Rename tmp path fs3 in (None, [fs1, fs2, fs3, fs4, syncDir env fs4])))"

definition WriteJournalAtomic :: "write_env \<Rightarrow> string \<Rightarrow> DurableJournal \<Rightarrow> fsys \<Rightarrow> err option \<times> fsys list" where
  "WriteJournalAtomic env path j fs = (case EncodeJournal j of Inl e \<Rightarrow> (Some e, [])
     | Inr data \<Rightarrow> atomicWriteFile env path data fs)"

section \<open>Crash safety of the replacement\<close>

text \<open>A file whose entry and contents are on stable storage, in a file system whose entries use
  allocated inodes only.\<close>

definition fs_wf :: "fsys \<Rightarrow> bool" where
  "fs_wf fs \<longleftrightarrow> (\<forall>name. fs_entries fs name \<noteq> [] \<and> (\<forall>i. Some i \<in> set (fs_entries fs name) \<longrightarrow> i < fs_next fs))"

definition stable :: "fsys \<Rightarrow> string \<Rightarrow> bool" where
  "stable fs name \<longleftrightarrow> fs_entries fs name = [fs_lookup fs name]
     \<and> pred_option (fs_clean fs) (fs_lookup fs name)"

text \<open>The interface a journal store needs: after a replacement of one file, whatever system call
  failed and wherever a crash happens, the file holds its old or its new contents.\<close>

locale crash_safe_replace =
  fixes replace :: "'env \<Rightarrow> string \<Rightarrow> bytes \<Rightarrow> 'fs \<Rightarrow> err option \<times> 'fs list"
    and read_file :: "'fs \<Rightarrow> string \<Rightarrow> bytes option"
    and after_crash :: "'fs \<Rightarrow> string \<Rightarrow> bytes option \<Rightarrow> bool"
    and good :: "'fs \<Rightarrow> string \<Rightarrow> bool"
  assumes before: "good fs path \<Longrightarrow> after_crash fs path c \<Longrightarrow> c = read_file fs path"
    and during: "good fs path \<Longrightarrow> replace env path data fs = (r, states) \<Longrightarrow> fs' \<in> set states \<Longrightarrow>
      after_crash fs' path c \<Longrightarrow> c = read_file fs path \<or> c = Some data"
    and written: "good fs path \<Longrightarrow> replace env path data fs = (None, states) \<Longrightarrow>
      states \<noteq> [] \<and> read_file (last states) path = Some data"
    and refused: "good fs path \<Longrightarrow> replace env path data fs = (Some e, states) \<Longrightarrow> fs' \<in> set states \<Longrightarrow>
      read_file fs' path = read_file fs path \<and> (after_crash fs' path c \<longrightarrow> c = read_file fs path)"
begin

lemma old_or_new:
  assumes "good fs path" and "replace env path data fs = (r, states)" and "fs' \<in> set (fs # states)"
    and "after_crash fs' path c"
  shows "c = read_file fs path \<or> c = Some data"
  using assms(3)
proof (cases "fs' = fs")
  case True
  with before assms(1,4) show ?thesis by simp
next
  case False
  with assms during [OF assms(1,2) _ assms(4)] show ?thesis by simp
qed

text \<open>A reader that understands the old and the new contents always has one of them.\<close>

lemma recovers:
  assumes "good fs path" and "replace env path data fs = (r, states)" and "fs' \<in> set (fs # states)"
    and "after_crash fs' path c" and "read_file fs path = Some old"
    and "dec old = Inr x" and "dec data = Inr y"
  shows "\<exists>bs. c = Some bs \<and> (dec bs = Inr x \<or> dec bs = Inr y)"
  using old_or_new [OF assms(1-4)] assms(5-7) by auto

end

lemma CreateTemp_Some:
  assumes "CreateTemp pattern suffixes fs = Some (tmp, i, fs1)"
  obtains s where "tmp = pattern @ s" and "fs_lookup fs tmp = None" and "i = fs_next fs"
    and "fs1 = (set_entry tmp (Some i) fs)\<lparr>fs_data := (fs_data fs)(i := []),
      fs_clean := (fs_clean fs)(i := False), fs_next := Suc i\<rparr>"
  using assms
  by (induction pattern suffixes fs rule: CreateTemp.induct) (auto simp: Let_def split: if_splits)

text \<open>The states before the rename leave the file alone.\<close>

definition untouched :: "fsys \<Rightarrow> string \<Rightarrow> fsys \<Rightarrow> bool" where
  "untouched fs path fs' \<longleftrightarrow> fs_entries fs' path = fs_entries fs path
     \<and> (\<forall>i. fs_lookup fs path = Some i \<longrightarrow> fs_data fs' i = fs_data fs i \<and> fs_clean fs' i = fs_clean fs i)"

lemma untouched_survives:
  assumes "stable fs path" and "untouched fs path fs'" and "survives fs' path c"
  shows "c = ReadFile fs path"
  using assms
  by (cases "fs_lookup fs path")
    (auto simp: stable_def untouched_def survives_def ReadFile_def entry_reads_def)

lemma untouched_read: "untouched fs path fs' \<Longrightarrow> ReadFile fs' path = ReadFile fs path"
  by (cases "fs_lookup fs path") (auto simp: untouched_def ReadFile_def fs_lookup_def)

lemma untouched_temp:
  assumes "untouched fs path fs'" and "tmp \<noteq> path" and "fs_lookup fs path \<noteq> Some i"
  shows "untouched fs path (set_entry tmp e fs')" and "untouched fs path (file_Write i bs fs')"
    and "untouched fs path (file_Sync i fs')" and "untouched fs path (os_Remove ok tmp fs')"
  using assms by (auto simp: untouched_def set_entry_def file_Write_def file_Sync_def os_Remove_def)

lemma atomicWriteFile_states:
  assumes "fs_wf fs" and "stable fs path" and "atomicWriteFile env path data fs = (r, states)"
  shows "(\<exists>e. r = Some e) \<and> list_all (untouched fs path) states
    \<or> (\<exists>before fs3 fs4 tmp i. r = None \<and> states = before @ [fs4, syncDir env fs4]
        \<and> list_all (untouched fs path) before \<and> untouched fs path fs3 \<and> tmp \<noteq> path
        \<and> fs4 = os_Rename tmp path fs3 \<and> fs_lookup fs3 tmp = Some i
        \<and> fs_data fs3 i = data \<and> fs_clean fs3 i)"
proof (cases "CreateTemp (path @ ''.tmp-'') (env_suffixes env) fs")
  case None
  with assms(3) show ?thesis by (auto simp: atomicWriteFile_def)
next
  case (Some x)
  then obtain tmp i fs1 where ct: "CreateTemp (path @ ''.tmp-'') (env_suffixes env) fs = Some (tmp, i, fs1)"
    by (cases x) auto
  then obtain s where tmp: "tmp = path @ ''.tmp-'' @ s" and i: "i = fs_next fs"
    and fs1: "fs1 = (set_entry tmp (Some i) fs)\<lparr>fs_data := (fs_data fs)(i := []),
      fs_clean := (fs_clean fs)(i := False), fs_next := Suc i\<rparr>"
    by (rule CreateTemp_Some) auto
  have ne: "tmp \<noteq> path" using tmp by simp
  have new: "fs_lookup fs path \<noteq> Some i"
  proof
    assume "fs_lookup fs path = Some i"
    then have "Some i \<in> set (fs_entries fs path)" using assms(1) by (metis fs_lookup_def fs_wf_def hd_in_set)
    with assms(1) i show False by (auto simp: fs_wf_def)
  qed
  have u1: "untouched fs path fs1" using ne new by (auto simp: fs1 untouched_def set_entry_def)
  note steps = untouched_temp(2-4) [OF _ ne new]
  let ?fs3 = "file_Sync i (file_Write i data fs1)"
  have u2: "untouched fs path (file_Write i bs fs1)" for bs by (rule steps(1) [OF u1])
  have u3: "untouched fs path ?fs3" by (rule steps(2) [OF u2])
  have look: "fs_lookup ?fs3 tmp = Some i" "fs_data ?fs3 i = data" "fs_clean ?fs3 i"
    by (simp_all add: fs1 file_Sync_def file_Write_def fs_lookup_def set_entry_def)
  show ?thesis
  proof (cases "env_write env = None \<and> env_sync env \<and> env_close env \<and> env_rename env")
    case True
    then have "r = None" "states = [fs1, file_Write i data fs1, ?fs3]
        @ [os_Rename tmp path ?fs3, syncDir env (os_Rename tmp path ?fs3)]"
      using assms(3) ct by (simp_all add: atomicWriteFile_def Let_def)
    moreover have "list_all (untouched fs path) [fs1, file_Write i data fs1, ?fs3]"
      using u1 u2 u3 by simp
    ultimately show ?thesis using u3 ne look by blast
  next
    case False
    then have "\<exists>e. r = Some e" "list_all (untouched fs path) states"
      using assms(3) ct u1 u2 u3 steps(3) [OF u2] steps(3) [OF u3]
      by (auto simp: atomicWriteFile_def Let_def split: option.splits if_splits)
    then show ?thesis by blast
  qed
qed

lemma entry_reads_update: "entry_reads (fs\<lparr>fs_entries := es\<rparr>) = entry_reads fs"
  by (intro ext) (simp add: entry_reads_def cong: option.case_cong)

lemma renamed_survives:
  assumes "survives (os_Rename tmp path fs) path c" and "tmp \<noteq> path" and "fs_lookup fs tmp = Some i"
    and "fs_clean fs i"
  shows "survives fs path c \<or> c = Some (fs_data fs i)"
  using assms by (auto simp: survives_def os_Rename_def set_entry_def entry_reads_update entry_reads_def [of fs c "Some i"])

lemma syncDir_survives: "fs_entries fs path \<noteq> [] \<Longrightarrow> survives (syncDir env fs) path c \<Longrightarrow> survives fs path c"
  by (auto simp: survives_def syncDir_def fs_lookup_def list_ex_iff entry_reads_update split: if_splits)

lemma os_Rename_entries [simp]: "fs_entries (os_Rename tmp path fs) path \<noteq> []"
  by (simp add: os_Rename_def set_entry_def)

interpretation atomic_file: crash_safe_replace atomicWriteFile ReadFile survives
    "\<lambda>fs path. fs_wf fs \<and> stable fs path"
proof
  fix fs path env data r states fs' c e
  assume g: "fs_wf fs \<and> stable fs path"
  note cases = atomicWriteFile_states [OF conjunct1 [OF g] conjunct2 [OF g]]
  {
    assume "survives fs path c"
    then show "c = ReadFile fs path"
      using g untouched_survives [of fs path fs] by (simp add: untouched_def)
  next
    assume a: "atomicWriteFile env path data fs = (r, states)" "fs' \<in> set states" "survives fs' path c"
    show "c = ReadFile fs path \<or> c = Some data"
    proof (cases "untouched fs path fs'")
      case True
      with g a(3) untouched_survives show ?thesis by blast
    next
      case False
      with cases [OF a(1)] a(2) obtain fs3 tmp i where
        fs': "fs' = os_Rename tmp path fs3 \<or> fs' = syncDir env (os_Rename tmp path fs3)"
        and fs3: "untouched fs path fs3" "tmp \<noteq> path" "fs_lookup fs3 tmp = Some i" "fs_data fs3 i = data" "fs_clean fs3 i"
        unfolding list_all_iff by auto
      have "survives (os_Rename tmp path fs3) path c"
        using fs' a(3) syncDir_survives os_Rename_entries by blast
      with renamed_survives [OF _ fs3(2,3,5)] fs3(1,4) g untouched_survives show ?thesis by blast
    qed
  next
    assume a: "atomicWriteFile env path data fs = (None, states)"
    from cases [OF a] show "states \<noteq> [] \<and> ReadFile (last states) path = Some data"
      by (auto simp: ReadFile_def os_Rename_def set_entry_def syncDir_def fs_lookup_def)
  next
    assume a: "atomicWriteFile env path data fs = (Some e, states)" "fs' \<in> set states"
    from cases [OF a(1)] a(2) have "untouched fs path fs'" by (auto simp: list_all_iff)
    with g untouched_read untouched_survives
    show "ReadFile fs' path = ReadFile fs path \<and> (survives fs' path c \<longrightarrow> c = ReadFile fs path)" by blast
  }
qed

section \<open>New journals\<close>

text \<open>The manifests a journal can be opened for: one block size, and digests of 64 hex digits.\<close>

definition journalable :: "Manifest \<Rightarrow> bool" where
  "journalable m \<longleftrightarrow> manifest_ok m \<and> isLowerHex (mf_TransferID m) 32
     \<and> list_all (\<lambda>f. fe_BlockSize f = fe_BlockSize (mf_Files m ! 0) \<and> isLowerHex (fe_FileDigest f) 64) (mf_Files m)"

lemma foldl_sizes_exact:
  assumes "list_all file_ok fs" and "0 \<le> t" and "t + sizes fs \<le> max_int64"
  shows "foldl (\<lambda>t e. s64 (t + fe_Size e)) t fs = t + sizes fs"
  using assms
proof (induction fs arbitrary: t)
  case (Cons f fs)
  have "0 \<le> fe_Size f" using Cons.prems by (simp add: file_ok_def)
  moreover have "0 \<le> sizes fs" using Cons.prems sizes_nonneg [of fs] by simp
  ultimately have "s64 (t + fe_Size f) = t + fe_Size f"
    using Cons.prems by (intro s64_id) (simp add: in_s64_def min_int64_def)
  with Cons \<open>0 \<le> fe_Size f\<close> show ?case by simp
qed simp

lemma ManifestFingerprint_Type: "ManifestFingerprint (m\<lparr>mf_Type := t\<rparr>) = ManifestFingerprint m"
proof -
  have "ValidateManifest (m\<lparr>mf_Type := t\<rparr>) = ValidateManifest m"
    by (simp add: ValidateManifest_def split: sum.splits)
  then show ?thesis by (simp add: ManifestFingerprint_def)
qed

lemma progress_ok_fresh: "progress_ok bs (fresh_file f) \<longleftrightarrow> fe_BlockSize f = bs
    \<and> isLowerHex (fe_FileDigest f) 64 \<and> 0 \<le> fe_Blocks f"
  by (auto simp: progress_ok_def fresh_file_def)

lemma NewJournal_ok:
  assumes "journalable m" and "validateIdentity src = None" and "validateIdentity dst = None" and "0 < now"
  shows "\<exists>j. NewJournal (mf_TransferID m) m src dst now = Inr j \<and> ValidateJournal j = None
    \<and> map file_entry (jn_Files j) = mf_Files m \<and> list_all (\<lambda>f. jf_CommittedBlocks f = 0) (jn_Files j)
    \<and> jn_CreatedAt j = now \<and> ManifestFingerprint m = Inr (jn_ManifestFingerprint j)"
proof -
  have ok: "manifest_ok m" and tid: "isLowerHex (mf_TransferID m) 32"
    and fs: "list_all (\<lambda>f. fe_BlockSize f = fe_BlockSize (mf_Files m ! 0) \<and> isLowerHex (fe_FileDigest f) 64) (mf_Files m)"
    using assms(1) by (simp_all add: journalable_def)
  obtain fp where fp: "ManifestFingerprint m = Inr fp"
    using ManifestFingerprint_validated [OF ValidateManifest_ok [OF ok]] by blast
  define j where "j = \<lparr>jn_SchemaVersion = JournalSchemaVersion, jn_TransferID = mf_TransferID m,
              jn_ManifestFingerprint = fp, jn_ProtocolVersion = ProtocolVersion,
              jn_ResumeVersion = JournalResumeVersion,
              jn_BlockSize = fe_BlockSize (mf_Files m ! 0),
              jn_CreatedAt = now, jn_UpdatedAt = now, jn_SourceIdentity = src,
              jn_DestinationIdentity = dst, jn_Files = map fresh_file (mf_Files m),
              jn_ResumeSecret = None, jn_Checksum = ''''\<rparr>"
  have entries: "map file_entry (map fresh_file (mf_Files m)) = mf_Files m"
    by (simp add: comp_def)
  have "journal_manifest j = m\<lparr>mf_Type := 0\<rparr>"
    using ok foldl_sizes_exact [of "mf_Files m" 0] entries
    by (simp add: journal_manifest_def j_def foldl_sizes manifest_ok_def del: map_map)
  then have m: "ManifestFingerprint (journal_manifest j) = Inr fp" using fp by (simp add: ManifestFingerprint_Type)
  have f0: "file_ok (mf_Files m ! 0)" using manifest_ok_file(1) [OF ok, of 0] ok by (simp add: manifest_ok_def)
  have "0 \<le> fe_Blocks f" if "f \<in> set (mf_Files m)" for f
    using that ok wantBlocks_cover(3) [of f] by (auto simp: manifest_ok_def list_all_iff file_ok_def)
  then have "ValidateJournal j = None"
    using m tid fs f0 assms(2-4)
    by (auto simp: ValidateJournal_iff header_ok_def j_def list_all_iff progress_ok_fresh file_ok_def)
  moreover from this have "NewJournal (mf_TransferID m) m src dst now = Inr j"
    using tid fp by (simp add: NewJournal_def j_def [symmetric])
  ultimately show ?thesis using entries fp by (simp add: j_def list_all_iff fresh_file_def comp_def)
qed

text \<open>A journal for one file of five bytes in blocks of two, used as an example below.\<close>

definition example_journal_manifest :: Manifest where
  "example_journal_manifest = NewManifest [example_file\<lparr>fe_FileDigest := replicate 64 CHR ''0''\<rparr>] 5
     \<lparr>mf_TransferID := replicate 32 CHR ''a''\<rparr>"

definition example_identity :: JournalIdentity where
  "example_identity = \<lparr>id_Version = 1, id_Value = ''ab''\<rparr>"

definition example_journal :: DurableJournal where
  "example_journal = (case NewJournal (replicate 32 CHR ''a'') example_journal_manifest
     example_identity example_identity 1000 of Inr j \<Rightarrow> j | Inl _ \<Rightarrow> zero_journal)"

lemma example_journalable: "journalable example_journal_manifest"
  using example_manifest_ok
  by (simp add: journalable_def example_journal_manifest_def manifest_ok_def example_manifest_def NewManifest_def
      isLowerHex_def file_ok_def wantBlocks_def path_key_def list_all_iff)

lemma example_identity_ok: "validateIdentity example_identity = None"
  by (simp add: validateIdentity_def example_identity_def validateOpaqueValue_def journalOpaqueHex_def
      is_lower_hex_char_def)

lemma example_journal_new:
  "NewJournal (mf_TransferID example_journal_manifest) example_journal_manifest example_identity example_identity 1000
     = Inr example_journal"
  "ValidateJournal example_journal = None" "jn_CreatedAt example_journal = 1000"
  "map file_entry (jn_Files example_journal) = mf_Files example_journal_manifest"
  using NewJournal_ok [OF example_journalable example_identity_ok example_identity_ok, of 1000]
  by (auto simp: example_journal_def example_journal_manifest_def)

lemma NewJournal_wire_ok:
  assumes "NewJournal tid m src dst now = Inr j" and "list_all file_wire_ok (mf_Files m)"
    and "identity_wire_ok src" and "identity_wire_ok dst" and "in_s64 now"
  shows "journal_wire_ok j"
proof -
  have fp: "\<exists>fp. ManifestFingerprint m = Inr fp" and tid: "isLowerHex tid 32"
    using assms(1) by (auto simp: NewJournal_def split: if_splits sum.splits)
  then obtain fp where fp: "ManifestFingerprint m = Inr fp" by blast
  have "mf_Files m \<noteq> []" using ManifestFingerprint_files(1) [OF fp] .
  then have bs: "in_s64 (fe_BlockSize (mf_Files m ! 0))"
    using assms(2) by (cases "mf_Files m") (simp_all add: file_wire_ok_def)
  have fresh: "journal_file_wire_ok (fresh_file f)" if "file_wire_ok f" for f
    using that by (simp add: journal_file_wire_ok_def fresh_file_def [of f, THEN arg_cong [where f = jf_CommittedBlocks]]
        fresh_file_def [of f, THEN arg_cong [where f = jf_DigestCheckpoint]] in_s64_def min_int64_def max_int64_def)
  show ?thesis
    using assms fp bs isLowerHex_valid [OF tid] isLowerHex_valid [OF ManifestFingerprint_hex [OF fp]] fresh
    by (auto simp: NewJournal_def journal_wire_ok_def Let_def list_all_iff JournalSchemaVersion_def
        JournalResumeVersion_def ProtocolVersion_def in_s64_def min_int64_def max_int64_def
        split: if_splits option.splits)
qed

lemma valid_string_zeros: "valid_string (replicate n CHR ''0'')"
  by (induction n) simp_all

lemma example_journal_wire_ok: "journal_wire_ok example_journal"
  by (rule NewJournal_wire_ok [OF example_journal_new(1)])
    (simp_all add: example_journal_manifest_def NewManifest_def example_file_def file_wire_ok_def
      valid_string_zeros example_identity_def identity_wire_ok_def in_s64_def min_int64_def max_int64_def)

section \<open>Properties\<close>

text \<open>a valid journal survives its encoding: \<^verbatim>\<open>EncodeJournal\<close> succeeds and
  \<^verbatim>\<open>DecodeJournal\<close> returns the same journal with the checksum filled in.\<close>

theorem journal_encode_decode:
  assumes "ValidateJournal j = None" and "journal_wire_ok j"
  shows "\<exists>data. EncodeJournal j = Inr data
    \<and> DecodeJournal data = Inr (j\<lparr>jn_Checksum := journal_checksum j\<rparr>)"
  using journal_codec.dec_enc [OF sealed_journalI [OF assms]] assms(1) by (simp add: EncodeJournal_def)

theorem journal_encode_decode_witness:
  "\<exists>data. EncodeJournal example_journal = Inr data
    \<and> DecodeJournal data = Inr (example_journal\<lparr>jn_Checksum := journal_checksum example_journal\<rparr>)"
  using journal_encode_decode [OF example_journal_new(2) example_journal_wire_ok] .

lemma members_into_keys:
  "members_into fds ms r = Some r' \<Longrightarrow> list_all (\<lambda>(k, v). list_ex (\<lambda>(n, _). key_match k n) fds) ms"
proof (induction ms arbitrary: r)
  case (Cons m ms)
  then show ?case by (cases m) (auto simp: find_Some_iff list_ex_length split: option.splits)
qed simp

text \<open>C29: \<^verbatim>\<open>DecodeJournal\<close> fails closed: whatever it accepts is one JSON object with nothing
  after it and only members of the schema, passes validation, and carries the checksum of its own
  canonical encoding.\<close>

theorem journal_decode_fails_closed:
  assumes "DecodeJournal data = Inr j"
  shows "ValidateJournal j = None \<and> jn_Checksum j = journal_checksum j
    \<and> (\<exists>ms. unmarshal data = Some ms
         \<and> list_all (\<lambda>(k, v). list_ex (\<lambda>(n, _). key_match k n) journal_fields) ms)
    \<and> EncodeJournal j = Inr (marshalJournalJSON j)"
proof -
  from assms obtain ms where u: "unmarshal data = Some ms" and d: "decodeJournalV1 data = Inr j"
    by (auto simp: DecodeJournal_def decodeJournalVersion_def split: option.splits if_splits)
  from d have v: "ValidateJournal j = None" "jn_Checksum j = journal_checksum j"
    and s: "\<exists>spare. unmarshalStrict journal_fields (zero_journal, []) data = Some (j, spare)"
    by (auto simp: decodeJournalV1_def split: option.splits if_splits)
  from u obtain v rest where "parse_value (2 * length (string_of_bytes data) + 2) 0 (string_of_bytes data) = Some (v, rest)"
    and "as_members v = Some ms"
    by (auto simp: unmarshal_def json_parse_def split: option.splits if_splits)
  with s obtain p where "members_into journal_fields ms (zero_journal, []) = Some p"
    by (auto simp: unmarshalStrict_def struct_into_def Let_def split: option.splits list.splits if_splits)
  then have "list_all (\<lambda>(k, v). list_ex (\<lambda>(n, _). key_match k n) journal_fields) ms"
    by (rule members_into_keys)
  moreover have "EncodeJournal j = Inr (marshalJournalJSON j)"
    using v by (simp add: EncodeJournal_def flip: v(2))
  ultimately show ?thesis using u v by blast
qed

theorem journal_decode_fails_closed_witness:
  "let j = example_journal\<lparr>jn_Checksum := journal_checksum example_journal\<rparr> in
     DecodeJournal (marshalJournalJSON j) = Inr j \<and> EncodeJournal j = Inr (marshalJournalJSON j)"
proof -
  let ?j = "example_journal\<lparr>jn_Checksum := journal_checksum example_journal\<rparr>"
  have "DecodeJournal (marshalJournalJSON ?j) = Inr ?j"
    by (rule DecodeJournal_marshal, rule sealed_journalI [OF example_journal_new(2) example_journal_wire_ok])
  from journal_decode_fails_closed [OF this] this show ?thesis by (simp only: Let_def)
qed

text \<open>C16: over any sequence of \<^verbatim>\<open>CommitBlocks\<close> and \<^verbatim>\<open>SetDigestCheckpoint\<close> calls, successful or
  refused, on a valid journal: the described file set never changes, the committed blocks of a
  file never decrease and never exceed its block count, and an attached digest checkpoint always
  covers exactly the committed blocks.\<close>

theorem journal_progress_monotone:
  assumes "ValidateJournal j = None" and "j' = foldl journal_step j ops"
  shows "map file_entry (jn_Files j') = map file_entry (jn_Files j)
    \<and> (\<forall>n < length (jn_Files j).
        jf_CommittedBlocks (jn_Files j ! n) \<le> jf_CommittedBlocks (jn_Files j' ! n)
        \<and> jf_CommittedBlocks (jn_Files j' ! n) \<le> jf_Blocks (jn_Files j ! n)
        \<and> pred_option (\<lambda>c. cp_CommittedBlocks c = jf_CommittedBlocks (jn_Files j' ! n))
            (jf_DigestCheckpoint (jn_Files j' ! n)))"
proof -
  have "list_all in_bounds (jn_Files j)"
    using assms(1) progress_ok_in_bounds by (auto simp: ValidateJournal_iff list_all_iff)
  then have b: "list_all in_bounds (jn_Files j')"
    unfolding assms(2) by (rule bounded_journal.inv_run)
  have "advances j j'" unfolding assms(2) by (rule journal_history.run_rel)
  then have fs: "list_all2 (\<lambda>f f'. file_entry f' = file_entry f
      \<and> jf_CommittedBlocks f \<le> jf_CommittedBlocks f') (jn_Files j) (jn_Files j')"
    by (auto simp: advances_def)
  have e: "map file_entry (jn_Files j') = map file_entry (jn_Files j)"
    using fs by (auto simp: list_all2_conv_all_nth intro: nth_equalityI)
  have "jf_Blocks (jn_Files j' ! n) = jf_Blocks (jn_Files j ! n)" if "n < length (jn_Files j)" for n
    using list_all2_nthD [OF fs that] by (metis file_entry_simps(5))
  then show ?thesis
    using e b fs by (auto simp: list_all2_conv_all_nth list_all_length in_bounds_def)
qed

theorem journal_progress_monotone_witness:
  "let j' = foldl journal_step example_journal [Commit 0 2 2000, Commit 0 1 3000] in
     jf_CommittedBlocks (jn_Files j' ! 0) = 2 \<and> jf_CommittedBlocks (jn_Files j' ! 0) \<le> 3"
proof -
  let ?j' = "foldl journal_step example_journal [Commit 0 2 2000, Commit 0 1 3000]"
  have n: "length (jn_Files example_journal) = 1" "jf_Blocks (jn_Files example_journal ! 0) = 3"
    using example_journal_new(4)
    by (auto simp: example_journal_manifest_def NewManifest_def example_file_def file_entry_def)
  have z: "jf_CommittedBlocks (jn_Files example_journal ! 0) = 0"
    using NewJournal_ok [OF example_journalable example_identity_ok example_identity_ok, of 1000]
      example_journal_new(1) n(1) by (auto simp: list_all_length)
  have "jf_CommittedBlocks (jn_Files ?j' ! 0) = 2"
    using n z by (simp add: CommitBlocks_def in_files_def set_file_def Let_def)
  moreover have "jf_CommittedBlocks (jn_Files ?j' ! 0) \<le> 3"
    using journal_progress_monotone [OF example_journal_new(2) refl, of "[Commit 0 2 2000, Commit 0 1 3000]"] n by simp
  ultimately show ?thesis by (simp add: Let_def)
qed



text \<open>C7: replacing the journal file refines an atomic register.  Wherever a crash happens during
  \<^verbatim>\<open>WriteJournalAtomic\<close> and whichever system calls fail, what is found on disk decodes to the old
  journal or to the new one; when the call returns without error the new journal is read back,
  and when it returns an error the old one is still in place, crash or not.\<close>

theorem journal_write_crash_safe:
  assumes "fs_wf fs" and "stable fs path"
    and "sealed_journal old" and "ReadFile fs path = Some (marshalJournalJSON old)"
    and "ValidateJournal j = None" and "journal_wire_ok j"
    and "WriteJournalAtomic env path j fs = (r, states)"
    and "new = j\<lparr>jn_Checksum := journal_checksum j\<rparr>"
  shows "(\<forall>fs' \<in> set (fs # states). \<forall>c. survives fs' path c \<longrightarrow>
        (\<exists>data. c = Some data \<and> (DecodeJournal data = Inr old \<or> r = None \<and> DecodeJournal data = Inr new)))
    \<and> (r = None \<longrightarrow> (\<exists>data. ReadFile (last states) path = Some data \<and> DecodeJournal data = Inr new))
    \<and> (r \<noteq> None \<longrightarrow> (\<forall>fs' \<in> set states. ReadFile fs' path = ReadFile fs path))"
proof -
  have good: "fs_wf fs \<and> stable fs path" using assms(1,2) by blast
  have w: "atomicWriteFile env path (marshalJournalJSON new) fs = (r, states)"
    using assms(5,7,8) by (simp add: WriteJournalAtomic_def EncodeJournal_def)
  have new: "DecodeJournal (marshalJournalJSON new) = Inr new"
    unfolding assms(8) by (rule DecodeJournal_marshal, rule sealed_journalI [OF assms(5,6)])
  note old = DecodeJournal_marshal [OF assms(3)]
  have crash: "\<exists>data. c = Some data \<and> (DecodeJournal data = Inr old \<or> r = None \<and> DecodeJournal data = Inr new)"
    if "fs' \<in> set (fs # states)" "survives fs' path c" for fs' c
  proof (cases r)
    case None
    with atomic_file.recovers [OF good w that assms(4) old new] show ?thesis by simp
  next
    case (Some e)
    have "c = ReadFile fs path"
    proof (cases "fs' = fs")
      case True
      with atomic_file.before [OF good] that(2) show ?thesis by simp
    next
      case False
      with atomic_file.refused [OF good, of env "marshalJournalJSON new" e states fs' c] w Some that
      show ?thesis by simp
    qed
    with assms(4) old show ?thesis by simp
  qed
  show ?thesis
  proof (intro conjI ballI allI impI)
    assume "r = None"
    with atomic_file.written [OF good, of env "marshalJournalJSON new" states] w new
    show "\<exists>data. ReadFile (last states) path = Some data \<and> DecodeJournal data = Inr new" by simp
  next
    fix fs' assume "r \<noteq> None" "fs' \<in> set states"
    then show "ReadFile fs' path = ReadFile fs path"
      using atomic_file.refused [OF good, of env "marshalJournalJSON new" _ states fs'] w by auto
  qed (use crash in blast)
qed

definition example_sealed :: DurableJournal where
  "example_sealed = example_journal\<lparr>jn_Checksum := journal_checksum example_journal\<rparr>"

definition example_disk :: fsys where
  "example_disk = \<lparr>fs_entries = (\<lambda>n. [if n = ''j'' then Some 0 else None]),
     fs_data = (\<lambda>_. marshalJournalJSON example_sealed), fs_clean = (\<lambda>_. True), fs_next = 1\<rparr>"

definition example_env :: write_env where
  "example_env = \<lparr>env_suffixes = [''7''], env_write = None, env_sync = True, env_close = True,
     env_rename = True, env_remove = True, env_opendir = True, env_syncdir = True\<rparr>"

theorem journal_write_crash_safe_witness:
  "\<exists>states data. WriteJournalAtomic example_env ''j'' example_journal example_disk = (None, states)
     \<and> ReadFile (last states) ''j'' = Some data \<and> DecodeJournal data = Inr example_sealed"
proof -
  have d: "fs_wf example_disk" "stable example_disk ''j''"
    "ReadFile example_disk ''j'' = Some (marshalJournalJSON example_sealed)"
    by (simp_all add: fs_wf_def stable_def fs_lookup_def example_disk_def ReadFile_def)
  have s: "sealed_journal example_sealed"
    unfolding example_sealed_def by (rule sealed_journalI [OF example_journal_new(2) example_journal_wire_ok])
  obtain states where w: "WriteJournalAtomic example_env ''j'' example_journal example_disk = (None, states)"
    using example_journal_new(2)
    by (simp add: WriteJournalAtomic_def EncodeJournal_def atomicWriteFile_def example_env_def
        example_disk_def fs_lookup_def Let_def)
  from journal_write_crash_safe [OF d(1,2) s d(3) example_journal_new(2) example_journal_wire_ok w refl]
  show ?thesis using w by (auto simp: example_sealed_def)
qed

end
