(* ===== verification/Signal.thy ===== *)
theory Signal
  imports Messages "HOL-Library.AList"
begin

text \<open>
  The signaling server (\<^verbatim>\<open>apps/server/internal/signal\<close>): the hub with its rooms
  (\<^verbatim>\<open>hub.go\<close>), the connections (\<^verbatim>\<open>peer.go\<close>) and the messages (\<^verbatim>\<open>message.go\<close>).  Every hub method
  runs under the hub's mutex and is one step; what a connection's reader does between two locked
  sections is a list of actions, so that readers and writers of all connections interleave at the
  points where the code releases a lock or blocks on a channel.  The verdicts of the rate
  limiters and the clock readings are arguments of the events.
\<close>

section \<open>Messages (message.go)\<close>

definition roleOfferer :: string where "roleOfferer = ''offerer''"
definition roleJoiner :: string where "roleJoiner = ''joiner''"

definition forwardable :: "string \<Rightarrow> bool" where
  "forwardable t \<longleftrightarrow> t \<in> set [''pake'', ''confirm'', ''caps'', ''sdp'', ''ice'']"

definition errBadMessage :: string where "errBadMessage = ''bad_message''"
definition errUnknownRoom :: string where "errUnknownRoom = ''unknown_room''"
definition errRoomFull :: string where "errRoomFull = ''room_full''"
definition errNotPaired :: string where "errNotPaired = ''not_paired''"
definition errRateLimited :: string where "errRateLimited = ''rate_limited''"
definition errProtocol :: string where "errProtocol = ''protocol''"
definition errRelayNotReady :: string where "errRelayNotReady = ''relay_not_ready''"
definition errRelayCredit :: string where "errRelayCredit = ''relay_credit''"
definition errRelayLimit :: string where "errRelayLimit = ''relay_limit''"

record clientMsg =
  cm_Type :: string
  cm_Room :: "int option"
  cm_Role :: string
  cm_Bytes :: int

definition parse_clientMsg :: "bytes \<Rightarrow> clientMsg option" where
  "parse_clientMsg data = (case unmarshal data of None \<Rightarrow> None
     | Some ms \<Rightarrow>
       (case (val_field as_string '''' ''type'' ms, ptr_field as_int ''room'' ms,
              val_field as_string '''' ''role'' ms, val_field as_int 0 ''bytes'' ms) of
          (Some t, Some r, Some ro, Some b) \<Rightarrow>
            Some \<lparr>cm_Type = t, cm_Room = r, cm_Role = ro, cm_Bytes = b\<rparr>
        | _ \<Rightarrow> None))"

definition mustJSON :: "(string \<times> json) list \<Rightarrow> bytes" where
  "mustJSON ms = bytes_of_string (json_print (JObj ms))"

definition createdFrame :: "int \<Rightarrow> bytes" where
  "createdFrame rm = mustJSON [(''type'', JStr ''created''), (''room'', jint rm)]"

definition peerJoinedFrame :: "string \<Rightarrow> bytes" where
  "peerJoinedFrame role = mustJSON [(''type'', JStr ''peer-joined''), (''role'', JStr role)]"

definition byeFrame :: "string \<Rightarrow> bytes" where
  "byeFrame reason = mustJSON ((''type'', JStr ''bye'') # omitempty ''reason'' reason)"

definition resumedFrame :: "int \<Rightarrow> bytes" where
  "resumedFrame rm = mustJSON [(''type'', JStr ''resumed''), (''room'', jint rm)]"

definition peerLeftFrame :: "bool \<Rightarrow> bytes" where
  "peerLeftFrame resumable = mustJSON [(''type'', JStr ''peer_left''), (''resumable'', JBool resumable)]"

definition relayFrame :: "string \<Rightarrow> bytes" where
  "relayFrame typ = mustJSON [(''type'', JStr typ)]"

definition peerRejoinedFrame :: bytes where
  "peerRejoinedFrame = relayFrame ''peer_rejoined''"

definition errorFrame :: "string \<Rightarrow> string \<Rightarrow> bytes" where
  "errorFrame errcode msg = mustJSON ((''type'', JStr ''error'') # (''code'', JStr errcode) # omitempty ''msg'' msg)"

definition creditFrame :: "int \<Rightarrow> bytes" where
  "creditFrame n = mustJSON ((''type'', JStr ''credit'') # (if n = 0 then [] else [(''bytes'', jint n)]))"

text \<open>\<^verbatim>\<open>Config\<close>; durations are nanoseconds, and the two \<^verbatim>\<open>float64\<close> rates, which the program only
  ever sets to whole numbers, are integers.\<close>

record Config =
  AllowedOrigins :: "string list"
  IdleTimeout :: int
  MaxMessageBytes :: int
  MsgBurst :: int
  MsgPerSec :: int
  ConnBurst :: int
  ConnPerSec :: int
  MaxRelayFrameBytes :: int
  RelayWindowBytes :: int
  RelayQueueBytes :: int
  RelayBurstBytes :: int
  RelayBytesPerSec :: int
  RelayMaxSessionBytes :: int

definition DefaultConfig :: Config where
  "DefaultConfig = \<lparr>AllowedOrigins = [], IdleTimeout = 10 * 60 * 1000000000, MaxMessageBytes = 64 * 1024,
     MsgBurst = 32, MsgPerSec = 16, ConnBurst = 16, ConnPerSec = 8,
     MaxRelayFrameBytes = 128 * 1024, RelayWindowBytes = 1024 * 1024,
     RelayQueueBytes = 2 * 1024 * 1024, RelayBurstBytes = 8 * 1024 * 1024,
     RelayBytesPerSec = 32 * 1024 * 1024, RelayMaxSessionBytes = 16 * 1024 * 1024 * 1024\<rparr>"

section \<open>State\<close>

datatype outboundFrame = TextFrame bytes | BinaryFrame bytes

fun frame_size :: "outboundFrame \<Rightarrow> int" where
  "frame_size (TextFrame d) = int (length d)"
| "frame_size (BinaryFrame d) = int (length d)"

definition sendBuffer :: nat where "sendBuffer = 16"

text \<open>What a reader still has to do before it reads the next message.  \<open>Push\<close> is the channel
  send of \<^verbatim>\<open>tryEnqueue\<close> after its bytes were reserved.\<close>

datatype action =
    Enqueue nat bytes
  | Push nat outboundFrame "action list" "action list"
  | Relay nat bytes
  | Charge nat int
  | Fail_peer nat string string
  | Close_peer nat "bytes option"
  | Teardown

text \<open>\<open>p_done\<close> holds the farewell once the peer is closed; \<open>p_serving\<close> and \<open>p_writing\<close> tell
  whether the reader and the writer still run; \<open>p_out\<close> lists the frames written to the socket.\<close>

record peer =
  p_room :: int
  p_role :: string
  p_send :: "outboundFrame list"
  p_queuedBytes :: int
  p_relayOpen :: bool
  p_relayCredit :: int
  p_done :: "bytes option option"
  p_graceful :: bool
  p_todo :: "action list"
  p_serving :: bool
  p_writing :: bool
  p_out :: "outboundFrame list"

definition newPeer :: peer where
  "newPeer = \<lparr>p_room = -1, p_role = '''', p_send = [], p_queuedBytes = 0, p_relayOpen = False,
     p_relayCredit = 0, p_done = None, p_graceful = False, p_todo = [], p_serving = True,
     p_writing = True, p_out = []\<rparr>"

record room =
  rm_number :: int
  rm_offerer :: "nat option"
  rm_joiner :: "nat option"
  rm_lastSeen :: int
  rm_relayBytes :: int

record Hub =
  h_cfg :: Config
  h_rooms :: "(int \<times> room) list"
  h_relayBytes :: int
  h_errors :: "string \<Rightarrow> int"
  h_peers :: "nat \<Rightarrow> peer"
  h_conns :: nat

definition NewHub :: "Config \<Rightarrow> Hub" where
  "NewHub cfg = \<lparr>h_cfg = cfg, h_rooms = [], h_relayBytes = 0, h_errors = (\<lambda>_. 0),
     h_peers = (\<lambda>_. newPeer), h_conns = 0\<rparr>"

abbreviation the_peer :: "Hub \<Rightarrow> nat \<Rightarrow> peer" where
  "the_peer h p \<equiv> h_peers h p"

definition set_peer :: "nat \<Rightarrow> (peer \<Rightarrow> peer) \<Rightarrow> Hub \<Rightarrow> Hub" where
  "set_peer p f h = h\<lparr>h_peers := (h_peers h)(p := f (h_peers h p))\<rparr>"

definition find_room :: "Hub \<Rightarrow> int \<Rightarrow> room option" where
  "find_room h n = map_of (h_rooms h) n"

definition put_room :: "int \<Rightarrow> room \<Rightarrow> Hub \<Rightarrow> Hub" where
  "put_room n r h = h\<lparr>h_rooms := AList.update n r (h_rooms h)\<rparr>"

definition delete_room :: "int \<Rightarrow> Hub \<Rightarrow> Hub" where
  "delete_room n h = h\<lparr>h_rooms := AList.delete n (h_rooms h)\<rparr>"

section \<open>The hub (hub.go)\<close>

definition roomPartner :: "room \<Rightarrow> nat \<Rightarrow> nat option" where
  "roomPartner r p = (if Some p = rm_offerer r then rm_joiner r
     else if Some p = rm_joiner r then rm_offerer r else None)"

definition openRelay :: "int \<Rightarrow> nat \<Rightarrow> Hub \<Rightarrow> (string, nat \<times> bool) result \<times> Hub" where
  "openRelay now p h =
     (case find_room h (p_room (the_peer h p)) of None \<Rightarrow> (Inl errNotPaired, h)
      | Some r \<Rightarrow>
        (case roomPartner r p of None \<Rightarrow> (Inl errNotPaired, h)
         | Some other \<Rightarrow>
           let h' = put_room (p_room (the_peer h p)) (r\<lparr>rm_lastSeen := now\<rparr>)
               (set_peer p (\<lambda>x. x\<lparr>p_relayOpen := True\<rparr>) h)
           in (Inr (other, p_relayOpen (the_peer h' other)), h')))"

definition grantRelayCredit :: "int \<Rightarrow> nat \<Rightarrow> int \<Rightarrow> Hub \<Rightarrow> (string, nat \<times> int) result \<times> Hub" where
  "grantRelayCredit now receiver requested h =
     (if requested \<le> 0 then (Inl errRelayCredit, h)
      else case find_room h (p_room (the_peer h receiver)) of None \<Rightarrow> (Inl errNotPaired, h)
        | Some r \<Rightarrow>
          (case roomPartner r receiver of None \<Rightarrow> (Inl errRelayNotReady, h)
           | Some sender \<Rightarrow>
             if \<not> p_relayOpen (the_peer h receiver) \<or> \<not> p_relayOpen (the_peer h sender)
             then (Inl errRelayNotReady, h)
             else let grant = min requested (min (RelayWindowBytes (h_cfg h))
                    (RelayWindowBytes (h_cfg h) - p_relayCredit (the_peer h sender)))
               in if grant \<le> 0 then (Inr (sender, 0), h)
                  else (Inr (sender, grant), put_room (p_room (the_peer h receiver)) (r\<lparr>rm_lastSeen := now\<rparr>)
                    (set_peer sender (\<lambda>x. x\<lparr>p_relayCredit := p_relayCredit x + grant\<rparr>) h))))"

text \<open>\<^verbatim>\<open>forwardRelay\<close> up to the enqueue: the partner that gets the frame.\<close>

definition forwardRelay :: "bool \<Rightarrow> nat \<Rightarrow> bytes \<Rightarrow> Hub \<Rightarrow> (string, nat) result" where
  "forwardRelay rate_ok sender data h =
     (let sz = int (length data) in
      if sz \<le> 0 \<or> MaxRelayFrameBytes (h_cfg h) < sz then Inl errRelayLimit
      else if \<not> rate_ok then Inl errRelayLimit
      else case find_room h (p_room (the_peer h sender)) of None \<Rightarrow> Inl errNotPaired
        | Some r \<Rightarrow>
          (case roomPartner r sender of None \<Rightarrow> Inl errRelayNotReady
           | Some other \<Rightarrow>
             if \<not> p_relayOpen (the_peer h sender) \<or> \<not> p_relayOpen (the_peer h other) then Inl errRelayNotReady
             else if p_relayCredit (the_peer h sender) < sz then Inl errRelayCredit
             else if RelayMaxSessionBytes (h_cfg h) - rm_relayBytes r < sz then Inl errRelayLimit
             else Inr other))"

text \<open>\<^verbatim>\<open>forwardRelay\<close> after the enqueue.\<close>

definition charge_relay :: "int \<Rightarrow> nat \<Rightarrow> nat \<Rightarrow> int \<Rightarrow> Hub \<Rightarrow> Hub" where
  "charge_relay now sender other sz h =
     (case find_room h (p_room (the_peer h sender)) of None \<Rightarrow> h
      | Some r \<Rightarrow>
        if roomPartner r sender \<noteq> Some other then h
        else (put_room (p_room (the_peer h sender))
            (r\<lparr>rm_relayBytes := rm_relayBytes r + sz, rm_lastSeen := now\<rparr>)
            (set_peer sender (\<lambda>x. x\<lparr>p_relayCredit := p_relayCredit x - sz\<rparr>) h))
          \<lparr>h_relayBytes := h_relayBytes h + sz\<rparr>)"

text \<open>The loop of \<^verbatim>\<open>createRoom\<close>: one of the first numbers, as many as there are rooms and one
  more, is free.\<close>

fun first_free :: "(int \<times> room) list \<Rightarrow> nat \<Rightarrow> int \<Rightarrow> int" where
  "first_free rooms 0 n = n"
| "first_free rooms (Suc k) n = (if map_of rooms n = None then n else first_free rooms k (n + 1))"

definition createRoom :: "int \<Rightarrow> nat \<Rightarrow> Hub \<Rightarrow> int \<times> Hub" where
  "createRoom now p h =
     (let n = first_free (h_rooms h) (length (h_rooms h)) 0 in
      (n, put_room n \<lparr>rm_number = n, rm_offerer = Some p, rm_joiner = None, rm_lastSeen = now, rm_relayBytes = 0\<rparr>
        (set_peer p (\<lambda>x. x\<lparr>p_room := n, p_role := roleOfferer\<rparr>) h)))"

definition join :: "int \<Rightarrow> nat \<Rightarrow> int \<Rightarrow> Hub \<Rightarrow> (string, nat) result \<times> Hub" where
  "join now p number h =
     (case find_room h number of None \<Rightarrow> (Inl errUnknownRoom, h)
      | Some r \<Rightarrow>
        (case (rm_joiner r, rm_offerer r) of
           (None, Some offerer) \<Rightarrow>
             (Inr offerer, put_room number (r\<lparr>rm_joiner := Some p, rm_lastSeen := now\<rparr>)
               (set_peer p (\<lambda>x. x\<lparr>p_room := number, p_role := roleJoiner\<rparr>) h))
         | _ \<Rightarrow> (Inl errRoomFull, h)))"

definition resume :: "int \<Rightarrow> nat \<Rightarrow> int \<Rightarrow> string \<Rightarrow> Hub \<Rightarrow> (string, nat option) result \<times> Hub" where
  "resume now p number role h =
     (if role \<noteq> roleOfferer \<and> role \<noteq> roleJoiner then (Inl errBadMessage, h)
      else case find_room h number of None \<Rightarrow> (Inl errUnknownRoom, h)
        | Some r \<Rightarrow>
          if (if role = roleOfferer then rm_offerer r else rm_joiner r) \<noteq> None then (Inl errRoomFull, h)
          else let r' = (if role = roleOfferer then r\<lparr>rm_offerer := Some p\<rparr> else r\<lparr>rm_joiner := Some p\<rparr>)
            in (Inr (roomPartner r' p), put_room number (r'\<lparr>rm_lastSeen := now\<rparr>)
                 (set_peer p (\<lambda>x. x\<lparr>p_room := number, p_role := role\<rparr>) h)))"

definition partner :: "int \<Rightarrow> nat \<Rightarrow> Hub \<Rightarrow> nat option \<times> Hub" where
  "partner now p h =
     (case find_room h (p_room (the_peer h p)) of None \<Rightarrow> (None, h)
      | Some r \<Rightarrow> (roomPartner r p, put_room (p_room (the_peer h p)) (r\<lparr>rm_lastSeen := now\<rparr>) h))"

definition vacate :: "int \<Rightarrow> nat \<Rightarrow> Hub \<Rightarrow> nat option \<times> Hub" where
  "vacate now p h =
     (case find_room h (p_room (the_peer h p)) of None \<Rightarrow> (None, h)
      | Some r \<Rightarrow>
        if Some p \<noteq> rm_offerer r \<and> Some p \<noteq> rm_joiner r then (None, h)
        else let other = roomPartner r p;
                 r' = (if Some p = rm_offerer r then r\<lparr>rm_offerer := None\<rparr> else r\<lparr>rm_joiner := None\<rparr>)
          in if other = None then (None, delete_room (rm_number r) h)
             else (other, put_room (p_room (the_peer h p)) (r'\<lparr>rm_lastSeen := now\<rparr>) h))"

definition discard :: "nat \<Rightarrow> Hub \<Rightarrow> nat option \<times> Hub" where
  "discard p h =
     (case find_room h (p_room (the_peer h p)) of None \<Rightarrow> (None, h)
      | Some r \<Rightarrow> (roomPartner r p, delete_room (rm_number r) h))"

definition recordError :: "string \<Rightarrow> Hub \<Rightarrow> Hub" where
  "recordError errcode h = h\<lparr>h_errors := (h_errors h)(errcode := h_errors h errcode + 1)\<rparr>"

section \<open>Connections (peer.go)\<close>

definition close_peer :: "nat \<Rightarrow> bytes option \<Rightarrow> Hub \<Rightarrow> Hub" where
  "close_peer p farewell h = (if p_done (the_peer h p) = None
     then set_peer p (\<lambda>x. x\<lparr>p_done := Some farewell\<rparr>) h else h)"

definition fail :: "nat \<Rightarrow> string \<Rightarrow> string \<Rightarrow> Hub \<Rightarrow> Hub" where
  "fail p errcode msg h = close_peer p (Some (errorFrame errcode msg)) (recordError errcode h)"

definition releaseQueued :: "nat \<Rightarrow> int \<Rightarrow> Hub \<Rightarrow> Hub" where
  "releaseQueued p sz h = set_peer p (\<lambda>x. x\<lparr>p_queuedBytes := p_queuedBytes x - sz\<rparr>) h"

text \<open>\<^verbatim>\<open>dispatch\<close>: the hub call it makes and the actions that follow.\<close>

definition peer_dispatch :: "int \<Rightarrow> bool \<Rightarrow> nat \<Rightarrow> bytes \<Rightarrow> Hub \<Rightarrow> action list \<times> Hub" where
  "peer_dispatch now limiter_ok p data h =
     (let stop = (\<lambda>errcode msg. ([Fail_peer p errcode msg, Teardown], h)) in
      case parse_clientMsg data of None \<Rightarrow> stop errBadMessage ''invalid message''
      | Some m \<Rightarrow>
        if cm_Type m = '''' then stop errBadMessage ''invalid message''
        else if \<not> limiter_ok then stop errRateLimited
            (if cm_Type m = ''relay_credit'' then ''too many relay credit messages'' else ''too many messages'')
        else if cm_Type m = ''create'' then
          (if 0 \<le> p_room (the_peer h p) then stop errProtocol ''already in a room''
           else let (n, h') = createRoom now p h in ([Enqueue p (createdFrame n)], h'))
        else if cm_Type m = ''join'' then
          (if 0 \<le> p_room (the_peer h p) then stop errProtocol ''already in a room''
           else case cm_Room m of None \<Rightarrow> stop errBadMessage ''join requires a room''
             | Some n \<Rightarrow>
               (case join now p n h of
                  (Inl errcode, h') \<Rightarrow> ([Fail_peer p errcode '''', Teardown], h')
                | (Inr other, h') \<Rightarrow> ([Enqueue p (peerJoinedFrame (p_role (the_peer h' p))),
                    Enqueue other (peerJoinedFrame (p_role (the_peer h' other)))], h')))
        else if cm_Type m = ''resume'' then
          (if 0 \<le> p_room (the_peer h p) then stop errProtocol ''already in a room''
           else case cm_Room m of None \<Rightarrow> stop errBadMessage ''resume requires a room''
             | Some n \<Rightarrow>
               (case resume now p n (cm_Role m) h of
                  (Inl errcode, h') \<Rightarrow> ([Fail_peer p errcode '''', Teardown], h')
                | (Inr other, h') \<Rightarrow> (Enqueue p (resumedFrame (p_room (the_peer h' p)))
                    # (case other of None \<Rightarrow> [] | Some q \<Rightarrow> [Enqueue q peerRejoinedFrame]), h')))
        else if cm_Type m = ''bye'' then
          (let (other, h') = partner now p (set_peer p (\<lambda>x. x\<lparr>p_graceful := True\<rparr>) h)
           in ((case other of None \<Rightarrow> [] | Some q \<Rightarrow> [Enqueue q data]) @ [Close_peer p None, Teardown], h'))
        else if cm_Type m = ''relay_open'' then
          (case openRelay now p h of
             (Inl errcode, h') \<Rightarrow> ([Fail_peer p errcode ''relay unavailable'', Teardown], h')
           | (Inr (other, ready), h') \<Rightarrow>
             (if ready then [Enqueue p (relayFrame ''relay_ready''), Enqueue other (relayFrame ''relay_ready'')]
              else [Enqueue other (relayFrame ''relay_required'')], h'))
        else if cm_Type m = ''relay_credit'' then
          (case grantRelayCredit now p (cm_Bytes m) h of
             (Inl errcode, h') \<Rightarrow> ([Fail_peer p errcode ''invalid relay credit'', Teardown], h')
           | (Inr (sender, granted), h') \<Rightarrow>
             (if 0 < granted then [Enqueue sender (creditFrame granted)] else [], h'))
        else if \<not> forwardable (cm_Type m) then stop errBadMessage ''unknown message type''
        else (case partner now p h of
            (None, h') \<Rightarrow> ([Fail_peer p errNotPaired ''not paired yet'', Teardown], h')
          | (Some other, h') \<Rightarrow> ([Enqueue other data], h')))"

text \<open>One message read by \<^verbatim>\<open>serve\<close>.\<close>

definition serve_text :: "int \<Rightarrow> bool \<Rightarrow> nat \<Rightarrow> bytes \<Rightarrow> Hub \<Rightarrow> action list \<times> Hub" where
  "serve_text now limiter_ok p data h =
     (if MaxMessageBytes (h_cfg h) < int (length data)
      then ([Fail_peer p errBadMessage ''message too large'', Teardown], h)
      else peer_dispatch now limiter_ok p data h)"

definition serve_binary :: "bool \<Rightarrow> nat \<Rightarrow> bytes \<Rightarrow> Hub \<Rightarrow> action list" where
  "serve_binary rate_ok p data h = (case forwardRelay rate_ok p data h of
     Inl errcode \<Rightarrow> [Fail_peer p errcode ''relay frame refused'', Teardown]
   | Inr other \<Rightarrow> [Relay other data])"

text \<open>\<^verbatim>\<open>tryEnqueue\<close> up to the channel send: reserve the bytes, or refuse.\<close>

definition reserve :: "nat \<Rightarrow> outboundFrame \<Rightarrow> action list \<Rightarrow> action list \<Rightarrow> Hub \<Rightarrow> action list \<times> Hub" where
  "reserve q f sent failed h =
     (if RelayQueueBytes (h_cfg h) - p_queuedBytes (the_peer h q) < frame_size f then (failed, h)
      else ([Push q f sent failed], set_peer q (\<lambda>x. x\<lparr>p_queuedBytes := p_queuedBytes x + frame_size f\<rparr>) h))"

text \<open>One action of the reader of \<open>p\<close>: the actions that replace it, or \<open>None\<close> while it blocks.
  When the channel has room and the peer is closed, the \<^verbatim>\<open>select\<close> may take either branch.\<close>

fun act :: "int \<Rightarrow> bool \<Rightarrow> nat \<Rightarrow> action \<Rightarrow> Hub \<Rightarrow> (action list \<times> Hub) option" where
  "act now prefer_done p (Enqueue q data) h =
     Some (reserve q (TextFrame data) [] [Fail_peer q errRelayLimit ''outbound queue full''] h)"
| "act now prefer_done p (Push q f sent failed) h =
     (if p_done (the_peer h q) \<noteq> None \<and> (prefer_done \<or> sendBuffer \<le> length (p_send (the_peer h q)))
      then Some (failed, releaseQueued q (frame_size f) h)
      else if length (p_send (the_peer h q)) < sendBuffer
      then Some (sent, set_peer q (\<lambda>x. x\<lparr>p_send := p_send x @ [f]\<rparr>) h)
      else None)"
| "act now prefer_done p (Relay q data) h =
     Some (reserve q (BinaryFrame data) [Charge q (int (length data))]
       [Fail_peer q errRelayLimit ''receiver relay queue full'',
        Fail_peer p errRelayLimit ''relay frame refused'', Teardown] h)"
| "act now prefer_done p (Charge q sz) h = Some ([], charge_relay now p q sz h)"
| "act now prefer_done p (Fail_peer q errcode msg) h = Some ([], fail q errcode msg h)"
| "act now prefer_done p (Close_peer q farewell) h = Some ([], close_peer q farewell h)"
| "act now prefer_done p Teardown h =
     (let h0 = set_peer p (\<lambda>x. x\<lparr>p_serving := False\<rparr>) h in
      if p_graceful (the_peer h p) then
        (case discard p h0 of (other, h') \<Rightarrow>
          Some ((case other of None \<Rightarrow> [] | Some q \<Rightarrow> [Close_peer q (Some (byeFrame ''peer left''))])
            @ [Close_peer p None], h'))
      else
        (case vacate now p h0 of (other, h') \<Rightarrow>
          Some ((case other of None \<Rightarrow> [] | Some q \<Rightarrow> [Enqueue q (peerLeftFrame True)])
            @ [Close_peer p None], h')))"

definition run_action :: "int \<Rightarrow> bool \<Rightarrow> nat \<Rightarrow> Hub \<Rightarrow> Hub" where
  "run_action now prefer_done p h = (case p_todo (the_peer h p) of [] \<Rightarrow> h
     | a # rest \<Rightarrow> (case act now prefer_done p a h of None \<Rightarrow> h
       | Some (new, h') \<Rightarrow> set_peer p (\<lambda>x. x\<lparr>p_todo := new @ rest\<rparr>) h'))"

text \<open>One turn of \<^verbatim>\<open>writeLoop\<close>.\<close>

definition write_one :: "bool \<Rightarrow> nat \<Rightarrow> Hub \<Rightarrow> Hub" where
  "write_one ok p h = (case p_send (the_peer h p) of [] \<Rightarrow> h
     | f # fs \<Rightarrow>
       let h' = releaseQueued p (frame_size f) (set_peer p (\<lambda>x. x\<lparr>p_send := fs\<rparr>) h) in
       if ok then set_peer p (\<lambda>x. x\<lparr>p_out := p_out x @ [f]\<rparr>) h'
       else set_peer p (\<lambda>x. x\<lparr>p_writing := False\<rparr>) (close_peer p None h'))"

definition write_farewell :: "bool \<Rightarrow> nat \<Rightarrow> Hub \<Rightarrow> Hub" where
  "write_farewell ok p h = (case p_done (the_peer h p) of None \<Rightarrow> h
     | Some f \<Rightarrow> set_peer p (\<lambda>x. x\<lparr>p_writing := False,
         p_out := p_out x @ (case f of Some d \<Rightarrow> if ok then [TextFrame d] else [] | None \<Rightarrow> [])\<rparr>) h)"

text \<open>\<^verbatim>\<open>reapOnce\<close>: the stale rooms go, their sockets are closed.\<close>

definition stale :: "int \<Rightarrow> Hub \<Rightarrow> (int \<times> room) \<Rightarrow> bool" where
  "stale now h = (\<lambda>(n, r). IdleTimeout (h_cfg h) < now - rm_lastSeen r)"

definition room_peers :: "room \<Rightarrow> nat list" where
  "room_peers r = List.map_filter id [rm_offerer r, rm_joiner r]"

definition reapOnce :: "int \<Rightarrow> Hub \<Rightarrow> Hub" where
  "reapOnce now h =
     (let gone = filter (stale now h) (h_rooms h) in
      fold (\<lambda>p. close_peer p (Some (byeFrame ''idle timeout'')))
        (concat (map (\<lambda>(n, r). room_peers r) gone))
        (h\<lparr>h_rooms := filter (\<lambda>x. \<not> stale now h x) (h_rooms h)\<rparr>))"

section \<open>Events\<close>

datatype signal_event =
    Connect
  | RecvText int bool nat bytes
  | RecvBinary bool nat bytes
  | RecvOther nat
  | ReadEnds nat
  | RunAction int bool nat
  | WriteOne bool nat
  | WriteFarewell bool nat
  | Reap int

text \<open>A reader takes the next message when it has nothing left to do.\<close>

definition idle_reader :: "nat \<Rightarrow> Hub \<Rightarrow> bool" where
  "idle_reader p h \<longleftrightarrow> p < h_conns h \<and> p_serving (the_peer h p) \<and> p_todo (the_peer h p) = []"

definition writer_alive :: "nat \<Rightarrow> Hub \<Rightarrow> bool" where
  "writer_alive p h \<longleftrightarrow> p < h_conns h \<and> p_writing (the_peer h p)"

definition set_todo :: "nat \<Rightarrow> action list \<times> Hub \<Rightarrow> Hub" where
  "set_todo p x = set_peer p (\<lambda>y. y\<lparr>p_todo := fst x\<rparr>) (snd x)"

fun signal_step :: "Hub \<Rightarrow> signal_event \<Rightarrow> Hub" where
  "signal_step h Connect = (set_peer (h_conns h) (\<lambda>_. newPeer) h)\<lparr>h_conns := Suc (h_conns h)\<rparr>"
| "signal_step h (RecvText now limiter_ok p data) =
     (if idle_reader p h then set_todo p (serve_text now limiter_ok p data h) else h)"
| "signal_step h (RecvBinary rate_ok p data) =
     (if idle_reader p h then set_todo p (serve_binary rate_ok p data h, h) else h)"
| "signal_step h (RecvOther p) =
     (if idle_reader p h then set_todo p ([Fail_peer p errBadMessage ''unsupported frame type'', Teardown], h) else h)"
| "signal_step h (ReadEnds p) = (if idle_reader p h then set_todo p ([Teardown], h) else h)"
| "signal_step h (RunAction now prefer_done p) = (if p < h_conns h then run_action now prefer_done p h else h)"
| "signal_step h (WriteOne ok p) = (if writer_alive p h then write_one ok p h else h)"
| "signal_step h (WriteFarewell ok p) = (if writer_alive p h then write_farewell ok p h else h)"
| "signal_step h (Reap now) = reapOnce now h"

definition signal_run :: "Config \<Rightarrow> signal_event list \<Rightarrow> Hub" where
  "signal_run cfg es = foldl signal_step (NewHub cfg) es"

end
