(* ===== verification/SignalInv.thy ===== *)
theory SignalInv
  imports Signal
begin

text \<open>
  What the signaling server keeps over every interleaving of its connections: strict pairing of
  rooms, and the limits of the relay.  Both are invariants of \<open>signal_step\<close>.
\<close>

section \<open>Reading updated hubs\<close>

lemma set_peer_simps [simp]:
  "h_peers (set_peer p f h) q = (if q = p then f (h_peers h p) else h_peers h q)"
  "h_cfg (set_peer p f h) = h_cfg h" "h_rooms (set_peer p f h) = h_rooms h"
  "h_conns (set_peer p f h) = h_conns h" "find_room (set_peer p f h) = find_room h"
  by (auto simp: set_peer_def find_room_def fun_eq_iff)

lemma put_room_simps [simp]:
  "h_peers (put_room n r h) = h_peers h" "h_cfg (put_room n r h) = h_cfg h"
  "h_conns (put_room n r h) = h_conns h"
  "find_room (put_room n r h) = (find_room h)(n \<mapsto> r)"
  by (auto simp: put_room_def find_room_def update_conv fun_eq_iff)

lemma delete_room_simps [simp]:
  "h_peers (delete_room n h) = h_peers h" "h_cfg (delete_room n h) = h_cfg h"
  "h_conns (delete_room n h) = h_conns h"
  "find_room (delete_room n h) = (find_room h)(n := None)"
  by (auto simp: delete_room_def find_room_def delete_conv fun_eq_iff)

lemma recordError_simps [simp]:
  "h_peers (recordError c h) = h_peers h" "h_cfg (recordError c h) = h_cfg h"
  "h_rooms (recordError c h) = h_rooms h" "h_conns (recordError c h) = h_conns h"
  "find_room (recordError c h) = find_room h"
  by (auto simp: recordError_def find_room_def fun_eq_iff)

lemma close_peer_simps [simp]:
  "h_cfg (close_peer p f h) = h_cfg h" "h_rooms (close_peer p f h) = h_rooms h"
  "h_conns (close_peer p f h) = h_conns h" "find_room (close_peer p f h) = find_room h"
  by (auto simp: close_peer_def)

definition distinct_rooms :: "Hub \<Rightarrow> bool" where
  "distinct_rooms h \<longleftrightarrow> distinct (map fst (h_rooms h))"

lemma distinct_rooms_simps [simp]:
  "distinct_rooms (set_peer p f h) = distinct_rooms h"
  "distinct_rooms h \<Longrightarrow> distinct_rooms (put_room n r h)"
  "distinct_rooms h \<Longrightarrow> distinct_rooms (delete_room n h)"
  by (simp_all add: distinct_rooms_def put_room_def delete_room_def distinct_update distinct_delete)

lemma first_free_le: "n \<le> first_free rooms k n" "first_free rooms k n \<le> n + int k"
  by (induction rooms k n rule: first_free.induct) auto

lemma first_free_below: "n \<le> m \<Longrightarrow> m < first_free rooms k n \<Longrightarrow> map_of rooms m \<noteq> None"
proof (induction rooms k n rule: first_free.induct)
  case (2 rooms k n)
  then show ?case by (cases "m = n") (auto split: if_splits)
qed simp

lemma first_free_free:
  assumes "distinct (map fst rooms)"
  shows "map_of rooms (first_free rooms (length rooms) 0) = None"
proof (rule ccontr)
  let ?n = "first_free rooms (length rooms) 0"
  assume taken: "map_of rooms ?n \<noteq> None"
  have stop: "map_of rooms (first_free rooms k n) \<noteq> None \<Longrightarrow> first_free rooms k n = n + int k" for k n
    by (induction rooms k n rule: first_free.induct) (auto split: if_splits)
  from stop [OF taken] have n: "?n = int (length rooms)" by simp
  have "{0..?n} \<subseteq> set (map fst rooms)"
  proof
    fix m assume "m \<in> {0..?n}"
    then have "map_of rooms m \<noteq> None"
      using taken first_free_below [of 0 m rooms "length rooms"] by (cases "m = ?n") auto
    then show "m \<in> set (map fst rooms)" by (simp add: map_of_eq_None_iff)
  qed
  then have "card {0..?n} \<le> card (set (map fst rooms))" by (intro card_mono) auto
  also have "\<dots> \<le> length rooms" using card_length [of "map fst rooms"] by simp
  finally show False using n by simp
qed

section \<open>Strict pairing\<close>

definition seat_ok :: "Hub \<Rightarrow> int \<Rightarrow> nat option \<Rightarrow> string \<Rightarrow> bool" where
  "seat_ok h n s role \<longleftrightarrow> (case s of None \<Rightarrow> True
     | Some p \<Rightarrow> p < h_conns h \<and> p_room (the_peer h p) = n \<and> p_role (the_peer h p) = role
         \<and> p_serving (the_peer h p))"

lemma seat_ok_simps [simp]:
  "seat_ok h n None role"
  "seat_ok h n (Some p) role \<longleftrightarrow> p < h_conns h \<and> p_room (the_peer h p) = n
     \<and> p_role (the_peer h p) = role \<and> p_serving (the_peer h p)"
  by (simp_all add: seat_ok_def)

lemma roles_distinct [simp]: "roleOfferer \<noteq> roleJoiner" "roleJoiner \<noteq> roleOfferer"
  by (simp_all add: roleOfferer_def roleJoiner_def)

definition room_ok :: "Hub \<Rightarrow> int \<Rightarrow> room \<Rightarrow> bool" where
  "room_ok h n r \<longleftrightarrow> 0 \<le> n \<and> rm_number r = n \<and> (rm_offerer r \<noteq> None \<or> rm_joiner r \<noteq> None)
     \<and> seat_ok h n (rm_offerer r) roleOfferer \<and> seat_ok h n (rm_joiner r) roleJoiner"

definition paired :: "Hub \<Rightarrow> bool" where
  "paired h \<longleftrightarrow> distinct_rooms h \<and> (\<forall>n r. find_room h n = Some r \<longrightarrow> room_ok h n r)"

lemma pairedD: "paired h \<Longrightarrow> find_room h n = Some r \<Longrightarrow> room_ok h n r"
  by (simp add: paired_def)

text \<open>The part of a connection the pairing depends on.\<close>

definition seat_view :: "peer \<Rightarrow> int \<times> string \<times> bool" where
  "seat_view x = (p_room x, p_role x, p_serving x)"

lemma seat_ok_view:
  assumes "seat_ok h n s role" and "h_conns h \<le> h_conns h'"
    and "\<And>p. s = Some p \<Longrightarrow> seat_view (the_peer h' p) = seat_view (the_peer h p)"
  shows "seat_ok h' n s role"
  using assms by (cases s) (auto simp: seat_ok_def seat_view_def)

lemma paired_view:
  assumes "paired h" and "h_conns h \<le> h_conns h'" and "distinct_rooms h'"
    and "\<And>n r. find_room h' n = Some r \<Longrightarrow> \<exists>r0. find_room h n = Some r0 \<and> rm_number r = rm_number r0
      \<and> rm_offerer r = rm_offerer r0 \<and> rm_joiner r = rm_joiner r0"
    and "\<And>p. p < h_conns h \<Longrightarrow> seat_view (the_peer h' p) = seat_view (the_peer h p)"
  shows "paired h'"
proof -
  have "room_ok h' n r" if r: "find_room h' n = Some r" for n r
  proof -
    from assms(4) [OF r] obtain r0 where r0: "find_room h n = Some r0" "rm_number r = rm_number r0"
      "rm_offerer r = rm_offerer r0" "rm_joiner r = rm_joiner r0" by blast
    have ok: "room_ok h n r0" by (rule pairedD [OF assms(1) r0(1)])
    have "p < h_conns h" if "rm_offerer r0 = Some p \<or> rm_joiner r0 = Some p" for p
      using ok that by (auto simp: room_ok_def seat_ok_def)
    then have "seat_ok h' n (rm_offerer r0) roleOfferer" "seat_ok h' n (rm_joiner r0) roleJoiner"
      using ok assms(2,5) seat_ok_view [of h n _ _ h'] by (auto simp: room_ok_def)
    with ok r0 show ?thesis by (simp add: room_ok_def)
  qed
  with assms(3) show ?thesis by (simp add: paired_def)
qed

text \<open>A change of one room, with all other seats kept.\<close>

lemma paired_change:
  assumes "paired h" and "h_conns h' = h_conns h" and "distinct_rooms h'"
    and "find_room h' = (find_room h)(n := x)"
    and "\<And>r. x = Some r \<Longrightarrow> room_ok h' n r"
    and "\<And>q k r. k \<noteq> n \<Longrightarrow> find_room h k = Some r \<Longrightarrow> rm_offerer r = Some q \<or> rm_joiner r = Some q \<Longrightarrow>
      seat_view (the_peer h' q) = seat_view (the_peer h q)"
  shows "paired h'"
proof -
  have "room_ok h' k r" if r: "find_room h' k = Some r" for k r
  proof (cases "k = n")
    case True
    with r assms(4,5) show ?thesis by simp
  next
    case False
    then have k: "find_room h k = Some r" using r assms(4) by simp
    have ok: "room_ok h k r" by (rule pairedD [OF assms(1) k])
    then have "seat_ok h' k (rm_offerer r) roleOfferer" "seat_ok h' k (rm_joiner r) roleJoiner"
      using assms(2) assms(6) [OF False k] seat_ok_view [of h k _ _ h'] by (auto simp: room_ok_def)
    with ok show ?thesis by (simp add: room_ok_def)
  qed
  with assms(3) show ?thesis by (simp add: paired_def)
qed

lemma seated_room:
  "paired h \<Longrightarrow> find_room h k = Some r \<Longrightarrow> rm_offerer r = Some q \<or> rm_joiner r = Some q \<Longrightarrow>
     p_room (the_peer h q) = k \<and> 0 \<le> k \<and> q < h_conns h"
  by (auto dest!: pairedD simp: room_ok_def seat_ok_def)

lemma paired_distinct: "paired h \<Longrightarrow> distinct_rooms h"
  by (simp add: paired_def)

lemma roomPartner_seated:
  "roomPartner r p = Some q \<Longrightarrow> (rm_offerer r = Some p \<and> rm_joiner r = Some q)
     \<or> (rm_joiner r = Some p \<and> rm_offerer r = Some q)"
  by (auto simp: roomPartner_def split: if_splits)

lemma roomPartner_distinct:
  assumes "paired h" and "find_room h n = Some r" and "roomPartner r p = Some q"
  shows "p \<noteq> q"
proof
  assume "p = q"
  with roomPartner_seated [OF assms(3)] pairedD [OF assms(1,2)] show False
    by (auto simp: room_ok_def seat_ok_def roleOfferer_def roleJoiner_def)
qed

text \<open>Steps that only touch queues, flags and counters.\<close>

definition same_seats :: "Hub \<Rightarrow> Hub \<Rightarrow> bool" where
  "same_seats h h' \<longleftrightarrow> h_conns h' = h_conns h \<and> h_rooms h' = h_rooms h
     \<and> (\<forall>p. seat_view (the_peer h' p) = seat_view (the_peer h p))"

lemma same_seats_refl [simp]: "same_seats h h"
  by (simp add: same_seats_def)

lemma same_seats_trans: "same_seats h h' \<Longrightarrow> same_seats h' h'' \<Longrightarrow> same_seats h h''"
  by (simp add: same_seats_def)

lemma same_seats_paired: "same_seats h h' \<Longrightarrow> paired h \<Longrightarrow> paired h'"
  by (rule paired_view [of h]) (auto simp: same_seats_def distinct_rooms_def find_room_def paired_def)

lemma same_seats_set_peer:
  "(\<And>x. seat_view (f x) = seat_view x) \<Longrightarrow> same_seats h (set_peer p f h)"
  by (simp add: same_seats_def)

lemma same_seats_queue [simp]:
  "same_seats h (close_peer p f h)" "same_seats h (fail p c m h)" "same_seats h (releaseQueued p n h)"
  "same_seats h (snd (reserve q fr sent failed h))"
  by (auto simp: same_seats_def close_peer_def fail_def releaseQueued_def reserve_def seat_view_def recordError_def)

lemma same_seats_write: "same_seats h (write_one ok p h)" "same_seats h (write_farewell ok p h)"
  by (auto simp: same_seats_def write_one_def write_farewell_def close_peer_def releaseQueued_def seat_view_def
      Let_def split: list.splits option.splits)

text \<open>A room whose seats stay as they are.\<close>

lemma paired_touch:
  assumes "paired h" and "find_room h n = Some r" and "rm_number r' = rm_number r"
    and "rm_offerer r' = rm_offerer r" and "rm_joiner r' = rm_joiner r"
    and "\<And>q. seat_view (the_peer h' q) = seat_view (the_peer h q)" and "h_conns h' = h_conns h"
    and "h_rooms h' = h_rooms h"
  shows "paired (put_room n r' h')"
proof (rule paired_change [OF assms(1), where n = n and x = "Some r'"])
  have d: "distinct_rooms h'" using paired_distinct [OF assms(1)] assms(8) by (simp add: distinct_rooms_def)
  show "distinct_rooms (put_room n r' h')" by (simp add: d)
  show "find_room (put_room n r' h') = (find_room h)(n := Some r')"
    using assms(8) by (simp add: find_room_def fun_eq_iff)
  have "room_ok h n r" by (rule pairedD [OF assms(1,2)])
  then show "Some r' = Some x \<Longrightarrow> room_ok (put_room n r' h') n x" for x
    using assms(3-7) seat_ok_view [of h n _ _ "put_room n r' h'"] by (auto simp: room_ok_def)
qed (simp_all add: assms(6,7))

lemma paired_openRelay: "paired h \<Longrightarrow> paired (snd (openRelay now p h))"
  by (auto simp: openRelay_def Let_def seat_view_def split: option.splits intro!: paired_touch)

lemma paired_grantRelayCredit: "paired h \<Longrightarrow> paired (snd (grantRelayCredit now p n h))"
  by (auto simp: grantRelayCredit_def Let_def seat_view_def split: option.splits intro!: paired_touch)

lemma paired_partner: "paired h \<Longrightarrow> paired (snd (partner now p h))"
  by (auto simp: partner_def split: option.splits intro!: paired_touch)

lemma paired_charge:
  assumes "paired h"
  shows "paired (charge_relay now p q n h)"
proof -
  have total: "paired (h'\<lparr>h_relayBytes := x\<rparr>)" if "paired h'" for h' x
    by (rule same_seats_paired [OF _ that]) (simp add: same_seats_def)
  show ?thesis
  proof (cases "find_room h (p_room (the_peer h p))")
    case (Some r)
    show ?thesis
    proof (cases "roomPartner r p = Some q")
      case True
      have "paired (put_room (p_room (the_peer h p)) (r\<lparr>rm_relayBytes := rm_relayBytes r + n, rm_lastSeen := now\<rparr>)
          (set_peer p (\<lambda>x. x\<lparr>p_relayCredit := p_relayCredit x - n\<rparr>) h))"
        by (rule paired_touch [OF assms Some]) (simp_all add: seat_view_def)
      from total [OF this] Some True show ?thesis by (simp add: charge_relay_def)
    qed (simp add: charge_relay_def Some assms)
  qed (simp add: charge_relay_def assms)
qed

lemma room_ok_take:
  assumes "p < h_conns h" and "p_serving (the_peer h p)" and "0 \<le> n" and "role \<in> {roleOfferer, roleJoiner}"
    and "r' = (if role = roleOfferer then r\<lparr>rm_offerer := Some p\<rparr> else r\<lparr>rm_joiner := Some p\<rparr>)"
    and "rm_number r = n" and "seat_ok h n (if role = roleOfferer then rm_joiner r else rm_offerer r)
      (if role = roleOfferer then roleJoiner else roleOfferer)"
    and "Some p \<noteq> (if role = roleOfferer then rm_joiner r else rm_offerer r)"
  shows "room_ok (set_peer p (\<lambda>x. x\<lparr>p_room := n, p_role := role\<rparr>) h) n r'"
proof -
  have "seat_ok (set_peer p (\<lambda>x. x\<lparr>p_room := n, p_role := role\<rparr>) h) n
      (if role = roleOfferer then rm_joiner r else rm_offerer r)
      (if role = roleOfferer then roleJoiner else roleOfferer)"
    by (rule seat_ok_view [OF assms(7)]) (use assms(8) in \<open>auto simp: seat_view_def\<close>)
  with assms(1-6) show ?thesis
    by (auto simp: room_ok_def split: if_splits)
qed

text \<open>A connection without a room takes a seat.\<close>

lemma paired_take:
  assumes "paired h" and "p < h_conns h" and "p_serving (the_peer h p)" and "p_room (the_peer h p) < 0"
    and "room_ok (set_peer p (\<lambda>x. x\<lparr>p_room := n, p_role := role\<rparr>) h) n r'"
  shows "paired (put_room n r' (set_peer p (\<lambda>x. x\<lparr>p_room := n, p_role := role\<rparr>) h))"
proof (rule paired_change [OF assms(1), where n = n and x = "Some r'"])
  let ?h = "set_peer p (\<lambda>x. x\<lparr>p_room := n, p_role := role\<rparr>) h"
  show "room_ok (put_room n r' ?h) n r" if "Some r' = Some r" for r
    using assms(5) that by (simp add: room_ok_def seat_ok_def cong: option.case_cong)
  show "seat_view (the_peer (put_room n r' ?h) q) = seat_view (the_peer h q)"
    if "k \<noteq> n" "find_room h k = Some r" "rm_offerer r = Some q \<or> rm_joiner r = Some q" for q k r
    using seated_room [OF assms(1) that(2,3)] assms(4) by auto
qed (use paired_distinct [OF assms(1)] in simp_all)

lemma paired_createRoom:
  assumes "paired h" and "p < h_conns h" and "p_serving (the_peer h p)" and "p_room (the_peer h p) < 0"
  shows "paired (snd (createRoom now p h))"
  using first_free_le(1) [of 0 "h_rooms h" "length (h_rooms h)"] assms(2,3)
  by (auto simp: createRoom_def Let_def room_ok_def intro!: paired_take [OF assms])

lemma paired_join:
  assumes "paired h" and "p < h_conns h" and "p_serving (the_peer h p)" and "p_room (the_peer h p) < 0"
  shows "paired (snd (join now p n h))"
proof (cases "\<exists>r q. find_room h n = Some r \<and> rm_joiner r = None \<and> rm_offerer r = Some q")
  case True
  then obtain r q where r: "find_room h n = Some r" "rm_joiner r = None" "rm_offerer r = Some q" by blast
  have "room_ok h n r" by (rule pairedD [OF assms(1) r(1)])
  moreover have "p \<noteq> q" using seated_room [OF assms(1) r(1), of q] r(3) assms(4) by auto
  ultimately have "room_ok (set_peer p (\<lambda>x. x\<lparr>p_room := n, p_role := roleJoiner\<rparr>) h) n
      (r\<lparr>rm_joiner := Some p, rm_lastSeen := now\<rparr>)"
    using assms(2,3) r by (simp add: room_ok_def)
  with paired_take [OF assms] r show ?thesis by (simp add: join_def)
next
  case False
  then have "snd (join now p n h) = h" by (auto simp: join_def split: option.splits)
  with assms(1) show ?thesis by simp
qed

lemma paired_resume:
  assumes "paired h" and "p < h_conns h" and "p_serving (the_peer h p)" and "p_room (the_peer h p) < 0"
  shows "paired (snd (resume now p n role h))"
proof (cases "\<exists>r. (role = roleOfferer \<or> role = roleJoiner) \<and> find_room h n = Some r
    \<and> (if role = roleOfferer then rm_offerer r else rm_joiner r) = None")
  case True
  then obtain r where role: "role = roleOfferer \<or> role = roleJoiner" and r: "find_room h n = Some r"
    and free: "(if role = roleOfferer then rm_offerer r else rm_joiner r) = None" by blast
  define r' where "r' = (if role = roleOfferer then r\<lparr>rm_offerer := Some p\<rparr> else r\<lparr>rm_joiner := Some p\<rparr>)"
  have ok: "room_ok h n r" by (rule pairedD [OF assms(1) r])
  have "room_ok (set_peer p (\<lambda>x. x\<lparr>p_room := n, p_role := role\<rparr>) h) n r'"
    by (rule room_ok_take [where r = r])
      (use role ok assms(2-4) seated_room [OF assms(1) r] in \<open>auto simp: room_ok_def r'_def\<close>)
  then have "room_ok (set_peer p (\<lambda>x. x\<lparr>p_room := n, p_role := role\<rparr>) h) n (r'\<lparr>rm_lastSeen := now\<rparr>)"
    by (simp add: room_ok_def)
  with paired_take [OF assms] role r free show ?thesis
    by (auto simp: resume_def Let_def r'_def)
next
  case False
  then have "snd (resume now p n role h) = h" by (auto simp: resume_def split: option.splits)
  with assms(1) show ?thesis by simp
qed

text \<open>A connection that stops serving leaves its room: only its own room can hold it.\<close>

lemma leave_others:
  assumes "paired h" and "k \<noteq> p_room (the_peer h p)" and "find_room h k = Some r"
    and "rm_offerer r = Some q \<or> rm_joiner r = Some q"
  shows "seat_view (the_peer (set_peer p (\<lambda>x. x\<lparr>p_serving := False\<rparr>) h) q) = seat_view (the_peer h q)"
  using seated_room [OF assms(1,3,4)] assms(2) by auto

lemma paired_discard:
  assumes "paired h"
  shows "paired (snd (discard p (set_peer p (\<lambda>x. x\<lparr>p_serving := False\<rparr>) h)))"
proof (cases "find_room h (p_room (the_peer h p))")
  case None
  show ?thesis
    by (rule paired_change [OF assms, where n = "p_room (the_peer h p)" and x = None])
      (use None paired_distinct [OF assms] leave_others [OF assms] in \<open>auto simp: discard_def fun_eq_iff\<close>)
next
  case (Some r)
  have "rm_number r = p_room (the_peer h p)" using pairedD [OF assms Some] by (simp add: room_ok_def)
  then show ?thesis
    by (intro paired_change [OF assms, where n = "p_room (the_peer h p)" and x = None])
      (use Some paired_distinct [OF assms] leave_others [OF assms] in \<open>auto simp: discard_def\<close>)
qed

lemma paired_vacate:
  assumes "paired h"
  shows "paired (snd (vacate now p (set_peer p (\<lambda>x. x\<lparr>p_serving := False\<rparr>) h)))"
proof -
  let ?h = "set_peer p (\<lambda>x. x\<lparr>p_serving := False\<rparr>) h" and ?n = "p_room (the_peer h p)"
  note change = paired_change [OF assms, where n = ?n]
  note facts = paired_distinct [OF assms] leave_others [OF assms]
  show ?thesis
  proof (cases "find_room h ?n")
    case None
    show ?thesis
      by (rule change [where x = None]) (use None facts in \<open>auto simp: vacate_def fun_eq_iff\<close>)
  next
    case (Some r)
    have ok: "room_ok h ?n r" by (rule pairedD [OF assms Some])
    show ?thesis
    proof (cases "Some p = rm_offerer r \<or> Some p = rm_joiner r")
      case False
      have "seat_ok ?h ?n s role" if "seat_ok h ?n s role" "Some p \<noteq> s" for s role
        using that by (cases s) auto
      with ok False have "room_ok ?h ?n r" by (simp add: room_ok_def)
      then have "paired ?h"
        by (intro change [where x = "Some r"]) (use Some facts in \<open>auto simp: fun_eq_iff\<close>)
      with Some False show ?thesis by (simp add: vacate_def)
    next
      case seated: True
      show ?thesis
      proof (cases "roomPartner r p")
        case None
        have "rm_number r = ?n" using ok by (simp add: room_ok_def)
        with None Some seated show ?thesis
          by (intro change [where x = None]) (use facts in \<open>auto simp: vacate_def Let_def\<close>)
      next
        case partner: (Some q)
        let ?r = "(if Some p = rm_offerer r then r\<lparr>rm_offerer := None\<rparr> else r\<lparr>rm_joiner := None\<rparr>)\<lparr>rm_lastSeen := now\<rparr>"
        have ne: "p \<noteq> q" by (rule roomPartner_distinct [OF assms Some partner])
        have "room_ok (put_room ?n ?r ?h) ?n ?r"
          using roomPartner_seated [OF partner]
        proof
          assume "rm_offerer r = Some p \<and> rm_joiner r = Some q"
          with ok ne show ?thesis by (simp add: room_ok_def)
        next
          assume "rm_joiner r = Some p \<and> rm_offerer r = Some q"
          with ok ne show ?thesis by (simp add: room_ok_def)
        qed
        then show ?thesis
          by (intro change [where x = "Some ?r"])
            (use Some seated partner facts in \<open>auto simp: vacate_def Let_def\<close>)
      qed
    qed
  qed
qed

lemma map_of_filter_distinct:
  assumes "distinct (map fst xs)" and "map_of (filter P xs) k = Some v"
  shows "map_of xs k = Some v"
proof -
  have "(k, v) \<in> set xs" using assms(2) by (auto dest: map_of_SomeD)
  with assms(1) show ?thesis by simp
qed

lemma same_seats_fold_close: "same_seats h (fold (\<lambda>p. close_peer p f) ps h)"
proof (induction ps arbitrary: h)
  case (Cons p ps)
  show ?case using same_seats_trans [OF same_seats_queue(1) Cons.IH] by simp
qed simp

lemma paired_reapOnce:
  assumes "paired h"
  shows "paired (reapOnce now h)"
proof -
  let ?h = "h\<lparr>h_rooms := filter (\<lambda>x. \<not> stale now h x) (h_rooms h)\<rparr>"
  have d: "distinct (map fst (h_rooms h))" using paired_distinct [OF assms] by (simp add: distinct_rooms_def)
  have "paired ?h"
  proof (rule paired_view [OF assms])
    show "distinct_rooms ?h" using d by (simp add: distinct_rooms_def distinct_map_filter)
    show "\<exists>r0. find_room h n = Some r0 \<and> rm_number r = rm_number r0 \<and> rm_offerer r = rm_offerer r0
        \<and> rm_joiner r = rm_joiner r0" if "find_room ?h n = Some r" for n r
      using that map_of_filter_distinct [OF d] by (auto simp: find_room_def)
  qed simp_all
  then show ?thesis
    unfolding reapOnce_def Let_def by (rule same_seats_paired [OF same_seats_fold_close])
qed

text \<open>What \<^verbatim>\<open>dispatch\<close> does to the hub: nothing, or one hub call.\<close>

lemma dispatch_hub:
  obtains "snd (peer_dispatch now ok p data h) = h"
  | "p_room (the_peer h p) < 0" "snd (peer_dispatch now ok p data h) = snd (createRoom now p h)"
  | n where "p_room (the_peer h p) < 0" "snd (peer_dispatch now ok p data h) = snd (join now p n h)"
  | n role where "p_room (the_peer h p) < 0" "snd (peer_dispatch now ok p data h) = snd (resume now p n role h)"
  | "snd (peer_dispatch now ok p data h) = snd (partner now p (set_peer p (\<lambda>x. x\<lparr>p_graceful := True\<rparr>) h))"
  | "snd (peer_dispatch now ok p data h) = snd (openRelay now p h)"
  | n where "snd (peer_dispatch now ok p data h) = snd (grantRelayCredit now p n h)"
  | "snd (peer_dispatch now ok p data h) = snd (partner now p h)"
proof (cases "parse_clientMsg data")
  case None
  then show ?thesis by (intro that(1)) (simp add: peer_dispatch_def)
next
  case (Some m)
  note d = peer_dispatch_def Let_def
  consider "cm_Type m = '''' \<or> \<not> ok" | "cm_Type m = ''create''" ok | "cm_Type m = ''join''" ok
    | "cm_Type m = ''resume''" ok | "cm_Type m = ''bye''" ok | "cm_Type m = ''relay_open''" ok
    | "cm_Type m = ''relay_credit''" ok
    | "cm_Type m \<notin> set ['''', ''create'', ''join'', ''resume'', ''bye'', ''relay_open'', ''relay_credit'']" ok
    by auto
  then show ?thesis
  proof cases
    case 1
    then show ?thesis using Some by (intro that(1)) (auto simp: d)
  next
    case 2
    then show ?thesis using Some that(1,2) by (cases "0 \<le> p_room (the_peer h p)") (auto simp: d split: prod.splits)
  next
    case 3
    show ?thesis
    proof (cases "cm_Room m")
      case (Some n)
      then show ?thesis using 3 \<open>parse_clientMsg data = Some m\<close> that(1) that(3) [of n]
        by (cases "join now p n h"; cases "fst (join now p n h)"; cases "0 \<le> p_room (the_peer h p)") (auto simp: d)
    qed (use 3 Some that(1) in \<open>auto simp: d\<close>)
  next
    case 4
    show ?thesis
    proof (cases "cm_Room m")
      case (Some n)
      then show ?thesis using 4 \<open>parse_clientMsg data = Some m\<close> that(1) that(4) [of n "cm_Role m"]
        by (cases "resume now p n (cm_Role m) h"; cases "fst (resume now p n (cm_Role m) h)";
            cases "0 \<le> p_room (the_peer h p)") (auto simp: d)
    qed (use 4 Some that(1) in \<open>auto simp: d\<close>)
  next
    case 5
    then show ?thesis using Some by (intro that(5)) (auto simp: d split: prod.splits)
  next
    case 6
    then show ?thesis using Some
      by (intro that(6)) (cases "openRelay now p h"; cases "fst (openRelay now p h)"; auto simp: d)
  next
    case 7
    then show ?thesis using Some
      by (intro that(7) [of "cm_Bytes m"]) (cases "grantRelayCredit now p (cm_Bytes m) h";
          cases "fst (grantRelayCredit now p (cm_Bytes m) h)"; auto simp: d)
  next
    case 8
    then show ?thesis using Some that(1,8)
      by (cases "forwardable (cm_Type m)"; cases "partner now p h"; cases "fst (partner now p h)") (auto simp: d)
  qed
qed

lemma paired_dispatch:
  assumes "paired h" and "p < h_conns h" and "p_serving (the_peer h p)"
  shows "paired (snd (peer_dispatch now ok p data h))"
proof -
  have g: "paired (set_peer p (\<lambda>x. x\<lparr>p_graceful := True\<rparr>) h)"
    by (rule same_seats_paired [OF same_seats_set_peer assms(1)]) (simp add: seat_view_def)
  show ?thesis
    by (rule dispatch_hub [of now ok p data h])
      (use assms in \<open>simp_all add: paired_createRoom paired_join paired_resume paired_openRelay
        paired_grantRelayCredit paired_partner g\<close>)
qed

lemma paired_act:
  assumes "paired h" and "act now pd p a h = Some (new, h')"
  shows "paired h'"
proof (cases a)
  case Teardown
  then show ?thesis
    using assms paired_discard [OF assms(1), of p] paired_vacate [OF assms(1), of now p]
    by (auto simp: Let_def split: prod.splits if_splits)
next
  case (Charge q n)
  then show ?thesis using assms(2) paired_charge [OF assms(1)] by auto
next
  case (Enqueue q d)
  then show ?thesis using assms(2) same_seats_paired [OF same_seats_queue(4) assms(1)] by (metis act.simps(1) option.inject snd_conv)
next
  case (Relay q d)
  then show ?thesis using assms(2) same_seats_paired [OF same_seats_queue(4) assms(1)] by (metis act.simps(3) option.inject snd_conv)
next
  case (Push q f sent failed)
  have "same_seats h (set_peer q (\<lambda>x. x\<lparr>p_send := p_send x @ [f]\<rparr>) h)"
    by (rule same_seats_set_peer) (simp add: seat_view_def)
  then have "same_seats h h'" using assms(2) Push by (auto split: if_splits)
  then show ?thesis using same_seats_paired assms(1) by blast
qed (use assms same_seats_paired [OF _ assms(1)] in \<open>auto intro: same_seats_queue\<close>)

lemma paired_set_todo: "paired (snd x) \<Longrightarrow> paired (set_todo p x)"
  unfolding set_todo_def by (rule same_seats_paired [OF same_seats_set_peer]) (simp_all add: seat_view_def)

lemma paired_Connect: "paired h \<Longrightarrow> paired (signal_step h Connect)"
  by (rule paired_view [of h]) (auto simp: paired_def find_room_def distinct_rooms_def)

lemma paired_step:
  assumes "paired h"
  shows "paired (signal_step h e)"
proof (cases e)
  case Connect
  with paired_Connect [OF assms] show ?thesis by simp
next
  case (RecvText now ok p data)
  then show ?thesis
    using assms paired_dispatch by (auto simp: serve_text_def idle_reader_def intro: paired_set_todo)
next
  case (RunAction now pd p)
  show ?thesis
  proof (cases "p < h_conns h \<and> p_todo (the_peer h p) \<noteq> []")
    case True
    then obtain a rest where a: "p_todo (the_peer h p) = a # rest" by (auto simp: neq_Nil_conv)
    show ?thesis
    proof (cases "act now pd p a h")
      case (Some x)
      then obtain new h' where x: "act now pd p a h = Some (new, h')" by (cases x) auto
      have "paired h'" by (rule paired_act [OF assms x])
      then have "paired (set_peer p (\<lambda>x. x\<lparr>p_todo := new @ rest\<rparr>) h')"
        by (rule same_seats_paired [OF same_seats_set_peer, rotated]) (simp add: seat_view_def)
      with True a x RunAction show ?thesis by (simp add: run_action_def)
    qed (use assms a RunAction in \<open>simp add: run_action_def\<close>)
  qed (use assms RunAction in \<open>auto simp: run_action_def\<close>)
next
  case (Reap now)
  with paired_reapOnce [OF assms] show ?thesis by simp
qed (use assms same_seats_paired [OF same_seats_write(1)] same_seats_paired [OF same_seats_write(2)]
    in \<open>auto intro: paired_set_todo\<close>)

interpretation paired_hub: machine signal_step paired
  by unfold_locales (rule paired_step)

lemma paired_NewHub: "paired (NewHub cfg)"
  by (simp add: paired_def distinct_rooms_def find_room_def NewHub_def)

end
