(* ===== verification/SignalRelay.thy ===== *)
theory SignalRelay
  imports SignalInv
begin

text \<open>
  The limits of the opaque relay: credit windows, the byte budget of a room, and the bounded
  outbound queues, over every interleaving of the connections.
\<close>

section \<open>Relay work in progress\<close>

text \<open>The bytes a reader has checked against its credit but not charged yet.\<close>

fun pend_action :: "action \<Rightarrow> int" where
  "pend_action (Relay q data) = int (length data)"
| "pend_action (Push q (BinaryFrame data) sent failed) = int (length data)"
| "pend_action (Charge q n) = n"
| "pend_action _ = 0"

fun harmless :: "action \<Rightarrow> bool" where
  "harmless (Fail_peer q c m) = True"
| "harmless (Close_peer q f) = True"
| "harmless Teardown = True"
| "harmless _ = False"

text \<open>Actions that have nothing to do with relayed frames.\<close>

fun plain :: "action \<Rightarrow> bool" where
  "plain (Push q (TextFrame d) sent failed) = (sent = [] \<and> list_all harmless failed)"
| "plain (Push q (BinaryFrame d) sent failed) = False"
| "plain (Relay q d) = False"
| "plain (Charge q n) = False"
| "plain _ = True"

definition todo_ok :: "action list \<Rightarrow> bool" where
  "todo_ok todo \<longleftrightarrow> list_all plain todo
     \<or> (\<exists>q d. todo = [Relay q d])
     \<or> (\<exists>q d failed. todo = [Push q (BinaryFrame d) [Charge q (int (length d))] failed] \<and> list_all harmless failed)
     \<or> (\<exists>q n. todo = [Charge q n] \<and> 0 \<le> n)"

definition pend :: "action list \<Rightarrow> int" where
  "pend todo = sum_list (map pend_action todo)"

lemma harmless_plain: "harmless a \<Longrightarrow> plain a"
  by (cases a) simp_all

lemma plain_pend: "plain a \<Longrightarrow> pend_action a = 0"
  by (cases a rule: plain.cases) simp_all

lemma pend_plain: "list_all plain todo \<Longrightarrow> pend todo = 0"
  by (induction todo) (simp_all add: pend_def plain_pend)

lemma todo_ok_plain: "list_all plain todo \<Longrightarrow> todo_ok todo"
  by (simp add: todo_ok_def)

lemma todo_ok_harmless: "list_all harmless todo \<Longrightarrow> list_all plain todo"
  by (auto simp: list_all_iff harmless_plain)

lemma pend_simps [simp]:
  "pend [] = 0" "pend [Relay q d] = int (length d)" "pend [Charge q n] = n"
  "pend [Push q (BinaryFrame d) sent failed] = int (length d)"
  by (simp_all add: pend_def)

lemma pend_nonneg: "todo_ok todo \<Longrightarrow> 0 \<le> pend todo"
  by (auto simp: todo_ok_def pend_plain)

section \<open>Credit and budget\<close>

definition peer_relay_ok :: "Config \<Rightarrow> peer \<Rightarrow> bool" where
  "peer_relay_ok cfg x \<longleftrightarrow> todo_ok (p_todo x) \<and> pend (p_todo x) \<le> p_relayCredit x
     \<and> pend (p_todo x) \<le> MaxRelayFrameBytes cfg \<and> p_relayCredit x \<le> RelayWindowBytes cfg"

definition seat_pending :: "Hub \<Rightarrow> nat option \<Rightarrow> int" where
  "seat_pending h s = (case s of None \<Rightarrow> 0 | Some p \<Rightarrow> pend (p_todo (the_peer h p)))"

definition room_load :: "Hub \<Rightarrow> room \<Rightarrow> int" where
  "room_load h r = rm_relayBytes r + seat_pending h (rm_offerer r) + seat_pending h (rm_joiner r)"

definition limits_ok :: "Config \<Rightarrow> bool" where
  "limits_ok cfg \<longleftrightarrow> 0 \<le> RelayWindowBytes cfg \<and> 0 \<le> MaxRelayFrameBytes cfg \<and> 0 \<le> RelayMaxSessionBytes cfg
     \<and> 0 \<le> RelayQueueBytes cfg"

definition relay_ok :: "Hub \<Rightarrow> bool" where
  "relay_ok h \<longleftrightarrow> paired h \<and> limits_ok (h_cfg h) \<and> (\<forall>p. peer_relay_ok (h_cfg h) (the_peer h p))
     \<and> (\<forall>n r. find_room h n = Some r \<longrightarrow> 0 \<le> rm_relayBytes r
          \<and> room_load h r \<le> RelayMaxSessionBytes (h_cfg h) + MaxRelayFrameBytes (h_cfg h))"

lemma seat_pending_nonneg: "relay_ok h \<Longrightarrow> 0 \<le> seat_pending h s"
  by (cases s) (auto simp: seat_pending_def relay_ok_def peer_relay_ok_def pend_nonneg)

lemma relay_okD:
  assumes "relay_ok h"
  shows "paired h" and "limits_ok (h_cfg h)" and "peer_relay_ok (h_cfg h) (the_peer h p)"
    and "find_room h n = Some r \<Longrightarrow> 0 \<le> rm_relayBytes r"
    and "find_room h n = Some r \<Longrightarrow> room_load h r \<le> RelayMaxSessionBytes (h_cfg h) + MaxRelayFrameBytes (h_cfg h)"
  using assms by (auto simp: relay_ok_def)

text \<open>Seats and pending bytes that do not grow.\<close>

definition lighter :: "Hub \<Rightarrow> Hub \<Rightarrow> bool" where
  "lighter h h' \<longleftrightarrow> (\<forall>n r'. find_room h' n = Some r' \<longrightarrow>
     rm_relayBytes r' = 0 \<and> seat_pending h' (rm_offerer r') \<le> 0 \<and> seat_pending h' (rm_joiner r') \<le> 0
     \<or> (\<exists>r. find_room h n = Some r \<and> rm_relayBytes r' = rm_relayBytes r
         \<and> seat_pending h' (rm_offerer r') \<le> seat_pending h (rm_offerer r)
         \<and> seat_pending h' (rm_joiner r') \<le> seat_pending h (rm_joiner r)))"

lemma relay_ok_lighter:
  assumes "relay_ok h" and "lighter h h'" and "paired h'" and "h_cfg h' = h_cfg h"
    and "\<And>p. peer_relay_ok (h_cfg h) (the_peer h' p)"
  shows "relay_ok h'"
proof -
  have "0 \<le> rm_relayBytes r' \<and> room_load h' r' \<le> RelayMaxSessionBytes (h_cfg h) + MaxRelayFrameBytes (h_cfg h)"
    if r': "find_room h' n = Some r'" for n r'
    using assms(2) r' relay_okD(2,4,5) [OF assms(1)]
    by (fastforce simp: lighter_def room_load_def limits_ok_def)
  with assms relay_okD(2) [OF assms(1)] show ?thesis by (simp add: relay_ok_def)
qed

text \<open>Steps that leave rooms and relay work as they are.\<close>

definition relay_view :: "peer \<Rightarrow> action list \<times> int" where
  "relay_view x = (p_todo x, p_relayCredit x)"

definition same_relay :: "Hub \<Rightarrow> Hub \<Rightarrow> bool" where
  "same_relay h h' \<longleftrightarrow> h_cfg h' = h_cfg h \<and> (\<forall>p. relay_view (the_peer h' p) = relay_view (the_peer h p))
     \<and> (\<forall>n r'. find_room h' n = Some r' \<longrightarrow> (\<exists>r. find_room h n = Some r \<and> rm_relayBytes r' = rm_relayBytes r
         \<and> rm_offerer r' \<in> {None, rm_offerer r} \<and> rm_joiner r' \<in> {None, rm_joiner r}))"

lemma same_relay_refl [simp]: "same_relay h h"
  by (simp add: same_relay_def)

lemma same_relay_trans: "same_relay h h' \<Longrightarrow> same_relay h' h'' \<Longrightarrow> same_relay h h''"
  unfolding same_relay_def by (metis insert_iff singletonD)

lemma same_relay_seat: "same_relay h h' \<Longrightarrow> seat_pending h' s = seat_pending h s"
  by (cases s) (auto simp: seat_pending_def same_relay_def relay_view_def)

lemma same_relay_lighter:
  assumes "relay_ok h" and "same_relay h h'"
  shows "lighter h h'"
  unfolding lighter_def
proof (intro allI impI disjI2)
  fix n r' assume "find_room h' n = Some r'"
  then obtain r where r: "find_room h n = Some r" "rm_relayBytes r' = rm_relayBytes r"
    "rm_offerer r' \<in> {None, rm_offerer r}" "rm_joiner r' \<in> {None, rm_joiner r}"
    using assms(2) unfolding same_relay_def by blast
  have "seat_pending h' s' \<le> seat_pending h s" if "s' \<in> {None, s}" for s s'
    using that seat_pending_nonneg [OF assms(1), of s] same_relay_seat [OF assms(2), of s]
    by (auto simp: seat_pending_def)
  with r show "\<exists>r. find_room h n = Some r \<and> rm_relayBytes r' = rm_relayBytes r
      \<and> seat_pending h' (rm_offerer r') \<le> seat_pending h (rm_offerer r)
      \<and> seat_pending h' (rm_joiner r') \<le> seat_pending h (rm_joiner r)" by blast
qed

lemma same_relay_ok:
  assumes "relay_ok h" and "same_relay h h'" and "paired h'"
  shows "relay_ok h'"
proof (rule relay_ok_lighter [OF assms(1) same_relay_lighter [OF assms(1,2)] assms(3)])
  show "peer_relay_ok (h_cfg h) (the_peer h' p)" for p
    using relay_okD(3) [OF assms(1), of p] assms(2)
    by (simp add: same_relay_def relay_view_def peer_relay_ok_def)
qed (use assms(2) in \<open>simp add: same_relay_def\<close>)

text \<open>A reader replaces its actions by others that are pending no more.\<close>

lemma set_todo_relay_ok:
  assumes "relay_ok h" and "todo_ok todo" and "pend todo \<le> pend (p_todo (the_peer h p))"
  shows "relay_ok (set_peer p (\<lambda>x. x\<lparr>p_todo := todo\<rparr>) h)"
proof (rule relay_ok_lighter [OF assms(1)])
  let ?h = "set_peer p (\<lambda>x. x\<lparr>p_todo := todo\<rparr>) h"
  have "seat_pending ?h s \<le> seat_pending h s" for s
    using assms(3) by (cases s) (auto simp: seat_pending_def)
  then show "lighter h ?h" by (auto simp: lighter_def)
  show "paired ?h"
    by (rule same_seats_paired [OF same_seats_set_peer relay_okD(1) [OF assms(1)]]) (simp add: seat_view_def)
  show "peer_relay_ok (h_cfg h) (the_peer ?h q)" for q
    using relay_okD(3) [OF assms(1), of q] assms(2,3) by (auto simp: peer_relay_ok_def)
qed simp

lemma set_plain_relay_ok:
  "relay_ok h \<Longrightarrow> list_all plain todo \<Longrightarrow> relay_ok (set_peer p (\<lambda>x. x\<lparr>p_todo := todo\<rparr>) h)"
  using relay_okD(3) [of h p] by (intro set_todo_relay_ok)
    (auto simp: todo_ok_plain pend_plain peer_relay_ok_def pend_nonneg)

section \<open>Hub calls\<close>

lemma same_relay_queue:
  "same_relay h (close_peer p f h)" "same_relay h (fail p c m h)" "same_relay h (releaseQueued p n h)"
  "same_relay h (snd (reserve q fr sent failed h))" "same_relay h (write_one ok p h)"
  "same_relay h (write_farewell ok p h)"
  by (auto simp: same_relay_def close_peer_def fail_def releaseQueued_def reserve_def relay_view_def write_one_def
      write_farewell_def Let_def split: list.splits option.splits)

lemma same_relay_calls:
  "same_relay h (snd (openRelay now p h))" "same_relay h (snd (partner now p h))"
  "same_relay h (snd (discard p h))" "same_relay h (snd (vacate now p h))"
  by (auto simp: same_relay_def openRelay_def partner_def discard_def vacate_def relay_view_def Let_def
      split: option.splits if_splits)

lemma same_relay_set_peer: "(\<And>x. relay_view (f x) = relay_view x) \<Longrightarrow> same_relay h (set_peer p f h)"
  by (simp add: same_relay_def)

lemma same_relay_fold_close: "same_relay h (fold (\<lambda>p. close_peer p f) ps h)"
proof (induction ps arbitrary: h)
  case (Cons p ps)
  show ?case using same_relay_trans [OF same_relay_queue(1) Cons.IH] by simp
qed simp

lemma same_relay_reapOnce:
  assumes "paired h"
  shows "same_relay h (reapOnce now h)"
proof -
  have d: "distinct (map fst (h_rooms h))" using paired_distinct [OF assms] by (simp add: distinct_rooms_def)
  have "same_relay h (h\<lparr>h_rooms := filter (\<lambda>x. \<not> stale now h x) (h_rooms h)\<rparr>)"
    using map_of_filter_distinct [OF d] by (auto simp: same_relay_def find_room_def)
  then show ?thesis unfolding reapOnce_def Let_def by (rule same_relay_trans [OF _ same_relay_fold_close])
qed

text \<open>A connection with nothing pending takes a seat.\<close>

lemma take_relay_ok:
  assumes "relay_ok h" and "p_todo (the_peer h p) = []"
    and "paired (put_room n r' (set_peer p (\<lambda>x. x\<lparr>p_room := k, p_role := role\<rparr>) h))"
    and "rm_relayBytes r' = 0 \<and> rm_offerer r' \<in> {None, Some p} \<and> rm_joiner r' \<in> {None, Some p}
      \<or> (\<exists>r. find_room h n = Some r \<and> rm_relayBytes r' = rm_relayBytes r
          \<and> rm_offerer r' \<in> {Some p, rm_offerer r} \<and> rm_joiner r' \<in> {Some p, rm_joiner r})"
  shows "relay_ok (put_room n r' (set_peer p (\<lambda>x. x\<lparr>p_room := k, p_role := role\<rparr>) h))"
proof (rule relay_ok_lighter [OF assms(1) _ assms(3)])
  let ?h = "put_room n r' (set_peer p (\<lambda>x. x\<lparr>p_room := k, p_role := role\<rparr>) h)"
  have s: "seat_pending ?h s = seat_pending h s" for s by (cases s) (simp_all add: seat_pending_def)
  have p: "seat_pending h (Some p) = 0" "seat_pending h None = 0" using assms(2) by (simp_all add: seat_pending_def)
  show "lighter h ?h"
    using assms(4) p seat_pending_nonneg [OF assms(1)] by (auto simp: lighter_def s)
  show "peer_relay_ok (h_cfg h) (the_peer ?h q)" for q
    using relay_okD(3) [OF assms(1), of q] by (auto simp: peer_relay_ok_def)
qed simp

lemma relay_ok_seating:
  assumes "relay_ok h" and "p < h_conns h" and "p_serving (the_peer h p)" and "p_room (the_peer h p) < 0"
    and "p_todo (the_peer h p) = []"
  shows "relay_ok (snd (createRoom now p h))" and "relay_ok (snd (join now p n h))"
    and "relay_ok (snd (resume now p n role h))"
proof -
  note ok = relay_okD(1) [OF assms(1)]
  show "relay_ok (snd (createRoom now p h))"
    using take_relay_ok [OF assms(1,5)] paired_createRoom [OF ok assms(2-4), of now]
    by (simp add: createRoom_def Let_def)
  show "relay_ok (snd (join now p n h))"
    using take_relay_ok [OF assms(1,5)] paired_join [OF ok assms(2-4), of now n] assms(1)
    by (auto simp: join_def split: option.splits)
  show "relay_ok (snd (resume now p n role h))"
    using take_relay_ok [OF assms(1,5)] paired_resume [OF ok assms(2-4), of now n role] assms(1)
    by (auto simp: resume_def Let_def split: option.splits if_splits)
qed

lemma relay_ok_grant:
  assumes "relay_ok h"
  shows "relay_ok (snd (grantRelayCredit now p n h))"
proof -
  let ?h = "snd (grantRelayCredit now p n h)"
  note ok = relay_okD(1) [OF assms]
  show ?thesis
  proof (rule relay_ok_lighter [OF assms])
    have todo: "p_todo (the_peer ?h q) = p_todo (the_peer h q)" for q
      by (auto simp: grantRelayCredit_def Let_def split: option.splits)
    then have s: "seat_pending ?h s = seat_pending h s" for s by (cases s) (simp_all add: seat_pending_def)
    have "find_room ?h k = Some r' \<Longrightarrow> \<exists>r. find_room h k = Some r \<and> rm_relayBytes r' = rm_relayBytes r
        \<and> rm_offerer r' = rm_offerer r \<and> rm_joiner r' = rm_joiner r" for k r'
      by (auto simp: grantRelayCredit_def Let_def split: option.splits if_splits)
    then show "lighter h ?h" by (fastforce simp: lighter_def s)
    show "paired ?h" by (rule paired_grantRelayCredit [OF ok])
    show "h_cfg ?h = h_cfg h" by (auto simp: grantRelayCredit_def Let_def split: option.splits)
    show "peer_relay_ok (h_cfg h) (the_peer ?h q)" for q
      using relay_okD(3) [OF assms, of q]
      by (auto simp: grantRelayCredit_def Let_def peer_relay_ok_def split: option.splits)
  qed
qed

section \<open>Every step keeps the limits\<close>

text \<open>Actions as \<^verbatim>\<open>dispatch\<close> and \<^verbatim>\<open>teardown\<close> produce them.\<close>

fun simple :: "action \<Rightarrow> bool" where
  "simple (Enqueue q d) = True"
| "simple a = harmless a"

lemma simple_plain: "simple a \<Longrightarrow> plain a"
  by (cases a) simp_all

lemma simple_cases:
  "\<lbrakk>c \<Longrightarrow> list_all simple (fst x); \<not> c \<Longrightarrow> list_all simple (fst y)\<rbrakk> \<Longrightarrow> list_all simple (fst (if c then x else y))"
  "\<lbrakk>list_all simple (fst x); \<And>v. list_all simple (fst (f v))\<rbrakk> \<Longrightarrow> list_all simple (fst (case m of None \<Rightarrow> x | Some v \<Rightarrow> f v))"
  "\<lbrakk>\<And>v w. list_all simple (fst (g v w))\<rbrakk> \<Longrightarrow> list_all simple (fst (case z of (v, w) \<Rightarrow> g v w))"
  "\<lbrakk>\<And>v. list_all simple (fst (k v)); \<And>w. list_all simple (fst (l w))\<rbrakk> \<Longrightarrow>
     list_all simple (fst (case s of Inl v \<Rightarrow> k v | Inr w \<Rightarrow> l w))"
  by (auto split: option.split sum.split prod.split)

lemma simple_dispatch: "list_all simple (fst (peer_dispatch now ok p data h))"
  unfolding peer_dispatch_def Let_def
  by (intro simple_cases; simp split: option.split)

lemma harmless_dispatch: "list_all plain (fst (peer_dispatch now ok p data h))"
  using simple_dispatch simple_plain by (metis list.pred_mono_strong)

lemma relay_ok_dispatch:
  assumes "relay_ok h" and "idle_reader p h"
  shows "relay_ok (snd (peer_dispatch now ok p data h))"
proof -
  have p: "p < h_conns h" "p_serving (the_peer h p)" "p_todo (the_peer h p) = []"
    using assms(2) by (simp_all add: idle_reader_def)
  note paired = relay_okD(1) [OF assms(1)]
  have gp: "paired (set_peer p (\<lambda>x. x\<lparr>p_graceful := True\<rparr>) h)"
    by (rule same_seats_paired [OF same_seats_set_peer paired]) (simp add: seat_view_def)
  have g: "relay_ok (set_peer p (\<lambda>x. x\<lparr>p_graceful := True\<rparr>) h)"
    by (rule same_relay_ok [OF assms(1) same_relay_set_peer gp]) (simp add: relay_view_def)
  show ?thesis
    by (rule dispatch_hub [of now ok p data h])
      (use assms(1) p relay_ok_seating [OF assms(1) p(1,2)] same_relay_ok [OF g same_relay_calls(2) paired_partner [OF gp]]
        same_relay_ok [OF assms(1) same_relay_calls(1) paired_openRelay [OF paired]]
        same_relay_ok [OF assms(1) same_relay_calls(2) paired_partner [OF paired]]
        in \<open>simp_all add: relay_ok_grant\<close>)
qed

lemma set_todo_eq: "set_todo p (todo, h) = set_peer p (\<lambda>x. x\<lparr>p_todo := todo\<rparr>) h"
  by (simp add: set_todo_def)

lemma relay_ok_RecvText:
  assumes "relay_ok h" and "idle_reader p h"
  shows "relay_ok (set_todo p (serve_text now ok p data h))"
  using assms set_plain_relay_ok [OF assms(1)] set_plain_relay_ok [OF relay_ok_dispatch [OF assms] harmless_dispatch]
  by (auto simp: serve_text_def set_todo_def)

text \<open>A frame that passes the checks of \<^verbatim>\<open>forwardRelay\<close> becomes pending.\<close>

lemma relay_ok_forward:
  assumes "relay_ok h" and "idle_reader p h" and "forwardRelay rate p data h = Inr other"
  shows "relay_ok (set_peer p (\<lambda>x. x\<lparr>p_todo := [Relay other data]\<rparr>) h)"
proof -
  let ?h = "set_peer p (\<lambda>x. x\<lparr>p_todo := [Relay other data]\<rparr>) h" and ?n = "p_room (the_peer h p)"
  let ?size = "int (length data)"
  from assms(3) obtain r where r: "find_room h ?n = Some r" "roomPartner r p = Some other"
    and lim: "?size \<le> MaxRelayFrameBytes (h_cfg h)" "?size \<le> p_relayCredit (the_peer h p)"
      "?size \<le> RelayMaxSessionBytes (h_cfg h) - rm_relayBytes r"
    by (auto simp: forwardRelay_def Let_def split: if_splits option.splits)
  note paired = relay_okD(1) [OF assms(1)]
  have ne: "p \<noteq> other" by (rule roomPartner_distinct [OF paired r])
  have pend_le: "seat_pending h s \<le> MaxRelayFrameBytes (h_cfg h)" for s
    using relay_okD(2,3) [OF assms(1)] by (cases s) (auto simp: seat_pending_def peer_relay_ok_def limits_ok_def)
  have load: "room_load ?h r' \<le> RelayMaxSessionBytes (h_cfg h) + MaxRelayFrameBytes (h_cfg h)"
    if r': "find_room h k = Some r'" for k r'
  proof (cases "rm_offerer r' = Some p \<or> rm_joiner r' = Some p")
    case True
    then have "k = ?n" using seated_room [OF paired r'] by auto
    then have eq: "r' = r" using r r' by simp
    have "seat_pending ?h (Some p) = ?size" "seat_pending ?h (Some other) = seat_pending h (Some other)"
      using ne by (simp_all add: seat_pending_def)
    then have "room_load ?h r = rm_relayBytes r + ?size + seat_pending h (Some other)"
      using roomPartner_seated [OF r(2)] by (auto simp: room_load_def)
    then show ?thesis using lim(3) pend_le [of "Some other"] eq by simp
  next
    case False
    then have "seat_pending ?h s = seat_pending h s" if "s = rm_offerer r' \<or> s = rm_joiner r'" for s
      using that by (cases s) (auto simp: seat_pending_def)
    then show ?thesis using relay_okD(5) [OF assms(1) r'] by (simp add: room_load_def)
  qed
  have "paired ?h" by (rule same_seats_paired [OF same_seats_set_peer paired]) (simp add: seat_view_def)
  moreover have "peer_relay_ok (h_cfg h) (the_peer ?h q)" for q
    using relay_okD(3) [OF assms(1), of q] relay_okD(3) [OF assms(1), of p] lim
    by (auto simp: peer_relay_ok_def todo_ok_def)
  ultimately show ?thesis using load relay_okD(2,4) [OF assms(1)] by (simp add: relay_ok_def)
qed

lemma relay_ok_RecvBinary:
  assumes "relay_ok h" and "idle_reader p h"
  shows "relay_ok (set_todo p (serve_binary rate p data h, h))"
  using set_plain_relay_ok [OF assms(1)] relay_ok_forward [OF assms]
  by (cases "forwardRelay rate p data h") (simp_all add: serve_binary_def set_todo_eq)

text \<open>The pending frame is charged: credit and budget move by the same amount.\<close>

lemma charge_relay_ok:
  assumes "relay_ok h" and "p_todo (the_peer h p) = [Charge q n]"
  shows "relay_ok (set_peer p (\<lambda>x. x\<lparr>p_todo := []\<rparr>) (charge_relay now p q n h))"
proof -
  let ?k = "p_room (the_peer h p)"
  let ?h = "set_peer p (\<lambda>x. x\<lparr>p_todo := []\<rparr>) (charge_relay now p q n h)"
  have ok: "0 \<le> n" "n \<le> p_relayCredit (the_peer h p)"
    using relay_okD(3) [OF assms(1), of p] assms(2) by (auto simp: peer_relay_ok_def todo_ok_def)
  have none: "relay_ok (set_peer p (\<lambda>x. x\<lparr>p_todo := []\<rparr>) h)" by (rule set_plain_relay_ok [OF assms(1)]) simp
  show ?thesis
  proof (cases "\<exists>r. find_room h ?k = Some r \<and> roomPartner r p = Some q")
    case False
    then have "charge_relay now p q n h = h" by (auto simp: charge_relay_def split: option.splits)
    with none show ?thesis by simp
  next
    case True
    then obtain r where r: "find_room h ?k = Some r" "roomPartner r p = Some q" by blast
    let ?r = "r\<lparr>rm_relayBytes := rm_relayBytes r + n, rm_lastSeen := now\<rparr>"
    have c: "charge_relay now p q n h = (put_room ?k ?r
        (set_peer p (\<lambda>x. x\<lparr>p_relayCredit := p_relayCredit x - n\<rparr>) h))\<lparr>h_relayBytes := h_relayBytes h + n\<rparr>"
      using r by (simp add: charge_relay_def)
    have rooms: "find_room ?h = (find_room h)(?k \<mapsto> ?r)" by (simp add: c find_room_def fun_eq_iff put_room_def update_conv)
    have cfg: "h_cfg ?h = h_cfg h" by (simp add: c)
    have s: "seat_pending ?h x \<le> seat_pending h x" for x
      using assms(2) ok(1) by (cases x) (auto simp: seat_pending_def c)
    have own: "seat_pending ?h (Some p) = 0" "seat_pending h (Some p) = n"
      using assms(2) by (simp_all add: seat_pending_def c)
    have load: "0 \<le> rm_relayBytes r' \<and> room_load ?h r' \<le> RelayMaxSessionBytes (h_cfg h) + MaxRelayFrameBytes (h_cfg h)"
      if r': "find_room ?h i = Some r'" for i r'
    proof (cases "i = ?k")
      case False
      with r' rooms have "find_room h i = Some r'" by simp
      with relay_okD(4,5) [OF assms(1) this] s [of "rm_offerer r'"] s [of "rm_joiner r'"] show ?thesis
        by (simp add: room_load_def)
    next
      case True
      then have eq: "r' = ?r" using r' rooms by simp
      have "room_load ?h ?r \<le> room_load h r"
        using roomPartner_seated [OF r(2)] s [of "Some q"] own by (auto simp: room_load_def)
      with relay_okD(4,5) [OF assms(1) r(1)] ok(1) eq show ?thesis by simp
    qed
    have "paired ?h"
      by (rule same_seats_paired [OF same_seats_set_peer paired_charge [OF relay_okD(1) [OF assms(1)]]])
        (simp add: seat_view_def)
    moreover have "peer_relay_ok (h_cfg h) (the_peer ?h i)" for i
      using relay_okD(3) [OF assms(1), of i] relay_okD(2) [OF assms(1)] ok
      by (auto simp: c peer_relay_ok_def todo_ok_def limits_ok_def)
    ultimately show ?thesis using load relay_okD(2) [OF assms(1)] cfg by (simp add: relay_ok_def)
  qed
qed

lemma same_relay_act:
  assumes "act now pd p a h = Some (new, h')" and "\<And>q n. a \<noteq> Charge q n"
  shows "same_relay h h'"
proof (cases a)
  case Teardown
  let ?h = "set_peer p (\<lambda>x. x\<lparr>p_serving := False\<rparr>) h"
  have "same_relay h ?h" by (rule same_relay_set_peer) (simp add: relay_view_def)
  then have "same_relay h (snd (discard p ?h))" "same_relay h (snd (vacate now p ?h))"
    using same_relay_trans same_relay_calls(3,4) by blast+
  then show ?thesis using assms(1) Teardown by (auto simp: Let_def split: prod.splits if_splits)
next
  case (Push q f sent failed)
  have "same_relay h (set_peer q (\<lambda>x. x\<lparr>p_send := p_send x @ [f]\<rparr>) h)"
    by (rule same_relay_set_peer) (simp add: relay_view_def)
  then show ?thesis using assms(1) Push same_relay_queue(3) by (auto split: if_splits)
next
  case (Enqueue q d)
  then show ?thesis using assms(1) same_relay_queue(4) by (metis act.simps(1) option.inject snd_conv)
next
  case (Relay q d)
  then show ?thesis using assms(1) same_relay_queue(4) by (metis act.simps(3) option.inject snd_conv)
qed (use assms same_relay_queue in auto)

text \<open>An action and its successors: what is pending does not grow.\<close>

lemma act_todo_ok:
  assumes "act now pd p a h = Some (new, h')" and "todo_ok (a # rest)" and "\<And>q n. a \<noteq> Charge q n"
  shows "todo_ok (new @ rest) \<and> pend (new @ rest) \<le> pend (a # rest)"
proof (cases "list_all plain (a # rest)")
  case True
  have "list_all plain new"
  proof (cases a)
    case (Push q f sent failed)
    with True assms(1) show ?thesis by (cases f) (auto split: if_splits dest: todo_ok_harmless)
  qed (use True assms(1) in \<open>auto simp: reserve_def Let_def split: if_splits prod.splits option.splits\<close>)
  with True show ?thesis by (simp add: todo_ok_plain pend_plain)
next
  case False
  with assms(2,3) consider q d where "a = Relay q d" "rest = []"
    | q d failed where "a = Push q (BinaryFrame d) [Charge q (int (length d))] failed" "rest = []" "list_all harmless failed"
    by (auto simp: todo_ok_def)
  then show ?thesis
  proof cases
    case 1
    with assms(1) show ?thesis by (auto simp: reserve_def todo_ok_def pend_def split: if_splits)
  next
    case 2
    with assms(1) show ?thesis
      by (auto simp: todo_ok_plain pend_plain todo_ok_harmless todo_ok_def split: if_splits)
  qed
qed

lemma relay_ok_act:
  assumes "relay_ok h" and "p_todo (the_peer h p) = a # rest" and "act now pd p a h = Some (new, h')"
  shows "relay_ok (set_peer p (\<lambda>x. x\<lparr>p_todo := new @ rest\<rparr>) h')"
proof (cases "\<exists>q n. a = Charge q n")
  case True
  then obtain q n where a: "a = Charge q n" by blast
  then have "rest = []" using relay_okD(3) [OF assms(1), of p] assms(2) by (auto simp: peer_relay_ok_def todo_ok_def)
  with charge_relay_ok [OF assms(1), of p q n now] a assms(2,3) show ?thesis by simp
next
  case False
  have same: "same_relay h h'" by (rule same_relay_act [OF assms(3)]) (use False in blast)
  have ok: "relay_ok h'" by (rule same_relay_ok [OF assms(1) same paired_act [OF relay_okD(1) [OF assms(1)] assms(3)]])
  have todo: "p_todo (the_peer h' p) = a # rest" using same assms(2) by (simp add: same_relay_def relay_view_def)
  have "todo_ok (a # rest)" using relay_okD(3) [OF assms(1), of p] assms(2) by (simp add: peer_relay_ok_def)
  with act_todo_ok [OF assms(3)] False have "todo_ok (new @ rest)" "pend (new @ rest) \<le> pend (a # rest)" by blast+
  with set_todo_relay_ok [OF ok] todo show ?thesis by simp
qed

lemma relay_ok_Connect:
  assumes "relay_ok h"
  shows "relay_ok (signal_step h Connect)"
proof (rule relay_ok_lighter [OF assms])
  let ?h = "signal_step h Connect"
  have peers: "the_peer ?h p = (if p = h_conns h then newPeer else the_peer h p)" for p by simp
  have "seat_pending ?h s \<le> seat_pending h s" for s
    using seat_pending_nonneg [OF assms, of s] by (cases s) (auto simp: seat_pending_def newPeer_def)
  then show "lighter h ?h" by (auto simp: lighter_def find_room_def)
  show "paired ?h" by (rule paired_Connect [OF relay_okD(1) [OF assms]])
  show "peer_relay_ok (h_cfg h) (the_peer ?h p)" for p
    using relay_okD(2,3) [OF assms] by (auto simp: peer_relay_ok_def newPeer_def todo_ok_def limits_ok_def)
qed simp

lemma relay_ok_step:
  assumes "relay_ok h"
  shows "relay_ok (signal_step h e)"
proof -
  note paired = relay_okD(1) [OF assms]
  show ?thesis
  proof (cases e)
    case Connect
    with relay_ok_Connect [OF assms] show ?thesis by simp
  next
    case (RunAction now pd p)
    then show ?thesis using assms relay_ok_act [OF assms]
      by (auto simp: run_action_def split: list.splits option.splits)
  next
    case (Reap now)
    with same_relay_ok [OF assms same_relay_reapOnce [OF paired] paired_reapOnce [OF paired]] show ?thesis by simp
  next
    case (WriteOne ok p)
    with assms same_relay_ok [OF assms same_relay_queue(5) same_seats_paired [OF same_seats_write(1) paired]]
    show ?thesis by simp
  next
    case (WriteFarewell ok p)
    with assms same_relay_ok [OF assms same_relay_queue(6) same_seats_paired [OF same_seats_write(2) paired]]
    show ?thesis by simp
  qed (use assms relay_ok_RecvText [OF assms] relay_ok_RecvBinary [OF assms] set_plain_relay_ok [OF assms]
      in \<open>auto simp: set_todo_eq\<close>)
qed

interpretation limited_hub: machine signal_step relay_ok
  by unfold_locales (rule relay_ok_step)

lemma relay_ok_NewHub: "limits_ok cfg \<Longrightarrow> relay_ok (NewHub cfg)"
  using paired_NewHub [of cfg]
  by (simp add: relay_ok_def NewHub_def find_room_def peer_relay_ok_def newPeer_def todo_ok_def limits_ok_def)

end
