(* ===== verification/SignalQueue.thy ===== *)
theory SignalQueue
  imports SignalRelay
begin

text \<open>
  The outbound queues of the connections, and the properties of the signaling server.
\<close>

section \<open>Queue accounting\<close>

definition queue_size :: "outboundFrame list \<Rightarrow> int" where
  "queue_size fs = sum_list (map frame_size fs)"

text \<open>Bytes reserved for the queue of \<open>q\<close> by a send that has not reached the channel yet.\<close>

fun resv_action :: "nat \<Rightarrow> action \<Rightarrow> int" where
  "resv_action q (Push q' f sent failed) = (if q' = q then frame_size f else 0)"
| "resv_action q _ = 0"

definition resv :: "nat \<Rightarrow> action list \<Rightarrow> int" where
  "resv q todo = sum_list (map (resv_action q) todo)"

definition reserved :: "Hub \<Rightarrow> nat \<Rightarrow> int" where
  "reserved h q = (\<Sum>p < h_conns h. resv q (p_todo (the_peer h p)))"

fun targets :: "action \<Rightarrow> nat list" where
  "targets (Enqueue q d) = [q]"
| "targets (Push q f sent failed) = q # concat (map targets sent) @ concat (map targets failed)"
| "targets (Relay q d) = [q]"
| "targets (Charge q n) = [q]"
| "targets (Fail_peer q c m) = [q]"
| "targets (Close_peer q f) = [q]"
| "targets Teardown = []"

definition targets_in :: "nat \<Rightarrow> action list \<Rightarrow> bool" where
  "targets_in n todo \<longleftrightarrow> list_all (\<lambda>a. list_all (\<lambda>q. q < n) (targets a)) todo"

definition queue_ok :: "Hub \<Rightarrow> bool" where
  "queue_ok h \<longleftrightarrow> (\<forall>q. p_queuedBytes (the_peer h q) = queue_size (p_send (the_peer h q)) + reserved h q
       \<and> queue_size (p_send (the_peer h q)) + reserved h q \<le> RelayQueueBytes (h_cfg h)
       \<and> length (p_send (the_peer h q)) \<le> sendBuffer)
     \<and> (\<forall>p. targets_in (h_conns h) (p_todo (the_peer h p)))"

lemma frame_size_nonneg [simp]: "0 \<le> frame_size f"
  by (cases f) simp_all

lemma queue_size_nonneg: "0 \<le> queue_size fs"
  by (induction fs) (simp_all add: queue_size_def)

lemma resv_nonneg: "0 \<le> resv q todo"
proof (induction todo)
  case (Cons a todo)
  then show ?case by (cases a) (simp_all add: resv_def)
qed (simp add: resv_def)

lemma reserved_nonneg: "0 \<le> reserved h q"
  unfolding reserved_def by (intro sum_nonneg resv_nonneg)

lemma resv_append [simp]: "resv q (xs @ ys) = resv q xs + resv q ys"
  by (simp add: resv_def)

lemma resv_Cons [simp]: "resv q (a # xs) = resv_action q a + resv q xs" "resv q [] = 0"
  by (simp_all add: resv_def)

lemma resv_simple: "list_all simple todo \<Longrightarrow> resv q todo = 0"
proof (induction todo)
  case (Cons a todo)
  then show ?case by (cases a) simp_all
qed simp

lemma harmless_simple: "list_all harmless todo \<Longrightarrow> list_all simple todo"
proof (induction todo)
  case (Cons a todo)
  then show ?case by (cases a) simp_all
qed simp

lemma targets_in_simps [simp]:
  "targets_in n []" "targets_in n (a # xs) \<longleftrightarrow> list_all (\<lambda>q. q < n) (targets a) \<and> targets_in n xs"
  "targets_in n (xs @ ys) \<longleftrightarrow> targets_in n xs \<and> targets_in n ys"
  by (simp_all add: targets_in_def)

lemma targets_in_concat: "list_all (\<lambda>q. q < n) (concat (map targets xs)) \<longleftrightarrow> targets_in n xs"
  by (induction xs) simp_all

lemma targets_in_mono: "targets_in n xs \<Longrightarrow> n \<le> m \<Longrightarrow> targets_in m xs"
  by (fastforce simp: targets_in_def list_all_iff)

lemma resv_targets: "targets_in n xs \<Longrightarrow> n \<le> q \<Longrightarrow> resv q xs = 0"
proof (induction xs)
  case (Cons a xs)
  then show ?case by (cases a) auto
qed simp

lemma reserved_targets: "queue_ok h \<Longrightarrow> h_conns h \<le> q \<Longrightarrow> reserved h q = 0"
  unfolding reserved_def by (intro sum.neutral ballI resv_targets) (auto simp: queue_ok_def)

text \<open>A reader replaces its actions.\<close>

lemma reserved_set_todo:
  assumes "p < h_conns h"
  shows "reserved (set_peer p (\<lambda>x. x\<lparr>p_todo := todo\<rparr>) h) q
    = reserved h q - resv q (p_todo (the_peer h p)) + resv q todo"
proof -
  have "reserved (set_peer p (\<lambda>x. x\<lparr>p_todo := todo\<rparr>) h) q
      = resv q todo + (\<Sum>i \<in> {..<h_conns h} - {p}. resv q (p_todo (the_peer h i)))"
    unfolding reserved_def using assms by (subst sum.remove [of _ p]) auto
  moreover have "reserved h q
      = resv q (p_todo (the_peer h p)) + (\<Sum>i \<in> {..<h_conns h} - {p}. resv q (p_todo (the_peer h i)))"
    unfolding reserved_def using assms by (subst sum.remove [of _ p]) auto
  ultimately show ?thesis by simp
qed

text \<open>Steps that leave all queues as they are.\<close>

definition queue_view :: "peer \<Rightarrow> outboundFrame list \<times> int \<times> action list" where
  "queue_view x = (p_send x, p_queuedBytes x, p_todo x)"

definition same_queues :: "Hub \<Rightarrow> Hub \<Rightarrow> bool" where
  "same_queues h h' \<longleftrightarrow> h_cfg h' = h_cfg h \<and> h_conns h' = h_conns h
     \<and> (\<forall>p. queue_view (the_peer h' p) = queue_view (the_peer h p))"

lemma same_queues_refl [simp]: "same_queues h h"
  by (simp add: same_queues_def)

lemma same_queues_trans: "same_queues h h' \<Longrightarrow> same_queues h' h'' \<Longrightarrow> same_queues h h''"
  by (simp add: same_queues_def)

lemma same_queues_reserved: "same_queues h h' \<Longrightarrow> reserved h' q = reserved h q"
  by (simp add: reserved_def same_queues_def queue_view_def)

lemma same_queues_ok: "same_queues h h' \<Longrightarrow> queue_ok h \<Longrightarrow> queue_ok h'"
  using same_queues_reserved [of h h'] by (simp add: queue_ok_def same_queues_def queue_view_def)

lemma same_queues_set_peer: "(\<And>x. queue_view (f x) = queue_view x) \<Longrightarrow> same_queues h (set_peer p f h)"
  by (simp add: same_queues_def)

lemma same_queues_calls:
  "same_queues h (close_peer p f h)" "same_queues h (fail p c m h)" "same_queues h (charge_relay now p q n h)"
  "same_queues h (snd (openRelay now p h))" "same_queues h (snd (partner now p h))"
  "same_queues h (snd (discard p h))" "same_queues h (snd (vacate now p h))"
  "same_queues h (snd (grantRelayCredit now p n h))" "same_queues h (snd (createRoom now p h))"
  "same_queues h (snd (join now p k h))" "same_queues h (snd (resume now p k role h))"
  "same_queues h (write_farewell ok p h)"
  by (auto simp: same_queues_def queue_view_def close_peer_def fail_def charge_relay_def openRelay_def partner_def
      discard_def vacate_def grantRelayCredit_def createRoom_def join_def resume_def write_farewell_def Let_def
      split: option.splits)

lemma same_queues_fold_close: "same_queues h (fold (\<lambda>p. close_peer p f) ps h)"
proof (induction ps arbitrary: h)
  case (Cons p ps)
  show ?case using same_queues_trans [OF same_queues_calls(1) Cons.IH] by simp
qed simp

lemma same_queues_reapOnce: "same_queues h (reapOnce now h)"
  unfolding reapOnce_def Let_def
  by (rule same_queues_trans [OF _ same_queues_fold_close]) (simp add: same_queues_def)

lemma same_queues_dispatch: "same_queues h (snd (peer_dispatch now ok p data h))"
proof -
  have "same_queues h (set_peer p (\<lambda>x. x\<lparr>p_graceful := True\<rparr>) h)"
    by (rule same_queues_set_peer) (simp add: queue_view_def)
  then show ?thesis
    by (rule_tac dispatch_hub [of now ok p data h])
      (auto simp: same_queues_calls intro: same_queues_trans [OF _ same_queues_calls(5)])
qed

lemma queue_ok_set_todo:
  assumes "queue_ok h" and "p < h_conns h" and "targets_in (h_conns h) todo"
    and "\<And>q. resv q todo = resv q (p_todo (the_peer h p))"
  shows "queue_ok (set_peer p (\<lambda>x. x\<lparr>p_todo := todo\<rparr>) h)"
  using assms(1,3,4) reserved_set_todo [OF assms(2)] by (auto simp: queue_ok_def)

section \<open>Targets\<close>

lemma partner_conns:
  "paired h \<Longrightarrow> find_room h k = Some r \<Longrightarrow> roomPartner r p = Some q \<Longrightarrow> q < h_conns h"
  using seated_room [of h k r q] roomPartner_seated [of r p q] by blast

lemma call_targets:
  assumes "paired h" and "p < h_conns h"
  shows "join now p n h = (Inr q, h') \<Longrightarrow> q < h_conns h"
    and "resume now p n role h = (Inr (Some q), h') \<Longrightarrow> q < h_conns h"
    and "openRelay now p h = (Inr (q, ready), h') \<Longrightarrow> q < h_conns h"
    and "grantRelayCredit now p m h = (Inr (q, granted), h') \<Longrightarrow> q < h_conns h"
    and "partner now p h = (Some q, h') \<Longrightarrow> q < h_conns h"
    and "discard p h = (Some q, h') \<Longrightarrow> q < h_conns h"
    and "vacate now p h = (Some q, h') \<Longrightarrow> q < h_conns h"
    and "forwardRelay rate p data h = Inr q \<Longrightarrow> q < h_conns h"
proof -
  note seat = seated_room [OF assms(1)] and other = partner_conns [OF assms(1)]
  show "join now p n h = (Inr q, h') \<Longrightarrow> q < h_conns h"
    using seat by (auto simp: join_def split: option.splits)
  show "resume now p n role h = (Inr (Some q), h') \<Longrightarrow> q < h_conns h"
    using seat assms(2) by (auto simp: resume_def Let_def roomPartner_def split: option.splits if_splits)
  show "openRelay now p h = (Inr (q, ready), h') \<Longrightarrow> q < h_conns h"
    using other by (auto simp: openRelay_def Let_def split: option.splits)
  show "grantRelayCredit now p m h = (Inr (q, granted), h') \<Longrightarrow> q < h_conns h"
    using other by (auto simp: grantRelayCredit_def Let_def split: option.splits if_splits)
  show "partner now p h = (Some q, h') \<Longrightarrow> q < h_conns h"
    using other by (auto simp: partner_def split: option.splits)
  show "discard p h = (Some q, h') \<Longrightarrow> q < h_conns h"
    using other by (auto simp: discard_def split: option.splits)
  show "vacate now p h = (Some q, h') \<Longrightarrow> q < h_conns h"
    using other by (auto simp: vacate_def Let_def split: option.splits if_splits)
  show "forwardRelay rate p data h = Inr q \<Longrightarrow> q < h_conns h"
    using other by (auto simp: forwardRelay_def Let_def split: option.splits if_splits)
qed

lemma target_cases:
  "\<lbrakk>c \<Longrightarrow> targets_in n (fst x); \<not> c \<Longrightarrow> targets_in n (fst y)\<rbrakk> \<Longrightarrow> targets_in n (fst (if c then x else y))"
  "\<lbrakk>m = None \<Longrightarrow> targets_in n (fst x); \<And>v. m = Some v \<Longrightarrow> targets_in n (fst (f v))\<rbrakk> \<Longrightarrow>
     targets_in n (fst (case m of None \<Rightarrow> x | Some v \<Rightarrow> f v))"
  "\<lbrakk>\<And>v w. z = (v, w) \<Longrightarrow> targets_in n (fst (g v w))\<rbrakk> \<Longrightarrow> targets_in n (fst (case z of (v, w) \<Rightarrow> g v w))"
  "\<lbrakk>\<And>v. s = Inl v \<Longrightarrow> targets_in n (fst (k v)); \<And>w. s = Inr w \<Longrightarrow> targets_in n (fst (l w))\<rbrakk> \<Longrightarrow>
     targets_in n (fst (case s of Inl v \<Rightarrow> k v | Inr w \<Rightarrow> l w))"
  by (auto split: option.split sum.split prod.split)

lemma dispatch_targets:
  assumes "paired h" and "p < h_conns h"
  shows "targets_in (h_conns h) (fst (peer_dispatch now ok p data h))"
proof -
  have g: "paired (set_peer p (\<lambda>x. x\<lparr>p_graceful := True\<rparr>) h)"
    by (rule same_seats_paired [OF same_seats_set_peer assms(1)]) (simp add: seat_view_def)
  note t = call_targets [OF assms] call_targets(5) [OF g, of p, simplified, OF assms(2)]
  show ?thesis
    unfolding peer_dispatch_def Let_def
    by (intro target_cases; use assms(2) t in \<open>auto split: option.split\<close>)
qed

section \<open>Every step keeps the queues bounded\<close>

definition bounded_hub :: "Hub \<Rightarrow> bool" where
  "bounded_hub h \<longleftrightarrow> relay_ok h \<and> queue_ok h"

lemma queue_ok_set_simple:
  assumes "queue_ok h" and "p < h_conns h" and "p_todo (the_peer h p) = []"
    and "list_all simple todo" and "targets_in (h_conns h) todo"
  shows "queue_ok (set_peer p (\<lambda>x. x\<lparr>p_todo := todo\<rparr>) h)"
  by (rule queue_ok_set_todo [OF assms(1,2,5)]) (simp add: assms(3) resv_simple [OF assms(4)])

lemma queue_ok_RecvText:
  assumes "bounded_hub h" and "idle_reader p h"
  shows "queue_ok (set_todo p (serve_text now ok p data h))"
proof -
  have p: "p < h_conns h" "p_todo (the_peer h p) = []" and ok: "queue_ok h" "paired h"
    using assms by (auto simp: bounded_hub_def idle_reader_def dest: relay_okD(1))
  let ?h = "snd (peer_dispatch now ok p data h)"
  have same: "same_queues h ?h" by (rule same_queues_dispatch)
  have h: "h_conns ?h = h_conns h" "p_todo (the_peer ?h p) = []"
    using same p(2) by (simp_all add: same_queues_def queue_view_def)
  have "queue_ok (set_peer p (\<lambda>x. x\<lparr>p_todo := fst (peer_dispatch now ok p data h)\<rparr>) ?h)"
    by (rule queue_ok_set_simple [OF same_queues_ok [OF same ok(1)]])
      (use p(1) h simple_dispatch dispatch_targets [OF ok(2) p(1)] in simp_all)
  moreover have "queue_ok (set_peer p (\<lambda>x. x\<lparr>p_todo := [Fail_peer p errBadMessage ''message too large'', Teardown]\<rparr>) h)"
    by (rule queue_ok_set_simple [OF ok(1) p]) (use p(1) in simp_all)
  ultimately show ?thesis by (simp add: serve_text_def set_todo_def)
qed

lemma queue_ok_RecvBinary:
  assumes "bounded_hub h" and "idle_reader p h"
  shows "queue_ok (set_todo p (serve_binary rate p data h, h))"
proof -
  have p: "p < h_conns h" "p_todo (the_peer h p) = []" and ok: "queue_ok h" "paired h"
    using assms by (auto simp: bounded_hub_def idle_reader_def dest: relay_okD(1))
  have "targets_in (h_conns h) (serve_binary rate p data h)" "resv q (serve_binary rate p data h) = 0" for q
    using p(1) call_targets(8) [OF ok(2) p(1)] by (auto simp: serve_binary_def split: sum.splits)
  then show ?thesis unfolding set_todo_eq using queue_ok_set_todo [OF ok(1) p(1)] p(2) by simp
qed

text \<open>Reserving bytes, the channel send and the writer.\<close>

lemma queue_ok_reserve:
  assumes "queue_ok h" and "p < h_conns h" and "p_todo (the_peer h p) = a # rest" and "\<And>q'. resv_action q' a = 0"
    and "targets_in (h_conns h) (Push q f sent failed # failed)"
    and "reserve q f sent failed h = (new, h')" and "list_all simple failed"
  shows "queue_ok (set_peer p (\<lambda>x. x\<lparr>p_todo := new @ rest\<rparr>) h')"
proof (cases "RelayQueueBytes (h_cfg h) - p_queuedBytes (the_peer h q) < frame_size f")
  case True
  with assms(6) have n: "new = failed" "h' = h" by (simp_all add: reserve_def)
  have "targets_in (h_conns h) rest" using assms(1,3) unfolding queue_ok_def by (metis targets_in_simps(2))
  with n queue_ok_set_todo [OF assms(1,2)] assms show ?thesis by (simp add: resv_simple)
next
  case False
  with assms(6) have n: "new = [Push q f sent failed]"
    "h' = set_peer q (\<lambda>x. x\<lparr>p_queuedBytes := p_queuedBytes x + frame_size f\<rparr>) h" by (auto simp: reserve_def)
  have rest: "targets_in (h_conns h) rest" using assms(1,3) unfolding queue_ok_def by (metis targets_in_simps(2))
  have r: "reserved h' i = reserved h i" for i by (auto simp: reserved_def n(2) intro!: sum.cong)
  have todo: "p_todo (the_peer h' p) = a # rest" using assms(3) by (auto simp: n(2))
  have res: "reserved (set_peer p (\<lambda>x. x\<lparr>p_todo := new @ rest\<rparr>) h') i
      = reserved h i + (if i = q then frame_size f else 0)" for i
    using reserved_set_todo [of p h' "new @ rest" i] assms(2,4) r todo by (simp add: n)
  show ?thesis
    using assms(1,5) rest False by (auto simp: queue_ok_def res) (auto simp: n)
qed

lemma queue_ok_push:
  assumes "queue_ok h" and "p < h_conns h" and "p_todo (the_peer h p) = Push q f sent failed # rest"
    and "length (p_send (the_peer h q)) < sendBuffer" and "\<And>i. resv i sent = 0"
  shows "queue_ok (set_peer p (\<lambda>x. x\<lparr>p_todo := sent @ rest\<rparr>) (set_peer q (\<lambda>x. x\<lparr>p_send := p_send x @ [f]\<rparr>) h))"
proof -
  let ?h = "set_peer q (\<lambda>x. x\<lparr>p_send := p_send x @ [f]\<rparr>) h"
  have r: "reserved ?h i = reserved h i" for i by (auto simp: reserved_def intro!: sum.cong)
  have res: "reserved (set_peer p (\<lambda>x. x\<lparr>p_todo := sent @ rest\<rparr>) ?h) i
      = reserved h i - (if i = q then frame_size f else 0)" for i
    using reserved_set_todo [of p ?h "sent @ rest" i] assms(2,3,5) r by auto
  have t: "targets_in (h_conns h) (sent @ rest)"
    using assms(1,3) unfolding queue_ok_def by (metis list_all_append list.pred_inject(2) targets.simps(2)
        targets_in_concat targets_in_simps(2,3))
  show ?thesis
    using assms(1,4) t by (auto simp: queue_ok_def res) (auto simp: queue_size_def)
qed

lemma queue_ok_unreserve:
  assumes "queue_ok h" and "p < h_conns h" and "p_todo (the_peer h p) = Push q f sent failed # rest"
    and "\<And>i. resv i failed = 0"
  shows "queue_ok (set_peer p (\<lambda>x. x\<lparr>p_todo := failed @ rest\<rparr>) (releaseQueued q (frame_size f) h))"
proof -
  let ?h = "releaseQueued q (frame_size f) h"
  have r: "reserved ?h i = reserved h i" for i by (auto simp: reserved_def releaseQueued_def intro!: sum.cong)
  have res: "reserved (set_peer p (\<lambda>x. x\<lparr>p_todo := failed @ rest\<rparr>) ?h) i
      = reserved h i - (if i = q then frame_size f else 0)" for i
    using reserved_set_todo [of p ?h "failed @ rest" i] assms(2,3,4) r by (auto simp: releaseQueued_def)
  have t: "targets_in (h_conns h) (failed @ rest)"
    using assms(1,3) unfolding queue_ok_def by (metis list_all_append list.pred_inject(2) targets.simps(2)
        targets_in_concat targets_in_simps(2,3))
  have le: "queue_size (p_send (the_peer h i)) + (reserved h i - frame_size f) \<le> RelayQueueBytes (h_cfg h)" for i
  proof -
    have "queue_size (p_send (the_peer h i)) + reserved h i \<le> RelayQueueBytes (h_cfg h)"
      using assms(1) by (auto simp: queue_ok_def)
    with frame_size_nonneg [of f] show ?thesis by linarith
  qed
  show ?thesis
    using assms(1) t le by (auto simp: queue_ok_def res) (auto simp: releaseQueued_def)
qed

lemma queue_ok_write_one: "queue_ok h \<Longrightarrow> queue_ok (write_one ok p h)"
proof (cases "p_send (the_peer h p)")
  case (Cons f fs)
  assume ok: "queue_ok h"
  let ?h = "write_one ok p h"
  have r: "reserved ?h i = reserved h i" for i
    by (auto simp: reserved_def write_one_def Cons releaseQueued_def close_peer_def Let_def intro!: sum.cong)
  have v: "p_send (the_peer ?h i) = (if i = p then fs else p_send (the_peer h i))"
    "p_queuedBytes (the_peer ?h i) = p_queuedBytes (the_peer h i) - (if i = p then frame_size f else 0)"
    "p_todo (the_peer ?h i) = p_todo (the_peer h i)" "h_cfg ?h = h_cfg h" "h_conns ?h = h_conns h" for i
    by (auto simp: write_one_def Cons releaseQueued_def close_peer_def Let_def)
  have q: "queue_size (p_send (the_peer h p)) = frame_size f + queue_size fs" "length fs \<le> length (p_send (the_peer h p))"
    by (simp_all add: Cons queue_size_def)
  have "queue_size (p_send (the_peer h p)) + reserved h p \<le> RelayQueueBytes (h_cfg h)"
    "length (p_send (the_peer h p)) \<le> sendBuffer"
    using ok by (auto simp: queue_ok_def)
  then have "queue_size fs + reserved h p \<le> RelayQueueBytes (h_cfg h)" "length fs \<le> sendBuffer"
    using q frame_size_nonneg [of f] by linarith+
  with ok q show ?thesis by (auto simp: queue_ok_def r v)
qed (simp add: write_one_def)

lemma queue_ok_act:
  assumes "bounded_hub h" and "p < h_conns h" and "p_todo (the_peer h p) = a # rest"
    and "act now pd p a h = Some (new, h')"
  shows "queue_ok (set_peer p (\<lambda>x. x\<lparr>p_todo := new @ rest\<rparr>) h')"
proof -
  have ok: "queue_ok h" "paired h" and shape: "todo_ok (a # rest)"
    using assms(1,3) relay_okD(1) [of h] relay_okD(3) [of h p] by (auto simp: bounded_hub_def peer_relay_ok_def)
  have t: "targets_in (h_conns h) (a # rest)" using ok(1) assms(3) unfolding queue_ok_def by metis
  have still: "queue_ok (set_peer p (\<lambda>x. x\<lparr>p_todo := new @ rest\<rparr>) h')"
    if "same_queues h h'" "\<And>q. resv_action q a = 0" "list_all simple new" "targets_in (h_conns h) new"
  proof (rule queue_ok_set_todo [OF same_queues_ok [OF that(1) ok(1)]])
    have v: "h_conns h' = h_conns h" "p_todo (the_peer h' p) = a # rest"
      using that(1) assms(3) by (simp_all add: same_queues_def queue_view_def)
    then show "p < h_conns h'" "targets_in (h_conns h') (new @ rest)" using assms(2) t that(4) by simp_all
    show "resv q (new @ rest) = resv q (p_todo (the_peer h' p))" for q
      using v that(2) resv_simple [OF that(3)] by simp
  qed
  show ?thesis
  proof (cases a)
    case (Enqueue q d)
    with assms(4) t show ?thesis
      by (intro queue_ok_reserve [OF ok(1) assms(2,3), where q = q and f = "TextFrame d" and sent = "[]"
            and failed = "[Fail_peer q errRelayLimit ''outbound queue full'']"]) auto
  next
    case (Relay q d)
    with assms(2,4) t show ?thesis
      by (intro queue_ok_reserve [OF ok(1) assms(2,3), where q = q and f = "BinaryFrame d"
            and sent = "[Charge q (int (length d))]"
            and failed = "[Fail_peer q errRelayLimit ''receiver relay queue full'',
              Fail_peer p errRelayLimit ''relay frame refused'', Teardown]"]) auto
  next
    case (Push q f sent failed)
    have s: "resv i sent = 0" "resv i failed = 0" for i
      using shape Push by (cases f; auto simp: todo_ok_def dest!: harmless_simple [THEN resv_simple])+
    show ?thesis
      using assms(3,4) Push s queue_ok_push [OF ok(1) assms(2)] queue_ok_unreserve [OF ok(1) assms(2)]
      by (auto split: if_splits)
  next
    case (Charge q n)
    with still same_queues_calls(3) assms(4) show ?thesis by auto
  next
    case (Fail_peer q c m)
    with still same_queues_calls(2) assms(4) show ?thesis by auto
  next
    case (Close_peer q f)
    with still same_queues_calls(1) assms(4) show ?thesis by auto
  next
    case Teardown
    let ?h = "set_peer p (\<lambda>x. x\<lparr>p_serving := False\<rparr>) h"
    have same: "same_queues h ?h" by (rule same_queues_set_peer) (simp add: queue_view_def)
    have "q < h_conns h" if "fst (discard p ?h) = Some q \<or> fst (vacate now p ?h) = Some q" for q
      using that partner_conns [OF ok(2)]
      by (auto simp: discard_def vacate_def Let_def split: option.splits if_splits)
    then have "list_all simple new" "targets_in (h_conns h) new"
      using assms(2,4) Teardown by (auto simp: Let_def split: if_splits prod.splits option.splits)
    moreover have "same_queues h h'"
      using assms(4) Teardown same_queues_trans [OF same same_queues_calls(6)] same_queues_trans [OF same same_queues_calls(7)]
      by (auto simp: Let_def split: if_splits prod.splits) (metis snd_conv)+
    ultimately show ?thesis using still Teardown by simp
  qed
qed

lemma queue_ok_Connect:
  assumes "queue_ok h" and "limits_ok (h_cfg h)"
  shows "queue_ok (signal_step h Connect)"
proof -
  let ?h = "signal_step h Connect"
  have v: "the_peer ?h i = (if i = h_conns h then newPeer else the_peer h i)" "h_cfg ?h = h_cfg h"
    "h_conns ?h = Suc (h_conns h)" for i by simp_all
  have r: "reserved ?h i = reserved h i" for i
  proof -
    have "reserved ?h i = (\<Sum>p < h_conns h. resv i (p_todo (the_peer ?h p))) + resv i (p_todo (the_peer ?h (h_conns h)))"
      by (simp add: reserved_def)
    also have "\<dots> = reserved h i" by (simp add: reserved_def newPeer_def)
    finally show ?thesis .
  qed
  have "reserved h (h_conns h) = 0" by (rule reserved_targets [OF assms(1)]) simp
  then show ?thesis
    using assms targets_in_mono [of "h_conns h" _ "Suc (h_conns h)"]
    by (auto simp: queue_ok_def r v newPeer_def queue_size_def limits_ok_def simp del: signal_step.simps)
qed

lemma bounded_step:
  assumes "bounded_hub h"
  shows "bounded_hub (signal_step h e)"
proof -
  have ok: "relay_ok h" "queue_ok h" using assms by (simp_all add: bounded_hub_def)
  have idle: "p < h_conns h \<and> p_todo (the_peer h p) = []" if "idle_reader p h" for p
    using that by (simp add: idle_reader_def)
  have "queue_ok (signal_step h e)"
  proof (cases e)
    case Connect
    with queue_ok_Connect [OF ok(2) relay_okD(2) [OF ok(1)]] show ?thesis by simp
  next
    case (RunAction now pd p)
    then show ?thesis using ok queue_ok_act [OF assms]
      by (auto simp: run_action_def split: list.splits option.splits)
  next
    case (Reap now)
    with same_queues_ok [OF same_queues_reapOnce ok(2)] show ?thesis by simp
  next
    case (WriteOne w p)
    with ok queue_ok_write_one show ?thesis by simp
  next
    case (WriteFarewell w p)
    with ok same_queues_ok [OF same_queues_calls(12)] show ?thesis by simp
  qed (use ok queue_ok_RecvText [OF assms] queue_ok_RecvBinary [OF assms] queue_ok_set_simple [OF ok(2)] idle
      in \<open>auto simp: set_todo_eq\<close>)
  with relay_ok_step [OF ok(1)] show ?thesis by (simp add: bounded_hub_def)
qed

interpretation bounded_server: machine signal_step bounded_hub
  by unfold_locales (rule bounded_step)

lemma bounded_run: "limits_ok cfg \<Longrightarrow> bounded_hub (signal_run cfg es)"
  unfolding signal_run_def
proof (rule bounded_server.inv_run)
  assume lim: "limits_ok cfg"
  then have "queue_ok (NewHub cfg)"
    by (auto simp: queue_ok_def NewHub_def newPeer_def queue_size_def reserved_def limits_ok_def)
  with relay_ok_NewHub [OF lim] show "bounded_hub (NewHub cfg)" by (simp add: bounded_hub_def)
qed


text \<open>The configuration never changes.\<close>

lemma same_queues_cfg: "same_queues h h' \<Longrightarrow> h_cfg h' = h_cfg h"
  by (simp add: same_queues_def)

lemma h_cfg_act: "act now pd p a h = Some (new, h') \<Longrightarrow> h_cfg h' = h_cfg h"
proof (cases a)
  case (Charge q n)
  then show "act now pd p a h = Some (new, h') \<Longrightarrow> h_cfg h' = h_cfg h"
    using same_queues_cfg [OF same_queues_calls(3)] by auto
next
  case (Fail_peer q c m)
  then show "act now pd p a h = Some (new, h') \<Longrightarrow> h_cfg h' = h_cfg h"
    using same_queues_cfg [OF same_queues_calls(2)] by auto
qed (auto simp: reserve_def releaseQueued_def Let_def discard_def vacate_def split: if_splits prod.splits option.splits)

lemma h_cfg_step: "h_cfg (signal_step h e) = h_cfg h"
proof (cases e)
  case (RunAction now pd p)
  then show ?thesis using h_cfg_act by (auto simp: run_action_def split: list.splits option.splits)
next
  case (Reap now)
  then show ?thesis using same_queues_cfg [OF same_queues_reapOnce] by simp
next
  case (RecvText now ok p data)
  then show ?thesis using same_queues_cfg [OF same_queues_dispatch] by (simp add: set_todo_def serve_text_def)
qed (auto simp: set_todo_def write_one_def write_farewell_def releaseQueued_def close_peer_def Let_def split: list.splits option.splits)

interpretation configured_hub: machine signal_step "\<lambda>h. h_cfg h = cfg" for cfg
  by unfold_locales (simp add: h_cfg_step)

lemma h_cfg_run [simp]: "h_cfg (signal_run cfg es) = cfg"
  unfolding signal_run_def by (rule configured_hub.inv_run) (simp add: NewHub_def)

section \<open>Properties\<close>

lemma paired_run: "paired (signal_run cfg es)"
  unfolding signal_run_def by (rule paired_hub.inv_run) (rule paired_NewHub)

text \<open>C6: Strict pairing.  After any interleaving of connections, messages, socket failures, reaping
  and queue steps, a connection seated in a room is live, carries that room's number and the role of
  its seat, sits in no other room and in one seat only, and the partner relation is symmetric and
  irreflexive; no room is empty.\<close>

theorem signal_pairing:
  assumes "find_room (signal_run cfg es) n = Some r"
    and "rm_offerer r = Some p \<or> rm_joiner r = Some p"
  shows "p < h_conns (signal_run cfg es) \<and> p_serving (the_peer (signal_run cfg es) p)
    \<and> rm_number r = n \<and> p_room (the_peer (signal_run cfg es) p) = n
    \<and> p_role (the_peer (signal_run cfg es) p) = (if rm_offerer r = Some p then roleOfferer else roleJoiner)
    \<and> rm_offerer r \<noteq> rm_joiner r
    \<and> (\<forall>m r'. find_room (signal_run cfg es) m = Some r' \<and> (rm_offerer r' = Some p \<or> rm_joiner r' = Some p) \<longrightarrow> m = n)
    \<and> (\<forall>q. roomPartner r p = Some q \<longrightarrow> q \<noteq> p \<and> roomPartner r q = Some p)"
proof -
  let ?h = "signal_run cfg es"
  have ok: "paired ?h" by (rule paired_run)
  have room: "room_ok ?h n r" by (rule pairedD [OF ok assms(1)])
  have seats: "rm_offerer r \<noteq> rm_joiner r"
    using room by (auto simp: room_ok_def seat_ok_def split: option.splits)
  have self: "p < h_conns ?h" "p_serving (the_peer ?h p)" "rm_number r = n" "p_room (the_peer ?h p) = n"
    "p_role (the_peer ?h p) = (if rm_offerer r = Some p then roleOfferer else roleJoiner)"
    using room seats assms(2) by (auto simp: room_ok_def)
  have once: "m = n" if "find_room ?h m = Some r'" "rm_offerer r' = Some p \<or> rm_joiner r' = Some p" for m r'
    using seated_room [OF ok that] seated_room [OF ok assms] by simp
  have sym: "q \<noteq> p \<and> roomPartner r q = Some p" if q: "roomPartner r p = Some q" for q
  proof -
    consider "rm_offerer r = Some p" "rm_joiner r = Some q" | "rm_joiner r = Some p" "rm_offerer r = Some q"
      using roomPartner_seated [OF q] by blast
    then show ?thesis using seats by cases (simp_all add: roomPartner_def)
  qed
  show ?thesis by (intro conjI allI impI) (fact self seats | (use once in blast) | (use sym in blast))+
qed

definition pair_events :: "signal_event list" where
  "pair_events = [Connect, Connect, Connect,
     RecvText 0 True 0 (mustJSON [(''type'', JStr ''create'')]), RunAction 0 False 0, RunAction 0 False 0,
     RecvText 0 True 1 (mustJSON [(''type'', JStr ''join''), (''room'', jint 0)]),
     RunAction 0 False 1, RunAction 0 False 1, RunAction 0 False 1, RunAction 0 False 1]"

lemma pair_events_room:
  "find_room (signal_run DefaultConfig pair_events) 0
     = Some \<lparr>rm_number = 0, rm_offerer = Some 0, rm_joiner = Some 1, rm_lastSeen = 0, rm_relayBytes = 0\<rparr>"
  by code_simp

theorem signal_pairing_witness:
  "p_role (the_peer (signal_run DefaultConfig pair_events) 1) = roleJoiner
    \<and> p_serving (the_peer (signal_run DefaultConfig pair_events) 1)"
  using signal_pairing [OF pair_events_room, of 1] by simp



definition stale_bye_events :: "signal_event list" where
  "stale_bye_events = pair_events @ [RecvText 0 True 0 (mustJSON [(''type'', JStr ''bye'')])]
     @ replicate 6 (RunAction 0 False 0)
     @ [RecvText 0 True 2 (mustJSON [(''type'', JStr ''create'')]), RunAction 0 False 2, RunAction 0 False 2,
        RecvText 0 True 1 (mustJSON [(''type'', JStr ''bye'')])]"


text \<open>The budget check and the charge are two critical sections, so two partners that send at the
  same time can overrun the session budget: the bound of one extra frame is reached.\<close>

definition tight_budget :: Config where
  "tight_budget = DefaultConfig\<lparr>RelayMaxSessionBytes := 3, MaxRelayFrameBytes := 3\<rparr>"

definition relaying_hub :: Hub where
  "relaying_hub = \<lparr>h_cfg = tight_budget,
     h_rooms = [(0, \<lparr>rm_number = 0, rm_offerer = Some 0, rm_joiner = Some 1, rm_lastSeen = 0, rm_relayBytes = 0\<rparr>)],
     h_relayBytes = 0, h_errors = (\<lambda>_. 0),
     h_peers = (\<lambda>p. newPeer\<lparr>p_room := 0, p_role := (if p = 0 then roleOfferer else roleJoiner),
       p_relayOpen := True, p_relayCredit := 3\<rparr>), h_conns = 2\<rparr>"

definition race_events :: "signal_event list" where
  "race_events = [RecvBinary True 0 [1, 2, 3], RecvBinary True 1 [4, 5, 6]]
     @ replicate 3 (RunAction 0 False 0) @ replicate 3 (RunAction 0 False 1)"

lemma session_budget_overrun:
  "map_option rm_relayBytes (find_room (foldl signal_step relaying_hub race_events) 0) = Some 6"
  by code_simp

end
