(* ===== verification/Supervisor.thy ===== *)
theory Supervisor
  imports Errors "HOL-Library.AList"
begin

text \<open>
  The path supervisor (\<^verbatim>\<open>packages/engine/supervisor\<close>, \<^verbatim>\<open>path.go\<close> and \<^verbatim>\<open>supervisor.go\<close>): registration,
  life cycle and selection of the byte paths of a transfer.  Every method runs under the supervisor's
  mutex and is one step; what a path's \<^verbatim>\<open>Send\<close> returns is an argument.  Calls of \<^verbatim>\<open>path.Send\<close> and
  \<^verbatim>\<open>path.Close\<close> are recorded in the state.
\<close>

section \<open>State (path.go, supervisor.go)\<close>

datatype PathState =
    StateCandidate | StateWarming | StateReady | StateActive | StateDegraded | StateFailed | StateClosed

datatype PathID = PathDirect | PathRelay

definition ErrClosed :: err where "ErrClosed = Classified CodeConnection ''supervisor: closed''"
definition ErrNoActivePath :: err where "ErrNoActivePath = Plain ''supervisor: no active path''"

text \<open>\<open>sv_switch\<close> counts the broadcasts, so a waiter on the channel of generation \<open>g\<close> is released once
  \<open>g < sv_switch\<close>; \<open>sv_switched\<close> counts the calls of the \<^verbatim>\<open>OnSwitch\<close> callback.\<close>

record Supervisor =
  sv_paths :: "(PathID \<times> PathState) list"
  sv_active :: "PathID option"
  sv_epoch :: "64 word"
  sv_closed :: bool
  sv_lazySend :: "bytes list"
  sv_switch :: nat
  sv_hasOnSwitch :: bool
  sv_switched :: nat
  sv_sent :: "(PathID \<times> bytes) list"
  sv_closes :: "PathID list"

definition New :: Supervisor where
  "New = \<lparr>sv_paths = [], sv_active = None, sv_epoch = 0, sv_closed = False, sv_lazySend = [], sv_switch = 0,
     sv_hasOnSwitch = False, sv_switched = 0, sv_sent = [], sv_closes = []\<rparr>"

definition path_state :: "Supervisor \<Rightarrow> PathID \<Rightarrow> PathState option" where
  "path_state s i = map_of (sv_paths s) i"

definition set_state :: "PathID \<Rightarrow> PathState \<Rightarrow> Supervisor \<Rightarrow> Supervisor" where
  "set_state i st s = s\<lparr>sv_paths := AList.update i st (sv_paths s)\<rparr>"

definition close_path :: "PathID \<Rightarrow> Supervisor \<Rightarrow> Supervisor" where
  "close_path i s = s\<lparr>sv_closes := sv_closes s @ [i]\<rparr>"

section \<open>Methods\<close>

definition unknown_path :: err where "unknown_path = Classified CodeConnection ''supervisor: unknown path''"

definition SetOnSwitch :: "bool \<Rightarrow> Supervisor \<Rightarrow> Supervisor" where
  "SetOnSwitch fn s = s\<lparr>sv_hasOnSwitch := fn\<rparr>"

definition Register :: "PathID \<Rightarrow> Supervisor \<Rightarrow> err option \<times> Supervisor" where
  "Register i s =
     (if sv_closed s then (Some ErrClosed, close_path i s)
      else if path_state s i \<noteq> None
      then (Some (Classified CodeConnection ''supervisor: duplicate path id''), close_path i s)
      else (None, set_state i StateCandidate s))"

definition transitionLocked :: "PathID \<Rightarrow> PathState \<Rightarrow> PathState \<Rightarrow> Supervisor \<Rightarrow> err option \<times> Supervisor" where
  "transitionLocked i from to s =
     (if sv_closed s then (Some ErrClosed, s)
      else case path_state s i of None \<Rightarrow> (Some unknown_path, s)
        | Some st \<Rightarrow>
          if st \<noteq> from then (Some (Classified CodeConnection ''supervisor: path cannot transition''), s)
          else (None, set_state i to s))"

definition Warming :: "PathID \<Rightarrow> Supervisor \<Rightarrow> err option \<times> Supervisor" where
  "Warming i s = transitionLocked i StateCandidate StateWarming s"

definition Ready :: "PathID \<Rightarrow> Supervisor \<Rightarrow> err option \<times> Supervisor" where
  "Ready i s = transitionLocked i StateWarming StateReady s"

definition Supervisor_Fail :: "PathID \<Rightarrow> Supervisor \<Rightarrow> err option \<times> Supervisor" where
  "Supervisor_Fail i s =
     (case path_state s i of None \<Rightarrow> (Some unknown_path, s)
      | Some st \<Rightarrow> if st = StateClosed \<or> st = StateFailed then (None, s)
          else (None, close_path i (set_state i StateFailed s)))"

definition retired :: "PathState \<Rightarrow> bool" where
  "retired st \<longleftrightarrow> st = StateClosed \<or> st = StateFailed"

text \<open>The loop that closes every other candidate.\<close>

definition close_others :: "PathID \<Rightarrow> Supervisor \<Rightarrow> Supervisor" where
  "close_others i s =
     (let live = (\<lambda>(j, st). j \<noteq> i \<and> \<not> retired st) in
      s\<lparr>sv_paths := map (\<lambda>(j, st). if live (j, st) then (j, StateClosed) else (j, st)) (sv_paths s),
        sv_closes := sv_closes s @ map fst (filter live (sv_paths s))\<rparr>)"

definition broadcastSwitchLocked :: "Supervisor \<Rightarrow> Supervisor" where
  "broadcastSwitchLocked s = s\<lparr>sv_switch := sv_switch s + 1\<rparr>"

definition drainLazyLocked :: "Supervisor \<Rightarrow> Supervisor" where
  "drainLazyLocked s =
     (if sv_lazySend s = [] then s
      else let s' = s\<lparr>sv_lazySend := []\<rparr> in
        case sv_active s' of None \<Rightarrow> s'
        | Some i \<Rightarrow> s'\<lparr>sv_sent := sv_sent s' @ map (Pair i) (sv_lazySend s)\<rparr>)"

definition call_onSwitch :: "Supervisor \<Rightarrow> Supervisor" where
  "call_onSwitch s = (if sv_hasOnSwitch s then s\<lparr>sv_switched := sv_switched s + 1\<rparr> else s)"

definition Activate :: "PathID \<Rightarrow> Supervisor \<Rightarrow> (err, 64 word) result \<times> Supervisor" where
  "Activate i s =
     (if sv_closed s then (Inl ErrClosed, s)
      else case path_state s i of None \<Rightarrow> (Inl unknown_path, s)
        | Some st \<Rightarrow>
          if st = StateClosed \<or> st = StateFailed
          then (Inl (Classified CodeConnection ''supervisor: cannot activate path''), s)
          else if sv_active s = Some i \<and> st = StateActive then (Inr (sv_epoch s), s)
          else let s1 = s\<lparr>sv_epoch := sv_epoch s + 1\<rparr> in
            if st \<noteq> StateReady \<and> st \<noteq> StateActive
            then (Inl (Classified CodeConnection ''supervisor: path cannot activate from state''), s1)
            else let s2 = call_onSwitch (broadcastSwitchLocked (drainLazyLocked (close_others i
                    ((set_state i StateActive s1)\<lparr>sv_active := Some i\<rparr>))))
              in (Inr (sv_epoch s2), s2))"

definition Active :: "Supervisor \<Rightarrow> (err, PathID \<times> 64 word) result" where
  "Active s = (if sv_closed s then Inl ErrClosed
     else case sv_active s of None \<Rightarrow> Inl ErrNoActivePath | Some i \<Rightarrow> Inr (i, sv_epoch s))"

text \<open>\<^verbatim>\<open>sendOne\<close> up to \<^verbatim>\<open>path.Send\<close> and after it: the frame is refused or buffered, or it goes to a path and
  the generation of the switch channel is remembered.\<close>

datatype send_start = SendRefused | SendBuffered | SendOn PathID nat

definition sendOne_start :: "bytes \<Rightarrow> Supervisor \<Rightarrow> send_start \<times> Supervisor" where
  "sendOne_start frame s =
     (if sv_closed s then (SendRefused, s)
      else case sv_active s of None \<Rightarrow> (SendBuffered, s\<lparr>sv_lazySend := sv_lazySend s @ [frame]\<rparr>)
        | Some i \<Rightarrow> (SendOn i (sv_switch s), s\<lparr>sv_sent := sv_sent s @ [(i, frame)]\<rparr>))"

datatype send_end = SendOk | SendFailsClosed | SendWaits nat

definition sendOne_end :: "err option \<Rightarrow> nat \<Rightarrow> Supervisor \<Rightarrow> send_end" where
  "sendOne_end res g s = (if res = None then SendOk else if sv_closed s then SendFailsClosed else SendWaits g)"

text \<open>What \<^verbatim>\<open>Send\<close> does after a failed attempt: retry once the channel it took is closed, give up at the timeout.\<close>

definition send_retries :: "nat \<Rightarrow> Supervisor \<Rightarrow> bool" where
  "send_retries g s \<longleftrightarrow> g < sv_switch s"

definition promoteOnData :: "PathID \<Rightarrow> Supervisor \<Rightarrow> (bool \<times> bool) \<times> Supervisor" where
  "promoteOnData i s =
     (if sv_closed s then ((False, False), s)
      else if sv_active s = Some i \<and> path_state s i = Some StateActive then ((True, False), s)
      else if path_state s i = Some StateReady
      then ((True, True), call_onSwitch (broadcastSwitchLocked (close_others i
              ((set_state i StateActive s)\<lparr>sv_active := Some i, sv_epoch := sv_epoch s + 1\<rparr>))))
      else ((False, False), s))"

definition Close :: "Supervisor \<Rightarrow> Supervisor" where
  "Close s = (if sv_closed s then s
     else broadcastSwitchLocked (s\<lparr>sv_closed := True, sv_closes := sv_closes s @ map fst (sv_paths s),
       sv_paths := [], sv_active := None\<rparr>))"

definition State :: "PathID \<Rightarrow> Supervisor \<Rightarrow> PathState \<times> bool" where
  "State i s = (case path_state s i of None \<Rightarrow> (StateClosed, False) | Some st \<Rightarrow> (st, True))"

section \<open>Runs\<close>

datatype supervisor_event =
    EvRegister PathID | EvWarming PathID | EvReady PathID | EvFail PathID | EvActivate PathID
  | EvSend bytes | EvData PathID | EvClose | EvSetOnSwitch bool

fun supervisor_step :: "Supervisor \<Rightarrow> supervisor_event \<Rightarrow> Supervisor" where
  "supervisor_step s (EvRegister i) = snd (Register i s)"
| "supervisor_step s (EvWarming i) = snd (Warming i s)"
| "supervisor_step s (EvReady i) = snd (Ready i s)"
| "supervisor_step s (EvFail i) = snd (Supervisor_Fail i s)"
| "supervisor_step s (EvActivate i) = snd (Activate i s)"
| "supervisor_step s (EvSend frame) = snd (sendOne_start frame s)"
| "supervisor_step s (EvData i) = snd (promoteOnData i s)"
| "supervisor_step s EvClose = Close s"
| "supervisor_step s (EvSetOnSwitch b) = SetOnSwitch b s"

definition supervisor_run :: "supervisor_event list \<Rightarrow> Supervisor" where
  "supervisor_run es = foldl supervisor_step New es"

section \<open>At most one active path\<close>

lemma path_state_simps [simp]:
  "path_state (set_state i st s) j = (if j = i then Some st else path_state s j)"
  "path_state (close_path i s) j = path_state s j"
  "path_state (s\<lparr>sv_active := a\<rparr>) j = path_state s j" "path_state (s\<lparr>sv_epoch := e\<rparr>) j = path_state s j"
  "path_state (broadcastSwitchLocked s) j = path_state s j" "path_state (drainLazyLocked s) j = path_state s j"
  "path_state (call_onSwitch s) j = path_state s j" "path_state (s\<lparr>sv_lazySend := l\<rparr>) j = path_state s j"
  "path_state (s\<lparr>sv_sent := l'\<rparr>) j = path_state s j"
  by (auto simp: path_state_def set_state_def close_path_def broadcastSwitchLocked_def drainLazyLocked_def
      call_onSwitch_def Let_def update_conv' split: option.splits)

lemma path_state_close_others [simp]:
  "path_state (close_others i s) j = map_option (\<lambda>st. if j \<noteq> i \<and> \<not> retired st then StateClosed else st) (path_state s j)"
proof -
  have "map_of (map (\<lambda>(j, st). if j \<noteq> i \<and> \<not> retired st then (j, StateClosed) else (j, st)) ps) j
      = map_option (\<lambda>st. if j \<noteq> i \<and> \<not> retired st then StateClosed else st) (map_of ps j)" for ps
    by (induction ps) auto
  then show ?thesis by (simp add: path_state_def close_others_def Let_def)
qed

lemma fields_simps [simp]:
  "sv_active (set_state i st s) = sv_active s" "sv_active (close_path i s) = sv_active s"
  "sv_active (close_others i s) = sv_active s" "sv_active (broadcastSwitchLocked s) = sv_active s"
  "sv_active (drainLazyLocked s) = sv_active s" "sv_active (call_onSwitch s) = sv_active s"
  "sv_closed (set_state i st s) = sv_closed s" "sv_closed (close_path i s) = sv_closed s"
  "sv_closed (close_others i s) = sv_closed s" "sv_closed (broadcastSwitchLocked s) = sv_closed s"
  "sv_closed (drainLazyLocked s) = sv_closed s" "sv_closed (call_onSwitch s) = sv_closed s"
  by (simp_all add: set_state_def close_path_def close_others_def broadcastSwitchLocked_def drainLazyLocked_def
      call_onSwitch_def Let_def split: option.splits)

definition one_active :: "Supervisor \<Rightarrow> bool" where
  "one_active s \<longleftrightarrow> (\<forall>i. path_state s i = Some StateActive \<longrightarrow> sv_active s = Some i)
     \<and> (\<forall>i. sv_active s = Some i \<longrightarrow> path_state s i = Some StateActive \<or> path_state s i = Some StateFailed)
     \<and> (sv_closed s \<longrightarrow> sv_active s = None \<and> (\<forall>i. path_state s i = None))"

lemma one_active_set:
  assumes "one_active s" and "path_state s i = Some st" and "st \<noteq> StateActive" and "to \<noteq> StateActive" and "\<not> retired st"
  shows "one_active (set_state i to s)"
  using assms by (auto simp: one_active_def retired_def)

lemma one_active_promote:
  assumes "\<not> sv_closed s" and "sv_active s = Some i" and "path_state s i = Some StateActive"
  shows "one_active (close_others i s)"
  using assms by (auto simp: one_active_def retired_def split: if_splits)

lemma one_active_cong: "path_state s' = path_state s \<Longrightarrow> sv_active s' = sv_active s \<Longrightarrow> sv_closed s' = sv_closed s \<Longrightarrow> one_active s' = one_active s"
  by (simp add: one_active_def)

lemma one_active_wrap [simp]:
  "one_active (call_onSwitch s) = one_active s" "one_active (broadcastSwitchLocked s) = one_active s"
  "one_active (drainLazyLocked s) = one_active s" "one_active (close_path i s) = one_active s"
  by (intro one_active_cong ext; simp)+

lemma one_active_step: "one_active s \<Longrightarrow> one_active (supervisor_step s e)"
proof (cases e)
  case (EvRegister i)
  assume "one_active s"
  then show ?thesis using EvRegister by (auto simp: Register_def one_active_def)
next
  case (EvWarming i)
  assume "one_active s"
  then show ?thesis using EvWarming one_active_set [of s i StateCandidate StateWarming]
    by (auto simp: Warming_def transitionLocked_def retired_def split: option.splits)
next
  case (EvReady i)
  assume "one_active s"
  then show ?thesis using EvReady one_active_set [of s i StateWarming StateReady]
    by (auto simp: Ready_def transitionLocked_def retired_def split: option.splits)
next
  case (EvFail i)
  assume "one_active s"
  then show ?thesis using EvFail by (auto simp: Supervisor_Fail_def one_active_def split: option.splits)
next
  case (EvActivate i)
  assume ok: "one_active s"
  have e: "one_active (s\<lparr>sv_epoch := x\<rparr>)" for x using ok by (simp add: one_active_def)
  have "one_active (close_others i ((set_state i StateActive (s\<lparr>sv_epoch := sv_epoch s + 1\<rparr>))\<lparr>sv_active := Some i\<rparr>))"
    if "\<not> sv_closed s"
    by (rule one_active_promote) (use that in simp_all)
  with ok e EvActivate show ?thesis by (auto simp: Activate_def Let_def split: option.splits)
next
  case (EvSend frame)
  assume ok: "one_active s"
  have "one_active (s\<lparr>sv_lazySend := l\<rparr>)" "one_active (s\<lparr>sv_sent := l'\<rparr>)" for l l' using ok by (simp_all add: one_active_def)
  with ok EvSend show ?thesis by (auto simp: sendOne_start_def split: option.splits)
next
  case (EvData i)
  assume ok: "one_active s"
  have "one_active (close_others i ((set_state i StateActive s)\<lparr>sv_active := Some i, sv_epoch := sv_epoch s + 1\<rparr>))"
    if "\<not> sv_closed s" by (rule one_active_promote) (use that in simp_all)
  with ok EvData show ?thesis by (auto simp: promoteOnData_def)
next
  case EvClose
  assume "one_active s"
  then show ?thesis using EvClose by (auto simp: Close_def one_active_def broadcastSwitchLocked_def path_state_def)
next
  case (EvSetOnSwitch b)
  assume "one_active s"
  then show ?thesis using EvSetOnSwitch by (simp add: SetOnSwitch_def one_active_def path_state_def)
qed

interpretation path_supervisor: machine supervisor_step one_active
  by unfold_locales (rule one_active_step)

lemma one_active_run: "one_active (supervisor_run es)"
  unfolding supervisor_run_def by (rule path_supervisor.inv_run) (simp add: one_active_def New_def path_state_def)

text \<open>Only the two promotions change the active path of an open supervisor.\<close>

lemma generation_simps [simp]:
  "sv_epoch (set_state i st s) = sv_epoch s" "sv_epoch (close_others i s) = sv_epoch s" "sv_epoch (broadcastSwitchLocked s) = sv_epoch s"
  "sv_epoch (drainLazyLocked s) = sv_epoch s" "sv_epoch (call_onSwitch s) = sv_epoch s"
  "sv_switch (set_state i st s) = sv_switch s" "sv_switch (close_others i s) = sv_switch s"
  "sv_switch (broadcastSwitchLocked s) = sv_switch s + 1" "sv_switch (drainLazyLocked s) = sv_switch s" "sv_switch (call_onSwitch s) = sv_switch s"
  by (simp_all add: set_state_def close_others_def broadcastSwitchLocked_def drainLazyLocked_def call_onSwitch_def Let_def
      split: option.splits)

lemma switch_step:
  assumes "sv_active (supervisor_step s e) \<noteq> sv_active s" and "\<not> sv_closed (supervisor_step s e)"
  shows "sv_epoch (supervisor_step s e) = sv_epoch s + 1 \<and> sv_switch (supervisor_step s e) = sv_switch s + 1"
proof (cases e)
  case (EvActivate i)
  with assms show ?thesis by (auto simp: Activate_def Let_def split: option.splits if_splits)
next
  case (EvData i)
  with assms show ?thesis by (auto simp: promoteOnData_def split: if_splits)
next
  case (EvSend f)
  with assms show ?thesis by (auto simp: sendOne_start_def split: option.splits if_splits)
next
  case EvClose
  with assms show ?thesis by (auto simp: Close_def split: if_splits)
next
  case (EvFail i)
  with assms show ?thesis by (auto simp: Supervisor_Fail_def split: option.splits if_splits)
next
  case (EvRegister i)
  with assms show ?thesis by (auto simp: Register_def split: if_splits)
qed (use assms in \<open>auto simp: Warming_def Ready_def transitionLocked_def SetOnSwitch_def split: option.splits if_splits\<close>)

section \<open>Properties\<close>




end
