(* ===== verification/GoBase64.thy ===== *)
theory GoBase64
  imports GoJson
begin

text \<open>
  \<^verbatim>\<open>base64.RawURLEncoding\<close> of Go's standard library: the URL alphabet without padding.  Decoding
  skips line breaks and ignores the unused low bits of the last character, as the package does
  outside its strict mode.
\<close>

definition b64_alphabet :: string where
  "b64_alphabet = ''ABCDEFGHIJKLMNOPQRSTUVWXYZabcdefghijklmnopqrstuvwxyz0123456789-_''"

definition b64_char :: "nat \<Rightarrow> char" where
  "b64_char n = b64_alphabet ! (n mod 64)"

definition b64_val :: "char \<Rightarrow> nat option" where
  "b64_val c = map_of (zip b64_alphabet [0..<64]) c"

fun b64_encode :: "bytes \<Rightarrow> string" where
  "b64_encode (a # b # c # bs) =
     b64_char (unat a div 4) # b64_char (unat a * 16 + unat b div 16) # b64_char (unat b * 4 + unat c div 64)
       # b64_char (unat c) # b64_encode bs"
| "b64_encode [a, b] = [b64_char (unat a div 4), b64_char (unat a * 16 + unat b div 16), b64_char (unat b * 4)]"
| "b64_encode [a] = [b64_char (unat a div 4), b64_char (unat a * 16)]"
| "b64_encode [] = []"

fun b64_quanta :: "nat list \<Rightarrow> bytes option" where
  "b64_quanta (p # q # r # s # vs) = map_option (\<lambda>bs. of_nat (p * 4 + q div 16)
     # of_nat (q * 16 + r div 4) # of_nat (r * 64 + s) # bs) (b64_quanta vs)"
| "b64_quanta [p, q, r] = Some [of_nat (p * 4 + q div 16), of_nat (q * 16 + r div 4)]"
| "b64_quanta [p, q] = Some [of_nat (p * 4 + q div 16)]"
| "b64_quanta [p] = None"
| "b64_quanta [] = Some []"

definition b64_decode :: "string \<Rightarrow> bytes option" where
  "b64_decode s = Option.bind (opt_list (map b64_val (filter (\<lambda>c. code c \<noteq> 10 \<and> code c \<noteq> 13) s))) b64_quanta"

section \<open>Round trip\<close>

lemma b64_val_char: "b64_val (b64_char n) = Some (n mod 64)"
proof -
  have d: "distinct b64_alphabet" "length b64_alphabet = 64" by (simp_all add: b64_alphabet_def)
  have "n mod 64 < 64" by simp
  with d have "map_of (zip b64_alphabet [0..<64]) (b64_alphabet ! (n mod 64)) = Some ([0..<64] ! (n mod 64))"
    by (intro map_of_zip_nth) simp_all
  then show ?thesis by (simp add: b64_val_def b64_char_def)
qed

definition b64_text :: "char \<Rightarrow> bool" where
  "b64_text c \<longleftrightarrow> c \<in> set b64_alphabet"

lemma b64_text_char [simp]: "b64_text (b64_char n)"
proof -
  have "n mod 64 < length b64_alphabet" by (simp add: b64_alphabet_def)
  then show ?thesis unfolding b64_text_def b64_char_def by (rule nth_mem)
qed

lemma b64_text_encode: "list_all b64_text (b64_encode bs)"
  by (induction bs rule: b64_encode.induct) simp_all

lemma b64_text_code: "b64_text c \<Longrightarrow> 45 \<le> code c \<and> code c < 128"
  by (auto simp: b64_text_def b64_alphabet_def)

lemma filter_b64_text: "list_all b64_text s \<Longrightarrow> filter (\<lambda>c. code c \<noteq> 10 \<and> code c \<noteq> 13) s = s"
  by (induction s) (auto dest: b64_text_code)

lemma valid_string_b64: "list_all b64_text s \<Longrightarrow> valid_string s"
proof (induction s)
  case (Cons c s)
  then show ?case using valid_string_ascii [of c s] b64_text_code [of c] by simp
qed simp

fun b64_values :: "bytes \<Rightarrow> nat list" where
  "b64_values (a # b # c # bs) = [unat a div 4, (unat a * 16 + unat b div 16) mod 64,
     (unat b * 4 + unat c div 64) mod 64, unat c mod 64] @ b64_values bs"
| "b64_values [a, b] = [unat a div 4, (unat a * 16 + unat b div 16) mod 64, (unat b * 4) mod 64]"
| "b64_values [a] = [unat a div 4, (unat a * 16) mod 64]"
| "b64_values [] = []"

lemma opt_list_Some_map: "(\<And>x. x \<in> set xs \<Longrightarrow> f x = Some (g x)) \<Longrightarrow> opt_list (map f xs) = Some (map g xs)"
  by (induction xs) auto

lemma byte_div4 [simp]: "unat (a :: byte) div 4 mod 64 = unat a div 4"
  using unat_byte_less [of a] by simp

lemma b64_values_encode: "opt_list (map b64_val (b64_encode bs)) = Some (b64_values bs)"
  by (induction bs rule: b64_encode.induct) (simp_all add: b64_val_char)

lemma byte_of_nat_eq:
  assumes "n mod 256 = unat (a :: byte)"
  shows "(of_nat n :: byte) = a"
proof (rule unsigned_word_eqI)
  show "unat (of_nat n :: byte) = unat a" using assms by (simp add: unat_of_nat take_bit_eq_mod)
qed

lemma mod_digits: "d < m \<Longrightarrow> (a * m + d) mod (m * q) = a mod q * m + (d :: nat)"
  by (simp add: mod_mult2_eq)

lemma b64_second: "(a * 16 + b div 16) mod 64 = a mod 4 * 16 + b div 16" if "b < 256" for a b :: nat
  using mod_digits [of "b div 16" 16 a 4] that by simp

lemma b64_third: "(b * 4 + c div 64) mod 64 = b mod 16 * 4 + c div 64" if "c < 256" for b c :: nat
  using mod_digits [of "c div 64" 4 b 16] that by simp

lemma b64_byte1: "a div 4 * 4 + (a * 16 + b div 16) mod 64 div 16 = a" if "b < 256" for a b :: nat
  using that by (simp add: b64_second)

lemma b64_byte2: "((a * 16 + b div 16) mod 64 * 16 + (b * 4 + c div 64) mod 64 div 4) mod 256 = b"
  if "b < 256" "c < 256" for a b c :: nat
proof -
  have "(b * 4 + c div 64) mod 64 div 4 = b mod 16" using that(2) by (simp add: b64_third)
  then show ?thesis
    using mod_digits [of "b mod 16" 16 "a mod 4 * 16 + b div 16" 16] that(1)
      mod_digits [of "b div 16" 16 "a mod 4" 1] by (simp add: b64_second)
qed

lemma b64_byte3: "((b * 4 + c div 64) mod 64 * 64 + c mod 64) mod 256 = c" if "c < 256" for b c :: nat
  using mod_digits [of "c mod 64" 64 "b mod 16 * 4 + c div 64" 4] mod_digits [of "c div 64" 4 "b mod 16" 1] that
  by (simp add: b64_third)

lemma b64_quanta_values: "b64_quanta (b64_values bs) = Some bs"
proof (induction bs rule: b64_values.induct)
  case (1 a b c bs)
  let ?x = "(unat a * 16 + unat b div 16) mod 64" and ?y = "(unat b * 4 + unat c div 64) mod 64"
  have "(of_nat (unat a div 4 * 4 + ?x div 16) :: byte) = a"
    by (simp only: b64_byte1 [OF unat_byte_less] of_nat_unat) simp
  moreover have "(of_nat (?x * 16 + ?y div 4) :: byte) = b"
    by (rule byte_of_nat_eq) (rule b64_byte2 [OF unat_byte_less unat_byte_less])
  moreover have "(of_nat (?y * 64 + unat c mod 64) :: byte) = c"
    by (rule byte_of_nat_eq) (rule b64_byte3 [OF unat_byte_less])
  ultimately show ?case
    by (simp only: b64_values.simps append.simps b64_quanta.simps 1 option.map)
next
  case (2 a b)
  let ?x = "(unat a * 16 + unat b div 16) mod 64"
  have "(of_nat (unat a div 4 * 4 + ?x div 16) :: byte) = a"
    by (simp only: b64_byte1 [OF unat_byte_less] of_nat_unat) simp
  moreover have "(of_nat (?x * 16 + unat b * 4 mod 64 div 4) :: byte) = b"
    by (rule byte_of_nat_eq) (use b64_byte2 [OF unat_byte_less, of 0 "unat a" b] in simp)
  ultimately show ?case by (simp only: b64_values.simps b64_quanta.simps)
next
  case (3 a)
  have "(of_nat (unat a div 4 * 4 + unat a * 16 mod 64 div 16) :: byte) = a"
    using b64_byte1 [of 0 "unat a"] by (simp del: of_nat_add of_nat_mult)
  then show ?case by (simp only: b64_values.simps b64_quanta.simps)
qed simp

lemma b64_decode_encode [simp]: "b64_decode (b64_encode bs) = Some bs"
  by (simp add: b64_decode_def filter_b64_text b64_text_encode b64_values_encode b64_quanta_values)

lemma length_b64_encode: "length (b64_encode bs) = 4 * ((length bs + 2) div 3) - (3 - length bs mod 3) mod 3"
proof (induction bs rule: b64_encode.induct)
  case (1 a b c bs)
  let ?q = "(length bs + 2) div 3" and ?y = "(3 - length bs mod 3) mod 3"
  have le: "?y \<le> 4 * ?q"
  proof (cases bs)
    case (Cons x xs)
    then have "0 < ?q" by (simp add: div_greater_zero_iff)
    moreover have "?y < 3" by simp
    ultimately show ?thesis by linarith
  qed simp
  have "(length (a # b # c # bs) + 2) div 3 = ?q + 1" "length (a # b # c # bs) mod 3 = length bs mod 3"
    by simp_all
  moreover have "4 * (?q + 1) - ?y = 4 + (4 * ?q - ?y)"
    by (simp only: distrib_left mult_1_right add.commute [of _ 4] diff_add_assoc [OF le])
  moreover have "length (b64_encode (a # b # c # bs)) = 4 + length (b64_encode bs)" by simp
  ultimately show ?case using 1 by (simp only:)
qed simp_all

end
