(* ===== verification/ResumeAuth.thy ===== *)
theory ResumeAuth
  imports Journal GoBase64
begin

text \<open>
  The cross-session resume authentication (\<^verbatim>\<open>packages/wire/resumeauth.go\<close>) with the key schedule
  it feeds (\<^verbatim>\<open>keyschedule.go\<close>, \<^verbatim>\<open>bytes.go\<close>) and the signaling MACs (\<^verbatim>\<open>authmac.go\<close>): credential
  derivation, transcript, proofs, the strict message codec and the two-sided state machine.
  What \<^verbatim>\<open>crypto/rand\<close> returns is an argument of the calls that draw a nonce.
\<close>

section \<open>Roles and the key schedule (wire.go, bytes.go, keyschedule.go)\<close>

definition RoleOfferer :: string where "RoleOfferer = ''offerer''"
definition RoleJoiner :: string where "RoleJoiner = ''joiner''"

definition aeadKeyBytes :: nat where "aeadKeyBytes = 32"

definition infoMaster :: string where "infoMaster = ProtocolVersion @ '' master''"
definition infoDirOffererJoiner :: string where "infoDirOffererJoiner = ProtocolVersion @ '' o2j''"
definition infoDirJoinerOfferer :: string where "infoDirJoinerOfferer = ProtocolVersion @ '' j2o''"

definition lengthPrefixLE :: "nat \<Rightarrow> bytes" where
  "lengthPrefixLE n = nat_le 8 n"

definition withLengthPrefix :: "bytes \<Rightarrow> bytes" where
  "withLengthPrefix x = lengthPrefixLE (length x) @ x"

definition hkdfSHA256 :: "bytes \<Rightarrow> bytes \<Rightarrow> bytes \<Rightarrow> nat \<Rightarrow> (err, bytes) result" where
  "hkdfSHA256 ikm salt info len = (case hkdf_key ikm salt info len of
     None \<Rightarrow> Inl (Plain ''hkdf: requested key length too large'') | Some out \<Rightarrow> Inr out)"

record TransferKeys =
  O2J :: DirectionalKey
  J2O :: DirectionalKey

definition DeriveMaster :: "bytes \<Rightarrow> bytes \<Rightarrow> (err, bytes) result" where
  "DeriveMaster ke transcript = hkdfSHA256 ke [] (bytes_of_string infoMaster @ transcript) aeadKeyBytes"

definition deriveDirectional :: "bytes \<Rightarrow> string \<Rightarrow> (err, DirectionalKey) result" where
  "deriveDirectional master info =
     (case hkdfSHA256 master [] (bytes_of_string info) (aeadKeyBytes + aeadSaltBytes) of Inl e \<Rightarrow> Inl e
      | Inr out \<Rightarrow> Inr \<lparr>dk_Key = take aeadKeyBytes out, dk_Salt = drop aeadKeyBytes out\<rparr>)"

definition DeriveTransferKeys :: "bytes \<Rightarrow> (err, TransferKeys) result" where
  "DeriveTransferKeys master =
     (case deriveDirectional master infoDirOffererJoiner of Inl e \<Rightarrow> Inl e
      | Inr o2j \<Rightarrow>
        (case deriveDirectional master infoDirJoinerOfferer of Inl e \<Rightarrow> Inl e
         | Inr j2o \<Rightarrow> Inr \<lparr>O2J = o2j, J2O = j2o\<rparr>))"

section \<open>Signaling MACs (authmac.go)\<close>

definition SignalSDP :: string where "SignalSDP = ''sdp''"
definition SignalICE :: string where "SignalICE = ''ice''"

definition U32BE :: "32 word \<Rightarrow> bytes" where "U32BE n = put32 n"

definition SignalMacInput :: "string \<Rightarrow> 32 word \<Rightarrow> 32 word \<Rightarrow> string \<Rightarrow> bytes" where
  "SignalMacInput typ rm seq body =
     bytes_of_string typ @ bytes_of_string '':'' @ U32BE rm @ bytes_of_string '':'' @ U32BE seq
       @ bytes_of_string '':'' @ bytes_of_string body"

definition SignSignal :: "bytes \<Rightarrow> string \<Rightarrow> 32 word \<Rightarrow> 32 word \<Rightarrow> string \<Rightarrow> bytes" where
  "SignSignal kAuth typ rm seq body = hmac_sha256 kAuth (SignalMacInput typ rm seq body)"

definition VerifySignal :: "bytes \<Rightarrow> string \<Rightarrow> 32 word \<Rightarrow> 32 word \<Rightarrow> string \<Rightarrow> bytes \<Rightarrow> bool" where
  "VerifySignal kAuth typ rm seq body mac \<longleftrightarrow> SignSignal kAuth typ rm seq body = mac"

text \<open>The two confirmation keys of a \<^verbatim>\<open>Spake2Output\<close> are arguments.\<close>

record SignalAuthKeys =
  sak_Sign :: bytes
  sak_Verify :: bytes

definition AuthKeys :: "string \<Rightarrow> bytes \<Rightarrow> bytes \<Rightarrow> SignalAuthKeys" where
  "AuthKeys role KcA KcB = (if role = RoleOfferer then \<lparr>sak_Sign = KcA, sak_Verify = KcB\<rparr>
     else \<lparr>sak_Sign = KcB, sak_Verify = KcA\<rparr>)"

section \<open>Resume credential (resumeauth.go)\<close>

definition ResumeAuthVersion :: int where "ResumeAuthVersion = 1"
definition ResumeAuthCapability :: string where "ResumeAuthCapability = ''resume-auth-v1''"
definition resumeNonceBytes :: nat where "resumeNonceBytes = 32"
definition resumeProofBytes :: nat where "resumeProofBytes = 32"
definition resumeSecretBytes :: nat where "resumeSecretBytes = 32"
definition masterBytes :: nat where "masterBytes = 32"
definition MaxResumeAuthMessageBytes :: nat where "MaxResumeAuthMessageBytes = 1024"

definition b64urlLen :: "nat \<Rightarrow> nat" where
  "b64urlLen n = (let groups = (n + 2) div 3; pad = (3 - n mod 3) mod 3 in 4 * groups - pad)"

definition infoResumeRoot :: string where "infoResumeRoot = ProtocolVersion @ '' resume root''"
definition infoResumeSecret :: string where "infoResumeSecret = ProtocolVersion @ '' resume secret''"
definition infoResumeProofOfferer :: string where "infoResumeProofOfferer = ProtocolVersion @ '' resume offerer proof''"
definition infoResumeProofJoiner :: string where "infoResumeProofJoiner = ProtocolVersion @ '' resume joiner proof''"
definition infoResumeMaster :: string where "infoResumeMaster = ProtocolVersion @ '' resume master''"
definition resumeTranscriptDomain :: string where "resumeTranscriptDomain = ProtocolVersion @ '' resume-auth''"

definition resumeProofTagJoiner :: byte where "resumeProofTagJoiner = 1"
definition resumeProofTagOfferer :: byte where "resumeProofTagOfferer = 2"
definition resumeProofTagReady :: byte where "resumeProofTagReady = 3"

text \<open>\<^verbatim>\<open>hex.DecodeString\<close>.\<close>

fun hex_decode :: "string \<Rightarrow> bytes option" where
  "hex_decode [] = Some []"
| "hex_decode [c] = None"
| "hex_decode (c # d # s) = (case (hex_val c, hex_val d) of
     (Some h, Some l) \<Rightarrow> map_option (Cons (of_nat (16 * h + l))) (hex_decode s) | _ \<Rightarrow> None)"

text \<open>\<^verbatim>\<open>b, _ := hex.DecodeString(s)\<close> after \<^verbatim>\<open>s\<close> was validated.\<close>

definition hex_bytes :: "string \<Rightarrow> bytes" where
  "hex_bytes s = (case hex_decode s of Some b \<Rightarrow> b | None \<Rightarrow> [])"

definition ResumeRoot :: "bytes \<Rightarrow> (err, bytes) result" where
  "ResumeRoot master =
     (if length master \<noteq> masterBytes
      then Inl (Classified CodeAuth ''resume: original session master must be 32 bytes'')
      else hkdfSHA256 master [] (bytes_of_string infoResumeRoot) resumeSecretBytes)"

definition ResumeSecret :: "bytes \<Rightarrow> int \<Rightarrow> string \<Rightarrow> string \<Rightarrow> (err, bytes) result" where
  "ResumeSecret resumeRoot version transferID manifestFingerprint =
     (if length resumeRoot \<noteq> resumeSecretBytes
      then Inl (Classified CodeAuth ''resume: resume root must be 32 bytes'')
      else if version \<noteq> ResumeAuthVersion
      then Inl (Classified CodeCompat ''resume: unsupported resume-auth version'')
      else if \<not> isLowerHex transferID 32
      then Inl (Classified CodeAuth ''resume: transferId must be 32 lowercase hex characters'')
      else if \<not> isLowerHex manifestFingerprint 64
      then Inl (Classified CodeAuth ''resume: manifestFingerprint must be 64 lowercase hex characters'')
      else hkdfSHA256 resumeRoot [] (bytes_of_string infoResumeSecret @ U32BE (of_int version)
             @ hex_bytes transferID @ hex_bytes manifestFingerprint) resumeSecretBytes)"

record ResumeSecretEnvelope =
  rse_Version :: int
  rse_Value :: string

definition EncodeResumeSecretEnvelope :: "bytes \<Rightarrow> (err, ResumeSecretEnvelope) result" where
  "EncodeResumeSecretEnvelope secret =
     (if length secret \<noteq> resumeSecretBytes
      then Inl (Classified CodeStorage ''resume: resume secret must be 32 bytes'')
      else Inr \<lparr>rse_Version = ResumeAuthVersion, rse_Value = hex_encode secret\<rparr>)"

definition DecodeResumeSecretEnvelope :: "ResumeSecretEnvelope option \<Rightarrow> (err, bytes) result" where
  "DecodeResumeSecretEnvelope env =
     (case env of None \<Rightarrow> Inl (Classified CodeStorage ''resume: missing resume secret envelope'')
      | Some e \<Rightarrow>
        if rse_Version e \<noteq> ResumeAuthVersion
        then Inl (Classified CodeCompat ''resume: unsupported resume secret version'')
        else if \<not> isLowerHex (rse_Value e) 64
        then Inl (Classified CodeStorage ''resume: resume secret must be 64 lowercase hex characters'')
        else (case hex_decode (rse_Value e) of
            None \<Rightarrow> Inl (Classified CodeStorage ''resume: malformed resume secret value'')
          | Some out \<Rightarrow>
            if length out \<noteq> resumeSecretBytes
            then Inl (Classified CodeStorage ''resume: malformed resume secret value'')
            else Inr out))"

definition ResumeTranscript :: "int \<Rightarrow> string \<Rightarrow> string \<Rightarrow> bytes \<Rightarrow> bytes \<Rightarrow> (err, bytes) result" where
  "ResumeTranscript version transferID manifestFingerprint offererNonce joinerNonce =
     (if version \<noteq> ResumeAuthVersion
      then Inl (Classified CodeCompat ''resume: unsupported resume-auth version'')
      else if \<not> isLowerHex transferID 32
      then Inl (Classified CodeAuth ''resume: transferId must be 32 lowercase hex characters'')
      else if \<not> isLowerHex manifestFingerprint 64
      then Inl (Classified CodeAuth ''resume: manifestFingerprint must be 64 lowercase hex characters'')
      else if length offererNonce \<noteq> resumeNonceBytes
      then Inl (Classified CodeProtocol ''resume: offerer nonce must be 32 bytes'')
      else if length joinerNonce \<noteq> resumeNonceBytes
      then Inl (Classified CodeProtocol ''resume: joiner nonce must be 32 bytes'')
      else Inr (bytes_of_string resumeTranscriptDomain @ U32BE (of_int version)
             @ hex_bytes transferID @ hex_bytes manifestFingerprint @ offererNonce @ joinerNonce))"

definition resumeProofKey :: "bytes \<Rightarrow> string \<Rightarrow> (err, bytes) result" where
  "resumeProofKey secret info =
     (if length secret \<noteq> resumeSecretBytes
      then Inl (Classified CodeAuth ''resume: resume secret must be 32 bytes'')
      else hkdfSHA256 secret [] (bytes_of_string info) resumeProofBytes)"

definition ResumeOffererProof :: "bytes \<Rightarrow> bytes \<Rightarrow> (err, bytes) result" where
  "ResumeOffererProof secret transcript =
     (case resumeProofKey secret infoResumeProofOfferer of Inl e \<Rightarrow> Inl e
      | Inr key \<Rightarrow> Inr (hmac_sha256 key (transcript @ [resumeProofTagOfferer])))"

definition ResumeJoinerProof :: "bytes \<Rightarrow> bytes \<Rightarrow> (err, bytes) result" where
  "ResumeJoinerProof secret transcript =
     (case resumeProofKey secret infoResumeProofJoiner of Inl e \<Rightarrow> Inl e
      | Inr key \<Rightarrow> Inr (hmac_sha256 key (transcript @ [resumeProofTagJoiner])))"

definition ResumeReadyProof :: "bytes \<Rightarrow> bytes \<Rightarrow> (err, bytes) result" where
  "ResumeReadyProof secret transcript =
     (case resumeProofKey secret infoResumeProofJoiner of Inl e \<Rightarrow> Inl e
      | Inr key \<Rightarrow> Inr (hmac_sha256 key (transcript @ [resumeProofTagReady])))"

definition ResumeSessionMaster :: "bytes \<Rightarrow> bytes \<Rightarrow> (err, bytes) result" where
  "ResumeSessionMaster secret transcript =
     (if length secret \<noteq> resumeSecretBytes
      then Inl (Classified CodeAuth ''resume: resume secret must be 32 bytes'')
      else hkdfSHA256 secret [] (bytes_of_string infoResumeMaster @ transcript) resumeSecretBytes)"

section \<open>Message codec\<close>

definition ResumeMsgInit :: string where "ResumeMsgInit = ''resume_init''"
definition ResumeMsgChallenge :: string where "ResumeMsgChallenge = ''resume_challenge''"
definition ResumeMsgConfirm :: string where "ResumeMsgConfirm = ''resume_confirm''"
definition ResumeMsgReady :: string where "ResumeMsgReady = ''resume_ready''"

record ResumeMessage =
  rmsg_Type :: string
  rmsg_Version :: int
  rmsg_Role :: string
  rmsg_Nonce :: string
  rmsg_Proof :: string

record resumeRawMessage =
  raw_Type :: "string option"
  raw_Version :: "int option"
  raw_Role :: "string option"
  raw_Nonce :: "string option"
  raw_Proof :: "string option"

definition validB64Len :: "string \<Rightarrow> nat \<Rightarrow> bool" where
  "validB64Len s n \<longleftrightarrow> length s = b64urlLen n
     \<and> (case b64_decode s of None \<Rightarrow> False | Some decoded \<Rightarrow> length decoded = n \<and> b64_encode decoded = s)"

definition b64enc :: "bytes \<Rightarrow> string" where "b64enc b = b64_encode b"

definition validateResumeMessage :: "ResumeMessage \<Rightarrow> err option" where
  "validateResumeMessage m =
     (let protocol = (\<lambda>t. Some (Classified CodeProtocol t)) in
      if rmsg_Version m \<noteq> ResumeAuthVersion
      then Some (Classified CodeCompat ''resume: unsupported resume-auth version'')
      else if rmsg_Type m = ResumeMsgInit then
        (if rmsg_Role m \<noteq> RoleOfferer then protocol ''resume: resume_init must carry role offerer''
         else if \<not> validB64Len (rmsg_Nonce m) resumeNonceBytes then protocol ''resume: resume_init nonce must be 32 bytes''
         else if rmsg_Proof m \<noteq> '''' then protocol ''resume: resume_init must not carry a proof''
         else None)
      else if rmsg_Type m = ResumeMsgChallenge then
        (if rmsg_Role m \<noteq> RoleJoiner then protocol ''resume: resume_challenge must carry role joiner''
         else if \<not> validB64Len (rmsg_Nonce m) resumeNonceBytes then protocol ''resume: resume_challenge nonce must be 32 bytes''
         else if \<not> validB64Len (rmsg_Proof m) resumeProofBytes then protocol ''resume: resume_challenge proof must be 32 bytes''
         else None)
      else if rmsg_Type m = ResumeMsgConfirm then
        (if rmsg_Role m \<noteq> RoleOfferer then protocol ''resume: resume_confirm must carry role offerer''
         else if rmsg_Nonce m \<noteq> '''' then protocol ''resume: resume_confirm must not carry a nonce''
         else if \<not> validB64Len (rmsg_Proof m) resumeProofBytes then protocol ''resume: resume_confirm proof must be 32 bytes''
         else None)
      else if rmsg_Type m = ResumeMsgReady then
        (if rmsg_Role m \<noteq> RoleJoiner then protocol ''resume: resume_ready must carry role joiner''
         else if rmsg_Nonce m \<noteq> '''' then protocol ''resume: resume_ready must not carry a nonce''
         else if \<not> validB64Len (rmsg_Proof m) resumeProofBytes then protocol ''resume: resume_ready proof must be 32 bytes''
         else None)
      else protocol ''resume: unknown message type'')"

definition resume_message_json :: "ResumeMessage \<Rightarrow> json" where
  "resume_message_json m = JObj ([(''type'', JStr (rmsg_Type m)), (''version'', jint (rmsg_Version m))]
     @ omitempty ''role'' (rmsg_Role m) @ omitempty ''nonce'' (rmsg_Nonce m) @ omitempty ''proof'' (rmsg_Proof m))"

text \<open>A nil message is \<open>None\<close>.\<close>

definition EncodeResumeMessage :: "ResumeMessage option \<Rightarrow> (err, bytes) result" where
  "EncodeResumeMessage msg =
     (case msg of None \<Rightarrow> Inl (Classified CodeProtocol ''resume: nil message'')
      | Some m \<Rightarrow>
        (case validateResumeMessage m of Some e \<Rightarrow> Inl e
         | None \<Rightarrow> Inr (bytes_of_string (json_print (resume_message_json m)))))"

definition raw_fields :: "resumeRawMessage field list" where
  "raw_fields = [(''type'', field_into raw_Type raw_Type_update (ptr_into string_into '''')),
     (''version'', field_into raw_Version raw_Version_update (ptr_into int_into 0)),
     (''role'', field_into raw_Role raw_Role_update (ptr_into string_into '''')),
     (''nonce'', field_into raw_Nonce raw_Nonce_update (ptr_into string_into '''')),
     (''proof'', field_into raw_Proof raw_Proof_update (ptr_into string_into ''''))]"

definition zero_raw :: resumeRawMessage where
  "zero_raw = \<lparr>raw_Type = None, raw_Version = None, raw_Role = None, raw_Nonce = None, raw_Proof = None\<rparr>"

definition DecodeResumeMessage :: "bytes \<Rightarrow> (err, ResumeMessage) result" where
  "DecodeResumeMessage payload =
     (if MaxResumeAuthMessageBytes < length payload
      then Inl (Classified CodeProtocol ''resume: message exceeds 1024 bytes'')
      else case unmarshalStrict raw_fields zero_raw payload of
          None \<Rightarrow> Inl (Classified CodeProtocol ''resume: malformed message'')
        | Some raw \<Rightarrow>
          (case raw_Type raw of None \<Rightarrow> Inl (Classified CodeProtocol ''resume: missing type'')
           | Some t \<Rightarrow>
             (case raw_Version raw of None \<Rightarrow> Inl (Classified CodeProtocol ''resume: missing version'')
              | Some v \<Rightarrow>
                let text = (\<lambda>p. case p of None \<Rightarrow> '''' | Some s \<Rightarrow> s);
                    m = \<lparr>rmsg_Type = t, rmsg_Version = v, rmsg_Role = text (raw_Role raw),
                         rmsg_Nonce = text (raw_Nonce raw), rmsg_Proof = text (raw_Proof raw)\<rparr>
                in case validateResumeMessage m of Some e \<Rightarrow> Inl e | None \<Rightarrow> Inr m)))"

section \<open>State machine\<close>

record ResumeAuthContext =
  rc_Version :: int
  rc_TransferID :: string
  rc_ManifestFingerprint :: string
  rc_Role :: string
  rc_ResumeSecret :: bytes
  rc_NonceSource :: "(nat \<Rightarrow> (err, bytes) result) option"

record ResumeAuthResult =
  rr_Role :: string
  rr_TransferID :: string
  rr_Keys :: TransferKeys
  rr_SendCounter :: "64 word"
  rr_RecvCounter :: "64 word"

datatype resumeAuthState =
    resumeStateIdle | resumeStateAwaitChallenge | resumeStateAwaitReady | resumeStateAwaitConfirm
  | resumeStateDone | resumeStateFailed

record acceptedStep =
  as_accepted :: bytes
  as_responded :: "bytes option"

record ResumeAuthSession =
  ra_ctx :: ResumeAuthContext
  ra_state :: resumeAuthState
  ra_offererNonce :: bytes
  ra_joinerNonce :: bytes
  ra_transcript :: bytes
  ra_result :: "ResumeAuthResult option"
  ra_steps :: "acceptedStep list"
  ra_settledErr :: "err option"

definition NewResumeAuthSession :: "ResumeAuthContext \<Rightarrow> (err, ResumeAuthSession) result" where
  "NewResumeAuthSession ctx =
     (if rc_Version ctx \<noteq> ResumeAuthVersion
      then Inl (Classified CodeCompat ''resume: unsupported resume-auth version'')
      else if \<not> isLowerHex (rc_TransferID ctx) 32
      then Inl (Classified CodeAuth ''resume: transferId must be 32 lowercase hex characters'')
      else if \<not> isLowerHex (rc_ManifestFingerprint ctx) 64
      then Inl (Classified CodeAuth ''resume: manifestFingerprint must be 64 lowercase hex characters'')
      else if rc_Role ctx \<noteq> RoleOfferer \<and> rc_Role ctx \<noteq> RoleJoiner
      then Inl (Classified CodeAuth ''resume: invalid role'')
      else if length (rc_ResumeSecret ctx) \<noteq> resumeSecretBytes
      then Inl (Classified CodeStorage ''resume: missing or invalid resume secret'')
      else Inr \<lparr>ra_ctx = ctx, ra_state = resumeStateIdle, ra_offererNonce = [], ra_joinerNonce = [],
             ra_transcript = [], ra_result = None, ra_steps = [], ra_settledErr = None\<rparr>)"

text \<open>\<open>rnd\<close> is what \<^verbatim>\<open>rand.Read\<close> does to the fresh buffer: an error, or the bytes it fills in.\<close>

definition randomNonce :: "(err, bytes) result \<Rightarrow> ResumeAuthSession \<Rightarrow> (err, bytes) result" where
  "randomNonce rnd s =
     (case rc_NonceSource (ra_ctx s) of
        Some source \<Rightarrow>
          (case source resumeNonceBytes of
             Inl e \<Rightarrow> Inl (Classified CodeAuth ''resume: nonce source failed'')
           | Inr b \<Rightarrow> if length b \<noteq> resumeNonceBytes
               then Inl (Classified CodeAuth ''resume: nonce source returned a wrong length'') else Inr b)
      | None \<Rightarrow>
          (case rnd of Inl e \<Rightarrow> Inl (Classified CodeAuth ''resume: generate nonce'')
           | Inr b \<Rightarrow> Inr (take resumeNonceBytes (b @ replicate resumeNonceBytes 0))))"

definition failLocked :: "err \<Rightarrow> ResumeAuthSession \<Rightarrow> ResumeAuthSession" where
  "failLocked e s = s\<lparr>ra_settledErr := (case ra_settledErr s of None \<Rightarrow> Some e | Some e' \<Rightarrow> Some e'),
     ra_state := resumeStateFailed\<rparr>"

definition Start :: "(err, bytes) result \<Rightarrow> ResumeAuthSession \<Rightarrow> (err, ResumeMessage) result \<times> ResumeAuthSession" where
  "Start rnd s =
     (if ra_state s \<noteq> resumeStateIdle
      then (Inl (Classified CodeProtocol ''resume: Start called in a later state''), s)
      else if rc_Role (ra_ctx s) = RoleJoiner
      then (Inl (Classified CodeProtocol ''resume: joiner cannot start the handshake''), s)
      else case randomNonce rnd s of
          Inl e \<Rightarrow> (Inl e, failLocked e s)
        | Inr n \<Rightarrow>
          (Inr \<lparr>rmsg_Type = ResumeMsgInit, rmsg_Version = ResumeAuthVersion, rmsg_Role = RoleOfferer,
                rmsg_Nonce = b64enc n, rmsg_Proof = ''''\<rparr>,
           s\<lparr>ra_offererNonce := n, ra_state := resumeStateAwaitChallenge\<rparr>))"

definition findStep :: "bytes \<Rightarrow> ResumeAuthSession \<Rightarrow> acceptedStep option" where
  "findStep payload s = find (\<lambda>st. payload = as_accepted st) (ra_steps s)"

definition verifyResumeProof :: "bytes \<Rightarrow> bytes \<Rightarrow> bytes \<Rightarrow> byte \<Rightarrow> string \<Rightarrow> bool" where
  "verifyResumeProof got secret transcript tag info =
     (if length got \<noteq> resumeProofBytes then False
      else case resumeProofKey secret info of Inl _ \<Rightarrow> False
        | Inr key \<Rightarrow> hmac_sha256 key (transcript @ [tag]) = got)"

text \<open>A panic of \<^verbatim>\<open>mustEncodeMessage\<close> is \<open>None\<close>.\<close>

definition mustEncodeMessage :: "ResumeMessage \<Rightarrow> bytes option" where
  "mustEncodeMessage m = (case EncodeResumeMessage (Some m) of Inl _ \<Rightarrow> None | Inr encoded \<Rightarrow> Some encoded)"

definition buildResult :: "ResumeAuthSession \<Rightarrow> (err, ResumeAuthResult) result" where
  "buildResult s =
     (case ResumeSessionMaster (rc_ResumeSecret (ra_ctx s)) (ra_transcript s) of Inl e \<Rightarrow> Inl e
      | Inr master \<Rightarrow>
        (case DeriveTransferKeys master of Inl e \<Rightarrow> Inl e
         | Inr keys \<Rightarrow> Inr \<lparr>rr_Role = rc_Role (ra_ctx s), rr_TransferID = rc_TransferID (ra_ctx s),
             rr_Keys = keys, rr_SendCounter = 0, rr_RecvCounter = 0\<rparr>))"

text \<open>What \<^verbatim>\<open>Handle\<close> returns: a message, a result and an error; with the new session, or \<open>None\<close>
  for a panic.\<close>

type_synonym handled = "ResumeMessage option \<times> ResumeAuthResult option \<times> err option"

definition settle_failed :: "err \<Rightarrow> ResumeAuthSession \<Rightarrow> (handled \<times> ResumeAuthSession) option" where
  "settle_failed e s = (let s' = failLocked e s in Some ((None, None, ra_settledErr s'), s'))"

definition return_failed :: "err \<Rightarrow> ResumeAuthSession \<Rightarrow> (handled \<times> ResumeAuthSession) option" where
  "return_failed e s = Some ((None, None, Some e), failLocked e s)"

text \<open>\<^verbatim>\<open>b, _ := DecodeString(s)\<close> of a field that was validated.\<close>

definition b64_bytes :: "string \<Rightarrow> bytes" where
  "b64_bytes s = (case b64_decode s of Some b \<Rightarrow> b | None \<Rightarrow> [])"

text \<open>The common end of the accepting branches: snapshot, state, result.\<close>

definition finish_resume :: "ResumeMessage option \<Rightarrow> ResumeAuthSession \<Rightarrow> (handled \<times> ResumeAuthSession) option" where
  "finish_resume out s =
     (case buildResult s of Inl e \<Rightarrow> return_failed e s
      | Inr r \<Rightarrow> Some ((out, Some r, None), s\<lparr>ra_result := Some r\<rparr>))"

definition acceptChallenge ::
  "ResumeMessage \<Rightarrow> bytes \<Rightarrow> ResumeAuthSession \<Rightarrow> (handled \<times> ResumeAuthSession) option" where
  "acceptChallenge msg payload s =
     (case b64_decode (rmsg_Nonce msg) of
        None \<Rightarrow> settle_failed (Classified CodeProtocol ''resume: malformed joiner nonce'') s
      | Some jn \<Rightarrow>
        let s1 = s\<lparr>ra_joinerNonce := jn\<rparr>; ctx = ra_ctx s in
        (case ResumeTranscript (rc_Version ctx) (rc_TransferID ctx) (rc_ManifestFingerprint ctx) (ra_offererNonce s1) (ra_joinerNonce s1) of
           Inl e \<Rightarrow> return_failed e s1
         | Inr transcript \<Rightarrow>
           let s2 = s1\<lparr>ra_transcript := transcript\<rparr> in
           if \<not> verifyResumeProof (b64_bytes (rmsg_Proof msg)) (rc_ResumeSecret ctx) transcript resumeProofTagJoiner infoResumeProofJoiner
           then settle_failed (Classified CodeAuth ''resume: joiner proof verification failed'') s2
           else (case ResumeOffererProof (rc_ResumeSecret ctx) transcript of
               Inl e \<Rightarrow> return_failed e s2
             | Inr proof \<Rightarrow>
               let confirm = \<lparr>rmsg_Type = ResumeMsgConfirm, rmsg_Version = ResumeAuthVersion,
                     rmsg_Role = RoleOfferer, rmsg_Nonce = '''', rmsg_Proof = b64enc proof\<rparr> in
               (case mustEncodeMessage confirm of None \<Rightarrow> None
                | Some enc \<Rightarrow> Some ((Some confirm, None, None),
                    s2\<lparr>ra_steps := ra_steps s2 @ [\<lparr>as_accepted = payload, as_responded = Some enc\<rparr>],
                       ra_state := resumeStateAwaitReady\<rparr>)))))"

definition handleOfferer ::
  "ResumeMessage \<Rightarrow> bytes \<Rightarrow> ResumeAuthSession \<Rightarrow> (handled \<times> ResumeAuthSession) option" where
  "handleOfferer msg payload s =
     (if rmsg_Type msg = ResumeMsgChallenge then
        (if ra_state s \<noteq> resumeStateAwaitChallenge
         then settle_failed (Classified CodeAuth ''resume: conflicting duplicate resume_challenge'') s
         else acceptChallenge msg payload s)
      else if rmsg_Type msg = ResumeMsgReady then
        (if ra_state s \<noteq> resumeStateAwaitReady
         then settle_failed (Classified CodeProtocol ''resume: unexpected resume_ready'') s
         else if \<not> verifyResumeProof (b64_bytes (rmsg_Proof msg)) (rc_ResumeSecret (ra_ctx s)) (ra_transcript s) resumeProofTagReady infoResumeProofJoiner
         then settle_failed (Classified CodeAuth ''resume: joiner ready proof verification failed'') s
         else finish_resume None (s\<lparr>ra_steps := ra_steps s @ [\<lparr>as_accepted = payload, as_responded = None\<rparr>],
                ra_state := resumeStateDone\<rparr>))
      else settle_failed (Classified CodeProtocol ''resume: offerer received unexpected message'') s)"

definition acceptInit ::
  "(err, bytes) result \<Rightarrow> ResumeMessage \<Rightarrow> bytes \<Rightarrow> ResumeAuthSession \<Rightarrow> (handled \<times> ResumeAuthSession) option" where
  "acceptInit rnd msg payload s =
     (case b64_decode (rmsg_Nonce msg) of
        None \<Rightarrow> settle_failed (Classified CodeProtocol ''resume: malformed offerer nonce'') s
      | Some on \<Rightarrow>
        let s1 = s\<lparr>ra_offererNonce := on\<rparr>; ctx = ra_ctx s in
        (case randomNonce rnd s1 of Inl e \<Rightarrow> return_failed e s1
         | Inr n \<Rightarrow>
           let s2 = s1\<lparr>ra_joinerNonce := n\<rparr> in
           (case ResumeTranscript (rc_Version ctx) (rc_TransferID ctx) (rc_ManifestFingerprint ctx) (ra_offererNonce s2) (ra_joinerNonce s2) of
              Inl e \<Rightarrow> return_failed e s2
            | Inr transcript \<Rightarrow>
              let s3 = s2\<lparr>ra_transcript := transcript\<rparr> in
              (case ResumeJoinerProof (rc_ResumeSecret ctx) transcript of Inl e \<Rightarrow> return_failed e s3
               | Inr proof \<Rightarrow>
                 let challenge = \<lparr>rmsg_Type = ResumeMsgChallenge, rmsg_Version = ResumeAuthVersion,
                       rmsg_Role = RoleJoiner, rmsg_Nonce = b64enc n, rmsg_Proof = b64enc proof\<rparr> in
                 (case mustEncodeMessage challenge of None \<Rightarrow> None
                  | Some enc \<Rightarrow> Some ((Some challenge, None, None),
                      s3\<lparr>ra_steps := ra_steps s3 @ [\<lparr>as_accepted = payload, as_responded = Some enc\<rparr>],
                         ra_state := resumeStateAwaitConfirm\<rparr>))))))"

definition handleJoiner ::
  "(err, bytes) result \<Rightarrow> ResumeMessage \<Rightarrow> bytes \<Rightarrow> ResumeAuthSession \<Rightarrow> (handled \<times> ResumeAuthSession) option" where
  "handleJoiner rnd msg payload s =
     (if rmsg_Type msg = ResumeMsgInit then
        (if ra_state s \<noteq> resumeStateIdle
         then settle_failed (Classified CodeAuth ''resume: conflicting duplicate resume_init'') s
         else acceptInit rnd msg payload s)
      else if rmsg_Type msg = ResumeMsgConfirm then
        (if ra_state s \<noteq> resumeStateAwaitConfirm
         then settle_failed (Classified CodeAuth ''resume: conflicting duplicate resume_confirm'') s
         else if \<not> verifyResumeProof (b64_bytes (rmsg_Proof msg)) (rc_ResumeSecret (ra_ctx s)) (ra_transcript s) resumeProofTagOfferer infoResumeProofOfferer
         then settle_failed (Classified CodeAuth ''resume: offerer proof verification failed'') s
         else (case ResumeReadyProof (rc_ResumeSecret (ra_ctx s)) (ra_transcript s) of
             Inl e \<Rightarrow> return_failed e s
           | Inr proof \<Rightarrow>
             let ready = \<lparr>rmsg_Type = ResumeMsgReady, rmsg_Version = ResumeAuthVersion,
                   rmsg_Role = RoleJoiner, rmsg_Nonce = '''', rmsg_Proof = b64enc proof\<rparr> in
             (case mustEncodeMessage ready of None \<Rightarrow> None
              | Some enc \<Rightarrow> finish_resume (Some ready)
                  (s\<lparr>ra_steps := ra_steps s @ [\<lparr>as_accepted = payload, as_responded = Some enc\<rparr>],
                     ra_state := resumeStateDone\<rparr>))))
      else settle_failed (Classified CodeProtocol ''resume: joiner received unexpected message'') s)"

definition Session_Handle ::
  "(err, bytes) result \<Rightarrow> bytes \<Rightarrow> ResumeAuthSession \<Rightarrow> (handled \<times> ResumeAuthSession) option" where
  "Session_Handle rnd payload s =
     (if ra_state s = resumeStateFailed then Some ((None, None, ra_settledErr s), s)
      else case DecodeResumeMessage payload of Inl e \<Rightarrow> return_failed e s
        | Inr msg \<Rightarrow>
          (case findStep payload s of
             Some st \<Rightarrow>
               (case as_responded st of None \<Rightarrow> Some ((None, ra_result s, None), s)
                | Some r \<Rightarrow>
                  (case DecodeResumeMessage r of Inl e \<Rightarrow> return_failed e s
                   | Inr out \<Rightarrow> Some ((Some out, ra_result s, None), s)))
           | None \<Rightarrow>
             if rc_Role (ra_ctx s) = RoleOfferer then handleOfferer msg payload s
             else handleJoiner rnd msg payload s))"

definition containsFeature :: "string list \<Rightarrow> string \<Rightarrow> bool" where
  "containsFeature features want \<longleftrightarrow> list_ex (\<lambda>f. f = want) features"

definition NegotiateResumeAuth :: "string list \<Rightarrow> string list \<Rightarrow> bool" where
  "NegotiateResumeAuth localFeatures remoteFeatures \<longleftrightarrow>
     containsFeature localFeatures ResumeAuthCapability \<and> containsFeature remoteFeatures ResumeAuthCapability"

end
