(* ===== verification/ResumeSpec.thy ===== *)
theory ResumeSpec
  imports ResumeAuth
begin

text \<open>
  Lemmas about the resume authentication: hexadecimal fields and the transcript are injective, the
  derivations are total, the message codec round-trips, and every session keeps the invariant that
  ties its result to the proofs it verified.
\<close>

section \<open>Hexadecimal fields\<close>

lemma hex_decode_encode [simp]: "hex_decode (hex_encode bs) = Some bs"
proof (induction bs)
  case (Cons b bs)
  have "(of_nat (16 * (unat b div 16) + unat b mod 16) :: byte) = b" by simp
  moreover have "unat b div 16 mod 16 = unat b div 16" using unat_byte_less [of b] by simp
  ultimately show ?case using Cons by (simp add: hex_encode_def hex_byte_def)
qed (simp add: hex_encode_def)

lemma lower_hex_val:
  assumes "(48 \<le> code c \<and> code c \<le> 57) \<or> (97 \<le> code c \<and> code c \<le> 102)"
  shows "\<exists>v < 16. hex_val c = Some v \<and> hex_digit v = c"
proof -
  have "code c \<in> set ([48..<58] @ [97..<103])" unfolding set_append set_upt using assms by auto
  then have "c \<in> set (map char_of ([48..<58] @ [97..<103] :: nat list))"
    by (metis char_of_code image_eqI list.set_map)
  also have "map char_of ([48..<58] @ [97..<103] :: nat list) = ''0123456789abcdef''" by code_simp
  finally show ?thesis
    by (auto simp: hex_val_def is_digit_def hex_digit_def)
qed

lemma hex_decode_lower:
  "isLowerHex s (2 * n) \<Longrightarrow> \<exists>b. hex_decode s = Some b \<and> hex_encode b = s \<and> length b = n"
proof (induction n arbitrary: s)
  case 0
  then show ?case by (simp add: isLowerHex_def hex_encode_def)
next
  case (Suc n)
  then obtain c d t where s: "s = c # d # t" by (cases s; cases "tl s") (auto simp: isLowerHex_def)
  from Suc.prems s obtain v w where v: "v < 16" "hex_val c = Some v" "hex_digit v = c"
    and w: "w < 16" "hex_val d = Some w" "hex_digit w = d"
    using lower_hex_val [of c] lower_hex_val [of d] by (auto simp: isLowerHex_def)
  from Suc.prems s have "isLowerHex t (2 * n)" by (simp add: isLowerHex_def)
  from Suc.IH [OF this] obtain b where b: "hex_decode t = Some b" "hex_encode b = t" "length b = n" by blast
  let ?x = "of_nat (16 * v + w) :: byte"
  have "unat ?x = 16 * v + w" by (rule unat_byte_of_nat) (use v(1) w(1) in simp)
  then have "hex_byte ?x = [c, d]" using v w by (simp add: hex_byte_def del: of_nat_add of_nat_mult)
  with s v w b show ?case by (auto simp: hex_encode_def)
qed

lemma hex_bytes_lower: "isLowerHex s (2 * n) \<Longrightarrow> length (hex_bytes s) = n \<and> hex_encode (hex_bytes s) = s"
  using hex_decode_lower [of s n] by (auto simp: hex_bytes_def)

lemma hex_bytes_inject:
  "isLowerHex s (2 * n) \<Longrightarrow> isLowerHex t (2 * n) \<Longrightarrow> hex_bytes s = hex_bytes t \<Longrightarrow> s = t"
  by (metis hex_bytes_lower)

section \<open>Derivations\<close>

lemma hkdfSHA256_total:
  assumes "len \<le> 8160"
  shows "\<exists>out. hkdfSHA256 ikm salt info len = Inr out \<and> length out = len"
proof -
  from assms obtain out where out: "hkdf_key ikm salt info len = Some out" by (simp add: hkdf_key_def)
  with length_hkdf_key [OF out] show ?thesis by (simp add: hkdfSHA256_def)
qed

lemma deriveDirectional_total:
  "\<exists>k. deriveDirectional master info = Inr k \<and> length (dk_Key k) = 32 \<and> length (dk_Salt k) = 4"
  using hkdfSHA256_total [of "aeadKeyBytes + aeadSaltBytes" master "[]" "bytes_of_string info"]
  by (auto simp: deriveDirectional_def aeadKeyBytes_def aeadSaltBytes_def)

lemma DeriveTransferKeys_total: "\<exists>keys. DeriveTransferKeys master = Inr keys"
  using deriveDirectional_total [of master infoDirOffererJoiner] deriveDirectional_total [of master infoDirJoinerOfferer]
  by (auto simp: DeriveTransferKeys_def)

lemmas resume_lengths = resumeNonceBytes_def resumeProofBytes_def resumeSecretBytes_def

lemma ResumeSessionMaster_total:
  "length secret = 32 \<Longrightarrow> \<exists>master. ResumeSessionMaster secret transcript = Inr master"
  using hkdfSHA256_total [of 32 secret "[]"] by (fastforce simp: ResumeSessionMaster_def resume_lengths)

lemma resumeProofKey_total: "length secret = 32 \<Longrightarrow> \<exists>key. resumeProofKey secret info = Inr key"
  using hkdfSHA256_total [of 32 secret "[]"] by (fastforce simp: resumeProofKey_def resume_lengths)

lemma proofs_total:
  assumes "length secret = 32"
  shows "\<exists>p. ResumeOffererProof secret t = Inr p \<and> length p = 32"
    and "\<exists>p. ResumeJoinerProof secret t = Inr p \<and> length p = 32"
    and "\<exists>p. ResumeReadyProof secret t = Inr p \<and> length p = 32"
  using resumeProofKey_total [OF assms, of infoResumeProofOfferer] resumeProofKey_total [OF assms, of infoResumeProofJoiner]
  by (auto simp: ResumeOffererProof_def ResumeJoinerProof_def ResumeReadyProof_def)

lemma verify_iff:
  assumes "length secret = 32"
  shows "verifyResumeProof got secret t resumeProofTagJoiner infoResumeProofJoiner \<longleftrightarrow> ResumeJoinerProof secret t = Inr got"
    and "verifyResumeProof got secret t resumeProofTagReady infoResumeProofJoiner \<longleftrightarrow> ResumeReadyProof secret t = Inr got"
    and "verifyResumeProof got secret t resumeProofTagOfferer infoResumeProofOfferer \<longleftrightarrow> ResumeOffererProof secret t = Inr got"
  using resumeProofKey_total [OF assms, of infoResumeProofOfferer] resumeProofKey_total [OF assms, of infoResumeProofJoiner]
  by (auto simp: verifyResumeProof_def ResumeOffererProof_def ResumeJoinerProof_def ResumeReadyProof_def resume_lengths)

lemma transcript_parts:
  assumes "ResumeTranscript version tid fp on jn = Inr t"
  shows "version = ResumeAuthVersion" and "isLowerHex tid (2 * 16)" and "isLowerHex fp (2 * 32)"
    and "length on = 32" and "length jn = 32"
    and "t = bytes_of_string resumeTranscriptDomain @ U32BE (of_int version) @ hex_bytes tid @ hex_bytes fp @ on @ jn"
  using assms by (auto simp: ResumeTranscript_def resume_lengths split: if_splits)

lemma transcript_total:
  "version = ResumeAuthVersion \<Longrightarrow> isLowerHex tid 32 \<Longrightarrow> isLowerHex fp 64 \<Longrightarrow> length on = 32 \<Longrightarrow> length jn = 32 \<Longrightarrow>
     \<exists>t. ResumeTranscript version tid fp on jn = Inr t"
  by (simp add: ResumeTranscript_def resume_lengths)

lemma transcript_inject:
  assumes "ResumeTranscript version tid fp on jn = Inr t" and "ResumeTranscript version' tid' fp' on' jn' = Inr t"
  shows "tid = tid'" and "fp = fp'" and "on = on'" and "jn = jn'"
proof -
  note a = transcript_parts [OF assms(1)] and b = transcript_parts [OF assms(2)]
  have len: "length (hex_bytes tid) = 16" "length (hex_bytes fp) = 32" "length (hex_bytes tid') = 16" "length (hex_bytes fp') = 32"
    using hex_bytes_lower [OF a(2)] hex_bytes_lower [OF a(3)] hex_bytes_lower [OF b(2)] hex_bytes_lower [OF b(3)] by blast+
  have "hex_bytes tid @ hex_bytes fp @ on @ jn = hex_bytes tid' @ hex_bytes fp' @ on' @ jn'"
    using trans [OF a(6) [symmetric] b(6)] unfolding a(1) b(1) by (simp only: same_append_eq)
  then have eq: "hex_bytes tid = hex_bytes tid'" "hex_bytes fp = hex_bytes fp'" "on = on'" "jn = jn'"
    using len a(4) b(4) by (simp_all add: append_eq_append_conv)
  show "tid = tid'" by (rule hex_bytes_inject [OF a(2) b(2) eq(1)])
  show "fp = fp'" by (rule hex_bytes_inject [OF a(3) b(3) eq(2)])
  show "on = on'" "jn = jn'" by (fact eq)+
qed

section \<open>The message codec\<close>

definition wellformed :: "ResumeMessage \<Rightarrow> bool" where
  "wellformed m \<longleftrightarrow> validateResumeMessage m = None"

lemma validB64Len_encode: "length b = n \<Longrightarrow> validB64Len (b64enc b) n"
  using length_b64_encode [of b] by (simp add: validB64Len_def b64enc_def b64urlLen_def)

lemma validB64Len_text: "validB64Len s n \<Longrightarrow> list_all b64_text s \<and> length s = b64urlLen n"
  using b64_text_encode by (auto simp: validB64Len_def split: option.splits)

lemma validB64Len_bytes: "validB64Len s n \<Longrightarrow> b64_decode s = Some (b64_bytes s) \<and> length (b64_bytes s) = n"
  by (auto simp: validB64Len_def b64_bytes_def split: option.splits)

lemma b64_bytes_enc [simp]: "b64_bytes (b64enc b) = b" "b64_decode (b64enc b) = Some b"
  by (simp_all add: b64_bytes_def b64enc_def)

lemmas resume_names = ResumeMsgInit_def ResumeMsgChallenge_def ResumeMsgConfirm_def ResumeMsgReady_def
  RoleOfferer_def RoleJoiner_def

lemma wellformed_fields:
  assumes "wellformed m"
  shows "rmsg_Version m = 1" and "rmsg_Type m \<in> {ResumeMsgInit, ResumeMsgChallenge, ResumeMsgConfirm, ResumeMsgReady}"
    and "rmsg_Role m \<in> {RoleOfferer, RoleJoiner}"
    and "rmsg_Nonce m = '''' \<or> validB64Len (rmsg_Nonce m) 32" and "rmsg_Proof m = '''' \<or> validB64Len (rmsg_Proof m) 32"
  using assms by (auto simp: wellformed_def validateResumeMessage_def Let_def ResumeAuthVersion_def resume_lengths split: if_splits)

lemma wellformed_valid_strings:
  assumes "wellformed m"
  shows "valid_string (rmsg_Type m)" and "valid_string (rmsg_Role m)"
    and "valid_string (rmsg_Nonce m)" and "valid_string (rmsg_Proof m)"
  using wellformed_fields [OF assms] validB64Len_text valid_string_b64
  by (auto simp: resume_names)

lemma wellformed_lengths:
  assumes "wellformed m"
  shows "length (rmsg_Type m) \<le> 16" and "length (rmsg_Role m) \<le> 7"
    and "length (rmsg_Nonce m) \<le> 43" and "length (rmsg_Proof m) \<le> 43"
  using wellformed_fields [OF assms] validB64Len_text [of _ 32]
  by (auto simp: resume_names b64urlLen_def)

lemma json_ok_resume_message: "wellformed m \<Longrightarrow> json_ok (resume_message_json m)"
  using wellformed_valid_strings [of m] by (simp add: resume_message_json_def omitempty_def)

lemma resume_message_size:
  assumes "wellformed m"
  shows "length (json_print (resume_message_json m)) \<le> 1024"
proof -
  have q: "length (json_quote s) \<le> 6 * n + 2" if "length s \<le> n" for s n
    using json_quote_length [of s] that by (meson add_le_mono1 le_trans mult_le_mono2)
  have keys: "length (json_quote ''type'') \<le> 26" "length (json_quote ''version'') \<le> 44"
    "length (json_quote ''role'') \<le> 26" "length (json_quote ''nonce'') \<le> 32" "length (json_quote ''proof'') \<le> 32"
    using q [of "''type''" 4] q [of "''version''" 7] q [of "''role''" 4] q [of "''nonce''" 5] q [of "''proof''" 5] by simp_all
  have vals: "length (json_quote (rmsg_Type m)) \<le> 98" "length (json_quote (rmsg_Role m)) \<le> 44"
    "length (json_quote (rmsg_Nonce m)) \<le> 260" "length (json_quote (rmsg_Proof m)) \<le> 260"
    using q [OF wellformed_lengths(1) [OF assms]] q [OF wellformed_lengths(2) [OF assms]]
      q [OF wellformed_lengths(3) [OF assms]] q [OF wellformed_lengths(4) [OF assms]] by simp_all
  have "length (int_dec 1) = 1" by code_simp
  then have "length (int_dec (rmsg_Version m)) = 1" by (simp only: wellformed_fields(1) [OF assms])
  with keys vals show ?thesis
    by (cases "rmsg_Role m = ''''"; cases "rmsg_Nonce m = ''''"; cases "rmsg_Proof m = ''''")
      (simp_all add: resume_message_json_def omitempty_def jint_def)
qed

lemma resume_message_into:
  assumes "wellformed m"
  shows "struct_into raw_fields (resume_message_json m) zero_raw
    = Some \<lparr>raw_Type = Some (rmsg_Type m), raw_Version = Some (rmsg_Version m),
        raw_Role = (if rmsg_Role m = '''' then None else Some (rmsg_Role m)),
        raw_Nonce = (if rmsg_Nonce m = '''' then None else Some (rmsg_Nonce m)),
        raw_Proof = (if rmsg_Proof m = '''' then None else Some (rmsg_Proof m))\<rparr>"
  using wellformed_fields(1) [OF assms]
  by (simp add: resume_message_json_def omitempty_def raw_fields_def zero_raw_def into_evaluation
      in_s64_def min_int64_def max_int64_def)

lemma text_of_omitted: "(case (if s = '''' then None else Some s) of None \<Rightarrow> '''' | Some t \<Rightarrow> t) = s"
  by simp

lemma DecodeResumeMessage_print:
  assumes "wellformed m"
  shows "DecodeResumeMessage (bytes_of_string (json_print (resume_message_json m))) = Inr m"
proof -
  have "json_depth (resume_message_json m) \<le> 1"
    by (simp add: resume_message_json_def omitempty_def jint_def)
  then have parse: "json_parse (json_print (resume_message_json m)) = Some (resume_message_json m)"
    by (intro json_parse_print json_ok_resume_message assms) (simp add: max_depth_def)
  have self: "\<lparr>rmsg_Type = rmsg_Type m, rmsg_Version = rmsg_Version m, rmsg_Role = rmsg_Role m,
      rmsg_Nonce = rmsg_Nonce m, rmsg_Proof = rmsg_Proof m\<rparr> = m" by (cases m) simp
  show ?thesis
    using resume_message_size [OF assms] assms
    by (simp add: DecodeResumeMessage_def unmarshalStrict_print [OF parse] resume_message_into
        MaxResumeAuthMessageBytes_def wellformed_def text_of_omitted self Let_def split del: if_split)
qed

lemma EncodeResumeMessage_ok:
  "wellformed m \<Longrightarrow> EncodeResumeMessage (Some m) = Inr (bytes_of_string (json_print (resume_message_json m)))"
  by (simp add: EncodeResumeMessage_def wellformed_def)

interpretation resume_codec: codec "\<lambda>m. bytes_of_string (json_print (resume_message_json m))" DecodeResumeMessage wellformed
  by unfold_locales (rule DecodeResumeMessage_print)

lemma Decode_wellformed: "DecodeResumeMessage payload = Inr m \<Longrightarrow> wellformed m"
  by (auto simp: DecodeResumeMessage_def wellformed_def Let_def split: if_splits option.splits)

lemma mustEncode_wellformed:
  "wellformed m \<Longrightarrow> \<exists>enc. mustEncodeMessage m = Some enc \<and> DecodeResumeMessage enc = Inr m \<and> EncodeResumeMessage (Some m) = Inr enc"
  by (simp add: mustEncodeMessage_def EncodeResumeMessage_ok DecodeResumeMessage_print)

section \<open>The four messages\<close>

abbreviation init_msg :: "bytes \<Rightarrow> ResumeMessage" where
  "init_msg n \<equiv> \<lparr>rmsg_Type = ResumeMsgInit, rmsg_Version = ResumeAuthVersion, rmsg_Role = RoleOfferer,
     rmsg_Nonce = b64enc n, rmsg_Proof = ''''\<rparr>"

abbreviation challenge_msg :: "bytes \<Rightarrow> bytes \<Rightarrow> ResumeMessage" where
  "challenge_msg n p \<equiv> \<lparr>rmsg_Type = ResumeMsgChallenge, rmsg_Version = ResumeAuthVersion, rmsg_Role = RoleJoiner,
     rmsg_Nonce = b64enc n, rmsg_Proof = b64enc p\<rparr>"

abbreviation confirm_msg :: "bytes \<Rightarrow> ResumeMessage" where
  "confirm_msg p \<equiv> \<lparr>rmsg_Type = ResumeMsgConfirm, rmsg_Version = ResumeAuthVersion, rmsg_Role = RoleOfferer,
     rmsg_Nonce = '''', rmsg_Proof = b64enc p\<rparr>"

abbreviation ready_msg :: "bytes \<Rightarrow> ResumeMessage" where
  "ready_msg p \<equiv> \<lparr>rmsg_Type = ResumeMsgReady, rmsg_Version = ResumeAuthVersion, rmsg_Role = RoleJoiner,
     rmsg_Nonce = '''', rmsg_Proof = b64enc p\<rparr>"

lemma wellformed_msgs [simp]:
  "length n = 32 \<Longrightarrow> wellformed (init_msg n)"
  "length n = 32 \<Longrightarrow> length p = 32 \<Longrightarrow> wellformed (challenge_msg n p)"
  "length p = 32 \<Longrightarrow> wellformed (confirm_msg p)"
  "length p = 32 \<Longrightarrow> wellformed (ready_msg p)"
  by (simp_all add: wellformed_def validateResumeMessage_def Let_def validB64Len_encode resume_lengths resume_names)

lemma wellformed_nonce_proof:
  assumes "wellformed m"
  shows "rmsg_Type m = ResumeMsgInit \<or> rmsg_Type m = ResumeMsgChallenge \<Longrightarrow>
      b64_decode (rmsg_Nonce m) = Some (b64_bytes (rmsg_Nonce m)) \<and> length (b64_bytes (rmsg_Nonce m)) = 32"
    and "rmsg_Type m \<noteq> ResumeMsgInit \<Longrightarrow> length (b64_bytes (rmsg_Proof m)) = 32"
  using assms validB64Len_bytes [of "rmsg_Nonce m" 32] validB64Len_bytes [of "rmsg_Proof m" 32]
  by (auto simp: wellformed_def validateResumeMessage_def Let_def resume_lengths resume_names split: if_splits)

section \<open>The session invariant\<close>

definition context_ok :: "ResumeAuthContext \<Rightarrow> bool" where
  "context_ok ctx \<longleftrightarrow> rc_Version ctx = ResumeAuthVersion \<and> isLowerHex (rc_TransferID ctx) 32
     \<and> isLowerHex (rc_ManifestFingerprint ctx) 64 \<and> rc_Role ctx \<in> {RoleOfferer, RoleJoiner}
     \<and> length (rc_ResumeSecret ctx) = 32"

definition context_transcript :: "ResumeAuthContext \<Rightarrow> bytes \<Rightarrow> bytes \<Rightarrow> (err, bytes) result" where
  "context_transcript ctx on jn = ResumeTranscript (rc_Version ctx) (rc_TransferID ctx) (rc_ManifestFingerprint ctx) on jn"

abbreviation session_secret :: "ResumeAuthSession \<Rightarrow> bytes" where
  "session_secret s \<equiv> rc_ResumeSecret (ra_ctx s)"

text \<open>What an accepted step records: the message that was accepted, the proof it carried and the
  answer that was given.\<close>

definition challenge_accepted :: "ResumeAuthSession \<Rightarrow> acceptedStep \<Rightarrow> bool" where
  "challenge_accepted s st \<longleftrightarrow> (\<exists>m p. DecodeResumeMessage (as_accepted st) = Inr m \<and> rmsg_Type m = ResumeMsgChallenge
     \<and> b64_bytes (rmsg_Nonce m) = ra_joinerNonce s
     \<and> context_transcript (ra_ctx s) (ra_offererNonce s) (ra_joinerNonce s) = Inr (ra_transcript s)
     \<and> ResumeJoinerProof (session_secret s) (ra_transcript s) = Inr (b64_bytes (rmsg_Proof m))
     \<and> ResumeOffererProof (session_secret s) (ra_transcript s) = Inr p
     \<and> as_responded st = mustEncodeMessage (confirm_msg p))"

definition ready_accepted :: "ResumeAuthSession \<Rightarrow> acceptedStep \<Rightarrow> bool" where
  "ready_accepted s st \<longleftrightarrow> (\<exists>m. DecodeResumeMessage (as_accepted st) = Inr m \<and> rmsg_Type m = ResumeMsgReady
     \<and> ResumeReadyProof (session_secret s) (ra_transcript s) = Inr (b64_bytes (rmsg_Proof m))
     \<and> as_responded st = None)"

definition init_accepted :: "ResumeAuthSession \<Rightarrow> acceptedStep \<Rightarrow> bool" where
  "init_accepted s st \<longleftrightarrow> (\<exists>m p. DecodeResumeMessage (as_accepted st) = Inr m \<and> rmsg_Type m = ResumeMsgInit
     \<and> b64_bytes (rmsg_Nonce m) = ra_offererNonce s
     \<and> context_transcript (ra_ctx s) (ra_offererNonce s) (ra_joinerNonce s) = Inr (ra_transcript s)
     \<and> ResumeJoinerProof (session_secret s) (ra_transcript s) = Inr p
     \<and> as_responded st = mustEncodeMessage (challenge_msg (ra_joinerNonce s) p))"

definition confirm_accepted :: "ResumeAuthSession \<Rightarrow> acceptedStep \<Rightarrow> bool" where
  "confirm_accepted s st \<longleftrightarrow> (\<exists>m p. DecodeResumeMessage (as_accepted st) = Inr m \<and> rmsg_Type m = ResumeMsgConfirm
     \<and> ResumeOffererProof (session_secret s) (ra_transcript s) = Inr (b64_bytes (rmsg_Proof m))
     \<and> ResumeReadyProof (session_secret s) (ra_transcript s) = Inr p
     \<and> as_responded st = mustEncodeMessage (ready_msg p))"

definition finished :: "ResumeAuthSession \<Rightarrow> bool" where
  "finished s \<longleftrightarrow> (\<exists>r. buildResult s = Inr r \<and> ra_result s = Some r)"

definition offerer_ok :: "ResumeAuthSession \<Rightarrow> bool" where
  "offerer_ok s \<longleftrightarrow> (case ra_state s of
     resumeStateIdle \<Rightarrow> ra_steps s = [] \<and> ra_result s = None
   | resumeStateAwaitChallenge \<Rightarrow> ra_steps s = [] \<and> ra_result s = None \<and> length (ra_offererNonce s) = 32
   | resumeStateAwaitReady \<Rightarrow> (\<exists>c. ra_steps s = [c] \<and> challenge_accepted s c) \<and> ra_result s = None
   | resumeStateAwaitConfirm \<Rightarrow> False
   | resumeStateDone \<Rightarrow> (\<exists>c r. ra_steps s = [c, r] \<and> challenge_accepted s c \<and> ready_accepted s r) \<and> finished s
   | resumeStateFailed \<Rightarrow> True)"

definition joiner_ok :: "ResumeAuthSession \<Rightarrow> bool" where
  "joiner_ok s \<longleftrightarrow> (case ra_state s of
     resumeStateIdle \<Rightarrow> ra_steps s = [] \<and> ra_result s = None
   | resumeStateAwaitChallenge \<Rightarrow> False
   | resumeStateAwaitReady \<Rightarrow> False
   | resumeStateAwaitConfirm \<Rightarrow> (\<exists>i. ra_steps s = [i] \<and> init_accepted s i) \<and> ra_result s = None
   | resumeStateDone \<Rightarrow> (\<exists>i c. ra_steps s = [i, c] \<and> init_accepted s i \<and> confirm_accepted s c) \<and> finished s
   | resumeStateFailed \<Rightarrow> True)"

definition session_ok :: "ResumeAuthSession \<Rightarrow> bool" where
  "session_ok s \<longleftrightarrow> context_ok (ra_ctx s) \<and> (ra_settledErr s = None \<longleftrightarrow> ra_state s \<noteq> resumeStateFailed)
     \<and> (if rc_Role (ra_ctx s) = RoleOfferer then offerer_ok s else joiner_ok s)"

lemma session_ok_failed [simp]: "context_ok (ra_ctx s) \<Longrightarrow> session_ok (failLocked e s)"
  by (simp add: session_ok_def failLocked_def offerer_ok_def joiner_ok_def split: option.splits)

lemma failLocked_fields [simp]:
  "ra_ctx (failLocked e s) = ra_ctx s" "ra_state (failLocked e s) = resumeStateFailed"
  "ra_settledErr s = None \<Longrightarrow> ra_settledErr (failLocked e s) = Some e"
  by (simp_all add: failLocked_def)

lemma buildResult_total:
  assumes "context_ok (ra_ctx s)"
  shows "\<exists>r. buildResult s = Inr r"
proof -
  obtain master keys where "ResumeSessionMaster (session_secret s) (ra_transcript s) = Inr master"
    "DeriveTransferKeys master = Inr keys"
    using ResumeSessionMaster_total DeriveTransferKeys_total assms unfolding context_ok_def by metis
  then show ?thesis by (simp add: buildResult_def)
qed

lemma buildResult_cong:
  "ra_ctx s = ra_ctx s' \<Longrightarrow> ra_transcript s = ra_transcript s' \<Longrightarrow> buildResult s = buildResult s'"
  by (simp add: buildResult_def split: sum.split)

lemma accepted_update [simp]:
  "challenge_accepted (s\<lparr>ra_steps := x, ra_state := y\<rparr>) c = challenge_accepted s c"
  "challenge_accepted (s\<lparr>ra_result := z\<rparr>) c = challenge_accepted s c"
  "ready_accepted (s\<lparr>ra_steps := x, ra_state := y\<rparr>) c = ready_accepted s c"
  "ready_accepted (s\<lparr>ra_result := z\<rparr>) c = ready_accepted s c"
  "init_accepted (s\<lparr>ra_steps := x, ra_state := y\<rparr>) c = init_accepted s c"
  "init_accepted (s\<lparr>ra_result := z\<rparr>) c = init_accepted s c"
  "confirm_accepted (s\<lparr>ra_steps := x, ra_state := y\<rparr>) c = confirm_accepted s c"
  "confirm_accepted (s\<lparr>ra_result := z\<rparr>) c = confirm_accepted s c"
  by (simp_all add: challenge_accepted_def ready_accepted_def init_accepted_def confirm_accepted_def)

section \<open>Every call keeps the invariant\<close>

text \<open>The outcome of a call: either a terminal failure, or the recorded answer to an accepted message
  together with the result the session has so far.\<close>

definition answered :: "bytes \<Rightarrow> ResumeAuthSession \<Rightarrow> ResumeMessage option \<Rightarrow> bool" where
  "answered payload s out \<longleftrightarrow> (\<exists>m. DecodeResumeMessage payload = Inr m)
     \<and> (\<exists>st. findStep payload s = Some st \<and> (case as_responded st of None \<Rightarrow> out = None
          | Some r \<Rightarrow> \<exists>m. out = Some m \<and> DecodeResumeMessage r = Inr m))"

fun outcome_ok :: "bytes \<Rightarrow> ResumeAuthSession \<Rightarrow> handled \<Rightarrow> bool" where
  "outcome_ok payload s (out, res, None) \<longleftrightarrow> ra_state s \<noteq> resumeStateFailed \<and> res = ra_result s \<and> answered payload s out"
| "outcome_ok payload s (out, res, Some e) \<longleftrightarrow> out = None \<and> res = None \<and> ra_state s = resumeStateFailed \<and> ra_settledErr s = Some e"

definition handles :: "bytes \<Rightarrow> ResumeAuthSession \<Rightarrow> (handled \<times> ResumeAuthSession) option \<Rightarrow> bool" where
  "handles payload s r \<longleftrightarrow> (\<exists>h s'. r = Some (h, s') \<and> session_ok s' \<and> ra_ctx s' = ra_ctx s \<and> outcome_ok payload s' h)"

lemma handles_failed:
  assumes "context_ok (ra_ctx s)" and "ra_ctx s1 = ra_ctx s" and "ra_settledErr s1 = None"
  shows "handles payload s (return_failed e s1)" and "handles payload s (settle_failed e s1)"
  using assms by (simp_all add: handles_def return_failed_def settle_failed_def)

lemma find_append: "find P (xs @ ys) = (case find P xs of None \<Rightarrow> find P ys | Some x \<Rightarrow> Some x)"
  by (induction xs) auto

lemma answered_snoc:
  assumes "DecodeResumeMessage payload = Inr m" and "findStep payload s = None"
    and "ra_steps s' = ra_steps s @ [\<lparr>as_accepted = payload, as_responded = r\<rparr>]"
    and "case r of None \<Rightarrow> out = None | Some enc \<Rightarrow> \<exists>m. out = Some m \<and> DecodeResumeMessage enc = Inr m"
  shows "answered payload s' out"
  using assms by (simp add: answered_def findStep_def find_append)

lemma handles_ok:
  assumes "r = Some ((out, ra_result s', None), s')" and "session_ok s'" and "ra_ctx s' = ra_ctx s"
    and "ra_state s' \<noteq> resumeStateFailed" and "answered payload s' out"
  shows "handles payload s r"
  using assms by (simp add: handles_def)

lemma context_okD:
  assumes "context_ok ctx"
  shows "length (rc_ResumeSecret ctx) = 32"
    and "length on = 32 \<Longrightarrow> length jn = 32 \<Longrightarrow> \<exists>t. context_transcript ctx on jn = Inr t"
  using assms by (auto simp: context_ok_def context_transcript_def intro: transcript_total)

lemma handles_finish:
  assumes "context_ok (ra_ctx s)" and "ra_ctx s1 = ra_ctx s" and "ra_settledErr s1 = None"
    and "\<And>r. buildResult s1 = Inr r \<Longrightarrow> session_ok (s1\<lparr>ra_result := Some r\<rparr>)"
    and "ra_state s1 = resumeStateDone" and "\<And>r. answered payload (s1\<lparr>ra_result := Some r\<rparr>) out"
  shows "handles payload s (finish_resume out s1)"
proof -
  obtain r where r: "buildResult s1 = Inr r" using buildResult_total [of s1] assms(1,2) by auto
  show ?thesis
    by (rule handles_ok [where s' = "s1\<lparr>ra_result := Some r\<rparr>" and out = out])
      (use r assms in \<open>simp_all add: finish_resume_def\<close>)
qed

lemma answered_result [simp]: "answered payload (s\<lparr>ra_result := r\<rparr>) out = answered payload s out"
  by (simp add: answered_def findStep_def)

lemma finished_result: "buildResult s = Inr r \<Longrightarrow> finished (s\<lparr>ra_result := Some r\<rparr>)"
  using buildResult_cong [of "s\<lparr>ra_result := Some r\<rparr>" s] by (simp add: finished_def)

lemma handles_challenge:
  assumes "session_ok s" and "rc_Role (ra_ctx s) = RoleOfferer" and "ra_state s = resumeStateAwaitChallenge"
    and "DecodeResumeMessage payload = Inr m" and "rmsg_Type m = ResumeMsgChallenge" and "findStep payload s = None"
  shows "handles payload s (acceptChallenge m payload s)"
proof -
  have ctx: "context_ok (ra_ctx s)" and err: "ra_settledErr s = None" and s: "ra_steps s = []" "ra_result s = None" "length (ra_offererNonce s) = 32"
    using assms(1-3) by (auto simp: session_ok_def offerer_ok_def)
  let ?jn = "b64_bytes (rmsg_Nonce m)"
  have n: "b64_decode (rmsg_Nonce m) = Some ?jn" "length ?jn = 32"
    using wellformed_nonce_proof(1) [OF Decode_wellformed [OF assms(4)]] assms(5) by simp_all
  obtain t where t: "context_transcript (ra_ctx s) (ra_offererNonce s) ?jn = Inr t" using context_okD(2) [OF ctx s(3) n(2)] by blast
  note sec = context_okD(1) [OF ctx]
  obtain p where p: "ResumeOffererProof (session_secret s) t = Inr p" "length p = 32" using proofs_total(1) [OF sec] by blast
  obtain enc where enc: "mustEncodeMessage (confirm_msg p) = Some enc" "DecodeResumeMessage enc = Inr (confirm_msg p)"
    using mustEncode_wellformed [OF wellformed_msgs(3) [OF p(2)]] by blast
  let ?s = "s\<lparr>ra_joinerNonce := ?jn, ra_transcript := t\<rparr>"
  let ?s' = "?s\<lparr>ra_steps := ra_steps s @ [\<lparr>as_accepted = payload, as_responded = Some enc\<rparr>], ra_state := resumeStateAwaitReady\<rparr>"
  show ?thesis
  proof (cases "ResumeJoinerProof (session_secret s) t = Inr (b64_bytes (rmsg_Proof m))")
    case True
    have "challenge_accepted ?s' \<lparr>as_accepted = payload, as_responded = Some enc\<rparr>"
      using True assms(4,5) t p enc by (simp add: challenge_accepted_def)
    then have "session_ok ?s'" using ctx err s assms(2) by (simp add: session_ok_def offerer_ok_def)
    moreover have "answered payload ?s' (Some (confirm_msg p))"
      using answered_snoc [OF assms(4,6), of ?s' "Some enc"] enc(2) by simp
    ultimately show ?thesis
      using True n t p enc s(2) unfolding context_transcript_def
      by (intro handles_ok [where s' = ?s' and out = "Some (confirm_msg p)"])
        (simp_all add: acceptChallenge_def verify_iff [OF sec])
  next
    case False
    then show ?thesis
      using n t handles_failed(2) [OF ctx, of ?s] err unfolding context_transcript_def
      by (simp add: acceptChallenge_def verify_iff [OF sec])
  qed
qed

lemma handles_offerer:
  assumes "session_ok s" and "rc_Role (ra_ctx s) = RoleOfferer" and "ra_state s \<noteq> resumeStateFailed"
    and "DecodeResumeMessage payload = Inr m" and "findStep payload s = None"
  shows "handles payload s (handleOfferer m payload s)"
proof -
  have ctx: "context_ok (ra_ctx s)" and err: "ra_settledErr s = None" using assms(1,3) by (auto simp: session_ok_def)
  note fail = handles_failed(2) [OF ctx refl err]
  let ?st = "\<lparr>as_accepted = payload, as_responded = None\<rparr>"
  let ?s = "s\<lparr>ra_steps := ra_steps s @ [?st], ra_state := resumeStateDone\<rparr>"
  have "handles payload s (finish_resume None ?s)"
    if r: "rmsg_Type m = ResumeMsgReady" "ra_state s = resumeStateAwaitReady"
      "ResumeReadyProof (session_secret s) (ra_transcript s) = Inr (b64_bytes (rmsg_Proof m))"
  proof -
    obtain c where c: "ra_steps s = [c]" "challenge_accepted s c"
      using assms(1,2) r(2) by (auto simp: session_ok_def offerer_ok_def)
    have "ready_accepted s ?st" using r assms(4) by (simp add: ready_accepted_def)
    then have "session_ok (?s\<lparr>ra_result := Some x\<rparr>)" if "buildResult ?s = Inr x" for x
      using ctx err c assms(2) finished_result [OF that] by (simp add: session_ok_def offerer_ok_def)
    moreover have "answered payload ?s None" using answered_snoc [OF assms(4,5), of ?s None None] by simp
    ultimately show ?thesis by (intro handles_finish) (simp_all add: ctx err)
  qed
  then show ?thesis
    using fail handles_challenge [OF assms(1,2) _ assms(4) _ assms(5)]
    by (simp add: handleOfferer_def verify_iff [OF context_okD(1) [OF ctx]])
qed

lemma randomNonce_length: "randomNonce rnd s = Inr n \<Longrightarrow> length n = 32"
  by (auto simp: randomNonce_def resume_lengths split: option.splits sum.splits if_splits)

lemma handles_init:
  assumes "session_ok s" and "rc_Role (ra_ctx s) \<noteq> RoleOfferer" and "ra_state s = resumeStateIdle"
    and "DecodeResumeMessage payload = Inr m" and "rmsg_Type m = ResumeMsgInit" and "findStep payload s = None"
  shows "handles payload s (acceptInit rnd m payload s)"
proof -
  have ctx: "context_ok (ra_ctx s)" and err: "ra_settledErr s = None" and s: "ra_steps s = []" "ra_result s = None"
    using assms(1-3) by (auto simp: session_ok_def joiner_ok_def)
  let ?on = "b64_bytes (rmsg_Nonce m)"
  have n: "b64_decode (rmsg_Nonce m) = Some ?on" "length ?on = 32"
    using wellformed_nonce_proof(1) [OF Decode_wellformed [OF assms(4)]] assms(5) by simp_all
  let ?s1 = "s\<lparr>ra_offererNonce := ?on\<rparr>"
  show ?thesis
  proof (cases "randomNonce rnd ?s1")
    case (Inl e)
    then show ?thesis using n handles_failed(1) [OF ctx, of ?s1] err by (simp add: acceptInit_def)
  next
    case (Inr jn)
    note jn = randomNonce_length [OF Inr]
    obtain t where t: "context_transcript (ra_ctx s) ?on jn = Inr t" using context_okD(2) [OF ctx n(2) jn] by blast
    obtain p where p: "ResumeJoinerProof (session_secret s) t = Inr p" "length p = 32"
      using proofs_total(2) [OF context_okD(1) [OF ctx]] by blast
    obtain enc where enc: "mustEncodeMessage (challenge_msg jn p) = Some enc" "DecodeResumeMessage enc = Inr (challenge_msg jn p)"
      using mustEncode_wellformed [OF wellformed_msgs(2) [OF jn p(2)]] by blast
    let ?s' = "s\<lparr>ra_offererNonce := ?on, ra_joinerNonce := jn, ra_transcript := t,
      ra_steps := ra_steps s @ [\<lparr>as_accepted = payload, as_responded = Some enc\<rparr>], ra_state := resumeStateAwaitConfirm\<rparr>"
    have "init_accepted ?s' \<lparr>as_accepted = payload, as_responded = Some enc\<rparr>"
      using assms(4,5) t p enc by (simp add: init_accepted_def)
    then have "session_ok ?s'" using ctx err s assms(2) by (simp add: session_ok_def joiner_ok_def)
    moreover have "answered payload ?s' (Some (challenge_msg jn p))"
      using answered_snoc [OF assms(4,6), of ?s' "Some enc"] enc(2) by simp
    ultimately show ?thesis
      using Inr n t p enc s(2) unfolding context_transcript_def
      by (intro handles_ok [where s' = ?s' and out = "Some (challenge_msg jn p)"]) (simp_all add: acceptInit_def)
  qed
qed

lemma handles_joiner:
  assumes "session_ok s" and "rc_Role (ra_ctx s) \<noteq> RoleOfferer" and "ra_state s \<noteq> resumeStateFailed"
    and "DecodeResumeMessage payload = Inr m" and "findStep payload s = None"
  shows "handles payload s (handleJoiner rnd m payload s)"
proof -
  have ctx: "context_ok (ra_ctx s)" and err: "ra_settledErr s = None" using assms(1,3) by (auto simp: session_ok_def)
  obtain p where p: "ResumeReadyProof (session_secret s) (ra_transcript s) = Inr p" "length p = 32"
    using proofs_total(3) [OF context_okD(1) [OF ctx]] by blast
  obtain enc where enc: "mustEncodeMessage (ready_msg p) = Some enc" "DecodeResumeMessage enc = Inr (ready_msg p)"
    using mustEncode_wellformed [OF wellformed_msgs(4) [OF p(2)]] by blast
  let ?st = "\<lparr>as_accepted = payload, as_responded = Some enc\<rparr>"
  let ?s = "s\<lparr>ra_steps := ra_steps s @ [?st], ra_state := resumeStateDone\<rparr>"
  have "handles payload s (finish_resume (Some (ready_msg p)) ?s)"
    if c: "rmsg_Type m = ResumeMsgConfirm" "ra_state s = resumeStateAwaitConfirm"
      "ResumeOffererProof (session_secret s) (ra_transcript s) = Inr (b64_bytes (rmsg_Proof m))"
  proof -
    obtain i where i: "ra_steps s = [i]" "init_accepted s i"
      using assms(1,2) c(2) by (auto simp: session_ok_def joiner_ok_def)
    have "confirm_accepted s ?st" using c assms(4) p enc by (simp add: confirm_accepted_def)
    then have "session_ok (?s\<lparr>ra_result := Some x\<rparr>)" if "buildResult ?s = Inr x" for x
      using ctx err i assms(2) finished_result [OF that] by (simp add: session_ok_def joiner_ok_def)
    moreover have "answered payload ?s (Some (ready_msg p))"
      using answered_snoc [OF assms(4,5), of ?s "Some enc"] enc(2) by simp
    ultimately show ?thesis by (intro handles_finish) (simp_all add: ctx err)
  qed
  then show ?thesis
    using handles_failed(2) [OF ctx refl err] handles_init [OF assms(1,2) _ assms(4) _ assms(5)] p enc
    by (simp add: handleJoiner_def verify_iff [OF context_okD(1) [OF ctx]])
qed

text \<open>The snapshots of a session that has not failed decode to what was answered.\<close>

lemma snapshot_decodes:
  assumes "session_ok s" and "ra_state s \<noteq> resumeStateFailed" and "st \<in> set (ra_steps s)" and "as_responded st = Some r"
  shows "\<exists>m. DecodeResumeMessage r = Inr m"
proof -
  have "mustEncodeMessage m = Some r \<Longrightarrow> \<exists>m. DecodeResumeMessage r = Inr m" for m
    using DecodeResumeMessage_print [of m]
    by (auto simp: mustEncodeMessage_def EncodeResumeMessage_def wellformed_def split: option.splits)
  moreover have "challenge_accepted s st \<or> ready_accepted s st \<or> init_accepted s st \<or> confirm_accepted s st"
    using assms by (auto simp: session_ok_def offerer_ok_def joiner_ok_def split: if_splits resumeAuthState.splits)
  ultimately show ?thesis
    using assms(4) by (auto simp: challenge_accepted_def ready_accepted_def init_accepted_def confirm_accepted_def)
qed

lemma Session_Handle_ok:
  assumes "session_ok s"
  shows "handles payload s (Session_Handle rnd payload s)"
proof (cases "ra_state s = resumeStateFailed")
  case True
  with assms show ?thesis by (auto simp: handles_def Session_Handle_def session_ok_def)
next
  case False
  have ctx: "context_ok (ra_ctx s)" and err: "ra_settledErr s = None" using assms False by (auto simp: session_ok_def)
  show ?thesis
  proof (cases "DecodeResumeMessage payload")
    case (Inl e)
    with False handles_failed(1) [OF ctx refl err] show ?thesis by (simp add: Session_Handle_def)
  next
    case (Inr m)
    show ?thesis
    proof (cases "findStep payload s")
      case None
      with False Inr handles_offerer [OF assms _ False Inr None] handles_joiner [OF assms _ False Inr None]
      show ?thesis by (simp add: Session_Handle_def)
    next
      case (Some st)
      then have "st \<in> set (ra_steps s)" by (metis find_Some_iff findStep_def nth_mem)
      from snapshot_decodes [OF assms False this] False Inr Some assms show ?thesis
        by (cases "as_responded st") (auto simp: Session_Handle_def handles_def answered_def)
    qed
  qed
qed

end
