(* ===== verification/Spake2.thy ===== *)
theory Spake2
  imports ResumeSpec
begin

text \<open>
  The SPAKE2 exchange (\<^verbatim>\<open>packages/wire/spake2.go\<close>).  The point arithmetic is \<^verbatim>\<open>filippo.io/nistec\<close>, which is not
  part of the sources: it is the record \<open>nistec\<close> of the operations the code calls, and \<open>nistec_laws\<close> states what its
  documentation promises.  Scalars are Go's unbounded \<^verbatim>\<open>big.Int\<close>.
\<close>

section \<open>The curve operations\<close>

record 'p nistec =
  ni_NewPoint :: 'p
  ni_SetBytes :: "bytes \<Rightarrow> (err, 'p) result"
  ni_ScalarMult :: "'p \<Rightarrow> bytes \<Rightarrow> (err, 'p) result"
  ni_ScalarBaseMult :: "bytes \<Rightarrow> (err, 'p) result"
  ni_Add :: "'p \<Rightarrow> 'p \<Rightarrow> 'p"
  ni_Bytes :: "'p \<Rightarrow> bytes"

definition p256Order :: int where
  "p256Order = 115792089210356248762697446949407573529996955224135760342422259061068512044369"

section \<open>Seed points and scalars (spake2.go)\<close>

definition mustPoint :: "'p nistec \<Rightarrow> string \<Rightarrow> 'p option" where
  "mustPoint c uncompressedHex =
     (case hex_decode uncompressedHex of None \<Rightarrow> None
      | Some b \<Rightarrow> (case ni_SetBytes c b of Inl _ \<Rightarrow> None | Inr p \<Rightarrow> Some p))"

text \<open>The package variables; initialisation panics (\<open>None\<close>) when a seed point does not decode.\<close>

record 'p wire_package =
  wp_curve :: "'p nistec"
  seedM :: 'p
  seedN :: 'p

definition seedM_hex :: string where
  "seedM_hex = ''04886e2f97ace46e55ba9dd7242579f2993b64e16ef3dcab95afd497333d8fa12f5ff355163e43ce224e0b0e65ff02ac8e5c7be09419c785e0ca547d55a12e2d20''"

definition seedN_hex :: string where
  "seedN_hex = ''04d8bbd6c639c62937b04d997f38c3770719c629d7014d49a24b4f98baa1292b4907d60aa6bfade45008a636337f5168c64d9bd36034808cd564490b1e656edbe7''"

definition wire_init :: "'p nistec \<Rightarrow> 'p wire_package option" where
  "wire_init c = (case (mustPoint c seedM_hex, mustPoint c seedN_hex) of
     (Some m, Some n) \<Rightarrow> Some \<lparr>wp_curve = c, seedM = m, seedN = n\<rparr> | _ \<Rightarrow> None)"

definition seedFor :: "'p wire_package \<Rightarrow> string \<Rightarrow> 'p" where
  "seedFor p role = (if role = RoleOfferer then seedM p else seedN p)"

definition peerSeedFor :: "'p wire_package \<Rightarrow> string \<Rightarrow> 'p" where
  "peerSeedFor p role = (if role = RoleOfferer then seedN p else seedM p)"

definition IdentityOfferer :: string where "IdentityOfferer = ProtocolVersion @ '' offerer''"
definition IdentityJoiner :: string where "IdentityJoiner = ProtocolVersion @ '' joiner''"

record Identities =
  ids_Offerer :: bytes
  ids_Joiner :: bytes

definition DefaultIdentities :: Identities where
  "DefaultIdentities = \<lparr>ids_Offerer = bytes_of_string IdentityOfferer, ids_Joiner = bytes_of_string IdentityJoiner\<rparr>"

definition reduce :: "int \<Rightarrow> int" where "reduce v = v mod p256Order"

definition scalarBytes :: "int \<Rightarrow> bytes" where
  "scalarBytes v = nat_be 32 (nat (reduce v))"

text \<open>Rejection sampling over the buffers \<^verbatim>\<open>rand.Read\<close> delivers; \<open>None\<close> while the loop still asks for more.\<close>

fun RandomScalar :: "(err, bytes) result list \<Rightarrow> (err, int) result option" where
  "RandomScalar [] = None"
| "RandomScalar (Inl e # _) = Some (Inl e)"
| "RandomScalar (Inr buf # reads) =
     (let v = reduce (int (be_nat buf)) in if v \<noteq> 0 then Some (Inr v) else RandomScalar reads)"

definition infoSpake2W :: string where "infoSpake2W = ProtocolVersion @ '' spake2 w''"
definition infoConfirmationKeys :: string where "infoConfirmationKeys = ''ConfirmationKeys''"
definition spake2WHKDFBytes :: nat where "spake2WHKDFBytes = 48"

definition PasswordToScalar :: "string \<Rightarrow> (err, int) result" where
  "PasswordToScalar normalizedCode =
     (case hkdfSHA256 (bytes_of_string normalizedCode) [] (bytes_of_string infoSpake2W) spake2WHKDFBytes of
        Inl e \<Rightarrow> Inl e | Inr bits \<Rightarrow> Inr (reduce (int (be_nat bits))))"

section \<open>Shares and the shared secret\<close>

definition ComputeShare :: "'p wire_package \<Rightarrow> string \<Rightarrow> int \<Rightarrow> int \<Rightarrow> (err, bytes) result" where
  "ComputeShare p role w secret = (let c = wp_curve p in
     case ni_ScalarMult c (seedFor p role) (scalarBytes w) of Inl e \<Rightarrow> Inl e
     | Inr seedW \<Rightarrow>
       (case ni_ScalarBaseMult c (scalarBytes secret) of Inl e \<Rightarrow> Inl e
        | Inr gS \<Rightarrow> Inr (ni_Bytes c (ni_Add c seedW gS))))"

record Spake2Output =
  so_K :: bytes
  so_Transcript :: bytes
  so_Ke :: bytes
  so_Ka :: bytes
  so_KcA :: bytes
  so_KcB :: bytes
  so_ConfirmA :: bytes
  so_ConfirmB :: bytes

definition spake2_transcript :: "Identities \<Rightarrow> bytes \<Rightarrow> bytes \<Rightarrow> bytes \<Rightarrow> int \<Rightarrow> bytes" where
  "spake2_transcript ids pA pB kBytes w =
     withLengthPrefix (ids_Offerer ids) @ withLengthPrefix (ids_Joiner ids) @ withLengthPrefix pA @ withLengthPrefix pB
       @ withLengthPrefix kBytes @ withLengthPrefix (scalarBytes w)"

definition spake2_output :: "bytes \<Rightarrow> bytes \<Rightarrow> (err, Spake2Output) result" where
  "spake2_output kBytes transcript =
     (let hash = sha256 transcript; ke = take 16 hash; ka = take 16 (drop 16 hash) in
      case hkdfSHA256 ka [] (bytes_of_string infoConfirmationKeys) 32 of Inl e \<Rightarrow> Inl e
      | Inr kc \<Rightarrow> Inr \<lparr>so_K = kBytes, so_Transcript = transcript, so_Ke = ke, so_Ka = ka,
          so_KcA = take 16 kc, so_KcB = take 16 (drop 16 kc),
          so_ConfirmA = hmac_sha256 (take 16 kc) transcript, so_ConfirmB = hmac_sha256 (take 16 (drop 16 kc)) transcript\<rparr>)"

definition finish :: "'p wire_package \<Rightarrow> string \<Rightarrow> int \<Rightarrow> int \<Rightarrow> bytes \<Rightarrow> Identities \<Rightarrow> (err, Spake2Output) result" where
  "finish p role w secret peerShare ids = (let c = wp_curve p in
     case ni_SetBytes c peerShare of Inl e \<Rightarrow> Inl e
     | Inr peer \<Rightarrow>
       (let negW = reduce (p256Order - reduce w) in
        case ni_ScalarMult c (peerSeedFor p role) (scalarBytes negW) of Inl e \<Rightarrow> Inl e
        | Inr negWpeerSeed \<Rightarrow>
          (case ni_ScalarMult c (ni_Add c peer negWpeerSeed) (scalarBytes secret) of Inl e \<Rightarrow> Inl e
           | Inr k \<Rightarrow>
             (case ComputeShare p role w secret of Inl e \<Rightarrow> Inl e
              | Inr ownShare \<Rightarrow>
                (let (pA, pB) = (if role = RoleJoiner then (peerShare, ownShare) else (ownShare, peerShare)) in
                 spake2_output (ni_Bytes c k) (spake2_transcript ids pA pB (ni_Bytes c k) w))))))"

definition Finish :: "'p wire_package \<Rightarrow> string \<Rightarrow> int \<Rightarrow> int \<Rightarrow> bytes \<Rightarrow> (err, Spake2Output) result" where
  "Finish p role w secret peerShare = finish p role w secret peerShare DefaultIdentities"

section \<open>What the curve library promises\<close>

text \<open>Multiples of a point.\<close>

primrec smul :: "'p nistec \<Rightarrow> nat \<Rightarrow> 'p \<Rightarrow> 'p" where
  "smul c 0 P = ni_NewPoint c"
| "smul c (Suc k) P = ni_Add c P (smul c k P)"

text \<open>The points form a commutative group in which every element has an order that divides the group order, a new
  point is the neutral element, the two multiplications compute the multiple given by the 32 bytes of the scalar, and
  the encoding of a point has at most 65 bytes and decodes to it.\<close>

definition nistec_laws :: "'p nistec \<Rightarrow> bool" where
  "nistec_laws c \<longleftrightarrow>
     (\<forall>P Q R. ni_Add c (ni_Add c P Q) R = ni_Add c P (ni_Add c Q R))
   \<and> (\<forall>P Q. ni_Add c P Q = ni_Add c Q P)
   \<and> (\<forall>P. ni_Add c (ni_NewPoint c) P = P)
   \<and> (\<forall>P. smul c (nat p256Order) P = ni_NewPoint c)
   \<and> (\<forall>P s. length s = 32 \<longrightarrow> ni_ScalarMult c P s = Inr (smul c (be_nat s) P))
   \<and> (\<exists>G. \<forall>s. length s = 32 \<longrightarrow> ni_ScalarBaseMult c s = Inr (smul c (be_nat s) G))
   \<and> (\<forall>P. ni_SetBytes c (ni_Bytes c P) = Inr P)
   \<and> (\<forall>P. length (ni_Bytes c P) \<le> 65)
   \<and> (\<forall>b P. ni_SetBytes c b = Inr P \<longrightarrow> length b \<le> 65)"

lemma nistec_lawsD:
  assumes "nistec_laws c"
  shows "ni_Add c (ni_Add c P Q) R = ni_Add c P (ni_Add c Q R)" "ni_Add c P Q = ni_Add c Q P"
    "ni_Add c (ni_NewPoint c) P = P" "smul c (nat p256Order) P = ni_NewPoint c"
    "length s = 32 \<Longrightarrow> ni_ScalarMult c P s = Inr (smul c (be_nat s) P)"
    "ni_SetBytes c (ni_Bytes c P) = Inr P" "length (ni_Bytes c P) \<le> 65"
    "ni_SetBytes c b = Inr P \<Longrightarrow> length b \<le> 65"
  using assms unfolding nistec_laws_def by blast+

lemma nistec_base:
  assumes "nistec_laws c"
  obtains G where "\<And>s. length s = 32 \<Longrightarrow> ni_ScalarBaseMult c s = Inr (smul c (be_nat s) G)"
  using assms by (auto simp: nistec_laws_def)

lemma smul_add:
  assumes "nistec_laws c"
  shows "smul c (j + k) P = ni_Add c (smul c j P) (smul c k P)"
  by (induction j) (simp_all add: nistec_lawsD(1,3) [OF assms])

lemma smul_mult:
  assumes "nistec_laws c"
  shows "smul c (j * k) P = smul c j (smul c k P)"
  by (induction j) (simp_all add: smul_add [OF assms])

lemma smul_neutral:
  assumes "nistec_laws c"
  shows "smul c k (ni_NewPoint c) = ni_NewPoint c"
  by (induction k) (simp_all add: nistec_lawsD(3) [OF assms])

lemma p256Order_pos: "0 < p256Order" "nat p256Order < 256 ^ 32"
  by (simp_all add: p256Order_def)

lemma reduce_range: "0 \<le> reduce v" "reduce v < p256Order"
  using p256Order_pos by (simp_all add: reduce_def)

lemma reduce_reduce [simp]: "reduce (reduce v) = reduce v"
  by (simp add: reduce_def)

lemma be_nat_scalarBytes [simp]: "be_nat (scalarBytes v) = nat (reduce v)"
proof -
  have "nat (reduce v) < nat p256Order" using reduce_range [of v] by simp
  then have "nat (reduce v) < 256 ^ 32" using p256Order_pos(2) by (rule less_trans)
  then show ?thesis by (simp add: scalarBytes_def)
qed

lemma length_scalarBytes [simp]: "length (scalarBytes v) = 32"
  by (simp add: scalarBytes_def)

lemma scalarBytes_inject: "scalarBytes v = scalarBytes w \<longleftrightarrow> reduce v = reduce w"
  by (metis be_nat_scalarBytes int_nat_eq reduce_range(1) scalarBytes_def)

text \<open>Adding the multiple by \<open>n - w\<close> cancels the multiple by \<open>w\<close>.\<close>

lemma smul_cancel:
  assumes "nistec_laws c"
  shows "ni_Add c (smul c (nat (reduce w)) P) (smul c (nat (reduce (p256Order - reduce w))) P) = ni_NewPoint c"
proof -
  have "reduce w = 0 \<or> reduce (p256Order - reduce w) = p256Order - reduce w"
    using reduce_range [of w] mod_pos_pos_trivial [of "p256Order - reduce w" p256Order]
    unfolding reduce_def [of "p256Order - reduce w"] by linarith
  then have "nat (reduce w) + nat (reduce (p256Order - reduce w)) \<in> {0, nat p256Order}"
    using reduce_range [of w] p256Order_pos(1) by (auto simp: reduce_def [of p256Order] simp flip: nat_add_distrib)
  then show ?thesis using nistec_lawsD(4) [OF assms, of P] by (auto simp flip: smul_add [OF assms])
qed

section \<open>Agreement\<close>

lemma ComputeShare_eq:
  assumes "nistec_laws (wp_curve p)"
  obtains G where "\<And>role w x. ComputeShare p role w x =
    Inr (ni_Bytes (wp_curve p) (ni_Add (wp_curve p) (smul (wp_curve p) (nat (reduce w)) (seedFor p role))
      (smul (wp_curve p) (nat (reduce x)) G)))"
proof -
  obtain G where "\<And>s. length s = 32 \<Longrightarrow> ni_ScalarBaseMult (wp_curve p) s = Inr (smul (wp_curve p) (be_nat s) G)"
    using nistec_base [OF assms] by blast
  then show ?thesis using nistec_lawsD(5) [OF assms] by (intro that [of G]) (simp add: ComputeShare_def Let_def)
qed

lemma spake2_output_total: "\<exists>out. spake2_output k t = Inr out"
  using hkdfSHA256_total [of 32 "take 16 (drop 16 (sha256 t))" "[]" "bytes_of_string infoConfirmationKeys"]
  by (auto simp: spake2_output_def Let_def)

lemma spake2_output_fields:
  assumes "spake2_output k t = Inr out"
  shows "so_K out = k" and "so_Transcript out = t" and "so_ConfirmA out = hmac_sha256 (so_KcA out) t"
    and "so_ConfirmB out = hmac_sha256 (so_KcB out) t"
  using assms by (auto simp: spake2_output_def Let_def split: sum.splits)

text \<open>What \<^verbatim>\<open>finish\<close> computes, for any share that decodes.\<close>

definition spake2_shared :: "'p wire_package \<Rightarrow> string \<Rightarrow> int \<Rightarrow> int \<Rightarrow> 'p \<Rightarrow> 'p" where
  "spake2_shared p role w x peer = (let c = wp_curve p in
     smul c (nat (reduce x)) (ni_Add c peer (smul c (nat (reduce (p256Order - reduce w))) (peerSeedFor p role))))"

lemma Finish_total:
  assumes "nistec_laws (wp_curve p)" and "ni_SetBytes (wp_curve p) peerShare = Inr peer" and "ComputeShare p role w x = Inr own"
  shows "Finish p role w x peerShare = spake2_output (ni_Bytes (wp_curve p) (spake2_shared p role w x peer))
       (spake2_transcript DefaultIdentities (if role = RoleJoiner then peerShare else own)
         (if role = RoleJoiner then own else peerShare) (ni_Bytes (wp_curve p) (spake2_shared p role w x peer)) w)"
  using assms(2,3) nistec_lawsD(5) [OF assms(1)] by (auto simp: Finish_def finish_def Let_def spake2_shared_def)

lemma finish_Inr:
  assumes "nistec_laws (wp_curve p)" and "Finish p role w x peerShare = Inr out"
  obtains peer own where "ni_SetBytes (wp_curve p) peerShare = Inr peer" "ComputeShare p role w x = Inr own"
    "spake2_output (ni_Bytes (wp_curve p) (spake2_shared p role w x peer))
       (spake2_transcript DefaultIdentities (if role = RoleJoiner then peerShare else own)
         (if role = RoleJoiner then own else peerShare) (ni_Bytes (wp_curve p) (spake2_shared p role w x peer)) w) = Inr out"
proof -
  obtain peer where peer: "ni_SetBytes (wp_curve p) peerShare = Inr peer"
    using assms(2) by (auto simp: Finish_def finish_def Let_def split: sum.splits)
  obtain own where "ComputeShare p role w x = Inr own" using ComputeShare_eq [OF assms(1)] by metis
  from that [OF peer this] Finish_total [OF assms(1) peer this] assms(2) show ?thesis by simp
qed

text \<open>Subtracting the peer's seed leaves the product of the two secrets.\<close>

lemma spake2_shared_honest:
  assumes "nistec_laws c" and "c = wp_curve p" and "seedFor p role' = peerSeedFor p role"
  shows "spake2_shared p role w x (ni_Add c (smul c (nat (reduce w)) (seedFor p role')) (smul c (nat (reduce y)) G))
    = smul c (nat (reduce x) * nat (reduce y)) G"
proof -
  note l = nistec_lawsD [OF assms(1)]
  let ?W = "smul c (nat (reduce w)) (peerSeedFor p role)" and ?Y = "smul c (nat (reduce y)) G"
    and ?N = "smul c (nat (reduce (p256Order - reduce w))) (peerSeedFor p role)"
  have "ni_Add c (ni_Add c ?W ?Y) ?N = ni_Add c ?Y (ni_Add c ?W ?N)" using l(1,2) by metis
  also have "\<dots> = ?Y" using smul_cancel [OF assms(1)] l(2,3) by metis
  finally show ?thesis unfolding spake2_shared_def Let_def assms(2) [symmetric] assms(3) by (simp only: smul_mult [OF assms(1)])
qed

lemma roles [simp]: "RoleOfferer \<noteq> RoleJoiner" "RoleJoiner \<noteq> RoleOfferer"
  by (simp_all add: RoleOfferer_def RoleJoiner_def)

lemma spake2_honest:
  assumes "nistec_laws (wp_curve p)"
  shows "\<exists>pA pB out. ComputeShare p RoleOfferer w x = Inr pA \<and> ComputeShare p RoleJoiner w y = Inr pB
    \<and> Finish p RoleOfferer w x pB = Inr out \<and> Finish p RoleJoiner w y pA = Inr out"
proof -
  let ?c = "wp_curve p"
  obtain G where share: "\<And>role w x. ComputeShare p role w x =
    Inr (ni_Bytes ?c (ni_Add ?c (smul ?c (nat (reduce w)) (seedFor p role)) (smul ?c (nat (reduce x)) G)))"
    using ComputeShare_eq [OF assms] by blast
  have seeds: "seedFor p RoleJoiner = peerSeedFor p RoleOfferer" "seedFor p RoleOfferer = peerSeedFor p RoleJoiner"
    by (simp_all add: seedFor_def peerSeedFor_def)
  have comm: "nat (reduce x) * nat (reduce y) = nat (reduce y) * nat (reduce x)" by (rule mult.commute)
  note dec = nistec_lawsD(6) [OF assms]
  let ?k = "ni_Bytes ?c (smul ?c (nat (reduce x) * nat (reduce y)) G)"
  let ?pt = "\<lambda>role s. ni_Bytes ?c (ni_Add ?c (smul ?c (nat (reduce w)) (seedFor p role)) (smul ?c (nat (reduce s)) G))"
  obtain out where "spake2_output ?k (spake2_transcript DefaultIdentities (?pt RoleOfferer x) (?pt RoleJoiner y) ?k w) = Inr out"
    using spake2_output_total by blast
  then have "Finish p RoleOfferer w x (?pt RoleJoiner y) = Inr out" "Finish p RoleJoiner w y (?pt RoleOfferer x) = Inr out"
    using Finish_total [OF assms dec share] spake2_shared_honest [OF assms refl seeds(1)] spake2_shared_honest [OF assms refl seeds(2)]
    by (simp_all add: comm)
  with share show ?thesis by blast
qed

text \<open>SPAKE2 agreement.  Two peers with the same password scalar always obtain shares, and from each other's share
  both compute the same output: shared element, transcript, keys and both confirmation MACs, whatever their secrets.\<close>

theorem spake2_agreement:
  assumes "nistec_laws (wp_curve p)"
  shows "\<exists>pA pB out. ComputeShare p RoleOfferer w x = Inr pA \<and> ComputeShare p RoleJoiner w y = Inr pB
    \<and> Finish p RoleOfferer w x pB = Inr out \<and> Finish p RoleJoiner w y pA = Inr out"
  using assms by (rule spake2_honest)

section \<open>Key confirmation\<close>

lemma withLengthPrefix_inject:
  assumes "withLengthPrefix x @ r = withLengthPrefix y @ s" and "length x < 256 ^ 8" and "length y < 256 ^ 8"
  shows "x = y \<and> r = s"
proof -
  have eq: "lengthPrefixLE (length x) = lengthPrefixLE (length y)" "x @ r = y @ s"
    using assms(1) by (simp_all add: withLengthPrefix_def lengthPrefixLE_def)
  have "length x = length y" using eq(1) assms(2,3) nat_be_inject [of "length x" 8 "length y"]
    by (simp add: lengthPrefixLE_def nat_le_def)
  with eq(2) show ?thesis by simp
qed

lemma spake2_transcript_inject:
  assumes "spake2_transcript ids pA pB k w = spake2_transcript ids pA' pB' k' w'"
    and "list_all (\<lambda>b. length b \<le> 65) [pA, pB, k, pA', pB', k']"
  shows "pA = pA' \<and> pB = pB' \<and> k = k' \<and> reduce w = reduce w'"
proof -
  have small: "list_all (\<lambda>b. length b < 256 ^ 8) [pA, pB, k, pA', pB', k']"
    using assms(2) by simp
  from assms(1) have "withLengthPrefix pA @ withLengthPrefix pB @ withLengthPrefix k @ withLengthPrefix (scalarBytes w)
      = withLengthPrefix pA' @ withLengthPrefix pB' @ withLengthPrefix k' @ withLengthPrefix (scalarBytes w')"
    by (simp add: spake2_transcript_def)
  from withLengthPrefix_inject [OF this] small have a: "pA = pA'" and
    "withLengthPrefix pB @ withLengthPrefix k @ withLengthPrefix (scalarBytes w)
      = withLengthPrefix pB' @ withLengthPrefix k' @ withLengthPrefix (scalarBytes w')" by simp_all
  from withLengthPrefix_inject [OF this(2)] small have b: "pB = pB'" and
    "withLengthPrefix k @ withLengthPrefix (scalarBytes w) = withLengthPrefix k' @ withLengthPrefix (scalarBytes w')" by simp_all
  from withLengthPrefix_inject [OF this(2)] small have "k = k'" "scalarBytes w = scalarBytes w'"
    by (simp_all add: withLengthPrefix_def)
  with a b show ?thesis by (simp add: scalarBytes_inject)
qed

text \<open>C14: Key confirmation binds the whole exchange.  An offerer and a joiner each finish with whatever share reached
  them.  If the confirmation the offerer expects is the one the joiner sends (or the other way round), then both used
  the same password scalar, each received exactly the share the other computed, and their outputs are equal; or else
  their two different transcripts have the same MAC under the confirmation keys of this very exchange.\<close>

theorem spake2_confirmation_binds:
  assumes "nistec_laws (wp_curve p)"
    and "Finish p RoleOfferer w x gotB = Inr off" and "Finish p RoleJoiner v y gotA = Inr joi"
    and "so_ConfirmB off = so_ConfirmB joi \<or> so_ConfirmA joi = so_ConfirmA off"
  shows "reduce w = reduce v \<and> ComputeShare p RoleJoiner v y = Inr gotB \<and> ComputeShare p RoleOfferer w x = Inr gotA \<and> off = joi
    \<or> so_Transcript off \<noteq> so_Transcript joi
      \<and> (hmac_sha256 (so_KcB off) (so_Transcript off) = hmac_sha256 (so_KcB joi) (so_Transcript joi)
       \<or> hmac_sha256 (so_KcA off) (so_Transcript off) = hmac_sha256 (so_KcA joi) (so_Transcript joi))"
proof -
  let ?c = "wp_curve p"
  note l = nistec_lawsD [OF assms(1)]
  obtain peerB own where o: "ni_SetBytes ?c gotB = Inr peerB" "ComputeShare p RoleOfferer w x = Inr own"
    "spake2_output (ni_Bytes ?c (spake2_shared p RoleOfferer w x peerB))
       (spake2_transcript DefaultIdentities own gotB (ni_Bytes ?c (spake2_shared p RoleOfferer w x peerB)) w) = Inr off"
    by (rule finish_Inr [OF assms(1,2)]) (simp only: roles if_False)
  obtain peerA own' where j: "ni_SetBytes ?c gotA = Inr peerA" "ComputeShare p RoleJoiner v y = Inr own'"
    "spake2_output (ni_Bytes ?c (spake2_shared p RoleJoiner v y peerA))
       (spake2_transcript DefaultIdentities gotA own' (ni_Bytes ?c (spake2_shared p RoleJoiner v y peerA)) v) = Inr joi"
    by (rule finish_Inr [OF assms(1,3)]) (simp only: if_True simp_thms)
  note fo = spake2_output_fields [OF o(3)] and fj = spake2_output_fields [OF j(3)]
  show ?thesis
  proof (cases "so_Transcript off = so_Transcript joi")
    case False
    moreover have "hmac_sha256 (so_KcB off) (so_Transcript off) = hmac_sha256 (so_KcB joi) (so_Transcript joi)
        \<or> hmac_sha256 (so_KcA off) (so_Transcript off) = hmac_sha256 (so_KcA joi) (so_Transcript joi)"
      using assms(4) unfolding fo(3,4) fj(3,4) fo(2) fj(2) by argo
    ultimately show ?thesis by blast
  next
    case True
    have own: "length own \<le> 65" "length own' \<le> 65"
      using o(2) j(2) l(7) by (auto simp: ComputeShare_def Let_def split: sum.splits)
    have "own = gotA \<and> gotB = own' \<and> ni_Bytes ?c (spake2_shared p RoleOfferer w x peerB) = ni_Bytes ?c (spake2_shared p RoleJoiner v y peerA)
        \<and> reduce w = reduce v"
      using True fo(2) fj(2) own l(7) l(8) [OF o(1)] l(8) [OF j(1)] by (intro spake2_transcript_inject) simp_all
    moreover from this have "off = joi" using o(3) j(3) True fo(2) fj(2) by simp
    ultimately show ?thesis using o(2) j(2) by simp
  qed
qed

section \<open>The laws can hold\<close>

text \<open>The additive group of residues modulo the group order, with 65-byte encodings.\<close>

typedef residue = "{0..<p256Order}"
  by (rule exI [of _ 0]) (simp add: p256Order_pos)

setup_lifting type_definition_residue

lift_definition residue_of :: "int \<Rightarrow> residue" is reduce
  using reduce_range by simp

lift_definition residue_add :: "residue \<Rightarrow> residue \<Rightarrow> residue" is "\<lambda>a b. reduce (a + b)"
  using reduce_range by simp

lift_definition residue_mult :: "nat \<Rightarrow> residue \<Rightarrow> residue" is "\<lambda>k a. reduce (int k * a)"
  using reduce_range by simp

lift_definition residue_bytes :: "residue \<Rightarrow> bytes" is "\<lambda>a. 4 # nat_be 64 (nat a)" .

definition example_curve :: "residue nistec" where
  "example_curve = \<lparr>ni_NewPoint = residue_of 0,
     ni_SetBytes = (\<lambda>b. if length b = 65 \<and> hd b = 4 then Inr (residue_of (int (be_nat (tl b)))) else Inl (Plain ''invalid point'')),
     ni_ScalarMult = (\<lambda>P s. if length s = 32 then Inr (residue_mult (be_nat s) P) else Inl (Plain ''invalid scalar'')),
     ni_ScalarBaseMult = (\<lambda>s. if length s = 32 then Inr (residue_mult (be_nat s) (residue_of 1)) else Inl (Plain ''invalid scalar'')),
     ni_Add = residue_add, ni_Bytes = residue_bytes\<rparr>"

lemma reduce_add [simp]: "reduce (reduce a + b) = reduce (a + b)" "reduce (a + reduce b) = reduce (a + b)"
  by (simp_all add: reduce_def mod_simps)

lemma reduce_id: "a \<in> {0..<p256Order} \<Longrightarrow> reduce a = a"
  by (simp add: reduce_def)

lemma smul_example: "smul example_curve k P = residue_mult k P"
proof (induction k)
  case 0
  show ?case by (simp add: example_curve_def) (transfer, simp)
next
  case (Suc k)
  have "residue_add P (residue_mult k P) = residue_mult (Suc k) P" by transfer (simp add: algebra_simps)
  with Suc show ?case by (simp add: example_curve_def)
qed

lemma residue_bytes_decode: "be_nat (tl (residue_bytes P)) = nat (Rep_residue P)" "length (residue_bytes P) = 65" "hd (residue_bytes P) = 4"
proof -
  have "nat (Rep_residue P) < nat p256Order" using Rep_residue [of P] by simp
  then have "nat (Rep_residue P) < 256 ^ 32" using p256Order_pos(2) by (rule less_trans)
  then have "nat (Rep_residue P) < 256 ^ 64" by (rule less_trans) simp
  then show "be_nat (tl (residue_bytes P)) = nat (Rep_residue P)" by (simp add: residue_bytes.rep_eq)
qed (simp_all add: residue_bytes.rep_eq)

lemma residue_decode: "residue_of (int (be_nat (tl (residue_bytes P)))) = P"
  unfolding residue_bytes_decode(1) by transfer (simp add: reduce_id)

lemma example_curve_laws: "nistec_laws example_curve"
proof -
  have "residue_add (residue_add P Q) R = residue_add P (residue_add Q R)" "residue_add P Q = residue_add Q P"
    "residue_add (residue_of 0) P = P" "residue_mult (nat p256Order) P = residue_of 0" for P Q R
    by (transfer, simp add: algebra_simps reduce_id; simp add: reduce_def)+
  then show ?thesis unfolding nistec_laws_def smul_example
    by (auto simp: example_curve_def residue_bytes_decode(2,3) residue_decode)
qed

lemma wire_init_example: "\<exists>p. wire_init example_curve = Some p \<and> wp_curve p = example_curve"
proof -
  have dec: "\<exists>b. hex_decode seedM_hex = Some b \<and> length b = 65 \<and> hd b = 4" "\<exists>b. hex_decode seedN_hex = Some b \<and> length b = 65 \<and> hd b = 4"
    by (simp_all add: seedM_hex_def seedN_hex_def hex_val_def is_digit_def)
  then obtain b b' where b: "hex_decode seedM_hex = Some b" "length b = 65" "hd b = 4"
    "hex_decode seedN_hex = Some b'" "length b' = 65" "hd b' = 4" by blast
  then have "mustPoint example_curve seedM_hex \<noteq> None" "mustPoint example_curve seedN_hex \<noteq> None"
    by (simp_all add: mustPoint_def example_curve_def)
  then show ?thesis by (auto simp: wire_init_def)
qed

theorem spake2_agreement_witness:
  "\<exists>p pA pB out. wire_init example_curve = Some p \<and> ComputeShare p RoleOfferer 5 7 = Inr pA \<and> ComputeShare p RoleJoiner 5 11 = Inr pB
    \<and> Finish p RoleOfferer 5 7 pB = Inr out \<and> Finish p RoleJoiner 5 11 pA = Inr out"
proof -
  obtain p where p: "wire_init example_curve = Some p" "wp_curve p = example_curve" using wire_init_example by blast
  have "nistec_laws (wp_curve p)" using example_curve_laws by (simp only: p(2))
  from spake2_agreement [OF this, of 5 7 11] p(1) show ?thesis by blast
qed

theorem spake2_confirmation_binds_witness:
  "\<exists>p gotA gotB off joi. wire_init example_curve = Some p \<and> Finish p RoleOfferer 5 7 gotB = Inr off \<and> Finish p RoleJoiner 5 11 gotA = Inr joi
    \<and> so_ConfirmB off = so_ConfirmB joi \<and> (so_Transcript off = so_Transcript joi \<longrightarrow> ComputeShare p RoleJoiner 5 11 = Inr gotB)"
proof -
  obtain p where p: "wire_init example_curve = Some p" "wp_curve p = example_curve" using wire_init_example by blast
  have laws: "nistec_laws (wp_curve p)" using example_curve_laws by (simp only: p(2))
  obtain pA pB out where f: "Finish p RoleOfferer 5 7 pB = Inr out" "Finish p RoleJoiner 5 11 pA = Inr out"
    using spake2_honest [OF laws, of 5 7 11] by blast
  from spake2_confirmation_binds [OF laws f] have "ComputeShare p RoleJoiner 5 11 = Inr pB \<or> so_Transcript out \<noteq> so_Transcript out" by blast
  with f p(1) show ?thesis by blast
qed

end
