(* ===== verification/Words.thy ===== *)
theory Words
  imports Messages
begin

text \<open>
  Invite codes (\<^verbatim>\<open>packages/wire/words.go\<close>): the word list, normalisation of what a user typed, and the
  conversion between a code and its room number and words.  The bytes \<^verbatim>\<open>rand.Read\<close> delivers are an argument.
\<close>

definition defaultWordCount :: int where "defaultWordCount = 2"
definition wordlistSize :: nat where "wordlistSize = 256"
definition codeSeparator :: string where "codeSeparator = ''-''"

definition wordlist :: "string list" where
  "wordlist = [
     ''ant'', ''ape'', ''bat'', ''bear'', ''bee'', ''bird'', ''bison'', ''boar'',
     ''bug'', ''calf'', ''camel'', ''carp'', ''cat'', ''chick'', ''clam'', ''cobra'',
     ''colt'', ''coral'', ''cow'', ''crab'', ''crane'', ''crow'', ''cub'', ''deer'',
     ''dingo'', ''dodo'', ''dog'', ''dove'', ''duck'', ''eagle'', ''eel'', ''elk'',
     ''emu'', ''ewe'', ''falcon'', ''fawn'', ''ferret'', ''finch'', ''fish'', ''flea'',
     ''fly'', ''foal'', ''fox'', ''frog'', ''gecko'', ''goat'', ''goose'', ''gull'',
     ''hare'', ''hawk'', ''hen'', ''heron'', ''hog'', ''horse'', ''hound'', ''ibex'',
     ''jay'', ''koala'', ''lamb'', ''lark'', ''lion'', ''lizard'', ''llama'', ''lynx'',
     ''mole'', ''moose'', ''moth'', ''mouse'', ''mule'', ''newt'', ''otter'', ''owl'',
     ''ox'', ''panda'', ''pig'', ''pika'', ''pony'', ''pug'', ''puma'', ''quail'',
     ''rabbit'', ''ram'', ''rat'', ''raven'', ''ray'', ''robin'', ''seal'', ''shark'',
     ''sheep'', ''shrew'', ''shrimp'', ''skunk'', ''sloth'', ''slug'', ''snail'', ''snake'',
     ''sole'', ''sparrow'', ''spider'', ''squid'', ''stag'', ''stork'', ''swan'', ''tapir'',
     ''teal'', ''tiger'', ''toad'', ''trout'', ''tuna'', ''turkey'', ''viper'', ''vole'',
     ''walrus'', ''wasp'', ''weasel'', ''whale'', ''wolf'', ''wombat'', ''worm'', ''wren'',
     ''yak'', ''zebra'', ''beetle'', ''bream'', ''cod'', ''dolphin'', ''gnu'', ''hyena'',
     ''acorn'', ''amber'', ''ash'', ''aspen'', ''bark'', ''bay'', ''beach'', ''birch'',
     ''bloom'', ''branch'', ''breeze'', ''brook'', ''bush'', ''cave'', ''cedar'', ''cliff'',
     ''cloud'', ''clover'', ''coast'', ''comet'', ''cove'', ''creek'', ''dawn'', ''delta'',
     ''dew'', ''dune'', ''dusk'', ''earth'', ''ember'', ''fern'', ''field'', ''fjord'',
     ''flame'', ''fog'', ''forest'', ''frost'', ''glade'', ''glen'', ''grove'', ''gust'',
     ''hail'', ''hill'', ''ice'', ''island'', ''ivy'', ''lake'', ''leaf'', ''lily'',
     ''maple'', ''marsh'', ''meadow'', ''mist'', ''moon'', ''moss'', ''mount'', ''oak'',
     ''ocean'', ''palm'', ''peak'', ''pebble'', ''pine'', ''plain'', ''pond'', ''rain'',
     ''reef'', ''ridge'', ''river'', ''rock'', ''root'', ''rose'', ''sand'', ''sea'',
     ''seed'', ''shade'', ''shell'', ''shore'', ''sky'', ''sleet'', ''snow'', ''spring'',
     ''star'', ''stone'', ''storm'', ''stream'', ''summit'', ''sun'', ''surf'', ''swamp'',
     ''thaw'', ''tide'', ''trail'', ''tree'', ''tulip'', ''valley'', ''vine'', ''wave'',
     ''well'', ''wind'', ''wood'', ''anchor'', ''arrow'', ''badge'', ''beacon'', ''bell'',
     ''boat'', ''bolt'', ''book'', ''boot'', ''bottle'', ''bowl'', ''brick'', ''bridge'',
     ''broom'', ''brush'', ''bucket'', ''candle'', ''cape'', ''cart'', ''chain'', ''chair'',
     ''clock'', ''coal'', ''coin'', ''comb'', ''cord'', ''crown'', ''cup'', ''dial'']"

text \<open>One iteration of the loop of \<^verbatim>\<open>NormalizeCode\<close>: the text built so far and \<^verbatim>\<open>pendingSep\<close>.\<close>

definition normalize_step :: "nat \<Rightarrow> string \<times> bool \<Rightarrow> string \<times> bool" where
  "normalize_step ch st = (case st of (b, pendingSep) \<Rightarrow>
     let write = (\<lambda>mapped. (b @ (if pendingSep then codeSeparator else []) @ encode_rune mapped, False)) in
     if 65 \<le> ch \<and> ch \<le> 90 then write (ch + 32)
     else if 97 \<le> ch \<and> ch \<le> 122 \<or> 48 \<le> ch \<and> ch \<le> 57 then write ch
     else (b, 0 < length b))"

definition NormalizeCode :: "string \<Rightarrow> string" where
  "NormalizeCode raw = fst (fold normalize_step (runes raw) ([], False))"

definition FormatCode :: "int \<Rightarrow> string \<Rightarrow> string" where
  "FormatCode rm ws = int_dec rm @ codeSeparator @ ws"

record ParsedCode =
  pc_Room :: int
  pc_Words :: string

text \<open>\<^verbatim>\<open>strings.Index\<close> of a one-byte separator; the text before it and after it.\<close>

definition before_sep :: "string \<Rightarrow> string" where
  "before_sep s = takeWhile (\<lambda>c. c \<noteq> CHR ''-'') s"

definition after_sep :: "string \<Rightarrow> string" where
  "after_sep s = tl (dropWhile (\<lambda>c. c \<noteq> CHR ''-'') s)"

text \<open>\<^verbatim>\<open>strconv.Atoi\<close>; a sign cannot occur in a normalized code.\<close>

definition ParseCode :: "string \<Rightarrow> (err, ParsedCode) result" where
  "ParseCode raw =
     (let normalized = NormalizeCode raw; sep = length (before_sep normalized) in
      if CHR ''-'' \<notin> set normalized \<or> sep = 0 then Inl (Plain ''code must be <room>-<words>'')
      else case ParseInt64 (before_sep normalized) of
          None \<Rightarrow> Inl (Plain ''room must be a number'')
        | Some rm \<Rightarrow>
            if after_sep normalized = [] then Inl (Plain ''code is missing its words'')
            else Inr \<lparr>pc_Room = rm, pc_Words = after_sep normalized\<rparr>)"

definition GenerateWords :: "(err, bytes) result \<Rightarrow> int \<Rightarrow> (err, string) result" where
  "GenerateWords rnd count =
     (if count < 1 then Inl (Plain ''word count must be >= 1'')
      else case rnd of Inl e \<Rightarrow> Inl e
        | Inr buf \<Rightarrow> Inr (strings_Join (map (\<lambda>b. wordlist ! (unat b mod wordlistSize)) buf) codeSeparator))"

definition GenerateCode :: "(err, bytes) result \<Rightarrow> int \<Rightarrow> (err, string) result" where
  "GenerateCode rnd rm =
     (case GenerateWords rnd defaultWordCount of Inl e \<Rightarrow> Inl e | Inr ws \<Rightarrow> Inr (FormatCode rm ws))"

section \<open>The word list\<close>

lemma length_wordlist: "length wordlist = 256"
  by (simp add: wordlist_def)

definition lower_word :: "string \<Rightarrow> bool" where
  "lower_word w \<longleftrightarrow> w \<noteq> [] \<and> list_all (\<lambda>c. 97 \<le> code c \<and> code c \<le> 122) w"

lemma wordlist_lower: "list_all lower_word wordlist"
  by (simp add: wordlist_def lower_word_def)

lemma wordlist_distinct: "distinct wordlist"
  by (simp add: wordlist_def)


section \<open>Normal form\<close>

text \<open>The words of a text: its maximal runs of letters and digits, in lower case.\<close>

definition alnum_rune :: "nat \<Rightarrow> bool" where
  "alnum_rune r \<longleftrightarrow> 65 \<le> r \<and> r \<le> 90 \<or> 97 \<le> r \<and> r \<le> 122 \<or> 48 \<le> r \<and> r \<le> 57"

definition lower_rune :: "nat \<Rightarrow> char" where
  "lower_rune r = char_of (if 65 \<le> r \<and> r \<le> 90 then r + 32 else r)"

function code_words :: "nat list \<Rightarrow> string list" where
  "code_words [] = []"
| "code_words (r # rs) =
     (if alnum_rune r then map lower_rune (takeWhile alnum_rune (r # rs)) # code_words (dropWhile alnum_rune (r # rs))
      else code_words rs)"
  by pat_completeness auto
termination
  by (relation "measure length") (auto simp: less_Suc_eq_le length_dropWhile_le)

declare code_words.simps(2) [simp del]

lemma code_words_Cons [simp]:
  "\<not> alnum_rune r \<Longrightarrow> code_words (r # rs) = code_words rs"
  by (simp add: code_words.simps(2))

lemma normalize_step_alnum:
  "alnum_rune r \<Longrightarrow> normalize_step r (b, p) = (b @ (if p then ''-'' else []) @ [lower_rune r], False)"
  by (auto simp: normalize_step_def alnum_rune_def lower_rune_def codeSeparator_def encode_rune_def)

lemma normalize_step_other: "\<not> alnum_rune r \<Longrightarrow> normalize_step r (b, p) = (b, b \<noteq> [])"
  by (auto simp: normalize_step_def alnum_rune_def)

lemma normalize_run:
  "list_all alnum_rune rs \<Longrightarrow> fold normalize_step rs (b, False) = (b @ map lower_rune rs, False)"
  by (induction rs arbitrary: b) (simp_all add: normalize_step_alnum)

text \<open>After a separator, and at the start.\<close>

lemma normalize_pending:
  "rs = [] \<or> \<not> alnum_rune (hd rs) \<Longrightarrow> b \<noteq> [] \<Longrightarrow>
     fst (fold normalize_step rs (b, False)) = fst (fold normalize_step rs (b, True))"
  by (cases rs) (simp_all add: normalize_step_other)

lemma normalize_word:
  assumes "alnum_rune r" and "p \<longrightarrow> b \<noteq> []"
  shows "fst (fold normalize_step (r # rs) (b, p))
    = fst (fold normalize_step (dropWhile alnum_rune (r # rs))
        (b @ (if p then ''-'' else []) @ map lower_rune (takeWhile alnum_rune (r # rs)), True))"
proof -
  let ?w = "takeWhile alnum_rune rs" and ?r = "dropWhile alnum_rune rs" and ?b = "b @ (if p then ''-'' else []) @ [lower_rune r]"
  have w: "list_all alnum_rune ?w" by (auto simp: list_all_iff dest: set_takeWhileD)
  have "fold normalize_step (?w @ ?r) x = fold normalize_step ?r (fold normalize_step ?w x)" for x
    by (simp only: fold_append comp_apply)
  note split = this [unfolded takeWhile_dropWhile_id]
  have "fold normalize_step (r # rs) (b, p) = fold normalize_step rs (?b, False)"
    using assms(1) by (simp only: fold_simps(2) normalize_step_alnum)
  also have "\<dots> = fold normalize_step ?r (?b @ map lower_rune ?w, False)"
    using split [of "(?b, False)"] by (simp only: normalize_run [OF w])
  finally have "fst (fold normalize_step (r # rs) (b, p)) = fst (fold normalize_step ?r (?b @ map lower_rune ?w, False))" by (rule arg_cong)
  also have "\<dots> = fst (fold normalize_step ?r (?b @ map lower_rune ?w, True))"
    using hd_dropWhile [of alnum_rune rs] by (intro normalize_pending) blast+
  finally show ?thesis using assms(1) by (simp only: takeWhile.simps dropWhile.simps if_True list.map append_assoc append_Cons append_Nil)
qed

lemma normalize_after_sep:
  "b \<noteq> [] \<Longrightarrow> fst (fold normalize_step rs (b, True)) = b @ concat (map ((#) CHR ''-'') (code_words rs))"
proof (induction rs arbitrary: b rule: code_words.induct)
  case (2 r rs)
  show ?case
  proof (cases "alnum_rune r")
    case True
    show ?thesis using 2(1) [OF True] 2(3) True
      by (subst normalize_word) (simp_all add: code_words.simps(2) [of r rs])
  next
    case False
    with 2 show ?thesis by (simp add: normalize_step_other)
  qed
qed simp

lemma strings_Join_concat: "strings_Join (w # ws) [sep] = w @ concat (map ((#) sep) ws)"
  by (induction ws arbitrary: w) (simp_all add: strings_Join_Cons)

lemma NormalizeCode_words: "NormalizeCode raw = strings_Join (code_words (runes raw)) ''-''"
proof -
  have "fst (fold normalize_step rs ([], False)) = strings_Join (code_words rs) ''-''" for rs
  proof (induction rs)
    case (Cons r rs)
    show ?case
    proof (cases "alnum_rune r")
      case True
      then show ?thesis
        by (subst normalize_word) (simp_all add: normalize_after_sep strings_Join_concat code_words.simps(2) [of r rs])
    next
      case False
      with Cons show ?thesis by (simp add: normalize_step_other)
    qed
  qed simp
  then show ?thesis by (simp add: NormalizeCode_def)
qed

section \<open>Codes in normal form\<close>

definition code_word :: "string \<Rightarrow> bool" where
  "code_word w \<longleftrightarrow> w \<noteq> [] \<and> list_all (\<lambda>c. 97 \<le> code c \<and> code c \<le> 122 \<or> 48 \<le> code c \<and> code c \<le> 57) w"

lemma code_words_word: "list_all code_word (code_words rs)"
proof (induction rs rule: code_words.induct)
  case (2 r rs)
  have "\<forall>x \<in> set (takeWhile alnum_rune (r # rs)). alnum_rune x" by (auto dest: set_takeWhileD)
  then have "list_all (\<lambda>c. 97 \<le> code c \<and> code c \<le> 122 \<or> 48 \<le> code c \<and> code c \<le> 57) (map lower_rune (takeWhile alnum_rune (r # rs)))"
    by (auto simp: list_all_iff lower_rune_def alnum_rune_def split: if_splits)
  with 2 show ?case by (cases "alnum_rune r") (simp_all add: code_words.simps(2) [of r rs] code_word_def)
qed simp

lemma code_word_runes:
  assumes "code_word w"
  shows "list_all alnum_rune (map code w)" "map lower_rune (map code w) = w" "list_all (\<lambda>c. code c < 128) w"
proof -
  have c: "97 \<le> code c \<and> code c \<le> 122 \<or> 48 \<le> code c \<and> code c \<le> 57" if "c \<in> set w" for c
    using assms that by (simp add: code_word_def list_all_iff)
  show "list_all alnum_rune (map code w)" using c by (simp add: list_all_iff alnum_rune_def)
  have "lower_rune (code c) = c" if "c \<in> set w" for c using c [OF that] by (auto simp: lower_rune_def)
  then show "map lower_rune (map code w) = w" by (simp add: map_idI)
  show "list_all (\<lambda>c. code c < 128) w" using c by (fastforce simp: list_all_iff)
qed

lemma code_words_append:
  assumes "code_word w" and "rs = [] \<or> \<not> alnum_rune (hd rs)"
  shows "code_words (map code w @ rs) = w # code_words rs"
proof -
  note w = code_word_runes [OF assms(1)]
  have all: "\<And>x. x \<in> set (map code w) \<Longrightarrow> alnum_rune x" using w(1) by (simp only: list_all_iff)
  have "takeWhile alnum_rune rs = []" "dropWhile alnum_rune rs = rs" using assms(2) by (cases rs; simp)+
  then have tw: "takeWhile alnum_rune (map code w @ rs) = map code w" "dropWhile alnum_rune (map code w @ rs) = rs"
    using takeWhile_append2 [of "map code w" alnum_rune rs, OF all] dropWhile_append2 [of "map code w" alnum_rune rs, OF all]
    by simp_all
  obtain c cs where c: "map code w @ rs = c # cs" "alnum_rune c" using assms(1) w(1) by (cases w) (auto simp: code_word_def)
  then have "code_words (map code w @ rs) = map lower_rune (map code w) # code_words rs"
    using code_words.simps(2) [of c cs] tw by (simp only: c if_True)
  then show ?thesis by (simp only: w(2))
qed

lemma runes_ascii_append: "list_all (\<lambda>c. code c < 128) s \<Longrightarrow> runes (s @ t) = map code s @ runes t"
  by (induction s) simp_all

lemma code_words_Join: "list_all code_word ws \<Longrightarrow> code_words (runes (strings_Join ws ''-'')) = ws"
proof (induction ws)
  case (Cons w ws)
  note w = code_word_runes [of w]
  show ?case
  proof (cases ws)
    case Nil
    then show ?thesis using Cons.prems w(3) runes_ascii_append [of w "[]"] code_words_append [of w "[]"] by simp
  next
    case (Cons v vs)
    have dash: "\<not> alnum_rune 45" by (simp add: alnum_rune_def)
    show ?thesis using Cons.IH Cons.prems w(3) Cons
      by (simp add: strings_Join_Cons runes_ascii_append code_words_append dash)
  qed
qed simp

lemma NormalizeCode_Join: "list_all code_word ws \<Longrightarrow> NormalizeCode (strings_Join ws ''-'') = strings_Join ws ''-''"
  by (simp add: NormalizeCode_words code_words_Join)

lemma NormalizeCode_idem [simp]: "NormalizeCode (NormalizeCode raw) = NormalizeCode raw"
  by (simp add: NormalizeCode_words code_words_Join code_words_word)

lemma code_word_nat_dec: "code_word (nat_dec n)"
  using nat_dec_digits [of n] by (auto simp: code_word_def list_all_iff is_digit_def)

lemma NormalizeCode_FormatCode:
  assumes "0 \<le> rm" and "NormalizeCode ws \<noteq> []"
  shows "NormalizeCode (FormatCode rm ws) = FormatCode rm (NormalizeCode ws)"
proof -
  let ?d = "nat_dec (nat rm)"
  have d: "code_word ?d" by (rule code_word_nat_dec)
  have dash: "\<not> alnum_rune 45" by (simp add: alnum_rune_def)
  have "code_words (runes (FormatCode rm ws)) = ?d # code_words (runes ws)"
    using assms(1) code_word_runes(3) [OF d] d dash
    by (simp add: FormatCode_def int_dec_def codeSeparator_def runes_ascii_append code_words_append)
  moreover have "code_words (runes ws) \<noteq> []" using assms(2) by (auto simp: NormalizeCode_words)
  ultimately show ?thesis using assms(1)
    by (simp add: NormalizeCode_words strings_Join_Cons FormatCode_def int_dec_def codeSeparator_def)
qed

lemma no_dash_code_word: "code_word w \<Longrightarrow> CHR ''-'' \<notin> set w"
  by (auto simp: code_word_def list_all_iff)

lemma ParseCode_FormatCode:
  assumes "0 \<le> rm" and "in_s64 rm" and "NormalizeCode ws \<noteq> []"
  shows "ParseCode (FormatCode rm ws) = Inr \<lparr>pc_Room = rm, pc_Words = NormalizeCode ws\<rparr>"
proof -
  let ?d = "nat_dec (nat rm)"
  have n: "NormalizeCode (FormatCode rm ws) = ?d @ CHR ''-'' # NormalizeCode ws"
    using NormalizeCode_FormatCode [OF assms(1,3)] assms(1) by (simp add: FormatCode_def int_dec_def codeSeparator_def)
  have d: "CHR ''-'' \<notin> set ?d" "?d \<noteq> []" using no_dash_code_word [OF code_word_nat_dec] code_word_nat_dec [of "nat rm"]
    by (auto simp: code_word_def)
  have "before_sep (?d @ CHR ''-'' # NormalizeCode ws) = ?d" "after_sep (?d @ CHR ''-'' # NormalizeCode ws) = NormalizeCode ws"
    using d(1) by (auto simp: before_sep_def after_sep_def takeWhile_append dropWhile_append)
  moreover have "ParseInt64 ?d = Some rm" using ParseInt64_int_dec [OF assms(2)] assms(1) by (simp add: int_dec_def)
  ultimately show ?thesis using d(2) assms(3) by (simp add: ParseCode_def Let_def n)
qed

section \<open>Properties\<close>

lemma lower_code_word: "lower_word w \<Longrightarrow> code_word w"
  by (auto simp: lower_word_def code_word_def list_all_iff)

lemma wordlist_nth: "code_word (wordlist ! (unat (b :: byte) mod wordlistSize))"
  using wordlist_lower length_wordlist by (intro lower_code_word) (simp add: list_all_length wordlistSize_def)

lemma wordlist_index:
  assumes "wordlist ! (unat (a :: byte) mod wordlistSize) = wordlist ! (unat (b :: byte) mod wordlistSize)"
  shows "a = b"
proof -
  have "unat a = unat b" using assms unat_byte_less [of a] unat_byte_less [of b] nth_eq_iff_index_eq [OF wordlist_distinct]
    by (simp add: wordlistSize_def length_wordlist)
  then show ?thesis by (rule unsigned_word_eqI)
qed

lemma strings_Join_code_inject:
  "list_all code_word ws \<Longrightarrow> list_all code_word vs \<Longrightarrow> strings_Join ws ''-'' = strings_Join vs ''-'' \<Longrightarrow> ws = vs"
  by (metis code_words_Join)

text \<open>C39: Invite codes survive being typed.  Whatever bytes are drawn, the generated words are already in normal
  form; a code formatted from a room number and any text with at least one letter or digit parses to that room and
  the normalized text, and normalizing it twice or formatting the parsed code again changes nothing, so both peers
  derive the password from the same string; and different random bytes give different codes.\<close>

theorem invite_code_roundtrip:
  assumes "buf \<noteq> []" and "0 \<le> rm" and "in_s64 rm" and "GenerateWords (Inr buf) (int (length buf)) = Inr ws"
  shows "NormalizeCode ws = ws \<and> ParseCode (FormatCode rm ws) = Inr \<lparr>pc_Room = rm, pc_Words = ws\<rparr>
    \<and> (NormalizeCode typed \<noteq> [] \<longrightarrow>
         ParseCode (FormatCode rm typed) = Inr \<lparr>pc_Room = rm, pc_Words = NormalizeCode typed\<rparr>
       \<and> NormalizeCode (FormatCode rm typed) = NormalizeCode (FormatCode rm (NormalizeCode typed)))
    \<and> (GenerateWords (Inr buf') (int (length buf')) = Inr ws \<longrightarrow> buf' = buf)"
proof -
  let ?pick = "\<lambda>b :: byte. wordlist ! (unat b mod wordlistSize)"
  have gen: "GenerateWords (Inr b) (int (length b)) = Inr v \<Longrightarrow> v = strings_Join (map ?pick b) ''-''" for b v
    by (simp add: GenerateWords_def codeSeparator_def split: if_splits)
  have ok: "list_all code_word (map ?pick b)" for b by (simp add: list_all_iff wordlist_nth)
  have norm: "NormalizeCode ws = ws" using gen [OF assms(4)] NormalizeCode_Join [OF ok] by simp
  have "ws \<noteq> []" using gen [OF assms(4)] assms(1) wordlist_nth [of "hd buf"]
    by (cases buf) (auto simp: strings_Join_concat code_word_def)
  then have p: "ParseCode (FormatCode rm ws) = Inr \<lparr>pc_Room = rm, pc_Words = ws\<rparr>"
    using ParseCode_FormatCode [OF assms(2,3), of ws] norm by simp
  moreover have "ParseCode (FormatCode rm typed) = Inr \<lparr>pc_Room = rm, pc_Words = NormalizeCode typed\<rparr>
      \<and> NormalizeCode (FormatCode rm typed) = NormalizeCode (FormatCode rm (NormalizeCode typed))" if "NormalizeCode typed \<noteq> []"
    using ParseCode_FormatCode [OF assms(2,3) that] NormalizeCode_FormatCode [OF assms(2)] that by simp
  moreover have "buf' = buf" if "GenerateWords (Inr buf') (int (length buf')) = Inr ws"
  proof -
    have "map ?pick buf' = map ?pick buf"
      using gen [OF that] gen [OF assms(4)] by (intro strings_Join_code_inject ok) simp
    then show ?thesis by (rule map_injective) (auto intro: injI wordlist_index)
  qed
  ultimately show ?thesis using norm p by blast
qed

theorem invite_code_roundtrip_witness:
  "ParseCode (FormatCode 7 ''ape-dial'') = Inr \<lparr>pc_Room = 7, pc_Words = ''ape-dial''\<rparr>"
proof -
  have "GenerateWords (Inr [1, 255]) (int (length [1 :: byte, 255])) = Inr ''ape-dial''" by code_simp
  from invite_code_roundtrip [OF _ _ _ this, of 7] show ?thesis by (simp add: in_s64_def min_int64_def max_int64_def)
qed

end
