(* ===== verification/Rendezvous.thy ===== *)
theory Rendezvous
  imports Spake2 Words
begin

text \<open>
  The rendezvous session (\<^verbatim>\<open>packages/engine/rendezvous\<close>: \<^verbatim>\<open>message.go\<close>, \<^verbatim>\<open>caps.go\<close>, \<^verbatim>\<open>session.go\<close>): signaling
  messages, the capability announcement, and the handshake of one peer from pairing to established keys.  Every
  method runs under the session's mutex and is one step; the result of \<^verbatim>\<open>sink.Send\<close> and the random bytes are arguments.
\<close>

section \<open>Signaling messages (message.go)\<close>

definition typeCreate :: string where "typeCreate = ''create''"
definition typeCreated :: string where "typeCreated = ''created''"
definition typeJoin :: string where "typeJoin = ''join''"
definition typePeerJoined :: string where "typePeerJoined = ''peer-joined''"
definition typePake :: string where "typePake = ''pake''"
definition typeConfirm :: string where "typeConfirm = ''confirm''"
definition typeCaps :: string where "typeCaps = ''caps''"
definition typeSDP :: string where "typeSDP = ''sdp''"
definition typeICE :: string where "typeICE = ''ice''"
definition typeBye :: string where "typeBye = ''bye''"
definition typeError :: string where "typeError = ''error''"

lemmas message_types = typeCreate_def typeCreated_def typeJoin_def typePeerJoined_def typePake_def typeConfirm_def
  typeCaps_def typeSDP_def typeICE_def typeBye_def typeError_def

record Message =
  mg_Type :: string
  mg_Room :: "int option"
  mg_Role :: string
  mg_Msg :: string
  mg_Mac :: string
  mg_Frame :: string
  mg_Sdp :: string
  mg_Cand :: string
  mg_Seq :: "int option"
  mg_Reason :: string
  mg_Code :: string
  mg_Bytes :: int

definition zero_Message :: Message where
  "zero_Message = \<lparr>mg_Type = [], mg_Room = None, mg_Role = [], mg_Msg = [], mg_Mac = [], mg_Frame = [], mg_Sdp = [],
     mg_Cand = [], mg_Seq = None, mg_Reason = [], mg_Code = [], mg_Bytes = 0\<rparr>"

definition NewSDP :: "int \<Rightarrow> string \<Rightarrow> string \<Rightarrow> Message" where
  "NewSDP seq sdp mac = zero_Message\<lparr>mg_Type := typeSDP, mg_Sdp := sdp, mg_Seq := Some seq, mg_Mac := mac\<rparr>"

definition NewICE :: "int \<Rightarrow> string \<Rightarrow> string \<Rightarrow> Message" where
  "NewICE seq cand mac = zero_Message\<lparr>mg_Type := typeICE, mg_Cand := cand, mg_Seq := Some seq, mg_Mac := mac\<rparr>"

definition TypeRelayOpen :: string where "TypeRelayOpen = ''relay_open''"
definition TypeRelayCredit :: string where "TypeRelayCredit = ''relay_credit''"

definition NewRelayOpen :: Message where "NewRelayOpen = zero_Message\<lparr>mg_Type := TypeRelayOpen\<rparr>"

definition NewRelayCredit :: "int \<Rightarrow> Message" where
  "NewRelayCredit bytes = zero_Message\<lparr>mg_Type := TypeRelayCredit, mg_Bytes := bytes\<rparr>"

text \<open>\<^verbatim>\<open>omitempty\<close>: a nil pointer, an empty string and a zero number are left out.\<close>

definition omit_string :: "string \<Rightarrow> string \<Rightarrow> (string \<times> json) list" where
  "omit_string k v = (if v = [] then [] else [(k, JStr v)])"

definition omit_ptr :: "string \<Rightarrow> int option \<Rightarrow> (string \<times> json) list" where
  "omit_ptr k v = (case v of None \<Rightarrow> [] | Some i \<Rightarrow> [(k, jint i)])"

definition message_json :: "Message \<Rightarrow> json" where
  "message_json m = JObj ([(''type'', JStr (mg_Type m))] @ omit_ptr ''room'' (mg_Room m) @ omit_string ''role'' (mg_Role m)
     @ omit_string ''msg'' (mg_Msg m) @ omit_string ''mac'' (mg_Mac m) @ omit_string ''frame'' (mg_Frame m)
     @ omit_string ''sdp'' (mg_Sdp m) @ omit_string ''cand'' (mg_Cand m) @ omit_ptr ''seq'' (mg_Seq m)
     @ omit_string ''reason'' (mg_Reason m) @ omit_string ''code'' (mg_Code m)
     @ (if mg_Bytes m = 0 then [] else [(''bytes'', jint (mg_Bytes m))]))"

definition MarshalMessage :: "Message \<Rightarrow> bytes" where
  "MarshalMessage m = bytes_of_string (json_print (message_json m))"

text \<open>\<^verbatim>\<open>json.Unmarshal\<close> into a struct: members that match no field are skipped.\<close>

fun members_lax :: "'r field list \<Rightarrow> (string \<times> json) list \<Rightarrow> 'r \<Rightarrow> 'r option" where
  "members_lax fds [] r = Some r"
| "members_lax fds ((k, v) # ms) r =
     (case find (\<lambda>(n, _). key_match k n) fds of None \<Rightarrow> members_lax fds ms r
      | Some (_, dec) \<Rightarrow> (case dec v r of None \<Rightarrow> None | Some r' \<Rightarrow> members_lax fds ms r'))"

definition json_Unmarshal :: "'r field list \<Rightarrow> 'r \<Rightarrow> bytes \<Rightarrow> 'r option" where
  "json_Unmarshal fds zero data = (case unmarshal data of None \<Rightarrow> None | Some ms \<Rightarrow> members_lax fds ms zero)"

definition message_fields :: "Message field list" where
  "message_fields = [(''type'', field_into mg_Type mg_Type_update string_into),
     (''room'', field_into mg_Room mg_Room_update (ptr_into int_into 0)),
     (''role'', field_into mg_Role mg_Role_update string_into),
     (''msg'', field_into mg_Msg mg_Msg_update string_into),
     (''mac'', field_into mg_Mac mg_Mac_update string_into),
     (''frame'', field_into mg_Frame mg_Frame_update string_into),
     (''sdp'', field_into mg_Sdp mg_Sdp_update string_into),
     (''cand'', field_into mg_Cand mg_Cand_update string_into),
     (''seq'', field_into mg_Seq mg_Seq_update (ptr_into int_into 0)),
     (''reason'', field_into mg_Reason mg_Reason_update string_into),
     (''code'', field_into mg_Code mg_Code_update string_into),
     (''bytes'', field_into mg_Bytes mg_Bytes_update int_into)]"

definition UnmarshalMessage :: "bytes \<Rightarrow> Message option" where
  "UnmarshalMessage data = json_Unmarshal message_fields zero_Message data"

section \<open>Capabilities (caps.go)\<close>

text \<open>A slice is \<open>None\<close> when nil.\<close>

record Caps =
  ca_Version :: string
  ca_MaxFrame :: int
  ca_BlockSize :: int
  ca_Features :: "string list option"
  ca_SinkHints :: "string list option"

definition defaultFrameBytes :: int where "defaultFrameBytes = 16 * 1024"
definition defaultBlockBytes :: int where "defaultBlockBytes = 1024 * 1024"
definition capsFrameVersion :: "8 word" where "capsFrameVersion = 1"

definition DefaultCaps :: Caps where
  "DefaultCaps = \<lparr>ca_Version = ProtocolVersion, ca_MaxFrame = defaultFrameBytes, ca_BlockSize = defaultBlockBytes,
     ca_Features = Some [''folders'', ''relay''], ca_SinkHints = Some [''direct-file'']\<rparr>"

definition capsHeader :: FrameHeaderInput where
  "capsHeader = \<lparr>hi_Version = capsFrameVersion, hi_Type = FrameCaps, hi_Flags = 0, hi_FileIdx = 0, hi_BlockIdx = 0, hi_FrameOff = 0\<rparr>"

fun strings_json :: "string list option \<Rightarrow> json" where
  "strings_json None = JNull"
| "strings_json (Some xs) = JArr (map JStr xs)"

definition caps_json :: "Caps \<Rightarrow> json" where
  "caps_json c = JObj [(''version'', JStr (ca_Version c)), (''maxFrame'', jint (ca_MaxFrame c)),
     (''blockSize'', jint (ca_BlockSize c)), (''features'', strings_json (ca_Features c)),
     (''sinkHints'', strings_json (ca_SinkHints c))]"

text \<open>Decoding a slice that may be nil, with the elements its array holds beyond the length.\<close>

definition strings_into :: "(string list option \<times> string list) into" where
  "strings_into v s = (case v of JNull \<Rightarrow> Some (None, [])
     | JArr [] \<Rightarrow> Some (Some [], [])
     | JArr vs \<Rightarrow> (let old = (case fst s of None \<Rightarrow> [] | Some xs \<Rightarrow> xs) @ snd s in
         map_option (\<lambda>xs. (Some xs, drop (length vs) old)) (elems_into string_into [] vs old))
     | _ \<Rightarrow> None)"

definition zero_Caps :: Caps where
  "zero_Caps = \<lparr>ca_Version = [], ca_MaxFrame = 0, ca_BlockSize = 0, ca_Features = None, ca_SinkHints = None\<rparr>"

text \<open>The struct with the spare elements of its two slices.\<close>

type_synonym caps_target = "Caps \<times> string list \<times> string list"

definition caps_field :: "(Caps \<Rightarrow> 'a) \<Rightarrow> (('a \<Rightarrow> 'a) \<Rightarrow> Caps \<Rightarrow> Caps) \<Rightarrow> 'a into \<Rightarrow> caps_target into" where
  "caps_field get upd dec v t = (case t of (c, sp) \<Rightarrow> map_option (\<lambda>c'. (c', sp)) (field_into get upd dec v c))"

definition caps_fields :: "caps_target field list" where
  "caps_fields = [(''version'', caps_field ca_Version ca_Version_update string_into),
     (''maxFrame'', caps_field ca_MaxFrame ca_MaxFrame_update int_into),
     (''blockSize'', caps_field ca_BlockSize ca_BlockSize_update int_into),
     (''features'', \<lambda>v t. case t of (c, f, h) \<Rightarrow>
        map_option (\<lambda>(xs, f'). (c\<lparr>ca_Features := xs\<rparr>, f', h)) (strings_into v (ca_Features c, f))),
     (''sinkHints'', \<lambda>v t. case t of (c, f, h) \<Rightarrow>
        map_option (\<lambda>(xs, h'). (c\<lparr>ca_SinkHints := xs\<rparr>, f, h')) (strings_into v (ca_SinkHints c, h)))]"

definition unmarshal_caps :: "bytes \<Rightarrow> Caps option" where
  "unmarshal_caps data = map_option fst (json_Unmarshal caps_fields (zero_Caps, [], []) data)"


section \<open>The session (session.go)\<close>

datatype Phase =
    PhaseIdle | PhaseAllocating | PhaseWaiting | PhaseHandshaking | PhaseConfirming | PhaseExchangingCaps
  | PhaseEstablished | PhaseFailed

definition CodeConfirmationFailed :: string where "CodeConfirmationFailed = ''confirmation_failed''"
definition CodeBadPeerMessage :: string where "CodeBadPeerMessage = ''bad_peer_message''"
definition CodePeerLeft :: string where "CodePeerLeft = ''peer_left''"
definition CodeAborted :: string where "CodeAborted = ''aborted''"
definition rdvCodeProtocol :: string where "rdvCodeProtocol = ''protocol''"

record RdvError =
  re_Code :: string
  re_Msg :: string

definition rdv_error :: "string \<Rightarrow> string \<Rightarrow> RdvError" where
  "rdv_error c m = \<lparr>re_Code = c, re_Msg = m\<rparr>"

record Result =
  rs_Role :: string
  rs_Room :: int
  rs_Code :: string
  rs_Master :: "bytes option"
  rs_Keys :: TransferKeys
  rs_Spake2 :: "Spake2Output option"
  rs_LocalCaps :: Caps
  rs_RemoteCaps :: Caps
  rs_SendCounter :: "64 word"
  rs_RecvCounter :: "64 word"

record Options =
  op_Role :: string
  op_Code :: string
  op_Words :: string
  op_WordCount :: int
  op_LocalCaps :: "Caps option"

text \<open>Pointers and slices that may still be nil are options.  Beyond the struct: \<open>se_sent\<close> are the messages handed to
  \<^verbatim>\<open>sink.Send\<close>, \<open>se_phases\<close> the arguments of \<^verbatim>\<open>setPhase\<close>, \<open>se_closes\<close> counts \<^verbatim>\<open>close(s.done)\<close>, and \<open>se_panicked\<close>
  records a nil dereference.\<close>

record Session =
  se_role :: string
  se_localCaps :: Caps
  se_joinCode :: string
  se_words :: string
  se_phase :: Phase
  se_code :: string
  se_room :: int
  se_w :: "int option"
  se_secret :: "int option"
  se_shared :: bool
  se_spake2 :: "Spake2Output option"
  se_keys :: "TransferKeys option"
  se_master :: "bytes option"
  se_sendCtr :: "64 word"
  se_recvCtr :: "64 word"
  se_settled :: bool
  se_result :: "Result option"
  se_err :: "RdvError option"
  se_sent :: "Message list"
  se_phases :: "Phase list"
  se_closes :: nat
  se_panicked :: bool

definition NewSession :: "Options \<Rightarrow> Session" where
  "NewSession opts = \<lparr>se_role = op_Role opts,
     se_localCaps = (case op_LocalCaps opts of None \<Rightarrow> DefaultCaps | Some caps \<Rightarrow> caps),
     se_joinCode = op_Code opts, se_words = op_Words opts, se_phase = PhaseIdle, se_code = [], se_room = - 1,
     se_w = None, se_secret = None, se_shared = False, se_spake2 = None, se_keys = None, se_master = None,
     se_sendCtr = 0, se_recvCtr = 0, se_settled = False, se_result = None, se_err = None,
     se_sent = [], se_phases = [], se_closes = 0, se_panicked = False\<rparr>"

definition setPhase :: "Phase \<Rightarrow> Session \<Rightarrow> Session" where
  "setPhase ph s = s\<lparr>se_phase := ph, se_phases := se_phases s @ [ph]\<rparr>"

definition close_done :: "Session \<Rightarrow> Session" where
  "close_done s = s\<lparr>se_closes := se_closes s + 1\<rparr>"

definition rdv_fail :: "RdvError \<Rightarrow> Session \<Rightarrow> Session" where
  "rdv_fail e s = (if se_settled s then s
     else close_done (setPhase PhaseFailed (s\<lparr>se_settled := True, se_err := Some e\<rparr>)))"

definition succeed :: "Result \<Rightarrow> Session \<Rightarrow> Session" where
  "succeed r s = (if se_settled s then s
     else close_done (setPhase PhaseEstablished (s\<lparr>se_settled := True, se_result := Some r\<rparr>)))"

definition panic :: "Session \<Rightarrow> Session" where "panic s = s\<lparr>se_panicked := True\<rparr>"

definition wordCountOrDefault :: "int \<Rightarrow> int" where
  "wordCountOrDefault n = (if 0 < n then n else 2)"

definition orDefault :: "string \<Rightarrow> string \<Rightarrow> string" where
  "orDefault v fallback = (if v \<noteq> [] then v else fallback)"

definition b64encode :: "bytes \<Rightarrow> string" where "b64encode b = b64_encode b"
definition b64decode :: "string \<Rightarrow> bytes option" where "b64decode s = b64_decode s"

text \<open>\<^verbatim>\<open>emit\<close> continues only when the transport took the message.\<close>

definition emit :: "err option \<Rightarrow> Message \<Rightarrow> (Session \<Rightarrow> Session) \<Rightarrow> Session \<Rightarrow> Session" where
  "emit res msg go s = (let s' = s\<lparr>se_sent := se_sent s @ [msg]\<rparr> in
     case res of None \<Rightarrow> go s' | Some _ \<Rightarrow> rdv_fail (rdv_error CodePeerLeft ''send'') s')"

definition sendDir :: "TransferKeys \<Rightarrow> Session \<Rightarrow> DirectionalKey" where
  "sendDir keys s = (if se_role s = RoleOfferer then O2J keys else J2O keys)"

definition recvDir :: "TransferKeys \<Rightarrow> Session \<Rightarrow> DirectionalKey" where
  "recvDir keys s = (if se_role s = RoleOfferer then J2O keys else O2J keys)"

text \<open>\<^verbatim>\<open>Start\<close>: the joiner's and the offerer's half.  \<open>reads\<close> are the buffers of \<^verbatim>\<open>RandomScalar\<close>, \<open>rnd\<close> the bytes of
  \<^verbatim>\<open>GenerateWords\<close>; while \<^verbatim>\<open>RandomScalar\<close> has not returned nothing has happened yet.\<close>

definition start_joiner :: "err option \<Rightarrow> Session \<Rightarrow> Session" where
  "start_joiner res s =
     (case ParseCode (se_joinCode s) of Inl _ \<Rightarrow> rdv_fail (rdv_error rdvCodeProtocol ''invalid code'') s
      | Inr parsed \<Rightarrow>
        (let s1 = s\<lparr>se_room := pc_Room parsed, se_words := pc_Words parsed,
               se_code := FormatCode (pc_Room parsed) (pc_Words parsed)\<rparr> in
         case PasswordToScalar (NormalizeCode (se_code s1)) of
           Inl _ \<Rightarrow> rdv_fail (rdv_error rdvCodeProtocol ''derive w'') s1
         | Inr w \<Rightarrow> emit res (zero_Message\<lparr>mg_Type := typeJoin, mg_Room := Some (se_room s1)\<rparr>)
             (setPhase PhaseWaiting) (s1\<lparr>se_w := Some w\<rparr>)))"

definition start_offerer :: "(err, bytes) result \<Rightarrow> err option \<Rightarrow> Session \<Rightarrow> Session" where
  "start_offerer rnd res s =
     (let create = emit res (zero_Message\<lparr>mg_Type := typeCreate\<rparr>) (setPhase PhaseAllocating) in
      if se_words s = [] then
        (case GenerateWords rnd (wordCountOrDefault 0) of
           Inl _ \<Rightarrow> rdv_fail (rdv_error rdvCodeProtocol ''generate words'') s
         | Inr w \<Rightarrow> create (s\<lparr>se_words := w\<rparr>))
      else create s)"

definition Rendezvous_Start ::
  "(err, bytes) result list \<Rightarrow> (err, bytes) result \<Rightarrow> err option \<Rightarrow> Session \<Rightarrow> Session" where
  "Rendezvous_Start reads rnd res s =
     (if se_settled s \<or> se_phase s \<noteq> PhaseIdle then s
      else case RandomScalar reads of None \<Rightarrow> s
        | Some (Inl _) \<Rightarrow> rdv_fail (rdv_error rdvCodeProtocol ''generate secret'') s
        | Some (Inr secret) \<Rightarrow>
          (let s1 = s\<lparr>se_secret := Some secret\<rparr> in
           if se_role s = RoleJoiner then start_joiner res s1 else start_offerer rnd res s1))"

definition onCreated :: "Message \<Rightarrow> Session \<Rightarrow> Session" where
  "onCreated msg s =
     (case mg_Room msg of None \<Rightarrow> rdv_fail (rdv_error rdvCodeProtocol ''unexpected created'') s
      | Some rm \<Rightarrow>
        if se_role s \<noteq> RoleOfferer \<or> se_phase s \<noteq> PhaseAllocating
        then rdv_fail (rdv_error rdvCodeProtocol ''unexpected created'') s
        else let s1 = s\<lparr>se_room := rm, se_code := FormatCode rm (se_words s)\<rparr> in
          (case PasswordToScalar (NormalizeCode (se_code s1)) of
             Inl _ \<Rightarrow> rdv_fail (rdv_error rdvCodeProtocol ''derive w'') s1
           | Inr w \<Rightarrow> setPhase PhaseWaiting (s1\<lparr>se_w := Some w\<rparr>)))"

definition onPeerJoined :: "'p wire_package \<Rightarrow> err option \<Rightarrow> Message \<Rightarrow> Session \<Rightarrow> Session" where
  "onPeerJoined p res msg s =
     (if se_phase s \<noteq> PhaseWaiting \<or> mg_Role msg \<noteq> se_role s
      then rdv_fail (rdv_error rdvCodeProtocol ''unexpected peer-joined'') s
      else case (se_w s, se_secret s) of
          (Some w, Some secret) \<Rightarrow>
            (case ComputeShare p (se_role s) w secret of
               Inl _ \<Rightarrow> rdv_fail (rdv_error rdvCodeProtocol ''compute share'') s
             | Inr share \<Rightarrow> emit res (zero_Message\<lparr>mg_Type := typePake, mg_Msg := b64encode share\<rparr>)
                 (setPhase PhaseHandshaking) (s\<lparr>se_shared := True\<rparr>))
        | _ \<Rightarrow> panic s)"

definition ownConfirm :: "string \<Rightarrow> Spake2Output \<Rightarrow> bytes" where
  "ownConfirm role out = (if role = RoleJoiner then so_ConfirmB out else so_ConfirmA out)"

definition expectedConfirm :: "string \<Rightarrow> Spake2Output \<Rightarrow> bytes" where
  "expectedConfirm role out = (if role = RoleJoiner then so_ConfirmA out else so_ConfirmB out)"

definition onPake :: "'p wire_package \<Rightarrow> err option \<Rightarrow> Message \<Rightarrow> Session \<Rightarrow> Session" where
  "onPake p res msg s =
     (if \<not> se_shared s then rdv_fail (rdv_error rdvCodeProtocol ''pake before pairing'') s
      else case b64decode (mg_Msg msg) of None \<Rightarrow> rdv_fail (rdv_error CodeBadPeerMessage ''malformed pake'') s
        | Some peerShare \<Rightarrow>
          (case (se_w s, se_secret s) of
             (Some w, Some secret) \<Rightarrow>
               (case Finish p (se_role s) w secret peerShare of
                  Inl _ \<Rightarrow> rdv_fail (rdv_error CodeBadPeerMessage ''invalid pake share'') s
                | Inr out \<Rightarrow> emit res (zero_Message\<lparr>mg_Type := typeConfirm, mg_Mac := b64encode (ownConfirm (se_role s) out)\<rparr>)
                    (setPhase PhaseConfirming) (s\<lparr>se_spake2 := Some out\<rparr>))
           | _ \<Rightarrow> panic s))"

definition send_caps :: "err option \<Rightarrow> TransferKeys \<Rightarrow> Session \<Rightarrow> Session" where
  "send_caps res keys s =
     (case Seal (sendDir keys s) (se_sendCtr s) capsHeader (bytes_of_string (json_print (caps_json (se_localCaps s)))) of
        Inl _ \<Rightarrow> rdv_fail (rdv_error rdvCodeProtocol ''seal caps'') s
      | Inr frame \<Rightarrow> emit res (zero_Message\<lparr>mg_Type := typeCaps, mg_Frame := b64encode frame\<rparr>)
          (setPhase PhaseExchangingCaps) (s\<lparr>se_sendCtr := se_sendCtr s + 1\<rparr>))"

definition onConfirm :: "err option \<Rightarrow> Message \<Rightarrow> Session \<Rightarrow> Session" where
  "onConfirm res msg s =
     (case se_spake2 s of None \<Rightarrow> rdv_fail (rdv_error rdvCodeProtocol ''confirm before pake'') s
      | Some out \<Rightarrow>
        (case b64decode (mg_Mac msg) of None \<Rightarrow> rdv_fail (rdv_error CodeBadPeerMessage ''malformed confirm'') s
         | Some got \<Rightarrow>
           if got \<noteq> expectedConfirm (se_role s) out
           then rdv_fail (rdv_error CodeConfirmationFailed ''key confirmation failed'') s
           else case DeriveMaster (so_Ke out) (so_Transcript out) of
               Inl _ \<Rightarrow> rdv_fail (rdv_error rdvCodeProtocol ''derive master'') s
             | Inr master \<Rightarrow>
               (let s1 = s\<lparr>se_master := Some master\<rparr> in
                case DeriveTransferKeys master of Inl _ \<Rightarrow> rdv_fail (rdv_error rdvCodeProtocol ''derive transfer keys'') s1
                | Inr keys \<Rightarrow> send_caps res keys (s1\<lparr>se_keys := Some keys\<rparr>))))"

definition rdv_result :: "TransferKeys \<Rightarrow> Caps \<Rightarrow> Session \<Rightarrow> Result" where
  "rdv_result keys remote s = \<lparr>rs_Role = se_role s, rs_Room = se_room s, rs_Code = se_code s,
     rs_Master = se_master s, rs_Keys = keys, rs_Spake2 = se_spake2 s, rs_LocalCaps = se_localCaps s, rs_RemoteCaps = remote,
     rs_SendCounter = se_sendCtr s, rs_RecvCounter = se_recvCtr s\<rparr>"

definition onCaps :: "Message \<Rightarrow> Session \<Rightarrow> Session" where
  "onCaps msg s =
     (case se_keys s of None \<Rightarrow> rdv_fail (rdv_error rdvCodeProtocol ''caps before key confirmation'') s
      | Some keys \<Rightarrow>
        (case b64decode (mg_Frame msg) of None \<Rightarrow> rdv_fail (rdv_error CodeBadPeerMessage ''malformed caps'') s
         | Some frame \<Rightarrow>
           (case Open (recvDir keys s) (se_recvCtr s) frame of
              Inl _ \<Rightarrow> rdv_fail (rdv_error CodeBadPeerMessage ''caps failed to decrypt'') s
            | Inr opened \<Rightarrow>
              (let s1 = s\<lparr>se_recvCtr := se_recvCtr s + 1\<rparr> in
               if h_Type (opened_Header opened) \<noteq> FrameCaps
               then rdv_fail (rdv_error CodeBadPeerMessage ''first frame is not caps'') s1
               else case unmarshal_caps (opened_Plaintext opened) of
                   None \<Rightarrow> rdv_fail (rdv_error CodeBadPeerMessage ''malformed caps payload'') s1
                 | Some remote \<Rightarrow> succeed (rdv_result keys remote s1) s1))))"

definition Rendezvous_Handle :: "'p wire_package \<Rightarrow> err option \<Rightarrow> Message \<Rightarrow> Session \<Rightarrow> Session" where
  "Rendezvous_Handle p res msg s =
     (if se_settled s then s
      else if mg_Type msg = typeCreated then onCreated msg s
      else if mg_Type msg = typePeerJoined then onPeerJoined p res msg s
      else if mg_Type msg = typePake then onPake p res msg s
      else if mg_Type msg = typeConfirm then onConfirm res msg s
      else if mg_Type msg = typeCaps then onCaps msg s
      else if mg_Type msg = typeBye then rdv_fail (rdv_error CodePeerLeft (orDefault (mg_Reason msg) ''peer left'')) s
      else if mg_Type msg = typeError
      then rdv_fail (rdv_error (orDefault (mg_Code msg) rdvCodeProtocol) (orDefault (mg_Msg msg) (mg_Code msg))) s
      else rdv_fail (rdv_error rdvCodeProtocol ''unexpected message'') s)"

definition Rendezvous_Abort :: "string \<Rightarrow> Session \<Rightarrow> Session" where
  "Rendezvous_Abort reason s =
     (if se_settled s then s
      else rdv_fail (rdv_error CodeAborted (orDefault reason ''aborted''))
        (s\<lparr>se_sent := se_sent s @ [zero_Message\<lparr>mg_Type := typeBye, mg_Reason := reason\<rparr>]\<rparr>))"

text \<open>\<^verbatim>\<open>Fail\<close> takes a rendezvous error as it is and wraps any other.\<close>

definition Rendezvous_Fail :: "RdvError option \<Rightarrow> Session \<Rightarrow> Session" where
  "Rendezvous_Fail e s = (case e of Some re \<Rightarrow> rdv_fail re s | None \<Rightarrow> rdv_fail (rdv_error CodePeerLeft ''transport'') s)"

text \<open>\<^verbatim>\<open>Result\<close> blocks (\<open>None\<close>) until the session settled.\<close>

definition Rendezvous_Result :: "Session \<Rightarrow> (Result option \<times> RdvError option) option" where
  "Rendezvous_Result s = (if se_closes s = 0 then None else Some (se_result s, se_err s))"

end
