(* ===== verification/RdvProps.thy ===== *)
theory RdvProps
  imports Rendezvous
begin

text \<open>
  Properties of the rendezvous session: what an established result proves about the messages the session received,
  that two honest sessions with the same code establish the same keys, and how a session reacts to repeated shares.
\<close>

section \<open>Runs\<close>

datatype rdv_event =
    RdvStart "(err, bytes) result list" "(err, bytes) result" "err option"
  | RdvHandle "err option" Message
  | RdvAbort string
  | RdvFail "RdvError option"

fun rdv_step :: "'p wire_package \<Rightarrow> Session \<Rightarrow> rdv_event \<Rightarrow> Session" where
  "rdv_step p s (RdvStart reads rnd res) = Rendezvous_Start reads rnd res s"
| "rdv_step p s (RdvHandle res msg) = Rendezvous_Handle p res msg s"
| "rdv_step p s (RdvAbort reason) = Rendezvous_Abort reason s"
| "rdv_step p s (RdvFail e) = Rendezvous_Fail e s"

definition rdv_run :: "'p wire_package \<Rightarrow> Options \<Rightarrow> rdv_event list \<Rightarrow> Session" where
  "rdv_run p opts es = foldl (rdv_step p) (NewSession opts) es"

definition received :: "rdv_event set \<Rightarrow> string \<Rightarrow> (Message \<Rightarrow> bool) \<Rightarrow> bool" where
  "received E ty P \<longleftrightarrow> (\<exists>res m. RdvHandle res m \<in> E \<and> mg_Type m = ty \<and> P m)"

text \<open>An output computed from the session's own password scalar and secret and a share it received.\<close>

definition from_share :: "'p wire_package \<Rightarrow> rdv_event set \<Rightarrow> Session \<Rightarrow> Spake2Output \<Rightarrow> bool" where
  "from_share p E s out \<longleftrightarrow> (\<exists>w x share. se_w s = Some w \<and> se_secret s = Some x
     \<and> received E typePake (\<lambda>m. b64decode (mg_Msg m) = Some share) \<and> Finish p (se_role s) w x share = Inr out)"

text \<open>Keys derived from such an output after the peer presented its confirmation.\<close>

definition confirmed :: "'p wire_package \<Rightarrow> rdv_event set \<Rightarrow> Session \<Rightarrow> bytes \<Rightarrow> TransferKeys \<Rightarrow> bool" where
  "confirmed p E s master keys \<longleftrightarrow> (\<exists>out. from_share p E s out
     \<and> received E typeConfirm (\<lambda>m. b64decode (mg_Mac m) = Some (expectedConfirm (se_role s) out))
     \<and> DeriveMaster (so_Ke out) (so_Transcript out) = Inr master \<and> DeriveTransferKeys master = Inr keys)"

text \<open>The capability frames a session sealed, in order.\<close>

definition caps_sent :: "Session \<Rightarrow> Message list" where
  "caps_sent s = filter (\<lambda>m. mg_Type m = typeCaps) (se_sent s)"

definition caps_counters :: "Session \<Rightarrow> bool" where
  "caps_counters s \<longleftrightarrow> se_sendCtr s = of_nat (length (caps_sent s))
     \<and> (\<forall>i < length (caps_sent s). \<exists>keys frame. Seal (sendDir keys s) (of_nat i) capsHeader (bytes_of_string (json_print (caps_json (se_localCaps s)))) = Inr frame
          \<and> mg_Frame (caps_sent s ! i) = b64encode frame)"

definition phase_ok :: "Session \<Rightarrow> bool" where
  "phase_ok s \<longleftrightarrow> (se_phase s = PhaseIdle \<longrightarrow> se_secret s = None)
     \<and> (se_phase s \<noteq> PhaseIdle \<longrightarrow> se_secret s \<noteq> None)
     \<and> (se_phase s \<in> {PhaseIdle, PhaseAllocating} \<longrightarrow> se_w s = None)
     \<and> (se_phase s \<notin> {PhaseIdle, PhaseAllocating} \<longrightarrow> se_w s \<noteq> None)
     \<and> (se_phase s \<in> {PhaseIdle, PhaseAllocating, PhaseWaiting} \<longrightarrow> \<not> se_shared s \<and> se_spake2 s = None \<and> se_keys s = None)"

definition result_ok :: "rdv_event set \<Rightarrow> Session \<Rightarrow> Result \<Rightarrow> bool" where
  "result_ok E s r \<longleftrightarrow> se_settled s \<and> se_err s = None \<and> se_phase s = PhaseEstablished
     \<and> rs_Role r = se_role s \<and> rs_Room r = se_room s \<and> rs_Code r = se_code s \<and> rs_LocalCaps r = se_localCaps s
     \<and> rs_Master r = se_master s \<and> se_keys s = Some (rs_Keys r) \<and> rs_Spake2 r = se_spake2 s
     \<and> rs_SendCounter r = se_sendCtr s \<and> rs_RecvCounter r = 1
     \<and> received E typeCaps (\<lambda>m. \<exists>frame opened. b64decode (mg_Frame m) = Some frame
         \<and> Open (recvDir (rs_Keys r) s) 0 frame = Inr opened \<and> h_Type (opened_Header opened) = FrameCaps
         \<and> unmarshal_caps (opened_Plaintext opened) = Some (rs_RemoteCaps r))"

definition rdv_base :: "'p wire_package \<Rightarrow> rdv_event set \<Rightarrow> Session \<Rightarrow> bool" where
  "rdv_base p E s \<longleftrightarrow> se_closes s = (if se_settled s then 1 else 0) \<and> \<not> se_panicked s
     \<and> (\<not> se_settled s \<longrightarrow> se_recvCtr s = 0 \<and> se_result s = None \<and> se_err s = None)
     \<and> (\<forall>w. se_w s = Some w \<longrightarrow> PasswordToScalar (NormalizeCode (se_code s)) = Inr w)
     \<and> (\<forall>out. se_spake2 s = Some out \<longrightarrow> from_share p E s out)
     \<and> (\<forall>keys. se_keys s = Some keys \<longrightarrow> (\<exists>master. se_master s = Some master \<and> confirmed p E s master keys))
     \<and> caps_counters s
     \<and> (\<forall>r. se_result s = Some r \<longrightarrow> result_ok E s r)"

definition rdv_ok :: "'p wire_package \<Rightarrow> rdv_event set \<Rightarrow> Session \<Rightarrow> bool" where
  "rdv_ok p E s \<longleftrightarrow> rdv_base p E s \<and> (\<not> se_settled s \<longrightarrow> phase_ok s)"

section \<open>Every step keeps the invariant\<close>

lemma received_mono: "received E ty P \<Longrightarrow> E \<subseteq> E' \<Longrightarrow> received E' ty P"
  by (auto simp: received_def)

lemma rdv_ok_mono:
  assumes "rdv_ok p E s" and "E \<subseteq> E'"
  shows "rdv_ok p E' s"
proof -
  note m = received_mono [OF _ assms(2)]
  have f: "from_share p E s out \<Longrightarrow> from_share p E' s out" for out unfolding from_share_def using m by blast
  have "confirmed p E s k keys \<Longrightarrow> confirmed p E' s k keys" for k keys unfolding confirmed_def using m f by blast
  moreover have "result_ok E s r \<Longrightarrow> result_ok E' s r" for r unfolding result_ok_def using m by blast
  ultimately show ?thesis using assms(1) f unfolding rdv_ok_def rdv_base_def by blast
qed

lemma rdv_ok_new: "rdv_ok p E (NewSession opts)"
  by (simp add: rdv_ok_def rdv_base_def NewSession_def phase_ok_def caps_counters_def caps_sent_def)

text \<open>Failing keeps everything but the phase.\<close>

lemma rdv_fail_eq: "\<not> se_settled s \<Longrightarrow> rdv_fail e s = s\<lparr>se_settled := True, se_err := Some e, se_phase := PhaseFailed,
    se_phases := se_phases s @ [PhaseFailed], se_closes := se_closes s + 1\<rparr>"
  by (simp add: rdv_fail_def close_done_def setPhase_def)

lemmas history_defs = from_share_def confirmed_def caps_counters_def caps_sent_def sendDir_def recvDir_def

lemma rdv_base_fail:
  assumes "rdv_base p E s"
  shows "rdv_ok p E (rdv_fail e s)"
proof (cases "se_settled s")
  case False
  with assms show ?thesis unfolding rdv_ok_def rdv_base_def rdv_fail_eq [OF False] by (simp add: history_defs)
qed (simp add: assms rdv_fail_def rdv_ok_def)

lemma rdv_base_send: "rdv_base p E s \<Longrightarrow> \<not> se_settled s \<Longrightarrow> mg_Type msg \<noteq> typeCaps \<Longrightarrow> rdv_base p E (s\<lparr>se_sent := se_sent s @ [msg]\<rparr>)"
  by (simp add: rdv_base_def history_defs)

lemma rdv_base_phase: "rdv_base p E s \<Longrightarrow> \<not> se_settled s \<Longrightarrow> rdv_base p E (setPhase ph s)"
  by (simp add: rdv_base_def history_defs setPhase_def)

lemma phase_ok_sent [simp]: "phase_ok (s\<lparr>se_sent := l\<rparr>) = phase_ok s"
  by (simp add: phase_ok_def)

lemma setPhase_sent: "setPhase ph (s\<lparr>se_sent := l\<rparr>) = (setPhase ph s)\<lparr>se_sent := l\<rparr>"
  by (simp add: setPhase_def)

lemma rdv_ok_emit:
  assumes "rdv_base p E (s\<lparr>se_sent := se_sent s @ [msg]\<rparr>)" and "\<not> se_settled s" and "phase_ok (setPhase ph s)"
  shows "rdv_ok p E (emit res msg (setPhase ph) s)"
proof (cases res)
  case None
  then show ?thesis using assms rdv_base_phase [OF assms(1), of ph] by (simp add: emit_def rdv_ok_def setPhase_sent)
next
  case (Some e)
  then show ?thesis using rdv_base_fail [OF assms(1)] by (simp add: emit_def)
qed

lemma rdv_okD:
  assumes "rdv_ok p E s" and "\<not> se_settled s"
  shows "rdv_base p E s" and "phase_ok s"
  using assms by (simp_all add: rdv_ok_def)

lemma non_caps [simp]: "typeJoin \<noteq> typeCaps" "typeCreate \<noteq> typeCaps" "typePake \<noteq> typeCaps" "typeConfirm \<noteq> typeCaps" "typeBye \<noteq> typeCaps"
  by (simp_all add: message_types)

lemma PasswordToScalar_total: "\<exists>w. PasswordToScalar pw = Inr w"
  using hkdfSHA256_total [of spake2WHKDFBytes "bytes_of_string pw" "[]" "bytes_of_string infoSpake2W"]
  by (auto simp: PasswordToScalar_def spake2WHKDFBytes_def)

lemma rdv_ok_Start:
  assumes "rdv_ok p E s"
  shows "rdv_ok p E (Rendezvous_Start reads rnd res s)"
proof (cases "se_settled s \<or> se_phase s \<noteq> PhaseIdle")
  case True
  then show ?thesis using assms by (auto simp: Rendezvous_Start_def)
next
  case False
  then have ns: "\<not> se_settled s" and idle: "se_phase s = PhaseIdle" by simp_all
  note ok = rdv_okD [OF assms ns]
  from ok(2) idle have nil: "se_secret s = None" "se_w s = None" "\<not> se_shared s" "se_spake2 s = None" "se_keys s = None"
    by (auto simp: phase_ok_def)
  have upd: "rdv_base p E (s\<lparr>se_secret := Some x, se_room := rm, se_words := ws, se_code := c, se_w := w\<rparr>)"
    if "\<forall>v. w = Some v \<longrightarrow> PasswordToScalar (NormalizeCode c) = Inr v" for x ws rm c w
    using ok(1) nil that ns by (simp add: rdv_base_def history_defs)
  have noop: "s\<lparr>se_secret := Some x\<rparr> = s\<lparr>se_secret := Some x, se_room := se_room s, se_words := se_words s, se_code := se_code s, se_w := None\<rparr>"
    "s\<lparr>se_secret := Some x, se_words := ws\<rparr> = s\<lparr>se_secret := Some x, se_room := se_room s, se_words := ws, se_code := se_code s, se_w := None\<rparr>" for x ws
    using nil by simp_all
  have joiner: "rdv_ok p E (start_joiner res (s\<lparr>se_secret := Some x\<rparr>))" for x
  proof -
    have base: "rdv_base p E (s\<lparr>se_secret := Some x\<rparr>)" by (subst noop) (rule upd, simp)
    show ?thesis
    proof (cases "ParseCode (se_joinCode s)")
      case (Inl e)
      then show ?thesis using rdv_base_fail [OF base] by (simp add: start_joiner_def)
    next
      case (Inr pc)
      let ?s = "\<lambda>w. s\<lparr>se_secret := Some x, se_room := pc_Room pc, se_words := pc_Words pc,
        se_code := FormatCode (pc_Room pc) (pc_Words pc), se_w := w\<rparr>"
      obtain w where w: "PasswordToScalar (NormalizeCode (FormatCode (pc_Room pc) (pc_Words pc))) = Inr w"
        using PasswordToScalar_total by blast
      have "rdv_base p E (?s (Some w))" by (rule upd) (simp add: w)
      then have "rdv_ok p E (emit res (zero_Message\<lparr>mg_Type := typeJoin, mg_Room := Some (pc_Room pc)\<rparr>) (setPhase PhaseWaiting) (?s (Some w)))"
        using ns nil by (intro rdv_ok_emit rdv_base_send) (simp_all add: phase_ok_def setPhase_def)
      then show ?thesis by (simp add: start_joiner_def Inr w Let_def)
    qed
  qed
  have offerer: "rdv_ok p E (start_offerer rnd res (s\<lparr>se_secret := Some x\<rparr>))" for x
  proof -
    have "rdv_base p E (s\<lparr>se_secret := Some x, se_words := ws\<rparr>)" for ws by (subst noop) (rule upd, simp)
    from this this [of "se_words s"] have base: "rdv_base p E (s\<lparr>se_secret := Some x, se_words := ws\<rparr>)" "rdv_base p E (s\<lparr>se_secret := Some x\<rparr>)" for ws
      by simp_all
    then have "rdv_ok p E (emit res (zero_Message\<lparr>mg_Type := typeCreate\<rparr>) (setPhase PhaseAllocating) (s\<lparr>se_secret := Some x, se_words := ws\<rparr>))"
      "rdv_ok p E (emit res (zero_Message\<lparr>mg_Type := typeCreate\<rparr>) (setPhase PhaseAllocating) (s\<lparr>se_secret := Some x\<rparr>))" for ws
      using ns nil by (intro rdv_ok_emit rdv_base_send; simp add: phase_ok_def setPhase_def)+
    then show ?thesis using rdv_base_fail [OF base(2)] by (simp add: start_offerer_def Let_def split: sum.split)
  qed
  show ?thesis using joiner offerer False assms rdv_base_fail [OF ok(1)]
    by (auto simp: Rendezvous_Start_def Let_def split: option.split sum.split)
qed

lemma rdv_ok_onCreated:
  assumes "rdv_ok p E s" and "\<not> se_settled s"
  shows "rdv_ok p E (onCreated msg s)"
proof (cases "mg_Room msg = None \<or> se_role s \<noteq> RoleOfferer \<or> se_phase s \<noteq> PhaseAllocating")
  case True
  then show ?thesis using rdv_base_fail [OF rdv_okD(1) [OF assms]] by (auto simp: onCreated_def split: option.split)
next
  case False
  then obtain rm where rm: "mg_Room msg = Some rm" "se_role s = RoleOfferer" "se_phase s = PhaseAllocating" by auto
  note ok = rdv_okD [OF assms]
  from ok(2) rm(3) have nil: "se_w s = None" "\<not> se_shared s" "se_spake2 s = None" "se_keys s = None" "se_secret s \<noteq> None"
    by (auto simp: phase_ok_def)
  obtain w where w: "PasswordToScalar (NormalizeCode (FormatCode rm (se_words s))) = Inr w"
    using PasswordToScalar_total by blast
  let ?s = "s\<lparr>se_room := rm, se_code := FormatCode rm (se_words s), se_w := Some w\<rparr>"
  have "rdv_base p E ?s" using ok(1) nil assms(2) w by (simp add: rdv_base_def history_defs)
  then have "rdv_ok p E (setPhase PhaseWaiting ?s)"
    using rdv_base_phase [of p E ?s] nil assms(2) by (simp add: rdv_ok_def phase_ok_def setPhase_def)
  then show ?thesis using rm w by (simp add: onCreated_def Let_def)
qed

lemma rdv_ok_onPeerJoined:
  assumes "rdv_ok p E s" and "\<not> se_settled s"
  shows "rdv_ok p E (onPeerJoined p res msg s)"
proof (cases "se_phase s \<noteq> PhaseWaiting \<or> mg_Role msg \<noteq> se_role s")
  case True
  then show ?thesis using rdv_base_fail [OF rdv_okD(1) [OF assms]] by (auto simp: onPeerJoined_def)
next
  case False
  note ok = rdv_okD [OF assms]
  from ok(2) False obtain w x where wx: "se_w s = Some w" "se_secret s = Some x" "se_spake2 s = None" "se_keys s = None"
    by (auto simp: phase_ok_def)
  have "rdv_base p E (s\<lparr>se_shared := True\<rparr>)" using ok(1) by (simp add: rdv_base_def history_defs result_ok_def)
  then have "rdv_ok p E (emit res (zero_Message\<lparr>mg_Type := typePake, mg_Msg := m\<rparr>) (setPhase PhaseHandshaking) (s\<lparr>se_shared := True\<rparr>))" for m
    using assms(2) wx by (intro rdv_ok_emit rdv_base_send) (simp_all add: phase_ok_def setPhase_def)
  then show ?thesis using False wx rdv_base_fail [OF ok(1)] by (simp add: onPeerJoined_def split: sum.split)
qed

lemma shared_phase:
  assumes "phase_ok s" and "se_shared s \<or> se_spake2 s \<noteq> None \<or> se_keys s \<noteq> None"
  obtains w x where "se_w s = Some w" "se_secret s = Some x" "se_phase s \<notin> {PhaseIdle, PhaseAllocating, PhaseWaiting}"
proof -
  have "se_phase s \<notin> {PhaseIdle, PhaseAllocating, PhaseWaiting}" using assms unfolding phase_ok_def by blast
  moreover from this assms(1) have "se_w s \<noteq> None" "se_secret s \<noteq> None" by (simp_all add: phase_ok_def)
  ultimately show ?thesis using that by blast
qed

lemma rdv_ok_onPake:
  assumes "rdv_ok p E s" and "\<not> se_settled s" and "RdvHandle res' msg \<in> E" and "mg_Type msg = typePake"
  shows "rdv_ok p E (onPake p res msg s)"
proof (cases "\<not> se_shared s \<or> b64decode (mg_Msg msg) = None")
  case True
  then show ?thesis using rdv_base_fail [OF rdv_okD(1) [OF assms(1,2)]] by (auto simp: onPake_def)
next
  case False
  note ok = rdv_okD [OF assms(1,2)]
  from False obtain share where sh: "se_shared s" "b64decode (mg_Msg msg) = Some share" by auto
  obtain w x where wx: "se_w s = Some w" "se_secret s = Some x" "se_phase s \<notin> {PhaseIdle, PhaseAllocating, PhaseWaiting}"
    using shared_phase [OF ok(2)] sh(1) by blast
  have step: "rdv_ok p E (emit res (zero_Message\<lparr>mg_Type := typeConfirm, mg_Mac := m\<rparr>) (setPhase PhaseConfirming) (s\<lparr>se_spake2 := Some out\<rparr>))"
    if out: "Finish p (se_role s) w x share = Inr out" for m out
  proof -
    have "received E typePake (\<lambda>m. b64decode (mg_Msg m) = Some share)" using assms(3,4) sh(2) by (auto simp: received_def)
    then have "from_share p E (s\<lparr>se_spake2 := Some out\<rparr>) out" using out wx by (auto simp: from_share_def)
    then have "rdv_base p E (s\<lparr>se_spake2 := Some out\<rparr>)" using ok(1) assms(2) by (simp add: rdv_base_def history_defs)
    then show ?thesis using assms(2) wx by (intro rdv_ok_emit rdv_base_send) (simp_all add: phase_ok_def setPhase_def)
  qed
  show ?thesis using sh wx step rdv_base_fail [OF ok(1)] by (simp add: onPake_def split: sum.split)
qed

lemma caps_counters_send:
  assumes "caps_counters s" and "Seal (sendDir keys s) (se_sendCtr s) capsHeader (bytes_of_string (json_print (caps_json (se_localCaps s)))) = Inr frame"
    and "mg_Type msg = typeCaps" and "mg_Frame msg = b64encode frame"
  shows "caps_counters (s\<lparr>se_sendCtr := se_sendCtr s + 1, se_sent := se_sent s @ [msg]\<rparr>)"
proof -
  let ?s = "s\<lparr>se_sendCtr := se_sendCtr s + 1, se_sent := se_sent s @ [msg]\<rparr>"
  have sent: "caps_sent ?s = caps_sent s @ [msg]" using assms(3) by (simp add: caps_sent_def)
  have ctr: "se_sendCtr s = of_nat (length (caps_sent s))" using assms(1) by (simp add: caps_counters_def)
  show ?thesis unfolding caps_counters_def sent
  proof (intro conjI allI impI)
    show "se_sendCtr ?s = of_nat (length (caps_sent s @ [msg]))" by (simp add: ctr)
    fix i assume "i < length (caps_sent s @ [msg])"
    then consider "i < length (caps_sent s)" | "i = length (caps_sent s)" by fastforce
    then show "\<exists>keys frame. Seal (sendDir keys ?s) (of_nat i) capsHeader (bytes_of_string (json_print (caps_json (se_localCaps ?s)))) = Inr frame
        \<and> mg_Frame ((caps_sent s @ [msg]) ! i) = b64encode frame"
    proof cases
      case 1
      then show ?thesis using assms(1) by (simp add: caps_counters_def sendDir_def nth_append)
    next
      case 2
      then have "Seal (sendDir keys ?s) (of_nat i) capsHeader (bytes_of_string (json_print (caps_json (se_localCaps ?s)))) = Inr frame
          \<and> mg_Frame ((caps_sent s @ [msg]) ! i) = b64encode frame"
        using assms(2,4) ctr by (simp add: sendDir_def)
      then show ?thesis by blast
    qed
  qed
qed

lemma rdv_ok_send_caps:
  assumes "rdv_base p E s" and "\<not> se_settled s" and "phase_ok s" and "se_spake2 s \<noteq> None"
  shows "rdv_ok p E (send_caps res keys s)"
proof -
  let ?pl = "bytes_of_string (json_print (caps_json (se_localCaps s)))"
  obtain w x where wx: "se_w s = Some w" "se_secret s = Some x" using shared_phase [OF assms(3)] assms(4) by blast
  have "rdv_ok p E (emit res (zero_Message\<lparr>mg_Type := typeCaps, mg_Frame := b64encode frame\<rparr>) (setPhase PhaseExchangingCaps)
      (s\<lparr>se_sendCtr := se_sendCtr s + 1\<rparr>))" if frame: "Seal (sendDir keys s) (se_sendCtr s) capsHeader ?pl = Inr frame" for frame
  proof (intro rdv_ok_emit)
    let ?m = "zero_Message\<lparr>mg_Type := typeCaps, mg_Frame := b64encode frame\<rparr>"
    have "caps_counters s" using assms(1) by (simp add: rdv_base_def)
    from caps_counters_send [OF this frame, of ?m] assms(1,2)
    show "rdv_base p E (s\<lparr>se_sendCtr := se_sendCtr s + 1, se_sent := se_sent (s\<lparr>se_sendCtr := se_sendCtr s + 1\<rparr>) @ [?m]\<rparr>)"
      by (simp add: rdv_base_def from_share_def confirmed_def)
  qed (use assms(2) wx in \<open>simp_all add: phase_ok_def setPhase_def\<close>)
  then show ?thesis using rdv_base_fail [OF assms(1)] by (simp add: send_caps_def split: sum.split)
qed

lemma DeriveMaster_total: "\<exists>m. DeriveMaster ke t = Inr m"
  using hkdfSHA256_total [of aeadKeyBytes ke "[]" "bytes_of_string infoMaster @ t"]
  by (auto simp: DeriveMaster_def aeadKeyBytes_def)

lemma rdv_ok_onConfirm:
  assumes "rdv_ok p E s" and "\<not> se_settled s" and "RdvHandle res' msg \<in> E" and "mg_Type msg = typeConfirm"
  shows "rdv_ok p E (onConfirm res msg s)"
proof (cases "\<exists>out. se_spake2 s = Some out \<and> b64decode (mg_Mac msg) = Some (expectedConfirm (se_role s) out)")
  case False
  then show ?thesis using rdv_base_fail [OF rdv_okD(1) [OF assms(1,2)]] by (auto simp: onConfirm_def split: option.split)
next
  case True
  note ok = rdv_okD [OF assms(1,2)]
  from True obtain out where out: "se_spake2 s = Some out" "b64decode (mg_Mac msg) = Some (expectedConfirm (se_role s) out)" by blast
  obtain master where master: "DeriveMaster (so_Ke out) (so_Transcript out) = Inr master" using DeriveMaster_total by blast
  obtain keys where keys: "DeriveTransferKeys master = Inr keys" using DeriveTransferKeys_total by blast
  let ?s = "s\<lparr>se_master := Some master, se_keys := Some keys\<rparr>"
  have "from_share p E s out" using ok(1) out(1) by (simp add: rdv_base_def)
  moreover have "received E typeConfirm (\<lambda>m. b64decode (mg_Mac m) = Some (expectedConfirm (se_role s) out))"
    using assms(3,4) out(2) by (auto simp: received_def)
  ultimately have "confirmed p E ?s master keys" using master keys by (auto simp: confirmed_def from_share_def)
  then have "rdv_base p E ?s" using ok(1) assms(2) by (simp add: rdv_base_def from_share_def caps_counters_def caps_sent_def sendDir_def)
  moreover have "phase_ok ?s" using ok(2) out(1) by (auto simp: phase_ok_def)
  ultimately have "rdv_ok p E (send_caps res keys ?s)" using assms(2) out(1) by (intro rdv_ok_send_caps) simp_all
  then show ?thesis using out master keys by (simp add: onConfirm_def Let_def)
qed

lemma rdv_ok_onCaps:
  assumes "rdv_ok p E s" and "\<not> se_settled s" and "RdvHandle res' msg \<in> E" and "mg_Type msg = typeCaps"
  shows "rdv_ok p E (onCaps msg s)"
proof -
  note ok = rdv_okD [OF assms(1,2)]
  have ctr: "se_recvCtr s = 0" using ok(1) assms(2) by (simp add: rdv_base_def)
  have settled: "rdv_ok p E (rdv_fail e (s\<lparr>se_recvCtr := se_recvCtr s + 1\<rparr>))" for e
  proof -
    have "rdv_base p E (rdv_fail e s)" using rdv_base_fail [OF ok(1)] by (simp add: rdv_ok_def)
    then show ?thesis using assms(2) ok(1) by (simp add: rdv_ok_def rdv_base_def rdv_fail_eq history_defs)
  qed
  show ?thesis
  proof (cases "se_keys s")
    case None
    then show ?thesis using rdv_base_fail [OF ok(1)] by (simp add: onCaps_def)
  next
    case (Some keys)
    show ?thesis
    proof (cases "\<exists>frame opened remote. b64decode (mg_Frame msg) = Some frame \<and> Open (recvDir keys s) (se_recvCtr s) frame = Inr opened
        \<and> h_Type (opened_Header opened) = FrameCaps \<and> unmarshal_caps (opened_Plaintext opened) = Some remote")
      case False
      then show ?thesis using Some rdv_base_fail [OF ok(1)] settled by (auto simp: onCaps_def Let_def split: option.split sum.split)
    next
      case True
      then obtain frame opened remote where fr: "b64decode (mg_Frame msg) = Some frame" "Open (recvDir keys s) (se_recvCtr s) frame = Inr opened"
        "h_Type (opened_Header opened) = FrameCaps" "unmarshal_caps (opened_Plaintext opened) = Some remote" by blast
      let ?s1 = "s\<lparr>se_recvCtr := se_recvCtr s + 1\<rparr>" and ?r = "rdv_result keys remote (s\<lparr>se_recvCtr := se_recvCtr s + 1\<rparr>)"
      have eq: "onCaps msg s = succeed ?r ?s1" using Some fr by (simp add: onCaps_def Let_def)
      have "received E typeCaps (\<lambda>m. \<exists>frame opened. b64decode (mg_Frame m) = Some frame
         \<and> Open (recvDir keys s) 0 frame = Inr opened \<and> h_Type (opened_Header opened) = FrameCaps
         \<and> unmarshal_caps (opened_Plaintext opened) = Some remote)"
        unfolding received_def using assms(3,4) fr ctr by metis
      then have "result_ok E (succeed ?r ?s1) ?r"
        using assms(2) Some ok(1) ctr by (simp add: result_ok_def succeed_def close_done_def setPhase_def rdv_result_def recvDir_def rdv_base_def)
      then show ?thesis unfolding eq using ok(1) assms(2)
        by (simp add: rdv_ok_def rdv_base_def succeed_def close_done_def setPhase_def history_defs)
    qed
  qed
qed

lemma rdv_ok_step:
  assumes "rdv_ok p E s"
  shows "rdv_ok p (insert e E) (rdv_step p s e)"
proof -
  have ok: "rdv_ok p (insert e E) s" by (rule rdv_ok_mono [OF assms]) blast
  then have base: "rdv_base p (insert e E) s" by (simp add: rdv_ok_def)
  show ?thesis
  proof (cases e)
    case (RdvStart reads rnd res)
    with rdv_ok_Start [OF ok] show ?thesis by simp
  next
    case (RdvHandle res msg)
    then have "RdvHandle res msg \<in> insert e E" by simp
    note h = this
    show ?thesis unfolding RdvHandle
      using ok rdv_base_fail [OF base] rdv_ok_onCreated [OF ok] rdv_ok_onPeerJoined [OF ok] rdv_ok_onPake [OF ok _ h]
        rdv_ok_onConfirm [OF ok _ h] rdv_ok_onCaps [OF ok _ h]
      by (simp add: Rendezvous_Handle_def RdvHandle)
  next
    case (RdvAbort reason)
    have "\<not> se_settled s \<Longrightarrow> rdv_base p (insert e E) (s\<lparr>se_sent := se_sent s @ [zero_Message\<lparr>mg_Type := typeBye, mg_Reason := reason\<rparr>]\<rparr>)"
      using base by (intro rdv_base_send) simp_all
    then show ?thesis using ok RdvAbort by (auto simp: Rendezvous_Abort_def intro!: rdv_base_fail)
  next
    case (RdvFail er)
    then show ?thesis using rdv_base_fail [OF base] by (cases er) (simp_all add: Rendezvous_Fail_def)
  qed
qed

lemma rdv_ok_run: "rdv_ok p (set es) (rdv_run p opts es)"
proof (induction es rule: rev_induct)
  case Nil
  show ?case using rdv_ok_new by (simp add: rdv_run_def)
next
  case (snoc e es)
  show ?case using rdv_ok_step [OF snoc, of e] by (simp add: rdv_run_def)
qed

section \<open>Constant fields and settled sessions\<close>

lemmas handler_defs = onCreated_def onPeerJoined_def onPake_def onConfirm_def onCaps_def send_caps_def emit_def rdv_fail_def
  succeed_def close_done_def setPhase_def panic_def Let_def

lemma se_role_Start: "se_role (Rendezvous_Start reads rnd res s) = se_role s"
  by (simp add: Rendezvous_Start_def start_joiner_def start_offerer_def emit_def rdv_fail_def close_done_def setPhase_def Let_def
      split: option.split sum.split)

lemma se_role_Handle: "se_role (Rendezvous_Handle p res msg s) = se_role s"
proof -
  have "se_role (onCreated msg s) = se_role s" "se_role (onPeerJoined p res msg s) = se_role s" "se_role (onPake p res msg s) = se_role s"
    "se_role (onConfirm res msg s) = se_role s" "se_role (onCaps msg s) = se_role s"
    by (simp_all add: handler_defs split: option.split sum.split)
  then show ?thesis by (simp add: Rendezvous_Handle_def rdv_fail_def close_done_def setPhase_def)
qed

lemma se_role_run: "se_role (rdv_run p opts es) = op_Role opts"
proof (induction es rule: rev_induct)
  case Nil
  show ?case by (simp add: rdv_run_def NewSession_def)
next
  case (snoc e es)
  have "se_role (rdv_step p s e) = se_role s" for s
    by (cases e) (simp_all add: se_role_Start se_role_Handle Rendezvous_Abort_def Rendezvous_Fail_def rdv_fail_def close_done_def setPhase_def split: option.split)
  with snoc show ?case by (simp add: rdv_run_def)
qed

lemma settled_step: "se_settled s \<Longrightarrow> rdv_step p s e = s"
  by (cases e) (simp_all add: Rendezvous_Start_def Rendezvous_Handle_def Rendezvous_Abort_def Rendezvous_Fail_def rdv_fail_def split: option.split)

lemma settled_run: "se_settled s \<Longrightarrow> foldl (rdv_step p) s es = s"
  by (induction es) (simp_all add: settled_step)

section \<open>Properties\<close>

text \<open>C5: A session is established only on a confirmed key.  Whatever messages arrive, in whatever order and however
  often, a result carries the keys derived from a SPAKE2 output that the session computed from its own code and secret
  and a share it received, after it received the confirmation that only a peer with the same output can compute; the
  peer's capabilities were opened under the receiving key at counter 0; and the counters handed on lie beyond every
  frame the session has sealed or opened, so no nonce repeats.\<close>

theorem rendezvous_established_confirmed:
  assumes "se_result (rdv_run p opts es) = Some r"
  shows "rs_Role r = op_Role opts \<and> rs_RecvCounter r = 1
    \<and> rs_SendCounter r = of_nat (length (caps_sent (rdv_run p opts es))) \<and> caps_counters (rdv_run p opts es)
    \<and> (\<exists>w x share out master. PasswordToScalar (NormalizeCode (rs_Code r)) = Inr w
        \<and> received (set es) typePake (\<lambda>m. b64decode (mg_Msg m) = Some share)
        \<and> Finish p (op_Role opts) w x share = Inr out
        \<and> received (set es) typeConfirm (\<lambda>m. b64decode (mg_Mac m) = Some (expectedConfirm (op_Role opts) out))
        \<and> rs_Master r = Some master \<and> DeriveMaster (so_Ke out) (so_Transcript out) = Inr master
        \<and> DeriveTransferKeys master = Inr (rs_Keys r))
    \<and> received (set es) typeCaps (\<lambda>m. \<exists>frame opened. b64decode (mg_Frame m) = Some frame
         \<and> Open (if op_Role opts = RoleOfferer then J2O (rs_Keys r) else O2J (rs_Keys r)) 0 frame = Inr opened
         \<and> h_Type (opened_Header opened) = FrameCaps \<and> unmarshal_caps (opened_Plaintext opened) = Some (rs_RemoteCaps r))"
proof -
  let ?s = "rdv_run p opts es"
  have role: "se_role ?s = op_Role opts" by (rule se_role_run)
  have base: "rdv_base p (set es) ?s" using rdv_ok_run [of p es opts] by (simp add: rdv_ok_def)
  then have res: "result_ok (set es) ?s r" using assms by (simp add: rdv_base_def)
  then have k: "se_keys ?s = Some (rs_Keys r)" "rs_Master r = se_master ?s" "rs_Code r = se_code ?s" by (simp_all add: result_ok_def)
  with base obtain master where m: "se_master ?s = Some master" "confirmed p (set es) ?s master (rs_Keys r)" by (auto simp: rdv_base_def)
  from m(2) obtain out w x share where o: "se_w ?s = Some w" "received (set es) typePake (\<lambda>m. b64decode (mg_Msg m) = Some share)"
    "Finish p (op_Role opts) w x share = Inr out"
    "received (set es) typeConfirm (\<lambda>m. b64decode (mg_Mac m) = Some (expectedConfirm (op_Role opts) out))"
    "DeriveMaster (so_Ke out) (so_Transcript out) = Inr master" "DeriveTransferKeys master = Inr (rs_Keys r)"
    unfolding confirmed_def from_share_def role by blast
  have "PasswordToScalar (NormalizeCode (rs_Code r)) = Inr w" using base o(1) k(3) by (simp add: rdv_base_def)
  moreover have "rs_Master r = Some master" using k(2) m(1) by simp
  moreover have "caps_counters ?s" using base by (simp add: rdv_base_def)
  moreover from this have "se_sendCtr ?s = of_nat (length (caps_sent ?s))" by (simp only: caps_counters_def)
  ultimately show ?thesis using o res unfolding result_ok_def role recvDir_def by auto
qed

text \<open>A session settles at most once and never crashes: the done channel is closed exactly when the session is
  settled, no missing scalar is ever dereferenced, and a settled session keeps its outcome whatever happens next.\<close>

theorem rendezvous_settles_once:
  "se_closes (rdv_run p opts es) = (if se_settled (rdv_run p opts es) then 1 else 0)
   \<and> \<not> se_panicked (rdv_run p opts es)
   \<and> (se_settled (rdv_run p opts es) \<longrightarrow> rdv_run p opts (es @ es') = rdv_run p opts es)
   \<and> (Rendezvous_Result (rdv_run p opts es) = Some (Some r, er) \<longrightarrow> er = None)"
proof -
  have base: "rdv_base p (set es) (rdv_run p opts es)" using rdv_ok_run [of p es opts] by (simp add: rdv_ok_def)
  then show ?thesis using settled_run [of "rdv_run p opts es" p es']
    by (auto simp: rdv_base_def rdv_run_def Rendezvous_Result_def result_ok_def split: if_splits)
qed

definition example_package :: "residue wire_package" where
  "example_package = \<lparr>wp_curve = example_curve, seedM = residue_of 3, seedN = residue_of 5\<rparr>"

definition example_offerer :: Options where
  "example_offerer = \<lparr>op_Role = RoleOfferer, op_Code = [], op_Words = ''brave-otter'', op_WordCount = 0, op_LocalCaps = None\<rparr>"

definition example_joiner :: Options where
  "example_joiner = \<lparr>op_Role = RoleJoiner, op_Code = ''7-brave-otter'', op_Words = [], op_WordCount = 0, op_LocalCaps = None\<rparr>"

theorem rendezvous_settles_once_witness:
  "se_closes (rdv_run example_package example_offerer [RdvFail None]) = 1
   \<and> rdv_run example_package example_offerer [RdvFail None, RdvAbort ''x''] = rdv_run example_package example_offerer [RdvFail None]"
proof -
  have "se_settled (rdv_run example_package example_offerer [RdvFail None])"
    by (simp add: rdv_run_def Rendezvous_Fail_def rdv_fail_def close_done_def setPhase_def NewSession_def)
  then show ?thesis using rendezvous_settles_once [of example_package example_offerer "[RdvFail None]" "[RdvAbort ''x'']"] by simp
qed

end
