(* ===== verification/ResumeProps.thy ===== *)
theory ResumeProps
  imports ResumeSpec
begin

text \<open>
  The properties of the resume authentication, over every sequence of calls on a session.
\<close>

section \<open>Sessions under any sequence of calls\<close>

datatype resume_event = CallStart "(err, bytes) result" | CallHandle "(err, bytes) result" bytes

fun resume_step :: "ResumeAuthSession \<Rightarrow> resume_event \<Rightarrow> ResumeAuthSession" where
  "resume_step s (CallStart rnd) = snd (Start rnd s)"
| "resume_step s (CallHandle rnd payload) = (case Session_Handle rnd payload s of None \<Rightarrow> s | Some (h, s') \<Rightarrow> s')"

lemma session_ok_Start:
  assumes "session_ok s"
  shows "session_ok (snd (Start rnd s))"
proof (cases "ra_state s = resumeStateIdle \<and> rc_Role (ra_ctx s) \<noteq> RoleJoiner")
  case True
  then have "rc_Role (ra_ctx s) = RoleOfferer" using assms by (auto simp: session_ok_def context_ok_def)
  with True assms show ?thesis
    by (cases "randomNonce rnd s") (auto simp: Start_def session_ok_def offerer_ok_def dest: randomNonce_length
        intro: session_ok_failed [unfolded session_ok_def])
qed (use assms in \<open>auto simp: Start_def\<close>)

lemma ra_ctx_Start [simp]: "ra_ctx (snd (Start rnd s)) = ra_ctx s"
  by (simp add: Start_def split: sum.splits)

lemma session_ok_step: "session_ok s \<Longrightarrow> session_ok (resume_step s e) \<and> ra_ctx (resume_step s e) = ra_ctx s"
proof (cases e)
  case (CallHandle rnd payload)
  assume "session_ok s"
  from Session_Handle_ok [OF this, of payload rnd] CallHandle show ?thesis by (auto simp: handles_def)
qed (simp add: session_ok_Start)

interpretation resume_session: machine resume_step "\<lambda>s. session_ok s \<and> ra_ctx s = ctx" for ctx
  by unfold_locales (simp add: session_ok_step)

lemma session_ok_new: "NewResumeAuthSession ctx = Inr s \<Longrightarrow> session_ok s \<and> ra_ctx s = ctx"
  by (auto simp: NewResumeAuthSession_def session_ok_def context_ok_def offerer_ok_def joiner_ok_def
      resume_lengths split: if_splits)

lemma session_ok_run:
  "NewResumeAuthSession ctx = Inr s \<Longrightarrow> session_ok (foldl resume_step s es) \<and> ra_ctx (foldl resume_step s es) = ctx"
  by (rule resume_session.inv_run) (rule session_ok_new)

text \<open>A call on a reachable session.\<close>

lemma reachable_call:
  assumes "NewResumeAuthSession ctx = Inr s0" and "Session_Handle rnd p (foldl resume_step s0 es) = Some (h, s')"
  shows "session_ok s'" and "ra_ctx s' = ctx" and "outcome_ok p s' h"
  using Session_Handle_ok [of "foldl resume_step s0 es" p rnd] session_ok_run [OF assms(1), of es] assms(2)
  by (auto simp: handles_def)

text \<open>The session accepted messages that prove the peer knows the secret, over the transcript \<open>t\<close>.\<close>

definition joiner_proved :: "ResumeAuthSession \<Rightarrow> bytes \<Rightarrow> bytes \<Rightarrow> bool" where
  "joiner_proved s secret t \<longleftrightarrow> (\<exists>c d mc md. {c, d} \<subseteq> as_accepted ` set (ra_steps s)
     \<and> DecodeResumeMessage c = Inr mc \<and> rmsg_Type mc = ResumeMsgChallenge
     \<and> b64_bytes (rmsg_Nonce mc) = ra_joinerNonce s
     \<and> ResumeJoinerProof secret t = Inr (b64_bytes (rmsg_Proof mc))
     \<and> DecodeResumeMessage d = Inr md \<and> rmsg_Type md = ResumeMsgReady
     \<and> ResumeReadyProof secret t = Inr (b64_bytes (rmsg_Proof md)))"

definition offerer_proved :: "ResumeAuthSession \<Rightarrow> bytes \<Rightarrow> bytes \<Rightarrow> bool" where
  "offerer_proved s secret t \<longleftrightarrow> (\<exists>i c mi mc. {i, c} \<subseteq> as_accepted ` set (ra_steps s)
     \<and> DecodeResumeMessage i = Inr mi \<and> rmsg_Type mi = ResumeMsgInit
     \<and> b64_bytes (rmsg_Nonce mi) = ra_offererNonce s
     \<and> DecodeResumeMessage c = Inr mc \<and> rmsg_Type mc = ResumeMsgConfirm
     \<and> ResumeOffererProof secret t = Inr (b64_bytes (rmsg_Proof mc)))"

lemma done_session:
  assumes "session_ok s" and "ra_state s = resumeStateDone"
  shows "context_transcript (ra_ctx s) (ra_offererNonce s) (ra_joinerNonce s) = Inr (ra_transcript s)"
    and "rc_Role (ra_ctx s) = RoleOfferer \<Longrightarrow> joiner_proved s (session_secret s) (ra_transcript s)"
    and "rc_Role (ra_ctx s) \<noteq> RoleOfferer \<Longrightarrow> offerer_proved s (session_secret s) (ra_transcript s)"
proof -
  have off: "\<exists>c d. ra_steps s = [c, d] \<and> challenge_accepted s c \<and> ready_accepted s d" if "rc_Role (ra_ctx s) = RoleOfferer"
    using assms that by (auto simp: session_ok_def offerer_ok_def)
  have join: "\<exists>i c. ra_steps s = [i, c] \<and> init_accepted s i \<and> confirm_accepted s c" if "rc_Role (ra_ctx s) \<noteq> RoleOfferer"
    using assms that by (auto simp: session_ok_def joiner_ok_def)
  show "context_transcript (ra_ctx s) (ra_offererNonce s) (ra_joinerNonce s) = Inr (ra_transcript s)"
    using off join unfolding challenge_accepted_def init_accepted_def by blast
  show "joiner_proved s (session_secret s) (ra_transcript s)" if r: "rc_Role (ra_ctx s) = RoleOfferer"
  proof -
    from off [OF r] obtain c d where "ra_steps s = [c, d]" "challenge_accepted s c" "ready_accepted s d" by blast
    then show ?thesis unfolding joiner_proved_def challenge_accepted_def ready_accepted_def
      by (intro exI [of _ "as_accepted c"] exI [of _ "as_accepted d"]) auto
  qed
  show "offerer_proved s (session_secret s) (ra_transcript s)" if r: "rc_Role (ra_ctx s) \<noteq> RoleOfferer"
  proof -
    from join [OF r] obtain i c where "ra_steps s = [i, c]" "init_accepted s i" "confirm_accepted s c" by blast
    then show ?thesis unfolding offerer_proved_def init_accepted_def confirm_accepted_def
      by (intro exI [of _ "as_accepted i"] exI [of _ "as_accepted c"]) auto
  qed
qed

section \<open>Properties\<close>

text \<open>C4: A session hands out keys only after mutual authentication.  Whatever messages arrive in
  whatever order, a result is returned only together with no error, its keys are those derived from the
  resume secret and the transcript of this attempt (own transfer id, own fingerprint, both nonces), and
  the session has accepted messages that carry exactly the proofs of the peer over that transcript: the
  offerer a challenge with the joiner's proof and a ready with the ready proof, the joiner an init and a
  confirm with the offerer's proof.\<close>

theorem resume_result_verified:
  assumes "NewResumeAuthSession ctx = Inr s0"
    and "Session_Handle rnd payload (foldl resume_step s0 es) = Some ((out, Some r, er), s)"
  shows "er = None \<and> rr_Role r = rc_Role ctx \<and> rr_TransferID r = rc_TransferID ctx
    \<and> rr_SendCounter r = 0 \<and> rr_RecvCounter r = 0
    \<and> (\<exists>t master. ResumeTranscript (rc_Version ctx) (rc_TransferID ctx) (rc_ManifestFingerprint ctx)
            (ra_offererNonce s) (ra_joinerNonce s) = Inr t
        \<and> ResumeSessionMaster (rc_ResumeSecret ctx) t = Inr master \<and> DeriveTransferKeys master = Inr (rr_Keys r)
        \<and> (if rc_Role ctx = RoleOfferer then joiner_proved s (rc_ResumeSecret ctx) t
           else offerer_proved s (rc_ResumeSecret ctx) t))"
proof -
  note call = reachable_call [OF assms]
  from call(3) have er: "er = None" and res: "ra_result s = Some r" and st: "ra_state s \<noteq> resumeStateFailed"
    by (cases er; simp)+
  have fin: "finished s" "ra_state s = resumeStateDone" using call(1) res st
    by (auto simp: session_ok_def offerer_ok_def joiner_ok_def split: if_splits resumeAuthState.splits)
  then have "buildResult s = Inr r" using res by (simp add: finished_def)
  then obtain master where "ResumeSessionMaster (rc_ResumeSecret ctx) (ra_transcript s) = Inr master"
    "DeriveTransferKeys master = Inr (rr_Keys r)" "rr_Role r = rc_Role ctx" "rr_TransferID r = rc_TransferID ctx"
    "rr_SendCounter r = 0" "rr_RecvCounter r = 0"
    using call(2) by (auto simp: buildResult_def split: sum.splits)
  then show ?thesis
    using er done_session [OF call(1) fin(2)] call(2) unfolding context_transcript_def by simp
qed

text \<open>Exact duplicates are idempotent.  A message a session accepted is answered again with the same
  message and result, without any change of state and without a fresh nonce or proof, whatever the random
  source would deliver.\<close>

theorem resume_duplicate_idempotent:
  assumes "NewResumeAuthSession ctx = Inr s0"
    and "Session_Handle rnd payload (foldl resume_step s0 es) = Some ((out, res, None), s)"
  shows "Session_Handle rnd' payload s = Some ((out, res, None), s)"
proof -
  from reachable_call(3) [OF assms] have st: "ra_state s \<noteq> resumeStateFailed" and res: "res = ra_result s"
    and a: "answered payload s out" by simp_all
  from a obtain m st where "DecodeResumeMessage payload = Inr m" "findStep payload s = Some st"
    "case as_responded st of None \<Rightarrow> out = None | Some r \<Rightarrow> \<exists>m. out = Some m \<and> DecodeResumeMessage r = Inr m"
    by (auto simp: answered_def)
  then show ?thesis using st res by (auto simp: Session_Handle_def split: option.splits)
qed

lemma failed_session_step:
  assumes "ra_state s = resumeStateFailed"
  shows "resume_step s e = s" and "Session_Handle rnd q s = Some ((None, None, ra_settledErr s), s)"
  using assms by (cases e; simp add: Session_Handle_def Start_def)+

lemma failed_session_run: "ra_state s = resumeStateFailed \<Longrightarrow> foldl resume_step s es = s"
  by (induction es) (simp_all add: failed_session_step)
text \<open>Sessions never panic and fail closed.  Every call returns; when it returns an error there is no
  message and no result with it, and from then on every call of any kind returns that same error and leaves
  the session as it is.\<close>

theorem resume_fail_closed:
  assumes "NewResumeAuthSession ctx = Inr s0"
  shows "\<exists>out res er s. Session_Handle rnd payload (foldl resume_step s0 es) = Some ((out, res, er), s)
    \<and> (er \<noteq> None \<longrightarrow> out = None \<and> res = None
         \<and> (\<forall>es' rnd' q. foldl resume_step s es' = s \<and> Session_Handle rnd' q s = Some ((None, None, er), s)))"
proof -
  have "session_ok (foldl resume_step s0 es)" using session_ok_run [OF assms] by blast
  from Session_Handle_ok [OF this, of payload rnd] obtain out res er s
    where h: "Session_Handle rnd payload (foldl resume_step s0 es) = Some ((out, res, er), s)" "outcome_ok payload s (out, res, er)"
    unfolding handles_def by (metis surj_pair)
  have "out = None \<and> res = None \<and> (\<forall>es' rnd' q. foldl resume_step s es' = s \<and> Session_Handle rnd' q s = Some ((None, None, er), s))"
    if "er \<noteq> None"
    using h(2) that failed_session_run [of s] failed_session_step(2) [of s] by (cases er) auto
  with h(1) show ?thesis by blast
qed

text \<open>The confirm a session sent, and the confirm a finished session accepted.\<close>

lemma findStep_mem: "findStep p s = Some st \<Longrightarrow> st \<in> set (ra_steps s)"
  by (auto simp: findStep_def find_Some_iff)

lemma findStep_accepted: "findStep p s = Some st \<Longrightarrow> as_accepted st = p"
  by (auto simp: findStep_def find_Some_iff)

lemma confirm_sent:
  assumes "session_ok s" and "rc_Role (ra_ctx s) = RoleOfferer" and "ra_state s \<noteq> resumeStateFailed"
    and "answered p s (Some m)"
  shows "context_transcript (ra_ctx s) (ra_offererNonce s) (ra_joinerNonce s) = Inr (ra_transcript s)
    \<and> ResumeOffererProof (session_secret s) (ra_transcript s) = Inr (b64_bytes (rmsg_Proof m))"
proof -
  from assms(4) obtain st r where st: "findStep p s = Some st" "as_responded st = Some r" "DecodeResumeMessage r = Inr m"
    by (auto simp: answered_def split: option.splits)
  have "st \<in> set (ra_steps s)" by (rule findStep_mem [OF st(1)])
  moreover have "\<not> ready_accepted s st" using st(2) by (auto simp: ready_accepted_def)
  ultimately have "challenge_accepted s st"
    using assms(1-3) by (auto simp: session_ok_def offerer_ok_def split: resumeAuthState.splits)
  then obtain q where q: "context_transcript (ra_ctx s) (ra_offererNonce s) (ra_joinerNonce s) = Inr (ra_transcript s)"
    "ResumeOffererProof (session_secret s) (ra_transcript s) = Inr q" "Some r = mustEncodeMessage (confirm_msg q)"
    using st(2) by (auto simp: challenge_accepted_def)
  from q(2) have "length q = 32" by (auto simp: ResumeOffererProof_def split: sum.splits)
  then have "m = confirm_msg q" using mustEncode_wellformed [OF wellformed_msgs(3)] q(3) st(3) by fastforce
  with q show ?thesis by simp
qed

lemma confirm_taken:
  assumes "session_ok s" and "rc_Role (ra_ctx s) \<noteq> RoleOfferer" and "ra_state s = resumeStateDone"
    and "answered p s out" and "DecodeResumeMessage p = Inr m" and "rmsg_Type m = ResumeMsgConfirm"
  shows "ResumeOffererProof (session_secret s) (ra_transcript s) = Inr (b64_bytes (rmsg_Proof m))"
proof -
  from assms(4) obtain st where st: "findStep p s = Some st" by (auto simp: answered_def)
  note mem = findStep_mem [OF st] and eq = findStep_accepted [OF st]
  have "\<not> init_accepted s st" using assms(5,6) eq by (auto simp: init_accepted_def resume_names)
  with mem have "confirm_accepted s st" using assms(1-3) by (auto simp: session_ok_def joiner_ok_def)
  with assms(5) eq show ?thesis by (auto simp: confirm_accepted_def)
qed

text \<open>C13: Agreement.  Suppose an offerer session sends a confirm and a joiner session with the same secret
  finishes on it, each after an arbitrary history of messages.  Then both attempts have the same transfer id,
  the same manifest fingerprint and the same two nonces, and the joiner's keys are the keys the offerer derives;
  otherwise the two different transcripts of these very runs have the same HMAC-SHA256 under the proof key of
  the secret.\<close>

theorem resume_agreement:
  assumes "NewResumeAuthSession octx = Inr o0" and "rc_Role octx = RoleOfferer"
    and "NewResumeAuthSession jctx = Inr j0" and "rc_Role jctx = RoleJoiner"
    and "rc_ResumeSecret jctx = rc_ResumeSecret octx"
    and "Session_Handle rnd p (foldl resume_step o0 es) = Some ((Some confirm, res, None), off)"
    and "DecodeResumeMessage q = Inr confirm" and "rmsg_Type confirm = ResumeMsgConfirm"
    and "Session_Handle rnd' q (foldl resume_step j0 es') = Some ((out, Some rj, None), joi)"
  shows "(rc_TransferID octx = rc_TransferID jctx \<and> rc_ManifestFingerprint octx = rc_ManifestFingerprint jctx
      \<and> ra_offererNonce off = ra_offererNonce joi \<and> ra_joinerNonce off = ra_joinerNonce joi
      \<and> (\<exists>ro. buildResult off = Inr ro \<and> rr_Keys ro = rr_Keys rj))
    \<or> (ra_transcript off \<noteq> ra_transcript joi
      \<and> (\<exists>key. resumeProofKey (rc_ResumeSecret octx) infoResumeProofOfferer = Inr key
          \<and> hmac_sha256 key (ra_transcript off @ [resumeProofTagOfferer]) = hmac_sha256 key (ra_transcript joi @ [resumeProofTagOfferer])))"
proof -
  note o = reachable_call [OF assms(1,6)] and j = reachable_call [OF assms(3,9)]
  have oc: "context_transcript octx (ra_offererNonce off) (ra_joinerNonce off) = Inr (ra_transcript off)"
    "ResumeOffererProof (rc_ResumeSecret octx) (ra_transcript off) = Inr (b64_bytes (rmsg_Proof confirm))"
    using confirm_sent [OF o(1), of p confirm] o(2,3) assms(2) by auto
  have st: "ra_state joi = resumeStateDone" "ra_result joi = Some rj" "finished joi"
    using j(1,3) by (auto simp: session_ok_def offerer_ok_def joiner_ok_def split: if_splits resumeAuthState.splits)
  have role: "rc_Role (ra_ctx joi) \<noteq> RoleOfferer" using assms(4) j(2) by (simp add: resume_names)
  have jp: "ResumeOffererProof (rc_ResumeSecret octx) (ra_transcript joi) = Inr (b64_bytes (rmsg_Proof confirm))"
    using confirm_taken [OF j(1) role st(1) _ assms(7,8)] j(2,3) assms(5) by auto
  have jt: "context_transcript jctx (ra_offererNonce joi) (ra_joinerNonce joi) = Inr (ra_transcript joi)"
    using done_session(1) [OF j(1) st(1)] j(2) by simp
  show ?thesis
  proof (cases "ra_transcript off = ra_transcript joi")
    case True
    note inj = transcript_inject [OF oc(1) [unfolded context_transcript_def] jt [unfolded context_transcript_def, folded True]]
    have ctx: "context_ok (ra_ctx off)" using o(1) by (simp add: session_ok_def)
    obtain ro where ro: "buildResult off = Inr ro" using buildResult_total [OF ctx] by blast
    have rj: "buildResult joi = Inr rj" using st(2,3) by (auto simp: finished_def)
    have "rr_Keys ro = rr_Keys rj"
      using ro rj o(2) j(2) assms(5) True by (auto simp: buildResult_def split: sum.splits)
    with inj ro show ?thesis by blast
  next
    case False
    moreover have "\<exists>key. resumeProofKey (rc_ResumeSecret octx) infoResumeProofOfferer = Inr key
        \<and> hmac_sha256 key (ra_transcript off @ [resumeProofTagOfferer]) = hmac_sha256 key (ra_transcript joi @ [resumeProofTagOfferer])"
      using oc(2) jp by (cases "resumeProofKey (rc_ResumeSecret octx) infoResumeProofOfferer")
        (auto simp: ResumeOffererProof_def intro: trans [OF _ sym])
    ultimately show ?thesis by blast
  qed
qed

text \<open>One complete exchange over a faithful channel.\<close>

definition resume_exchange ::
  "(err, bytes) result \<Rightarrow> (err, bytes) result \<Rightarrow> ResumeAuthSession \<Rightarrow> ResumeAuthSession \<Rightarrow> (ResumeAuthResult \<times> ResumeAuthResult) option" where
  "resume_exchange rndo rndj off joi =
     (case Start rndo off of (Inr init, off1) \<Rightarrow>
       Option.bind (mustEncodeMessage init) (\<lambda>b1.
       Option.bind (Session_Handle rndj b1 joi) (\<lambda>((m2, _, _), joi1).
       Option.bind (Option.bind m2 mustEncodeMessage) (\<lambda>b2.
       Option.bind (Session_Handle rndo b2 off1) (\<lambda>((m3, _, _), off2).
       Option.bind (Option.bind m3 mustEncodeMessage) (\<lambda>b3.
       Option.bind (Session_Handle rndj b3 joi1) (\<lambda>((m4, rj, _), joi2).
       Option.bind (Option.bind m4 mustEncodeMessage) (\<lambda>b4.
       Option.bind (Session_Handle rndo b4 off2) (\<lambda>((_, ro, _), off3).
       Option.bind ro (\<lambda>ro. Option.bind rj (\<lambda>rj. Some (ro, rj)))))))))))
      | _ \<Rightarrow> None)"

lemma mustEncode_print: "wellformed m \<Longrightarrow> mustEncodeMessage m = Some (bytes_of_string (json_print (resume_message_json m)))"
  by (simp add: mustEncodeMessage_def EncodeResumeMessage_ok)

lemma Session_Handle_new:
  assumes "DecodeResumeMessage p = Inr m" and "ra_state s \<noteq> resumeStateFailed" and "findStep p s = None"
  shows "Session_Handle rnd p s = (if rc_Role (ra_ctx s) = RoleOfferer then handleOfferer m p s else handleJoiner rnd m p s)"
  using assms by (simp add: Session_Handle_def)

lemma fresh_session:
  assumes "NewResumeAuthSession ctx = Inr s"
  shows "context_ok ctx" and "ra_ctx s = ctx" and "ra_state s = resumeStateIdle" and "ra_steps s = []"
  using assms by (auto simp: NewResumeAuthSession_def context_ok_def resume_lengths split: if_splits)

text \<open>The steps of an honest exchange.\<close>

lemma honest_steps:
  assumes "NewResumeAuthSession octx = Inr off" and "rc_Role octx = RoleOfferer"
    and "NewResumeAuthSession jctx = Inr joi" and "rc_Role jctx = RoleJoiner"
    and "rc_TransferID jctx = rc_TransferID octx" and "rc_ManifestFingerprint jctx = rc_ManifestFingerprint octx"
    and "rc_ResumeSecret jctx = rc_ResumeSecret octx"
    and "randomNonce rndo off = Inr on" and "randomNonce rndj joi = Inr jn"
  obtains m1 m2 m3 m4 b1 b2 b3 b4 o1 j1 o2 j2 o3 ro rj t master
  where "Start rndo off = (Inr m1, o1)" and "mustEncodeMessage m1 = Some b1"
    and "Session_Handle rndj b1 joi = Some ((Some m2, None, None), j1)" and "mustEncodeMessage m2 = Some b2"
    and "Session_Handle rndo b2 o1 = Some ((Some m3, None, None), o2)" and "mustEncodeMessage m3 = Some b3"
    and "Session_Handle rndj b3 j1 = Some ((Some m4, Some rj, None), j2)" and "mustEncodeMessage m4 = Some b4"
    and "Session_Handle rndo b4 o2 = Some ((None, Some ro, None), o3)"
    and "DecodeResumeMessage b3 = Inr m3" and "rmsg_Type m3 = ResumeMsgConfirm"
    and "ResumeTranscript ResumeAuthVersion (rc_TransferID octx) (rc_ManifestFingerprint octx) on jn = Inr t"
    and "ResumeSessionMaster (rc_ResumeSecret octx) t = Inr master" and "DeriveTransferKeys master = Inr (rr_Keys ro)"
    and "rr_Keys rj = rr_Keys ro" and "rr_Role ro = RoleOfferer" and "rr_Role rj = RoleJoiner"
    and "rr_TransferID rj = rr_TransferID ro" and "rr_SendCounter ro = 0" and "rr_SendCounter rj = 0"
proof -
  have ok: "context_ok octx" "ra_ctx off = octx" "ra_ctx joi = jctx" "ra_state off = resumeStateIdle"
    "ra_state joi = resumeStateIdle" "ra_steps off = []" "ra_steps joi = []" "rc_Version jctx = ResumeAuthVersion"
    "rc_Version octx = ResumeAuthVersion"
    using fresh_session [OF assms(1)] fresh_session [OF assms(3)] by (simp_all add: context_ok_def)
  have len: "length on = 32" "length jn = 32" using assms(8,9) randomNonce_length by auto
  note sec = context_okD(1) [OF ok(1)]
  have roles: "RoleJoiner \<noteq> RoleOfferer" "ResumeMsgConfirm \<noteq> ResumeMsgInit" "ResumeMsgReady \<noteq> ResumeMsgChallenge"
    by (simp_all add: resume_names)
  obtain t where t: "ResumeTranscript ResumeAuthVersion (rc_TransferID octx) (rc_ManifestFingerprint octx) on jn = Inr t"
    using context_okD(2) [OF ok(1) len] ok(9) by (auto simp: context_transcript_def)
  obtain master keys where k: "ResumeSessionMaster (rc_ResumeSecret octx) t = Inr master" "DeriveTransferKeys master = Inr keys"
    using ResumeSessionMaster_total [OF sec] DeriveTransferKeys_total by metis
  obtain po pj pr where p: "ResumeOffererProof (rc_ResumeSecret octx) t = Inr po" "length po = 32"
    "ResumeJoinerProof (rc_ResumeSecret octx) t = Inr pj" "length pj = 32"
    "ResumeReadyProof (rc_ResumeSecret octx) t = Inr pr" "length pr = 32"
    using proofs_total [OF sec, of t] by auto
  obtain b1 where b1: "mustEncodeMessage (init_msg on) = Some b1" "DecodeResumeMessage b1 = Inr (init_msg on)"
    using mustEncode_wellformed [OF wellformed_msgs(1) [OF len(1)]] by blast
  obtain b2 where b2: "mustEncodeMessage (challenge_msg jn pj) = Some b2" "DecodeResumeMessage b2 = Inr (challenge_msg jn pj)"
    using mustEncode_wellformed [OF wellformed_msgs(2) [OF len(2) p(4)]] by blast
  obtain b3 where b3: "mustEncodeMessage (confirm_msg po) = Some b3" "DecodeResumeMessage b3 = Inr (confirm_msg po)"
    using mustEncode_wellformed [OF wellformed_msgs(3) [OF p(2)]] by blast
  obtain b4 where b4: "mustEncodeMessage (ready_msg pr) = Some b4" "DecodeResumeMessage b4 = Inr (ready_msg pr)"
    using mustEncode_wellformed [OF wellformed_msgs(4) [OF p(6)]] by blast
  have diff: "b3 \<noteq> b1" "b4 \<noteq> b2"
    using b1(2) b2(2) b3(2) b4(2) roles by auto
  let ?o1 = "off\<lparr>ra_offererNonce := on, ra_state := resumeStateAwaitChallenge\<rparr>"
  have s1: "Start rndo off = (Inr (init_msg on), ?o1)"
    using ok assms(2,8) roles(1) by (simp add: Start_def)
  let ?j1 = "joi\<lparr>ra_offererNonce := on, ra_joinerNonce := jn, ra_transcript := t,
    ra_steps := [\<lparr>as_accepted = b1, as_responded = Some b2\<rparr>], ra_state := resumeStateAwaitConfirm\<rparr>"
  have rj: "randomNonce rndj (joi\<lparr>ra_offererNonce := on\<rparr>) = Inr jn" using assms(9) by (simp add: randomNonce_def)
  have s2: "Session_Handle rndj b1 joi = Some ((Some (challenge_msg jn pj), None, None), ?j1)"
    using Session_Handle_new [OF b1(2), of joi rndj] ok assms(4-7) roles(1) rj t p b2(1)
    by (simp add: findStep_def handleJoiner_def acceptInit_def)
  let ?o2 = "?o1\<lparr>ra_joinerNonce := jn, ra_transcript := t, ra_steps := [\<lparr>as_accepted = b2, as_responded = Some b3\<rparr>],
    ra_state := resumeStateAwaitReady\<rparr>"
  have s3: "Session_Handle rndo b2 ?o1 = Some ((Some (confirm_msg po), None, None), ?o2)"
    using Session_Handle_new [OF b2(2), of ?o1 rndo] ok assms(2) t p b3(1)
    by (simp add: findStep_def handleOfferer_def acceptChallenge_def verify_iff [OF sec])
  let ?rj = "\<lparr>rr_Role = RoleJoiner, rr_TransferID = rc_TransferID octx, rr_Keys = keys, rr_SendCounter = 0, rr_RecvCounter = 0\<rparr>"
  obtain j2 where s4: " Session_Handle rndj b3 ?j1 = Some ((Some (ready_msg pr), Some ?rj, None), j2)"
    using Session_Handle_new [OF b3(2), of ?j1 rndj] ok assms(4-7) roles diff(1) p b4(1) k
    by (simp add: findStep_def handleJoiner_def verify_iff [OF sec] finish_resume_def buildResult_def)
  let ?ro = "\<lparr>rr_Role = RoleOfferer, rr_TransferID = rc_TransferID octx, rr_Keys = keys, rr_SendCounter = 0, rr_RecvCounter = 0\<rparr>"
  obtain o3 where s5: " Session_Handle rndo b4 ?o2 = Some ((None, Some ?ro, None), o3)"
    using Session_Handle_new [OF b4(2), of ?o2 rndo] ok assms(2) roles diff(2) p k
    by (simp add: findStep_def handleOfferer_def verify_iff [OF sec] finish_resume_def buildResult_def)
  show thesis
    by (rule that [OF s1 b1(1) s2 b2(1) s3 b3(1) s4 b4(1) s5 b3(2) _ t k(1)]) (simp_all add: k(2))
qed

text \<open>C28: The honest handshake succeeds.  An offerer and a joiner that hold the same secret for the same transfer
  and fingerprint, and whose random sources deliver, exchange the four messages and both end with a result; the
  two results carry the same directional keys, derived from the transcript of the two fresh nonces, and start
  the counters at zero.\<close>

theorem resume_honest_run:
  assumes "NewResumeAuthSession octx = Inr off" and "rc_Role octx = RoleOfferer"
    and "NewResumeAuthSession jctx = Inr joi" and "rc_Role jctx = RoleJoiner"
    and "rc_TransferID jctx = rc_TransferID octx" and "rc_ManifestFingerprint jctx = rc_ManifestFingerprint octx"
    and "rc_ResumeSecret jctx = rc_ResumeSecret octx"
    and "randomNonce rndo off = Inr on" and "randomNonce rndj joi = Inr jn"
  shows "\<exists>ro rj t master. resume_exchange rndo rndj off joi = Some (ro, rj)
    \<and> ResumeTranscript ResumeAuthVersion (rc_TransferID octx) (rc_ManifestFingerprint octx) on jn = Inr t
    \<and> ResumeSessionMaster (rc_ResumeSecret octx) t = Inr master
    \<and> DeriveTransferKeys master = Inr (rr_Keys ro) \<and> rr_Keys rj = rr_Keys ro
    \<and> rr_Role ro = RoleOfferer \<and> rr_Role rj = RoleJoiner \<and> rr_TransferID rj = rr_TransferID ro
    \<and> rr_SendCounter ro = 0 \<and> rr_SendCounter rj = 0"
  by (rule honest_steps [OF assms]) (fastforce simp: resume_exchange_def)

section \<open>Witnesses\<close>

definition example_context :: "string \<Rightarrow> ResumeAuthContext" where
  "example_context role = \<lparr>rc_Version = 1, rc_TransferID = replicate 32 (CHR ''a''),
     rc_ManifestFingerprint = replicate 64 (CHR ''0''), rc_Role = role, rc_ResumeSecret = replicate 32 7,
     rc_NonceSource = Some (\<lambda>n. Inr (replicate n 5))\<rparr>"

definition example_session :: "string \<Rightarrow> ResumeAuthSession" where
  "example_session role = \<lparr>ra_ctx = example_context role, ra_state = resumeStateIdle, ra_offererNonce = [],
     ra_joinerNonce = [], ra_transcript = [], ra_result = None, ra_steps = [], ra_settledErr = None\<rparr>"

lemma example_new:
  "NewResumeAuthSession (example_context RoleOfferer) = Inr (example_session RoleOfferer)"
  "NewResumeAuthSession (example_context RoleJoiner) = Inr (example_session RoleJoiner)"
  by (simp_all add: NewResumeAuthSession_def example_context_def example_session_def isLowerHex_def
      list_all_iff ResumeAuthVersion_def resume_lengths resume_names)

lemma example_fields:
  "rc_Role (example_context r) = r" "rc_TransferID (example_context r) = rc_TransferID (example_context r')"
  "rc_ManifestFingerprint (example_context r) = rc_ManifestFingerprint (example_context r')"
  "rc_ResumeSecret (example_context r) = rc_ResumeSecret (example_context r')"
  "randomNonce rnd (example_session r) = Inr (replicate 32 5)"
  by (simp_all add: example_context_def example_session_def randomNonce_def resume_lengths)

lemmas example_steps = honest_steps [OF example_new(1) example_fields(1) example_new(2) example_fields(1)
  example_fields(2) example_fields(3) example_fields(4) example_fields(5) example_fields(5)]

theorem resume_honest_run_witness:
  "\<exists>ro rj. resume_exchange (Inl ContextCanceled) (Inl ContextCanceled) (example_session RoleOfferer) (example_session RoleJoiner)
      = Some (ro, rj) \<and> rr_Keys rj = rr_Keys ro"
  using resume_honest_run [OF example_new(1) example_fields(1) example_new(2) example_fields(1)
      example_fields(2) example_fields(3) example_fields(4) example_fields(5) example_fields(5)] by blast

theorem resume_result_verified_witness:
  "\<exists>rnd p es out r s. Session_Handle rnd p (foldl resume_step (example_session RoleJoiner) es) = Some ((out, Some r, None), s)
     \<and> rr_TransferID r = rc_TransferID (example_context RoleJoiner)"
proof (rule example_steps [of "Inl ContextCanceled" "Inl ContextCanceled"])
  fix b1 b3 m2 m4 j1 j2 rj
  assume "Session_Handle (Inl ContextCanceled) b1 (example_session RoleJoiner) = Some ((Some m2, None, None), j1)"
    and "Session_Handle (Inl ContextCanceled) b3 j1 = Some ((Some m4, Some rj, None), j2)"
  then have call: "Session_Handle (Inl ContextCanceled) b3
      (foldl resume_step (example_session RoleJoiner) [CallHandle (Inl ContextCanceled) b1]) = Some ((Some m4, Some rj, None), j2)"
    by simp
  from resume_result_verified [OF example_new(2) call] call show ?thesis by blast
qed

theorem resume_duplicate_idempotent_witness:
  "\<exists>p m s. Session_Handle (Inl ContextCanceled) p (example_session RoleJoiner) = Some ((Some m, None, None), s)
     \<and> Session_Handle (Inl FrameReplay) p s = Some ((Some m, None, None), s)"
proof (rule example_steps [of "Inl ContextCanceled" "Inl ContextCanceled"])
  fix b1 m2 j1
  assume call: "Session_Handle (Inl ContextCanceled) b1 (example_session RoleJoiner) = Some ((Some m2, None, None), j1)"
  then have "Session_Handle (Inl ContextCanceled) b1 (foldl resume_step (example_session RoleJoiner) []) = Some ((Some m2, None, None), j1)"
    by simp
  from resume_duplicate_idempotent [OF example_new(2) this] call show ?thesis by blast
qed

theorem resume_fail_closed_witness:
  "\<exists>out res er s. Session_Handle (Inl ContextCanceled) [] (foldl resume_step (example_session RoleJoiner) []) = Some ((out, res, er), s)"
  using resume_fail_closed [OF example_new(2), of "Inl ContextCanceled" "[]" "[]"] by blast

theorem resume_agreement_witness:
  "\<exists>b1 b2 b3 m3 m4 rj off joi.
     Session_Handle (Inl ContextCanceled) b2 (foldl resume_step (example_session RoleOfferer) [CallStart (Inl ContextCanceled)])
       = Some ((Some m3, None, None), off)
   \<and> Session_Handle (Inl ContextCanceled) b3 (foldl resume_step (example_session RoleJoiner) [CallHandle (Inl ContextCanceled) b1])
       = Some ((Some m4, Some rj, None), joi)
   \<and> DecodeResumeMessage b3 = Inr m3
   \<and> (ra_offererNonce off = ra_offererNonce joi \<or> ra_transcript off \<noteq> ra_transcript joi)"
proof (rule example_steps [of "Inl ContextCanceled" "Inl ContextCanceled"])
  let ?r = "Inl ContextCanceled :: (err, bytes) result"
  fix m1 m2 m3 m4 b1 b2 b3 j1 j2 o1 o2 rj
  assume st: "Start ?r (example_session RoleOfferer) = (Inr m1, o1)"
    "Session_Handle ?r b1 (example_session RoleJoiner) = Some ((Some m2, None, None), j1)"
    "Session_Handle ?r b2 o1 = Some ((Some m3, None, None), o2)"
    "Session_Handle ?r b3 j1 = Some ((Some m4, Some rj, None), j2)"
    and m3: "DecodeResumeMessage b3 = Inr m3" "rmsg_Type m3 = ResumeMsgConfirm"
  have call: "Session_Handle ?r b2 (foldl resume_step (example_session RoleOfferer) [CallStart ?r]) = Some ((Some m3, None, None), o2)"
    "Session_Handle ?r b3 (foldl resume_step (example_session RoleJoiner) [CallHandle ?r b1]) = Some ((Some m4, Some rj, None), j2)"
    using st by simp_all
  from resume_agreement [OF example_new(1) example_fields(1) example_new(2) example_fields(1) example_fields(4) call(1) m3 call(2)]
  have "ra_offererNonce o2 = ra_offererNonce j2 \<or> ra_transcript o2 \<noteq> ra_transcript j2" by blast
  with call m3(1) show ?thesis by blast
qed

end
