(* ===== verification/ResumePreamble.thy ===== *)
theory ResumePreamble
  imports ResumeProps "HOL-Library.Multiset"
begin

text \<open>
  The resume preamble (\<^verbatim>\<open>packages/wire/resume_preamble.go\<close>): the resume authentication carried in
  frames sealed under the session keys, before the transfer engine starts.  What the \<^verbatim>\<open>Send\<close>
  callback returns and what \<^verbatim>\<open>crypto/rand\<close> delivers are arguments of the calls.
\<close>

record ResumePreambleOptions =
  po_Role :: string
  po_TransferID :: string
  po_Fingerprint :: string
  po_ResumeSecret :: bytes
  po_HasSend :: bool
  po_SendDir :: DirectionalKey
  po_RecvDir :: DirectionalKey
  po_SendCounter :: "64 word"
  po_RecvCounter :: "64 word"
  po_NonceSource :: "(nat \<Rightarrow> (err, bytes) result) option"

text \<open>\<open>rp_closed\<close> counts the calls of \<^verbatim>\<open>close(p.done)\<close>, \<open>rp_sealed\<close> lists the frames handed to
  \<^verbatim>\<open>Send\<close> with the counters they were sealed under, newest last.\<close>

record ResumePreamble =
  rp_opts :: ResumePreambleOptions
  rp_sess :: ResumeAuthSession
  rp_sendCounter :: "64 word"
  rp_recvCounter :: "64 word"
  rp_started :: bool
  rp_closed :: nat
  rp_result :: "ResumeAuthResult option"
  rp_err :: "err option"
  rp_lastAccepted :: bytes
  rp_sealed :: "(64 word \<times> bytes) list"

definition NewResumePreamble :: "ResumePreambleOptions \<Rightarrow> (err, ResumePreamble) result" where
  "NewResumePreamble opts =
     (case NewResumeAuthSession \<lparr>rc_Version = ResumeAuthVersion, rc_TransferID = po_TransferID opts,
         rc_ManifestFingerprint = po_Fingerprint opts, rc_Role = po_Role opts,
         rc_ResumeSecret = po_ResumeSecret opts, rc_NonceSource = po_NonceSource opts\<rparr> of
        Inl e \<Rightarrow> Inl e
      | Inr sess \<Rightarrow>
        if \<not> po_HasSend opts then Inl (Classified CodeProtocol ''resume: preamble requires a Send callback'')
        else Inr \<lparr>rp_opts = opts, rp_sess = sess, rp_sendCounter = po_SendCounter opts,
               rp_recvCounter = po_RecvCounter opts, rp_started = False, rp_closed = 0, rp_result = None,
               rp_err = None, rp_lastAccepted = [], rp_sealed = []\<rparr>)"

definition Preamble_failLocked :: "err \<Rightarrow> ResumePreamble \<Rightarrow> ResumePreamble" where
  "Preamble_failLocked e p =
     (let p' = (if rp_err p = None then p\<lparr>rp_err := Some e\<rparr> else p)
      in if rp_result p' = None then p'\<lparr>rp_closed := rp_closed p' + 1\<rparr> else p')"

definition sendLocked :: "err option \<Rightarrow> ResumeMessage \<Rightarrow> ResumePreamble \<Rightarrow> err option \<times> ResumePreamble" where
  "sendLocked sent msg p =
     (case EncodeResumeMessage (Some msg) of Inl e \<Rightarrow> (Some e, p)
      | Inr payload \<Rightarrow>
        (case Seal (po_SendDir (rp_opts p)) (rp_sendCounter p)
            \<lparr>hi_Version = FrameVersion, hi_Type = FrameResumeAuth, hi_Flags = 0, hi_FileIdx = 0,
             hi_BlockIdx = 0, hi_FrameOff = 0\<rparr> payload of
           Inl e \<Rightarrow> (Some (Classified CodeProtocol ''resume: seal preamble frame''), p)
         | Inr frame \<Rightarrow>
           let p' = p\<lparr>rp_sealed := rp_sealed p @ [(rp_sendCounter p, frame)]\<rparr> in
           (case sent of Some e \<Rightarrow> (Some (Classified CodeConnection ''resume: send preamble frame''), p')
            | None \<Rightarrow> (None, p'\<lparr>rp_sendCounter := rp_sendCounter p' + 1\<rparr>))))"

definition Preamble_Start ::
  "(err, bytes) result \<Rightarrow> err option \<Rightarrow> ResumePreamble \<Rightarrow> err option \<times> ResumePreamble" where
  "Preamble_Start rnd sent p =
     (if rp_started p then (Some (Classified CodeProtocol ''resume: preamble already started''), p)
      else let p1 = p\<lparr>rp_started := True\<rparr> in
        if po_Role (rp_opts p) = RoleJoiner then (None, p1)
        else case Start rnd (rp_sess p1) of
            (Inl e, s) \<Rightarrow> (Some e, Preamble_failLocked e (p1\<lparr>rp_sess := s\<rparr>))
          | (Inr msg, s) \<Rightarrow> sendLocked sent msg (p1\<lparr>rp_sess := s\<rparr>))"

definition openLocked :: "bytes \<Rightarrow> ResumePreamble \<Rightarrow> (err, bytes) result \<times> ResumePreamble" where
  "openLocked frame p =
     (case OpenSequenced (po_RecvDir (rp_opts p)) (rp_recvCounter p) frame of
        Inl e \<Rightarrow>
          let rejected = (Inl (Classified CodeProtocol ''resume: inbound frame rejected''), p) in
          if e = FrameReplay \<and> 0 < rp_recvCounter p \<and> rp_lastAccepted p \<noteq> [] then
            (case Open (po_RecvDir (rp_opts p)) (rp_recvCounter p - 1) frame of
               Inl _ \<Rightarrow> rejected
             | Inr prev \<Rightarrow>
               if h_Type (opened_Header prev) = FrameResumeAuth \<and> opened_Plaintext prev = rp_lastAccepted p
               then (Inr (opened_Plaintext prev), p) else rejected)
          else rejected
      | Inr opened \<Rightarrow>
          if h_Type (opened_Header opened) \<noteq> FrameResumeAuth
          then (Inl (Classified CodeProtocol ''resume: inbound frame type before resume authentication completed''), p)
          else (Inr (opened_Plaintext opened), p\<lparr>rp_recvCounter := opened_Counter opened + 1\<rparr>))"

text \<open>\<open>None\<close> is a panic below \<^verbatim>\<open>sess.Handle\<close>.\<close>

definition Preamble_Handle ::
  "(err, bytes) result \<Rightarrow> err option \<Rightarrow> bytes \<Rightarrow> ResumePreamble \<Rightarrow> ResumePreamble option" where
  "Preamble_Handle rnd sent frame p =
     (if rp_err p \<noteq> None \<or> rp_result p \<noteq> None then Some p
      else case openLocked frame p of
          (Inl e, p1) \<Rightarrow> Some (Preamble_failLocked e p1)
        | (Inr payload, p1) \<Rightarrow>
          (case Session_Handle rnd payload (rp_sess p1) of None \<Rightarrow> None
           | Some ((out, res, er), s) \<Rightarrow>
             let p2 = p1\<lparr>rp_sess := s\<rparr> in
             (case er of Some e \<Rightarrow> Some (Preamble_failLocked e p2)
              | None \<Rightarrow>
                let p3 = p2\<lparr>rp_lastAccepted := payload\<rparr>;
                    (er', p4) = (case out of None \<Rightarrow> (None, p3) | Some msg \<Rightarrow> sendLocked sent msg p3)
                in case er' of Some e \<Rightarrow> Some (Preamble_failLocked e p4)
                   | None \<Rightarrow>
                     (case res of None \<Rightarrow> Some p4
                      | Some r \<Rightarrow> Some (p4\<lparr>rp_result := Some r, rp_closed := rp_closed p4 + 1\<rparr>)))))"

definition Settled :: "ResumePreamble \<Rightarrow> bool" where
  "Settled p \<longleftrightarrow> rp_result p \<noteq> None \<or> rp_err p \<noteq> None"

definition Preamble_Result :: "ResumePreamble \<Rightarrow> (err, ResumeAuthResult) result" where
  "Preamble_Result p =
     (case rp_err p of Some e \<Rightarrow> Inl e
      | None \<Rightarrow> (case rp_result p of None \<Rightarrow> Inl (Classified CodeProtocol ''resume: preamble has not settled'')
          | Some r \<Rightarrow> Inr r))"

section \<open>Invariant\<close>

definition options_context :: "ResumePreambleOptions \<Rightarrow> ResumeAuthContext" where
  "options_context opts = \<lparr>rc_Version = ResumeAuthVersion, rc_TransferID = po_TransferID opts,
     rc_ManifestFingerprint = po_Fingerprint opts, rc_Role = po_Role opts,
     rc_ResumeSecret = po_ResumeSecret opts, rc_NonceSource = po_NonceSource opts\<rparr>"

definition preamble_ok :: "ResumePreamble \<Rightarrow> bool" where
  "preamble_ok p \<longleftrightarrow> session_ok (rp_sess p) \<and> ra_ctx (rp_sess p) = options_context (rp_opts p)
     \<and> (rp_started p \<or> po_Role (rp_opts p) = RoleJoiner)
     \<and> rp_closed p = (if Settled p then 1 else 0) \<and> (rp_err p = None \<or> rp_result p = None)
     \<and> (rp_result p \<noteq> None \<longrightarrow> ra_result (rp_sess p) = rp_result p \<and> ra_state (rp_sess p) \<noteq> resumeStateFailed)
     \<and> consecutive (po_SendCounter (rp_opts p)) (map fst (rp_sealed p))
     \<and> (rp_err p = None \<longrightarrow> rp_sendCounter p = po_SendCounter (rp_opts p) + of_nat (length (rp_sealed p)))"

text \<open>What \<^verbatim>\<open>sendLocked\<close> may change.\<close>

lemma sendLocked_cases:
  assumes "sendLocked sent msg p = (er, p')"
  obtains (sent) f where "er = None" and "p' = p\<lparr>rp_sealed := rp_sealed p @ [(rp_sendCounter p, f)], rp_sendCounter := rp_sendCounter p + 1\<rparr>"
  | (lost) f e where "er = Some e" and "p' = p\<lparr>rp_sealed := rp_sealed p @ [(rp_sendCounter p, f)]\<rparr>"
  | (unsealed) e where "er = Some e" and "p' = p"
  using assms by (auto simp: sendLocked_def Let_def split: sum.splits option.splits)

lemma openLocked_fields:
  assumes "openLocked frame p = (r, p')"
  shows "\<exists>c. p' = p\<lparr>rp_recvCounter := c\<rparr>"
proof -
  have "p' = p \<or> (\<exists>c. p' = p\<lparr>rp_recvCounter := c\<rparr>)"
    using assms by (auto simp: openLocked_def Let_def split: sum.splits if_splits)
  moreover have "p = p\<lparr>rp_recvCounter := rp_recvCounter p\<rparr>" by simp
  ultimately show ?thesis by metis
qed

lemma preamble_ok_fail:
  assumes "preamble_ok p" and "rp_err p = None" and "rp_result p = None"
    and "session_ok s" and "ra_ctx s = ra_ctx (rp_sess p)"
  shows "preamble_ok (Preamble_failLocked e (p\<lparr>rp_recvCounter := c, rp_sess := s, rp_lastAccepted := l\<rparr>))"
  using assms by (simp add: preamble_ok_def Preamble_failLocked_def Settled_def)

lemma preamble_ok_sess:
  assumes "preamble_ok p" and "rp_err p = None" and "rp_result p = None"
    and "session_ok s" and "ra_ctx s = ra_ctx (rp_sess p)"
  shows "preamble_ok (p\<lparr>rp_recvCounter := c, rp_sess := s, rp_lastAccepted := l\<rparr>)"
  using assms by (simp add: preamble_ok_def Settled_def)

lemma preamble_ok_send:
  assumes "preamble_ok p" and "rp_err p = None" and "rp_result p = None" and "sendLocked sent msg p = (er, p')"
  shows "case er of None \<Rightarrow> preamble_ok p' \<and> rp_err p' = None \<and> rp_result p' = None \<and> rp_sess p' = rp_sess p
    | Some e \<Rightarrow> preamble_ok (Preamble_failLocked e p')"
  using assms(4)
proof (cases rule: sendLocked_cases)
  case (sent f)
  then show ?thesis using assms(1-3) by (simp add: preamble_ok_def Settled_def consecutive_append)
next
  case (lost f e)
  then show ?thesis using assms(1-3) by (simp add: preamble_ok_def Settled_def Preamble_failLocked_def consecutive_append)
next
  case (unsealed e)
  then show ?thesis using assms(1-3) by (simp add: preamble_ok_def Settled_def Preamble_failLocked_def)
qed

lemma preamble_ok_Handle:
  assumes "preamble_ok p"
  shows "\<exists>p'. Preamble_Handle rnd sent frame p = Some p' \<and> preamble_ok p'"
proof (cases "rp_err p \<noteq> None \<or> rp_result p \<noteq> None")
  case False
  then have live: "rp_err p = None" "rp_result p = None" by simp_all
  obtain r p1 where op: "openLocked frame p = (r, p1)" by fastforce
  obtain c where p1: "p1 = p\<lparr>rp_recvCounter := c\<rparr>" using openLocked_fields [OF op] by blast
  have ok: "session_ok (rp_sess p)" using assms by (simp add: preamble_ok_def)
  show ?thesis
  proof (cases r)
    case (Inl e)
    then show ?thesis using False op p1 preamble_ok_fail [OF assms live ok refl, where e = e and c = c and l = "rp_lastAccepted p"]
      by (simp add: Preamble_Handle_def)
  next
    case (Inr payload)
    from Session_Handle_ok [OF ok, of payload rnd] obtain out res er s
      where h: "Session_Handle rnd payload (rp_sess p) = Some ((out, res, er), s)" "session_ok s"
        "ra_ctx s = ra_ctx (rp_sess p)" "outcome_ok payload s (out, res, er)"
      unfolding handles_def by (metis surj_pair)
    show ?thesis
    proof (cases er)
      case (Some e)
      then show ?thesis using False op p1 Inr h preamble_ok_fail [OF assms live h(2,3), where e = e and c = c and l = "rp_lastAccepted p"]
        by (simp add: Preamble_Handle_def)
    next
      case None
      let ?p3 = "p\<lparr>rp_recvCounter := c, rp_sess := s, rp_lastAccepted := payload\<rparr>"
      have p3: "preamble_ok ?p3" "rp_err ?p3 = None" "rp_result ?p3 = None"
        using preamble_ok_sess [OF assms live h(2,3)] live by simp_all
      obtain er' p4 where s4: "(case out of None \<Rightarrow> (None, ?p3) | Some msg \<Rightarrow> sendLocked sent msg ?p3) = (er', p4)" by fastforce
      have ok4: "case er' of None \<Rightarrow> preamble_ok p4 \<and> rp_err p4 = None \<and> rp_result p4 = None \<and> rp_sess p4 = s
          | Some e \<Rightarrow> preamble_ok (Preamble_failLocked e p4)"
      proof (cases out)
        case (Some msg)
        with s4 have "sendLocked sent msg ?p3 = (er', p4)" by simp
        from preamble_ok_send [OF p3 this] show ?thesis by (cases er') simp_all
      qed (use s4 p3 in auto)
      have H: "Preamble_Handle rnd sent frame p = (case er' of Some e \<Rightarrow> Some (Preamble_failLocked e p4)
          | None \<Rightarrow> (case res of None \<Rightarrow> Some p4 | Some r \<Rightarrow> Some (p4\<lparr>rp_result := Some r, rp_closed := rp_closed p4 + 1\<rparr>)))"
        using False op p1 Inr h(1) None s4 by (simp add: Preamble_Handle_def)
      have res: "res = ra_result s" "ra_state s \<noteq> resumeStateFailed" using h(4) None by simp_all
      have "preamble_ok (p4\<lparr>rp_result := Some r, rp_closed := rp_closed p4 + 1\<rparr>)" if "er' = None" "res = Some r" for r
      proof -
        have "ra_result s = Some r" using res(1) that(2) by simp
        then show ?thesis using ok4 res(2) that(1) by (auto simp: preamble_ok_def Settled_def)
      qed
      then show ?thesis unfolding H using ok4 by (cases er'; cases res) simp_all
    qed
  qed
qed (use assms in \<open>auto simp: Preamble_Handle_def\<close>)

section \<open>Runs\<close>

datatype preamble_event = PreambleStart "(err, bytes) result" "err option"
  | PreambleFrame "(err, bytes) result" "err option" bytes

fun preamble_step :: "ResumePreamble \<Rightarrow> preamble_event \<Rightarrow> ResumePreamble" where
  "preamble_step p (PreambleStart rnd sent) = snd (Preamble_Start rnd sent p)"
| "preamble_step p (PreambleFrame rnd sent frame) = (case Preamble_Handle rnd sent frame p of None \<Rightarrow> p | Some p' \<Rightarrow> p')"

lemma preamble_ok_step: "preamble_ok p \<Longrightarrow> preamble_ok (preamble_step p e)"
proof (cases e)
  case (PreambleStart rnd sent)
  assume "preamble_ok p"
  with PreambleStart show ?thesis
    by (cases "rp_started p") (auto simp: Preamble_Start_def preamble_ok_def Settled_def)
next
  case (PreambleFrame rnd sent frame)
  assume "preamble_ok p"
  from preamble_ok_Handle [OF this, of rnd sent frame] PreambleFrame show ?thesis by auto
qed

interpretation resume_preamble: machine preamble_step preamble_ok
  by unfold_locales (rule preamble_ok_step)

lemma new_preamble:
  assumes "NewResumePreamble opts = Inr p"
  shows "session_ok (rp_sess p)" and "ra_ctx (rp_sess p) = options_context opts" and "rp_opts p = opts"
    and "rp_sendCounter p = po_SendCounter opts" and "\<not> rp_started p" and "rp_closed p = 0" and "rp_result p = None"
    and "rp_err p = None" and "rp_sealed p = []" and "rp_recvCounter p = po_RecvCounter opts" and "ra_state (rp_sess p) = resumeStateIdle"
  using assms session_ok_new fresh_session(3) by (auto simp: NewResumePreamble_def options_context_def split: sum.splits if_splits)

text \<open>The preamble of the joiner is sound at once, the one of the offerer after a \<^verbatim>\<open>Start\<close> that could send.\<close>

lemma preamble_ok_Start:
  assumes "NewResumePreamble opts = Inr p"
  shows "preamble_ok (snd (Preamble_Start rnd None p))"
proof (cases "po_Role opts = RoleJoiner")
  case True
  then show ?thesis using new_preamble [OF assms] by (simp add: Preamble_Start_def preamble_ok_def Settled_def)
next
  case False
  note new = new_preamble [OF assms]
  let ?p = "p\<lparr>rp_started := True\<rparr>"
  obtain r s where st: "Start rnd (rp_sess p) = (r, s)" by fastforce
  have s: "session_ok s" "ra_ctx s = options_context opts"
    using session_ok_Start [OF new(1), of rnd] ra_ctx_Start [of rnd "rp_sess p"] new(2) st by simp_all
  have ok: "preamble_ok (?p\<lparr>rp_sess := s\<rparr>)" using new s by (simp add: preamble_ok_def Settled_def)
  show ?thesis
  proof (cases r)
    case (Inl e)
    then show ?thesis using False new s st
      by (simp add: Preamble_Start_def preamble_ok_def Preamble_failLocked_def Settled_def)
  next
    case (Inr msg)
    obtain er p' where send: "sendLocked None msg (?p\<lparr>rp_sess := s\<rparr>) = (er, p')" by fastforce
    then have "p' = ?p\<lparr>rp_sess := s\<rparr> \<or> er = None" by (auto simp: sendLocked_def Let_def split: sum.splits)
    then have "preamble_ok p'" using preamble_ok_send [OF ok _ _ send] ok new by auto
    then show ?thesis using False new(3,5) st Inr send by (simp add: Preamble_Start_def)
  qed
qed

lemma preamble_ok_run:
  "NewResumePreamble opts = Inr p \<Longrightarrow> preamble_ok (foldl preamble_step (snd (Preamble_Start rnd None p)) es)"
  by (rule resume_preamble.inv_run) (rule preamble_ok_Start)

lemma rp_opts_step [simp]: "rp_opts (preamble_step p e) = rp_opts p"
proof -
  have fail: "rp_opts (Preamble_failLocked e p) = rp_opts p" for e p by (simp add: Preamble_failLocked_def Let_def)
  have send: "sendLocked sent msg p = (er, p') \<Longrightarrow> rp_opts p' = rp_opts p" for sent msg p er p'
    by (erule sendLocked_cases) simp_all
  then have send': "rp_opts (snd (sendLocked sent msg p)) = rp_opts p" for sent msg p by (metis prod.collapse)
  have opened: "openLocked f p = (r, p') \<Longrightarrow> rp_opts p' = rp_opts p" for f p r p'
    by (drule openLocked_fields) auto
  show ?thesis
    by (cases e) (auto simp: Preamble_Start_def Preamble_Handle_def Let_def fail send' split: prod.splits sum.splits option.splits
        dest!: send opened)
qed

lemma rp_opts_run [simp]: "rp_opts (foldl preamble_step p es) = rp_opts p"
  by (induction es arbitrary: p) simp_all

section \<open>Properties\<close>


definition example_options :: ResumePreambleOptions where
  "example_options = \<lparr>po_Role = RoleOfferer, po_TransferID = replicate 32 (CHR ''a''),
     po_Fingerprint = replicate 64 (CHR ''0''), po_ResumeSecret = replicate 32 7, po_HasSend = True,
     po_SendDir = \<lparr>dk_Key = replicate 32 1, dk_Salt = [1, 2, 3, 4]\<rparr>,
     po_RecvDir = \<lparr>dk_Key = replicate 32 2, dk_Salt = [4, 3, 2, 1]\<rparr>, po_SendCounter = 3, po_RecvCounter = 4,
     po_NonceSource = Some (\<lambda>n. Inr (replicate n 5))\<rparr>"

definition example_preamble :: ResumePreamble where
  "example_preamble = \<lparr>rp_opts = example_options, rp_sess = example_session RoleOfferer, rp_sendCounter = 3,
     rp_recvCounter = 4, rp_started = False, rp_closed = 0, rp_result = None, rp_err = None, rp_lastAccepted = [], rp_sealed = []\<rparr>"

lemma example_options_context:
  "\<lparr>rc_Version = ResumeAuthVersion, rc_TransferID = po_TransferID example_options,
     rc_ManifestFingerprint = po_Fingerprint example_options, rc_Role = po_Role example_options,
     rc_ResumeSecret = po_ResumeSecret example_options, rc_NonceSource = po_NonceSource example_options\<rparr> = example_context RoleOfferer"
  by (simp add: example_options_def example_context_def ResumeAuthVersion_def)

lemma example_preamble_new: "NewResumePreamble example_options = Inr example_preamble"
  unfolding NewResumePreamble_def example_options_context example_new(1)
  by (simp add: example_options_def example_preamble_def)


text \<open>A frame that settles the offerer's preamble before \<^verbatim>\<open>Start\<close> makes \<^verbatim>\<open>Start\<close> close the done channel a
  second time, which panics.  The peer only has to send one sealed resume-auth frame with an undecodable payload
  before the offerer starts: the session fails, the preamble closes the channel, and \<^verbatim>\<open>Start\<close> then fails on the
  failed session and closes it again.\<close>

theorem preamble_start_closes_twice:
  assumes "NewResumePreamble opts = Inr p" and "po_Role opts = RoleOfferer"
    and "Seal (po_RecvDir opts) c h payload = Inr frame" and "hi_Type h = FrameResumeAuth" and "po_RecvCounter opts \<le> c"
    and "DecodeResumeMessage payload = Inl e"
  shows "\<exists>p1. Preamble_Handle rnd sent frame p = Some p1 \<and> rp_closed p1 = 1
    \<and> rp_closed (snd (Preamble_Start rnd' sent' p1)) = 2"
proof -
  note new = new_preamble [OF assms(1)]
  have "openLocked frame p = (Inr payload, p\<lparr>rp_recvCounter := c + 1\<rparr>)"
    using OpenSequenced_Seal [OF assms(3,5)] new(3,10) assms(4) by (simp add: openLocked_def sealed_header_def)
  moreover have "Session_Handle rnd payload (rp_sess p) = Some ((None, None, Some e), failLocked e (rp_sess p))"
    using assms(6) new(11) by (simp add: Session_Handle_def return_failed_def)
  ultimately have "Preamble_Handle rnd sent frame p
      = Some (Preamble_failLocked e (p\<lparr>rp_recvCounter := c + 1, rp_sess := failLocked e (rp_sess p)\<rparr>))"
    using new(7,8) by (simp add: Preamble_Handle_def)
  moreover have "RoleOfferer \<noteq> RoleJoiner" by (simp add: resume_names)
  ultimately show ?thesis
    using new(3,5-8) assms(2) by (simp add: Preamble_failLocked_def Preamble_Start_def Start_def)
qed

definition resume_header :: FrameHeaderInput where
  "resume_header = \<lparr>hi_Version = FrameVersion, hi_Type = FrameResumeAuth, hi_Flags = 0, hi_FileIdx = 0, hi_BlockIdx = 0, hi_FrameOff = 0\<rparr>"

lemma Seal_total: "length payload \<le> u16Max \<Longrightarrow> length (dk_Key dir) = 32 \<Longrightarrow> \<exists>frame. Seal dir c h payload = Inr frame"
  by (simp add: Seal_def gcmFor_def Let_def)

theorem preamble_start_closes_twice_witness:
  "\<exists>frame p1. Preamble_Handle (Inl ContextCanceled) None frame example_preamble = Some p1
     \<and> rp_closed (snd (Preamble_Start (Inl ContextCanceled) None p1)) = 2"
proof -
  obtain frame where f: "Seal (po_RecvDir example_options) 4 resume_header [] = Inr frame"
    using Seal_total [of "[]" "po_RecvDir example_options"] by (auto simp: example_options_def)
  have d: "DecodeResumeMessage [] = Inl (Classified CodeProtocol ''resume: malformed message'')" by code_simp
  have "po_Role example_options = RoleOfferer" "hi_Type resume_header = FrameResumeAuth" "po_RecvCounter example_options \<le> 4"
    by (simp_all add: example_options_def resume_header_def)
  from preamble_start_closes_twice [OF example_preamble_new this(1) f this(2,3) d] show ?thesis by blast
qed


lemma mustEncode_size: "mustEncodeMessage m = Some b \<Longrightarrow> length b \<le> u16Max"
  using resume_message_size [of m]
  by (auto simp: mustEncodeMessage_def EncodeResumeMessage_def wellformed_def u16Max_def split: option.splits)


section \<open>Handing frames over to the engine (driver.go)\<close>

text \<open>\<^verbatim>\<open>engineRouter\<close>: a frame that arrives while the preamble is live goes to \<open>Preamble_Handle\<close>, any other one
  to the router.  \<open>er_engine\<close> tells whether an engine is installed, \<open>er_replay\<close> holds the frames that
  \<^verbatim>\<open>install\<close> took and has not handed over yet, \<open>er_delivered\<close> lists what the engine got.  \<^verbatim>\<open>route\<close> is one step;
  \<^verbatim>\<open>install\<close> takes the pending frames under the lock and replays them one by one after it released the lock.\<close>

record engineRouter =
  er_pending :: "bytes list"
  er_engine :: bool
  er_replay :: "bytes list"
  er_delivered :: "bytes list"

definition new_router :: engineRouter where
  "new_router = \<lparr>er_pending = [], er_engine = False, er_replay = [], er_delivered = []\<rparr>"

definition route :: "bool \<Rightarrow> bytes \<Rightarrow> engineRouter \<Rightarrow> engineRouter" where
  "route preamble_live frame r = (if preamble_live then r else if er_engine r then r\<lparr>er_delivered := er_delivered r @ [frame]\<rparr>
     else r\<lparr>er_pending := er_pending r @ [frame]\<rparr>)"

definition install_take :: "engineRouter \<Rightarrow> engineRouter" where
  "install_take r = (if er_engine r then r else r\<lparr>er_engine := True, er_replay := er_pending r, er_pending := []\<rparr>)"

definition install_next :: "engineRouter \<Rightarrow> engineRouter" where
  "install_next r = (case er_replay r of [] \<Rightarrow> r
     | f # fs \<Rightarrow> r\<lparr>er_replay := fs, er_delivered := er_delivered r @ [f]\<rparr>)"

definition resumedDirs :: "string \<Rightarrow> ResumeAuthResult \<Rightarrow> DirectionalKey \<times> DirectionalKey" where
  "resumedDirs role res = (if role = RoleOfferer then (O2J (rr_Keys res), J2O (rr_Keys res))
     else (J2O (rr_Keys res), O2J (rr_Keys res)))"

datatype router_event = Route bool bytes | InstallTake | InstallNext

fun router_step :: "engineRouter \<Rightarrow> router_event \<Rightarrow> engineRouter" where
  "router_step r (Route live f) = route live f r"
| "router_step r InstallTake = install_take r"
| "router_step r InstallNext = install_next r"

fun routed :: "router_event list \<Rightarrow> bytes list" where
  "routed [] = []"
| "routed (Route live f # es) = (if live then routed es else f # routed es)"
| "routed (e # es) = routed es"

lemma routed_snoc: "routed (es @ [e]) = routed es @ (case e of Route live f \<Rightarrow> if live then [] else [f] | _ \<Rightarrow> [])"
  by (induction es rule: routed.induct) (auto split: router_event.splits)

lemma mset_router: "mset (er_delivered (foldl router_step new_router es)) + mset (er_replay (foldl router_step new_router es))
    + mset (er_pending (foldl router_step new_router es)) = mset (routed es)
    \<and> (\<not> er_engine (foldl router_step new_router es) \<longrightarrow> er_replay (foldl router_step new_router es) = [])"
proof (induction es rule: rev_induct)
  case (snoc e es)
  then show ?case
    by (cases e) (auto simp: routed_snoc route_def install_take_def install_next_def split: list.splits)
qed (simp add: new_router_def)

text \<open>C37: The hand-over from the preamble to the engine loses and invents no frame, under any interleaving of
  routing and installing: what the engine got, what is being replayed and what is pending is together what
  was routed to it.  It does not keep the order: a frame routed while the pending frames are being replayed overtakes them.\<close>

theorem router_keeps_frames_not_order:
  "mset (er_delivered (foldl router_step new_router es)) + mset (er_replay (foldl router_step new_router es))
     + mset (er_pending (foldl router_step new_router es)) = mset (routed es)
   \<and> er_delivered (foldl router_step new_router [Route False a, InstallTake, Route False b, InstallNext]) = [b, a]
   \<and> routed [Route False a, InstallTake, Route False b, InstallNext] = [a, b]"
  using mset_router [of es] by (simp add: new_router_def route_def install_take_def install_next_def)

end
