(* ===== verification/RdvHonest.thy ===== *)
theory RdvHonest
  imports RdvProps ResumePreamble
begin

text \<open>
  Two honest rendezvous sessions, the JSON codec of the signaling messages and of the capabilities, and what a
  signaling server learns from a session that answers every share.
\<close>

section \<open>Codecs\<close>

lemma members_lax_append:
  "members_lax fds (xs @ ys) r = (case members_lax fds xs r of None \<Rightarrow> None | Some r' \<Rightarrow> members_lax fds ys r')"
  by (induction fds xs r rule: members_lax.induct) (auto split: option.split)

lemma json_Unmarshal_print:
  assumes "json_ok (JObj ms)" and "json_depth (JObj ms) \<le> max_depth"
  shows "json_Unmarshal fds zero (bytes_of_string (json_print (JObj ms))) = members_lax fds ms zero"
  using json_parse_print [OF assms] by (simp add: json_Unmarshal_def unmarshal_def)

definition message_ok :: "Message \<Rightarrow> bool" where
  "message_ok m \<longleftrightarrow> list_all valid_string [mg_Type m, mg_Role m, mg_Msg m, mg_Mac m, mg_Frame m, mg_Sdp m, mg_Cand m, mg_Reason m, mg_Code m]
     \<and> (\<forall>i \<in> set_option (mg_Room m) \<union> set_option (mg_Seq m). in_s64 i) \<and> in_s64 (mg_Bytes m)"

lemma lax_omit_string:
  assumes "find (\<lambda>(n, _). key_match k n) fds = Some (k, field_into get upd string_into)" and "get r = []" and "upd (\<lambda>_. []) r = r"
  shows "members_lax fds (omit_string k v) r = Some (upd (\<lambda>_. v) r)"
  using assms by (simp add: omit_string_def field_into_def string_into_def)

lemma lax_omit_ptr:
  assumes "find (\<lambda>(n, _). key_match k n) fds = Some (k, field_into get upd (ptr_into int_into 0))" and "upd (\<lambda>_. None) r = r"
    and "\<forall>i \<in> set_option v. in_s64 i"
  shows "members_lax fds (omit_ptr k v) r = Some (upd (\<lambda>_. v) r)"
  using assms by (cases v) (simp_all add: omit_ptr_def field_into_def ptr_into_def int_into_def)

lemma message_names:
  "find (\<lambda>(n, _). key_match ''type'' n) message_fields = Some (''type'', field_into mg_Type mg_Type_update string_into)"
  "find (\<lambda>(n, _). key_match ''room'' n) message_fields = Some (''room'', field_into mg_Room mg_Room_update (ptr_into int_into 0))"
  "find (\<lambda>(n, _). key_match ''role'' n) message_fields = Some (''role'', field_into mg_Role mg_Role_update string_into)"
  "find (\<lambda>(n, _). key_match ''msg'' n) message_fields = Some (''msg'', field_into mg_Msg mg_Msg_update string_into)"
  "find (\<lambda>(n, _). key_match ''mac'' n) message_fields = Some (''mac'', field_into mg_Mac mg_Mac_update string_into)"
  "find (\<lambda>(n, _). key_match ''frame'' n) message_fields = Some (''frame'', field_into mg_Frame mg_Frame_update string_into)"
  "find (\<lambda>(n, _). key_match ''sdp'' n) message_fields = Some (''sdp'', field_into mg_Sdp mg_Sdp_update string_into)"
  "find (\<lambda>(n, _). key_match ''cand'' n) message_fields = Some (''cand'', field_into mg_Cand mg_Cand_update string_into)"
  "find (\<lambda>(n, _). key_match ''seq'' n) message_fields = Some (''seq'', field_into mg_Seq mg_Seq_update (ptr_into int_into 0))"
  "find (\<lambda>(n, _). key_match ''reason'' n) message_fields = Some (''reason'', field_into mg_Reason mg_Reason_update string_into)"
  "find (\<lambda>(n, _). key_match ''code'' n) message_fields = Some (''code'', field_into mg_Code mg_Code_update string_into)"
  "find (\<lambda>(n, _). key_match ''bytes'' n) message_fields = Some (''bytes'', field_into mg_Bytes mg_Bytes_update int_into)"
  by (simp_all add: message_fields_def key_match_names fold_rune_def)

lemma UnmarshalMessage_Marshal:
  assumes "message_ok m"
  shows "UnmarshalMessage (MarshalMessage m) = Some m"
proof -
  obtain ms where ms: "message_json m = JObj ms" by (simp add: message_json_def)
  have ok: "json_ok (JObj ms)" using assms unfolding ms [symmetric]
    by (auto simp: message_json_def message_ok_def omit_string_def omit_ptr_def split: option.split)
  have "json_depth (JObj ms) \<le> 1" unfolding ms [symmetric]
    by (auto simp: message_json_def omit_string_def omit_ptr_def split: option.split)
  then have depth: "json_depth (JObj ms) \<le> max_depth" by (simp add: max_depth_def)
  have "members_lax message_fields ms zero_Message = Some m"
    using ms assms
    by (cases m) (auto simp: message_json_def message_ok_def members_lax_append lax_omit_string [OF message_names(3)]
        lax_omit_string [OF message_names(4)] lax_omit_string [OF message_names(5)] lax_omit_string [OF message_names(6)]
        lax_omit_string [OF message_names(7)] lax_omit_string [OF message_names(8)] lax_omit_string [OF message_names(10)]
        lax_omit_string [OF message_names(11)] lax_omit_ptr [OF message_names(2)] lax_omit_ptr [OF message_names(9)]
        message_names(1,12) field_into_def string_into_def int_into_def zero_Message_def)
  then show ?thesis unfolding UnmarshalMessage_def MarshalMessage_def ms json_Unmarshal_print [OF ok depth] .
qed

interpretation signaling: codec MarshalMessage "\<lambda>data. case UnmarshalMessage data of None \<Rightarrow> Inl () | Some m \<Rightarrow> Inr m" message_ok
  by unfold_locales (simp add: UnmarshalMessage_Marshal)

definition caps_ok :: "Caps \<Rightarrow> bool" where
  "caps_ok c \<longleftrightarrow> valid_string (ca_Version c) \<and> in_s64 (ca_MaxFrame c) \<and> in_s64 (ca_BlockSize c)
     \<and> (\<forall>xs \<in> set_option (ca_Features c) \<union> set_option (ca_SinkHints c). list_all valid_string xs)
     \<and> length (json_print (caps_json c)) \<le> u16Max"

lemma elems_into_strings: "elems_into string_into [] (map JStr xs) [] = Some xs"
  by (induction xs) (simp_all add: string_into_def)

lemma strings_into_json: "strings_into (strings_json v) (None, []) = Some (v, [])"
proof (cases v)
  case (Some xs)
  then show ?thesis using elems_into_strings [of xs]
    by (cases xs) (simp_all only: strings_json.simps strings_into_def json.case list.map list.case fst_conv snd_conv option.case append.simps
        Let_def option.map drop_Nil)
qed (simp add: strings_into_def)

lemma unmarshal_caps_print:
  assumes "caps_ok c"
  shows "unmarshal_caps (bytes_of_string (json_print (caps_json c))) = Some c"
proof -
  obtain ms where ms: "caps_json c = JObj ms" by (simp add: caps_json_def)
  have strs: "json_ok (strings_json v)" "json_depth (strings_json v) \<le> 1" if "v \<in> {ca_Features c, ca_SinkHints c}" for v
  proof -
    show "json_ok (strings_json v)" using that assms by (cases v) (auto simp: caps_ok_def list_all_iff)
    have "foldr max (map json_depth (map JStr xs)) 0 = 0" for xs by (induction xs) simp_all
    then show "json_depth (strings_json v) \<le> 1" by (cases v) (simp_all del: list.map_comp map_map)
  qed
  have ok: "json_ok (JObj ms)" using assms strs unfolding ms [symmetric] by (simp add: caps_json_def caps_ok_def)
  have "json_depth (JObj ms) \<le> 2" using strs(2) unfolding ms [symmetric] by (simp add: caps_json_def)
  then have depth: "json_depth (JObj ms) \<le> max_depth" by (simp add: max_depth_def)
  have "members_lax caps_fields ms (zero_Caps, [], []) = Some (c, [], [])" using ms assms
    by (cases c) (auto simp: caps_json_def caps_ok_def caps_fields_def caps_field_def key_match_names fold_rune_def field_into_def string_into_def
        int_into_def zero_Caps_def strings_into_json)
  then show ?thesis unfolding unmarshal_caps_def ms json_Unmarshal_print [OF ok depth] by simp
qed

section \<open>One complete handshake\<close>

definition created_msg :: "int \<Rightarrow> Message" where "created_msg rm = zero_Message\<lparr>mg_Type := typeCreated, mg_Room := Some rm\<rparr>"
definition joined_msg :: "string \<Rightarrow> Message" where "joined_msg role = zero_Message\<lparr>mg_Type := typePeerJoined, mg_Role := role\<rparr>"

definition deliver :: "'p wire_package \<Rightarrow> Session \<Rightarrow> Session \<Rightarrow> Session" where
  "deliver p from to = Rendezvous_Handle p None (last (se_sent from)) to"

text \<open>The server allocates a room and announces the peers; afterwards each hands its last message to the other, three
  times: share, confirmation, capabilities.\<close>

definition rdv_exchange ::
  "'p wire_package \<Rightarrow> int \<Rightarrow> Session \<Rightarrow> Session \<Rightarrow> Session \<times> Session" where
  "rdv_exchange p rm off joi =
     (let o2 = Rendezvous_Handle p None (joined_msg RoleOfferer) (Rendezvous_Handle p None (created_msg rm) off);
          j2 = Rendezvous_Handle p None (joined_msg RoleJoiner) joi;
          o3 = deliver p j2 o2; j3 = deliver p o2 j2;
          o4 = deliver p j3 o3; j4 = deliver p o3 j3
      in (deliver p j4 o4, deliver p o4 j4))"

definition offerer_words :: "(err, bytes) result \<Rightarrow> Options \<Rightarrow> (err, string) result" where
  "offerer_words rnd opts = (if op_Words opts = [] then GenerateWords rnd (wordCountOrDefault 0) else Inr (op_Words opts))"

definition local_caps :: "Options \<Rightarrow> Caps" where
  "local_caps opts = (case op_LocalCaps opts of None \<Rightarrow> DefaultCaps | Some caps \<Rightarrow> caps)"

text \<open>What matters of a session between two steps.\<close>

definition at :: "Session \<Rightarrow> Phase \<Rightarrow> string \<Rightarrow> Caps \<Rightarrow> int \<Rightarrow> int \<Rightarrow> Spake2Output option \<Rightarrow> Message \<Rightarrow> bool" where
  "at s ph role caps w x out msg \<longleftrightarrow> \<not> se_settled s \<and> se_phase s = ph \<and> se_role s = role \<and> se_localCaps s = caps
     \<and> se_w s = Some w \<and> se_secret s = Some x \<and> (se_shared s \<longleftrightarrow> ph \<noteq> PhaseWaiting) \<and> se_spake2 s = out
     \<and> se_sendCtr s = (if ph = PhaseExchangingCaps then 1 else 0) \<and> se_recvCtr s = 0 \<and> last (se_sent s) = msg"

lemma at_last: "at s ph role caps w x out msg \<Longrightarrow> last (se_sent s) = msg"
  by (simp add: at_def)

lemma Start_offerer:
  assumes "op_Role opts = RoleOfferer" and "offerer_words rnd opts = Inr ws" and "RandomScalar reads = Some (Inr x)"
    and "PasswordToScalar (NormalizeCode (FormatCode rm ws)) = Inr w"
  shows "at (Rendezvous_Handle p None (created_msg rm) (Rendezvous_Start reads rnd None (NewSession opts))) PhaseWaiting RoleOfferer (local_caps opts) w x None
    (zero_Message\<lparr>mg_Type := typeCreate\<rparr>)"
  using assms by (cases "op_Words opts = []")
    (simp_all add: at_def NewSession_def Rendezvous_Start_def start_offerer_def Let_def emit_def setPhase_def offerer_words_def
      Rendezvous_Handle_def created_msg_def onCreated_def local_caps_def)

lemma Start_joiner:
  assumes "op_Role opts = RoleJoiner" and "ParseCode (op_Code opts) = Inr pc" and "RandomScalar reads = Some (Inr y)"
    and "PasswordToScalar (NormalizeCode (FormatCode (pc_Room pc) (pc_Words pc))) = Inr w"
  shows "at (Rendezvous_Start reads rnd None (NewSession opts)) PhaseWaiting RoleJoiner (local_caps opts) w y None
    (zero_Message\<lparr>mg_Type := typeJoin, mg_Room := Some (pc_Room pc)\<rparr>)"
  using assms by (simp add: at_def NewSession_def Rendezvous_Start_def start_joiner_def Let_def emit_def setPhase_def local_caps_def)

lemma Handle_joined:
  assumes "at s PhaseWaiting role caps w x None msg" and "ComputeShare p role w x = Inr share"
  shows "at (Rendezvous_Handle p None (joined_msg role) s) PhaseHandshaking role caps w x None
    (zero_Message\<lparr>mg_Type := typePake, mg_Msg := b64encode share\<rparr>)"
  using assms by (simp add: at_def Rendezvous_Handle_def joined_msg_def onPeerJoined_def emit_def setPhase_def message_types)

lemma Handle_pake:
  assumes "at s PhaseHandshaking role caps w x None msg" and "Finish p role w x share = Inr out"
  shows "at (Rendezvous_Handle p None (zero_Message\<lparr>mg_Type := typePake, mg_Msg := b64encode share\<rparr>) s) PhaseConfirming role caps w x (Some out)
    (zero_Message\<lparr>mg_Type := typeConfirm, mg_Mac := b64encode (ownConfirm role out)\<rparr>)"
  using assms by (simp add: at_def Rendezvous_Handle_def onPake_def emit_def setPhase_def message_types b64encode_def b64decode_def)

lemma Handle_confirm:
  assumes "at s PhaseConfirming role caps w x (Some out) msg" and "DeriveMaster (so_Ke out) (so_Transcript out) = Inr master"
    and "DeriveTransferKeys master = Inr keys" and "mac = expectedConfirm role out"
    and "Seal (if role = RoleOfferer then O2J keys else J2O keys) 0 capsHeader (bytes_of_string (json_print (caps_json caps))) = Inr frame"
  shows "at (Rendezvous_Handle p None (zero_Message\<lparr>mg_Type := typeConfirm, mg_Mac := b64encode mac\<rparr>) s) PhaseExchangingCaps role caps w x (Some out)
      (zero_Message\<lparr>mg_Type := typeCaps, mg_Frame := b64encode frame\<rparr>)
    \<and> se_keys (Rendezvous_Handle p None (zero_Message\<lparr>mg_Type := typeConfirm, mg_Mac := b64encode mac\<rparr>) s) = Some keys
    \<and> se_master (Rendezvous_Handle p None (zero_Message\<lparr>mg_Type := typeConfirm, mg_Mac := b64encode mac\<rparr>) s) = Some master"
  using assms
  by (simp add: at_def Rendezvous_Handle_def onConfirm_def send_caps_def sendDir_def emit_def setPhase_def message_types b64encode_def b64decode_def Let_def)

lemma Handle_caps:
  assumes "at s PhaseExchangingCaps role caps w x out msg" and "se_keys s = Some keys" and "caps_ok remote"
    and "Seal (if role = RoleOfferer then J2O keys else O2J keys) 0 capsHeader (bytes_of_string (json_print (caps_json remote))) = Inr frame"
  shows "se_result (Rendezvous_Handle p None (zero_Message\<lparr>mg_Type := typeCaps, mg_Frame := b64encode frame\<rparr>) s)
    = Some (rdv_result keys remote (s\<lparr>se_recvCtr := 1\<rparr>))"
proof -
  have "Open (recvDir keys s) 0 frame = Inr \<lparr>opened_Counter = 0, opened_Header = sealed_header capsHeader (length (bytes_of_string (json_print (caps_json remote)))),
      opened_Plaintext = bytes_of_string (json_print (caps_json remote))\<rparr>"
    using assms(1,4) by (intro Open_Seal) (simp add: recvDir_def at_def)
  then show ?thesis using assms(1,2) unmarshal_caps_print [OF assms(3)]
    by (simp add: at_def Rendezvous_Handle_def onCaps_def message_types b64encode_def b64decode_def Let_def sealed_header_def capsHeader_def
        succeed_def close_done_def setPhase_def)
qed

lemma caps_sealed:
  assumes "caps_ok c" and "DeriveTransferKeys master = Inr keys" and "dir \<in> {O2J keys, J2O keys}"
  shows "\<exists>frame. Seal dir 0 capsHeader (bytes_of_string (json_print (caps_json c))) = Inr frame"
proof -
  obtain a b where "deriveDirectional master infoDirOffererJoiner = Inr a" "deriveDirectional master infoDirJoinerOfferer = Inr b"
    "length (dk_Key a) = 32" "length (dk_Key b) = 32"
    using deriveDirectional_total [of master infoDirOffererJoiner] deriveDirectional_total [of master infoDirJoinerOfferer] by blast
  then have "length (dk_Key dir) = 32" using assms(2,3) by (auto simp: DeriveTransferKeys_def)
  then show ?thesis using assms(1) by (intro Seal_total) (simp_all add: caps_ok_def)
qed

lemma rdv_honest:
  assumes "nistec_laws (wp_curve p)"
    and "op_Role oopts = RoleOfferer" and "op_Role jopts = RoleJoiner"
    and "offerer_words rnd oopts = Inr ws" and "NormalizeCode ws \<noteq> []" and "op_Code jopts = FormatCode rm ws"
    and "0 \<le> rm" and "in_s64 rm"
    and "RandomScalar readsO = Some (Inr x)" and "RandomScalar readsJ = Some (Inr y)"
    and "caps_ok (local_caps oopts)" and "caps_ok (local_caps jopts)"
  shows "\<exists>off joi ro rj. rdv_exchange p rm (Rendezvous_Start readsO rnd None (NewSession oopts)) (Rendezvous_Start readsJ rnd' None (NewSession jopts)) = (off, joi)
      \<and> se_result off = Some ro \<and> se_result joi = Some rj
      \<and> rs_Master ro \<noteq> None \<and> rs_Master ro = rs_Master rj \<and> rs_Keys ro = rs_Keys rj \<and> rs_Spake2 ro = rs_Spake2 rj
      \<and> rs_RemoteCaps ro = local_caps jopts \<and> rs_RemoteCaps rj = local_caps oopts
      \<and> [rs_SendCounter ro, rs_RecvCounter ro, rs_SendCounter rj, rs_RecvCounter rj] = [1, 1, 1, 1]"
proof -
  let ?pc = "\<lparr>pc_Room = rm, pc_Words = NormalizeCode ws\<rparr>"
  have pc: "ParseCode (op_Code jopts) = Inr ?pc" using ParseCode_FormatCode [OF assms(7,8,5)] assms(6) by simp
  obtain w where w: "PasswordToScalar (NormalizeCode (FormatCode rm ws)) = Inr w" using PasswordToScalar_total by blast
  have w': "PasswordToScalar (NormalizeCode (FormatCode (pc_Room ?pc) (pc_Words ?pc))) = Inr w"
    using w NormalizeCode_FormatCode [OF assms(7,5)] NormalizeCode_FormatCode [OF assms(7), of "NormalizeCode ws"] assms(5) by simp
  obtain pA pB out where sp: "ComputeShare p RoleOfferer w x = Inr pA" "ComputeShare p RoleJoiner w y = Inr pB"
    "Finish p RoleOfferer w x pB = Inr out" "Finish p RoleJoiner w y pA = Inr out" using spake2_honest [OF assms(1)] by blast
  obtain master where m: "DeriveMaster (so_Ke out) (so_Transcript out) = Inr master" using DeriveMaster_total by blast
  obtain keys where k: "DeriveTransferKeys master = Inr keys" using DeriveTransferKeys_total by blast
  obtain fo where fo: "Seal (O2J keys) 0 capsHeader (bytes_of_string (json_print (caps_json (local_caps oopts)))) = Inr fo"
    using caps_sealed [OF assms(11) k] by blast
  obtain fj where fj: "Seal (J2O keys) 0 capsHeader (bytes_of_string (json_print (caps_json (local_caps jopts)))) = Inr fj"
    using caps_sealed [OF assms(12) k] by blast
  have same: "ownConfirm RoleJoiner out = expectedConfirm RoleOfferer out" "ownConfirm RoleOfferer out = expectedConfirm RoleJoiner out"
    by (simp_all add: ownConfirm_def expectedConfirm_def)
  define o1 where "o1 = Rendezvous_Handle p None (joined_msg RoleOfferer)
    (Rendezvous_Handle p None (created_msg rm) (Rendezvous_Start readsO rnd None (NewSession oopts)))"
  define j1 where "j1 = Rendezvous_Handle p None (joined_msg RoleJoiner) (Rendezvous_Start readsJ rnd' None (NewSession jopts))"
  note at1 = Handle_joined [OF Start_offerer [OF assms(2,4,9) w, of p] sp(1), folded o1_def]
    Handle_joined [OF Start_joiner [OF assms(3) pc assms(10) w', of rnd'] sp(2), folded j1_def]
  define o2 where "o2 = deliver p j1 o1"
  define j2 where "j2 = deliver p o1 j1"
  have at2: "at o2 PhaseConfirming RoleOfferer (local_caps oopts) w x (Some out)
      (zero_Message\<lparr>mg_Type := typeConfirm, mg_Mac := b64encode (ownConfirm RoleOfferer out)\<rparr>)"
    "at j2 PhaseConfirming RoleJoiner (local_caps jopts) w y (Some out)
      (zero_Message\<lparr>mg_Type := typeConfirm, mg_Mac := b64encode (ownConfirm RoleJoiner out)\<rparr>)"
    using Handle_pake [OF at1(1) sp(3)] Handle_pake [OF at1(2) sp(4)] at_last [OF at1(1)] at_last [OF at1(2)]
    by (simp_all only: o2_def j2_def deliver_def)
  define o3 where "o3 = deliver p j2 o2"
  define j3 where "j3 = deliver p o2 j2"
  have at3: "at o3 PhaseExchangingCaps RoleOfferer (local_caps oopts) w x (Some out) (zero_Message\<lparr>mg_Type := typeCaps, mg_Frame := b64encode fo\<rparr>)"
    "se_keys o3 = Some keys" "se_master o3 = Some master"
    "at j3 PhaseExchangingCaps RoleJoiner (local_caps jopts) w y (Some out) (zero_Message\<lparr>mg_Type := typeCaps, mg_Frame := b64encode fj\<rparr>)"
    "se_keys j3 = Some keys" "se_master j3 = Some master"
    using Handle_confirm [OF at2(1) m k same(1), of fo p] Handle_confirm [OF at2(2) m k same(2), of fj p] fo fj at_last [OF at2(1)] at_last [OF at2(2)]
    by (simp_all add: o3_def j3_def deliver_def)
  have "se_result (deliver p j3 o3) = Some (rdv_result keys (local_caps jopts) (o3\<lparr>se_recvCtr := 1\<rparr>))"
    "se_result (deliver p o3 j3) = Some (rdv_result keys (local_caps oopts) (j3\<lparr>se_recvCtr := 1\<rparr>))"
    using Handle_caps [OF at3(1,2) assms(12), of fj p] Handle_caps [OF at3(4,5) assms(11), of fo p] fo fj at_last [OF at3(1)] at_last [OF at3(4)]
    by (simp_all add: deliver_def)
  moreover have "rdv_exchange p rm (Rendezvous_Start readsO rnd None (NewSession oopts)) (Rendezvous_Start readsJ rnd' None (NewSession jopts))
      = (deliver p j3 o3, deliver p o3 j3)"
    by (simp only: rdv_exchange_def Let_def o1_def j1_def o2_def j2_def o3_def j3_def)
  ultimately show ?thesis using at3 by (auto simp: rdv_result_def at_def)
qed

lemma example_words: "NormalizeCode ''brave-otter'' = ''brave-otter''" "FormatCode 7 ''brave-otter'' = ''7-brave-otter''"
proof -
  show "NormalizeCode ''brave-otter'' = ''brave-otter''"
    using NormalizeCode_Join [of "[''brave'', ''otter'']"] by (simp add: code_word_def)
  have "int_dec 7 = ''7''" by code_simp
  then show "FormatCode 7 ''brave-otter'' = ''7-brave-otter''" by (simp add: FormatCode_def codeSeparator_def)
qed

lemma example_scalars: "RandomScalar [Inr [5]] = Some (Inr 5)" "RandomScalar [Inr [9]] = Some (Inr 9)"
  by (simp_all add: be_nat_def reduce_def p256Order_def)

lemma default_ints: "length (int_dec 16384) = 5" "length (int_dec 1048576) = 7"
  by (simp_all add: int_dec_def nat_dec.simps)

lemma default_caps_size: "length (json_print (caps_json DefaultCaps)) \<le> u16Max"
proof -
  have q: "length (json_quote s) \<le> 6 * n + 2" if "length s \<le> n" for s n
    using json_quote_length [of s] that by (meson add_le_mono1 le_trans mult_le_mono2)
  have "length (json_quote ''version'') \<le> 44" "length (json_quote ''maxFrame'') \<le> 50" "length (json_quote ''blockSize'') \<le> 56"
    "length (json_quote ''features'') \<le> 50" "length (json_quote ''sinkHints'') \<le> 56" "length (json_quote ''sendbeam/1'') \<le> 62"
    "length (json_quote ''folders'') \<le> 44" "length (json_quote ''relay'') \<le> 32" "length (json_quote ''direct-file'') \<le> 68"
    using q [of "''version''" 7] q [of "''maxFrame''" 8] q [of "''blockSize''" 9] q [of "''features''" 8] q [of "''sinkHints''" 9]
      q [of "''sendbeam/1''" 10] q [of "''folders''" 7] q [of "''relay''" 5] q [of "''direct-file''" 11] by simp_all
  then show ?thesis using default_ints
    by (simp add: caps_json_def DefaultCaps_def ProtocolVersion_def defaultFrameBytes_def defaultBlockBytes_def jint_def u16Max_def)
qed

lemma default_caps_strings: "valid_string ProtocolVersion" "list_all valid_string [''folders'', ''relay'']" "list_all valid_string [''direct-file'']"
  by (simp_all add: ProtocolVersion_def)

lemma caps_ok_default: "caps_ok DefaultCaps"
  using default_caps_size default_caps_strings
  by (simp add: caps_ok_def DefaultCaps_def defaultFrameBytes_def defaultBlockBytes_def in_s64_def min_int64_def max_int64_def)

section \<open>Properties\<close>

text \<open>C15: Two honest peers establish the same session.  Whatever secrets they draw, an offerer and a joiner who was given
  the offerer's code both finish the handshake with the same master secret and transfer keys, each with the other's
  capabilities, and with both counters at 1.\<close>

theorem rendezvous_honest_run:
  assumes "nistec_laws (wp_curve p)"
    and "op_Role oopts = RoleOfferer" and "op_Role jopts = RoleJoiner"
    and "offerer_words rnd oopts = Inr ws" and "NormalizeCode ws \<noteq> []" and "op_Code jopts = FormatCode rm ws"
    and "0 \<le> rm" and "in_s64 rm"
    and "RandomScalar readsO = Some (Inr x)" and "RandomScalar readsJ = Some (Inr y)"
    and "caps_ok (local_caps oopts)" and "caps_ok (local_caps jopts)"
  shows "\<exists>off joi ro rj. rdv_exchange p rm (Rendezvous_Start readsO rnd None (NewSession oopts)) (Rendezvous_Start readsJ rnd' None (NewSession jopts)) = (off, joi)
      \<and> se_result off = Some ro \<and> se_result joi = Some rj
      \<and> rs_Master ro \<noteq> None \<and> rs_Master ro = rs_Master rj \<and> rs_Keys ro = rs_Keys rj \<and> rs_Spake2 ro = rs_Spake2 rj
      \<and> rs_RemoteCaps ro = local_caps jopts \<and> rs_RemoteCaps rj = local_caps oopts
      \<and> [rs_SendCounter ro, rs_RecvCounter ro, rs_SendCounter rj, rs_RecvCounter rj] = [1, 1, 1, 1]"
  by (rule rdv_honest [OF assms])

lemma example_laws: "nistec_laws (wp_curve example_package)"
  using example_curve_laws by (simp add: example_package_def)

lemma example_options: "caps_ok (local_caps example_offerer)" "caps_ok (local_caps example_joiner)" "op_Role example_offerer = RoleOfferer"
    "op_Role example_joiner = RoleJoiner" "offerer_words (Inr []) example_offerer = Inr ''brave-otter''" "NormalizeCode ''brave-otter'' \<noteq> []"
    "op_Code example_joiner = FormatCode 7 ''brave-otter''" "(0 :: int) \<le> 7" "in_s64 7"
  using example_words caps_ok_default
  by (simp_all add: local_caps_def example_offerer_def example_joiner_def offerer_words_def in_s64_def min_int64_def max_int64_def)

theorem rendezvous_honest_run_witness:
  "\<exists>off joi ro rj. rdv_exchange example_package 7 (Rendezvous_Start [Inr [5]] (Inr []) None (NewSession example_offerer))
      (Rendezvous_Start [Inr [9]] (Inr []) None (NewSession example_joiner)) = (off, joi)
    \<and> se_result off = Some ro \<and> se_result joi = Some rj \<and> rs_Keys ro = rs_Keys rj"
proof -
  from rendezvous_honest_run [OF example_laws example_options(3-9) example_scalars example_options(1,2), of "Inr []"]
  show ?thesis by (elim exE conjE) (intro exI conjI, assumption+)
qed

theorem rendezvous_established_confirmed_witness:
  "\<exists>es r. se_result (rdv_run example_package example_offerer es) = Some r \<and> rs_RecvCounter r = 1 \<and> rs_Role r = RoleOfferer
     \<and> (\<exists>master. rs_Master r = Some master \<and> DeriveTransferKeys master = Inr (rs_Keys r))"
proof -
  let ?off = "Rendezvous_Start [Inr [5]] (Inr []) None (NewSession example_offerer)"
    and ?joi = "Rendezvous_Start [Inr [9]] (Inr []) None (NewSession example_joiner)"
  obtain off joi ro where ex: "rdv_exchange example_package 7 ?off ?joi = (off, joi)" "se_result off = Some ro"
    using rdv_honest [OF example_laws example_options(3-9) example_scalars example_options(1,2), of "Inr []"] by blast
  from ex(1) obtain m1 m2 m3 where "off = rdv_run example_package example_offerer [RdvStart [Inr [5]] (Inr []) None, RdvHandle None (created_msg 7),
      RdvHandle None (joined_msg RoleOfferer), RdvHandle None m1, RdvHandle None m2, RdvHandle None m3]"
    by (simp only: rdv_exchange_def Let_def prod.inject deliver_def rdv_run_def foldl.simps rdv_step.simps) blast
  with ex(2) obtain es where res: "se_result (rdv_run example_package example_offerer es) = Some ro" by blast
  from rendezvous_established_confirmed [OF res] example_options(3) res show ?thesis by auto
qed

section \<open>Repeated shares\<close>

text \<open>The message of someone who guesses the password scalar \<open>v\<close> and plays the joiner with the secret \<open>z\<close>.\<close>

definition guess_msg :: "'p wire_package \<Rightarrow> int \<times> int \<Rightarrow> Message" where
  "guess_msg p g = (case ComputeShare p RoleJoiner (fst g) (snd g) of Inl _ \<Rightarrow> zero_Message
     | Inr share \<Rightarrow> zero_Message\<lparr>mg_Type := typePake, mg_Msg := b64encode share\<rparr>)"

definition answer_msg :: "Spake2Output \<Rightarrow> Message" where
  "answer_msg out = zero_Message\<lparr>mg_Type := typeConfirm, mg_Mac := b64encode (so_ConfirmA out)\<rparr>"

definition shared_offerer :: "Session \<Rightarrow> int \<Rightarrow> int \<Rightarrow> bool" where
  "shared_offerer s w x \<longleftrightarrow> \<not> se_settled s \<and> se_role s = RoleOfferer \<and> se_shared s \<and> se_w s = Some w \<and> se_secret s = Some x"

lemma guess_answered:
  assumes "nistec_laws (wp_curve p)" and "shared_offerer s w x" and "ComputeShare p RoleOfferer w x = Inr own"
  shows "\<exists>out. Rendezvous_Handle p None (guess_msg p g) s = s\<lparr>se_spake2 := Some out, se_sent := se_sent s @ [answer_msg out],
      se_phase := PhaseConfirming, se_phases := se_phases s @ [PhaseConfirming]\<rparr>
    \<and> (fst g = w \<longrightarrow> Finish p RoleJoiner w (snd g) own = Inr out)"
proof -
  obtain G where share: "\<And>role w x. ComputeShare p role w x =
    Inr (ni_Bytes (wp_curve p) (ni_Add (wp_curve p) (smul (wp_curve p) (nat (reduce w)) (seedFor p role)) (smul (wp_curve p) (nat (reduce x)) G)))"
    using ComputeShare_eq [OF assms(1)] by blast
  let ?sh = "ni_Bytes (wp_curve p) (ni_Add (wp_curve p) (smul (wp_curve p) (nat (reduce (fst g))) (seedFor p RoleJoiner)) (smul (wp_curve p) (nat (reduce (snd g))) G))"
  have sh: "ComputeShare p RoleJoiner (fst g) (snd g) = Inr ?sh" by (rule share)
  obtain out where out: "Finish p RoleOfferer w x ?sh = Inr out"
    using Finish_total [OF assms(1) nistec_lawsD(6) [OF assms(1)] assms(3)] spake2_output_total by metis
  have "Finish p RoleJoiner w (snd g) own = Inr out" if "fst g = w"
    using spake2_honest [OF assms(1), of w x "snd g"] assms(3) out sh that by auto
  moreover have "Rendezvous_Handle p None (guess_msg p g) s = s\<lparr>se_spake2 := Some out, se_sent := se_sent s @ [answer_msg out],
      se_phase := PhaseConfirming, se_phases := se_phases s @ [PhaseConfirming]\<rparr>"
    using assms(2) out sh by (simp add: shared_offerer_def guess_msg_def answer_msg_def Rendezvous_Handle_def onPake_def emit_def setPhase_def
        message_types b64encode_def b64decode_def ownConfirm_def)
  ultimately show ?thesis by blast
qed

text \<open>C22: A paired session answers every share it is sent, without limit, with the confirmation MAC for that share, also
  after it has confirmed the peer, and falls back to the confirming phase.  So whoever controls the signaling channel
  tests any number of guesses of the invite code against one session: the answer to a share built from the right guess
  is the MAC the guesser computes itself.\<close>

theorem pake_answers_every_guess:
  assumes "nistec_laws (wp_curve p)" and "shared_offerer (rdv_run p opts es) w x" and "ComputeShare p RoleOfferer w x = Inr own"
  shows "\<exists>outs. length outs = length guesses
    \<and> (let s = rdv_run p opts es; s' = rdv_run p opts (es @ map (\<lambda>g. RdvHandle None (guess_msg p g)) guesses) in
        shared_offerer s' w x \<and> se_sent s' = se_sent s @ map answer_msg outs
      \<and> (guesses \<noteq> [] \<longrightarrow> se_phase s' = PhaseConfirming)
      \<and> (\<forall>i < length guesses. fst (guesses ! i) = w \<longrightarrow> Finish p RoleJoiner w (snd (guesses ! i)) own = Inr (outs ! i)))"
proof -
  have "\<exists>outs. length outs = length guesses \<and> shared_offerer (foldl (rdv_step p) s (map (\<lambda>g. RdvHandle None (guess_msg p g)) guesses)) w x
      \<and> se_sent (foldl (rdv_step p) s (map (\<lambda>g. RdvHandle None (guess_msg p g)) guesses)) = se_sent s @ map answer_msg outs
      \<and> (guesses \<noteq> [] \<longrightarrow> se_phase (foldl (rdv_step p) s (map (\<lambda>g. RdvHandle None (guess_msg p g)) guesses)) = PhaseConfirming)
      \<and> (\<forall>i < length guesses. fst (guesses ! i) = w \<longrightarrow> Finish p RoleJoiner w (snd (guesses ! i)) own = Inr (outs ! i))"
    if "shared_offerer s w x" for s
    using that
  proof (induction guesses arbitrary: s)
    case (Cons g guesses)
    obtain out where out: "Rendezvous_Handle p None (guess_msg p g) s = s\<lparr>se_spake2 := Some out, se_sent := se_sent s @ [answer_msg out],
        se_phase := PhaseConfirming, se_phases := se_phases s @ [PhaseConfirming]\<rparr>" "fst g = w \<longrightarrow> Finish p RoleJoiner w (snd g) own = Inr out"
      using guess_answered [OF assms(1) Cons.prems assms(3)] by blast
    let ?s = "s\<lparr>se_spake2 := Some out, se_sent := se_sent s @ [answer_msg out], se_phase := PhaseConfirming, se_phases := se_phases s @ [PhaseConfirming]\<rparr>"
    have "shared_offerer ?s w x" using Cons.prems by (simp add: shared_offerer_def)
    from Cons.IH [OF this] obtain outs where outs: "length outs = length guesses"
      "shared_offerer (foldl (rdv_step p) ?s (map (\<lambda>g. RdvHandle None (guess_msg p g)) guesses)) w x"
      "se_sent (foldl (rdv_step p) ?s (map (\<lambda>g. RdvHandle None (guess_msg p g)) guesses)) = se_sent ?s @ map answer_msg outs"
      "guesses \<noteq> [] \<longrightarrow> se_phase (foldl (rdv_step p) ?s (map (\<lambda>g. RdvHandle None (guess_msg p g)) guesses)) = PhaseConfirming"
      "\<forall>i < length guesses. fst (guesses ! i) = w \<longrightarrow> Finish p RoleJoiner w (snd (guesses ! i)) own = Inr (outs ! i)" by blast
    have "\<forall>i < length (g # guesses). fst ((g # guesses) ! i) = w \<longrightarrow> Finish p RoleJoiner w (snd ((g # guesses) ! i)) own = Inr ((out # outs) ! i)"
      using out(2) outs(5) by (intro allI; case_tac i) simp_all
    moreover have "foldl (rdv_step p) s (map (\<lambda>g. RdvHandle None (guess_msg p g)) (g # guesses))
        = foldl (rdv_step p) ?s (map (\<lambda>g. RdvHandle None (guess_msg p g)) guesses)"
      by (simp only: list.map foldl.simps rdv_step.simps out(1))
    moreover have "se_sent ?s @ map answer_msg outs = se_sent s @ map answer_msg (out # outs)" by simp
    moreover have "se_phase (foldl (rdv_step p) ?s (map (\<lambda>g. RdvHandle None (guess_msg p g)) guesses)) = PhaseConfirming"
      using outs(4) by (cases "guesses = []") simp_all
    ultimately show ?case using outs(1-3) by (intro exI [of _ "out # outs"]) (simp only: list.size simp_thms)
  qed simp
  from this [OF assms(2)] show ?thesis by (simp add: rdv_run_def Let_def)
qed

theorem pake_answers_every_guess_witness:
  "\<exists>w outs own. length outs = 2 \<and> Finish example_package RoleJoiner w 9 own = Inr (outs ! 1)
   \<and> se_sent (rdv_run example_package example_offerer ([RdvStart [Inr [5]] (Inr []) None, RdvHandle None (created_msg 7), RdvHandle None (joined_msg RoleOfferer)]
        @ map (\<lambda>g. RdvHandle None (guess_msg example_package g)) [(3, 9), (w, 9)]))
     = se_sent (rdv_run example_package example_offerer [RdvStart [Inr [5]] (Inr []) None, RdvHandle None (created_msg 7), RdvHandle None (joined_msg RoleOfferer)])
       @ map answer_msg outs"
proof -
  let ?es = "[RdvStart [Inr [5]] (Inr []) None, RdvHandle None (created_msg 7), RdvHandle None (joined_msg RoleOfferer)]"
  obtain w where w: "PasswordToScalar (NormalizeCode (FormatCode 7 ''brave-otter'')) = Inr w" using PasswordToScalar_total by blast
  obtain own where own: "ComputeShare example_package RoleOfferer w 5 = Inr own" using spake2_honest [OF example_laws] by blast
  have "shared_offerer (rdv_run example_package example_offerer ?es) w 5"
    using Handle_joined [OF Start_offerer [OF example_options(3,5) example_scalars(1) w, of example_package] own]
    by (simp add: at_def shared_offerer_def rdv_run_def)
  let ?g = "[(3, 9), (w, 9)] :: (int \<times> int) list"
  from pake_answers_every_guess [OF example_laws \<open>shared_offerer _ w 5\<close> own, of ?g] obtain outs where
    outs: "length outs = length ?g" "se_sent (rdv_run example_package example_offerer (?es @ map (\<lambda>g. RdvHandle None (guess_msg example_package g)) ?g))
     = se_sent (rdv_run example_package example_offerer ?es) @ map answer_msg outs"
    "\<forall>i < length ?g. fst (?g ! i) = w \<longrightarrow> Finish example_package RoleJoiner w (snd (?g ! i)) own = Inr (outs ! i)"
    unfolding Let_def by blast
  from outs(3) [rule_format, of 1] have "Finish example_package RoleJoiner w 9 own = Inr (outs ! 1)" by simp
  with outs(1,2) show ?thesis by (intro exI [of _ w] exI [of _ outs] exI [of _ own]) simp
qed

end
