(* ===== verification/UpdateCheck.thy ===== *)
theory UpdateCheck
  imports Journal ResumeSpec "HOL-Library.List_Lexorder" "HOL-Library.Char_ord"
begin

text \<open>
  Selection of an update (\<^verbatim>\<open>apps/cli/internal/updater\<close>: \<^verbatim>\<open>version.go\<close>, \<^verbatim>\<open>channel.go\<close>, \<^verbatim>\<open>manifest.go\<close>, and \<^verbatim>\<open>New\<close>,
  \<^verbatim>\<open>Check\<close> and \<^verbatim>\<open>fetchReleases\<close> of \<^verbatim>\<open>updater.go\<close>).  What the HTTP client returns for a URL, and the release list
  that a body decodes to, are arguments.
\<close>

section \<open>Text\<close>

text \<open>\<^verbatim>\<open>unicode.IsSpace\<close>, and a string cut into the byte sequences of its runes.\<close>

definition is_space :: "nat \<Rightarrow> bool" where
  "is_space r \<longleftrightarrow> 9 \<le> r \<and> r \<le> 13 \<or> r \<in> {32, 133, 160, 5760, 8232, 8233, 8239, 8287, 12288} \<or> 8192 \<le> r \<and> r \<le> 8202"

function rune_pieces :: "string \<Rightarrow> (nat \<times> string) list" where
  "rune_pieces [] = []"
| "rune_pieces (c # cs) = (fst (decode_rune (c # cs)), take (snd (decode_rune (c # cs))) (c # cs))
     # rune_pieces (drop (snd (decode_rune (c # cs))) (c # cs))"
  by pat_completeness auto
termination
  using decode_rune_width by (relation "measure length") fastforce+

declare rune_pieces.simps(2) [simp del]

definition strings_TrimSpace :: "string \<Rightarrow> string" where
  "strings_TrimSpace s = concat (map snd (rev (dropWhile (is_space \<circ> fst) (rev (dropWhile (is_space \<circ> fst) (rune_pieces s))))))"

fun fields_of :: "(nat \<times> string) list \<Rightarrow> string \<Rightarrow> string list" where
  "fields_of [] acc = (if acc = [] then [] else [acc])"
| "fields_of ((r, b) # ps) acc = (if is_space r then (if acc = [] then [] else [acc]) @ fields_of ps [] else fields_of ps (acc @ b))"

definition strings_Fields :: "string \<Rightarrow> string list" where
  "strings_Fields s = fields_of (rune_pieces s) []"

definition strings_TrimPrefix :: "string \<Rightarrow> string \<Rightarrow> string" where
  "strings_TrimPrefix s p = (if strings_HasPrefix s p then drop (length p) s else s)"

text \<open>\<^verbatim>\<open>strconv.Atoi\<close>: decimal digits with an optional sign, in the range of \<^verbatim>\<open>int\<close>.\<close>

definition strconv_Atoi :: "string \<Rightarrow> int option" where
  "strconv_Atoi s = (case s of CHR ''+'' # ds \<Rightarrow> (case ds of CHR ''-'' # _ \<Rightarrow> None | _ \<Rightarrow> ParseInt64 ds) | _ \<Rightarrow> ParseInt64 s)"

text \<open>\<^verbatim>\<open>strings.IndexByte\<close> and the two halves around the byte.\<close>

definition cut_at :: "char \<Rightarrow> string \<Rightarrow> string \<times> string" where
  "cut_at c s = (if c \<in> set s then (takeWhile (\<lambda>x. x \<noteq> c) s, tl (dropWhile (\<lambda>x. x \<noteq> c) s)) else (s, []))"

section \<open>Versions (version.go)\<close>

record Version =
  ver_Raw :: string
  ver_Major :: int
  ver_Minor :: int
  ver_Patch :: int
  ver_Prerelease :: string
  ver_Build :: string
  ver_IsDev :: bool

definition dev_version :: "string \<Rightarrow> Version" where
  "dev_version raw = \<lparr>ver_Raw = raw, ver_Major = 0, ver_Minor = 0, ver_Patch = 0, ver_Prerelease = [], ver_Build = [], ver_IsDev = True\<rparr>"

text \<open>One numeric component; a missing one is zero.\<close>

definition component :: "string list \<Rightarrow> nat \<Rightarrow> int option" where
  "component parts i = (if i < length parts
     then (case strconv_Atoi (parts ! i) of None \<Rightarrow> None | Some n \<Rightarrow> if n < 0 then None else Some n) else Some 0)"

definition ParseVersion :: "string \<Rightarrow> (err, Version) result" where
  "ParseVersion s =
     (let trimmed = strings_TrimSpace s in
      if trimmed = [] \<or> trimmed = ''dev'' \<or> strings_HasPrefix trimmed ''0.0.0~dev'' then Inr (dev_version trimmed)
      else let (clean, build) = cut_at CHR ''+'' (strings_TrimPrefix trimmed ''v'');
               (clean, prerelease) = cut_at CHR ''-'' clean;
               parts = strings_Split CHR ''.'' clean
        in if 3 < length parts then Inl (Plain ''invalid semver format: expected 1-3 numeric components'')
           else case component parts 0 of None \<Rightarrow> Inl (Plain ''invalid major version'')
             | Some major \<Rightarrow>
               (case component parts 1 of None \<Rightarrow> Inl (Plain ''invalid minor version'')
                | Some minor \<Rightarrow>
                  (case component parts 2 of None \<Rightarrow> Inl (Plain ''invalid patch version'')
                   | Some patch \<Rightarrow> Inr \<lparr>ver_Raw = trimmed, ver_Major = major, ver_Minor = minor, ver_Patch = patch,
                       ver_Prerelease = prerelease, ver_Build = build, ver_IsDev = False\<rparr>)))"

definition Version_String :: "Version \<Rightarrow> string" where
  "Version_String v =
     (if ver_IsDev v then (if ver_Raw v \<noteq> [] then ver_Raw v else ''dev'')
      else int_dec (ver_Major v) @ ''.'' @ int_dec (ver_Minor v) @ ''.'' @ int_dec (ver_Patch v)
        @ (if ver_Prerelease v \<noteq> [] then ''-'' @ ver_Prerelease v else []) @ (if ver_Build v \<noteq> [] then ''+'' @ ver_Build v else []))"

definition IsPrerelease :: "Version \<Rightarrow> bool" where
  "IsPrerelease v \<longleftrightarrow> \<not> ver_IsDev v \<and> ver_Prerelease v \<noteq> []"

text \<open>\<^verbatim>\<open>if a != b { if a > b return 1; return -1 }\<close>.\<close>

definition cmp :: "'a::linorder \<Rightarrow> 'a \<Rightarrow> int" where
  "cmp a b = (if a = b then 0 else if b < a then 1 else - 1)"

definition segment_cmp :: "string \<Rightarrow> string \<Rightarrow> int" where
  "segment_cmp seg1 seg2 = (case (strconv_Atoi seg1, strconv_Atoi seg2) of
     (Some num1, Some num2) \<Rightarrow> cmp num1 num2
   | (Some _, None) \<Rightarrow> - 1
   | (None, Some _) \<Rightarrow> 1
   | (None, None) \<Rightarrow> cmp seg1 seg2)"

fun segments_cmp :: "string list \<Rightarrow> string list \<Rightarrow> int" where
  "segments_cmp (a # as) (b # bs) = (if segment_cmp a b \<noteq> 0 then segment_cmp a b else segments_cmp as bs)"
| "segments_cmp [] bs = cmp 0 (length bs)"
| "segments_cmp (a # as) [] = cmp (length (a # as)) 0"

definition comparePrereleases :: "string \<Rightarrow> string \<Rightarrow> int" where
  "comparePrereleases p1 p2 = segments_cmp (strings_Split CHR ''.'' p1) (strings_Split CHR ''.'' p2)"

definition Compare :: "Version \<Rightarrow> Version \<Rightarrow> int" where
  "Compare v other =
     (if ver_IsDev v \<and> ver_IsDev other then 0
      else if ver_IsDev v then - 1
      else if ver_IsDev other then 1
      else if ver_Major v \<noteq> ver_Major other then cmp (ver_Major v) (ver_Major other)
      else if ver_Minor v \<noteq> ver_Minor other then cmp (ver_Minor v) (ver_Minor other)
      else if ver_Patch v \<noteq> ver_Patch other then cmp (ver_Patch v) (ver_Patch other)
      else if ver_Prerelease v = [] \<and> ver_Prerelease other \<noteq> [] then 1
      else if ver_Prerelease v \<noteq> [] \<and> ver_Prerelease other = [] then - 1
      else if ver_Prerelease v = ver_Prerelease other then 0
      else comparePrereleases (ver_Prerelease v) (ver_Prerelease other))"

definition IsGreaterThan :: "Version \<Rightarrow> Version \<Rightarrow> bool" where
  "IsGreaterThan v other \<longleftrightarrow> 0 < Compare v other"

section \<open>Channels (channel.go)\<close>

definition ChannelStable :: string where "ChannelStable = ''stable''"
definition ChannelBeta :: string where "ChannelBeta = ''beta''"
definition ChannelDev :: string where "ChannelDev = ''dev''"

definition ParseChannel :: "string \<Rightarrow> (err, string) result" where
  "ParseChannel s = (let norm = strings_ToLower (strings_TrimSpace s) in
     if norm = ChannelStable \<or> norm = [] then Inr ChannelStable
     else if norm = ChannelBeta then Inr ChannelBeta
     else if norm = ChannelDev then Inr ChannelDev
     else Inl (Plain ''unknown update channel''))"

definition AllowsPrerelease :: "string \<Rightarrow> bool" where
  "AllowsPrerelease c \<longleftrightarrow> c = ChannelBeta \<or> c = ChannelDev"

definition CompatibleWithChannel :: "Version \<Rightarrow> string \<Rightarrow> bool" where
  "CompatibleWithChannel v c = (if ver_IsDev v then c = ChannelDev else if IsPrerelease v then AllowsPrerelease c else True)"

section \<open>Release manifests (manifest.go)\<close>

record ReleaseAsset =
  asset_Name :: string
  asset_Size :: int
  asset_DownloadURL :: string
  asset_SHA256 :: string

record ReleaseMetadata =
  rel_Version :: Version
  rel_TagName :: string
  rel_Prerelease :: bool
  rel_PublishedAt :: int
  rel_ReleaseNotes :: string
  rel_Assets :: "ReleaseAsset list"
  rel_Checksums :: "(string \<rightharpoonup> string) option"

text \<open>\<^verbatim>\<open>bufio.ScanLines\<close>: lines without their newline and a carriage return before it.\<close>

fun scan_lines :: "string \<Rightarrow> string \<Rightarrow> string list" where
  "scan_lines [] acc = (if acc = [] then [] else [acc])"
| "scan_lines (c # cs) acc = (if c = CHR 0x0A then acc # scan_lines cs [] else scan_lines cs (acc @ [c]))"

definition drop_cr :: "string \<Rightarrow> string" where
  "drop_cr s = (if s \<noteq> [] \<and> last s = CHR 0x0D then butlast s else s)"

definition MaxScanTokenSize :: nat where "MaxScanTokenSize = 65536"

fun checksum_lines :: "string list \<Rightarrow> (string \<rightharpoonup> string) \<Rightarrow> (err, string \<rightharpoonup> string) result" where
  "checksum_lines [] result = Inr result"
| "checksum_lines (raw # lines) result =
     (if MaxScanTokenSize \<le> length raw then Inl (Plain ''reading checksum manifest'')
      else let line = strings_TrimSpace (drop_cr raw); fields = strings_Fields line in
        if line = [] \<or> strings_HasPrefix line ''#'' \<or> length fields < 2 then checksum_lines lines result
        else let hash = strings_ToLower (hd fields) in
          if length hash \<noteq> 64 then Inl (Plain ''invalid sha256 hash length'')
          else if hex_decode hash = None then Inl (Plain ''invalid hex in sha256 hash'')
          else let name = strings_TrimSpace (strings_TrimPrefix (strings_Join (tl fields) '' '') ''*'') in
            checksum_lines lines (if name = [] then result else result(name \<mapsto> hash)))"

text \<open>The reader gives some bytes and then the end of the stream or an error.\<close>

definition ParseChecksums :: "bytes \<Rightarrow> err option \<Rightarrow> (err, string \<rightharpoonup> string) result" where
  "ParseChecksums body rerr =
     (case checksum_lines (scan_lines (string_of_bytes body) []) Map.empty of Inl e \<Rightarrow> Inl e
      | Inr result \<Rightarrow> if rerr \<noteq> None then Inl (Plain ''reading checksum manifest'') else Inr result)"

definition TargetCLIArchiveName :: "string \<Rightarrow> string \<Rightarrow> string" where
  "TargetCLIArchiveName targetOS targetArch =
     ''sendbeam-cli-'' @ targetOS @ ''-'' @ targetArch @ ''.'' @ (if targetOS = ''windows'' then ''zip'' else ''tar.gz'')"

definition TargetCLIBinaryName :: "string \<Rightarrow> string" where
  "TargetCLIBinaryName targetOS = (if targetOS = ''windows'' then ''sendbeam.exe'' else ''sendbeam'')"

definition FindTargetAsset :: "ReleaseMetadata \<Rightarrow> string \<Rightarrow> string \<Rightarrow> (err, ReleaseAsset) result" where
  "FindTargetAsset rm targetOS targetArch = (let archiveName = TargetCLIArchiveName targetOS targetArch in
     case find (\<lambda>a. asset_Name a = archiveName) (rel_Assets rm) of
       None \<Rightarrow> Inl (Plain ''no distribution artifact found'')
     | Some asset \<Rightarrow>
       Inr (if asset_SHA256 asset = [] then
              (case rel_Checksums rm of None \<Rightarrow> asset
               | Some sums \<Rightarrow> asset\<lparr>asset_SHA256 := (case sums archiveName of None \<Rightarrow> [] | Some h \<Rightarrow> h)\<rparr>)
            else asset))"

section \<open>Checking for an update (updater.go)\<close>

text \<open>One entry of the server's release list.\<close>

record gh_release =
  gh_TagName :: string
  gh_Prerelease :: bool
  gh_PublishedAt :: int
  gh_Body :: string
  gh_Assets :: "ReleaseAsset list"

record http_response =
  resp_Status :: nat
  resp_Body :: bytes
  resp_Err :: "err option"

type_synonym http_get = "string \<Rightarrow> (err, http_response) result"

definition fetchChecksums :: "http_get \<Rightarrow> string \<Rightarrow> (err, string \<rightharpoonup> string) result" where
  "fetchChecksums get checksumURL = (case get checksumURL of Inl e \<Rightarrow> Inl e
     | Inr resp \<Rightarrow> if resp_Status resp \<noteq> 200 then Inl (Plain ''HTTP fetching checksums'')
         else ParseChecksums (resp_Body resp) (resp_Err resp))"

text \<open>The URL of the last asset named SHA256SUMS.txt counts.\<close>

definition checksum_url :: "ReleaseAsset list \<Rightarrow> string" where
  "checksum_url assets = fold (\<lambda>a u. if asset_Name a = ''SHA256SUMS.txt'' then asset_DownloadURL a else u) assets []"

definition add_hashes :: "(string \<rightharpoonup> string) \<Rightarrow> ReleaseAsset list \<Rightarrow> ReleaseAsset list" where
  "add_hashes sums = map (\<lambda>a. case sums (asset_Name a) of None \<Rightarrow> a | Some h \<Rightarrow> a\<lparr>asset_SHA256 := h\<rparr>)"

definition release_metadata :: "http_get \<Rightarrow> gh_release \<Rightarrow> ReleaseMetadata option" where
  "release_metadata get gh =
     (case ParseVersion (gh_TagName gh) of Inl _ \<Rightarrow> None
      | Inr ver \<Rightarrow>
        (let assets = map (\<lambda>a. a\<lparr>asset_SHA256 := []\<rparr>) (gh_Assets gh); url = checksum_url (gh_Assets gh);
             meta = \<lparr>rel_Version = ver, rel_TagName = gh_TagName gh, rel_Prerelease = gh_Prerelease gh, rel_PublishedAt = gh_PublishedAt gh,
               rel_ReleaseNotes = gh_Body gh, rel_Assets = assets, rel_Checksums = None\<rparr>
         in Some (if url = [] then meta
            else case fetchChecksums get url of Inl _ \<Rightarrow> meta
              | Inr sums \<Rightarrow> meta\<lparr>rel_Checksums := Some sums, rel_Assets := add_hashes sums assets\<rparr>)))"

record Updater =
  up_CurrentVersion :: Version
  up_Channel :: string
  up_Repository :: string
  up_BaseURL :: string
  up_TargetOS :: string
  up_TargetArch :: string
  up_ExecutablePath :: string

text \<open>The options of \<^verbatim>\<open>New\<close>; the platform and the path of the running executable are those of the host.\<close>

datatype UpdaterOption =
    WithChannel string
  | WithBaseURL string
  | WithExecutablePath string
  | WithTargetPlatform string string

fun apply_option :: "UpdaterOption \<Rightarrow> Updater \<Rightarrow> Updater" where
  "apply_option (WithChannel ch) u = u\<lparr>up_Channel := ch\<rparr>"
| "apply_option (WithBaseURL rawURL) u = u\<lparr>up_BaseURL := rawURL\<rparr>"
| "apply_option (WithExecutablePath p) u = u\<lparr>up_ExecutablePath := p\<rparr>"
| "apply_option (WithTargetPlatform targetOS targetArch) u = u\<lparr>up_TargetOS := targetOS, up_TargetArch := targetArch\<rparr>"

definition Updater_New :: "string \<Rightarrow> string \<Rightarrow> string \<Rightarrow> string \<Rightarrow> string \<Rightarrow> UpdaterOption list \<Rightarrow> (err, Updater) result" where
  "Updater_New goos goarch execPath currentVerStr repo opts =
     (case ParseVersion currentVerStr of Inl _ \<Rightarrow> Inl (Plain ''parsing current version'')
      | Inr ver \<Rightarrow> Inr (fold apply_option opts
          \<lparr>up_CurrentVersion = ver, up_Channel = ChannelStable, up_Repository = repo, up_BaseURL = ''https://api.github.com'',
           up_TargetOS = goos, up_TargetArch = goarch, up_ExecutablePath = execPath\<rparr>))"

definition strings_TrimSuffix :: "string \<Rightarrow> string \<Rightarrow> string" where
  "strings_TrimSuffix s p = (if strings_HasSuffix s p then take (length s - length p) s else s)"

definition fetchReleases :: "http_get \<Rightarrow> (bytes \<Rightarrow> err option \<Rightarrow> (err, gh_release list) result) \<Rightarrow> Updater
    \<Rightarrow> (err, ReleaseMetadata list) result" where
  "fetchReleases get decode u =
     (let relURL = strings_TrimSuffix (up_BaseURL u) ''/'' @ ''/repos/'' @ up_Repository u @ ''/releases'' in
      if \<not> strings_HasPrefix relURL ''http://'' \<and> \<not> strings_HasPrefix relURL ''https://'' then Inl (Plain ''invalid base URL'')
      else case get relURL of Inl e \<Rightarrow> Inl e
        | Inr resp \<Rightarrow>
          if resp_Status resp = 404 then Inr []
          else if resp_Status resp \<noteq> 200 then Inl (Plain ''HTTP fetching releases'')
          else case decode (resp_Body resp) (resp_Err resp) of Inl _ \<Rightarrow> Inl (Plain ''decoding releases JSON'')
            | Inr ghReleases \<Rightarrow> Inr (List.map_filter (release_metadata get) ghReleases))"

text \<open>The messages of a check, by the values they print.\<close>

datatype check_message =
    DevBuild Version string
  | NoReleases
  | NoMatch string
  | UpToDate Version string
  | Available Version Version string

record CheckResult =
  cr_CurrentVersion :: Version
  cr_LatestVersion :: "Version option"
  cr_Channel :: string
  cr_UpdateAvailable :: bool
  cr_TargetAsset :: "ReleaseAsset option"
  cr_ReleaseNotes :: string
  cr_PublishedAt :: "int option"
  cr_Message :: check_message

definition check_result :: "Updater \<Rightarrow> check_message \<Rightarrow> CheckResult" where
  "check_result u msg = \<lparr>cr_CurrentVersion = up_CurrentVersion u, cr_LatestVersion = None, cr_Channel = up_Channel u,
     cr_UpdateAvailable = False, cr_TargetAsset = None, cr_ReleaseNotes = [], cr_PublishedAt = None, cr_Message = msg\<rparr>"

definition select_step :: "string \<Rightarrow> ReleaseMetadata \<Rightarrow> ReleaseMetadata option \<Rightarrow> ReleaseMetadata option" where
  "select_step ch rel candidate =
     (if \<not> CompatibleWithChannel (rel_Version rel) ch then candidate
      else case candidate of None \<Rightarrow> Some rel
        | Some c \<Rightarrow> if IsGreaterThan (rel_Version rel) (rel_Version c) then Some rel else candidate)"

text \<open>\<^verbatim>\<open>LatestVersion\<close> and \<^verbatim>\<open>PublishedAt\<close> are \<open>None\<close> where they keep their zero value.\<close>

definition Check :: "http_get \<Rightarrow> (bytes \<Rightarrow> err option \<Rightarrow> (err, gh_release list) result) \<Rightarrow> Updater \<Rightarrow> (err, CheckResult) result" where
  "Check get decode u =
     (if ver_IsDev (up_CurrentVersion u) then Inr (check_result u (DevBuild (up_CurrentVersion u) (up_Channel u)))
      else case fetchReleases get decode u of Inl _ \<Rightarrow> Inl (Plain ''fetching release information'')
        | Inr releases \<Rightarrow>
          if releases = [] then Inr (check_result u NoReleases)
          else case fold (select_step (up_Channel u)) releases None of
              None \<Rightarrow> Inr (check_result u (NoMatch (up_Channel u)))
            | Some candidate \<Rightarrow>
              let res = (\<lambda>msg. (check_result u msg)\<lparr>cr_LatestVersion := Some (rel_Version candidate),
                    cr_PublishedAt := Some (rel_PublishedAt candidate), cr_ReleaseNotes := rel_ReleaseNotes candidate\<rparr>) in
              if \<not> IsGreaterThan (rel_Version candidate) (up_CurrentVersion u)
              then Inr (res (UpToDate (up_CurrentVersion u) (up_Channel u)))
              else case FindTargetAsset candidate (up_TargetOS u) (up_TargetArch u) of
                  Inl _ \<Rightarrow> Inl (Plain ''checking update asset'')
                | Inr asset \<Rightarrow> Inr ((res (Available (up_CurrentVersion u) (rel_Version candidate) (up_Channel u)))
                    \<lparr>cr_UpdateAvailable := True, cr_TargetAsset := Some asset\<rparr>))"

section \<open>The order of versions\<close>

text \<open>The contract of a three-way comparison: a total preorder with results -1, 0 and 1.\<close>

locale three_way =
  fixes c :: "'a \<Rightarrow> 'a \<Rightarrow> int"
  assumes range: "c a b \<in> {- 1, 0, 1}"
    and anti: "c b a = - c a b"
    and trans: "c a b \<le> 0 \<Longrightarrow> c b d \<le> 0 \<Longrightarrow> c a d \<le> 0"
begin

lemma self: "c a a = 0"
  using anti [of a a] by simp

lemma equivalent_left: "c a b = 0 \<Longrightarrow> c a d = c b d"
  using trans [of a b d] trans [of b a d] trans [of d b a] trans [of d a b] anti [of a b] anti [of a d] anti [of b d] range [of a d] range [of b d]
  by auto

lemma strict_trans: "c a b < 0 \<Longrightarrow> c b d \<le> 0 \<Longrightarrow> c a d < 0"
  using trans [of a b d] trans [of b d a] anti [of a b] anti [of a d] anti [of b d] by force

lemma strict_trans2: "c a b \<le> 0 \<Longrightarrow> c b d < 0 \<Longrightarrow> c a d < 0"
  using trans [of a b d] trans [of d a b] anti [of a b] anti [of a d] anti [of b d] by force

lemma above_greatest: "0 < c x z \<Longrightarrow> c x y \<le> 0 \<Longrightarrow> 0 < c y z"
  using strict_trans [of z x y] anti [of x z] anti [of y z] by simp

text \<open>Keeping the greatest of the elements that satisfy a condition.\<close>

lemma fold_greatest:
  assumes step: "\<And>x s. f x s = (if \<not> P x then s else case s of None \<Rightarrow> Some x | Some y \<Rightarrow> if 0 < c (k x) (k y) then Some x else s)"
    and start: "\<And>y. s = Some y \<Longrightarrow> P y"
  shows "case fold f xs s of None \<Rightarrow> s = None \<and> (\<forall>x\<in>set xs. \<not> P x)
     | Some y \<Rightarrow> P y \<and> (y \<in> set xs \<or> s = Some y) \<and> (\<forall>x\<in>set xs. P x \<longrightarrow> c (k x) (k y) \<le> 0)
         \<and> (\<forall>z. s = Some z \<longrightarrow> c (k z) (k y) \<le> 0)"
  using start
proof (induction xs arbitrary: s)
  case Nil
  then show ?case by (auto simp: self split: option.split)
next
  case (Cons x xs)
  have "\<And>y. f x s = Some y \<Longrightarrow> P y" using Cons.prems by (auto simp: step split: if_splits option.splits)
  note IH = Cons.IH [of "f x s", OF this]
  have after: "\<exists>w. f x s = Some w \<and> (P x \<longrightarrow> c (k x) (k w) \<le> 0) \<and> (\<forall>z. s = Some z \<longrightarrow> c (k z) (k w) \<le> 0) \<and> (w = x \<or> s = Some w)"
    if "P x \<or> s \<noteq> None"
    using that anti [of "k x" "k (the s)"] by (cases s) (auto simp: step self)
  show ?case
  proof (cases "P x \<or> s \<noteq> None")
    case True
    from after [OF True] obtain w where w: "f x s = Some w" "P x \<longrightarrow> c (k x) (k w) \<le> 0" "\<forall>z. s = Some z \<longrightarrow> c (k z) (k w) \<le> 0"
      "w = x \<or> s = Some w" by blast
    with IH obtain y where y: "fold f xs (Some w) = Some y" "P y" "y \<in> set xs \<or> w = y" "\<forall>x\<in>set xs. P x \<longrightarrow> c (k x) (k y) \<le> 0"
      "c (k w) (k y) \<le> 0" by (auto split: option.splits)
    with w trans show ?thesis by (auto simp: w(1))
  next
    case False
    then have "f x s = s" by (simp add: step)
    with IH False show ?thesis by (auto split: option.splits)
  qed
qed

end

lemma three_way_cmp: "three_way cmp"
  by unfold_locales (auto simp: cmp_def split: if_splits)

lemma three_way_key: "three_way c \<Longrightarrow> three_way (\<lambda>a b. c (f a) (f b))"
  unfolding three_way_def by blast

lemma three_way_lex:
  assumes "three_way c" and "three_way d"
  shows "three_way (\<lambda>a b. if c a b \<noteq> 0 then c a b else d a b)"
proof
  fix a b x
  let ?l = "\<lambda>a b. if c a b \<noteq> 0 then c a b else d a b"
  show "?l a b \<in> {- 1, 0, 1}" using three_way.range [OF assms(1), of a b] three_way.range [OF assms(2), of a b] by auto
  show "?l b a = - ?l a b" using three_way.anti [OF assms(1), of b a] three_way.anti [OF assms(2), of b a] by simp
  assume le: "?l a b \<le> 0" "?l b x \<le> 0"
  consider "c a b < 0" "c b x \<le> 0" | "c a b \<le> 0" "c b x < 0" | "c a b = 0" "c b x = 0" using le by (auto split: if_splits)
  then show "?l a x \<le> 0"
  proof cases
    case 3
    then have "c a x = 0" using three_way.equivalent_left [OF assms(1), of a b x] by simp
    with 3 le three_way.trans [OF assms(2), of a b x] show ?thesis by simp
  qed (use three_way.strict_trans [OF assms(1), of a b x] three_way.strict_trans2 [OF assms(1), of a b x] in auto)
qed

lemma cmp_range: "cmp a b = - 1 \<or> cmp a b = 0 \<or> cmp a b = 1"
  by (simp add: cmp_def)

lemma cmp_anti: "cmp b a = - cmp a b"
  by (auto simp: cmp_def)

interpretation segment: three_way segment_cmp
proof
  fix a b x
  show "segment_cmp a b \<in> {- 1, 0, 1}" by (simp add: segment_cmp_def cmp_def split: option.split)
  show "segment_cmp b a = - segment_cmp a b"
    by (auto simp: segment_cmp_def cmp_def split: option.split)
  assume "segment_cmp a b \<le> 0" "segment_cmp b x \<le> 0"
  then show "segment_cmp a x \<le> 0" by (auto simp: segment_cmp_def cmp_def split: option.splits if_splits)
qed

lemma segments_cmp_range: "segments_cmp as bs = - 1 \<or> segments_cmp as bs = 0 \<or> segments_cmp as bs = 1"
proof (induction as bs rule: segments_cmp.induct)
  case (1 a as b bs)
  with segment.range [of a b] show ?case by auto
qed (simp_all add: cmp_range)

lemma segments_cmp_anti: "segments_cmp bs as = - segments_cmp as bs"
proof (induction as bs rule: segments_cmp.induct)
  case (1 a as b bs)
  with segment.anti [of b a] show ?case by auto
next
  case (2 bs)
  show ?case by (cases bs) (simp_all add: cmp_def)
qed (simp add: cmp_def)

lemma segments_cmp_trans: "segments_cmp as bs \<le> 0 \<Longrightarrow> segments_cmp bs ds \<le> 0 \<Longrightarrow> segments_cmp as ds \<le> 0"
proof (induction as bs arbitrary: ds rule: segments_cmp.induct)
  case (1 a as b bs)
  show ?case
  proof (cases ds)
    case Nil
    with 1 show ?thesis by (simp add: cmp_def)
  next
    case (Cons d dt)
    consider "segment_cmp a b < 0" "segment_cmp b d \<le> 0" | "segment_cmp a b \<le> 0" "segment_cmp b d < 0" | "segment_cmp a b = 0" "segment_cmp b d = 0"
      using 1(2,3) Cons by (auto split: if_splits)
    then show ?thesis
    proof cases
      case 3
      with 1 Cons segment.equivalent_left [of a b d] show ?thesis by simp
    qed (use Cons segment.strict_trans [of a b d] segment.strict_trans2 [of a b d] in auto)
  qed
next
  case (2 bs)
  then show ?case by (cases ds) (auto simp: cmp_def)
next
  case (3 a as)
  then show ?case by (auto simp: cmp_def)
qed

interpretation segments: three_way segments_cmp
proof
  fix as bs ds
  show "segments_cmp as bs \<in> {- 1, 0, 1}" using segments_cmp_range [of as bs] by simp
qed (fact segments_cmp_anti segments_cmp_trans)+

text \<open>A version compares as its normal form does, key by key.\<close>

definition released :: "Version \<Rightarrow> Version" where
  "released v = (if ver_IsDev v then dev_version [] else v)"

definition lex :: "('a \<Rightarrow> 'a \<Rightarrow> int) \<Rightarrow> ('a \<Rightarrow> 'a \<Rightarrow> int) \<Rightarrow> 'a \<Rightarrow> 'a \<Rightarrow> int" where
  "lex c d a b = (if c a b \<noteq> 0 then c a b else d a b)"

definition by_key :: "('b \<Rightarrow> 'b \<Rightarrow> int) \<Rightarrow> ('a \<Rightarrow> 'b) \<Rightarrow> 'a \<Rightarrow> 'a \<Rightarrow> int" where
  "by_key c f a b = c (f a) (f b)"

definition version_order :: "Version \<Rightarrow> Version \<Rightarrow> int" where
  "version_order = by_key (lex (by_key cmp (Not \<circ> ver_IsDev)) (lex (by_key cmp ver_Major) (lex (by_key cmp ver_Minor) (lex (by_key cmp ver_Patch)
     (lex (by_key cmp (\<lambda>v. ver_Prerelease v = [])) (by_key comparePrereleases ver_Prerelease)))))) released"

lemma cmp_self [simp]: "cmp a a = 0"
  by (simp add: cmp_def)

lemma cmp_zero [simp]: "cmp a b = 0 \<longleftrightarrow> a = b"
  by (simp add: cmp_def)

lemma comparePrereleases_self [simp]: "comparePrereleases p p = 0"
  by (simp add: comparePrereleases_def segments.self)

lemma Compare_version_order: "Compare = version_order"
proof (intro ext)
  fix v w :: Version
  note order = version_order_def by_key_def lex_def released_def
  consider "ver_IsDev v" | "ver_IsDev w" | "\<not> ver_IsDev v" "\<not> ver_IsDev w" by blast
  then show "Compare v w = version_order v w"
  proof cases
    case 1
    then show ?thesis by (simp add: Compare_def order dev_version_def) (simp add: cmp_def)
  next
    case 2
    then show ?thesis by (simp add: Compare_def order dev_version_def) (simp add: cmp_def)
  next
    case 3
    have "cmp (ver_Prerelease v = []) (ver_Prerelease w = []) = (if ver_Prerelease v = [] \<and> ver_Prerelease w \<noteq> [] then 1
        else if ver_Prerelease v \<noteq> [] \<and> ver_Prerelease w = [] then - 1 else 0)" by (simp add: cmp_def)
    with 3 show ?thesis by (simp add: Compare_def order)
  qed
qed

lemma three_way_by_key: "three_way c \<Longrightarrow> three_way (by_key c f)"
  using three_way_key [of c f] by (simp add: by_key_def [abs_def])

lemma three_way_lex_of: "three_way c \<Longrightarrow> three_way d \<Longrightarrow> three_way (lex c d)"
  using three_way_lex [of c d] by (simp add: lex_def [abs_def])

interpretation version: three_way Compare
proof -
  have "comparePrereleases = by_key segments_cmp (strings_Split CHR ''.'')"
    by (intro ext) (simp add: comparePrereleases_def by_key_def)
  moreover have "three_way (by_key segments_cmp (strings_Split CHR ''.''))"
    by (rule three_way_by_key) (rule segments.three_way_axioms)
  ultimately have "three_way comparePrereleases" by (simp only:)
  then show "three_way Compare"
    unfolding Compare_version_order version_order_def by (intro three_way_by_key three_way_lex_of three_way_cmp)
qed

section \<open>The selected release\<close>

lemma select_greatest:
  "case fold (select_step ch) rels None of None \<Rightarrow> \<forall>rel\<in>set rels. \<not> CompatibleWithChannel (rel_Version rel) ch
   | Some best \<Rightarrow> best \<in> set rels \<and> CompatibleWithChannel (rel_Version best) ch
       \<and> (\<forall>rel\<in>set rels. CompatibleWithChannel (rel_Version rel) ch \<longrightarrow> Compare (rel_Version rel) (rel_Version best) \<le> 0)"
proof -
  let ?P = "\<lambda>rel :: ReleaseMetadata. CompatibleWithChannel (rel_Version rel) ch"
  have "case fold (select_step ch) rels None of None \<Rightarrow> None = (None :: ReleaseMetadata option) \<and> (\<forall>x\<in>set rels. \<not> ?P x)
     | Some y \<Rightarrow> ?P y \<and> (y \<in> set rels \<or> None = Some y) \<and> (\<forall>x\<in>set rels. ?P x \<longrightarrow> Compare (rel_Version x) (rel_Version y) \<le> 0)
         \<and> (\<forall>z :: ReleaseMetadata. None = Some z \<longrightarrow> Compare (rel_Version z) (rel_Version y) \<le> 0)"
    by (rule version.fold_greatest [where f = "select_step ch" and P = ?P and k = rel_Version and s = None and xs = rels])
      (simp_all add: select_step_def IsGreaterThan_def split: option.split)
  then show ?thesis by (simp split: option.splits)
qed

lemma FindTargetAsset_Inr:
  assumes "FindTargetAsset rm os arch = Inr asset"
  shows "asset_Name asset = TargetCLIArchiveName os arch \<and> asset_DownloadURL asset \<in> asset_DownloadURL ` set (rel_Assets rm)"
  using assms by (auto simp: FindTargetAsset_def Let_def find_Some_iff split: option.splits if_splits)


section \<open>Checksums\<close>

text \<open>No character of a lower-cased string is an ASCII capital, so a lower-cased hash that decodes is lower-case hexadecimal and
  is left alone by the trimming and lower-casing it goes through before the comparison.\<close>

lemma lower_lookup_high:
  "list_all (\<lambda>(lo, hi, step, d). 90 < int lo + d) t \<Longrightarrow> 128 \<le> r \<Longrightarrow> 90 < lower_lookup t r"
  by (induction t r rule: lower_lookup.induct) auto

lemma lower_table_high: "list_all (\<lambda>(lo, hi, step, d). 90 < int lo + d) lower_table"
  by (simp add: lower_table_def)

lemma ToLower_no_capital: "\<not> (65 \<le> unicode_ToLower r \<and> unicode_ToLower r \<le> 90)"
  using lower_lookup_high [OF lower_table_high, of r] by (auto simp: unicode_ToLower_def)

lemma encode_rune_ascii: "c \<in> set (encode_rune r) \<Longrightarrow> code c < 128 \<Longrightarrow> code c = r"
  by (auto simp: encode_rune_def split: if_splits)

lemma strings_ToLower_no_capital: "c \<in> set (strings_ToLower s) \<Longrightarrow> \<not> (65 \<le> code c \<and> code c \<le> 90)"
  using encode_rune_ascii ToLower_no_capital by (fastforce simp: strings_ToLower_def)

lemma hex_decode_digits: "hex_decode s \<noteq> None \<Longrightarrow> c \<in> set s \<Longrightarrow> hex_val c \<noteq> None"
  by (induction s rule: hex_decode.induct) (auto split: option.splits)

lemma hash_isLowerHex: "h = strings_ToLower s \<Longrightarrow> length h = 64 \<Longrightarrow> hex_decode h \<noteq> None \<Longrightarrow> isLowerHex h 64"
  using hex_decode_digits [of h] strings_ToLower_no_capital [of _ s]
  by (fastforce simp: isLowerHex_def list_all_iff hex_val_def is_digit_def split: if_splits)

lemma checksum_lines_hashes:
  "checksum_lines ls m = Inr sums \<Longrightarrow> \<forall>h\<in>ran m. isLowerHex h 64 \<Longrightarrow> \<forall>h\<in>ran sums. isLowerHex h 64"
proof (induction ls arbitrary: m)
  case (Cons raw ls)
  let ?fields = "strings_Fields (strings_TrimSpace (drop_cr raw))"
  let ?hash = "strings_ToLower (hd ?fields)"
  let ?name = "strings_TrimSpace (strings_TrimPrefix (strings_Join (tl ?fields) '' '') ''*'')"
  have "checksum_lines ls m = Inr sums \<or> checksum_lines ls (m(?name \<mapsto> ?hash)) = Inr sums \<and> length ?hash = 64 \<and> hex_decode ?hash \<noteq> None"
    using Cons.prems(1) by (simp add: Let_def split: if_splits)
  moreover have "\<forall>h\<in>ran (m(?name \<mapsto> ?hash)). isLowerHex h 64" if "length ?hash = 64" "hex_decode ?hash \<noteq> None"
    using Cons.prems(2) hash_isLowerHex [OF refl that] by (auto simp: ran_def)
  ultimately show ?case using Cons.IH Cons.prems(2) by metis
qed simp

lemma ParseChecksums_hashes: "ParseChecksums body rerr = Inr sums \<Longrightarrow> sums n = Some h \<Longrightarrow> isLowerHex h 64"
  using checksum_lines_hashes [of _ Map.empty sums] by (auto simp: ParseChecksums_def ran_def split: sum.splits if_splits)

lemma rune_pieces_ascii: "list_all (\<lambda>c. code c < 128) s \<Longrightarrow> rune_pieces s = map (\<lambda>c. (code c, [c])) s"
  by (induction s) (simp_all add: rune_pieces.simps(2) decode_rune_ascii)

lemma strings_TrimSpace_ascii: "list_all (\<lambda>c. 32 < code c \<and> code c < 128) s \<Longrightarrow> strings_TrimSpace s = s"
proof -
  assume s: "list_all (\<lambda>c. 32 < code c \<and> code c < 128) s"
  have id: "dropWhile (is_space \<circ> fst) (map (\<lambda>c. (code c, [c])) t) = map (\<lambda>c. (code c, [c])) t" if "set t \<subseteq> set s" for t
    using that s by (cases t) (auto simp: is_space_def list_all_iff)
  have "rune_pieces s = map (\<lambda>c. (code c, [c])) s" using s by (intro rune_pieces_ascii) (auto simp: list_all_iff)
  then show ?thesis using id [of s] id [of "rev s"] by (simp add: strings_TrimSpace_def rev_map comp_def)
qed

lemma strings_ToLower_ascii: "list_all (\<lambda>c. code c < 128 \<and> \<not> (65 \<le> code c \<and> code c \<le> 90)) s \<Longrightarrow> strings_ToLower s = s"
  by (induction s) (auto simp: strings_ToLower_def unicode_ToLower_def encode_rune_def)

lemma lowerHex_normal: "isLowerHex h n \<Longrightarrow> strings_ToLower (strings_TrimSpace h) = h"
proof -
  assume "isLowerHex h n"
  then have "list_all (\<lambda>c. 32 < code c \<and> code c < 128) h" "list_all (\<lambda>c. code c < 128 \<and> \<not> (65 \<le> code c \<and> code c \<le> 90)) h"
    by (fastforce simp: isLowerHex_def list_all_iff)+
  then show ?thesis by (simp add: strings_TrimSpace_ascii strings_ToLower_ascii)
qed

text \<open>The lines that \<^verbatim>\<open>sha256sum\<close> writes for names without spaces.\<close>

definition plain_name :: "string \<Rightarrow> bool" where
  "plain_name n \<longleftrightarrow> n \<noteq> [] \<and> list_all (\<lambda>c. 32 < code c \<and> code c < 128) n \<and> hd n \<noteq> CHR ''*'' \<and> length n \<le> 255"

definition sum_line :: "string \<times> string \<Rightarrow> string" where
  "sum_line = (\<lambda>(n, h). h @ ''  '' @ n)"

definition sums_text :: "(string \<times> string) list \<Rightarrow> string" where
  "sums_text entries = concat (map (\<lambda>e. sum_line e @ [CHR 0x0A]) entries)"

lemma scan_lines_append: "CHR 0x0A \<notin> set l \<Longrightarrow> scan_lines (l @ CHR 0x0A # rest) acc = (acc @ l) # scan_lines rest []"
  by (induction l arbitrary: acc) auto

lemma fields_of_word: "list_all (\<lambda>c. 32 < code c \<and> code c < 128) w \<Longrightarrow> fields_of (map (\<lambda>c. (code c, [c])) w @ ps) acc = fields_of ps (acc @ w)"
  by (induction w arbitrary: acc) (auto simp: is_space_def)

lemma lowerHex_printable: "isLowerHex h n \<Longrightarrow> list_all (\<lambda>c. 32 < code c \<and> code c < 128) h"
  by (fastforce simp: isLowerHex_def list_all_iff)

lemma TrimSpace_ends:
  assumes "list_all (\<lambda>c. code c < 128) s" and "s \<noteq> []" and "32 < code (hd s)" and "32 < code (last s)"
  shows "strings_TrimSpace s = s"
proof -
  let ?pc = "\<lambda>c. (code c, [c])"
  have hd: "dropWhile (is_space \<circ> fst) (map ?pc t) = map ?pc t" if "t \<noteq> []" "32 < code (hd t)" "code (hd t) < 128" for t
    using that by (cases t) (auto simp: is_space_def)
  have "code (hd s) < 128" "code (hd (rev s)) < 128" using assms(1,2) by (auto simp: list_all_iff hd_rev)
  then show ?thesis using assms hd [of s] hd [of "rev s"]
    by (simp add: strings_TrimSpace_def rune_pieces_ascii rev_map comp_def hd_rev)
qed

lemma sum_line_parts:
  assumes "isLowerHex h 64" and "plain_name n"
  defines "l \<equiv> sum_line (n, h)"
  shows "CHR 0x0A \<notin> set l" and "length l < MaxScanTokenSize" and "drop_cr l = l" and "strings_TrimSpace l = l" and "l \<noteq> []"
    and "\<not> strings_HasPrefix l ''#''" and "strings_Fields l = [h, n]"
proof -
  note p = lowerHex_printable [OF assms(1)]
  have n: "list_all (\<lambda>c. 32 < code c \<and> code c < 128) n" "n \<noteq> []" "length n \<le> 255" using assms(2) by (simp_all add: plain_name_def)
  obtain a h' where h: "h = a # h'" "32 < code a" "code a \<noteq> 35" using assms(1) by (cases h) (auto simp: isLowerHex_def)
  have l: "l = h @ ''  '' @ n" by (simp add: l_def sum_line_def)
  have ascii: "list_all (\<lambda>c. code c < 128) l" using p n(1) by (auto simp: l list_all_iff)
  have last: "last l = last n" "32 < code (last n)" using n by (auto simp: l list_all_iff)
  show "CHR 0x0A \<notin> set l" using p n(1) by (auto simp: l list_all_iff)
  show "length l < MaxScanTokenSize" using assms(1) n(3) by (simp add: l isLowerHex_def MaxScanTokenSize_def)
  show "drop_cr l = l" using last by (auto simp: drop_cr_def)
  show "l \<noteq> []" by (simp add: l)
  show "strings_TrimSpace l = l" using ascii last h by (intro TrimSpace_ends) (simp_all add: l)
  show "\<not> strings_HasPrefix l ''#''" using h by (auto simp: l strings_HasPrefix_def)
  have "strings_Fields l = fields_of (map (\<lambda>c. (code c, [c])) h @ [(32, '' ''), (32, '' '')] @ map (\<lambda>c. (code c, [c])) n @ []) []"
    using ascii by (simp add: strings_Fields_def rune_pieces_ascii l)
  also have "\<dots> = [h, n]"
    using n(2) by (simp only: fields_of_word [OF p] fields_of_word [OF n(1)]) (simp add: is_space_def fields_of_word [OF n(1), of "[]", simplified] h)
  finally show "strings_Fields l = [h, n]" .
qed

lemma checksum_lines_sum:
  assumes "isLowerHex h 64" and "plain_name n"
  shows "checksum_lines (sum_line (n, h) # ls) m = checksum_lines ls (m(n \<mapsto> h))"
proof -
  note l = sum_line_parts [OF assms]
  have h: "strings_ToLower h = h" using lowerHex_normal [OF assms(1)] strings_TrimSpace_ascii [OF lowerHex_printable [OF assms(1)]] by simp
  have n: "strings_TrimSpace n = n" "strings_TrimPrefix n ''*'' = n" "n \<noteq> []"
    using assms(2) by (cases n; auto simp: plain_name_def strings_TrimSpace_ascii strings_TrimPrefix_def strings_HasPrefix_def)+
  have d: "hex_decode h \<noteq> None" "length h = 64" using hex_decode_lower [of h 32] assms(1) by (auto simp: isLowerHex_def)
  then show ?thesis using l h n by (auto simp: Let_def)
qed

lemma scan_sums_text:
  "\<forall>(n, h)\<in>set entries. plain_name n \<and> isLowerHex h 64 \<Longrightarrow> scan_lines (sums_text entries) [] = map sum_line entries"
  by (induction entries) (auto simp: sums_text_def scan_lines_append sum_line_parts(1))

lemma checksum_lines_sums:
  "\<forall>(n, h)\<in>set entries. plain_name n \<and> isLowerHex h 64 \<Longrightarrow> checksum_lines (map sum_line entries) m = Inr (m ++ map_of (rev entries))"
proof (induction entries arbitrary: m)
  case (Cons e es)
  obtain n h where e: "e = (n, h)" by (cases e)
  with Cons.prems have "checksum_lines (map sum_line (e # es)) m = checksum_lines (map sum_line es) (m(n \<mapsto> h))"
    by (simp add: checksum_lines_sum del: checksum_lines.simps)
  also have "\<dots> = Inr (m(n \<mapsto> h) ++ map_of (rev es))" using Cons by simp
  also have "m(n \<mapsto> h) ++ map_of (rev es) = m ++ map_of (rev (e # es))" by (simp add: e map_add_assoc [symmetric])
  finally show ?case .
qed simp

text \<open>A checksum file as \<^verbatim>\<open>sha256sum\<close> writes it is read back exactly: the map holds, for every file, the hash of the last line
  that names it, and nothing else.\<close>

theorem checksums_roundtrip:
  assumes "\<forall>(n, h)\<in>set entries. plain_name n \<and> isLowerHex h 64"
  shows "ParseChecksums (bytes_of_string (sums_text entries)) None = Inr (map_of (rev entries))"
  by (simp add: ParseChecksums_def scan_sums_text [OF assms] checksum_lines_sums [OF assms])

theorem checksums_roundtrip_witness:
  "ParseChecksums (bytes_of_string (sums_text [(''a.zip'', hex_encode (sha256 [1])), (''b.zip'', hex_encode (sha256 [2]))])) None
     = Inr [''a.zip'' \<mapsto> hex_encode (sha256 [1]), ''b.zip'' \<mapsto> hex_encode (sha256 [2])]"
  using checksums_roundtrip [of "[(''a.zip'', hex_encode (sha256 [1])), (''b.zip'', hex_encode (sha256 [2]))]"]
    isLowerHex_hex_encode [of "sha256 [1]"] isLowerHex_hex_encode [of "sha256 [2]"]
  by (simp add: plain_name_def)

end
