(* ===== verification/UpdateApply.thy ===== *)
theory UpdateApply
  imports UpdateCheck JournalOps Ports
begin

text \<open>
  Installation of an update (\<^verbatim>\<open>apply.go\<close>, and \<^verbatim>\<open>Apply\<close> of \<^verbatim>\<open>updater.go\<close> in \<^verbatim>\<open>apps/cli/internal/updater\<close>) over the file
  system of the journal.  Paths are those of a Unix system.  The archive readers of the standard library are an argument: what
  the tar reader yields for a compressed stream, and what the zip reader lists.
\<close>

section \<open>Paths\<close>

text \<open>\<^verbatim>\<open>filepath.Clean\<close>: the elements kept so far, the last one first.\<close>

definition clean_step :: "bool \<Rightarrow> string \<Rightarrow> string list \<Rightarrow> string list" where
  "clean_step rooted elem acc =
     (if elem = [] \<or> elem = ''.'' then acc
      else if elem = ''..'' then (case acc of a # as \<Rightarrow> if a = ''..'' then elem # acc else as | [] \<Rightarrow> if rooted then [] else [elem])
      else elem # acc)"

definition filepath_Clean :: "string \<Rightarrow> string" where
  "filepath_Clean path =
     (let rooted = strings_HasPrefix path ''/'';
          out = (if rooted then ''/'' else []) @ strings_Join (rev (fold (clean_step rooted) (strings_Split CHR ''/'' path) [])) ''/''
      in if out = [] then ''.'' else out)"

text \<open>\<^verbatim>\<open>filepath.Abs\<close>; the working directory is unknown when \<^verbatim>\<open>Getwd\<close> fails.\<close>

definition filepath_Abs :: "string option \<Rightarrow> string \<Rightarrow> string option" where
  "filepath_Abs cwd path = (if strings_HasPrefix path ''/'' then Some (filepath_Clean path)
     else map_option (\<lambda>d. filepath_Clean (d @ ''/'' @ path)) cwd)"

definition filepath_Base :: "string \<Rightarrow> string" where
  "filepath_Base path =
     (if path = [] then ''.''
      else let p = rev (dropWhile (\<lambda>c. c = CHR ''/'') (rev path)) in
        if p = [] then ''/'' else rev (takeWhile (\<lambda>c. c \<noteq> CHR ''/'') (rev p)))"

text \<open>The directory of a clean absolute path, with a trailing slash.\<close>

definition dir_slash :: "string \<Rightarrow> string" where
  "dir_slash path = rev (dropWhile (\<lambda>c. c \<noteq> CHR ''/'') (rev path))"

section \<open>Archives\<close>

record tar_entry =
  tar_Name :: string
  tar_Typeflag :: char
  tar_Content :: "(err, bytes) result"

record zip_file =
  zip_Name :: string
  zip_Content :: "(err, bytes) result"

text \<open>A gzip stream that opens is a sequence of entries, and possibly an error instead of the end.\<close>

record archives =
  ar_tar :: "bytes \<Rightarrow> (err, tar_entry list \<times> err option) result"
  ar_zip :: "bytes \<Rightarrow> (err, zip_file list) result"

fun tar_search :: "string \<Rightarrow> tar_entry list \<Rightarrow> err option \<Rightarrow> (err, bytes) result" where
  "tar_search binaryName [] rerr = Inl (case rerr of None \<Rightarrow> Plain ''expected executable binary not found in release archive''
     | Some _ \<Rightarrow> Plain ''reading tar archive'')"
| "tar_search binaryName (header # hs) rerr =
     (if filepath_Base (tar_Name header) = binaryName \<and> tar_Typeflag header = CHR ''0''
      then (case tar_Content header of Inl _ \<Rightarrow> Inl (Plain ''extracting from tar'') | Inr data \<Rightarrow> Inr data)
      else tar_search binaryName hs rerr)"

definition extractFromTarGz :: "archives \<Rightarrow> bytes \<Rightarrow> string \<Rightarrow> (err, bytes) result" where
  "extractFromTarGz ar data binaryName = (case ar_tar ar data of Inl _ \<Rightarrow> Inl (Plain ''opening gzip stream'')
     | Inr (entries, rerr) \<Rightarrow> tar_search binaryName entries rerr)"

text \<open>\<^verbatim>\<open>strings.EqualFold\<close> against a name of ASCII letters is the folding of the JSON decoder.\<close>

definition extractFromZip :: "archives \<Rightarrow> bytes \<Rightarrow> string \<Rightarrow> (err, bytes) result" where
  "extractFromZip ar data binaryName = (case ar_zip ar data of Inl _ \<Rightarrow> Inl (Plain ''opening zip reader'')
     | Inr files \<Rightarrow>
       (case find (\<lambda>f. key_match (filepath_Base (zip_Name f)) binaryName) files of
          None \<Rightarrow> Inl (Plain ''expected executable binary not found in release archive'')
        | Some file \<Rightarrow> (case zip_Content file of Inl _ \<Rightarrow> Inl (Plain ''extracting from zip'') | Inr bs \<Rightarrow> Inr bs)))"

definition extractBinary :: "archives \<Rightarrow> bytes \<Rightarrow> string \<Rightarrow> string \<Rightarrow> (err, bytes) result" where
  "extractBinary ar data archiveName binaryName =
     (let nameLower = strings_ToLower archiveName in
      if strings_HasSuffix nameLower ''.tar.gz'' \<or> strings_HasSuffix nameLower ''.tgz'' then extractFromTarGz ar data binaryName
      else if strings_HasSuffix nameLower ''.zip'' then extractFromZip ar data binaryName
      else if 2 < length data \<and> take 2 data = [0x1f, 0x8b] then extractFromTarGz ar data binaryName
      else if 4 < length data \<and> take 4 data = [0x50, 0x4b, 3, 4] then extractFromZip ar data binaryName
      else Inr data)"

section \<open>The replacement\<close>

record ApplyOptions =
  ao_TargetPath :: string
  ao_TargetOS :: string
  ao_ExpectedSHA256 :: string
  ao_ArchiveName :: string

text \<open>The host, and its part in one installation: the random suffixes tried, which system calls succeed, and how many bytes a
  failing write wrote.\<close>

record apply_env =
  ae_canceled :: bool
  ae_GOOS :: string
  ae_cwd :: "string option"
  ae_test_suffixes :: "string list"
  ae_test_remove :: bool
  ae_suffixes :: "string list"
  ae_write :: "nat option"
  ae_chmod :: bool
  ae_sync :: bool
  ae_close :: bool
  ae_remove_tmp :: bool
  ae_remove_stale :: bool
  ae_stat :: bool
  ae_backup :: bool
  ae_swap :: bool
  ae_restore :: bool
  ae_validate :: bool
  ae_remove_new :: bool
  ae_remove_backup :: bool

definition os_Stat :: "bool \<Rightarrow> string \<Rightarrow> fsys \<Rightarrow> nat option" where
  "os_Stat ok name fs = (if ok then map_option length (ReadFile fs name) else None)"

definition rename_if :: "bool \<Rightarrow> string \<Rightarrow> string \<Rightarrow> fsys \<Rightarrow> fsys" where
  "rename_if ok old new fs = (if ok then os_Rename old new fs else fs)"

definition checkDirWritable :: "apply_env \<Rightarrow> string \<Rightarrow> fsys \<Rightarrow> fsys list option" where
  "checkDirWritable env dir fs =
     (case CreateTemp (dir @ ''.writetest-'') (ae_test_suffixes env) fs of None \<Rightarrow> None
      | Some (name, _, fs1) \<Rightarrow> Some [fs1, os_Remove (ae_test_remove env) name fs1])"

text \<open>The staging file, written, synced and closed; with the states after each system call.\<close>

definition stage :: "apply_env \<Rightarrow> string \<Rightarrow> string \<Rightarrow> bytes \<Rightarrow> fsys \<Rightarrow> (err \<times> fsys list) + (string \<times> fsys list)" where
  "stage env targetOS targetPath extracted fs =
     (if targetPath = ''/'' then Inl (Plain ''creating temporary staging file'', [])
      else case CreateTemp (targetPath @ ''.tmp-'') (ae_suffixes env) fs of
          None \<Rightarrow> Inl (Plain ''creating temporary staging file'', [])
        | Some (tmp, i, fs1) \<Rightarrow>
          (case ae_write env of
             Some n \<Rightarrow> let fs2 = file_Write i (take n extracted) fs1 in
               Inl (Plain ''writing staging binary'', [fs1, fs2, os_Remove (ae_remove_tmp env) tmp fs2])
           | None \<Rightarrow>
             let fs2 = file_Write i extracted fs1; fs3 = file_Sync i fs2 in
             if \<not> ae_chmod env \<and> targetOS \<noteq> ''windows''
             then Inl (Plain ''setting permissions on staging binary'', [fs1, fs2, os_Remove (ae_remove_tmp env) tmp fs2])
             else if \<not> ae_sync env
             then Inl (Plain ''flushing staging binary'', [fs1, fs2, os_Remove (ae_remove_tmp env) tmp fs2])
             else if \<not> ae_close env
             then Inl (Plain ''closing staging binary'', [fs1, fs2, fs3, os_Remove (ae_remove_tmp env) tmp fs3])
             else Inr (tmp, [fs1, fs2, fs3])))"

text \<open>The swap, from the removal of a stale backup on.\<close>

definition swap :: "apply_env \<Rightarrow> string \<Rightarrow> string \<Rightarrow> fsys \<Rightarrow> err option \<times> fsys list" where
  "swap env targetPath tmp fs =
     (let backup = targetPath @ ''.old'';
          fs1 = os_Remove (ae_remove_stale env) backup fs;
          existing = (os_Stat (ae_stat env) targetPath fs1 \<noteq> None) in
      if existing \<and> \<not> ae_backup env
      then (Some (Plain ''failed to backup current binary before replacement''), [fs1, os_Remove (ae_remove_tmp env) tmp fs1])
      else let fs2 = (if existing then os_Rename targetPath backup fs1 else fs1) in
        if \<not> ae_swap env
        then (let fs3 = (if existing then rename_if (ae_restore env) backup targetPath fs2 else fs2) in
          (Some (Plain ''failed to swap new binary into place (automatically rolled back)''),
           [fs1, fs2, fs3, os_Remove (ae_remove_tmp env) tmp fs3]))
        else let fs3 = os_Rename tmp targetPath fs2; info = os_Stat (ae_validate env) targetPath fs3 in
          if info = None \<or> info = Some 0
          then (let fs4 = (if existing then os_Remove (ae_remove_new env) targetPath fs3 else fs3);
                    fs5 = (if existing then rename_if (ae_restore env) backup targetPath fs4 else fs4) in
            (Some (Plain ''new binary validation failed after swap (automatically rolled back)''), [fs1, fs2, fs3, fs4, fs5]))
          else (None, [fs1, fs2, fs3, if existing then os_Remove (ae_remove_backup env) backup fs3 else fs3]))"

text \<open>\<open>archive\<close> is what reading the stream gives.\<close>

definition ApplyUpdate :: "archives \<Rightarrow> apply_env \<Rightarrow> (err, bytes) result \<Rightarrow> ApplyOptions \<Rightarrow> fsys \<Rightarrow> err option \<times> fsys list" where
  "ApplyUpdate ar env archive opts fs =
     (if ae_canceled env then (Some ContextCanceled, [])
      else let targetOS = (if ao_TargetOS opts = [] then ae_GOOS env else ao_TargetOS opts) in
        case filepath_Abs (ae_cwd env) (filepath_Clean (ao_TargetPath opts)) of
          None \<Rightarrow> (Some (Plain ''resolving target binary path''), [])
        | Some targetPath \<Rightarrow>
          (case checkDirWritable env (dir_slash targetPath) fs of
             None \<Rightarrow> (Some (Plain ''target binary directory is not writable''), [])
           | Some tested \<Rightarrow>
             let expectedHash = strings_ToLower (strings_TrimSpace (ao_ExpectedSHA256 opts)) in
             if expectedHash \<noteq> [] \<and> length expectedHash \<noteq> 64 then (Some (Plain ''invalid expected sha256 length''), tested)
             else case archive of Inl _ \<Rightarrow> (Some (Plain ''reading update stream''), tested)
               | Inr archiveBytes \<Rightarrow>
                 if archiveBytes = [] then (Some (Plain ''update stream is empty''), tested)
                 else if expectedHash \<noteq> [] \<and> hex_encode (sha256 archiveBytes) \<noteq> expectedHash
                 then (Some (Plain ''downloaded artifact checksum mismatch''), tested)
                 else case extractBinary ar archiveBytes (ao_ArchiveName opts) (TargetCLIBinaryName targetOS) of
                     Inl _ \<Rightarrow> (Some (Plain ''extracting binary from archive''), tested)
                   | Inr extracted \<Rightarrow>
                     if extracted = [] then (Some (Plain ''extracted binary is empty''), tested)
                     else case stage env targetOS targetPath extracted (last tested) of
                         Inl (e, states) \<Rightarrow> (Some e, tested @ states)
                       | Inr (tmp, states) \<Rightarrow>
                         (case swap env targetPath tmp (last states) of (r, swapped) \<Rightarrow> (r, tested @ states @ swapped))))"

text \<open>\<^verbatim>\<open>Apply\<close> of \<^verbatim>\<open>updater.go\<close>: the download of the checked asset, then its installation.\<close>

definition Updater_Apply :: "http_get \<Rightarrow> archives \<Rightarrow> apply_env \<Rightarrow> Updater \<Rightarrow> CheckResult option \<Rightarrow> fsys \<Rightarrow> err option \<times> fsys list" where
  "Updater_Apply get ar env u check fs =
     (case check of None \<Rightarrow> (Some (Plain ''no update available''), [])
      | Some res \<Rightarrow>
        if \<not> cr_UpdateAvailable res then (Some (Plain ''no update available''), [])
        else case cr_TargetAsset res of None \<Rightarrow> (Some (Plain ''no update available''), [])
          | Some asset \<Rightarrow>
            if up_ExecutablePath u = [] then (Some (Plain ''cannot determine active executable path for replacement''), [])
            else case get (asset_DownloadURL asset) of Inl _ \<Rightarrow> (Some (Plain ''downloading update artifact''), [])
              | Inr resp \<Rightarrow>
                if resp_Status resp \<noteq> 200 then (Some (Plain ''update download failed''), [])
                else let archive = (case resp_Err resp of Some e \<Rightarrow> Inl e | None \<Rightarrow> Inr (resp_Body resp));
                         opts = \<lparr>ao_TargetPath = up_ExecutablePath u, ao_TargetOS = up_TargetOS u, ao_ExpectedSHA256 = asset_SHA256 asset,
                           ao_ArchiveName = asset_Name asset\<rparr>
                  in (case ApplyUpdate ar env archive opts fs of (Some _, states) \<Rightarrow> (Some (Plain ''applying update''), states)
                      | (None, states) \<Rightarrow> (None, states)))"

section \<open>What the system calls do to a name\<close>

lemma ReadFile_set_entry: "ReadFile (set_entry n e fs) p = (if p = n then map_option (fs_data fs) e else ReadFile fs p)"
  by (simp add: ReadFile_def fs_lookup_def set_entry_def)

lemma ReadFile_Remove: "ReadFile (os_Remove ok n fs) p = (if ok \<and> p = n then None else ReadFile fs p)"
  by (simp add: os_Remove_def ReadFile_set_entry)

lemma fs_data_set_entry [simp]: "fs_data (set_entry n e fs) = fs_data fs" "fs_next (set_entry n e fs) = fs_next fs"
  by (simp_all add: set_entry_def)

lemma ReadFile_Rename: "ReadFile (os_Rename a b fs) p = (if p = a then None else if p = b then ReadFile fs a else ReadFile fs p)"
  by (simp add: os_Rename_def ReadFile_set_entry) (simp add: ReadFile_def)

lemma ReadFile_Sync [simp]: "ReadFile (file_Sync i fs) = ReadFile fs"
  by (intro ext) (simp add: ReadFile_def fs_lookup_def file_Sync_def)

lemmas reads = ReadFile_Remove ReadFile_Rename rename_if_def os_Stat_def

lemma fs_wf_lookup: "fs_wf fs \<Longrightarrow> fs_lookup fs p = Some i \<Longrightarrow> i < fs_next fs"
  unfolding fs_wf_def fs_lookup_def by (metis hd_in_set)

lemma CreateTemp_reads:
  assumes "CreateTemp pattern suffixes fs = Some (tmp, i, fs1)" and "fs_wf fs"
  shows "\<exists>s. tmp = pattern @ s" and "ReadFile fs tmp = None" and "fs_lookup fs1 tmp = Some i" and "fs_data fs1 i = []"
    and "p \<noteq> tmp \<Longrightarrow> ReadFile fs1 p = ReadFile fs p" and "p \<noteq> tmp \<Longrightarrow> fs_lookup fs1 p \<noteq> Some i" and "fs_wf fs1"
proof -
  obtain s where tmp: "tmp = pattern @ s" and fresh: "fs_lookup fs tmp = None" and i: "i = fs_next fs"
    and fs1: "fs1 = (set_entry tmp (Some i) fs)\<lparr>fs_data := (fs_data fs)(i := []), fs_clean := (fs_clean fs)(i := False), fs_next := Suc i\<rparr>"
    using assms(1) by (rule CreateTemp_Some)
  show "\<exists>s. tmp = pattern @ s" using tmp by blast
  show "ReadFile fs tmp = None" using fresh by (simp add: ReadFile_def)
  show "fs_lookup fs1 tmp = Some i" "fs_data fs1 i = []" by (simp_all add: fs1 fs_lookup_def set_entry_def)
  show "ReadFile fs1 p = ReadFile fs p" "fs_lookup fs1 p \<noteq> Some i" if "p \<noteq> tmp"
    using that fs_wf_lookup [OF assms(2), of p] by (auto simp: fs1 i ReadFile_def fs_lookup_def set_entry_def map_option_case split: option.split)
  show "fs_wf fs1" using assms(2) by (auto simp: fs_wf_def fs1 i set_entry_def less_SucI)
qed

lemma fs_wf_Remove: "fs_wf fs \<Longrightarrow> fs_wf (os_Remove ok n fs)"
  by (auto simp: fs_wf_def os_Remove_def set_entry_def)

lemma checkDirWritable_reads:
  assumes "checkDirWritable env dir fs = Some tested" and "fs_wf fs"
  shows "tested \<noteq> []" and "fs_wf (last tested)" and "st \<in> set tested \<Longrightarrow> ReadFile fs p = Some c \<Longrightarrow> ReadFile st p = Some c"
proof -
  from assms(1) obtain name i fs1 where ct: "CreateTemp (dir @ ''.writetest-'') (ae_test_suffixes env) fs = Some (name, i, fs1)"
    and tested: "tested = [fs1, os_Remove (ae_test_remove env) name fs1]"
    by (auto simp: checkDirWritable_def split: option.splits)
  note ct = CreateTemp_reads [OF ct assms(2)]
  show "tested \<noteq> []" "fs_wf (last tested)" using ct(7) by (simp_all add: tested fs_wf_Remove)
  show "ReadFile st p = Some c" if "st \<in> set tested" "ReadFile fs p = Some c"
  proof (cases "p = name")
    case False
    with that ct(5) show ?thesis by (auto simp: tested reads)
  qed (use that ct(2) in simp)
qed

text \<open>A write to a new file is seen under its name only.\<close>

lemma ReadFile_Write:
  assumes "fs_lookup fs1 tmp = Some i" and "\<And>p. p \<noteq> tmp \<Longrightarrow> fs_lookup fs1 p \<noteq> Some i"
  shows "ReadFile (file_Write i bs fs1) p = (if p = tmp then Some (fs_data fs1 i @ bs) else ReadFile fs1 p)"
  using assms by (auto simp: ReadFile_def file_Write_def fs_lookup_def map_option_case split: option.split)

definition staged :: "string \<Rightarrow> fsys \<Rightarrow> fsys \<Rightarrow> bool" where
  "staged target fs st \<longleftrightarrow> (\<forall>p. (\<forall>s. p \<noteq> target @ ''.tmp-'' @ s) \<longrightarrow> ReadFile st p = ReadFile fs p)"

lemma stage_reads:
  assumes "fs_wf fs"
  shows "case stage env os target extracted fs of Inl (e, states) \<Rightarrow> list_all (staged target fs) states
     | Inr (tmp, states) \<Rightarrow> (\<exists>s. tmp = target @ ''.tmp-'' @ s) \<and> states \<noteq> [] \<and> list_all (staged target fs) states
         \<and> ReadFile (last states) tmp = Some extracted"
proof (cases "target = ''/'' \<or> CreateTemp (target @ ''.tmp-'') (ae_suffixes env) fs = None")
  case True
  then show ?thesis by (auto simp: stage_def)
next
  case False
  then obtain tmp i fs1 where ct: "CreateTemp (target @ ''.tmp-'') (ae_suffixes env) fs = Some (tmp, i, fs1)" by auto
  note r = CreateTemp_reads [OF ct assms]
  obtain s where tmp: "tmp = target @ ''.tmp-'' @ s" using r(1) by auto
  note w = ReadFile_Write [OF r(3) r(6)]
  have "staged target fs fs1" "staged target fs (file_Write i bs fs1)" "staged target fs (file_Sync i (file_Write i bs fs1))"
    "staged target fs (os_Remove ok tmp (file_Write i bs fs1))" "staged target fs (os_Remove ok tmp (file_Sync i (file_Write i bs fs1)))" for bs ok
    using r(5) tmp by (auto simp: staged_def w reads)
  moreover have "ReadFile (file_Sync i (file_Write i extracted fs1)) tmp = Some extracted" using r(4) by (simp add: w)
  ultimately show ?thesis using False tmp by (simp add: stage_def ct Let_def split: option.split)
qed

section \<open>Rollback and installation\<close>

definition recoverable :: "string \<Rightarrow> bytes \<Rightarrow> bytes \<Rightarrow> fsys \<Rightarrow> bool" where
  "recoverable target old new st \<longleftrightarrow> ReadFile st target = Some old \<or> ReadFile st target = Some new
     \<or> ReadFile st target = None \<and> ReadFile st (target @ ''.old'') = Some old"

lemma swap_recoverable:
  assumes "ReadFile fs target = Some old" and "ReadFile fs tmp = Some new" and "tmp = target @ ''.tmp-'' @ s" and "ae_stat env"
    and "swap env target tmp fs = (r, states)"
  shows "list_all (recoverable target old new) states" and "r \<noteq> None \<Longrightarrow> ae_restore env \<Longrightarrow> ReadFile (last states) target = Some old"
    and "r = None \<Longrightarrow> \<exists>st\<in>set states. ReadFile st target = None" and "states \<noteq> []"
  using assms by (auto simp: swap_def Let_def reads recoverable_def split: if_splits)

lemma swap_installs:
  assumes "swap env target tmp fs = (None, states)" and "ReadFile fs tmp = Some new" and "tmp = target @ ''.tmp-'' @ s"
  shows "states \<noteq> [] \<and> ReadFile (last states) target = Some new"
  using assms by (auto simp: swap_def Let_def reads split: if_splits)

definition target_of :: "apply_env \<Rightarrow> string \<Rightarrow> string option" where
  "target_of env path = filepath_Abs (ae_cwd env) (filepath_Clean path)"

definition extracted_of :: "archives \<Rightarrow> apply_env \<Rightarrow> ApplyOptions \<Rightarrow> bytes \<Rightarrow> (err, bytes) result" where
  "extracted_of ar env opts data = extractBinary ar data (ao_ArchiveName opts)
     (TargetCLIBinaryName (if ao_TargetOS opts = [] then ae_GOOS env else ao_TargetOS opts))"

definition hash_ok :: "ApplyOptions \<Rightarrow> bytes \<Rightarrow> bool" where
  "hash_ok opts data \<longleftrightarrow> (let expected = strings_ToLower (strings_TrimSpace (ao_ExpectedSHA256 opts)) in
     expected \<noteq> [] \<longrightarrow> length expected = 64 \<and> hex_encode (sha256 data) = expected)"

text \<open>An installation either stops before the staging file, with the test file as its only trace, or runs to the staging
  file and the swap with the verified contents.\<close>

lemma ApplyUpdate_cases:
  assumes "ApplyUpdate ar env archive opts fs = (r, states)" and "target_of env (ao_TargetPath opts) = Some target"
  obtains (early) e where "r = Some e" and "states = []"
    | (refused) e where "r = Some e" and "checkDirWritable env (dir_slash target) fs = Some states"
    | (staging) e os tested data new before where "r = Some e" and "checkDirWritable env (dir_slash target) fs = Some tested"
        and "archive = Inr data" and "hash_ok opts data" and "extracted_of ar env opts data = Inr new" and "new \<noteq> []"
        and "stage env os target new (last tested) = Inl (e, before)" and "states = tested @ before"
    | (swapping) os tested data new before tmp swapped where "checkDirWritable env (dir_slash target) fs = Some tested"
        and "archive = Inr data" and "hash_ok opts data" and "extracted_of ar env opts data = Inr new" and "new \<noteq> []"
        and "stage env os target new (last tested) = Inr (tmp, before)" and "swap env target tmp (last before) = (r, swapped)"
        and "states = tested @ before @ swapped"
proof (cases "ae_canceled env \<or> checkDirWritable env (dir_slash target) fs = None")
  case True
  with assms have "\<exists>e. r = Some e \<and> states = []"
    by (auto simp: ApplyUpdate_def target_of_def [symmetric] Let_def split: if_splits)
  with early show ?thesis by blast
next
  case False
  then obtain tested where tested: "checkDirWritable env (dir_slash target) fs = Some tested" and go: "\<not> ae_canceled env" by auto
  let ?os = "if ao_TargetOS opts = [] then ae_GOOS env else ao_TargetOS opts"
  let ?h = "strings_ToLower (strings_TrimSpace (ao_ExpectedSHA256 opts))"
  show ?thesis
  proof (cases "\<exists>data new. archive = Inr data \<and> data \<noteq> [] \<and> hash_ok opts data \<and> extracted_of ar env opts data = Inr new \<and> new \<noteq> []")
    case True
    then obtain data new where d: "archive = Inr data" "data \<noteq> []" "hash_ok opts data" "extracted_of ar env opts data = Inr new" "new \<noteq> []" by blast
    have h: "\<not> (?h \<noteq> [] \<and> length ?h \<noteq> 64)" "\<not> (?h \<noteq> [] \<and> hex_encode (sha256 data) \<noteq> ?h)" using d(3) by (auto simp: hash_ok_def Let_def)
    have run: "(case stage env ?os target new (last tested) of Inl (e, states) \<Rightarrow> (Some e, tested @ states)
        | Inr (tmp, before) \<Rightarrow> case swap env target tmp (last before) of (r, swapped) \<Rightarrow> (r, tested @ before @ swapped)) = (r, states)"
      using assms go tested d(1,2,5) h d(4) [unfolded extracted_of_def]
      by (simp only: ApplyUpdate_def target_of_def [symmetric] Let_def if_False option.case sum.case if_P if_not_P simp_thms)
    show ?thesis
    proof (cases "stage env ?os target new (last tested)")
      case (Inl x)
      with run show ?thesis by (cases x) (intro staging [OF _ tested d(1,3-5)], auto)
    next
      case (Inr x)
      with run show ?thesis
        by (cases x, cases "swap env target (fst x) (last (snd x))") (intro swapping [OF tested d(1,3-5)], auto)
    qed
  next
    case no: False
    have "\<exists>e. r = Some e \<and> states = tested"
      using assms go tested no
      by (auto simp: ApplyUpdate_def target_of_def [symmetric] Let_def hash_ok_def extracted_of_def split: if_splits sum.splits)
    with refused tested show ?thesis by blast
  qed
qed


lemma update_installed:
  assumes "fs_wf fs" and "target_of env (ao_TargetPath opts) = Some target" and "ApplyUpdate ar env archive opts fs = (None, states)"
  shows "\<exists>data new. archive = Inr data \<and> hash_ok opts data \<and> extracted_of ar env opts data = Inr new \<and> new \<noteq> []
    \<and> states \<noteq> [] \<and> ReadFile (last states) target = Some new"
  using assms(3,2)
proof (cases rule: ApplyUpdate_cases)
  case (swapping os tested data new before tmp swapped)
  note w = checkDirWritable_reads [OF swapping(1) assms(1)]
  obtain s where "tmp = target @ ''.tmp-'' @ s" "ReadFile (last before) tmp = Some new"
    using stage_reads [OF w(2), where env = env and os = os and target = target and extracted = new] swapping(6) by auto
  with swap_installs swapping show ?thesis by (auto simp: swapping(8))
qed simp_all

text \<open>A successful installation over an existing binary goes through a state in which no file has the executable's name:
  the swap is two renames, not one.\<close>

theorem update_swap_window:
  assumes "fs_wf fs" and "target_of env (ao_TargetPath opts) = Some target" and "ReadFile fs target = Some old" and "ae_stat env"
    and "ApplyUpdate ar env archive opts fs = (None, states)"
  shows "\<exists>st\<in>set states. ReadFile st target = None"
  using assms(5,2)
proof (cases rule: ApplyUpdate_cases)
  case (swapping os tested data new before tmp swapped)
  note w = checkDirWritable_reads [OF swapping(1) assms(1)]
  obtain s where stage: "tmp = target @ ''.tmp-'' @ s" "before \<noteq> []" "list_all (staged target (last tested)) before"
    "ReadFile (last before) tmp = Some new" using stage_reads [OF w(2), where env = env and os = os and target = target and extracted = new] swapping(6) by auto
  have "ReadFile (last before) target = Some old"
    using last_in_set [OF stage(2)] stage(3) w(3) [OF last_in_set [OF w(1)] assms(3)] by (auto simp: list_all_iff staged_def)
  from swap_recoverable(3) [OF this stage(4,1) assms(4) swapping(7)] show ?thesis by (auto simp: swapping(8))
qed simp_all

section \<open>From the release list to the executable\<close>

lemma release_metadata_hashes:
  assumes "release_metadata get gh = Some rel" and "a \<in> set (rel_Assets rel)"
  shows "asset_SHA256 a = (case rel_Checksums rel of None \<Rightarrow> []
     | Some sums \<Rightarrow> (case sums (asset_Name a) of None \<Rightarrow> [] | Some h \<Rightarrow> h))"
  using assms by (auto simp: release_metadata_def Let_def add_hashes_def split: sum.splits if_splits option.splits)

lemma release_metadata_sums:
  assumes "release_metadata get gh = Some rel" and "rel_Checksums rel = Some sums" and "sums n = Some h"
  shows "isLowerHex h 64"
proof -
  from assms(1,2) obtain url where "fetchChecksums get url = Inr sums"
    by (auto simp: release_metadata_def Let_def split: sum.splits if_splits)
  with assms(3) ParseChecksums_hashes show ?thesis by (auto simp: fetchChecksums_def split: sum.splits if_splits)
qed

lemma fetched_release:
  assumes "fetchReleases get decode u = Inr rels" and "rel \<in> set rels"
  obtains gh where "release_metadata get gh = Some rel"
  using assms by (auto simp: fetchReleases_def Let_def map_filter_def split: if_splits sum.splits)

lemma fetched_hashes:
  assumes "fetchReleases get decode u = Inr rels" and "rel \<in> set rels" and "FindTargetAsset rel os arch = Inr asset"
  shows "asset_SHA256 asset = (case rel_Checksums rel of None \<Rightarrow> []
     | Some sums \<Rightarrow> (case sums (TargetCLIArchiveName os arch) of None \<Rightarrow> [] | Some h \<Rightarrow> h))"
proof -
  obtain gh where gh: "release_metadata get gh = Some rel" by (rule fetched_release [OF assms(1,2)])
  from assms(3) obtain a where "find (\<lambda>a. asset_Name a = TargetCLIArchiveName os arch) (rel_Assets rel) = Some a"
    and asset: "asset = (if asset_SHA256 a = [] then (case rel_Checksums rel of None \<Rightarrow> a
      | Some sums \<Rightarrow> a\<lparr>asset_SHA256 := (case sums (TargetCLIArchiveName os arch) of None \<Rightarrow> [] | Some h \<Rightarrow> h)\<rparr>) else a)"
    by (cases "find (\<lambda>a. asset_Name a = TargetCLIArchiveName os arch) (rel_Assets rel)") (simp_all add: FindTargetAsset_def Let_def)
  then have a: "a \<in> set (rel_Assets rel)" "asset_Name a = TargetCLIArchiveName os arch" by (auto simp: find_Some_iff)
  from release_metadata_hashes [OF gh a(1)] show ?thesis by (auto simp: asset a(2) split: option.splits)
qed

lemma Check_available:
  assumes "Check get decode u = Inr res" and "cr_UpdateAvailable res"
  obtains rels best asset where "fetchReleases get decode u = Inr rels" and "best \<in> set rels" and "cr_LatestVersion res = Some (rel_Version best)"
    and "cr_TargetAsset res = Some asset" and "FindTargetAsset best (up_TargetOS u) (up_TargetArch u) = Inr asset"
    and "CompatibleWithChannel (rel_Version best) (up_Channel u)" and "IsGreaterThan (rel_Version best) (up_CurrentVersion u)"
proof -
  from assms obtain rels best asset where r: "fetchReleases get decode u = Inr rels" "fold (select_step (up_Channel u)) rels None = Some best"
    "cr_LatestVersion res = Some (rel_Version best)" "cr_TargetAsset res = Some asset" "FindTargetAsset best (up_TargetOS u) (up_TargetArch u) = Inr asset"
    "IsGreaterThan (rel_Version best) (up_CurrentVersion u)"
    by (auto simp: Check_def check_result_def Let_def split: if_splits sum.splits option.splits)
  with select_greatest [of rels "up_Channel u"] that show thesis by auto
qed


section \<open>Releases without checksums\<close>

text \<open>A host on which every system call succeeds.\<close>

definition fault_free :: "apply_env \<Rightarrow> string \<Rightarrow> fsys \<Rightarrow> bool" where
  "fault_free env target fs \<longleftrightarrow> \<not> ae_canceled env \<and> target \<noteq> ''/'' \<and> ae_write env = None \<and> ae_chmod env \<and> ae_sync env \<and> ae_close env
     \<and> ae_backup env \<and> ae_swap env \<and> ae_validate env
     \<and> (\<exists>tested. checkDirWritable env (dir_slash target) fs = Some tested \<and> CreateTemp (target @ ''.tmp-'') (ae_suffixes env) (last tested) \<noteq> None)"

lemma ApplyUpdate_fault_free:
  assumes "fs_wf fs" and "target_of env (ao_TargetPath opts) = Some target" and "fault_free env target fs" and "data \<noteq> []"
    and "hash_ok opts data" and "extracted_of ar env opts data = Inr new" and "new \<noteq> []"
  shows "\<exists>states. ApplyUpdate ar env (Inr data) opts fs = (None, states)"
proof -
  let ?os = "if ao_TargetOS opts = [] then ae_GOOS env else ao_TargetOS opts"
  let ?h = "strings_ToLower (strings_TrimSpace (ao_ExpectedSHA256 opts))"
  from assms(3) obtain tested tmp i fs1 where f: "checkDirWritable env (dir_slash target) fs = Some tested"
    "CreateTemp (target @ ''.tmp-'') (ae_suffixes env) (last tested) = Some (tmp, i, fs1)" by (auto simp: fault_free_def)
  note w = checkDirWritable_reads [OF f(1) assms(1)]
  obtain before where b: "stage env ?os target new (last tested) = Inr (tmp, before)"
    using assms(3) f(2) by (simp add: stage_def fault_free_def Let_def)
  obtain s where "tmp = target @ ''.tmp-'' @ s" "ReadFile (last before) tmp = Some new"
    using stage_reads [OF w(2), where env = env and os = ?os and target = target and extracted = new] b by auto
  then have "fst (swap env target tmp (last before)) = None"
    using assms(3,7) by (auto simp: swap_def fault_free_def Let_def reads split: if_split)
  then obtain swapped where sw: "swap env target tmp (last before) = (None, swapped)"
    by (cases "swap env target tmp (last before)") simp
  have h: "\<not> (?h \<noteq> [] \<and> length ?h \<noteq> 64)" "\<not> (?h \<noteq> [] \<and> hex_encode (sha256 data) \<noteq> ?h)" using assms(5) by (auto simp: hash_ok_def Let_def)
  have "\<not> ae_canceled env" using assms(3) by (simp add: fault_free_def)
  then have "ApplyUpdate ar env (Inr data) opts fs = (None, tested @ before @ swapped)"
    using assms(2,4,7) f(1) h b sw assms(6) [unfolded extracted_of_def]
    by (simp only: ApplyUpdate_def target_of_def [symmetric] Let_def if_False option.case sum.case if_P if_not_P simp_thms prod.case)
  then show ?thesis by blast
qed

text \<open>C40: When no listed release has a checksum file that could be read, an update that a check offers is installed whatever the download contains: any
  archive with a binary of the right name replaces the executable, with no verification.\<close>

theorem update_unverified_without_checksums:
  assumes "fs_wf fs" and "target_of env (up_ExecutablePath u) = Some target" and "up_ExecutablePath u \<noteq> []" and "fault_free env target fs"
    and "fetchReleases get decode u = Inr rels" and "\<forall>rel\<in>set rels. rel_Checksums rel = None"
    and "Check get decode u = Inr res" and "cr_UpdateAvailable res" and "cr_TargetAsset res = Some asset"
    and "get (asset_DownloadURL asset) = Inr \<lparr>resp_Status = 200, resp_Body = data, resp_Err = None\<rparr>" and "data \<noteq> []"
    and "extractBinary ar data (asset_Name asset) (TargetCLIBinaryName (if up_TargetOS u = [] then ae_GOOS env else up_TargetOS u)) = Inr new"
    and "new \<noteq> []"
  shows "\<exists>states. Updater_Apply get ar env u (Some res) fs = (None, states) \<and> ReadFile (last states) target = Some new"
proof -
  obtain best where c: "best \<in> set rels" "FindTargetAsset best (up_TargetOS u) (up_TargetArch u) = Inr asset"
    using Check_available [OF assms(7,8)] assms(5,9) by (metis option.inject sum.inject(2))
  with assms(6) have sha: "asset_SHA256 asset = []" using fetched_hashes [OF assms(5) c] by simp
  let ?opts = "\<lparr>ao_TargetPath = up_ExecutablePath u, ao_TargetOS = up_TargetOS u, ao_ExpectedSHA256 = asset_SHA256 asset, ao_ArchiveName = asset_Name asset\<rparr>"
  have "hash_ok ?opts data" by (simp add: hash_ok_def sha strings_TrimSpace_def strings_ToLower_def)
  moreover have x: "extracted_of ar env ?opts data = Inr new" using assms(12) by (simp add: extracted_of_def split: if_splits)
  ultimately obtain states where a: "ApplyUpdate ar env (Inr data) ?opts fs = (None, states)"
    using ApplyUpdate_fault_free [of fs env ?opts target data ar new] assms(1,2,4,11,13) by auto
  from update_installed [OF assms(1) _ a] x assms(2) have "ReadFile (last states) target = Some new" by auto
  then show ?thesis using assms(3,8-10) a by (simp add: Updater_Apply_def)
qed

section \<open>An example\<close>

definition example_updater :: Updater where
  "example_updater = \<lparr>up_CurrentVersion = \<lparr>ver_Raw = ''1.3.0'', ver_Major = 1, ver_Minor = 3, ver_Patch = 0, ver_Prerelease = [], ver_Build = [], ver_IsDev = False\<rparr>,
     up_Channel = ChannelStable, up_Repository = ''o/r'', up_BaseURL = ''https://api.github.com'', up_TargetOS = ''linux'', up_TargetArch = ''amd64'',
     up_ExecutablePath = ''/opt/sb''\<rparr>"

definition example_archive_name :: string where
  "example_archive_name = ''sendbeam-cli-linux-amd64.tar.gz''"

text \<open>The stable release 1.4.0 and a later beta; the archive is the one byte \<^verbatim>\<open>a\<close>.\<close>

definition example_releases :: "gh_release list" where
  "example_releases = (let asset = (\<lambda>n u. \<lparr>asset_Name = n, asset_Size = 1, asset_DownloadURL = u, asset_SHA256 = []\<rparr>);
       rel = (\<lambda>t as. \<lparr>gh_TagName = t, gh_Prerelease = False, gh_PublishedAt = 0, gh_Body = [], gh_Assets = as\<rparr>)
     in [rel ''v1.3.0'' [], rel ''v1.4.0'' [asset example_archive_name ''d'', asset ''SHA256SUMS.txt'' ''s''], rel ''v1.5.0-beta.1'' [], rel ''nightly'' []])"

definition example_hash :: string where
  "example_hash = hex_encode (sha256 [97])"

definition example_sums :: bytes where
  "example_sums = bytes_of_string (sums_text [(example_archive_name, example_hash)])"

definition example_get :: "nat \<Rightarrow> http_get" where
  "example_get status url = Inr (if url = ''s'' then \<lparr>resp_Status = status, resp_Body = example_sums, resp_Err = None\<rparr>
     else \<lparr>resp_Status = 200, resp_Body = [97], resp_Err = None\<rparr>)"

definition example_decode :: "bytes \<Rightarrow> err option \<Rightarrow> (err, gh_release list) result" where
  "example_decode body rerr = Inr example_releases"

definition example_result :: "string \<Rightarrow> CheckResult" where
  "example_result hash = (let new = \<lparr>ver_Raw = ''v1.4.0'', ver_Major = 1, ver_Minor = 4, ver_Patch = 0, ver_Prerelease = [], ver_Build = [], ver_IsDev = False\<rparr> in
     \<lparr>cr_CurrentVersion = up_CurrentVersion example_updater, cr_LatestVersion = Some new, cr_Channel = ChannelStable, cr_UpdateAvailable = True,
      cr_TargetAsset = Some \<lparr>asset_Name = example_archive_name, asset_Size = 1, asset_DownloadURL = ''d'', asset_SHA256 = hash\<rparr>,
      cr_ReleaseNotes = [], cr_PublishedAt = Some 0, cr_Message = Available (up_CurrentVersion example_updater) new ChannelStable\<rparr>)"

definition example_archives :: archives where
  "example_archives = \<lparr>ar_tar = (\<lambda>data. Inr ([\<lparr>tar_Name = ''dist/sendbeam'', tar_Typeflag = CHR ''0'', tar_Content = Inr (1 # data)\<rparr>], None)),
     ar_zip = (\<lambda>data. Inr [])\<rparr>"

definition example_host :: apply_env where
  "example_host = \<lparr>ae_canceled = False, ae_GOOS = ''linux'', ae_cwd = None, ae_test_suffixes = [''1''], ae_test_remove = True, ae_suffixes = [''2''],
     ae_write = None, ae_chmod = True, ae_sync = True, ae_close = True, ae_remove_tmp = True, ae_remove_stale = True, ae_stat = True, ae_backup = True,
     ae_swap = True, ae_restore = True, ae_validate = True, ae_remove_new = True, ae_remove_backup = True\<rparr>"

definition example_root :: fsys where
  "example_root = \<lparr>fs_entries = (\<lambda>name. [if name = ''/opt/sb'' then Some 0 else None]), fs_data = (\<lambda>i. [9]), fs_clean = (\<lambda>i. True), fs_next = 1\<rparr>"

lemmas version_eval = ParseVersion_def strings_TrimSpace_ascii strings_HasPrefix_def strings_TrimPrefix_def cut_at_def component_def
  strconv_Atoi_def ParseInt64_def is_digit_def dec_nat_def in_s64_def min_int64_def max_int64_def Let_def

lemma example_versions:
  "ParseVersion ''v1.3.0'' = Inr \<lparr>ver_Raw = ''v1.3.0'', ver_Major = 1, ver_Minor = 3, ver_Patch = 0, ver_Prerelease = [], ver_Build = [], ver_IsDev = False\<rparr>"
  "ParseVersion ''v1.4.0'' = Inr \<lparr>ver_Raw = ''v1.4.0'', ver_Major = 1, ver_Minor = 4, ver_Patch = 0, ver_Prerelease = [], ver_Build = [], ver_IsDev = False\<rparr>"
  "ParseVersion ''v1.5.0-beta.1'' = Inr \<lparr>ver_Raw = ''v1.5.0-beta.1'', ver_Major = 1, ver_Minor = 5, ver_Patch = 0, ver_Prerelease = ''beta.1'',
     ver_Build = [], ver_IsDev = False\<rparr>"
  "ParseVersion ''nightly'' = Inl (Plain ''invalid major version'')"
  by (simp_all add: version_eval)

lemma example_hash_hex: "isLowerHex example_hash 64"
  using isLowerHex_hex_encode [of "sha256 [97]"] by (simp add: example_hash_def)

lemma example_fetch: "fetchChecksums (example_get st) ''s'' = (if st = 200 then Inr [example_archive_name \<mapsto> example_hash] else Inl (Plain ''HTTP fetching checksums''))"
proof -
  have "plain_name example_archive_name" by (simp add: plain_name_def example_archive_name_def)
  with example_hash_hex have "\<forall>(n, h)\<in>set [(example_archive_name, example_hash)]. plain_name n \<and> isLowerHex h 64" by simp
  from scan_sums_text [OF this] checksum_lines_sums [OF this, of Map.empty] show ?thesis
    by (simp add: fetchChecksums_def example_get_def example_sums_def ParseChecksums_def del: checksum_lines.simps)
qed

lemma example_decoded: "fetchReleases (example_get st) example_decode example_updater = Inr (List.map_filter (release_metadata (example_get st)) example_releases)"
  by (simp add: fetchReleases_def example_get_def example_updater_def example_decode_def strings_TrimSuffix_def strings_HasPrefix_def strings_HasSuffix_def)

lemma example_check_of:
  "Check (example_get st) example_decode example_updater = Inr (example_result (if st = 200 then example_hash else []))"
  unfolding Check_def example_decoded
  by (simp add: example_releases_def release_metadata_def example_versions checksum_url_def map_filter_simps example_fetch add_hashes_def
      example_updater_def select_step_def IsGreaterThan_def Compare_def cmp_def CompatibleWithChannel_def IsPrerelease_def AllowsPrerelease_def
      ChannelStable_def ChannelBeta_def ChannelDev_def FindTargetAsset_def TargetCLIArchiveName_def example_archive_name_def check_result_def
      example_result_def Let_def)

lemmas example_check = example_check_of [of 200, simplified]
  and example_check_unavailable = example_check_of [of 404, simplified]

lemma example_target: "target_of example_host ''/opt/sb'' = Some ''/opt/sb''"
  by code_simp

lemma example_extract: "extractBinary example_archives [97] example_archive_name ''sendbeam'' = Inr [1, 97]"
  by code_simp

lemma example_root_wf: "fs_wf example_root"
  by (simp add: fs_wf_def example_root_def)

lemma example_root_read: "ReadFile example_root ''/opt/sb'' = Some [9]"
  by (simp add: example_root_def ReadFile_def fs_lookup_def)

lemma example_fault_free: "fault_free example_host ''/opt/sb'' example_root"
  by (simp add: fault_free_def example_host_def example_root_def checkDirWritable_def dir_slash_def fs_lookup_def set_entry_def os_Remove_def Let_def)

lemma example_extracted:
  "extracted_of example_archives example_host \<lparr>ao_TargetPath = ''/opt/sb'', ao_TargetOS = ''linux'', ao_ExpectedSHA256 = h, ao_ArchiveName = example_archive_name\<rparr> [97]
     = Inr [1, 97]"
  using example_extract by (simp add: extracted_of_def TargetCLIBinaryName_def)

lemma example_installs:
  obtains states where "ApplyUpdate example_archives example_host (Inr [97])
     \<lparr>ao_TargetPath = ''/opt/sb'', ao_TargetOS = ''linux'', ao_ExpectedSHA256 = example_hash, ao_ArchiveName = example_archive_name\<rparr> example_root = (None, states)"
proof -
  note h = example_hash_hex
  have "hash_ok \<lparr>ao_TargetPath = ''/opt/sb'', ao_TargetOS = ''linux'', ao_ExpectedSHA256 = example_hash, ao_ArchiveName = example_archive_name\<rparr> [97]"
    using lowerHex_normal [OF h] h by (simp add: hash_ok_def isLowerHex_def) (simp add: example_hash_def)
  from ApplyUpdate_fault_free [OF example_root_wf _ example_fault_free _ this example_extracted] example_target that show thesis by auto
qed


theorem update_swap_window_witness:
  "\<exists>states. ApplyUpdate example_archives example_host (Inr [97])
       \<lparr>ao_TargetPath = ''/opt/sb'', ao_TargetOS = ''linux'', ao_ExpectedSHA256 = example_hash, ao_ArchiveName = example_archive_name\<rparr> example_root = (None, states)
     \<and> (\<exists>st\<in>set states. ReadFile st ''/opt/sb'' = None)"
proof -
  let ?opts = "\<lparr>ao_TargetPath = ''/opt/sb'', ao_TargetOS = ''linux'', ao_ExpectedSHA256 = example_hash, ao_ArchiveName = example_archive_name\<rparr>"
  obtain states where s: "ApplyUpdate example_archives example_host (Inr [97]) ?opts example_root = (None, states)" by (rule example_installs)
  have "target_of example_host (ao_TargetPath ?opts) = Some ''/opt/sb''" "ae_stat example_host"
    using example_target by (simp_all add: example_host_def)
  from update_swap_window [OF example_root_wf this(1) example_root_read this(2) s] s show ?thesis by blast
qed


theorem update_unverified_without_checksums_witness:
  "\<exists>states. Updater_Apply (example_get 404) example_archives example_host example_updater (Some (example_result [])) example_root = (None, states)
     \<and> ReadFile (last states) ''/opt/sb'' = Some [1, 97]"
proof (rule update_unverified_without_checksums [OF example_root_wf _ _ example_fault_free example_decoded _ example_check_unavailable])
  show "target_of example_host (up_ExecutablePath example_updater) = Some ''/opt/sb''" using example_target by (simp add: example_updater_def)
  show "\<forall>rel\<in>set (List.map_filter (release_metadata (example_get 404)) example_releases). rel_Checksums rel = None"
    by (simp add: example_releases_def release_metadata_def example_versions checksum_url_def map_filter_simps example_fetch Let_def)
  show "cr_TargetAsset (example_result []) = Some \<lparr>asset_Name = example_archive_name, asset_Size = 1, asset_DownloadURL = ''d'', asset_SHA256 = []\<rparr>"
    by (simp add: example_result_def Let_def)
qed (use example_extract in \<open>simp_all add: example_updater_def example_result_def example_get_def TargetCLIBinaryName_def Let_def\<close>)


end
