(* ===== verification/Spec2Isabelle.thy ===== *)
theory Spec2Isabelle
  imports ReceiverProps SenderProps JournalOps SignalQueue Supervisor RdvHonest UpdateApply
begin

text \<open>
  SendBeam: end-to-end encrypted file transfer between two peers who share an invite code.

  \<^bold>\<open>The program.\<close>  Two peers meet through a blind signaling server (\<^verbatim>\<open>apps/server/internal/signal\<close>), agree on
  keys, and run a transfer engine (\<^verbatim>\<open>packages/wire\<close>) over whatever byte path the engine packages
  (\<^verbatim>\<open>packages/engine\<close>) provide: a WebRTC channel, or the server's relay.  The sender announces a manifest, streams
  the files in blocks of several frames, keeps a window of unacknowledged blocks and resends after a timeout or a
  change of path; the receiver reassembles and verifies blocks in order, acknowledges each after its write, checks
  every file's digest, and both end with a completion handshake.  Interrupted transfers resume from a durable
  journal after a mutual authentication that proves possession of a secret derived in the first session.

  \<^bold>\<open>Theories and sources.\<close>
  \<^item> \<open>Prelude\<close>: bytes, strings, fixed-width integers, and the two interfaces the components instantiate: \<open>codec\<close> (an
    encoder and a decoder that inverts it) and \<open>machine\<close> (a step function with an invariant that every step keeps;
    it yields the invariant after every sequence of events).
  \<^item> \<open>GoCrypto\<close>, \<open>GoText\<close>, \<open>GoJson\<close>, \<open>GoBase64\<close>: executable models of the parts of Go's standard library the sources
    call: SHA-256, HMAC, HKDF and AES-GCM; UTF-8 and \<^verbatim>\<open>strings\<close>; \<^verbatim>\<open>encoding/json\<close> with its parser, printer and
    decoding into structs; raw URL base64.
  \<^item> \<open>Errors\<close> (\<^verbatim>\<open>errors.go\<close>, \<^verbatim>\<open>transfer_ports.go\<close>): error values, their codes and reasons.
  \<^item> \<open>Frame\<close> (\<^verbatim>\<open>frame.go\<close>, \<^verbatim>\<open>aead.go\<close>): header codec, sealing, opening at an exact counter or from a minimum on.
  \<^item> \<open>Manifest\<close> (\<^verbatim>\<open>safe_path.go\<close>, \<^verbatim>\<open>transfer_set.go\<close>), \<open>Messages\<close> (\<^verbatim>\<open>transfer_messages.go\<close>), \<open>Chunker\<close>
    (\<^verbatim>\<open>transfer_chunker.go\<close>), \<open>Ports\<close> (\<^verbatim>\<open>transfer_ports.go\<close>).
  \<^item> \<open>Receiver\<close> (\<^verbatim>\<open>transfer_receiver.go\<close>): the record \<open>Receiver\<close> has the fields of the struct and a log of what the code
    did (frames sent, blocks written, sinks closed); one definition per method.  \<open>ReceiverTrace\<close> shows how each method
    extends the log, \<open>ReceiverInv\<close> the invariant of a running transfer, \<open>ReceiverProps\<close> the properties.
  \<^item> \<open>Sender\<close> (\<^verbatim>\<open>transfer_sender.go\<close>): \<^verbatim>\<open>Run\<close> is cut at its sends and waits into steps \<open>run_\<dots>\<close> over an explicit program
    counter, which interleave with \<^verbatim>\<open>Handle\<close>, timers, pause, cancel and path changes.  \<open>SenderTrace\<close>, \<open>SenderInv\<close>,
    \<open>SenderLive\<close> and \<open>SenderData\<close> hold the invariants (log, window and timers, wake-ups, contents of blocks),
    \<open>SenderProps\<close> the properties.
  \<^item> \<open>Journal\<close>, \<open>JournalOps\<close> (\<^verbatim>\<open>journal.go\<close>): validation, canonical JSON with checksum, progress; the atomic replacement
    over a file system in which a crash may lose every unsynced write and directory entry.
  \<^item> \<open>Signal\<close> (\<^verbatim>\<open>hub.go\<close>, \<^verbatim>\<open>peer.go\<close>, \<^verbatim>\<open>message.go\<close>): a hub of rooms and peers; readers, writers and the reaper act one
    critical section at a time.  \<open>SignalInv\<close>: seats; \<open>SignalRelay\<close>: credit and budget; \<open>SignalQueue\<close>: queue accounting
    and the properties.
  \<^item> \<open>ResumeAuth\<close> (\<^verbatim>\<open>keyschedule.go\<close>, \<^verbatim>\<open>authmac.go\<close>, \<^verbatim>\<open>resumeauth.go\<close>), \<open>ResumeSpec\<close> (what a session has accepted and
    answered), \<open>ResumeProps\<close>, \<open>ResumePreamble\<close> (\<^verbatim>\<open>resume_preamble.go\<close> and the \<^verbatim>\<open>engineRouter\<close> of \<^verbatim>\<open>driver.go\<close>).
  \<^item> \<open>Supervisor\<close> (\<^verbatim>\<open>packages/engine/supervisor\<close>): life cycle and selection of paths.
  \<^item> \<open>Words\<close> (\<^verbatim>\<open>words.go\<close>), \<open>Spake2\<close> (\<^verbatim>\<open>spake2.go\<close>): invite codes and the password-authenticated exchange.  The curve
    arithmetic is the third-party package nistec: a record of operations, with the group laws of its documentation as
    the hypothesis \<open>nistec_laws\<close>, which the residues modulo the group order satisfy.
  \<^item> \<open>Rendezvous\<close> (\<^verbatim>\<open>packages/engine/rendezvous\<close>): signaling messages, capabilities and the session from pairing to
    established keys; \<open>RdvProps\<close> its invariant, \<open>RdvHonest\<close> the message codec, the honest run and repeated shares.
  \<^item> \<open>UpdateCheck\<close>, \<open>UpdateApply\<close> (\<^verbatim>\<open>apps/cli/internal/updater\<close>): versions and their order, as a locale of three-way
    comparisons interpreted on segments, segment lists and versions; channels, checksum files, the selected release; and the
    installation over the file system of \<open>JournalOps\<close>, with every system call that may fail.
  \<^bold>\<open>How code corresponds to definitions.\<close>  A struct is a record whose fields carry a short prefix, a method a function
  on it.  A method that holds its mutex throughout is one step; where the code releases it (the sender's \<^verbatim>\<open>Run\<close>, the
  server's reader and writer loops, \<^verbatim>\<open>engineRouter.install\<close>, \<^verbatim>\<open>Supervisor.sendOne\<close>) there is one definition per
  critical section and every interleaving is considered.  Whatever the environment decides is an argument of the step:
  the result of a \<^verbatim>\<open>Send\<close> or of a sink, random bytes, the clock, the verdict of a rate limiter, the order in which a
  map is iterated.  A Go error is the left side of a sum, a panic is \<open>None\<close> or, for the second close of a channel, a
  count above one.  \<^verbatim>\<open>uint64\<close> counters are 64-bit words, \<^verbatim>\<open>int\<close> and \<^verbatim>\<open>int64\<close> are integers with the wrap-around or
  the range check written out where it matters.

  \<^bold>\<open>Fuel and termination.\<close>  The JSON parser takes fuel \<open>2 * n + 2\<close> for \<open>n\<close> characters: a lemma of \<open>GoJson\<close> shows that
  more fuel never changes the result.  All other definitions are total; loops end by a measure on the bytes or files left.

  \<^bold>\<open>Limits of the model.\<close>  Error texts are format strings without their arguments.  Callbacks do not call back into the
  component that calls them.  Of a slice member repeated in one control message only the last counts.  The digest
  factory is SHA-256.  Cryptographic strength is not an assumption of any theorem: where a property rests on the
  absence of a collision, the colliding strings are those of the run and are named in the statement.

  \<^bold>\<open>Not modelled.\<close>  The durable store and the sender's resume records (\<^verbatim>\<open>durable.go\<close>, \<^verbatim>\<open>sender_state.go\<close>): directory
  scans, locks and partial files of the operating system around the journal functions that are modelled.  The transports
  (\<^verbatim>\<open>rtc\<close>, \<^verbatim>\<open>relay\<close>, \<^verbatim>\<open>wsclient\<close>) adapt third-party libraries; the rest of \<^verbatim>\<open>driver.go\<close> connects goroutines.  The
  command line, the desktop application, the HTTP server and the network laboratory are user interface,
  configuration and operating-system glue.
\<close>

end
